(* ===== verification/Prelude.thy ===== *)
theory Prelude
  imports Main "HOL-Library.Word" "HOL-Library.Monad_Syntax"
begin

text \<open>
  Shared vocabulary of the development: the C integer types at the widths of the target
  (ARM Cortex-M3: \<open>int\<close>, \<open>size_t\<close> and pointers are 32 bits wide, the machine is
  little-endian), the reading of undefined behaviour, block copies, and the generic facts
  about masks and lists that several components use.

  A C function whose execution can leave the defined part of the language (a call through a
  null function pointer, a dereference of NULL, an access outside its array) or that can fail to
  return is a HOL function into \<open>option\<close>: \<open>None\<close> stands for such an execution, \<open>Some\<close> for a
  normal return. Error codes the code itself returns are ordinary values.
\<close>

unbundle bit_operations_syntax

section \<open>C integer types\<close>

type_synonym u8 = "8 word"
type_synonym u16 = "16 word"
type_synonym u32 = "32 word"
type_synonym u64 = "64 word"
type_synonym octets = "8 word list"

text \<open>
  Signed C integers are \<open>int\<close>; the conversions that truncate are written out. \<open>i8\<close>, \<open>i16\<close> and
  \<open>i32\<close> are the conversions to \<open>int8_t\<close>, \<open>int16_t\<close> and \<open>int32_t\<close> (two's complement).
\<close>

definition i8 :: "int \<Rightarrow> int" where
  "i8 x = signed_take_bit 7 x"

definition i16 :: "int \<Rightarrow> int" where
  "i16 x = signed_take_bit 15 x"

definition i32 :: "int \<Rightarrow> int" where
  "i32 x = signed_take_bit 31 x"

text \<open>C's integer division truncates towards zero.\<close>

definition cdiv :: "int \<Rightarrow> int \<Rightarrow> int" where
  "cdiv a b = sgn a * sgn b * (\<bar>a\<bar> div \<bar>b\<bar>)"

named_theorems cint_simps \<open>conversions between C integer types that change nothing\<close>

lemma i8_id [cint_simps]: "- 128 \<le> x \<Longrightarrow> x \<le> 127 \<Longrightarrow> i8 x = x"
  unfolding i8_def by (rule signed_take_bit_int_eq_self) simp_all

lemma i16_id [cint_simps]: "- 32768 \<le> x \<Longrightarrow> x \<le> 32767 \<Longrightarrow> i16 x = x"
  unfolding i16_def by (rule signed_take_bit_int_eq_self) simp_all

lemma i32_id [cint_simps]: "- 2147483648 \<le> x \<Longrightarrow> x \<le> 2147483647 \<Longrightarrow> i32 x = x"
  unfolding i32_def by (rule signed_take_bit_int_eq_self) simp_all

lemma i8_range: "- 128 \<le> i8 x \<and> i8 x \<le> 127"
  using signed_take_bit_int_greater_eq_minus_exp [of 7 x] signed_take_bit_int_less_exp [of 7 x]
  by (simp add: i8_def)

lemma i16_range: "- 32768 \<le> i16 x \<and> i16 x \<le> 32767"
  using signed_take_bit_int_greater_eq_minus_exp [of 15 x] signed_take_bit_int_less_exp [of 15 x]
  by (simp add: i16_def)

section \<open>Masks\<close>

named_theorems mask_simps \<open>conjunction with a mask, read as a remainder\<close>

lemma unat_and_mask: "unat (x AND mask n) = unat (x :: 'a::len word) mod 2 ^ n"
  by (simp flip: take_bit_eq_mask take_bit_eq_mod add: unsigned_take_bit_eq)

lemma unat_and_7 [mask_simps]: "unat (x AND 7 :: u32) = unat x mod 8"
  using unat_and_mask [of x 3] by (simp add: mask_eq_exp_minus_1)

lemma unat_and_15 [mask_simps]: "unat (x AND 15 :: u32) = unat x mod 16"
  using unat_and_mask [of x 4] by (simp add: mask_eq_exp_minus_1)

lemma unat_and_63_8 [mask_simps]: "unat (x AND 63 :: u8) = unat x mod 64"
  using unat_and_mask [of x 6] by (simp add: mask_eq_exp_minus_1)

lemma unat_and_63 [mask_simps]: "unat (x AND 63 :: u32) = unat x mod 64"
  using unat_and_mask [of x 6] by (simp add: mask_eq_exp_minus_1)

section \<open>Words bit by bit\<close>

lemma word16_eqI: "(\<forall>n\<in>{0,1,2,3,4,5,6,7,8,9,10,11,12,13,14,15}. bit v n \<longleftrightarrow> bit w n) \<Longrightarrow> v = (w :: u16)"
proof (rule bit_word_eqI)
  fix n assume a: "\<forall>n\<in>{0,1,2,3,4,5,6,7,8,9,10,11,12,13,14,15}. bit v n \<longleftrightarrow> bit w n" and "n < LENGTH(16)"
  then have "n < 16" by simp
  then have "n \<in> {0,1,2,3,4,5,6,7,8,9,10,11,12,13,14,15}" by (simp, presburger)
  with a show "bit v n = bit w n" by blast
qed


lemma word8_eqI: "(\<forall>n\<in>{0,1,2,3,4,5,6,7}. bit v n \<longleftrightarrow> bit w n) \<Longrightarrow> v = (w :: u8)"
proof (rule bit_word_eqI)
  fix n assume a: "\<forall>n\<in>{0,1,2,3,4,5,6,7}. bit v n \<longleftrightarrow> bit w n" and "n < LENGTH(8)"
  then have "n < 8" by simp
  then have "n \<in> {0,1,2,3,4,5,6,7}" by (simp, presburger)
  with a show "bit v n = bit w n" by blast
qed

lemma no_bit_16: "16 \<le> n \<Longrightarrow> \<not> bit (w :: u16) n"
  using bit_imp_le_length by fastforce

lemma no_bit_8: "8 \<le> n \<Longrightarrow> \<not> bit (w :: u8) n"
  using bit_imp_le_length by fastforce

lemma bit16_iff: "v = (w :: u16) \<longleftrightarrow> (\<forall>n\<in>{0,1,2,3,4,5,6,7,8,9,10,11,12,13,14,15}. bit v n = bit w n)"
  using word16_eqI by blast

lemma bit8_iff: "v = (w :: u8) \<longleftrightarrow> (\<forall>n\<in>{0,1,2,3,4,5,6,7}. bit v n = bit w n)"
  using word8_eqI by blast

lemma word32_eqI:
  assumes "\<forall>n\<in>{0,1,2,3,4,5,6,7,8,9,10,11,12,13,14,15,16,17,18,19,20,21,22,23,24,25,26,27,28,29,30,31}.
     bit v n \<longleftrightarrow> bit w n"
  shows "v = (w :: u32)"
proof (rule bit_word_eqI)
  fix n assume "n < LENGTH(32)"
  then have "n < 32" by simp
  then have "n \<in> {0,1,2,3,4,5,6,7,8,9,10,11,12,13,14,15,16,17,18,19,20,21,22,23,24,25,26,27,28,29,30,31}"
    by (simp, presburger)
  with assms show "bit v n = bit w n" by blast
qed

lemma no_bit_32: "32 \<le> n \<Longrightarrow> \<not> bit (w :: u32) n"
  using bit_imp_le_length by fastforce

section \<open>Integers in memory\<close>

text \<open>The octets of an integer in memory, and the integer a list of octets is.\<close>

definition mem16 :: "u16 \<Rightarrow> octets" where
  "mem16 w = [ucast w, ucast (drop_bit 8 w)]"

definition mem32 :: "u32 \<Rightarrow> octets" where
  "mem32 w = [ucast w, ucast (drop_bit 8 w), ucast (drop_bit 16 w), ucast (drop_bit 24 w)]"

fun of_mem16 :: "octets \<Rightarrow> u16" where
  "of_mem16 [a, b] = ucast a OR push_bit 8 (ucast b)"
| "of_mem16 _ = 0"

fun of_mem32 :: "octets \<Rightarrow> u32" where
  "of_mem32 [a, b, c, d] = ucast a OR push_bit 8 (ucast b) OR push_bit 16 (ucast c) OR push_bit 24 (ucast d)"
| "of_mem32 _ = 0"

lemma length_mem [simp]: "length (mem16 a) = 2" "length (mem32 b) = 4"
  by (simp_all add: mem16_def mem32_def)

lemma of_mem32_mem32 [simp]: "of_mem32 (mem32 w) = w"
  unfolding mem32_def of_mem32.simps
  by (rule word32_eqI) (simp add: bit_simps no_bit_32)

lemma mem32_of_mem32: "length bs = 4 \<Longrightarrow> mem32 (of_mem32 bs) = bs"
proof -
  assume "length bs = 4"
  then obtain a b c d where "bs = [a, b, c, d]" by (auto simp: numeral_eq_Suc length_Suc_conv)
  then show ?thesis
    unfolding mem32_def by (auto intro!: word8_eqI simp: bit_simps no_bit_8)
qed

section \<open>Block copies\<close>

text \<open>
  \<open>memcpy\<close> of the octets \<open>src\<close> over the array \<open>dst\<close> from offset \<open>off\<close> on: defined only inside the
  destination.
\<close>

definition memcpy :: "'a list \<Rightarrow> nat \<Rightarrow> 'a list \<Rightarrow> 'a list option" where
  "memcpy dst off src =
     (if off + length src \<le> length dst
      then Some (take off dst @ src @ drop (off + length src) dst) else None)"

text \<open>The first \<open>n\<close> elements behind a pointer whose remaining array is \<open>p\<close>.\<close>

definition load :: "'a list \<Rightarrow> nat \<Rightarrow> 'a list option" where
  "load p n = (if n \<le> length p then Some (take n p) else None)"

lemma memcpy_length: "memcpy dst off src = Some d \<Longrightarrow> length d = length dst"
  by (auto simp: memcpy_def split: if_splits)

lemma memcpy_0: "length ys \<le> length zs \<Longrightarrow> memcpy zs 0 ys = Some (ys @ drop (length ys) zs)"
  by (simp add: memcpy_def)

text \<open>Adjacent copies are one copy.\<close>

lemma memcpy_memcpy:
  "k = a + length xs \<Longrightarrow> (memcpy buf a xs \<bind> (\<lambda>b. memcpy b k ys)) = memcpy buf a (xs @ ys)"
  by (auto simp: memcpy_def ac_simps)

lemma memcpy_memcpy_bind:
  "k = a + length xs \<Longrightarrow> (memcpy buf a xs \<bind> (\<lambda>b. memcpy b k ys \<bind> f)) = (memcpy buf a (xs @ ys) \<bind> f)"
  by (simp flip: memcpy_memcpy add: bind_assoc)

lemma load_self [simp]: "load p (length p) = Some p"
  by (simp add: load_def)

lemma bind_Some_iff: "(m \<bind> f) = Some y \<longleftrightarrow> (\<exists>x. m = Some x \<and> f x = Some y)"
  by (cases m) auto

section \<open>Lists as fixed arrays\<close>

lemma take_list_update_last:
  "n < length xs \<Longrightarrow> take (Suc n) (xs[n := x]) = take n xs @ [x]"
  by (simp add: take_Suc_conv_app_nth)

lemma map_upt_drop: "map f [n..<m] = drop n (map f [0..<m])"
  by (simp add: drop_map)

end
