(* ===== verification/PotRingbuffer.thy ===== *)
theory PotRingbuffer
  imports Prelude
begin

text \<open>
  The packet history of the serial framing protocol: \<open>src/src/potringbuffer.c\<close> and its header.
  A ring of eight packets whose two indices run modulo sixteen, so that a full and an empty ring
  are told apart. The abstraction of a ring is the list of its packets, oldest first.
\<close>

section \<open>Data\<close>

definition SFP_CONFIG_HISTORY_CAPACITY :: u32 where
  "SFP_CONFIG_HISTORY_CAPACITY = 8"

definition SFP_CONFIG_MAX_PACKET_SIZE :: nat where
  "SFP_CONFIG_MAX_PACKET_SIZE = 256"

record SFPpacket =
  buf :: octets
  len :: nat

record PotRingbuffer =
  mBegin :: u32
  mEnd :: u32
  mData :: "SFPpacket list"

section \<open>Operations\<close>

definition potRingbufferInit :: "PotRingbuffer \<Rightarrow> PotRingbuffer" where
  "potRingbufferInit p = p\<lparr>mBegin := 0, mEnd := 0\<rparr>"

definition potRingbufferCapacity :: "PotRingbuffer \<Rightarrow> u32" where
  "potRingbufferCapacity p = SFP_CONFIG_HISTORY_CAPACITY"

definition potRingbufferEmpty :: "PotRingbuffer \<Rightarrow> bool" where
  "potRingbufferEmpty p \<longleftrightarrow> mBegin p = mEnd p"

definition potRingbufferFull :: "PotRingbuffer \<Rightarrow> bool" where
  "potRingbufferFull p \<longleftrightarrow> (mBegin p XOR SFP_CONFIG_HISTORY_CAPACITY) = mEnd p"

definition potRingbufferSize :: "PotRingbuffer \<Rightarrow> u32" where
  "potRingbufferSize p =
     (if potRingbufferFull p then SFP_CONFIG_HISTORY_CAPACITY
      else (mEnd p - mBegin p) AND (SFP_CONFIG_HISTORY_CAPACITY - 1))"

text \<open>The pointer \<open>&p->mData[...]\<close> is modelled by the index it designates.\<close>

definition potRingbufferWrappedAccess :: "PotRingbuffer \<Rightarrow> u32 \<Rightarrow> nat" where
  "potRingbufferWrappedAccess p index = unat (index AND (SFP_CONFIG_HISTORY_CAPACITY - 1))"

definition potRingbufferAt :: "PotRingbuffer \<Rightarrow> u32 \<Rightarrow> nat" where
  "potRingbufferAt p index = potRingbufferWrappedAccess p (mBegin p + index)"

definition potRingbufferReverseAt :: "PotRingbuffer \<Rightarrow> u32 \<Rightarrow> nat" where
  "potRingbufferReverseAt p index = potRingbufferWrappedAccess p (mEnd p - index)"

definition potRingbufferFront :: "PotRingbuffer \<Rightarrow> nat" where
  "potRingbufferFront p = potRingbufferAt p 0"

definition potRingbufferBack :: "PotRingbuffer \<Rightarrow> nat" where
  "potRingbufferBack p = potRingbufferReverseAt p 1"

definition potRingbufferAdd :: "u32 \<Rightarrow> u32 \<Rightarrow> u32" where
  "potRingbufferAdd beginOrEnd amount =
     (beginOrEnd + amount) AND (2 * SFP_CONFIG_HISTORY_CAPACITY - 1)"

definition potRingbufferIncr :: "u32 \<Rightarrow> u32" where
  "potRingbufferIncr beginOrEnd = potRingbufferAdd beginOrEnd 1"

definition potRingbufferDecr :: "u32 \<Rightarrow> u32" where
  "potRingbufferDecr beginOrEnd = potRingbufferAdd beginOrEnd (- 1)"

definition potRingbufferPushBack :: "PotRingbuffer \<Rightarrow> SFPpacket \<Rightarrow> PotRingbuffer" where
  "potRingbufferPushBack p elem =
     (let p = (if potRingbufferFull p then p\<lparr>mBegin := potRingbufferIncr (mBegin p)\<rparr> else p);
          p = p\<lparr>mEnd := potRingbufferIncr (mEnd p)\<rparr>
      in p\<lparr>mData := (mData p)[potRingbufferBack p := elem]\<rparr>)"

definition potRingbufferPushFront :: "PotRingbuffer \<Rightarrow> SFPpacket \<Rightarrow> PotRingbuffer" where
  "potRingbufferPushFront p elem =
     (let p = (if potRingbufferFull p then p\<lparr>mEnd := potRingbufferDecr (mEnd p)\<rparr> else p);
          p = p\<lparr>mBegin := potRingbufferDecr (mBegin p)\<rparr>
      in p\<lparr>mData := (mData p)[potRingbufferFront p := elem]\<rparr>)"

definition potRingbufferPopFront :: "PotRingbuffer \<Rightarrow> PotRingbuffer" where
  "potRingbufferPopFront p = p\<lparr>mBegin := potRingbufferIncr (mBegin p)\<rparr>"

definition potRingbufferPopBack :: "PotRingbuffer \<Rightarrow> PotRingbuffer" where
  "potRingbufferPopBack p = p\<lparr>mEnd := potRingbufferDecr (mEnd p)\<rparr>"

lemmas pot_defs =
  potRingbufferCapacity_def potRingbufferEmpty_def potRingbufferFull_def potRingbufferSize_def
  potRingbufferWrappedAccess_def potRingbufferAt_def potRingbufferReverseAt_def
  potRingbufferFront_def potRingbufferBack_def potRingbufferAdd_def potRingbufferIncr_def
  potRingbufferDecr_def SFP_CONFIG_HISTORY_CAPACITY_def

section \<open>Interface: a bounded log\<close>

text \<open>
  What the transmitter needs of its history: a sequence of at most \<open>cap\<close> elements to which one is
  appended at the back (the oldest leaves when there is no room) and which is read by position
  and consumed from the front.
\<close>

definition keep_last :: "nat \<Rightarrow> 'a list \<Rightarrow> 'a list" where
  "keep_last n xs = drop (length xs - n) xs"

lemma length_keep_last [simp]: "length (keep_last n xs) = min n (length xs)"
  by (simp add: keep_last_def)

lemma keep_last_all: "length xs \<le> n \<Longrightarrow> keep_last n xs = xs"
  by (simp add: keep_last_def)

lemma keep_last_append: "keep_last n (keep_last n xs @ ys) = keep_last n (xs @ ys)"
  by (cases "length xs \<le> n") (auto simp: keep_last_def add.commute)

locale bounded_log =
  fixes log_inv :: "'s \<Rightarrow> bool"
    and contents :: "'s \<Rightarrow> 'a list"
    and cap :: nat
    and count :: "'s \<Rightarrow> nat"
    and is_empty :: "'s \<Rightarrow> bool"
    and fetch :: "'s \<Rightarrow> nat \<Rightarrow> 'a"
    and push :: "'s \<Rightarrow> 'a \<Rightarrow> 's"
    and pop :: "'s \<Rightarrow> 's"
  assumes count: "log_inv s \<Longrightarrow> count s = length (contents s)"
    and bounded: "log_inv s \<Longrightarrow> length (contents s) \<le> cap"
    and is_empty: "log_inv s \<Longrightarrow> is_empty s \<longleftrightarrow> contents s = []"
    and fetch: "log_inv s \<Longrightarrow> i < length (contents s) \<Longrightarrow> fetch s i = contents s ! i"
    and push_inv: "log_inv s \<Longrightarrow> log_inv (push s x)"
    and push: "log_inv s \<Longrightarrow> contents (push s x) = keep_last cap (contents s @ [x])"
    and pop_inv: "log_inv s \<Longrightarrow> contents s \<noteq> [] \<Longrightarrow> log_inv (pop s)"
    and pop: "log_inv s \<Longrightarrow> contents s \<noteq> [] \<Longrightarrow> contents (pop s) = tl (contents s)"
begin

lemma pops:
  "log_inv s \<Longrightarrow> n \<le> length (contents s) \<Longrightarrow>
     log_inv ((pop ^^ n) s) \<and> contents ((pop ^^ n) s) = drop n (contents s)"
proof (induction n)
  case (Suc n)
  then have "drop n (contents s) \<noteq> []" by simp
  with Suc show ?case by (auto simp: pop_inv pop drop_Suc tl_drop)
qed simp

lemma pushes:
  "log_inv s \<Longrightarrow>
     log_inv (foldl push s xs) \<and> contents (foldl push s xs) = keep_last cap (contents s @ xs)"
proof (induction xs rule: rev_induct)
  case Nil
  then show ?case by (simp add: keep_last_all bounded)
next
  case (snoc x xs)
  then show ?case using keep_last_append [of cap "contents s @ xs" "[x]"] by (simp add: push_inv push)
qed

lemma fetch_all: "log_inv s \<Longrightarrow> map (fetch s) [0..<count s] = contents s"
  by (rule nth_equalityI) (simp_all add: count fetch)

end

section \<open>The ring as a sequence\<close>

lemma xor_8: "unat (b::u32) < 16 \<Longrightarrow> unat (b XOR 8) = (unat b + 8) mod 16"
proof -
  assume "unat b < 16"
  have "\<forall>n\<in>set [0..<16]. unat (word_of_nat n XOR 8 :: u32) = (n + 8) mod 16" by code_simp
  with \<open>unat b < 16\<close> have "unat (word_of_nat (unat b) XOR 8 :: u32) = (unat b + 8) mod 16"
    by (metis atLeastLessThan_iff atLeastLessThan_upt zero_le)
  then show ?thesis by simp
qed

text \<open>The distance from one index to the other, modulo sixteen.\<close>

definition ring_dist :: "nat \<Rightarrow> nat \<Rightarrow> nat" where
  "ring_dist b e = (if b \<le> e then e - b else e + 16 - b)"

definition pot_count :: "PotRingbuffer \<Rightarrow> nat" where
  "pot_count p = ring_dist (unat (mBegin p)) (unat (mEnd p))"

definition pot_inv :: "PotRingbuffer \<Rightarrow> bool" where
  "pot_inv p \<longleftrightarrow>
     unat (mBegin p) < 16 \<and> unat (mEnd p) < 16 \<and> length (mData p) = 8 \<and> pot_count p \<le> 8"

lemma ring_dist_0: "b < 16 \<Longrightarrow> ring_dist b e = 0 \<longleftrightarrow> b = e"
  by (auto simp: ring_dist_def)

lemma ring_dist_8: "b < 16 \<Longrightarrow> e < 16 \<Longrightarrow> ring_dist b e = 8 \<longleftrightarrow> (b + 8) mod 16 = e"
  by (auto simp: ring_dist_def mod_if)

lemma mod8_cancel: "(x + b) mod 8 = (d + b) mod 8 \<Longrightarrow> x mod 8 = d mod (8::nat)"
  by (auto simp: nat_mod_eq_iff)

lemma ring_dist_add: "b < 16 \<Longrightarrow> e < 16 \<Longrightarrow> (ring_dist b e + b) mod 16 = e"
  by (auto simp: ring_dist_def)


lemma ring_dist_mod8: "b < 16 \<Longrightarrow> e < 16 \<Longrightarrow> (x + b) mod 8 = e mod 8 \<Longrightarrow> ring_dist b e \<noteq> 8 \<Longrightarrow> ring_dist b e \<le> 8 \<Longrightarrow> x mod 8 = ring_dist b e"
proof -
  assume a: "b < 16" "e < 16" "(x + b) mod 8 = e mod 8" "ring_dist b e \<noteq> 8" "ring_dist b e \<le> 8"
  have "(ring_dist b e + b) mod 16 mod 8 = e mod 8"
    using ring_dist_add [OF a(1,2)] by simp
  then have "(x + b) mod 8 = (ring_dist b e + b) mod 8"
    using a(3) by (simp add: mod_mod_cancel)
  from mod8_cancel [OF this] a(4,5) show ?thesis by simp
qed

lemma full_iff: "pot_inv p \<Longrightarrow> potRingbufferFull p \<longleftrightarrow> pot_count p = 8"
proof -
  assume a: "pot_inv p"
  have "potRingbufferFull p \<longleftrightarrow> unat (mBegin p XOR 8) = unat (mEnd p)"
    by (simp add: pot_defs word_unat_eq_iff del: xor_8)
  then show ?thesis
    using a by (simp add: xor_8 pot_inv_def pot_count_def ring_dist_8)
qed

lemma empty_iff: "pot_inv p \<Longrightarrow> potRingbufferEmpty p \<longleftrightarrow> pot_count p = 0"
  by (simp add: pot_inv_def pot_count_def potRingbufferEmpty_def word_unat_eq_iff ring_dist_0)

lemma unat_add_mod8: "(unat (a + b :: u32)) mod 8 = (unat a + unat b) mod 8"
  by (simp add: unat_word_ariths mod_mod_cancel)

lemma add_16: "unat (potRingbufferAdd a b) = (unat a + unat b) mod 16"
  by (simp add: pot_defs mask_simps unat_word_ariths mod_mod_cancel)

lemma size_eq: "pot_inv p \<Longrightarrow> unat (potRingbufferSize p) = pot_count p"
proof -
  assume a: "pot_inv p"
  show ?thesis
  proof (cases "potRingbufferFull p")
    case True with full_iff [OF a] show ?thesis by (simp add: potRingbufferSize_def SFP_CONFIG_HISTORY_CAPACITY_def)
  next
    case False
    have "(unat (mEnd p - mBegin p) + unat (mBegin p)) mod 8 = unat (mEnd p) mod 8"
      using unat_add_mod8 [of "mEnd p - mBegin p" "mBegin p"] by simp
    then have "unat (mEnd p - mBegin p) mod 8 = pot_count p"
      using a False full_iff [OF a] unfolding pot_inv_def pot_count_def
      by (intro ring_dist_mod8) simp_all
    with False show ?thesis
      by (simp add: potRingbufferSize_def SFP_CONFIG_HISTORY_CAPACITY_def mask_simps)
  qed
qed

lemma incr_16: "unat (potRingbufferIncr a) = (unat a + 1) mod 16"
  by (simp add: potRingbufferIncr_def add_16)

lemma decr_16: "unat (potRingbufferDecr a) = (unat a + 15) mod 16"
proof -
  have "unat (- 1 :: u32) mod 16 = 15 mod 16" by (simp add: unsigned_minus_1_eq_mask mask_eq_exp_minus_1)
  then show ?thesis
    unfolding potRingbufferDecr_def add_16 by (rule mod_add_cong [OF refl])
qed

text \<open>The elements of a ring of eight slots.\<close>

definition ring :: "'a list \<Rightarrow> nat \<Rightarrow> nat \<Rightarrow> 'a list" where
  "ring d b n = map (\<lambda>i. d ! ((b + i) mod 8)) [0..<n]"

definition pot_contents :: "PotRingbuffer \<Rightarrow> SFPpacket list" where
  "pot_contents p = ring (mData p) (unat (mBegin p)) (pot_count p)"

lemma length_ring [simp]: "length (ring d b n) = n"
  by (simp add: ring_def)

lemma ring_nth [simp]: "i < n \<Longrightarrow> ring d b n ! i = d ! ((b + i) mod 8)"
  by (simp add: ring_def)

lemma ring_mod16 [simp]: "ring d (b mod 16) n = ring d b n"
proof -
  have "(b mod 16 + i) mod 8 = (b + i) mod 8" for i
    by (rule mod_add_cong) (simp_all add: mod_mod_cancel)
  then show ?thesis by (simp add: ring_def)
qed

lemma ring_slot_neq: "i < n \<Longrightarrow> n < 8 \<Longrightarrow> (b + i) mod 8 \<noteq> (b + n) mod (8::nat)"
  using mod8_cancel [of i b n] by (auto simp: add.commute)

lemma ring_push:
  assumes "length d = 8" "n < 8"
  shows "ring (d[(b + n) mod 8 := x]) b (Suc n) = ring d b n @ [x]"
proof (rule nth_equalityI)
  fix i assume "i < length (ring (d[(b + n) mod 8 := x]) b (Suc n))"
  then show "ring (d[(b + n) mod 8 := x]) b (Suc n) ! i = (ring d b n @ [x]) ! i"
    using assms ring_slot_neq [of i n b, THEN not_sym] by (cases "i = n") (simp_all add: nth_append)
qed simp

lemma ring_tl: "ring d (Suc b) n = tl (ring d b (Suc n))"
  by (rule nth_equalityI) (simp_all add: nth_tl)

lemma ring_Suc: "ring d b (Suc n) = d ! (b mod 8) # ring d (Suc b) n"
  by (rule nth_equalityI) (auto simp: nth_Cons split: nat.split)

lemma ring_butlast: "ring d b n = butlast (ring d b (Suc n))"
  by (simp add: ring_def)

lemma ring_update_other: 
  assumes "\<And>i. i < n \<Longrightarrow> (b + i) mod 8 \<noteq> k"
  shows "ring (d[k := x]) b n = ring d b n"
  using assms [THEN not_sym] by (intro nth_equalityI) simp_all

lemma ring_push_front:
  assumes "length d = 8" "n < 8"
  shows "ring (d[b mod 8 := x]) b (Suc n) = x # ring d (Suc b) n"
proof -
  have "(Suc b + i) mod 8 \<noteq> b mod 8" if "i < n" for i
    using ring_slot_neq [of 0 "Suc i" b] that assms by simp
  then show ?thesis using assms by (simp add: ring_Suc ring_update_other)
qed

lemma unat_at: "potRingbufferAt p i = (unat (mBegin p) + unat i) mod 8"
  by (simp add: pot_defs mask_simps unat_add_mod8)

lemma unat_back: "potRingbufferBack p = (unat (mEnd p) + 7) mod 8"
proof -
  have "(unat (mEnd p - 1) + 1) mod 8 = (unat (mEnd p) + 7 + 1) mod 8"
    using unat_add_mod8 [of "mEnd p - 1" 1] by simp
  from mod8_cancel [OF this] show ?thesis by (simp add: pot_defs mask_simps)
qed

lemma pot_inv_init: "length (mData p) = 8 \<Longrightarrow> pot_inv (potRingbufferInit p)"
  by (simp add: pot_inv_def potRingbufferInit_def pot_count_def ring_dist_def)

lemma contents_init: "pot_contents (potRingbufferInit p) = []"
  by (simp add: pot_contents_def potRingbufferInit_def pot_count_def ring_dist_def ring_def)

lemma ring_dist_incr_e: "b < 16 \<Longrightarrow> e < 16 \<Longrightarrow> ring_dist b e < 15 \<Longrightarrow> ring_dist b (Suc e mod 16) = Suc (ring_dist b e)"
  by (auto simp: ring_dist_def mod_if)

lemma ring_dist_incr_b: "b < 16 \<Longrightarrow> e < 16 \<Longrightarrow> ring_dist b e > 0 \<Longrightarrow> ring_dist (Suc b mod 16) e = ring_dist b e - 1"
  by (auto simp: ring_dist_def mod_if)

lemma ring_dist_decr_e: "b < 16 \<Longrightarrow> e < 16 \<Longrightarrow> ring_dist b e > 0 \<Longrightarrow> ring_dist b ((e + 15) mod 16) = ring_dist b e - 1"
  by (auto simp: ring_dist_def mod_if)

lemma ring_dist_decr_b: "b < 16 \<Longrightarrow> e < 16 \<Longrightarrow> ring_dist b e < 15 \<Longrightarrow> ring_dist ((b + 15) mod 16) e = Suc (ring_dist b e)"
  by (auto simp: ring_dist_def mod_if)

lemma suc_mod16_7: "(Suc e mod 16 + 7) mod 8 = e mod 8"
  using mod_add_cong [of "Suc e mod 16" 8 "Suc e" 7 7] by (simp add: mod_mod_cancel)

lemma ring_dist_add8: "b < 16 \<Longrightarrow> e < 16 \<Longrightarrow> e mod 8 = (b + ring_dist b e) mod 8"
  using ring_dist_add [of b e] mod_mod_cancel [of 8 16 "b + ring_dist b e"] by (simp add: add.commute)

lemma ring_push_full:
  assumes "length d = 8"
  shows "ring (d[(b + 8) mod 8 := x]) (Suc b) 8 = keep_last 8 (ring d b 8 @ [x])"
proof -
  have "ring (d[(Suc b + 7) mod 8 := x]) (Suc b) (Suc 7) = ring d (Suc b) 7 @ [x]"
    by (rule ring_push) (simp_all add: assms)
  also have "\<dots> = tl (ring d b (Suc 7)) @ [x]" by (simp only: ring_tl)
  also have "\<dots> = keep_last 8 (ring d b 8 @ [x])"
    by (cases "ring d b 8") (auto simp: keep_last_def dest: arg_cong [where f=length])
  finally show ?thesis by simp
qed

lemma contents_pushback:
  assumes "pot_inv p"
  shows "pot_inv (potRingbufferPushBack p x) \<and>
         pot_contents (potRingbufferPushBack p x) = keep_last 8 (pot_contents p @ [x])"
proof -
  let ?b = "unat (mBegin p)" and ?e = "unat (mEnd p)" and ?n = "pot_count p"
  have i: "?b < 16" "?e < 16" "length (mData p) = 8" "?n \<le> 8" "ring_dist ?b ?e = ?n"
    using assms by (simp_all add: pot_inv_def pot_count_def)
  have e8: "(Suc ?e mod 16 + 7) mod 8 = ?e mod 8" by (rule suc_mod16_7)
  have slot: "?e mod 8 = (?b + ?n) mod 8"
    using ring_dist_add8 [OF i(1,2)] i(5) by simp
  show ?thesis
  proof (cases "potRingbufferFull p")
    case False
    then have "?n < 8" using i(4) full_iff [OF assms] by simp
    then show ?thesis using False i(1-3) ring_push [of "mData p" ?n ?b x] slot e8
      by (simp add: potRingbufferPushBack_def pot_inv_def pot_count_def pot_contents_def unat_back
        incr_16 ring_dist_incr_e keep_last_all)
  next
    case True
    then have n: "?n = 8" using full_iff [OF assms] by simp
    have "ring_dist (Suc ?b mod 16) ?e = 7"
      using i n by (simp add: ring_dist_incr_b)
    then have d: "ring_dist (Suc ?b mod 16) (Suc ?e mod 16) = 8"
      using ring_dist_incr_e [of "Suc ?b mod 16" ?e] i(2) by simp
    have "ring ((mData p)[?e mod 8 := x]) (Suc ?b) 8 = keep_last 8 (ring (mData p) ?b 8 @ [x])"
      using ring_push_full [OF i(3)] slot n by simp
    then show ?thesis using True i(1-3) n d e8
      by (simp add: potRingbufferPushBack_def pot_inv_def pot_count_def pot_contents_def unat_back
        incr_16)
  qed
qed

lemma contents_popfront:
  assumes "pot_inv p" "pot_contents p \<noteq> []"
  shows "pot_inv (potRingbufferPopFront p) \<and>
         pot_contents (potRingbufferPopFront p) = tl (pot_contents p)"
proof -
  have n: "0 < pot_count p"
    using assms(2) by (cases "pot_count p") (simp_all add: pot_contents_def ring_def)
  then have "ring (mData p) (Suc (unat (mBegin p))) (pot_count p - 1)
      = tl (ring (mData p) (unat (mBegin p)) (pot_count p))"
    using ring_tl [of "mData p" _ "pot_count p - 1"] by simp
  then show ?thesis using assms(1) n
    by (auto simp: potRingbufferPopFront_def pot_inv_def pot_count_def pot_contents_def incr_16
      ring_dist_incr_b)
qed

lemma contents_popback:
  assumes "pot_inv p" "pot_contents p \<noteq> []"
  shows "pot_inv (potRingbufferPopBack p) \<and>
         pot_contents (potRingbufferPopBack p) = butlast (pot_contents p)"
proof -
  have n: "0 < pot_count p"
    using assms(2) by (cases "pot_count p") (simp_all add: pot_contents_def ring_def)
  then have "ring (mData p) (unat (mBegin p)) (pot_count p - 1)
      = butlast (ring (mData p) (unat (mBegin p)) (pot_count p))"
    using ring_butlast [of "mData p" _ "pot_count p - 1"] by simp
  then show ?thesis using assms(1) n
    by (auto simp: potRingbufferPopBack_def pot_inv_def pot_count_def pot_contents_def decr_16
      ring_dist_decr_e)
qed

lemma ring_Suc_mod: "Suc b mod 8 = c mod 8 \<Longrightarrow> ring d (Suc b) n = ring d c n"
  by (simp add: ring_def) (metis mod_add_cong add_Suc)

lemma suc_decr_mod8: "Suc ((b + 15) mod 16) mod 8 = b mod 8"
proof -
  have "((b + 15) mod 16 + 1) mod 8 = (b + 15 + 1) mod 8"
    by (rule mod_add_cong) (simp_all add: mod_mod_cancel)
  then show ?thesis using mod_mult_self1 [of b 2 8] by (simp add: add.commute)
qed

lemma contents_pushfront:
  assumes "pot_inv p"
  shows "pot_inv (potRingbufferPushFront p x) \<and>
         pot_contents (potRingbufferPushFront p x) = take 8 (x # pot_contents p)"
proof -
  let ?b = "unat (mBegin p)" and ?e = "unat (mEnd p)" and ?n = "pot_count p"
  have i: "?b < 16" "?e < 16" "length (mData p) = 8" "?n \<le> 8" "ring_dist ?b ?e = ?n"
    using assms by (simp_all add: pot_inv_def pot_count_def)
  let ?c = "(?b + 15) mod 16"
  have "ring (mData p) (Suc ?c) m = ring (mData p) ?b m" for m
    by (rule ring_Suc_mod) (rule suc_decr_mod8)
  then have put: "m < 8 \<Longrightarrow> ring ((mData p)[?c mod 8 := x]) ?c (Suc m) = x # ring (mData p) ?b m" for m
    using ring_push_front [OF i(3), of m ?c] by simp
  show ?thesis
  proof (cases "potRingbufferFull p")
    case False
    then have "?n < 8" using i(4) full_iff [OF assms] by simp
    then show ?thesis using False i(1-3) put [of ?n]
      by (simp add: potRingbufferPushFront_def pot_inv_def pot_count_def pot_contents_def
        potRingbufferFront_def unat_at decr_16 ring_dist_decr_b)
  next
    case True
    then have n: "?n = 8" using full_iff [OF assms] by simp
    have "ring_dist ?b ((?e + 15) mod 16) = 7"
      using i n by (simp add: ring_dist_decr_e)
    then have d: "ring_dist ?c ((?e + 15) mod 16) = 8"
      using ring_dist_decr_b [of ?b "(?e + 15) mod 16"] i(1) by simp
    have "ring (mData p) ?b 7 = take 7 (ring (mData p) ?b 8)"
      by (simp add: ring_def take_map)
    then show ?thesis using True i(1-3) n d put [of 7]
      by (simp add: potRingbufferPushFront_def pot_inv_def pot_count_def pot_contents_def
        potRingbufferFront_def unat_at decr_16)
  qed
qed

section \<open>The ring implements the bounded log\<close>

abbreviation pot_fetch :: "PotRingbuffer \<Rightarrow> nat \<Rightarrow> SFPpacket" where
  "pot_fetch p i \<equiv> mData p ! potRingbufferAt p (word_of_nat i)"

lemma pot_count_length: "pot_count p = length (pot_contents p)"
  by (simp add: pot_contents_def)

lemma pot_fetch_contents:
  assumes "pot_inv p" "i < length (pot_contents p)"
  shows "pot_fetch p i = pot_contents p ! i"
proof -
  have "i < 8" using assms by (simp add: pot_inv_def pot_count_length)
  then have "unat (word_of_nat i :: u32) = i" by (simp add: unat_of_nat)
  then show ?thesis using assms(2) by (simp add: unat_at pot_contents_def)
qed

interpretation history: bounded_log pot_inv pot_contents 8 "\<lambda>p. unat (potRingbufferSize p)"
  potRingbufferEmpty pot_fetch potRingbufferPushBack potRingbufferPopFront
proof unfold_locales
  fix p i x
  show "pot_inv p \<Longrightarrow> unat (potRingbufferSize p) = length (pot_contents p)"
    by (simp add: size_eq pot_count_length)
  show "pot_inv p \<Longrightarrow> length (pot_contents p) \<le> 8"
    by (simp add: pot_inv_def pot_count_length)
  show "pot_inv p \<Longrightarrow> potRingbufferEmpty p \<longleftrightarrow> pot_contents p = []"
    by (simp add: empty_iff pot_count_length)
  show "pot_inv p \<Longrightarrow> i < length (pot_contents p) \<Longrightarrow> pot_fetch p i = pot_contents p ! i"
    by (rule pot_fetch_contents)
  show "pot_inv p \<Longrightarrow> pot_inv (potRingbufferPushBack p x)"
    and "pot_inv p \<Longrightarrow> pot_contents (potRingbufferPushBack p x) = keep_last 8 (pot_contents p @ [x])"
    using contents_pushback by blast+
  show "pot_inv p \<Longrightarrow> pot_contents p \<noteq> [] \<Longrightarrow> pot_inv (potRingbufferPopFront p)"
    and "pot_inv p \<Longrightarrow> pot_contents p \<noteq> [] \<Longrightarrow> pot_contents (potRingbufferPopFront p) = tl (pot_contents p)"
    using contents_popfront by blast+
qed

section \<open>Properties\<close>

text \<open>C6: The history is a deque of at most eight packets: every mutator keeps the ring's invariant and
  is the list operation it is named after; a push on a full ring drops the packet at the other end,
  a pop needs a packet to remove.\<close>

theorem potRingbuffer_refines_deque:
  assumes "pot_inv p"
  shows "pot_inv (potRingbufferPushBack p x) \<and>
         pot_contents (potRingbufferPushBack p x) = keep_last 8 (pot_contents p @ [x]) \<and>
         pot_inv (potRingbufferPushFront p x) \<and>
         pot_contents (potRingbufferPushFront p x) = take 8 (x # pot_contents p) \<and>
         (pot_contents p \<noteq> [] \<longrightarrow>
            pot_inv (potRingbufferPopFront p) \<and> pot_contents (potRingbufferPopFront p) = tl (pot_contents p) \<and>
            pot_inv (potRingbufferPopBack p) \<and> pot_contents (potRingbufferPopBack p) = butlast (pot_contents p) \<and>
            mData p ! potRingbufferFront p = hd (pot_contents p))"
  using contents_pushback [OF assms] contents_pushfront [OF assms] contents_popfront [OF assms]
    contents_popback [OF assms] history.fetch [OF assms, of 0]
  by (auto simp: potRingbufferFront_def hd_conv_nth)

definition sample_ring :: PotRingbuffer where
  "sample_ring = potRingbufferPushBack
     (potRingbufferInit \<lparr>mBegin = 5, mEnd = 9, mData = replicate 8 \<lparr>buf = replicate 256 0, len = 0\<rparr>\<rparr>)
     \<lparr>buf = replicate 256 1, len = 3\<rparr>"

lemma sample_ring_inv: "pot_inv sample_ring"
  unfolding sample_ring_def by (intro history.push_inv pot_inv_init) simp

lemma potRingbuffer_refines_deque_witness:
  "pot_inv sample_ring \<and>
   pot_contents (potRingbufferPushBack sample_ring \<lparr>buf = [], len = 7\<rparr>) =
     keep_last 8 (pot_contents sample_ring @ [\<lparr>buf = [], len = 7\<rparr>])"
  using potRingbuffer_refines_deque [OF sample_ring_inv] sample_ring_inv by blast

text \<open>Appending any sequence of packets to the history leaves exactly the eight most recent ones, oldest
  first, whatever the ring held and wherever its indices were; reading it through
  \<open>potRingbufferAt\<close> from 0 to \<open>potRingbufferSize\<close> yields them in that order.\<close>

theorem potRingbuffer_keeps_last_eight:
  assumes "pot_inv p"
  shows "let q = foldl potRingbufferPushBack p xs in
         pot_inv q \<and> unat (potRingbufferSize q) = min 8 (length (pot_contents p) + length xs) \<and>
         map (pot_fetch q) [0..<unat (potRingbufferSize q)] = keep_last 8 (pot_contents p @ xs)"
  using history.pushes [OF assms, of xs]
  by (simp add: Let_def history.fetch_all) (simp add: history.count)

lemma potRingbuffer_keeps_last_eight_witness:
  "let q = foldl potRingbufferPushBack sample_ring (map (\<lambda>n. \<lparr>buf = [], len = n\<rparr>) [0..<20]) in
   unat (potRingbufferSize q) = min 8 (length (pot_contents sample_ring) + 20)"
  using potRingbuffer_keeps_last_eight [OF sample_ring_inv, of "map (\<lambda>n. \<lparr>buf = [], len = n\<rparr>) [0..<20]"]
  by (simp add: Let_def)

end
