(* ===== verification/SerialFramingProtocol.thy ===== *)
theory SerialFramingProtocol
  imports PotRingbuffer
begin

text \<open>
  The serial framing protocol, \<open>src/src/serial_framing_protocol.c\<close>: HDLC-like frames with a header
  octet, a CRC and octet stuffing, a three-way connection handshake, and go-back-n retransmission
  from the packet history.

  A context is threaded together with the state \<open>'u\<close> of the world its two callbacks act on. A
  callback is a function pointer, so an environment gives what a call through a pointer does to the
  world and to the context itself: the C callbacks of the robot do reenter the protocol. A null
  function pointer is \<open>None\<close>, and calling it is undefined.
\<close>

section \<open>Data\<close>

type_synonym SFPseq = u8
type_synonym SFPheader = u8
type_synonym SFPcrc = u16

definition SFP_ESC :: u8 where "SFP_ESC = 0x7d"
definition SFP_FLAG :: u8 where "SFP_FLAG = 0x7e"
definition SFP_ESC_FLIP_BIT :: u8 where "SFP_ESC_FLIP_BIT = push_bit 5 1"
definition SFP_CRC_SIZE :: nat where "SFP_CRC_SIZE = 2"
definition SFP_CRC_PRESET :: SFPcrc where "SFP_CRC_PRESET = 0xffff"
definition SFP_CRC_GOOD :: SFPcrc where "SFP_CRC_GOOD = 0xf0b8"
definition SFP_INITIAL_SEQ :: SFPseq where "SFP_INITIAL_SEQ = 0"
definition SFP_SEQ_RANGE :: u8 where "SFP_SEQ_RANGE = push_bit 6 1"
definition SFP_CONFIG_WRITEBUF_SIZE :: nat where "SFP_CONFIG_WRITEBUF_SIZE = 512"

datatype SFPframetype = SFP_FRAME_USR | SFP_FRAME_RTX | SFP_FRAME_NAK | SFP_FRAME_SYN

fun frame_type_code :: "SFPframetype \<Rightarrow> u8" where
  "frame_type_code SFP_FRAME_USR = 0"
| "frame_type_code SFP_FRAME_RTX = 1"
| "frame_type_code SFP_FRAME_NAK = 2"
| "frame_type_code SFP_FRAME_SYN = 3"

definition SFP_SEQ_SYN0 :: SFPseq where "SFP_SEQ_SYN0 = 0"
definition SFP_SEQ_SYN1 :: SFPseq where "SFP_SEQ_SYN1 = 1"
definition SFP_SEQ_SYN2 :: SFPseq where "SFP_SEQ_SYN2 = 2"
definition SFP_SEQ_SYN_DIS :: SFPseq where "SFP_SEQ_SYN_DIS = 3"

datatype SFPescapestate = SFP_ESCAPE_STATE_NORMAL | SFP_ESCAPE_STATE_ESCAPING

datatype SFPframestate = SFP_FRAME_STATE_NEW | SFP_FRAME_STATE_RECEIVING

datatype SFPconnectstate =
    SFP_CONNECT_STATE_DISCONNECTED
  | SFP_CONNECT_STATE_SENT_SYN0
  | SFP_CONNECT_STATE_SENT_SYN1
  | SFP_CONNECT_STATE_CONNECTED

text \<open>Function pointers and user data pointers are numbers; the null function pointer is \<open>None\<close>.\<close>

type_synonym fptr = "nat option"
type_synonym userdata = nat

record SFPtransmitter =
  tx_seq :: SFPseq
  tx_crc :: SFPcrc
  history :: PotRingbuffer
  writebuf :: octets
  writebufn :: nat
  tx_write :: fptr
  writeData :: userdata

record SFPreceiver =
  rx_seq :: SFPseq
  rx_crc :: SFPcrc
  escapeState :: SFPescapestate
  frameState :: SFPframestate
  header :: SFPheader
  packet :: SFPpacket
  deliver :: fptr
  deliverData :: userdata

record SFPcontext =
  tx :: SFPtransmitter
  rx :: SFPreceiver
  connectState :: SFPconnectstate

text \<open>A context together with the world, and what calling the two kinds of callback does to them.\<close>

type_synonym 'u sfp_state = "'u \<times> SFPcontext"

record 'u sfp_env =
  call_write :: "nat \<Rightarrow> octets \<Rightarrow> userdata \<Rightarrow> 'u sfp_state \<Rightarrow> 'u sfp_state option"
  call_deliver :: "nat \<Rightarrow> octets \<Rightarrow> userdata \<Rightarrow> 'u sfp_state \<Rightarrow> 'u sfp_state option"

section \<open>Updates of one field of a nested structure\<close>

abbreviation upd_tx :: "(SFPtransmitter \<Rightarrow> SFPtransmitter) \<Rightarrow> SFPcontext \<Rightarrow> SFPcontext" where
  "upd_tx f c \<equiv> c\<lparr>tx := f (tx c)\<rparr>"

abbreviation upd_rx :: "(SFPreceiver \<Rightarrow> SFPreceiver) \<Rightarrow> SFPcontext \<Rightarrow> SFPcontext" where
  "upd_rx f c \<equiv> c\<lparr>rx := f (rx c)\<rparr>"

section \<open>Octets, sequence numbers and headers\<close>

definition crc_ccitt_update :: "u16 \<Rightarrow> u8 \<Rightarrow> u16" where
  "crc_ccitt_update crc octet =
     (let octet = octet XOR ucast (crc AND 0xff);
          octet = octet XOR push_bit 4 octet
      in (push_bit 8 (ucast octet) OR (drop_bit 8 crc AND 0xff))
         XOR ucast (drop_bit 4 octet) XOR push_bit 3 (ucast octet))"

definition isReservedOctet :: "u8 \<Rightarrow> bool" where
  "isReservedOctet octet \<longleftrightarrow> octet = SFP_ESC \<or> octet = SFP_FLAG"

definition nextSeq :: "SFPseq \<Rightarrow> SFPseq" where
  "nextSeq seq = (seq + 1) AND (SFP_SEQ_RANGE - 1)"

definition frametype_of :: "u8 \<Rightarrow> SFPframetype" where
  "frametype_of n = (if n = 0 then SFP_FRAME_USR else if n = 1 then SFP_FRAME_RTX
                     else if n = 2 then SFP_FRAME_NAK else SFP_FRAME_SYN)"

definition getFrameType :: "SFPheader \<Rightarrow> SFPframetype" where
  "getFrameType hdr = frametype_of (drop_bit 6 hdr AND (push_bit 2 1 - 1))"

definition getFrameSeq :: "SFPheader \<Rightarrow> SFPseq" where
  "getFrameSeq hdr = hdr AND (push_bit 6 1 - 1)"

definition mkHeader :: "SFPseq \<Rightarrow> SFPframetype \<Rightarrow> SFPheader" where
  "mkHeader seq t = push_bit 0 seq OR push_bit 6 (frame_type_code t)"

section \<open>Transmitter\<close>

definition sfpFlushWriteBuffer :: "'u sfp_env \<Rightarrow> 'u sfp_state \<Rightarrow> 'u sfp_state option" where
  "sfpFlushWriteBuffer env s = do {
     w \<leftarrow> tx_write (tx (snd s));
     octs \<leftarrow> load (writebuf (tx (snd s))) (writebufn (tx (snd s)));
     (u, c) \<leftarrow> call_write env w octs (writeData (tx (snd s))) s;
     Some (u, upd_tx (\<lambda>t. t\<lparr>writebufn := 0\<rparr>) c)
   }"

text \<open>
  The result of the transmitting functions is their return value, the number they store through
  \<open>outlen\<close> (dropped by the callers that pass NULL) and the new state.
\<close>

definition sfpBufferedWrite :: "'u sfp_env \<Rightarrow> u8 \<Rightarrow> 'u sfp_state \<Rightarrow> (int \<times> nat \<times> 'u sfp_state) option" where
  "sfpBufferedWrite env octet s = do {
     (u, c) \<leftarrow> (if SFP_CONFIG_WRITEBUF_SIZE \<le> writebufn (tx (snd s))
                then sfpFlushWriteBuffer env s else Some s);
     wb \<leftarrow> memcpy (writebuf (tx c)) (writebufn (tx c)) [octet];
     Some (0, 1, u, upd_tx (\<lambda>t. t\<lparr>writebuf := wb, writebufn := writebufn t + 1\<rparr>) c)
   }"

definition sfpWriteNoCRC :: "'u sfp_env \<Rightarrow> u8 \<Rightarrow> 'u sfp_state \<Rightarrow> (int \<times> nat \<times> 'u sfp_state) option" where
  "sfpWriteNoCRC env octet s = do {
     (octet, outlen, s) \<leftarrow>
       (if isReservedOctet octet then do {
          (r, n, s) \<leftarrow> sfpBufferedWrite env SFP_ESC s;
          Some (octet XOR SFP_ESC_FLIP_BIT, n, s)
        } else Some (octet, 0, s));
     (r, n, s) \<leftarrow> sfpBufferedWrite env octet s;
     Some (0, outlen + n, s)
   }"

definition sfpWrite :: "'u sfp_env \<Rightarrow> u8 \<Rightarrow> 'u sfp_state \<Rightarrow> (int \<times> nat \<times> 'u sfp_state) option" where
  "sfpWrite env octet s =
     sfpWriteNoCRC env octet
       (fst s, upd_tx (\<lambda>t. t\<lparr>tx_crc := crc_ccitt_update (tx_crc t) octet\<rparr>) (snd s))"

fun sfpWrites :: "'u sfp_env \<Rightarrow> octets \<Rightarrow> nat \<Rightarrow> 'u sfp_state \<Rightarrow> (nat \<times> 'u sfp_state) option" where
  "sfpWrites env [] outlen s = Some (outlen, s)"
| "sfpWrites env (octet # octs) outlen s = do {
     (r, n, s) \<leftarrow> sfpWrite env octet s;
     sfpWrites env octs (outlen + n) s
   }"

definition sfpTransmitFrameWithHeader ::
  "'u sfp_env \<Rightarrow> SFPheader \<Rightarrow> SFPpacket option \<Rightarrow> 'u sfp_state \<Rightarrow> (int \<times> nat \<times> 'u sfp_state) option" where
  "sfpTransmitFrameWithHeader env hdr pkt s = do {
     let s = (fst s, upd_tx (\<lambda>t. t\<lparr>tx_crc := SFP_CRC_PRESET\<rparr>) (snd s));
     (r, n, s) \<leftarrow> sfpBufferedWrite env SFP_FLAG s;
     let outlen = n;
     (r, n, s) \<leftarrow> sfpWrite env hdr s;
     let outlen = outlen + n;
     (outlen, s) \<leftarrow> (case pkt of None \<Rightarrow> Some (outlen, s)
        | Some p \<Rightarrow> do { octs \<leftarrow> load (buf p) (len p); sfpWrites env octs outlen s });
     let crc = NOT (tx_crc (tx (snd s)));
     (r, n, s) \<leftarrow> sfpWriteNoCRC env (ucast (crc AND 0x00ff)) s;
     let outlen = outlen + n;
     let crc = drop_bit 8 crc;
     (r, n, s) \<leftarrow> sfpWriteNoCRC env (ucast (crc AND 0x00ff)) s;
     let outlen = outlen + n;
     (r, n, s) \<leftarrow> sfpBufferedWrite env SFP_FLAG s;
     let outlen = outlen + n;
     s \<leftarrow> sfpFlushWriteBuffer env s;
     Some (0, outlen, s)
   }"

definition sfpTransmitNAK :: "'u sfp_env \<Rightarrow> SFPseq \<Rightarrow> 'u sfp_state \<Rightarrow> 'u sfp_state option" where
  "sfpTransmitNAK env seq s = do {
     (r, n, s) \<leftarrow> sfpTransmitFrameWithHeader env (mkHeader seq SFP_FRAME_NAK) None s;
     Some s
   }"

definition sfpTransmitDIS :: "'u sfp_env \<Rightarrow> 'u sfp_state \<Rightarrow> 'u sfp_state option" where
  "sfpTransmitDIS env s = do {
     (r, n, s) \<leftarrow> sfpTransmitFrameWithHeader env (mkHeader SFP_SEQ_SYN_DIS SFP_FRAME_SYN) None s;
     Some s
   }"

definition sfpTransmitSYN0 :: "'u sfp_env \<Rightarrow> 'u sfp_state \<Rightarrow> 'u sfp_state option" where
  "sfpTransmitSYN0 env s = do {
     (r, n, s) \<leftarrow> sfpTransmitFrameWithHeader env (mkHeader SFP_SEQ_SYN0 SFP_FRAME_SYN) None s;
     Some s
   }"

definition sfpTransmitSYN1 :: "'u sfp_env \<Rightarrow> 'u sfp_state \<Rightarrow> 'u sfp_state option" where
  "sfpTransmitSYN1 env s = do {
     (r, n, s) \<leftarrow> sfpTransmitFrameWithHeader env (mkHeader SFP_SEQ_SYN1 SFP_FRAME_SYN) None s;
     Some s
   }"

definition sfpTransmitSYN2 :: "'u sfp_env \<Rightarrow> 'u sfp_state \<Rightarrow> 'u sfp_state option" where
  "sfpTransmitSYN2 env s = do {
     (r, n, s) \<leftarrow> sfpTransmitFrameWithHeader env (mkHeader SFP_SEQ_SYN2 SFP_FRAME_SYN) None s;
     Some s
   }"

text \<open>
  A packet passed by pointer is read when the frame is built; the model reads it when the call is
  made. The two differ only for a write callback that itself pushes a packet into the history.
\<close>

definition sfpTransmitFrameImpl ::
  "'u sfp_env \<Rightarrow> SFPpacket \<Rightarrow> bool \<Rightarrow> 'u sfp_state \<Rightarrow> (int \<times> nat \<times> 'u sfp_state) option" where
  "sfpTransmitFrameImpl env pkt retransmit s = do {
     let seq = tx_seq (tx (snd s));
     let (hdr, s) =
       (if retransmit then (mkHeader seq SFP_FRAME_RTX, s)
        else (mkHeader seq SFP_FRAME_USR,
              (fst s, upd_tx (\<lambda>t. t\<lparr>history := potRingbufferPushBack (history t) pkt\<rparr>) (snd s))));
     (ret, outlen, s) \<leftarrow> sfpTransmitFrameWithHeader env hdr (Some pkt) s;
     Some (ret, outlen, fst s, upd_tx (\<lambda>t. t\<lparr>tx_seq := nextSeq (tx_seq t)\<rparr>) (snd s))
   }"

definition sfpTransmitUSR ::
  "'u sfp_env \<Rightarrow> SFPpacket \<Rightarrow> 'u sfp_state \<Rightarrow> (int \<times> nat \<times> 'u sfp_state) option" where
  "sfpTransmitUSR env pkt s = sfpTransmitFrameImpl env pkt False s"

definition sfpTransmitRTX :: "'u sfp_env \<Rightarrow> SFPpacket \<Rightarrow> 'u sfp_state \<Rightarrow> 'u sfp_state option" where
  "sfpTransmitRTX env pkt s = do {
     (ret, outlen, s) \<leftarrow> sfpTransmitFrameImpl env pkt True s;
     Some s
   }"

text \<open>
  \<open>sfpWritePacket\<close> fills a packet on the stack; the octets of its array beyond \<open>len\<close> are never
  read, and are zero here.
\<close>

definition sfpWritePacket ::
  "'u sfp_env \<Rightarrow> octets \<Rightarrow> nat \<Rightarrow> 'u sfp_state \<Rightarrow> (int \<times> nat \<times> 'u sfp_state) option" where
  "sfpWritePacket env bytes n s = do {
     octs \<leftarrow> load bytes n;
     b \<leftarrow> memcpy (replicate SFP_CONFIG_MAX_PACKET_SIZE 0) 0 octs;
     sfpTransmitUSR env \<lparr>buf = b, len = n\<rparr> s
   }"

section \<open>History\<close>

partial_function (option) sfpClearHistory :: "SFPcontext \<Rightarrow> SFPcontext option" where
  "sfpClearHistory c =
     (if potRingbufferEmpty (history (tx c)) then Some c
      else sfpClearHistory (upd_tx (\<lambda>t. t\<lparr>history := potRingbufferPopFront (history t)\<rparr>) c))"

fun sfpTransmitHistory_loop ::
  "'u sfp_env \<Rightarrow> nat \<Rightarrow> nat \<Rightarrow> 'u sfp_state \<Rightarrow> 'u sfp_state option" where
  "sfpTransmitHistory_loop env i 0 s = Some s"
| "sfpTransmitHistory_loop env i (Suc k) s = do {
     s \<leftarrow> sfpTransmitRTX env (pot_fetch (history (tx (snd s))) i) s;
     sfpTransmitHistory_loop env (Suc i) k s
   }"

definition sfpTransmitHistory :: "'u sfp_env \<Rightarrow> 'u sfp_state \<Rightarrow> 'u sfp_state option" where
  "sfpTransmitHistory env s =
     (let reTxCount = potRingbufferSize (history (tx (snd s)))
      in sfpTransmitHistory_loop env 0 (unat reTxCount) s)"

definition sfpTransmitHistoryFromSeq :: "'u sfp_env \<Rightarrow> SFPseq \<Rightarrow> 'u sfp_state \<Rightarrow> 'u sfp_state option" where
  "sfpTransmitHistoryFromSeq env seq s =
     (let h = history (tx (snd s));
          fastforward = ucast seq - (ucast (tx_seq (tx (snd s))) - potRingbufferSize h) :: u32;
          fastforward = fastforward AND (push_bit 6 1 - 1);
          h = (if fastforward < potRingbufferSize h
               then (potRingbufferPopFront ^^ unat fastforward) h else h)
      in sfpTransmitHistory env (fst s, upd_tx (\<lambda>t. t\<lparr>history := h, tx_seq := seq\<rparr>) (snd s)))"

section \<open>Receiver\<close>

definition sfpResetReceiver :: "SFPcontext \<Rightarrow> SFPcontext" where
  "sfpResetReceiver c = upd_rx (\<lambda>r. r\<lparr>rx_crc := SFP_CRC_PRESET,
     escapeState := SFP_ESCAPE_STATE_NORMAL, frameState := SFP_FRAME_STATE_NEW,
     packet := (packet r)\<lparr>len := 0\<rparr>\<rparr>) c"

definition sfpBufferOctet :: "u8 \<Rightarrow> SFPcontext \<Rightarrow> SFPcontext option" where
  "sfpBufferOctet octet c =
     (let p = packet (rx c) in
      if SFP_CONFIG_MAX_PACKET_SIZE \<le> len p then Some (sfpResetReceiver c)
      else do {
        b \<leftarrow> memcpy (buf p) (len p) [octet];
        Some (upd_rx (\<lambda>r. r\<lparr>packet := \<lparr>buf = b, len = len p + 1\<rparr>\<rparr>) c)
      })"

definition sfpHandleSYN0 :: "'u sfp_env \<Rightarrow> 'u sfp_state \<Rightarrow> 'u sfp_state option" where
  "sfpHandleSYN0 env s = do {
     let c = sfpResetReceiver (snd s);
     let c = upd_rx (\<lambda>r. r\<lparr>rx_seq := SFP_INITIAL_SEQ\<rparr>) c;
     let c = upd_tx (\<lambda>t. t\<lparr>tx_seq := SFP_INITIAL_SEQ\<rparr>) c;
     c \<leftarrow> sfpClearHistory c;
     (u, c) \<leftarrow> sfpTransmitSYN1 env (fst s, c);
     Some (u, c\<lparr>connectState := SFP_CONNECT_STATE_SENT_SYN1\<rparr>)
   }"

definition sfpHandleSYN1 :: "'u sfp_env \<Rightarrow> 'u sfp_state \<Rightarrow> 'u sfp_state option" where
  "sfpHandleSYN1 env s =
     (if connectState (snd s) = SFP_CONNECT_STATE_DISCONNECTED then sfpTransmitDIS env s
      else do {
        s \<leftarrow> sfpTransmitSYN2 env s;
        (u, c) \<leftarrow> (if tx_seq (tx (snd s)) \<noteq> SFP_INITIAL_SEQ
                   then sfpTransmitHistoryFromSeq env SFP_INITIAL_SEQ s else Some s);
        Some (u, c\<lparr>connectState := SFP_CONNECT_STATE_CONNECTED\<rparr>)
      })"

definition sfpHandleSYN2 :: "'u sfp_env \<Rightarrow> 'u sfp_state \<Rightarrow> 'u sfp_state option" where
  "sfpHandleSYN2 env s =
     (if connectState (snd s) = SFP_CONNECT_STATE_DISCONNECTED then sfpTransmitDIS env s
      else if connectState (snd s) = SFP_CONNECT_STATE_SENT_SYN0 then sfpTransmitSYN0 env s
      else do {
        (u, c) \<leftarrow> (if tx_seq (tx (snd s)) \<noteq> SFP_INITIAL_SEQ
                   then sfpTransmitHistoryFromSeq env SFP_INITIAL_SEQ s else Some s);
        Some (u, c\<lparr>connectState := SFP_CONNECT_STATE_CONNECTED\<rparr>)
      })"

definition sfpHandleSYN :: "'u sfp_env \<Rightarrow> 'u sfp_state \<Rightarrow> 'u sfp_state option" where
  "sfpHandleSYN env s =
     (let seq = getFrameSeq (header (rx (snd s))) in
      if seq = SFP_SEQ_SYN0 then sfpHandleSYN0 env s
      else if seq = SFP_SEQ_SYN1 then sfpHandleSYN1 env s
      else if seq = SFP_SEQ_SYN2 then sfpHandleSYN2 env s
      else if seq = SFP_SEQ_SYN_DIS
        then Some (fst s, (snd s)\<lparr>connectState := SFP_CONNECT_STATE_DISCONNECTED\<rparr>)
      else Some s)"

definition sfpHandleNAK :: "'u sfp_env \<Rightarrow> 'u sfp_state \<Rightarrow> 'u sfp_state option" where
  "sfpHandleNAK env s =
     (case connectState (snd s) of
        SFP_CONNECT_STATE_DISCONNECTED \<Rightarrow> sfpTransmitDIS env s
      | SFP_CONNECT_STATE_SENT_SYN0 \<Rightarrow> sfpTransmitSYN0 env s
      | SFP_CONNECT_STATE_SENT_SYN1 \<Rightarrow> sfpTransmitSYN1 env s
      | SFP_CONNECT_STATE_CONNECTED \<Rightarrow>
          (let seq = getFrameSeq (header (rx (snd s))) in
           if seq \<noteq> tx_seq (tx (snd s)) then sfpTransmitHistoryFromSeq env seq s else Some s))"

definition sfpHandleUSR :: "'u sfp_env \<Rightarrow> 'u sfp_state \<Rightarrow> (int \<times> 'u sfp_state) option" where
  "sfpHandleUSR env s =
     (case connectState (snd s) of
        SFP_CONNECT_STATE_DISCONNECTED \<Rightarrow> do { s \<leftarrow> sfpTransmitDIS env s; Some (0, s) }
      | SFP_CONNECT_STATE_SENT_SYN0 \<Rightarrow> do { s \<leftarrow> sfpTransmitSYN0 env s; Some (0, s) }
      | SFP_CONNECT_STATE_SENT_SYN1 \<Rightarrow> do { s \<leftarrow> sfpTransmitSYN1 env s; Some (0, s) }
      | SFP_CONNECT_STATE_CONNECTED \<Rightarrow>
          (let r = rx (snd s); seq = getFrameSeq (header r) in
           if seq \<noteq> rx_seq r then
             (if getFrameType (header r) = SFP_FRAME_USR
              then do { s \<leftarrow> sfpTransmitNAK env (rx_seq r) s; Some (0, s) }
              else Some (0, s))
           else do {
             (u, c) \<leftarrow> (case deliver r of None \<Rightarrow> Some s
                | Some d \<Rightarrow> do {
                    octs \<leftarrow> load (buf (packet r)) (len (packet r));
                    call_deliver env d octs (deliverData r) s });
             Some (1, u, upd_rx (\<lambda>r. r\<lparr>rx_seq := nextSeq (rx_seq r)\<rparr>) c)
           }))"

definition sfpHandleFrame :: "'u sfp_env \<Rightarrow> 'u sfp_state \<Rightarrow> (int \<times> 'u sfp_state) option" where
  "sfpHandleFrame env s =
     (if len (packet (rx (snd s))) < SFP_CRC_SIZE
      then do { s \<leftarrow> sfpTransmitNAK env (rx_seq (rx (snd s))) s; Some (0, s) }
      else
        let c = upd_rx (\<lambda>r. r\<lparr>packet := (packet r)\<lparr>len := len (packet r) - SFP_CRC_SIZE\<rparr>\<rparr>) (snd s);
            s = (fst s, c)
        in if rx_crc (rx c) \<noteq> SFP_CRC_GOOD
           then do { s \<leftarrow> sfpTransmitNAK env (rx_seq (rx c)) s; Some (0, s) }
           else (case getFrameType (header (rx c)) of
                   SFP_FRAME_USR \<Rightarrow> sfpHandleUSR env s
                 | SFP_FRAME_RTX \<Rightarrow> sfpHandleUSR env s
                 | SFP_FRAME_NAK \<Rightarrow> do { s \<leftarrow> sfpHandleNAK env s; Some (0, s) }
                 | SFP_FRAME_SYN \<Rightarrow> do { s \<leftarrow> sfpHandleSYN env s; Some (0, s) }))"

text \<open>
  The caller's buffer is the array behind \<open>buf\<close>, \<open>None\<close> for NULL; the result carries it and the
  value stored through \<open>outlen\<close>, if one is.
\<close>

definition sfpCopyOutPacket :: "SFPcontext \<Rightarrow> octets \<Rightarrow> nat \<Rightarrow> (int \<times> octets \<times> nat option) option" where
  "sfpCopyOutPacket c out n =
     (let p = packet (rx c) in
      if n < len p then Some (- 1, out, None)
      else do {
        octs \<leftarrow> load (buf p) (len p);
        out \<leftarrow> memcpy out 0 octs;
        Some (1, out, Some (len p))
      })"

definition sfpDeliverOctet ::
  "'u sfp_env \<Rightarrow> u8 \<Rightarrow> octets option \<Rightarrow> nat \<Rightarrow> 'u sfp_state
     \<Rightarrow> (int \<times> octets option \<times> nat option \<times> 'u sfp_state) option" where
  "sfpDeliverOctet env octet out n s =
     (if octet = SFP_FLAG then do {
        (ret, out, outlen, s) \<leftarrow>
          (if frameState (rx (snd s)) = SFP_FRAME_STATE_RECEIVING then do {
             (ret, s) \<leftarrow> sfpHandleFrame env s;
             (case out of
                Some b \<Rightarrow> if ret \<noteq> 0 then do {
                    (ret, b, outlen) \<leftarrow> sfpCopyOutPacket (snd s) b n;
                    Some (ret, Some b, outlen, s) }
                  else Some (ret, out, None, s)
              | None \<Rightarrow> Some (ret, out, None, s))
           } else Some (0, out, None, s));
        Some (ret, out, outlen, fst s, sfpResetReceiver (snd s))
      }
      else if octet = SFP_ESC then
        Some (0, out, None, fst s, upd_rx (\<lambda>r. r\<lparr>escapeState := SFP_ESCAPE_STATE_ESCAPING\<rparr>) (snd s))
      else do {
        let (octet, c) =
          (if escapeState (rx (snd s)) = SFP_ESCAPE_STATE_ESCAPING
           then (octet XOR SFP_ESC_FLIP_BIT,
                 upd_rx (\<lambda>r. r\<lparr>escapeState := SFP_ESCAPE_STATE_NORMAL\<rparr>) (snd s))
           else (octet, snd s));
        let c = upd_rx (\<lambda>r. r\<lparr>rx_crc := crc_ccitt_update (rx_crc r) octet\<rparr>) c;
        c \<leftarrow> (if frameState (rx c) = SFP_FRAME_STATE_NEW
              then Some (upd_rx (\<lambda>r. r\<lparr>header := octet, frameState := SFP_FRAME_STATE_RECEIVING\<rparr>) c)
              else sfpBufferOctet octet c);
        Some (0, out, None, fst s, c)
      })"

text \<open>A receiver fed octet by octet without a buffer, as the server's thread does it.\<close>

fun sfpDeliverOctets :: "'u sfp_env \<Rightarrow> octets \<Rightarrow> 'u sfp_state \<Rightarrow> 'u sfp_state option" where
  "sfpDeliverOctets env [] s = Some s"
| "sfpDeliverOctets env (b # bs) s = do {
     (ret, out, outlen, s) \<leftarrow> sfpDeliverOctet env b None 0 s;
     sfpDeliverOctets env bs s
   }"

section \<open>Interface functions\<close>

definition sfpSetDeliverCallback :: "fptr \<Rightarrow> userdata \<Rightarrow> SFPcontext \<Rightarrow> SFPcontext" where
  "sfpSetDeliverCallback cbfun d c = upd_rx (\<lambda>r. r\<lparr>deliver := cbfun, deliverData := d\<rparr>) c"

definition sfpSetWriteCallback :: "fptr \<Rightarrow> userdata \<Rightarrow> SFPcontext \<Rightarrow> SFPcontext" where
  "sfpSetWriteCallback cbfun d c = upd_tx (\<lambda>t. t\<lparr>tx_write := cbfun, writeData := d\<rparr>) c"

text \<open>The address NULL, as a user data pointer.\<close>

definition NULL :: userdata where "NULL = 0"

definition sfpInit :: "SFPcontext \<Rightarrow> SFPcontext" where
  "sfpInit c =
     (let c = c\<lparr>connectState := SFP_CONNECT_STATE_DISCONNECTED\<rparr>;
          c = upd_rx (\<lambda>r. r\<lparr>rx_seq := SFP_INITIAL_SEQ\<rparr>) c;
          c = sfpResetReceiver c;
          c = sfpSetDeliverCallback None NULL c;
          c = upd_tx (\<lambda>t. t\<lparr>tx_seq := SFP_INITIAL_SEQ, tx_crc := SFP_CRC_PRESET\<rparr>) c;
          c = upd_tx (\<lambda>t. t\<lparr>writebufn := 0\<rparr>) c;
          c = upd_tx (\<lambda>t. t\<lparr>history := potRingbufferInit (history t)\<rparr>) c
      in sfpSetWriteCallback None NULL c)"

definition sfpConnect :: "'u sfp_env \<Rightarrow> 'u sfp_state \<Rightarrow> 'u sfp_state option" where
  "sfpConnect env s = do {
     let c = sfpResetReceiver (snd s);
     let c = upd_rx (\<lambda>r. r\<lparr>rx_seq := SFP_INITIAL_SEQ\<rparr>) c;
     let c = upd_tx (\<lambda>t. t\<lparr>tx_seq := SFP_INITIAL_SEQ\<rparr>) c;
     c \<leftarrow> sfpClearHistory c;
     (u, c) \<leftarrow> sfpTransmitSYN0 env (fst s, c);
     Some (u, c\<lparr>connectState := SFP_CONNECT_STATE_SENT_SYN0\<rparr>)
   }"

definition sfpIsConnected :: "SFPcontext \<Rightarrow> bool" where
  "sfpIsConnected c \<longleftrightarrow> SFP_CONNECT_STATE_CONNECTED = connectState c"

end
