(* ===== verification/SFP_Frames.thy ===== *)
theory SFP_Frames
  imports SerialFramingProtocol
begin

text \<open>
  Frames on the wire: what the transmitter of the serial framing protocol emits and what its
  receiver makes of it. The abstract frame is a flag, the stuffed octets of header, payload and
  complemented CRC, and a flag.
\<close>

section \<open>The abstract frame\<close>

definition crc_of :: "octets \<Rightarrow> u16" where
  "crc_of octs = foldl crc_ccitt_update SFP_CRC_PRESET octs"

definition crc_octets :: "u16 \<Rightarrow> octets" where
  "crc_octets crc = [ucast (NOT crc AND 0x00ff), ucast (drop_bit 8 (NOT crc) AND 0x00ff)]"

fun stuff :: "octets \<Rightarrow> octets" where
  "stuff [] = []"
| "stuff (b # bs) = (if isReservedOctet b then [SFP_ESC, b XOR SFP_ESC_FLIP_BIT] else [b]) @ stuff bs"

definition frame :: "SFPheader \<Rightarrow> octets \<Rightarrow> octets" where
  "frame hdr payload =
     SFP_FLAG # stuff (hdr # payload @ crc_octets (crc_of (hdr # payload))) @ [SFP_FLAG]"

lemma stuff_append: "stuff (xs @ ys) = stuff xs @ stuff ys"
  by (induction xs) simp_all

section \<open>The CRC\<close>

lemma ucast_low: "(ucast (NOT crc AND 0x00ff :: u16) :: u8) XOR ucast (crc AND 0xff) = 0xff"
  by (rule bit_word_eqI) (auto simp: bit_simps)


lemma crc_step1: "crc_ccitt_update crc (ucast (NOT crc AND 0x00ff)) = (0x0f78 XOR drop_bit 8 crc)"
  unfolding crc_ccitt_update_def ucast_low Let_def
  by (rule word16_eqI) (simp add: bit_simps no_bit_16)

lemma crc_step2_octet:
  "(ucast (drop_bit 8 (NOT crc) AND 0x00ff) :: u8) XOR ucast ((0x0f78 XOR drop_bit 8 crc) AND 0xff :: u16) = 0x87"
  by (rule word8_eqI) (simp add: bit_simps)

lemma crc_step2:
  "crc_ccitt_update (0x0f78 XOR drop_bit 8 crc) (ucast (drop_bit 8 (NOT crc) AND 0x00ff)) = SFP_CRC_GOOD"
  unfolding crc_ccitt_update_def Let_def SFP_CRC_GOOD_def crc_step2_octet
  by (rule word16_eqI) (simp add: bit_simps no_bit_16)

lemma crc_residue: "foldl crc_ccitt_update crc (crc_octets crc) = SFP_CRC_GOOD"
  by (simp add: crc_octets_def crc_step1 crc_step2)

section \<open>Emission\<close>

text \<open>
  A medium: the write callback only consumes the octets, in whatever pieces the write buffer
  hands them over. The octets still in the buffer count as sent.
\<close>

locale sfp_medium =
  fixes env :: "'u sfp_env"
    and send :: "octets \<Rightarrow> 'u \<Rightarrow> 'u"
  assumes write_sends: "call_write env w octs d (u, c) = Some (send octs u, c)"
    and send_append: "send (xs @ ys) u = send ys (send xs u)"
    and send_Nil: "send [] u = u"

definition tx_ok :: "SFPcontext \<Rightarrow> bool" where
  "tx_ok c \<longleftrightarrow> tx_write (tx c) \<noteq> None \<and> length (writebuf (tx c)) = 512 \<and> writebufn (tx c) \<le> 512"

definition pending :: "SFPcontext \<Rightarrow> octets" where
  "pending c = take (writebufn (tx c)) (writebuf (tx c))"

text \<open>What a context is to its protocol: everything but the transmitter's scratch fields.\<close>

definition link :: "SFPcontext \<Rightarrow> SFPcontext" where
  "link c = upd_tx (\<lambda>t. t\<lparr>tx_crc := 0, writebuf := [], writebufn := 0\<rparr>) c"

lemma link_eqD:
  assumes "link c' = link c"
  shows "rx c' = rx c" "connectState c' = connectState c" "tx_seq (tx c') = tx_seq (tx c)"
    "history (tx c') = history (tx c)" "tx_write (tx c') = tx_write (tx c)"
    "writeData (tx c') = writeData (tx c)"
proof -
  have "rx (link c') = rx (link c)" "connectState (link c') = connectState (link c)"
    "tx_seq (tx (link c')) = tx_seq (tx (link c))" "history (tx (link c')) = history (tx (link c))"
    "tx_write (tx (link c')) = tx_write (tx (link c))" "writeData (tx (link c')) = writeData (tx (link c))"
    using assms by simp_all
  then show "rx c' = rx c" "connectState c' = connectState c" "tx_seq (tx c') = tx_seq (tx c)"
    "history (tx c') = history (tx c)" "tx_write (tx c') = tx_write (tx c)"
    "writeData (tx c') = writeData (tx c)"
    by (simp_all add: link_def)
qed

definition emits :: "(octets \<Rightarrow> 'u \<Rightarrow> 'u) \<Rightarrow> octets \<Rightarrow> u16 \<Rightarrow> 'u sfp_state \<Rightarrow> 'u sfp_state \<Rightarrow> bool" where
  "emits send xs crc s s' \<longleftrightarrow>
     link (snd s') = link (snd s) \<and> tx_ok (snd s') \<and> tx_crc (tx (snd s')) = crc \<and>
     send (pending (snd s')) (fst s') = send (pending (snd s) @ xs) (fst s)"

lemma tx_ok_link: "length (writebuf (tx c')) = 512 \<Longrightarrow> writebufn (tx c') \<le> 512 \<Longrightarrow> link c' = link c \<Longrightarrow> tx_ok c \<Longrightarrow> tx_ok c'"
  using link_eqD(5) [of c' c] by (simp add: tx_ok_def)

definition idle :: "SFPcontext \<Rightarrow> bool" where
  "idle c \<longleftrightarrow> tx_ok c \<and> writebufn (tx c) = 0"

fun payload_of :: "SFPpacket option \<Rightarrow> octets option" where
  "payload_of None = Some []"
| "payload_of (Some p) = load (buf p) (len p)"

context sfp_medium
begin

lemma emits_trans:
  "emits send xs r s s' \<Longrightarrow> emits send ys r' s' s'' \<Longrightarrow> emits send (xs @ ys) r' s s''"
  by (simp add: emits_def send_append)

lemma flush_emits:
  assumes "tx_ok c"
  shows "\<exists>c'. sfpFlushWriteBuffer env (u, c) = Some (send (pending c) u, c') \<and>
     link c' = link c \<and> tx_ok c' \<and> tx_crc (tx c') = tx_crc (tx c) \<and> pending c' = []"
  using assms
  by (auto simp: sfpFlushWriteBuffer_def tx_ok_def load_def write_sends pending_def link_def)

lemma buffered_emits:
  assumes "tx_ok (snd s)"
  shows "\<exists>s'. sfpBufferedWrite env b s = Some (0, 1, s') \<and> emits send [b] (tx_crc (tx (snd s))) s s'"
proof -
  obtain u c where s: "s = (u, c)" by (cases s)
  show ?thesis
  proof (cases "writebufn (tx c) < 512")
    case True
    then show ?thesis using assms
      by (auto simp: s sfpBufferedWrite_def emits_def SFP_CONFIG_WRITEBUF_SIZE_def memcpy_def
        tx_ok_def pending_def link_def send_append)
  next
    case False
    then have full: "512 \<le> writebufn (tx c)" by simp
    obtain c' where c': "sfpFlushWriteBuffer env (u, c) = Some (send (pending c) u, c')"
      "link c' = link c" "tx_ok c'" "tx_crc (tx c') = tx_crc (tx c)" "pending c' = []"
      using flush_emits [of c u] assms s by auto
    have "writebufn (tx c') = 0" using c'(3,5) by (auto simp: pending_def tx_ok_def)
    with c' full show ?thesis
      by (auto simp: s sfpBufferedWrite_def emits_def SFP_CONFIG_WRITEBUF_SIZE_def memcpy_def
        tx_ok_def pending_def link_def send_append)
  qed
qed

lemma nocrc_emits:
  assumes "tx_ok (snd s)"
  shows "\<exists>s'. sfpWriteNoCRC env b s = Some (0, length (stuff [b]), s') \<and>
              emits send (stuff [b]) (tx_crc (tx (snd s))) s s'"
proof (cases "isReservedOctet b")
  case True
  obtain s' where s': "sfpBufferedWrite env SFP_ESC s = Some (0, 1, s')"
    "emits send [SFP_ESC] (tx_crc (tx (snd s))) s s'"
    using buffered_emits [OF assms] by blast
  then have "tx_ok (snd s')" "tx_crc (tx (snd s')) = tx_crc (tx (snd s))" by (simp_all add: emits_def)
  then obtain s'' where s'': "sfpBufferedWrite env (b XOR SFP_ESC_FLIP_BIT) s' = Some (0, 1, s'')"
    "emits send [b XOR SFP_ESC_FLIP_BIT] (tx_crc (tx (snd s))) s' s''"
    using buffered_emits [of s'] by force
  show ?thesis using True s' s'' emits_trans [OF s'(2) s''(2)]
    by (simp add: sfpWriteNoCRC_def)
next
  case False
  then show ?thesis using buffered_emits [OF assms, of b]
    by (auto simp: sfpWriteNoCRC_def)
qed

lemma write_emits:
  assumes "tx_ok (snd s)"
  shows "\<exists>s'. sfpWrite env b s = Some (0, length (stuff [b]), s') \<and>
              emits send (stuff [b]) (crc_ccitt_update (tx_crc (tx (snd s))) b) s s'"
proof -
  let ?s = "(fst s, upd_tx (\<lambda>t. t\<lparr>tx_crc := crc_ccitt_update (tx_crc t) b\<rparr>) (snd s))"
  have "tx_ok (snd ?s)" using assms by (simp add: tx_ok_def)
  moreover have "link (snd ?s) = link (snd s)" "pending (snd ?s) = pending (snd s)"
    by (simp_all add: link_def pending_def)
  ultimately show ?thesis
    using nocrc_emits [of ?s b] by (fastforce simp: sfpWrite_def emits_def)
qed

lemma writes_emits:
  assumes "tx_ok (snd s)"
  shows "\<exists>s'. sfpWrites env bs n s = Some (n + length (stuff bs), s') \<and>
              emits send (stuff bs) (foldl crc_ccitt_update (tx_crc (tx (snd s))) bs) s s'"
  using assms
proof (induction bs arbitrary: n s)
  case Nil
  then show ?case by (simp add: emits_def)
next
  case (Cons b bs)
  obtain s' where s': "sfpWrite env b s = Some (0, length (stuff [b]), s')"
    "emits send (stuff [b]) (crc_ccitt_update (tx_crc (tx (snd s))) b) s s'"
    using write_emits [OF Cons.prems] by blast
  then have "tx_ok (snd s')" "tx_crc (tx (snd s')) = crc_ccitt_update (tx_crc (tx (snd s))) b"
    by (simp_all add: emits_def)
  with Cons.IH [of s' "n + length (stuff [b])"] obtain s'' where s'':
    "sfpWrites env bs (n + length (stuff [b])) s' = Some (n + length (stuff [b]) + length (stuff bs), s'')"
    "emits send (stuff bs) (foldl crc_ccitt_update (tx_crc (tx (snd s))) (b # bs)) s' s''"
    by auto
  show ?case using s' s'' emits_trans [OF s'(2) s''(2)] stuff_append [of "[b]" bs]
    by (simp add: add.assoc)
qed

text \<open>A frame in two halves: what precedes its CRC, and the CRC with the closing flag.\<close>

lemma open_emits:
  assumes "tx_ok (snd s0)" "tx_crc (tx (snd s0)) = SFP_CRC_PRESET"
  shows "\<exists>s1 s2 s3. sfpBufferedWrite env SFP_FLAG s0 = Some (0, 1, s1) \<and>
     sfpWrite env hdr s1 = Some (0, length (stuff [hdr]), s2) \<and>
     sfpWrites env payload (1 + length (stuff [hdr])) s2
       = Some (1 + length (stuff (hdr # payload)), s3) \<and>
     emits send (SFP_FLAG # stuff (hdr # payload)) (crc_of (hdr # payload)) s0 s3"
proof -
  obtain s1 where s1: "sfpBufferedWrite env SFP_FLAG s0 = Some (0, 1, s1)"
    "emits send [SFP_FLAG] SFP_CRC_PRESET s0 s1"
    using buffered_emits [OF assms(1)] assms(2) by metis
  have ok1: "tx_ok (snd s1)" "tx_crc (tx (snd s1)) = SFP_CRC_PRESET"
    using s1(2) by (simp_all add: emits_def)
  obtain s2 where s2: "sfpWrite env hdr s1 = Some (0, length (stuff [hdr]), s2)"
    "emits send (stuff [hdr]) (crc_ccitt_update SFP_CRC_PRESET hdr) s1 s2"
    using write_emits [OF ok1(1)] ok1(2) by metis
  have ok2: "tx_ok (snd s2)" "tx_crc (tx (snd s2)) = crc_ccitt_update SFP_CRC_PRESET hdr"
    using s2(2) by (simp_all add: emits_def)
  obtain s3 where s3: "sfpWrites env payload (1 + length (stuff [hdr])) s2
      = Some (1 + length (stuff [hdr]) + length (stuff payload), s3)"
    "emits send (stuff payload) (crc_of (hdr # payload)) s2 s3"
    using writes_emits [OF ok2(1), of payload "1 + length (stuff [hdr])"]
    unfolding ok2(2) crc_of_def by auto
  have "emits send (SFP_FLAG # stuff (hdr # payload)) (crc_of (hdr # payload)) s0 s3"
    using emits_trans [OF emits_trans [OF s1(2) s2(2)] s3(2)] by simp
  moreover have "1 + length (stuff [hdr]) + length (stuff payload) = 1 + length (stuff (hdr # payload))"
    by simp
  ultimately show ?thesis using s1(1) s2(1) s3(1) by metis
qed

lemma close_emits:
  assumes "tx_ok (snd s3)"
  defines "crc \<equiv> tx_crc (tx (snd s3))"
  shows "\<exists>s4 s5 s6 c. sfpWriteNoCRC env (ucast (NOT crc AND 0x00ff)) s3 = Some (0, length (stuff [ucast (NOT crc AND 0x00ff)]), s4) \<and>
     sfpWriteNoCRC env (ucast (drop_bit 8 (NOT crc) AND 0x00ff)) s4
       = Some (0, length (stuff [ucast (drop_bit 8 (NOT crc) AND 0x00ff)]), s5) \<and>
     sfpBufferedWrite env SFP_FLAG s5 = Some (0, 1, s6) \<and>
     sfpFlushWriteBuffer env s6
       = Some (send (pending (snd s3) @ stuff (crc_octets crc) @ [SFP_FLAG]) (fst s3), c) \<and>
     link c = link (snd s3) \<and> idle c"
proof -
  let ?lo = "ucast (NOT crc AND 0x00ff) :: u8" and ?hi = "ucast (drop_bit 8 (NOT crc) AND 0x00ff) :: u8"
  obtain s4 where s4: "sfpWriteNoCRC env ?lo s3 = Some (0, length (stuff [?lo]), s4)"
    "emits send (stuff [?lo]) crc s3 s4"
    using nocrc_emits [OF assms(1)] crc_def by metis
  have ok4: "tx_ok (snd s4)" "tx_crc (tx (snd s4)) = crc" using s4(2) by (simp_all add: emits_def)
  obtain s5 where s5: "sfpWriteNoCRC env ?hi s4 = Some (0, length (stuff [?hi]), s5)"
    "emits send (stuff [?hi]) crc s4 s5"
    using nocrc_emits [OF ok4(1)] ok4(2) by metis
  have ok5: "tx_ok (snd s5)" "tx_crc (tx (snd s5)) = crc" using s5(2) by (simp_all add: emits_def)
  obtain s6 where s6: "sfpBufferedWrite env SFP_FLAG s5 = Some (0, 1, s6)"
    "emits send [SFP_FLAG] crc s5 s6"
    using buffered_emits [OF ok5(1)] ok5(2) by metis
  then obtain c where c: "sfpFlushWriteBuffer env s6 = Some (send (pending (snd s6)) (fst s6), c)"
    "link c = link (snd s6)" "tx_ok c" "pending c = []"
    using flush_emits [of "snd s6" "fst s6"] by (auto simp: emits_def)
  have "idle c" using c(3,4) by (auto simp: pending_def tx_ok_def idle_def)
  moreover have "emits send (stuff (crc_octets crc) @ [SFP_FLAG]) crc s3 s6"
    using emits_trans [OF emits_trans [OF s4(2) s5(2)] s6(2)] stuff_append [of "[?lo]" "[?hi]"]
    by (simp add: crc_octets_def)
  ultimately have "link c = link (snd s3)" "idle c"
    "send (pending (snd s6)) (fst s6) = send (pending (snd s3) @ stuff (crc_octets crc) @ [SFP_FLAG]) (fst s3)"
    using c(2) by (simp_all add: emits_def)
  then show ?thesis using s4(1) s5(1) s6(1) c(1) by metis
qed

lemma frame_emits:
  assumes ok: "tx_ok c" and payload: "payload_of pkt = Some payload"
  shows "\<exists>c'. sfpTransmitFrameWithHeader env hdr pkt (u, c)
           = Some (0, length (frame hdr payload), send (pending c @ frame hdr payload) u, c') \<and>
         link c' = link c \<and> idle c'"
proof -
  let ?s0 = "(u, upd_tx (\<lambda>t. t\<lparr>tx_crc := SFP_CRC_PRESET\<rparr>) c)"
  have ok0: "tx_ok (snd ?s0)" "tx_crc (tx (snd ?s0)) = SFP_CRC_PRESET"
    "link (snd ?s0) = link c" "pending (snd ?s0) = pending c"
    using ok by (simp_all add: tx_ok_def link_def pending_def)
  obtain s1 s2 s3 where o: "sfpBufferedWrite env SFP_FLAG ?s0 = Some (0, 1, s1)"
     "sfpWrite env hdr s1 = Some (0, length (stuff [hdr]), s2)"
     "sfpWrites env payload (1 + length (stuff [hdr])) s2
       = Some (1 + length (stuff (hdr # payload)), s3)"
     "emits send (SFP_FLAG # stuff (hdr # payload)) (crc_of (hdr # payload)) ?s0 s3"
    using open_emits [OF ok0(1,2), of hdr payload] by blast
  let ?crc = "crc_of (hdr # payload)"
  have ok3: "tx_ok (snd s3)" "tx_crc (tx (snd s3)) = ?crc" "link (snd s3) = link c"
    using o(4) ok0(3) by (simp_all add: emits_def)
  obtain s4 s5 s6 c' where e:
     "sfpWriteNoCRC env (ucast (NOT ?crc AND 0x00ff)) s3
        = Some (0, length (stuff [ucast (NOT ?crc AND 0x00ff)]), s4)"
     "sfpWriteNoCRC env (ucast (drop_bit 8 (NOT ?crc) AND 0x00ff)) s4
       = Some (0, length (stuff [ucast (drop_bit 8 (NOT ?crc) AND 0x00ff)]), s5)"
     "sfpBufferedWrite env SFP_FLAG s5 = Some (0, 1, s6)"
     "sfpFlushWriteBuffer env s6
       = Some (send (pending (snd s3) @ stuff (crc_octets ?crc) @ [SFP_FLAG]) (fst s3), c')"
     "link c' = link (snd s3)" "idle c'"
    using close_emits [OF ok3(1)] unfolding ok3(2) by blast
  have wire: "frame hdr payload = SFP_FLAG # stuff (hdr # payload) @ stuff (crc_octets ?crc) @ [SFP_FLAG]"
    using stuff_append [of "hdr # payload" "crc_octets ?crc"] by (simp add: frame_def)
  have n: "1 + length (stuff (hdr # payload)) + length (stuff [ucast (NOT ?crc AND 0x00ff)])
        + length (stuff [ucast (drop_bit 8 (NOT ?crc) AND 0x00ff)]) + 1 = length (frame hdr payload)"
    unfolding wire crc_octets_def by simp
  have "send (pending (snd s3) @ stuff (crc_octets ?crc) @ [SFP_FLAG]) (fst s3)
      = send (pending c @ frame hdr payload) u"
    unfolding wire send_append [of "pending (snd s3)"]
    using o(4) ok0(4) send_append [of "pending c @ SFP_FLAG # stuff (hdr # payload)"]
    by (simp add: emits_def del: stuff.simps)
  then show ?thesis
    using o(1-3) e n payload ok3
    by (cases pkt) (simp_all add: sfpTransmitFrameWithHeader_def del: stuff.simps)
qed

end

section \<open>Reception\<close>

lemma sfpDeliverOctets_append:
  "sfpDeliverOctets env (xs @ ys) s = sfpDeliverOctets env xs s \<bind> sfpDeliverOctets env ys"
  by (induction xs arbitrary: s) (auto split: Option.bind_split prod.splits)

text \<open>The receiver between two frames, and in the middle of one.\<close>

definition rx_fresh :: "SFPreceiver \<Rightarrow> bool" where
  "rx_fresh r \<longleftrightarrow> rx_crc r = SFP_CRC_PRESET \<and> escapeState r = SFP_ESCAPE_STATE_NORMAL \<and>
     frameState r = SFP_FRAME_STATE_NEW \<and> len (packet r) = 0 \<and> length (buf (packet r)) = 256"

definition rx_load :: "SFPheader \<Rightarrow> octets \<Rightarrow> SFPreceiver \<Rightarrow> SFPreceiver" where
  "rx_load hdr bytes r = r\<lparr>rx_crc := crc_of (hdr # bytes), escapeState := SFP_ESCAPE_STATE_NORMAL,
     frameState := SFP_FRAME_STATE_RECEIVING, header := hdr,
     packet := \<lparr>buf = bytes @ drop (length bytes) (buf (packet r)), len = length bytes\<rparr>\<rparr>"

lemma flip_not_reserved: "isReservedOctet b \<Longrightarrow> \<not> isReservedOctet (b XOR SFP_ESC_FLIP_BIT)"
  by (auto simp: isReservedOctet_def SFP_ESC_def SFP_FLAG_def SFP_ESC_FLIP_BIT_def)

lemma flip_flip: "(b XOR SFP_ESC_FLIP_BIT) XOR SFP_ESC_FLIP_BIT = b"
  by (simp add: xor.assoc)

text \<open>An octet of data, once the stuffing is off.\<close>

definition rx_octet :: "u8 \<Rightarrow> SFPcontext \<Rightarrow> SFPcontext option" where
  "rx_octet b c =
     (let c = upd_rx (\<lambda>r. r\<lparr>escapeState := SFP_ESCAPE_STATE_NORMAL,
                             rx_crc := crc_ccitt_update (rx_crc r) b\<rparr>) c in
      if frameState (rx c) = SFP_FRAME_STATE_NEW
      then Some (upd_rx (\<lambda>r. r\<lparr>header := b, frameState := SFP_FRAME_STATE_RECEIVING\<rparr>) c)
      else sfpBufferOctet b c)"

lemma deliver_data:
  assumes "\<not> isReservedOctet b"
  shows "sfpDeliverOctet env b out n (u, c) =
    (let b' = (if escapeState (rx c) = SFP_ESCAPE_STATE_ESCAPING then b XOR SFP_ESC_FLIP_BIT else b)
     in rx_octet b' c \<bind> (\<lambda>c. Some (0, out, None, u, c)))"
proof (cases "escapeState (rx c)")
  case SFP_ESCAPE_STATE_NORMAL
  then have same: "(rx c)\<lparr>escapeState := SFP_ESCAPE_STATE_NORMAL, rx_crc := x\<rparr> = (rx c)\<lparr>rx_crc := x\<rparr>" for x
    by (cases "rx c") simp
  then show ?thesis using assms SFP_ESCAPE_STATE_NORMAL
    by (simp add: sfpDeliverOctet_def isReservedOctet_def rx_octet_def Let_def same)
next
  case SFP_ESCAPE_STATE_ESCAPING
  then show ?thesis using assms
    by (simp add: sfpDeliverOctet_def isReservedOctet_def rx_octet_def Let_def)
qed

lemma deliver_stuffed:
  assumes "escapeState (rx c) = SFP_ESCAPE_STATE_NORMAL"
  shows "sfpDeliverOctets env (stuff [b]) (u, c) = rx_octet b c \<bind> (\<lambda>c. Some (u, c))"
proof (cases "isReservedOctet b")
  case False
  then show ?thesis using assms by (cases "rx_octet b c") (simp_all add: deliver_data Let_def)
next
  case True
  let ?c = "upd_rx (\<lambda>r. r\<lparr>escapeState := SFP_ESCAPE_STATE_ESCAPING\<rparr>) c"
  have "sfpDeliverOctet env SFP_ESC None 0 (u, c) = Some (0, None, None, u, ?c)"
    by (simp add: sfpDeliverOctet_def SFP_ESC_def SFP_FLAG_def)
  moreover have "sfpDeliverOctet env (b XOR SFP_ESC_FLIP_BIT) None 0 (u, ?c)
      = rx_octet b ?c \<bind> (\<lambda>c. Some (0, None, None, u, c))"
    using flip_not_reserved [OF True] by (simp add: deliver_data flip_flip)
  moreover have "rx_octet b ?c = rx_octet b c"
    by (simp add: rx_octet_def)
  ultimately show ?thesis using True by (cases "rx_octet b c") simp_all
qed

lemma crc_of_snoc: "crc_of (xs @ [b]) = crc_ccitt_update (crc_of xs) b"
  by (simp add: crc_of_def)

lemma rx_octet_header:
  assumes "rx_fresh (rx c)"
  shows "rx_octet h c = Some (upd_rx (rx_load h []) c)"
  using assms by (simp add: rx_octet_def rx_load_def rx_fresh_def crc_of_def)

lemma rx_octet_payload:
  assumes "rx_fresh (rx c)" "length bs < 256"
  shows "rx_octet b (upd_rx (rx_load h bs) c) = Some (upd_rx (rx_load h (bs @ [b])) c)"
  using assms crc_of_snoc [of "h # bs" b]
  by (simp add: rx_octet_def rx_load_def rx_fresh_def sfpBufferOctet_def memcpy_def
    SFP_CONFIG_MAX_PACKET_SIZE_def Let_def drop_append)

lemma receive_body:
  assumes "rx_fresh (rx c)" "length bs \<le> 256"
  shows "sfpDeliverOctets env (stuff (h # bs)) (u, c) = Some (u, upd_rx (rx_load h bs) c)"
  using assms
proof (induction bs rule: rev_induct)
  case Nil
  then show ?case
    using deliver_stuffed [of c env h u] by (simp add: rx_fresh_def rx_octet_header del: stuff.simps)
next
  case (snoc b bs)
  have "stuff (h # bs @ [b]) = stuff (h # bs) @ stuff [b]"
    using stuff_append [of "h # bs" "[b]"] by simp
  moreover have "escapeState (rx (upd_rx (rx_load h bs) c)) = SFP_ESCAPE_STATE_NORMAL"
    by (simp add: rx_load_def)
  ultimately show ?case using snoc
    by (simp add: sfpDeliverOctets_append deliver_stuffed rx_octet_payload del: stuff.simps)
qed

lemma receive_flag_fresh:
  "rx_fresh (rx c) \<Longrightarrow> sfpDeliverOctet env SFP_FLAG out n (u, c) = Some (0, out, None, u, c)"
  by (simp add: sfpDeliverOctet_def rx_fresh_def sfpResetReceiver_def)

text \<open>A whole frame is handled once, with its payload in the packet, unless it overruns the packet.\<close>

definition rx_frame :: "SFPheader \<Rightarrow> octets \<Rightarrow> SFPcontext \<Rightarrow> SFPcontext" where
  "rx_frame hdr payload c = upd_rx (rx_load hdr (payload @ crc_octets (crc_of (hdr # payload)))) c"

lemma crc_of_frame: "crc_of (hdr # payload @ crc_octets (crc_of (hdr # payload))) = SFP_CRC_GOOD"
  using crc_residue by (simp add: crc_of_def)

theorem receive_frame:
  assumes "rx_fresh (rx c)" "length payload \<le> 254"
  shows "sfpDeliverOctets env (frame hdr payload) (u, c) = do {
     (ret, s) \<leftarrow> sfpHandleFrame env (u, rx_frame hdr payload c);
     Some (fst s, sfpResetReceiver (snd s))
   }"
proof -
  let ?bs = "payload @ crc_octets (crc_of (hdr # payload))"
  have "sfpDeliverOctets env (stuff (hdr # ?bs)) (u, c) = Some (u, rx_frame hdr payload c)"
    using assms receive_body [of c ?bs env hdr u] by (simp add: crc_octets_def rx_frame_def)
  moreover have "frameState (rx (rx_frame hdr payload c)) = SFP_FRAME_STATE_RECEIVING"
    by (simp add: rx_frame_def rx_load_def)
  ultimately show ?thesis
    using receive_flag_fresh [OF assms(1), of env None 0 u]
    by (simp add: frame_def sfpDeliverOctets_append sfpDeliverOctet_def bind_assoc split_def
      del: stuff.simps)
qed

lemma length_crc_octets [simp]: "length (crc_octets crc) = 2"
  by (simp add: crc_octets_def)

lemma rx_frame_simps [simp]:
  "len (packet (rx (rx_frame hdr payload c))) = length payload + 2"
  "rx_crc (rx (rx_frame hdr payload c)) = SFP_CRC_GOOD"
  "header (rx (rx_frame hdr payload c)) = hdr"
  "tx (rx_frame hdr payload c) = tx c"
  "connectState (rx_frame hdr payload c) = connectState c"
  by (simp_all add: rx_frame_def rx_load_def crc_of_frame)

end
