(* ===== verification/SFP_Link.thy ===== *)
theory SFP_Link
  imports SFP_Frames
begin

text \<open>
  The link layer above single frames: sequence numbers, the history, retransmission and the
  handshake, for transmitters and receivers whose callbacks do not reenter the protocol.
\<close>

section \<open>Sequence numbers and headers\<close>

lemma unat_nextSeq: "unat (nextSeq q) = (unat q + 1) mod 64"
proof -
  have "unat (nextSeq q) = unat (q + 1) mod 64"
    by (simp add: nextSeq_def SFP_SEQ_RANGE_def mask_simps)
  then show ?thesis by (simp add: unat_word_ariths mod_mod_cancel)
qed

lemma unat_nextSeqs: "unat q < 64 \<Longrightarrow> unat ((nextSeq ^^ n) q) = (unat q + n) mod 64"
  by (induction n) (simp_all add: unat_nextSeq mod_simps)

lemma seq_eq_iff: "unat (a :: u8) = unat b \<longleftrightarrow> a = b"
  by (simp add: word_unat_eq_iff)

lemma seq_bits: "unat (q :: u8) < 64 \<Longrightarrow> 6 \<le> n \<Longrightarrow> \<not> bit q n"
proof -
  assume "unat q < 64" "6 \<le> n"
  then have "take_bit 6 (unat q) = unat q" by (simp add: take_bit_nat_eq_self)
  then have "\<not> bit (unat q) n" using \<open>6 \<le> n\<close> by (metis bit_take_bit_iff not_le)
  then show "\<not> bit q n" by (simp add: bit_unsigned_iff)
qed

lemma getFrameSeq_mkHeader: "unat q < 64 \<Longrightarrow> getFrameSeq (mkHeader q t) = q"
  by (cases t; rule word8_eqI) (simp_all add: getFrameSeq_def mkHeader_def bit_simps seq_bits)

lemma type_bits: "unat q < 64 \<Longrightarrow> drop_bit 6 (mkHeader q t) AND 3 = frame_type_code t"
  by (cases t; rule word8_eqI) (simp_all add: mkHeader_def bit_simps seq_bits)

lemma getFrameType_mkHeader: "unat q < 64 \<Longrightarrow> getFrameType (mkHeader q t) = t"
  using type_bits [of q t] by (cases t) (simp_all add: getFrameType_def frametype_of_def)

lemma getFrameSeq_range: "unat (getFrameSeq hdr) < 64"
  by (simp add: getFrameSeq_def mask_simps)

lemma nextSeq_range: "unat (nextSeq q) < 64"
  by (simp add: unat_nextSeq)

section \<open>Packets and the history\<close>

definition pkt_ok :: "SFPpacket \<Rightarrow> bool" where
  "pkt_ok p \<longleftrightarrow> length (buf p) = 256 \<and> len p \<le> 256"

definition payload :: "SFPpacket \<Rightarrow> octets" where
  "payload p = take (len p) (buf p)"

lemma payload_of_Some: "pkt_ok p \<Longrightarrow> payload_of (Some p) = Some (payload p)"
  by (simp add: pkt_ok_def payload_def load_def)

definition hist_ok :: "PotRingbuffer \<Rightarrow> bool" where
  "hist_ok h \<longleftrightarrow> pot_inv h \<and> (\<forall>p\<in>set (pot_contents h). pkt_ok p)"

definition hist :: "SFPcontext \<Rightarrow> octets list" where
  "hist c = map payload (pot_contents (history (tx c)))"

text \<open>The transmitter's invariant between two calls.\<close>

definition tx_inv :: "SFPcontext \<Rightarrow> bool" where
  "tx_inv c \<longleftrightarrow> idle c \<and> hist_ok (history (tx c)) \<and> unat (tx_seq (tx c)) < 64"

lemma idle_link:
  "idle c' \<Longrightarrow> link c' = link c \<Longrightarrow> hist_ok (history (tx c)) \<Longrightarrow> unat (tx_seq (tx c)) < 64 \<Longrightarrow> tx_inv c'"
  using link_eqD(3,4) [of c' c] by (simp add: tx_inv_def)

lemma keep_last_set: "set (keep_last n xs) \<subseteq> set xs"
  by (simp add: keep_last_def set_drop_subset)

lemma hist_ok_push: "hist_ok h \<Longrightarrow> pkt_ok p \<Longrightarrow> hist_ok (potRingbufferPushBack h p)"
  using keep_last_set [of 8 "pot_contents h @ [p]"]
  by (auto simp: hist_ok_def history.push_inv history.push)

text \<open>A list of payloads as consecutive frames from a sequence number on.\<close>

fun data_frames :: "SFPframetype \<Rightarrow> SFPseq \<Rightarrow> octets list \<Rightarrow> octets" where
  "data_frames t q [] = []"
| "data_frames t q (p # ps) = frame (mkHeader q t) p @ data_frames t (nextSeq q) ps"

abbreviation rtx_frames :: "SFPseq \<Rightarrow> octets list \<Rightarrow> octets" where
  "rtx_frames \<equiv> data_frames SFP_FRAME_RTX"

lemma link_tx_seq: "link (upd_tx (\<lambda>t. t\<lparr>tx_seq := q\<rparr>) c) = upd_tx (\<lambda>t. t\<lparr>tx_seq := q\<rparr>) (link c)"
  by (cases "tx c") (simp add: link_def)

lemma link_history: "link (upd_tx (\<lambda>t. t\<lparr>history := h\<rparr>) c) = upd_tx (\<lambda>t. t\<lparr>history := h\<rparr>) (link c)"
  by (cases "tx c") (simp add: link_def)

lemma link_upd_tx_seq:
  assumes "link c' = link c"
  shows "link (upd_tx (\<lambda>t. t\<lparr>tx_seq := f (tx_seq t)\<rparr>) c') = link (upd_tx (\<lambda>t. t\<lparr>tx_seq := f (tx_seq t)\<rparr>) c)"
  using link_tx_seq [of "f (tx_seq (tx c'))" c'] link_tx_seq [of "f (tx_seq (tx c))" c] assms
    link_eqD(3) [OF assms] by simp

context sfp_medium
begin

lemma control_frame:
  assumes "idle c"
  shows "\<exists>c'. sfpTransmitFrameWithHeader env hdr None (u, c)
           = Some (0, length (frame hdr []), send (frame hdr []) u, c') \<and> idle c' \<and> link c' = link c"
  using frame_emits [of c None "[]" hdr u] assms by (auto simp: idle_def pending_def)

lemma transmit_NAK:
  assumes "idle c"
  shows "\<exists>c'. sfpTransmitNAK env q (u, c) = Some (send (frame (mkHeader q SFP_FRAME_NAK) []) u, c') \<and>
     idle c' \<and> link c' = link c"
  using control_frame [OF assms, of "mkHeader q SFP_FRAME_NAK" u] by (auto simp: sfpTransmitNAK_def)

lemma transmit_SYN:
  assumes "idle c"
  shows "\<exists>c'. sfpTransmitDIS env (u, c) = Some (send (frame (mkHeader SFP_SEQ_SYN_DIS SFP_FRAME_SYN) []) u, c') \<and>
      idle c' \<and> link c' = link c"
    and "\<exists>c'. sfpTransmitSYN0 env (u, c) = Some (send (frame (mkHeader SFP_SEQ_SYN0 SFP_FRAME_SYN) []) u, c') \<and>
      idle c' \<and> link c' = link c"
    and "\<exists>c'. sfpTransmitSYN1 env (u, c) = Some (send (frame (mkHeader SFP_SEQ_SYN1 SFP_FRAME_SYN) []) u, c') \<and>
      idle c' \<and> link c' = link c"
    and "\<exists>c'. sfpTransmitSYN2 env (u, c) = Some (send (frame (mkHeader SFP_SEQ_SYN2 SFP_FRAME_SYN) []) u, c') \<and>
      idle c' \<and> link c' = link c"
  using control_frame [OF assms, of "mkHeader SFP_SEQ_SYN_DIS SFP_FRAME_SYN" u]
    control_frame [OF assms, of "mkHeader SFP_SEQ_SYN0 SFP_FRAME_SYN" u]
    control_frame [OF assms, of "mkHeader SFP_SEQ_SYN1 SFP_FRAME_SYN" u]
    control_frame [OF assms, of "mkHeader SFP_SEQ_SYN2 SFP_FRAME_SYN" u]
  by (auto simp: sfpTransmitDIS_def sfpTransmitSYN0_def sfpTransmitSYN1_def sfpTransmitSYN2_def)

lemma transmit_USR:
  assumes "idle c" "pkt_ok p"
  shows "\<exists>c'. sfpTransmitUSR env p (u, c)
      = Some (0, length (frame (mkHeader (tx_seq (tx c)) SFP_FRAME_USR) (payload p)),
              send (frame (mkHeader (tx_seq (tx c)) SFP_FRAME_USR) (payload p)) u, c') \<and>
    idle c' \<and>
    link c' = link (upd_tx (\<lambda>t. t\<lparr>history := potRingbufferPushBack (history t) p, tx_seq := nextSeq (tx_seq t)\<rparr>) c)"
proof -
  let ?c = "upd_tx (\<lambda>t. t\<lparr>history := potRingbufferPushBack (history t) p\<rparr>) c"
  let ?h = "mkHeader (tx_seq (tx c)) SFP_FRAME_USR"
  have "tx_ok ?c" "pending ?c = []" using assms(1) by (simp_all add: idle_def tx_ok_def pending_def)
  then obtain c' where c': "sfpTransmitFrameWithHeader env ?h (Some p) (u, ?c)
      = Some (0, length (frame ?h (payload p)), send (frame ?h (payload p)) u, c')"
    "link c' = link ?c" "idle c'"
    using frame_emits [of ?c "Some p" "payload p" ?h u] assms(2) payload_of_Some by auto
  let ?c'' = "upd_tx (\<lambda>t. t\<lparr>tx_seq := nextSeq (tx_seq t)\<rparr>) c'"
  have "idle ?c''" using c'(3) by (simp add: idle_def tx_ok_def)
  moreover have "link ?c'' = link (upd_tx (\<lambda>t. t\<lparr>tx_seq := nextSeq (tx_seq t)\<rparr>) ?c)"
    using c'(2) by (rule link_upd_tx_seq)
  ultimately show ?thesis using c'(1)
    by (simp add: sfpTransmitUSR_def sfpTransmitFrameImpl_def Let_def)
qed

lemma transmit_RTX:
  assumes "idle c" "pkt_ok p"
  shows "\<exists>c'. sfpTransmitRTX env p (u, c)
      = Some (send (frame (mkHeader (tx_seq (tx c)) SFP_FRAME_RTX) (payload p)) u, c') \<and>
    idle c' \<and> link c' = link (upd_tx (\<lambda>t. t\<lparr>tx_seq := nextSeq (tx_seq t)\<rparr>) c)"
proof -
  let ?h = "mkHeader (tx_seq (tx c)) SFP_FRAME_RTX"
  obtain c' where c': "sfpTransmitFrameWithHeader env ?h (Some p) (u, c)
      = Some (0, length (frame ?h (payload p)), send (frame ?h (payload p)) u, c')"
    "link c' = link c" "idle c'"
    using frame_emits [of c "Some p" "payload p" ?h u] assms payload_of_Some
    by (auto simp: idle_def pending_def)
  let ?c'' = "upd_tx (\<lambda>t. t\<lparr>tx_seq := nextSeq (tx_seq t)\<rparr>) c'"
  have "idle ?c''" using c'(3) by (simp add: idle_def tx_ok_def)
  moreover have "link ?c'' = link (upd_tx (\<lambda>t. t\<lparr>tx_seq := nextSeq (tx_seq t)\<rparr>) c)"
    using c'(2) by (rule link_upd_tx_seq)
  ultimately show ?thesis using c'(1)
    by (simp add: sfpTransmitRTX_def sfpTransmitFrameImpl_def Let_def)
qed

end

section \<open>Retransmission\<close>

lemma upd_tx_id [simp]: "upd_tx (\<lambda>t. t\<lparr>tx_seq := tx_seq t\<rparr>) c = c"
  by simp

context sfp_medium
begin

lemma history_loop:
  assumes "idle c" "hist_ok (history (tx c))" "i + k \<le> length (hist c)"
  shows "\<exists>c'. sfpTransmitHistory_loop env i k (u, c)
      = Some (send (rtx_frames (tx_seq (tx c)) (take k (drop i (hist c)))) u, c') \<and>
    idle c' \<and> link c' = link (upd_tx (\<lambda>t. t\<lparr>tx_seq := (nextSeq ^^ k) (tx_seq t)\<rparr>) c)"
  using assms
proof (induction k arbitrary: i u c)
  case 0
  then show ?case by (simp add: send_Nil)
next
  case (Suc k)
  let ?h = "history (tx c)" and ?q = "tx_seq (tx c)"
  have i: "i < length (pot_contents ?h)" using Suc.prems(3) by (simp add: hist_def)
  let ?p = "pot_fetch ?h i"
  have p: "?p = pot_contents ?h ! i" using history.fetch i Suc.prems(2) by (simp add: hist_ok_def)
  have "pkt_ok ?p" unfolding p using i Suc.prems(2) by (auto simp: hist_ok_def)
  then obtain c1 where c1: "sfpTransmitRTX env ?p (u, c)
      = Some (send (frame (mkHeader ?q SFP_FRAME_RTX) (payload ?p)) u, c1)" "idle c1"
    "link c1 = link (upd_tx (\<lambda>t. t\<lparr>tx_seq := nextSeq (tx_seq t)\<rparr>) c)"
    using transmit_RTX [OF Suc.prems(1)] by blast
  have same: "history (tx c1) = ?h" "tx_seq (tx c1) = nextSeq ?q"
    using link_eqD(3,4) [OF c1(3)] by simp_all
  then have "hist c1 = hist c" by (simp add: hist_def)
  with Suc.IH [OF c1(2), of "Suc i" "send (frame (mkHeader ?q SFP_FRAME_RTX) (payload ?p)) u"] same Suc.prems
  obtain c2 where c2: "sfpTransmitHistory_loop env (Suc i) k
        (send (frame (mkHeader ?q SFP_FRAME_RTX) (payload ?p)) u, c1)
      = Some (send (rtx_frames (nextSeq ?q) (take k (drop (Suc i) (hist c))))
          (send (frame (mkHeader ?q SFP_FRAME_RTX) (payload ?p)) u), c2)" "idle c2"
    "link c2 = link (upd_tx (\<lambda>t. t\<lparr>tx_seq := (nextSeq ^^ k) (tx_seq t)\<rparr>) c1)"
    by auto
  have "take (Suc k) (drop i (hist c)) = payload ?p # take k (drop (Suc i) (hist c))"
    using i by (simp add: p hist_def Cons_nth_drop_Suc [symmetric])
  moreover have "link c2 = link (upd_tx (\<lambda>t. t\<lparr>tx_seq := (nextSeq ^^ Suc k) (tx_seq t)\<rparr>) c)"
    using c2(3) link_upd_tx_seq [OF c1(3), of "nextSeq ^^ k"] by (simp add: funpow_swap1)
  ultimately show ?case using c1(1) c2(1,2) by (simp add: send_append)
qed

lemma transmit_history:
  assumes "idle c" "hist_ok (history (tx c))"
  shows "\<exists>c'. sfpTransmitHistory env (u, c) = Some (send (rtx_frames (tx_seq (tx c)) (hist c)) u, c') \<and>
    idle c' \<and> link c' = link (upd_tx (\<lambda>t. t\<lparr>tx_seq := (nextSeq ^^ length (hist c)) (tx_seq t)\<rparr>) c)"
proof -
  have "unat (potRingbufferSize (history (tx c))) = length (hist c)"
    using assms(2) history.count by (simp add: hist_ok_def hist_def)
  then show ?thesis using history_loop [OF assms, of 0 "length (hist c)" u]
    by (simp add: sfpTransmitHistory_def)
qed

end

text \<open>How many packets a retransmission from \<open>seq\<close> skips, and the ring it leaves.\<close>

definition skip_count :: "SFPseq \<Rightarrow> SFPcontext \<Rightarrow> nat" where
  "skip_count seq c = (unat seq + 64 + length (hist c) - unat (tx_seq (tx c))) mod 64"

definition skip :: "SFPseq \<Rightarrow> SFPcontext \<Rightarrow> PotRingbuffer" where
  "skip seq c = (if skip_count seq c < length (hist c)
     then (potRingbufferPopFront ^^ skip_count seq c) (history (tx c)) else history (tx c))"

lemma unat_ucast_8_32: "unat (ucast (q :: u8) :: u32) = unat q"
proof -
  have "unat q < 2 ^ 32" using unsigned_less [of q, where 'a=nat] by simp
  then show ?thesis by (simp add: unsigned_ucast_eq take_bit_nat_eq_self)
qed

lemma mod64_cancel: "(x + b) mod 64 = (d + b) mod 64 \<Longrightarrow> x mod 64 = d mod (64::nat)"
  by (auto simp: nat_mod_eq_iff)

lemma fastforward:
  assumes "hist_ok (history (tx c))" "unat (tx_seq (tx c)) < 64"
  shows "unat ((ucast seq - (ucast (tx_seq (tx c)) - potRingbufferSize (history (tx c)))) AND 63 :: u32)
    = skip_count seq c"
proof -
  let ?s = "potRingbufferSize (history (tx c))" and ?t = "ucast (tx_seq (tx c)) :: u32"
  let ?f = "ucast seq - (?t - ?s) :: u32"
  have s: "unat ?s = length (hist c)"
    using assms(1) history.count by (simp add: hist_ok_def hist_def)
  have mod64: "unat (a + b :: u32) mod 64 = (unat a + unat b) mod 64" for a b
    by (simp add: unat_word_ariths mod_mod_cancel)
  have "?f + ?t = ucast seq + ?s" by simp
  then have "(unat ?f + unat ?t) mod 64 = (unat (ucast seq :: u32) + unat ?s) mod 64"
    using mod64 by metis
  moreover have "unat ?t = unat (tx_seq (tx c))" "unat (ucast seq :: u32) = unat seq"
    by (rule unat_ucast_8_32)+
  ultimately have "(unat ?f + unat (tx_seq (tx c))) mod 64 = (unat seq + length (hist c)) mod 64"
    using s by simp
  also have "\<dots> = (unat seq + 64 + length (hist c) - unat (tx_seq (tx c)) + unat (tx_seq (tx c))) mod 64"
    using assms(2) mod_add_self2 [of "unat seq + length (hist c)" 64] by (simp add: ac_simps)
  finally have "unat ?f mod 64 = skip_count seq c"
    unfolding skip_count_def by (rule mod64_cancel)
  then show ?thesis by (simp add: mask_simps)
qed

lemma skip_hist:
  assumes "hist_ok (history (tx c))"
  shows "hist_ok (skip seq c) \<and> map payload (pot_contents (skip seq c)) =
     (if skip_count seq c < length (hist c) then drop (skip_count seq c) (hist c) else hist c)"
proof -
  have "pot_inv (history (tx c))" "\<forall>p\<in>set (pot_contents (history (tx c))). pkt_ok p"
    using assms by (simp_all add: hist_ok_def)
  with history.pops [of "history (tx c)" "skip_count seq c"] show ?thesis
    by (auto simp: skip_def hist_ok_def hist_def drop_map dest: in_set_dropD)
qed

lemma fromseq_eq:
  assumes "hist_ok (history (tx c))" "unat (tx_seq (tx c)) < 64"
  shows "sfpTransmitHistoryFromSeq env seq (u, c)
    = sfpTransmitHistory env (u, upd_tx (\<lambda>t. t\<lparr>history := skip seq c, tx_seq := seq\<rparr>) c)"
proof -
  let ?f = "(ucast seq - (ucast (tx_seq (tx c)) - potRingbufferSize (history (tx c)))) AND 63 :: u32"
  have "unat (potRingbufferSize (history (tx c))) = length (hist c)"
    using assms(1) history.count by (simp add: hist_ok_def hist_def)
  then have "?f < potRingbufferSize (history (tx c)) \<longleftrightarrow> skip_count seq c < length (hist c)"
    unfolding word_less_nat_alt fastforward [OF assms] by simp
  then show ?thesis
    using fastforward [OF assms, of seq]
    by (simp add: sfpTransmitHistoryFromSeq_def Let_def skip_def)
qed

lemma clear_history:
  assumes "hist_ok (history (tx c))"
  shows "\<exists>h. sfpClearHistory c = Some (upd_tx (\<lambda>t. t\<lparr>history := h\<rparr>) c) \<and> hist_ok h \<and> pot_contents h = []"
  using assms
proof (induction "length (pot_contents (history (tx c)))" arbitrary: c)
  case 0
  then have "potRingbufferEmpty (history (tx c))" by (simp add: hist_ok_def history.is_empty)
  then show ?case using 0 by (intro exI [of _ "history (tx c)"]) (simp add: sfpClearHistory.simps)
next
  case (Suc n)
  let ?h = "history (tx c)" and ?c = "upd_tx (\<lambda>t. t\<lparr>history := potRingbufferPopFront (history t)\<rparr>) c"
  have ne: "pot_inv ?h" "pot_contents ?h \<noteq> []" using Suc.prems Suc.hyps(2) by (auto simp: hist_ok_def)
  then have "hist_ok (history (tx ?c))" "n = length (pot_contents (history (tx ?c)))"
    using Suc.prems Suc.hyps(2) by (auto simp: hist_ok_def history.pop history.pop_inv dest: list.set_sel(2))
  with Suc.hyps(1) [of ?c] ne show ?case
    by (auto simp: sfpClearHistory.simps [of c] history.is_empty)
qed

end
