(* ===== verification/SFP_Protocol.thy ===== *)
theory SFP_Protocol
  imports SFP_Link
begin

text \<open>
  The serial framing protocol end to end: no stream of octets makes the receiver fault, packets
  written by a connected peer arrive in order, lost frames are retransmitted, and the handshake
  connects both ends.
\<close>

section \<open>Callbacks that do not reenter\<close>

locale sfp_world = sfp_medium +
  fixes recv :: "octets \<Rightarrow> 'a \<Rightarrow> 'a"
  assumes deliver_recv: "call_deliver env d octs ud (u, c) = Some (recv octs u, c)"

text \<open>A world that logs the octets written and the packets delivered.\<close>

record sfp_log =
  wire :: octets
  delivered :: "octets list"

definition log_env :: "sfp_log sfp_env" where
  "log_env = \<lparr>call_write = (\<lambda>w octs d (u, c). Some (u\<lparr>wire := wire u @ octs\<rparr>, c)),
              call_deliver = (\<lambda>w octs d (u, c). Some (u\<lparr>delivered := delivered u @ [octs]\<rparr>, c))\<rparr>"

abbreviation log_send :: "octets \<Rightarrow> sfp_log \<Rightarrow> sfp_log" where
  "log_send octs u \<equiv> u\<lparr>wire := wire u @ octs\<rparr>"

abbreviation log_recv :: "octets \<Rightarrow> sfp_log \<Rightarrow> sfp_log" where
  "log_recv octs u \<equiv> u\<lparr>delivered := delivered u @ [octs]\<rparr>"

interpretation logged: sfp_world log_env log_send log_recv
  by unfold_locales (simp_all add: log_env_def)

section \<open>Memory safety\<close>

definition rx_inv :: "SFPreceiver \<Rightarrow> bool" where
  "rx_inv r \<longleftrightarrow> length (buf (packet r)) = 256 \<and> len (packet r) \<le> 256 \<and> unat (rx_seq r) < 64"

definition sfp_inv :: "SFPcontext \<Rightarrow> bool" where
  "sfp_inv c \<longleftrightarrow> tx_inv c \<and> rx_inv (rx c)"

lemma sfp_invD:
  assumes "sfp_inv c"
  shows "idle c" "hist_ok (history (tx c))" "unat (tx_seq (tx c)) < 64" "rx_inv (rx c)" "unat (rx_seq (rx c)) < 64"
  using assms by (simp_all add: sfp_inv_def tx_inv_def rx_inv_def)

lemma sfp_inv_link: "idle c' \<Longrightarrow> link c' = link c \<Longrightarrow> sfp_inv c \<Longrightarrow> sfp_inv c'"
  using idle_link [of c' c] link_eqD(1) [of c' c] sfp_invD [of c] by (simp add: sfp_inv_def)

lemma sfp_inv_tx_seq: "sfp_inv c \<Longrightarrow> unat q < 64 \<Longrightarrow> sfp_inv (upd_tx (\<lambda>t. t\<lparr>tx_seq := q\<rparr>) c)"
  by (simp add: sfp_inv_def tx_inv_def idle_def tx_ok_def)

lemma sfp_inv_reset [simp]: "sfp_inv c \<Longrightarrow> sfp_inv (sfpResetReceiver c)"
  by (simp add: sfp_inv_def sfpResetReceiver_def rx_inv_def tx_inv_def idle_def tx_ok_def)

lemma sfp_inv_state [simp]: "sfp_inv (c\<lparr>connectState := k\<rparr>) = sfp_inv c"
  by (simp add: sfp_inv_def tx_inv_def idle_def tx_ok_def)

lemma sfp_inv_rx: "rx_inv r \<Longrightarrow> sfp_inv c \<Longrightarrow> sfp_inv (c\<lparr>rx := r\<rparr>)"
  by (simp add: sfp_inv_def tx_inv_def idle_def tx_ok_def)

lemma sfp_inv_tx_upd:
  "sfp_inv c \<Longrightarrow> hist_ok h \<Longrightarrow> unat q < 64 \<Longrightarrow> sfp_inv (upd_tx (\<lambda>t. t\<lparr>history := h, tx_seq := q\<rparr>) c)"
  by (simp add: sfp_inv_def tx_inv_def idle_def tx_ok_def)

lemma sfp_inv_history: "sfp_inv c \<Longrightarrow> hist_ok h \<Longrightarrow> sfp_inv (upd_tx (\<lambda>t. t\<lparr>history := h\<rparr>) c)"
  by (simp add: sfp_inv_def tx_inv_def idle_def tx_ok_def)

definition safe :: "'u sfp_state option \<Rightarrow> bool" where
  "safe m \<longleftrightarrow> (\<exists>s. m = Some s \<and> sfp_inv (snd s))"

definition safe_ret :: "('r \<times> 'u sfp_state) option \<Rightarrow> bool" where
  "safe_ret m \<longleftrightarrow> (\<exists>r s. m = Some (r, s) \<and> sfp_inv (snd s))"

lemma safe_ret_Some [simp]: "safe_ret (Some (r, s)) \<longleftrightarrow> sfp_inv (snd s)"
  by (simp add: safe_ret_def)

lemma safe_ret_bind [simp]: "safe m \<Longrightarrow> safe_ret (m \<bind> (\<lambda>s. Some (k, s)))"
  by (auto simp: safe_ret_def safe_def)

lemma safe_Some [simp]: "safe (Some s) \<longleftrightarrow> sfp_inv (snd s)"
  by (simp add: safe_def)

context sfp_medium
begin

lemma safe_control:
  assumes "sfp_inv c"
  shows "safe (sfpTransmitNAK env q (u, c))" "safe (sfpTransmitDIS env (u, c))"
    "safe (sfpTransmitSYN0 env (u, c))" "safe (sfpTransmitSYN1 env (u, c))"
    "safe (sfpTransmitSYN2 env (u, c))"
  using transmit_NAK [of c q u] transmit_SYN [of c u] sfp_invD(1) [OF assms] sfp_inv_link [of _ c] assms
  by (auto simp: safe_def)

lemma safe_fromseq:
  assumes "sfp_inv c" "unat q < 64"
  shows "safe (sfpTransmitHistoryFromSeq env q (u, c))"
proof -
  let ?c = "upd_tx (\<lambda>t. t\<lparr>history := skip q c, tx_seq := q\<rparr>) c"
  have inv: "sfp_inv ?c"
    using assms skip_hist sfp_invD(2) by (blast intro: sfp_inv_tx_upd)
  then obtain c' where c': "sfpTransmitHistory env (u, ?c) = Some (send (rtx_frames (tx_seq (tx ?c)) (hist ?c)) u, c')"
    "idle c'" "link c' = link (upd_tx (\<lambda>t. t\<lparr>tx_seq := (nextSeq ^^ length (hist ?c)) (tx_seq t)\<rparr>) ?c)"
    using transmit_history [of ?c u] sfp_invD by blast
  have "unat ((nextSeq ^^ length (hist ?c)) q) < 64"
    using unat_nextSeqs [OF assms(2)] by simp
  then have "sfp_inv (upd_tx (\<lambda>t. t\<lparr>tx_seq := (nextSeq ^^ length (hist ?c)) (tx_seq t)\<rparr>) ?c)"
    using sfp_inv_tx_seq [OF inv] by simp
  with c'(2,3) have "sfp_inv c'" by (rule sfp_inv_link)
  then show ?thesis
    using fromseq_eq [of c env q u] sfp_invD(2,3) [OF assms(1)] c'(1) by simp
qed

lemma safe_syn0:
  assumes "sfp_inv c"
  shows "safe (sfpHandleSYN0 env (u, c))" "safe (sfpConnect env (u, c))"
proof -
  let ?c = "upd_tx (\<lambda>t. t\<lparr>tx_seq := SFP_INITIAL_SEQ\<rparr>)
     (upd_rx (\<lambda>r. r\<lparr>rx_seq := SFP_INITIAL_SEQ\<rparr>) (sfpResetReceiver c))"
  have inv: "sfp_inv ?c"
    by (intro sfp_inv_tx_seq sfp_inv_rx) (use sfp_inv_reset [OF assms] in
      \<open>auto simp: SFP_INITIAL_SEQ_def rx_inv_def sfp_inv_def\<close>)
  then obtain h where h: "sfpClearHistory ?c = Some (upd_tx (\<lambda>t. t\<lparr>history := h\<rparr>) ?c)" "hist_ok h"
    using clear_history sfp_invD(2) by blast
  let ?c' = "upd_tx (\<lambda>t. t\<lparr>history := h\<rparr>) ?c"
  have "sfp_inv ?c'"
    using inv h(2) by (rule sfp_inv_history)
  from safe_control(3,4) [OF this, of u]
  show "safe (sfpHandleSYN0 env (u, c))" "safe (sfpConnect env (u, c))"
    using h(1) by (auto simp: sfpHandleSYN0_def sfpConnect_def Let_def safe_def)
qed

lemma safe_syn12:
  assumes "sfp_inv c"
  shows "safe (sfpHandleSYN1 env (u, c))" "safe (sfpHandleSYN2 env (u, c))"
proof -
  have q: "unat SFP_INITIAL_SEQ < 64" by (simp add: SFP_INITIAL_SEQ_def)
  show "safe (sfpHandleSYN1 env (u, c))"
  proof (cases "connectState c = SFP_CONNECT_STATE_DISCONNECTED")
    case False
    obtain u' c' where c': "sfpTransmitSYN2 env (u, c) = Some (u', c')" "sfp_inv c'"
      using safe_control(5) [OF assms, of u] by (auto simp: safe_def)
    then show ?thesis using False safe_fromseq [OF c'(2) q, of u']
      by (auto simp: sfpHandleSYN1_def safe_def)
  qed (simp add: sfpHandleSYN1_def safe_control(2) [OF assms])
  show "safe (sfpHandleSYN2 env (u, c))"
    using safe_control(2,3) [OF assms, of u] safe_fromseq [OF assms q, of u] assms
    by (auto simp: sfpHandleSYN2_def safe_def)
qed

lemma safe_syn: "sfp_inv c \<Longrightarrow> safe (sfpHandleSYN env (u, c))"
  by (simp add: sfpHandleSYN_def Let_def safe_syn0 safe_syn12)

lemma safe_nak: "sfp_inv c \<Longrightarrow> safe (sfpHandleNAK env (u, c))"
  using safe_fromseq [OF _ getFrameSeq_range]
  by (auto simp: sfpHandleNAK_def Let_def safe_control split: SFPconnectstate.split)

end

context sfp_world
begin

lemma safe_usr:
  assumes "sfp_inv c"
  shows "safe_ret (sfpHandleUSR env (u, c))"
proof -
  have "len (packet (rx c)) \<le> length (buf (packet (rx c)))"
    using sfp_invD(4) [OF assms] by (simp add: rx_inv_def)
  then have d: "load (buf (packet (rx c))) (len (packet (rx c))) = Some (payload (packet (rx c)))"
    by (simp add: load_def payload_def)
  have "sfp_inv (upd_rx (\<lambda>r. r\<lparr>rx_seq := nextSeq (rx_seq r)\<rparr>) c)"
    using assms sfp_invD(4) [OF assms] by (intro sfp_inv_rx) (simp_all add: rx_inv_def nextSeq_range)
  then show ?thesis
    by (simp add: sfpHandleUSR_def Let_def d deliver_recv assms safe_control
      split: SFPconnectstate.split option.split)
qed

lemma safe_frame:
  assumes "sfp_inv c"
  shows "safe_ret (sfpHandleFrame env (u, c))"
proof -
  let ?c = "upd_rx (\<lambda>r. r\<lparr>packet := (packet r)\<lparr>len := len (packet r) - SFP_CRC_SIZE\<rparr>\<rparr>) c"
  have inv: "sfp_inv ?c"
    using assms sfp_invD(4) [OF assms] by (intro sfp_inv_rx) (auto simp: rx_inv_def)
  show ?thesis
    using assms inv
    by (simp add: sfpHandleFrame_def Let_def safe_usr safe_nak safe_syn safe_control
      split: SFPframetype.split)
qed

lemma safe_octet:
  assumes "sfp_inv c" "\<forall>b. out = Some b \<longrightarrow> n \<le> length b"
  shows "\<exists>r out' m s. sfpDeliverOctet env b out n (u, c) = Some (r, out', m, s) \<and> sfp_inv (snd s)"
proof -
  have copy: "sfp_inv c' \<Longrightarrow> n \<le> length o' \<Longrightarrow> \<exists>x. sfpCopyOutPacket c' o' n = Some x" for c' o'
    using sfp_invD(4) [of c'] by (auto simp: sfpCopyOutPacket_def load_def memcpy_def Let_def rx_inv_def)
  have r: "rx_inv (rx c)" using sfp_invD(4) [OF assms(1)] .
  consider "b = SFP_FLAG" "frameState (rx c) = SFP_FRAME_STATE_RECEIVING"
    | "b = SFP_FLAG" "frameState (rx c) = SFP_FRAME_STATE_NEW" | "b \<noteq> SFP_FLAG" "b = SFP_ESC"
    | "\<not> isReservedOctet b"
    by (cases "frameState (rx c)") (auto simp: isReservedOctet_def)
  then show ?thesis
  proof cases
    case 1
    obtain r s where s: "sfpHandleFrame env (u, c) = Some (r, s)" "sfp_inv (snd s)"
      using safe_frame [OF assms(1), of u] by (auto simp: safe_ret_def)
    show ?thesis
    proof (cases out)
      case None
      then show ?thesis using 1 s by (simp add: sfpDeliverOctet_def split_def)
    next
      case (Some o')
      then show ?thesis using 1 s copy [OF s(2), of o'] assms(2)
        by (auto simp: sfpDeliverOctet_def split_def)
    qed
  next
    case 2
    then show ?thesis using assms(1) by (simp add: sfpDeliverOctet_def)
  next
    case 3
    then show ?thesis using assms(1) r by (simp add: sfpDeliverOctet_def sfp_inv_rx rx_inv_def)
  next
    case 4
    have "\<exists>c'. rx_octet b' c = Some c' \<and> sfp_inv c'" for b'
      using assms(1) r
      by (auto simp: rx_octet_def Let_def sfpBufferOctet_def memcpy_def rx_inv_def
        SFP_CONFIG_MAX_PACKET_SIZE_def intro!: sfp_inv_rx sfp_inv_reset)
    then obtain c' where "rx_octet (if escapeState (rx c) = SFP_ESCAPE_STATE_ESCAPING
        then b XOR SFP_ESC_FLIP_BIT else b) c = Some c'" "sfp_inv c'" by blast
    then show ?thesis using 4 by (simp add: deliver_data Let_def)
  qed
qed

lemma safe_octets:
  "sfp_inv c \<Longrightarrow> safe (sfpDeliverOctets env bs (u, c))"
proof (induction bs arbitrary: u c)
  case (Cons b bs)
  obtain r m o' u' c' where "sfpDeliverOctet env b None 0 (u, c) = Some (r, o', m, u', c')" "sfp_inv c'"
    using safe_octet [OF Cons.prems, of None 0 b u] by auto
  with Cons.IH show ?case by simp
qed simp

end

section \<open>Delivery\<close>

text \<open>A connected receiver between two frames that expects the sequence number \<open>q\<close>.\<close>

definition rx_ready :: "SFPseq \<Rightarrow> SFPcontext \<Rightarrow> bool" where
  "rx_ready q c \<longleftrightarrow> rx_fresh (rx c) \<and> rx_seq (rx c) = q \<and> unat q < 64 \<and>
     connectState c = SFP_CONNECT_STATE_CONNECTED \<and> deliver (rx c) \<noteq> None"

lemma rx_frame_packet:
  assumes "rx_fresh (rx c)" "length p \<le> 254"
  shows "load (buf (packet (rx (rx_frame hdr p c)))) (length p) = Some p"
  using assms by (simp add: rx_frame_def rx_load_def load_def rx_fresh_def)

lemma rx_fresh_reset:
  "length (buf (packet (rx c))) = 256 \<Longrightarrow> rx_fresh (rx (sfpResetReceiver c))"
  by (simp add: rx_fresh_def sfpResetReceiver_def)

lemma length_rx_frame_buf:
  "rx_fresh (rx c) \<Longrightarrow> length p \<le> 254 \<Longrightarrow> length (buf (packet (rx (rx_frame hdr p c)))) = 256"
  by (simp add: rx_frame_def rx_load_def rx_fresh_def)

lemma rx_frame_keeps [simp]:
  "rx_seq (rx (rx_frame hdr p c)) = rx_seq (rx c)" "deliver (rx (rx_frame hdr p c)) = deliver (rx c)"
  "deliverData (rx (rx_frame hdr p c)) = deliverData (rx c)"
  by (simp_all add: rx_frame_def rx_load_def)

context sfp_world
begin

lemma receive_data:
  assumes "rx_ready q c" "length p \<le> 254" "t = SFP_FRAME_USR \<or> t = SFP_FRAME_RTX"
  shows "\<exists>c'. sfpDeliverOctets env (frame (mkHeader q t) p) (u, c) = Some (recv p u, c') \<and>
     rx_ready (nextSeq q) c' \<and> tx c' = tx c"
proof -
  let ?c = "rx_frame (mkHeader q t) p c"
  let ?c1 = "upd_rx (\<lambda>r. r\<lparr>packet := (packet r)\<lparr>len := length p\<rparr>\<rparr>) ?c"
  let ?c2 = "upd_rx (\<lambda>r. r\<lparr>rx_seq := nextSeq (rx_seq r)\<rparr>) ?c1"
  have q: "rx_fresh (rx c)" "rx_seq (rx c) = q" "unat q < 64" "connectState c = SFP_CONNECT_STATE_CONNECTED"
    "deliver (rx c) \<noteq> None" using assms(1) by (simp_all add: rx_ready_def)
  have hdl: "sfpHandleFrame env (u, ?c) = Some (1, recv p u, ?c2)"
    using assms(3) q getFrameSeq_mkHeader [OF q(3)] getFrameType_mkHeader [OF q(3)]
      rx_frame_packet [OF q(1) assms(2), of "mkHeader q t"]
    by (auto simp: sfpHandleFrame_def SFP_CRC_SIZE_def sfpHandleUSR_def Let_def deliver_recv)
  have "rx_ready (nextSeq q) (sfpResetReceiver ?c2)"
    using length_rx_frame_buf [OF q(1) assms(2), of "mkHeader q t"] q
    by (simp add: rx_ready_def nextSeq_range rx_fresh_reset) (simp add: sfpResetReceiver_def)
  moreover have "tx (sfpResetReceiver ?c2) = tx c" by (simp add: sfpResetReceiver_def)
  ultimately show ?thesis
    using receive_frame [OF q(1) assms(2), of env "mkHeader q t" u] hdl by simp
qed

lemma receive_stream:
  assumes "rx_ready q c" "\<forall>p\<in>set ps. length p \<le> 254" "t = SFP_FRAME_USR \<or> t = SFP_FRAME_RTX"
  shows "\<exists>c'. sfpDeliverOctets env (data_frames t q ps) (u, c) = Some (fold recv ps u, c') \<and>
     rx_ready ((nextSeq ^^ length ps) q) c' \<and> tx c' = tx c"
  using assms
proof (induction ps arbitrary: q u c)
  case (Cons p ps)
  obtain c1 where c1: "sfpDeliverOctets env (frame (mkHeader q t) p) (u, c) = Some (recv p u, c1)"
    "rx_ready (nextSeq q) c1" "tx c1 = tx c"
    using receive_data [OF Cons.prems(1) _ Cons.prems(3), of p u] Cons.prems(2) by auto
  obtain c2 where c2: "sfpDeliverOctets env (data_frames t (nextSeq q) ps) (recv p u, c1) = Some (fold recv ps (recv p u), c2)"
    "rx_ready ((nextSeq ^^ length ps) (nextSeq q)) c2" "tx c2 = tx c1"
    using Cons.IH [OF c1(2) _ Cons.prems(3), of "recv p u"] Cons.prems(2) by auto
  then show ?case using c1 by (simp add: sfpDeliverOctets_append funpow_swap1)
qed simp

text \<open>A user frame out of order is answered with the number expected, and changes nothing else.\<close>

lemma receive_gap:
  assumes "rx_ready q c" "idle c" "length p \<le> 254" "unat q' < 64" "q' \<noteq> q"
  shows "\<exists>c'. sfpDeliverOctets env (frame (mkHeader q' SFP_FRAME_USR) p) (u, c)
        = Some (send (frame (mkHeader q SFP_FRAME_NAK) []) u, c') \<and>
     rx_ready q c' \<and> idle c' \<and> tx (link c') = tx (link c)"
proof -
  let ?h = "mkHeader q' SFP_FRAME_USR"
  let ?c = "upd_rx (\<lambda>r. r\<lparr>packet := (packet r)\<lparr>len := length p\<rparr>\<rparr>) (rx_frame ?h p c)"
  have q: "rx_fresh (rx c)" "rx_seq (rx c) = q" "unat q < 64" "connectState c = SFP_CONNECT_STATE_CONNECTED"
    "deliver (rx c) \<noteq> None" using assms(1) by (simp_all add: rx_ready_def)
  have "idle ?c" using assms(2) by (simp add: idle_def tx_ok_def)
  then obtain c' where c': "sfpTransmitNAK env q (u, ?c) = Some (send (frame (mkHeader q SFP_FRAME_NAK) []) u, c')"
    "idle c'" "link c' = link ?c"
    using transmit_NAK by blast
  have hdl: "sfpHandleFrame env (u, rx_frame ?h p c) = Some (0, send (frame (mkHeader q SFP_FRAME_NAK) []) u, c')"
    using assms(5) q getFrameSeq_mkHeader [OF assms(4)] getFrameType_mkHeader [OF assms(4)] c'(1)
    by (simp add: sfpHandleFrame_def SFP_CRC_SIZE_def sfpHandleUSR_def Let_def)
  have "rx_ready q (sfpResetReceiver c')"
    using length_rx_frame_buf [OF q(1) assms(3), of ?h] q link_eqD(1,2) [OF c'(3)]
    by (simp add: rx_ready_def rx_fresh_reset) (simp add: sfpResetReceiver_def)
  moreover have "tx (link c') = tx (link ?c)" using c'(3) by simp
  then have "tx (link (sfpResetReceiver c')) = tx (link c)"
    by (simp add: sfpResetReceiver_def link_def)
  moreover have "idle (sfpResetReceiver c')" using c'(2) by (simp add: idle_def tx_ok_def sfpResetReceiver_def)
  ultimately show ?thesis
    using receive_frame [OF q(1) assms(3), of env ?h u] hdl by simp
qed

end

section \<open>Sending\<close>

text \<open>A client that writes one packet after the other.\<close>

fun write_packets :: "'u sfp_env \<Rightarrow> octets list \<Rightarrow> 'u sfp_state \<Rightarrow> 'u sfp_state option" where
  "write_packets env [] s = Some s"
| "write_packets env (p # ps) s = do {
     (r, n, s) \<leftarrow> sfpWritePacket env p (length p) s;
     write_packets env ps s
   }"

definition mk_packet :: "octets \<Rightarrow> SFPpacket" where
  "mk_packet p = \<lparr>buf = p @ replicate (256 - length p) 0, len = length p\<rparr>"

lemma mk_packet: "length p \<le> 256 \<Longrightarrow> pkt_ok (mk_packet p) \<and> payload (mk_packet p) = p"
  by (simp add: mk_packet_def pkt_ok_def payload_def)

lemma hist_push:
  assumes "hist_ok (history (tx c))"
  shows "hist (upd_tx (\<lambda>t. t\<lparr>history := potRingbufferPushBack (history t) p, tx_seq := q\<rparr>) c)
    = keep_last 8 (hist c @ [payload p])"
  using assms by (simp add: hist_def history.push hist_ok_def keep_last_def drop_map)

lemma hist_link: "link c' = link c \<Longrightarrow> hist c' = hist c"
  using link_eqD(4) [of c' c] by (simp add: hist_def)

context sfp_medium
begin

lemma write_packet:
  assumes "tx_inv c" "length p \<le> 256"
  defines "f \<equiv> frame (mkHeader (tx_seq (tx c)) SFP_FRAME_USR) p"
  shows "\<exists>c'. sfpWritePacket env p (length p) (u, c) = Some (0, length f, send f u, c') \<and>
     tx_inv c' \<and> tx_seq (tx c') = nextSeq (tx_seq (tx c)) \<and> hist c' = keep_last 8 (hist c @ [p]) \<and>
     rx c' = rx c \<and> connectState c' = connectState c"
proof -
  let ?c = "upd_tx (\<lambda>t. t\<lparr>history := potRingbufferPushBack (history t) (mk_packet p),
    tx_seq := nextSeq (tx_seq t)\<rparr>) c"
  have inv: "idle c" "hist_ok (history (tx c))" using assms(1) by (simp_all add: tx_inv_def)
  obtain c' where c': "sfpTransmitUSR env (mk_packet p) (u, c) = Some (0, length f, send f u, c')"
    "idle c'" "link c' = link ?c"
    using transmit_USR [OF inv(1), of "mk_packet p" u] mk_packet [OF assms(2)] unfolding f_def by auto
  have "hist_ok (history (tx ?c))"
    using hist_ok_push [OF inv(2)] mk_packet [OF assms(2)] by simp
  then have "tx_inv c'" using c'(2,3) by (rule_tac idle_link [of c' ?c]) (simp_all add: nextSeq_range)
  moreover have "hist c' = keep_last 8 (hist c @ [p])"
    using hist_link [OF c'(3)] hist_push [OF inv(2)] mk_packet [OF assms(2)] by simp
  moreover have "sfpWritePacket env p (length p) (u, c) = sfpTransmitUSR env (mk_packet p) (u, c)"
    using assms(2) by (simp add: sfpWritePacket_def memcpy_def SFP_CONFIG_MAX_PACKET_SIZE_def mk_packet_def)
  ultimately show ?thesis using c' link_eqD [OF c'(3)] by simp
qed

lemma write_stream:
  assumes "tx_inv c" "\<forall>p\<in>set ps. length p \<le> 256"
  shows "\<exists>c'. write_packets env ps (u, c) = Some (send (data_frames SFP_FRAME_USR (tx_seq (tx c)) ps) u, c') \<and>
     tx_inv c' \<and> tx_seq (tx c') = (nextSeq ^^ length ps) (tx_seq (tx c)) \<and>
     hist c' = keep_last 8 (hist c @ ps) \<and> rx c' = rx c \<and> connectState c' = connectState c"
  using assms
proof (induction ps arbitrary: u c)
  case Nil
  then have "length (hist c) \<le> 8" using history.bounded by (simp add: hist_def tx_inv_def hist_ok_def)
  with Nil show ?case by (simp add: send_Nil keep_last_all)
next
  case (Cons p ps)
  let ?f = "frame (mkHeader (tx_seq (tx c)) SFP_FRAME_USR) p"
  obtain c1 where c1: "sfpWritePacket env p (length p) (u, c) = Some (0, length ?f, send ?f u, c1)"
    "tx_inv c1" "tx_seq (tx c1) = nextSeq (tx_seq (tx c))" "hist c1 = keep_last 8 (hist c @ [p])"
    "rx c1 = rx c" "connectState c1 = connectState c"
    using write_packet [OF Cons.prems(1), of p u] Cons.prems(2) by auto
  with Cons.IH [OF c1(2), of "send ?f u"] Cons.prems(2) show ?case
    using keep_last_append [of 8 "hist c @ [p]" ps] by (auto simp: send_append funpow_swap1)
qed

text \<open>A negative acknowledgement makes a connected transmitter send its history again from there.\<close>

lemma receive_NAK:
  assumes "tx_inv c" "rx_fresh (rx c)" "connectState c = SFP_CONNECT_STATE_CONNECTED"
    "unat q < 64" "q \<noteq> tx_seq (tx c)" "skip_count q c < length (hist c)"
  shows "\<exists>c'. sfpDeliverOctets env (frame (mkHeader q SFP_FRAME_NAK) []) (u, c)
       = Some (send (rtx_frames q (drop (skip_count q c) (hist c))) u, c') \<and>
     tx_inv c' \<and> tx_seq (tx c') = (nextSeq ^^ (length (hist c) - skip_count q c)) q \<and>
     rx_fresh (rx c') \<and> rx_seq (rx c') = rx_seq (rx c) \<and> connectState c' = connectState c"
proof -
  let ?h = "mkHeader q SFP_FRAME_NAK"
  let ?c = "upd_rx (\<lambda>r. r\<lparr>packet := (packet r)\<lparr>len := 0\<rparr>\<rparr>) (rx_frame ?h [] c)"
  let ?c1 = "upd_tx (\<lambda>t. t\<lparr>history := skip q ?c, tx_seq := q\<rparr>) ?c"
  have same: "hist ?c = hist c" "skip_count q ?c = skip_count q c" "skip q ?c = skip q c"
    by (simp_all add: hist_def skip_count_def skip_def)
  have inv: "idle ?c1" "hist_ok (history (tx c))" "unat (tx_seq (tx c)) < 64"
    using assms(1) by (simp_all add: tx_inv_def idle_def tx_ok_def)
  have sk: "hist_ok (skip q c)" "hist ?c1 = drop (skip_count q c) (hist c)"
    using skip_hist [OF inv(2), of q] assms(6) unfolding same(3) by (simp_all add: hist_def)
  obtain c' where c': "sfpTransmitHistory env (u, ?c1) = Some (send (rtx_frames q (hist ?c1)) u, c')" "idle c'"
    "link c' = link (upd_tx (\<lambda>t. t\<lparr>tx_seq := (nextSeq ^^ length (hist ?c1)) (tx_seq t)\<rparr>) ?c1)"
    using transmit_history [OF inv(1), of u] sk(1) same(3) by auto
  have hdl: "sfpHandleFrame env (u, rx_frame ?h [] c)
      = Some (0, send (rtx_frames q (drop (skip_count q c) (hist c))) u, c')"
    using assms(3,5) getFrameSeq_mkHeader [OF assms(4)] getFrameType_mkHeader [OF assms(4)] c'(1)
      fromseq_eq [of ?c env q u] inv(2,3) sk(2)
    by (simp add: sfpHandleFrame_def SFP_CRC_SIZE_def sfpHandleNAK_def Let_def)
  have "tx_inv c'"
    using c'(2,3) sk(1) unat_nextSeqs [OF assms(4)] same(3)
    by (rule_tac idle_link [OF c'(2,3)]) simp_all
  then have "tx_inv (sfpResetReceiver c')"
    by (simp add: sfpResetReceiver_def tx_inv_def idle_def tx_ok_def)
  moreover have "rx_fresh (rx (sfpResetReceiver c'))"
    using link_eqD(1) [OF c'(3)] length_rx_frame_buf [OF assms(2), of "[]" ?h] by (simp add: rx_fresh_reset)
  moreover have "tx_seq (tx (sfpResetReceiver c')) = (nextSeq ^^ (length (hist c) - skip_count q c)) q"
    using link_eqD(3) [OF c'(3)] sk(2) by (simp add: sfpResetReceiver_def)
  moreover have "rx_seq (rx (sfpResetReceiver c')) = rx_seq (rx c)" "connectState (sfpResetReceiver c') = connectState c"
    using link_eqD(1,2) [OF c'(3)] by (simp_all add: sfpResetReceiver_def)
  ultimately show ?thesis
    using receive_frame [OF assms(2), of "[]" env ?h u] hdl by simp
qed

end

section \<open>The handshake\<close>

text \<open>Both sequence numbers at their start, nothing to retransmit, the receiver between two frames.\<close>

definition fresh_link :: "SFPcontext \<Rightarrow> bool" where
  "fresh_link c \<longleftrightarrow> sfp_inv c \<and> rx_fresh (rx c) \<and> tx_seq (tx c) = SFP_INITIAL_SEQ \<and>
     rx_seq (rx c) = SFP_INITIAL_SEQ \<and> hist c = []"

lemma fresh_link_state [simp]: "fresh_link (c\<lparr>connectState := k\<rparr>) = fresh_link c"
  by (simp add: fresh_link_def hist_def)

lemma fresh_link_link:
  "idle c' \<Longrightarrow> link c' = link c \<Longrightarrow> fresh_link c \<Longrightarrow> fresh_link c'"
  using sfp_inv_link [of c' c] link_eqD [of c' c] hist_link [of c' c] by (simp add: fresh_link_def)

lemma fresh_link_reset: "fresh_link c \<Longrightarrow> fresh_link (sfpResetReceiver c)"
  by (simp add: fresh_link_def hist_def) (simp add: sfpResetReceiver_def rx_fresh_def)

lemma sfpResetReceiver_keeps [simp]:
  "connectState (sfpResetReceiver c) = connectState c" "tx (sfpResetReceiver c) = tx c"
  "rx_seq (rx (sfpResetReceiver c)) = rx_seq (rx c)" "deliver (rx (sfpResetReceiver c)) = deliver (rx c)"
  by (simp_all add: sfpResetReceiver_def)

lemma restart:
  assumes "sfp_inv c"
  shows "\<exists>c'. sfpClearHistory (upd_tx (\<lambda>t. t\<lparr>tx_seq := SFP_INITIAL_SEQ\<rparr>)
       (upd_rx (\<lambda>r. r\<lparr>rx_seq := SFP_INITIAL_SEQ\<rparr>) (sfpResetReceiver c))) = Some c' \<and>
     fresh_link c' \<and> connectState c' = connectState c \<and> deliver (rx c') = deliver (rx c)"
proof -
  let ?d = "upd_rx (\<lambda>r. r\<lparr>rx_seq := SFP_INITIAL_SEQ\<rparr>) (sfpResetReceiver c)"
  let ?c = "upd_tx (\<lambda>t. t\<lparr>tx_seq := SFP_INITIAL_SEQ\<rparr>) ?d"
  have r: "rx_inv (rx ?d)" using sfp_invD(4) [OF assms]
    by (simp add: rx_inv_def SFP_INITIAL_SEQ_def) (simp add: sfpResetReceiver_def)
  have "sfp_inv ?d" using sfp_inv_rx [OF r sfp_inv_reset [OF assms]] by simp
  then have inv: "sfp_inv ?c"
    using sfp_inv_tx_seq [of ?d SFP_INITIAL_SEQ] by (simp add: SFP_INITIAL_SEQ_def)
  then obtain h where h: "sfpClearHistory ?c = Some (upd_tx (\<lambda>t. t\<lparr>history := h\<rparr>) ?c)" "hist_ok h"
    "pot_contents h = []" using clear_history sfp_invD(2) by blast
  have "rx_fresh (rx ?c)" using sfp_invD(4) [OF assms]
    by (simp add: rx_fresh_def rx_inv_def sfpResetReceiver_def)
  then have "fresh_link (upd_tx (\<lambda>t. t\<lparr>history := h\<rparr>) ?c)"
    using sfp_inv_history [OF inv h(2)] h(3) by (simp add: fresh_link_def hist_def)
  then show ?thesis using h(1) by simp
qed

lemma getFrameSeq_syn:
  "getFrameSeq (mkHeader SFP_SEQ_SYN0 t) = SFP_SEQ_SYN0" "getFrameSeq (mkHeader SFP_SEQ_SYN1 t) = SFP_SEQ_SYN1"
  "getFrameSeq (mkHeader SFP_SEQ_SYN2 t) = SFP_SEQ_SYN2" "getFrameSeq (mkHeader SFP_SEQ_SYN_DIS t) = SFP_SEQ_SYN_DIS"
  "getFrameType (mkHeader SFP_SEQ_SYN0 t) = t" "getFrameType (mkHeader SFP_SEQ_SYN1 t) = t"
  "getFrameType (mkHeader SFP_SEQ_SYN2 t) = t" "getFrameType (mkHeader SFP_SEQ_SYN_DIS t) = t"
  by (simp_all add: getFrameSeq_mkHeader getFrameType_mkHeader SFP_SEQ_SYN0_def SFP_SEQ_SYN1_def
    SFP_SEQ_SYN2_def SFP_SEQ_SYN_DIS_def)

lemma syn_distinct [simp]:
  "SFP_SEQ_SYN1 \<noteq> SFP_SEQ_SYN0" "SFP_SEQ_SYN2 \<noteq> SFP_SEQ_SYN0" "SFP_SEQ_SYN2 \<noteq> SFP_SEQ_SYN1"
  by (simp_all add: SFP_SEQ_SYN0_def SFP_SEQ_SYN1_def SFP_SEQ_SYN2_def)

abbreviation syn_frame :: "SFPseq \<Rightarrow> octets" where
  "syn_frame k \<equiv> frame (mkHeader k SFP_FRAME_SYN) []"

lemma link_reset: "link c' = link c \<Longrightarrow> link (sfpResetReceiver c') = link (sfpResetReceiver c)"
proof -
  have "link (sfpResetReceiver c) = sfpResetReceiver (link c)" for c
    by (cases c) (simp add: link_def sfpResetReceiver_def)
  then show "link c' = link c \<Longrightarrow> link (sfpResetReceiver c') = link (sfpResetReceiver c)" by simp
qed

text \<open>The context a control frame is handled in.\<close>

definition control_ctx :: "SFPheader \<Rightarrow> SFPcontext \<Rightarrow> SFPcontext" where
  "control_ctx hdr c = upd_rx (\<lambda>r. r\<lparr>packet := (packet r)\<lparr>len := 0\<rparr>\<rparr>) (rx_frame hdr [] c)"

lemma control_ctx_keeps [simp]:
  "connectState (control_ctx hdr c) = connectState c" "header (rx (control_ctx hdr c)) = hdr"
  "tx (control_ctx hdr c) = tx c" "deliver (rx (control_ctx hdr c)) = deliver (rx c)"
  by (simp_all add: control_ctx_def)

lemma control_ctx_inv:
  assumes "sfp_inv c" "rx_fresh (rx c)"
  shows "sfp_inv (control_ctx hdr c)"
proof -
  have "rx_inv (rx (control_ctx hdr c))"
    using length_rx_frame_buf [OF assms(2), of "[]" hdr] sfp_invD(5) [OF assms(1)]
    by (simp add: rx_inv_def control_ctx_def)
  then have "sfp_inv (c\<lparr>rx := rx (control_ctx hdr c)\<rparr>)" by (rule sfp_inv_rx [OF _ assms(1)])
  moreover have "c\<lparr>rx := rx (control_ctx hdr c)\<rparr> = control_ctx hdr c"
    by (simp add: control_ctx_def rx_frame_def)
  ultimately show ?thesis by simp
qed

lemma control_ctx_fresh:
  assumes "fresh_link c"
  shows "fresh_link (sfpResetReceiver (control_ctx hdr c))"
proof -
  have c: "sfp_inv c" "rx_fresh (rx c)" using assms by (simp_all add: fresh_link_def)
  have "rx_fresh (rx (sfpResetReceiver (control_ctx hdr c)))"
    using length_rx_frame_buf [OF c(2), of "[]" hdr] by (simp add: rx_fresh_reset control_ctx_def)
  then show ?thesis
    using sfp_inv_reset [OF control_ctx_inv [OF c, of hdr]] assms
    by (simp add: fresh_link_def hist_def) (simp add: control_ctx_def)
qed

lemma handle_syn_frame:
  assumes "rx_fresh (rx c)"
  shows "sfpDeliverOctets env (frame (mkHeader q SFP_FRAME_SYN) []) (u, c) =
     (case getFrameType (mkHeader q SFP_FRAME_SYN) of SFP_FRAME_SYN \<Rightarrow> do {
        s \<leftarrow> sfpHandleSYN env (u, control_ctx (mkHeader q SFP_FRAME_SYN) c);
        Some (fst s, sfpResetReceiver (snd s)) }
      | _ \<Rightarrow> sfpDeliverOctets env (frame (mkHeader q SFP_FRAME_SYN) []) (u, c))"
  using receive_frame [OF assms, of "[]" env "mkHeader q SFP_FRAME_SYN" u]
  by (simp add: sfpHandleFrame_def SFP_CRC_SIZE_def Let_def control_ctx_def bind_assoc
    split: SFPframetype.split)

context sfp_medium
begin

lemma connect:
  assumes "sfp_inv c"
  shows "\<exists>c'. sfpConnect env (u, c) = Some (send (syn_frame SFP_SEQ_SYN0) u, c') \<and>
    fresh_link c' \<and> connectState c' = SFP_CONNECT_STATE_SENT_SYN0 \<and> deliver (rx c') = deliver (rx c)"
proof -
  obtain c1 where c1: "sfpClearHistory (upd_tx (\<lambda>t. t\<lparr>tx_seq := SFP_INITIAL_SEQ\<rparr>)
       (upd_rx (\<lambda>r. r\<lparr>rx_seq := SFP_INITIAL_SEQ\<rparr>) (sfpResetReceiver c))) = Some c1"
    "fresh_link c1" "deliver (rx c1) = deliver (rx c)" using restart [OF assms] by blast
  then have "idle c1" by (simp add: fresh_link_def sfp_invD)
  then obtain c2 where c2: "sfpTransmitSYN0 env (u, c1) = Some (send (syn_frame SFP_SEQ_SYN0) u, c2)"
    "idle c2" "link c2 = link c1" using transmit_SYN(2) by blast
  have "sfpConnect env (u, c)
      = Some (send (syn_frame SFP_SEQ_SYN0) u, c2\<lparr>connectState := SFP_CONNECT_STATE_SENT_SYN0\<rparr>)"
    using c1(1) c2(1) by (simp add: sfpConnect_def Let_def)
  then show ?thesis
    using fresh_link_link [OF c2(2,3) c1(2)] c1(3) link_eqD(1) [OF c2(3)] by simp
qed

lemma receive_SYN0:
  assumes "sfp_inv c" "rx_fresh (rx c)"
  shows "\<exists>c'. sfpDeliverOctets env (syn_frame SFP_SEQ_SYN0) (u, c) = Some (send (syn_frame SFP_SEQ_SYN1) u, c') \<and>
    fresh_link c' \<and> connectState c' = SFP_CONNECT_STATE_SENT_SYN1 \<and> deliver (rx c') = deliver (rx c)"
proof -
  let ?c = "control_ctx (mkHeader SFP_SEQ_SYN0 SFP_FRAME_SYN) c"
  obtain c1 where c1: "sfpClearHistory (upd_tx (\<lambda>t. t\<lparr>tx_seq := SFP_INITIAL_SEQ\<rparr>)
       (upd_rx (\<lambda>r. r\<lparr>rx_seq := SFP_INITIAL_SEQ\<rparr>) (sfpResetReceiver ?c))) = Some c1"
    "fresh_link c1" "deliver (rx c1) = deliver (rx ?c)" using restart [OF control_ctx_inv [OF assms]] by blast
  then have "idle c1" by (simp add: fresh_link_def sfp_invD)
  then obtain c2 where c2: "sfpTransmitSYN1 env (u, c1) = Some (send (syn_frame SFP_SEQ_SYN1) u, c2)"
    "idle c2" "link c2 = link c1" using transmit_SYN(3) by blast
  have "sfpHandleSYN env (u, ?c)
      = Some (send (syn_frame SFP_SEQ_SYN1) u, c2\<lparr>connectState := SFP_CONNECT_STATE_SENT_SYN1\<rparr>)"
    using c1(1) c2(1) by (simp add: sfpHandleSYN_def getFrameSeq_syn sfpHandleSYN0_def Let_def)
  then show ?thesis
    using fresh_link_reset [of "c2\<lparr>connectState := SFP_CONNECT_STATE_SENT_SYN1\<rparr>"]
      fresh_link_link [OF c2(2,3) c1(2)] c1(3) link_eqD(1) [OF c2(3)]
    by (simp add: handle_syn_frame [OF assms(2)] getFrameSeq_syn)
qed

lemma receive_SYN1:
  assumes "fresh_link c" "connectState c \<noteq> SFP_CONNECT_STATE_DISCONNECTED"
  shows "\<exists>c'. sfpDeliverOctets env (syn_frame SFP_SEQ_SYN1) (u, c) = Some (send (syn_frame SFP_SEQ_SYN2) u, c') \<and>
    fresh_link c' \<and> connectState c' = SFP_CONNECT_STATE_CONNECTED \<and> deliver (rx c') = deliver (rx c)"
proof -
  let ?c = "control_ctx (mkHeader SFP_SEQ_SYN1 SFP_FRAME_SYN) c"
  have c: "sfp_inv c" "rx_fresh (rx c)" "tx_seq (tx c) = SFP_INITIAL_SEQ"
    using assms(1) by (simp_all add: fresh_link_def)
  have "idle ?c" using control_ctx_inv [OF c(1,2)] by (rule sfp_invD)
  then obtain c2 where c2: "sfpTransmitSYN2 env (u, ?c) = Some (send (syn_frame SFP_SEQ_SYN2) u, c2)"
    "idle c2" "link c2 = link ?c" using transmit_SYN(4) by blast
  have "sfpHandleSYN env (u, ?c)
      = Some (send (syn_frame SFP_SEQ_SYN2) u, c2\<lparr>connectState := SFP_CONNECT_STATE_CONNECTED\<rparr>)"
    using assms(2) c(3) c2(1) link_eqD(3) [OF c2(3)]
    by (simp add: sfpHandleSYN_def getFrameSeq_syn sfpHandleSYN1_def Let_def)
  moreover have "fresh_link (sfpResetReceiver c2)"
    by (rule fresh_link_link [OF _ _ control_ctx_fresh [OF assms(1)]])
      (use c2(2) link_reset [OF c2(3)] in \<open>auto simp: idle_def tx_ok_def\<close>)
  moreover have "sfpResetReceiver (c2\<lparr>connectState := k\<rparr>) = (sfpResetReceiver c2)\<lparr>connectState := k\<rparr>" for k
    by (simp add: sfpResetReceiver_def)
  ultimately show ?thesis
    using link_eqD(1) [OF c2(3)] by (simp add: handle_syn_frame [OF c(2)] getFrameSeq_syn)
qed

lemma receive_SYN2:
  assumes "fresh_link c" "connectState c = SFP_CONNECT_STATE_SENT_SYN1 \<or> connectState c = SFP_CONNECT_STATE_CONNECTED"
  shows "\<exists>c'. sfpDeliverOctets env (syn_frame SFP_SEQ_SYN2) (u, c) = Some (u, c') \<and>
    fresh_link c' \<and> connectState c' = SFP_CONNECT_STATE_CONNECTED \<and> deliver (rx c') = deliver (rx c)"
proof -
  let ?c = "control_ctx (mkHeader SFP_SEQ_SYN2 SFP_FRAME_SYN) c"
  have c: "rx_fresh (rx c)" "tx_seq (tx c) = SFP_INITIAL_SEQ"
    using assms(1) by (simp_all add: fresh_link_def)
  have "sfpHandleSYN env (u, ?c) = Some (u, ?c\<lparr>connectState := SFP_CONNECT_STATE_CONNECTED\<rparr>)"
    using assms(2) c(2)
    by (auto simp: sfpHandleSYN_def getFrameSeq_syn sfpHandleSYN2_def Let_def)
  moreover have "sfpResetReceiver (?c\<lparr>connectState := k\<rparr>) = (sfpResetReceiver ?c)\<lparr>connectState := k\<rparr>" for k
    by (simp add: sfpResetReceiver_def)
  ultimately show ?thesis
    using control_ctx_fresh [OF assms(1)] by (simp add: handle_syn_frame [OF c(1)] getFrameSeq_syn)
qed

end

end
