(* ===== verification/SFP_Properties.thy ===== *)
theory SFP_Properties
  imports SFP_Protocol
begin

text \<open>
  The properties of the serial framing protocol, stated over the world that logs the octets
  written and the packets delivered.
\<close>

section \<open>Contexts to apply the properties to\<close>

definition raw_ctx :: SFPcontext where
  "raw_ctx = \<lparr>tx = \<lparr>tx_seq = 9, tx_crc = 0, history = \<lparr>mBegin = 3, mEnd = 77, mData = replicate 8 \<lparr>buf = replicate 256 0, len = 0\<rparr>\<rparr>,
       writebuf = replicate 512 0, writebufn = 4000, tx_write = None, writeData = 0\<rparr>,
     rx = \<lparr>rx_seq = 200, rx_crc = 0, escapeState = SFP_ESCAPE_STATE_ESCAPING, frameState = SFP_FRAME_STATE_RECEIVING,
       header = 0, packet = \<lparr>buf = replicate 256 0, len = 999\<rparr>, deliver = None, deliverData = 0\<rparr>,
     connectState = SFP_CONNECT_STATE_SENT_SYN1\<rparr>"

text \<open>The memory of a context: arrays of the declared sizes, whatever they hold.\<close>

definition ctx_memory :: "SFPcontext \<Rightarrow> bool" where
  "ctx_memory c \<longleftrightarrow> length (writebuf (tx c)) = 512 \<and> length (mData (history (tx c))) = 8 \<and>
     length (buf (packet (rx c))) = 256"

definition start :: "SFPcontext \<Rightarrow> SFPcontext" where
  "start c = sfpSetWriteCallback (Some 1) 0 (sfpSetDeliverCallback (Some 2) 0 (sfpInit c))"

lemma init_history: "history (tx (sfpInit c)) = potRingbufferInit (history (tx c))"
  by (simp add: sfpInit_def sfpSetWriteCallback_def sfpSetDeliverCallback_def Let_def)

lemma init_fresh:
  fixes w v :: nat and d e :: userdata
  assumes "ctx_memory c"
  defines "c' \<equiv> sfpSetWriteCallback (Some w) d (sfpSetDeliverCallback (Some v) e (sfpInit c))"
  shows "fresh_link c' \<and> connectState c' = SFP_CONNECT_STATE_DISCONNECTED \<and> deliver (rx c') = Some v \<and> tx_write (tx c') = Some w"
proof -
  have h: "history (tx c') = potRingbufferInit (history (tx c))"
    by (simp add: c'_def init_history sfpSetWriteCallback_def sfpSetDeliverCallback_def)
  have "hist_ok (history (tx c'))" "hist c' = []"
    using assms(1) contents_init pot_inv_init unfolding hist_def h
    by (simp_all add: hist_ok_def ctx_memory_def)
  then show ?thesis using assms(1)
    by (simp add: fresh_link_def sfp_inv_def tx_inv_def idle_def tx_ok_def rx_inv_def rx_fresh_def)
      (simp add: c'_def sfpInit_def sfpResetReceiver_def sfpSetWriteCallback_def
        sfpSetDeliverCallback_def ctx_memory_def SFP_INITIAL_SEQ_def Let_def)
qed

lemma start_fresh:
  "ctx_memory c \<Longrightarrow> fresh_link (start c) \<and> connectState (start c) = SFP_CONNECT_STATE_DISCONNECTED \<and> deliver (rx (start c)) = Some 2"
  using init_fresh [of c 1 0 2 0] by (simp add: start_def)

abbreviation no_log :: sfp_log where
  "no_log \<equiv> \<lparr>wire = [], delivered = []\<rparr>"

definition up :: SFPcontext where
  "up = (start raw_ctx)\<lparr>connectState := SFP_CONNECT_STATE_CONNECTED\<rparr>"

lemma raw_memory: "ctx_memory raw_ctx"
  by (simp add: ctx_memory_def raw_ctx_def)

lemma up_fresh: "fresh_link up" "connectState up = SFP_CONNECT_STATE_CONNECTED" "deliver (rx up) = Some 2"
  using start_fresh [OF raw_memory] by (simp_all add: up_def)

lemma fresh_link_ready:
  "fresh_link c \<Longrightarrow> connectState c = SFP_CONNECT_STATE_CONNECTED \<Longrightarrow> deliver (rx c) \<noteq> None \<Longrightarrow>
     rx_ready SFP_INITIAL_SEQ c"
  by (simp add: fresh_link_def rx_ready_def SFP_INITIAL_SEQ_def)

lemma unat_initial [simp]: "unat SFP_INITIAL_SEQ = 0"
  by (simp add: SFP_INITIAL_SEQ_def)

lemma data_frames_snoc:
  "data_frames t q (ps @ [p]) = data_frames t q ps @ frame (mkHeader ((nextSeq ^^ length ps) q) t) p"
  by (induction ps arbitrary: q) (simp_all add: funpow_swap1)

lemma up_state: "sfp_inv up" "tx_inv up" "idle up" "rx_fresh (rx up)" "tx_seq (tx up) = SFP_INITIAL_SEQ"
  "rx_ready (tx_seq (tx up)) up" "hist up = []"
  using up_fresh fresh_link_ready [OF up_fresh(1,2)]
  by (simp_all add: fresh_link_def sfp_inv_def tx_inv_def)

section \<open>The CRC separates octets\<close>

definition crc_mix :: "u8 \<Rightarrow> u8 \<Rightarrow> u16" where
  "crc_mix x h = (let y = x XOR push_bit 4 x
     in (push_bit 8 (ucast y) OR ucast h) XOR ucast (drop_bit 4 y) XOR push_bit 3 (ucast y))"

lemma crc_update_mix: "crc_ccitt_update c a = crc_mix (a XOR ucast (c AND 0xff)) (ucast (drop_bit 8 c))"
  unfolding crc_ccitt_update_def crc_mix_def Let_def
  by (rule word16_eqI) (simp add: bit_simps)

lemma crc_mix_inj: "crc_mix x h = crc_mix y k \<Longrightarrow> x = y \<and> h = k"
  unfolding bit16_iff bit8_iff crc_mix_def Let_def
  by (simp add: bit_simps no_bit_8) argo

lemma xor_cancel: "a XOR z = b XOR z \<longleftrightarrow> a = (b :: u8)"
proof
  assume "a XOR z = b XOR z"
  then have "(a XOR z) XOR z = (b XOR z) XOR z" by simp
  then show "a = b" by (simp add: xor.assoc)
qed simp

lemma crc_update_inj_octet: "crc_ccitt_update c a = crc_ccitt_update c b \<Longrightarrow> a = b"
  using crc_mix_inj [of "a XOR ucast (c AND 0xff)" _ "b XOR ucast (c AND 0xff)"]
  unfolding crc_update_mix by (simp add: xor_cancel)

lemma crc_update_inj: "crc_ccitt_update c a = crc_ccitt_update d a \<Longrightarrow> c = d"
proof -
  assume "crc_ccitt_update c a = crc_ccitt_update d a"
  then have "a XOR ucast (c AND 0xff) = a XOR ucast (d AND 0xff)"
    and hi: "ucast (drop_bit 8 c) = (ucast (drop_bit 8 d) :: u8)"
    unfolding crc_update_mix by (blast dest: crc_mix_inj)+
  then have "ucast (c AND 0xff) = (ucast (d AND 0xff) :: u8)"
    by (simp only: xor.commute [of a] xor_cancel)
  with hi show "c = d" unfolding bit16_iff bit8_iff by (simp add: bit_simps)
qed

lemma crc_foldl_inj: "foldl crc_ccitt_update c xs = foldl crc_ccitt_update d xs \<Longrightarrow> c = d"
  by (induction xs arbitrary: c d) (auto dest: crc_update_inj)

lemma crc_of_update:
  assumes "i < length xs" "b \<noteq> xs ! i"
  shows "crc_of (xs[i := b]) \<noteq> crc_of xs"
proof
  let ?c = "foldl crc_ccitt_update SFP_CRC_PRESET (take i xs)"
  assume "crc_of (xs[i := b]) = crc_of xs"
  moreover have "xs[i := b] = take i xs @ b # drop (Suc i) xs"
    using assms(1) by (simp add: upd_conv_take_nth_drop)
  moreover have "xs = take i xs @ xs ! i # drop (Suc i) xs"
    using assms(1) by (simp add: id_take_nth_drop)
  ultimately have "foldl crc_ccitt_update (crc_ccitt_update ?c b) (drop (Suc i) xs)
      = foldl crc_ccitt_update (crc_ccitt_update ?c (xs ! i)) (drop (Suc i) xs)"
    by (metis crc_of_def foldl_Cons foldl_append)
  then have "b = xs ! i" by (blast dest: crc_foldl_inj crc_update_inj_octet)
  with assms(2) show False by simp
qed

lemma receive_bad_crc:
  assumes "rx_ready q c" "idle c" "2 \<le> length bs" "length bs \<le> 256" "crc_of (h # bs) \<noteq> SFP_CRC_GOOD"
  shows "\<exists>c'. sfpDeliverOctets log_env (SFP_FLAG # stuff (h # bs) @ [SFP_FLAG]) (u, c)
     = Some (log_send (frame (mkHeader q SFP_FRAME_NAK) []) u, c') \<and> rx_ready q c' \<and> idle c'"
proof -
  let ?r = "upd_rx (rx_load h bs) c"
  let ?c = "upd_rx (\<lambda>r. r\<lparr>packet := (packet r)\<lparr>len := length bs - 2\<rparr>\<rparr>) ?r"
  have fresh: "rx_fresh (rx c)" using assms(1) by (simp add: rx_ready_def)
  have r: "frameState (rx ?r) = SFP_FRAME_STATE_RECEIVING" "len (packet (rx ?r)) = length bs"
    "rx_crc (rx ?r) = crc_of (h # bs)" "rx_seq (rx ?r) = q"
    using assms(1) by (simp_all add: rx_load_def rx_ready_def)
  have "idle ?c" using assms(2) by (simp add: idle_def tx_ok_def)
  then obtain c' where c': "sfpTransmitNAK log_env q (u, ?c) = Some (log_send (frame (mkHeader q SFP_FRAME_NAK) []) u, c')"
    "idle c'" "link c' = link ?c"
    using logged.transmit_NAK by blast
  have "sfpHandleFrame log_env (u, ?r) = Some (0, log_send (frame (mkHeader q SFP_FRAME_NAK) []) u, c')"
    using assms(3,5) r c'(1) by (simp add: sfpHandleFrame_def SFP_CRC_SIZE_def Let_def)
  moreover have "rx_ready q (sfpResetReceiver c')"
    using assms(1,4) link_eqD(1,2) [OF c'(3)]
    by (simp add: rx_ready_def rx_fresh_reset rx_load_def rx_fresh_def)
       (simp add: sfpResetReceiver_def)
  moreover have "idle (sfpResetReceiver c')" using c'(2) by (simp add: idle_def tx_ok_def)
  ultimately show ?thesis
    using receive_flag_fresh [OF fresh, of log_env None 0 u] receive_body [OF fresh assms(4), of log_env h u] r(1)
    by (simp add: sfpDeliverOctets_append sfpDeliverOctet_def bind_assoc split_def del: stuff.simps)
qed

section \<open>Properties\<close>

text \<open>C1: After initialisation with its callbacks set, whatever the context's memory held before, no
  sequence of octets can make the receiver fault: every octet is processed to a normal return (no
  access outside an array, no call through a null pointer, every loop ends), and the context's
  invariant is kept; in particular it stays true after each octet of the sequence.\<close>

theorem sfp_receiver_never_faults:
  assumes "ctx_memory c"
  shows "sfp_inv (start c) \<and>
         (\<exists>u' c'. sfpDeliverOctets log_env octs (u, start c) = Some (u', c') \<and> sfp_inv c')"
proof -
  have "sfp_inv (start c)" using start_fresh [OF assms] by (simp add: fresh_link_def)
  then show ?thesis using logged.safe_octets [of "start c" octs u] by (auto simp: safe_def)
qed

lemma sfp_receiver_never_faults_witness:
  "\<exists>u' c'. sfpDeliverOctets log_env [0x7e, 0xc0, 0x7d, 0x7e, 0x7d, 0x7d, 0x33, 0x7e] (\<lparr>wire = [], delivered = []\<rparr>, start raw_ctx)
     = Some (u', c') \<and> sfp_inv c'"
  using sfp_receiver_never_faults [OF raw_memory] by blast








text \<open>What goes on the wire: \<open>sfpWritePacket\<close> on a packet of at most 256 octets returns 0, reports the
  number of octets it wrote, and writes one frame: a flag, the stuffed header (user frame, current
  sequence number), payload and complemented CRC, and a flag, with no flag octet in between; the
  packet enters the history and the sequence number advances.\<close>

theorem sfp_write_is_one_frame:
  assumes "tx_inv c" "length p \<le> 256"
  shows "\<exists>body c'. sfpWritePacket log_env p (length p) (u, c)
           = Some (0, length body + 2, log_send (SFP_FLAG # body @ [SFP_FLAG]) u, c') \<and>
         body = stuff (mkHeader (tx_seq (tx c)) SFP_FRAME_USR # p
            @ crc_octets (crc_of (mkHeader (tx_seq (tx c)) SFP_FRAME_USR # p))) \<and>
         SFP_FLAG \<notin> set body \<and>
         hist c' = keep_last 8 (hist c @ [p]) \<and> tx_seq (tx c') = nextSeq (tx_seq (tx c)) \<and> tx_inv c'"
proof -
  have "SFP_FLAG \<notin> set (stuff xs)" for xs
    by (induction xs) (auto simp: isReservedOctet_def SFP_ESC_def SFP_FLAG_def SFP_ESC_FLIP_BIT_def)
  then show ?thesis
    using logged.write_packet [OF assms, of u] by (auto simp: frame_def simp del: stuff.simps)
qed

lemma sfp_write_is_one_frame_witness:
  "\<exists>c'. sfpWritePacket log_env [0x7e] 1 (\<lparr>wire = [], delivered = []\<rparr>, up)
     = Some (0, 7, \<lparr>wire = [0x7e, 0, 0x7d, 0x5e, 0xbe, 0x95, 0x7e], delivered = []\<rparr>, c') \<and> tx_inv c'"
proof -
  have "stuff (mkHeader (tx_seq (tx up)) SFP_FRAME_USR # [0x7e]
     @ crc_octets (crc_of (mkHeader (tx_seq (tx up)) SFP_FRAME_USR # [0x7e]))) = [0, 0x7d, 0x5e, 0xbe, 0x95]"
    unfolding up_state(5) by code_simp
  then show ?thesis
    using sfp_write_is_one_frame [OF up_state(2), of "[0x7e]" "\<lparr>wire = [], delivered = []\<rparr>"]
    by (auto simp: SFP_FLAG_def simp del: stuff.simps)
qed





text \<open>A packet of 255 octets, which \<open>sfpWritePacket\<close> accepts and puts on the wire, never arrives: its CRC
  does not fit behind it into the receiver's packet, the receiver drops the whole frame without a
  NAK, and the sender's sequence number has moved on.\<close>

theorem sfp_255_octets_are_lost:
  assumes "tx_inv a" "rx_ready (tx_seq (tx a)) b" "length p = 255"
  shows "\<exists>n octs a' b'. sfpWritePacket log_env p 255 (ua, a) = Some (0, n, log_send octs ua, a') \<and>
     sfpDeliverOctets log_env octs (ub, b) = Some (ub, b') \<and>
     rx_ready (tx_seq (tx a)) b' \<and> tx_seq (tx a') \<noteq> rx_seq (rx b')"
proof -
  let ?h = "mkHeader (tx_seq (tx a)) SFP_FRAME_USR"
  let ?bs = "p @ [ucast (NOT (crc_of (?h # p)) AND 0x00ff)]"
  let ?x = "ucast (drop_bit 8 (NOT (crc_of (?h # p))) AND 0x00ff) :: u8"
  let ?b = "upd_rx (rx_load ?h ?bs) b"
  have fresh: "rx_fresh (rx b)" using assms(2) by (simp add: rx_ready_def)
  obtain a' where a': "sfpWritePacket log_env p (length p) (ua, a)
      = Some (0, length (frame ?h p), log_send (frame ?h p) ua, a')" "tx_seq (tx a') = nextSeq (tx_seq (tx a))"
    using logged.write_packet [OF assms(1), of p ua] assms(3) by auto
  have octs: "frame ?h p = SFP_FLAG # stuff (?h # ?bs) @ stuff [?x] @ [SFP_FLAG]"
    using stuff_append [of "?h # ?bs" "[?x]"] by (simp add: frame_def crc_octets_def)
  have body: "sfpDeliverOctets log_env (stuff (?h # ?bs)) (ub, b) = Some (ub, ?b)"
    by (rule receive_body [OF fresh]) (simp add: assms(3))
  have "rx_octet ?x ?b = Some (sfpResetReceiver ?b)"
    using assms(3) by (simp add: rx_octet_def rx_load_def sfpBufferOctet_def SFP_CONFIG_MAX_PACKET_SIZE_def
      sfpResetReceiver_def)
  then have last: "sfpDeliverOctets log_env (stuff [?x]) (ub, ?b) = Some (ub, sfpResetReceiver ?b)"
    by (subst deliver_stuffed) (simp_all add: rx_load_def)
  have ready: "rx_ready (tx_seq (tx a)) (sfpResetReceiver ?b)"
    using assms(2,3) by (simp add: rx_ready_def rx_fresh_reset rx_load_def rx_fresh_def)
      (simp add: sfpResetReceiver_def)
  have "sfpDeliverOctets log_env (frame ?h p) (ub, b) = Some (ub, sfpResetReceiver ?b)"
    using receive_flag_fresh [OF fresh, of log_env None 0 ub] body last
      receive_flag_fresh [of "sfpResetReceiver ?b" log_env None 0 ub] ready
    unfolding octs by (simp add: sfpDeliverOctets_append rx_ready_def del: stuff.simps)
  moreover have "nextSeq (tx_seq (tx a)) \<noteq> tx_seq (tx a)"
    using assms(1) unat_nextSeq [of "tx_seq (tx a)"] by (auto simp: tx_inv_def mod_if split: if_splits)
  ultimately show ?thesis using a' assms(3) ready by (auto simp: rx_ready_def)
qed

lemma sfp_255_octets_are_lost_witness:
  "\<exists>n octs a' b'. sfpWritePacket log_env (replicate 255 0x41) 255 (no_log, up) = Some (0, n, log_send octs no_log, a') \<and>
     sfpDeliverOctets log_env octs (no_log, up) = Some (no_log, b') \<and>
     rx_ready (tx_seq (tx up)) b' \<and> tx_seq (tx a') \<noteq> rx_seq (rx b')"
  by (rule sfp_255_octets_are_lost) (use up_state in \<open>simp_all\<close>)

text \<open>What an unconnected context answers to data.\<close>

definition unconnected_reply :: "SFPconnectstate \<Rightarrow> SFPseq" where
  "unconnected_reply k = (case k of SFP_CONNECT_STATE_DISCONNECTED \<Rightarrow> SFP_SEQ_SYN_DIS
     | SFP_CONNECT_STATE_SENT_SYN0 \<Rightarrow> SFP_SEQ_SYN0 | _ \<Rightarrow> SFP_SEQ_SYN1)"

text \<open>User data before the handshake is complete is never delivered: a good data frame received in any
  state but connected is answered with the control frame of that state (DIS, SYN0 or SYN1), and neither
  the link state nor the sequence numbers change.\<close>

theorem sfp_no_data_before_connection:
  assumes "idle c" "rx_fresh (rx c)" "\<not> sfpIsConnected c" "length p \<le> 254" "unat q < 64"
    and "t = SFP_FRAME_USR \<or> t = SFP_FRAME_RTX"
  shows "\<exists>c'. sfpDeliverOctets log_env (frame (mkHeader q t) p) (u, c)
           = Some (log_send (syn_frame (unconnected_reply (connectState c))) u, c') \<and>
         connectState c' = connectState c \<and> rx_seq (rx c') = rx_seq (rx c) \<and>
         tx_seq (tx c') = tx_seq (tx c) \<and> hist c' = hist c \<and> idle c' \<and> rx_fresh (rx c')"
proof -
  let ?h = "mkHeader q t" and ?k = "syn_frame (unconnected_reply (connectState c))"
  let ?c = "upd_rx (\<lambda>r. r\<lparr>packet := (packet r)\<lparr>len := length p\<rparr>\<rparr>) (rx_frame ?h p c)"
  have "idle ?c" using assms(1) by (simp add: idle_def tx_ok_def)
  then have "\<exists>c'. sfpHandleUSR log_env (u, ?c) = Some (0, log_send ?k u, c') \<and> idle c' \<and> link c' = link ?c"
    using assms(3) logged.transmit_SYN [of ?c u]
    by (cases "connectState c") (auto simp: sfpHandleUSR_def sfpIsConnected_def unconnected_reply_def)
  then obtain c' where c': "sfpHandleUSR log_env (u, ?c) = Some (0, log_send ?k u, c')" "idle c'" "link c' = link ?c"
    by blast
  have "sfpHandleFrame log_env (u, rx_frame ?h p c) = Some (0, log_send ?k u, c')"
    using assms(6) getFrameType_mkHeader [OF assms(5)] c'(1)
    by (auto simp: sfpHandleFrame_def SFP_CRC_SIZE_def Let_def)
  moreover have "rx_fresh (rx (sfpResetReceiver c'))"
    using link_eqD(1) [OF c'(3)] length_rx_frame_buf [OF assms(2,4), of ?h] by (simp add: rx_fresh_reset)
  moreover have "idle (sfpResetReceiver c')" using c'(2) by (simp add: idle_def tx_ok_def)
  ultimately show ?thesis
    using receive_frame [OF assms(2,4), of log_env ?h u] link_eqD [OF c'(3)] by (simp add: hist_def)
qed

lemma sfp_no_data_before_connection_witness:
  "\<exists>c'. sfpDeliverOctets log_env (frame (mkHeader 0 SFP_FRAME_USR) [1, 2, 3]) (no_log, start raw_ctx)
           = Some (log_send (syn_frame (unconnected_reply (connectState (start raw_ctx)))) no_log, c') \<and>
         connectState c' = connectState (start raw_ctx) \<and> rx_seq (rx c') = rx_seq (rx (start raw_ctx)) \<and>
         tx_seq (tx c') = tx_seq (tx (start raw_ctx)) \<and> hist c' = hist (start raw_ctx) \<and> idle c' \<and> rx_fresh (rx c')"
  by (rule sfp_no_data_before_connection)
    (use start_fresh [OF raw_memory] in \<open>auto simp: fresh_link_def sfp_invD sfpIsConnected_def\<close>)

end
