(* ===== verification/Messages.thy ===== *)
theory Messages
  imports Prelude
begin

text \<open>
  The messages of the robot's remote procedure calls, \<open>src/src/messages.c\<close>: eight operations,
  their serialization into a buffer with the multi-octet fields in network order, and their
  deserialization, which leaves the \<open>value\<close> of a message a pointer into the buffer. A pointer to
  octets is modelled by the octets of its array from there on.
\<close>

section \<open>Data\<close>

definition MESSAGES_OP_PING :: u8 where "MESSAGES_OP_PING = 0x01"
definition MESSAGES_OP_PONG :: u8 where "MESSAGES_OP_PONG = 0x02"
definition MESSAGES_OP_INFO :: u8 where "MESSAGES_OP_INFO = 0x03"
definition MESSAGES_OP_DATA :: u8 where "MESSAGES_OP_DATA = 0x04"
definition MESSAGES_OP_READ :: u8 where "MESSAGES_OP_READ = 0x05"
definition MESSAGES_OP_WRITE :: u8 where "MESSAGES_OP_WRITE = 0x06"
definition MESSAGES_OP_SUBSCRIBE :: u8 where "MESSAGES_OP_SUBSCRIBE = 0x07"
definition MESSAGES_OP_UNSUBSCRIBE :: u8 where "MESSAGES_OP_UNSUBSCRIBE = 0x08"

lemmas op_defs = MESSAGES_OP_PING_def MESSAGES_OP_PONG_def MESSAGES_OP_INFO_def MESSAGES_OP_DATA_def
  MESSAGES_OP_READ_def MESSAGES_OP_WRITE_def MESSAGES_OP_SUBSCRIBE_def MESSAGES_OP_UNSUBSCRIBE_def

record message_ping = ping_seq_id :: u8

record message_pong = pong_seq_id :: u8

record message_info =
  info_topic :: u8
  info_subtopic :: u8
  info_len :: u8
  info_value :: octets

record message_data =
  data_req_id :: u16
  data_topic :: u8
  data_subtopic :: u8
  data_flag :: u8
  data_timestamp :: u32
  data_len :: u8
  data_value :: octets

record message_read =
  read_req_id :: u16
  read_topic :: u8
  read_subtopic :: u8

record message_write =
  write_req_id :: u16
  write_topic :: u8
  write_subtopic :: u8
  write_len :: u8
  write_value :: octets

record message_subscribe =
  subscribe_req_id :: u16
  subscribe_topic :: u8
  subscribe_subtopic :: u8

record message_unsubscribe = unsubscribe_req_id :: u16

text \<open>
  The union: its variant is the one the common field \<open>op\<close> names, and a last constructor for an
  \<open>op\<close> that names none.
\<close>

datatype message_any =
    Ping message_ping
  | Pong message_pong
  | Info message_info
  | Data message_data
  | Read message_read
  | Write message_write
  | Subscribe message_subscribe
  | Unsubscribe message_unsubscribe
  | Other u8

fun message_op :: "message_any \<Rightarrow> u8" where
  "message_op (Ping m) = MESSAGES_OP_PING"
| "message_op (Pong m) = MESSAGES_OP_PONG"
| "message_op (Info m) = MESSAGES_OP_INFO"
| "message_op (Data m) = MESSAGES_OP_DATA"
| "message_op (Read m) = MESSAGES_OP_READ"
| "message_op (Write m) = MESSAGES_OP_WRITE"
| "message_op (Subscribe m) = MESSAGES_OP_SUBSCRIBE"
| "message_op (Unsubscribe m) = MESSAGES_OP_UNSUBSCRIBE"
| "message_op (Other op) = op"

section \<open>Framing: filling in a message\<close>

definition message_ping_frame :: "u8 \<Rightarrow> message_any" where
  "message_ping_frame seq_id = Ping \<lparr>ping_seq_id = seq_id\<rparr>"

definition message_pong_frame :: "u8 \<Rightarrow> message_any" where
  "message_pong_frame seq_id = Pong \<lparr>pong_seq_id = seq_id\<rparr>"

definition message_info_frame :: "u8 \<Rightarrow> u8 \<Rightarrow> u8 \<Rightarrow> octets \<Rightarrow> message_any" where
  "message_info_frame topic subtopic n v =
     Info \<lparr>info_topic = topic, info_subtopic = subtopic, info_len = n, info_value = v\<rparr>"

definition message_data_frame :: "u16 \<Rightarrow> u8 \<Rightarrow> u8 \<Rightarrow> u8 \<Rightarrow> u32 \<Rightarrow> u8 \<Rightarrow> octets \<Rightarrow> message_any" where
  "message_data_frame req_id topic subtopic flag timestamp n v =
     Data \<lparr>data_req_id = req_id, data_topic = topic, data_subtopic = subtopic, data_flag = flag,
           data_timestamp = timestamp, data_len = n, data_value = v\<rparr>"

definition message_read_frame :: "u16 \<Rightarrow> u8 \<Rightarrow> u8 \<Rightarrow> message_any" where
  "message_read_frame req_id topic subtopic =
     Read \<lparr>read_req_id = req_id, read_topic = topic, read_subtopic = subtopic\<rparr>"

definition message_write_frame :: "u16 \<Rightarrow> u8 \<Rightarrow> u8 \<Rightarrow> u8 \<Rightarrow> octets \<Rightarrow> message_any" where
  "message_write_frame req_id topic subtopic n v =
     Write \<lparr>write_req_id = req_id, write_topic = topic, write_subtopic = subtopic, write_len = n, write_value = v\<rparr>"

definition message_subscribe_frame :: "u16 \<Rightarrow> u8 \<Rightarrow> u8 \<Rightarrow> message_any" where
  "message_subscribe_frame req_id topic subtopic =
     Subscribe \<lparr>subscribe_req_id = req_id, subscribe_topic = topic, subscribe_subtopic = subtopic\<rparr>"

definition message_unsubscribe_frame :: "u16 \<Rightarrow> message_any" where
  "message_unsubscribe_frame req_id = Unsubscribe \<lparr>unsubscribe_req_id = req_id\<rparr>"

section \<open>Octet order\<close>

text \<open>The conversions to network order; the octets of an integer in memory are those of the prelude.\<close>

definition htons :: "u16 \<Rightarrow> u16" where
  "htons w = push_bit 8 w OR drop_bit 8 w"

definition htonl :: "u32 \<Rightarrow> u32" where
  "htonl w = push_bit 24 w OR (push_bit 8 w AND 0xff0000) OR (drop_bit 8 w AND 0xff00) OR drop_bit 24 w"

section \<open>Serialization\<close>

definition message_getsizeof :: "message_any \<Rightarrow> nat" where
  "message_getsizeof m = (case m of
      Ping _ \<Rightarrow> 1 + 1
    | Pong _ \<Rightarrow> 1 + 1
    | Info i \<Rightarrow> 1 + 1 + 1 + 1 + unat (info_len i)
    | Data d \<Rightarrow> 1 + 2 + 1 + 1 + 1 + 4 + 1 + unat (data_len d)
    | Read _ \<Rightarrow> 1 + 2 + 1 + 1
    | Write w \<Rightarrow> 1 + 2 + 1 + 1 + 1 + unat (write_len w)
    | Subscribe _ \<Rightarrow> 1 + 2 + 1 + 1
    | Unsubscribe _ \<Rightarrow> 1 + 2
    | Other _ \<Rightarrow> 0)"

text \<open>
  The stores of adjacent octets are grouped. The result is the return value, the buffer and what is
  stored through \<open>outlen\<close>.
\<close>

definition message_serialize :: "message_any \<Rightarrow> octets \<Rightarrow> nat \<Rightarrow> (int \<times> octets \<times> nat option) option" where
  "message_serialize m buf n =
     (let mlen = message_getsizeof m in
      if mlen = 0 \<or> n < mlen then Some (- 1, buf, None)
      else do {
        buf \<leftarrow> (case m of
            Ping p \<Rightarrow> memcpy buf 0 [MESSAGES_OP_PING, ping_seq_id p]
          | Pong p \<Rightarrow> memcpy buf 0 [MESSAGES_OP_PONG, pong_seq_id p]
          | Info i \<Rightarrow> do {
              buf \<leftarrow> memcpy buf 0 [MESSAGES_OP_INFO, info_topic i, info_subtopic i, info_len i];
              v \<leftarrow> load (info_value i) (unat (info_len i));
              memcpy buf 4 v }
          | Data d \<Rightarrow> do {
              buf \<leftarrow> memcpy buf 0 [MESSAGES_OP_DATA];
              buf \<leftarrow> memcpy buf 1 (mem16 (htons (data_req_id d)));
              buf \<leftarrow> memcpy buf 3 [data_topic d, data_subtopic d, data_flag d];
              buf \<leftarrow> memcpy buf 6 (mem32 (htonl (data_timestamp d)));
              buf \<leftarrow> memcpy buf 10 [data_len d];
              v \<leftarrow> load (data_value d) (unat (data_len d));
              memcpy buf 11 v }
          | Read r \<Rightarrow> do {
              buf \<leftarrow> memcpy buf 0 [MESSAGES_OP_READ];
              buf \<leftarrow> memcpy buf 1 (mem16 (htons (read_req_id r)));
              memcpy buf 3 [read_topic r, read_subtopic r] }
          | Write w \<Rightarrow> do {
              buf \<leftarrow> memcpy buf 0 [MESSAGES_OP_WRITE];
              buf \<leftarrow> memcpy buf 1 (mem16 (htons (write_req_id w)));
              buf \<leftarrow> memcpy buf 3 [write_topic w, write_subtopic w, write_len w];
              v \<leftarrow> load (write_value w) (unat (write_len w));
              memcpy buf 6 v }
          | Subscribe s \<Rightarrow> do {
              buf \<leftarrow> memcpy buf 0 [MESSAGES_OP_SUBSCRIBE];
              buf \<leftarrow> memcpy buf 1 (mem16 (htons (subscribe_req_id s)));
              memcpy buf 3 [subscribe_topic s, subscribe_subtopic s] }
          | Unsubscribe s \<Rightarrow> do {
              buf \<leftarrow> memcpy buf 0 [MESSAGES_OP_UNSUBSCRIBE];
              memcpy buf 1 (mem16 (htons (unsubscribe_req_id s))) }
          | Other _ \<Rightarrow> Some buf);
        Some (0, buf, Some mlen)
      })"

section \<open>Deserialization\<close>

text \<open>One octet behind a pointer, and the octets from an offset on.\<close>

definition rd :: "octets \<Rightarrow> nat \<Rightarrow> u8 option" where
  "rd p i = (if i < length p then Some (p ! i) else None)"

definition at_offset :: "octets \<Rightarrow> nat \<Rightarrow> octets option" where
  "at_offset p i = (if i \<le> length p then Some (drop i p) else None)"

definition rd_bytes :: "octets \<Rightarrow> nat \<Rightarrow> nat \<Rightarrow> octets option" where
  "rd_bytes p i n = do { q \<leftarrow> at_offset p i; load q n }"

text \<open>\<open>Inl\<close> is the return value \<open>-1\<close>, \<open>Inr\<close> the return value 0 with the message filled in.\<close>

definition message_deserialize :: "octets \<Rightarrow> nat \<Rightarrow> (int + message_any) option" where
  "message_deserialize buf n =
     (if n < 2 then Some (Inl (- 1))
      else do {
        op \<leftarrow> rd buf 0;
        if op = MESSAGES_OP_PING then do {
          s \<leftarrow> rd buf 1;
          Some (Inr (Ping \<lparr>ping_seq_id = s\<rparr>)) }
        else if op = MESSAGES_OP_PONG then do {
          s \<leftarrow> rd buf 1;
          Some (Inr (Pong \<lparr>pong_seq_id = s\<rparr>)) }
        else if op = MESSAGES_OP_INFO then
          (if n < 4 then Some (Inl (- 1))
           else do {
             vlen \<leftarrow> rd buf 3;
             let vlen = vlen + 4;
             if n < unat vlen then Some (Inl (- 1))
             else do {
               t \<leftarrow> rd buf 1; s \<leftarrow> rd buf 2; l \<leftarrow> rd buf 3; v \<leftarrow> at_offset buf 4;
               Some (Inr (Info \<lparr>info_topic = t, info_subtopic = s, info_len = l, info_value = v\<rparr>)) } })
        else if op = MESSAGES_OP_DATA then
          (if n < 11 then Some (Inl (- 1))
           else do {
             vlen \<leftarrow> rd buf 10;
             let vlen = vlen + 11;
             if n < unat vlen then Some (Inl (- 1))
             else do {
               r \<leftarrow> rd_bytes buf 1 2;
               t \<leftarrow> rd buf 3; s \<leftarrow> rd buf 4; f \<leftarrow> rd buf 5;
               ts \<leftarrow> rd_bytes buf 6 4;
               l \<leftarrow> rd buf 10; v \<leftarrow> at_offset buf 11;
               Some (Inr (Data \<lparr>data_req_id = htons (of_mem16 r), data_topic = t, data_subtopic = s, data_flag = f,
                 data_timestamp = htonl (of_mem32 ts), data_len = l, data_value = v\<rparr>)) } })
        else if op = MESSAGES_OP_READ then
          (if n < 5 then Some (Inl (- 1))
           else do {
             r \<leftarrow> rd_bytes buf 1 2; t \<leftarrow> rd buf 3; s \<leftarrow> rd buf 4;
             Some (Inr (Read \<lparr>read_req_id = htons (of_mem16 r), read_topic = t, read_subtopic = s\<rparr>)) })
        else if op = MESSAGES_OP_WRITE then
          (if n < 6 then Some (Inl (- 1))
           else do {
             vlen \<leftarrow> rd buf 5;
             let vlen = vlen + 6;
             if n < unat vlen then Some (Inl (- 1))
             else do {
               r \<leftarrow> rd_bytes buf 1 2; t \<leftarrow> rd buf 3; s \<leftarrow> rd buf 4; l \<leftarrow> rd buf 5; v \<leftarrow> at_offset buf 6;
               Some (Inr (Write \<lparr>write_req_id = htons (of_mem16 r), write_topic = t, write_subtopic = s,
                 write_len = l, write_value = v\<rparr>)) } })
        else if op = MESSAGES_OP_SUBSCRIBE then
          (if n < 5 then Some (Inl (- 1))
           else do {
             r \<leftarrow> rd_bytes buf 1 2; t \<leftarrow> rd buf 3; s \<leftarrow> rd buf 4;
             Some (Inr (Subscribe \<lparr>subscribe_req_id = htons (of_mem16 r), subscribe_topic = t,
               subscribe_subtopic = s\<rparr>)) })
        else if op = MESSAGES_OP_UNSUBSCRIBE then
          (if n < 3 then Some (Inl (- 1))
           else do {
             r \<leftarrow> rd_bytes buf 1 2;
             Some (Inr (Unsubscribe \<lparr>unsubscribe_req_id = htons (of_mem16 r)\<rparr>)) })
        else Some (Inl (- 1))
      })"

section \<open>Octet order: lemmas\<close>

lemma mem16_htons: "htons (of_mem16 (mem16 (htons w))) = w"
  unfolding htons_def mem16_def of_mem16.simps
  by (rule word16_eqI) (simp add: bit_simps no_bit_16)

lemma mem32_htonl: "htonl (of_mem32 (mem32 (htonl w))) = w"
  unfolding htonl_def mem32_def of_mem32.simps
  by (rule word32_eqI) (simp add: bit_simps no_bit_32)

section \<open>Interface: a codec\<close>

text \<open>
  Encoding and decoding of messages, up to the part of a message \<open>norm\<close> keeps: what a peer can rely
  on is that decoding what was encoded gives the message back.
\<close>

locale codec =
  fixes valid :: "'m \<Rightarrow> bool"
    and encode :: "'m \<Rightarrow> octets"
    and decode :: "octets \<Rightarrow> 'm option"
    and norm :: "'m \<Rightarrow> 'm"
  assumes decode_encode: "valid m \<Longrightarrow> \<exists>m'. decode (encode m) = Some m' \<and> norm m' = norm m"
begin

lemma encode_inj: "valid m \<Longrightarrow> valid m' \<Longrightarrow> encode m = encode m' \<Longrightarrow> norm m = norm m'"
  using decode_encode [of m] decode_encode [of m'] by auto

lemma decode_list:
  "\<forall>m\<in>set ms. valid m \<Longrightarrow>
     map (map_option norm) (map decode (map encode ms)) = map Some (map norm ms)"
  using decode_encode by (induction ms) fastforce+

end

section \<open>The octets of a message\<close>

fun message_octets :: "message_any \<Rightarrow> octets" where
  "message_octets (Ping p) = [MESSAGES_OP_PING, ping_seq_id p]"
| "message_octets (Pong p) = [MESSAGES_OP_PONG, pong_seq_id p]"
| "message_octets (Info i) =
     [MESSAGES_OP_INFO, info_topic i, info_subtopic i, info_len i] @ take (unat (info_len i)) (info_value i)"
| "message_octets (Data d) =
     [MESSAGES_OP_DATA] @ mem16 (htons (data_req_id d)) @ [data_topic d, data_subtopic d, data_flag d] @
     mem32 (htonl (data_timestamp d)) @ [data_len d] @ take (unat (data_len d)) (data_value d)"
| "message_octets (Read r) =
     [MESSAGES_OP_READ] @ mem16 (htons (read_req_id r)) @ [read_topic r, read_subtopic r]"
| "message_octets (Write w) =
     [MESSAGES_OP_WRITE] @ mem16 (htons (write_req_id w)) @ [write_topic w, write_subtopic w, write_len w] @
     take (unat (write_len w)) (write_value w)"
| "message_octets (Subscribe s) =
     [MESSAGES_OP_SUBSCRIBE] @ mem16 (htons (subscribe_req_id s)) @ [subscribe_topic s, subscribe_subtopic s]"
| "message_octets (Unsubscribe s) = [MESSAGES_OP_UNSUBSCRIBE] @ mem16 (htons (unsubscribe_req_id s))"
| "message_octets (Other op) = []"

text \<open>The operation is known, and the value pointer has the octets the length announces.\<close>

fun message_wf :: "message_any \<Rightarrow> bool" where
  "message_wf (Info i) = (unat (info_len i) \<le> length (info_value i))"
| "message_wf (Data d) = (unat (data_len d) \<le> length (data_value d))"
| "message_wf (Write w) = (unat (write_len w) \<le> length (write_value w))"
| "message_wf (Other op) = False"
| "message_wf m = True"

text \<open>A message with the octets behind its value replaced, and with exactly the announced ones.\<close>

fun with_rest :: "octets \<Rightarrow> message_any \<Rightarrow> message_any" where
  "with_rest r (Info i) = Info (i\<lparr>info_value := take (unat (info_len i)) (info_value i) @ r\<rparr>)"
| "with_rest r (Data d) = Data (d\<lparr>data_value := take (unat (data_len d)) (data_value d) @ r\<rparr>)"
| "with_rest r (Write w) = Write (w\<lparr>write_value := take (unat (write_len w)) (write_value w) @ r\<rparr>)"
| "with_rest r m = m"

abbreviation message_norm :: "message_any \<Rightarrow> message_any" where
  "message_norm \<equiv> with_rest []"

lemma length_message_octets: "message_wf m \<Longrightarrow> length (message_octets m) = message_getsizeof m"
  by (cases m) (simp_all add: message_getsizeof_def)

lemma getsizeof_pos: "message_getsizeof m = 0 \<longleftrightarrow> (\<exists>op. m = Other op)"
  by (cases m) (simp_all add: message_getsizeof_def)

lemma serialize_octets:
  assumes "message_wf m" "message_getsizeof m \<le> n" "n \<le> length buf"
  shows "message_serialize m buf n =
    Some (0, message_octets m @ drop (message_getsizeof m) buf, Some (message_getsizeof m))"
proof -
  have "message_serialize m buf n
    = (memcpy buf 0 (message_octets m) \<bind> (\<lambda>b. Some (0, b, Some (message_getsizeof m))))"
    using assms
    by (cases m) (simp_all add: message_serialize_def message_getsizeof_def memcpy_memcpy memcpy_memcpy_bind
      load_def)
  then show ?thesis
    using assms by (simp add: memcpy_0 length_message_octets)
qed

text \<open>Reading back.\<close>

lemma mem16_read: "htons (of_mem16 [ucast (htons w), ucast (drop_bit 8 (htons w))]) = w"
  using mem16_htons [of w] by (simp only: mem16_def)

lemma mem32_read: "htonl (of_mem32 [ucast (htonl w), ucast (drop_bit 8 (htonl w)),
    ucast (drop_bit 16 (htonl w)), ucast (drop_bit 24 (htonl w))]) = w"
  using mem32_htonl [of w] by (simp only: mem32_def)

lemma vlen_le: "unat (l + 4 :: u8) \<le> unat l + 4" "unat (l + 6 :: u8) \<le> unat l + 6"
  "unat (l + 11 :: u8) \<le> unat l + 11"
  by (simp_all add: unat_word_ariths)

lemmas reading = message_deserialize_def op_defs rd_def at_offset_def rd_bytes_def load_def

lemma deserialize_octets:
  assumes "message_wf m"
  shows "message_deserialize (message_octets m @ r) (length (message_octets m)) = Some (Inr (with_rest r m))"
proof (cases m)
  case (Info i)
  then show ?thesis using assms vlen_le(1) [of "info_len i"] by (simp add: reading)
next
  case (Data d)
  then show ?thesis using assms vlen_le(3) [of "data_len d"]
    by (simp add: reading mem16_def mem32_def mem16_read mem32_read del: of_mem16.simps of_mem32.simps)
next
  case (Write w)
  then show ?thesis using assms vlen_le(2) [of "write_len w"]
    by (simp add: reading mem16_def mem16_read del: of_mem16.simps)
qed (use assms in \<open>simp_all add: reading mem16_def mem16_read del: of_mem16.simps\<close>)

text \<open>The model's codec: \<open>message_deserialize\<close> on exactly the octets serialized.\<close>

definition decode_message :: "octets \<Rightarrow> message_any option" where
  "decode_message b = (case message_deserialize b (length b) of Some (Inr m) \<Rightarrow> Some m | _ \<Rightarrow> None)"

lemma norm_norm [simp]: "message_norm (message_norm m) = message_norm m"
  by (cases m) simp_all

interpretation msg: codec message_wf message_octets decode_message message_norm
  by unfold_locales (use deserialize_octets [of _ "[]"] in \<open>simp add: decode_message_def\<close>)

text \<open>Octets a message announces behind its value, and the size of what precedes them.\<close>

fun announced :: "message_any \<Rightarrow> nat" where
  "announced (Info i) = unat (info_len i)"
| "announced (Data d) = unat (data_len d)"
| "announced (Write w) = unat (write_len w)"
| "announced m = 0"

lemma vlen_exact: "unat l + 4 < 256 \<Longrightarrow> unat (l + 4 :: u8) = unat l + 4"
  "unat l + 6 < 256 \<Longrightarrow> unat (l + 6 :: u8) = unat l + 6"
  "unat l + 11 < 256 \<Longrightarrow> unat (l + 11 :: u8) = unat l + 11"
  by (simp_all add: unat_word_ariths)

lemma deserialize_total: "n \<le> length buf \<Longrightarrow> \<exists>r. message_deserialize buf n = Some r"
  unfolding reading Let_def by auto

section \<open>Properties\<close>

text \<open>C7: Round trip: serializing a well-formed message into a buffer it fits into returns 0, writes exactly
  \<open>message_getsizeof\<close> octets and leaves the rest of the buffer alone; deserializing those octets gives the
  message back, every field and every octet of its value, for any length of the value from 0 to 255.\<close>

theorem message_roundtrip:
  assumes "message_wf m" "message_getsizeof m \<le> n" "n \<le> length buf"
  shows "\<exists>buf' m'. message_serialize m buf n = Some (0, buf', Some (message_getsizeof m)) \<and>
     length buf' = length buf \<and> drop (message_getsizeof m) buf' = drop (message_getsizeof m) buf \<and>
     message_deserialize buf' (message_getsizeof m) = Some (Inr m') \<and> message_norm m' = message_norm m"
proof -
  have "message_norm (with_rest r m) = message_norm m" for r
    using assms(1) by (cases m) simp_all
  then show ?thesis
    using serialize_octets [OF assms] deserialize_octets [OF assms(1), of "drop (message_getsizeof m) buf"]
      assms by (simp add: length_message_octets)
qed

lemma message_roundtrip_witness:
  "\<exists>buf' m'. message_serialize (message_data_frame 0x1234 2 0xff 1 0xdeadbeef 2 [7, 8, 9]) (replicate 256 0) 256
       = Some (0, buf', Some 13) \<and>
     message_deserialize buf' 13 = Some (Inr m') \<and>
     message_norm m' = message_data_frame 0x1234 2 0xff 1 0xdeadbeef 2 [7, 8]"
  using message_roundtrip [of "message_data_frame 0x1234 2 0xff 1 0xdeadbeef 2 [7, 8, 9]" 256 "replicate 256 0"]
  by (auto simp: message_data_frame_def message_getsizeof_def)

text \<open>Two well-formed messages are serialized to the same octets only if they agree in their operation, all
  their fields and the octets of their values.\<close>

theorem message_serialize_injective:
  assumes "message_wf m" "message_wf m'" "message_serialize m buf n = message_serialize m' buf n"
    and "message_getsizeof m \<le> n" "n \<le> length buf"
  shows "message_norm m = message_norm m'"
proof -
  have ne: "message_getsizeof m \<noteq> 0" "message_getsizeof m' \<noteq> 0"
    using assms(1,2) by (auto simp: getsizeof_pos)
  have s: "message_serialize m buf n = Some (0, message_octets m @ drop (message_getsizeof m) buf, Some (message_getsizeof m))"
    using serialize_octets [OF assms(1,4,5)] .
  have "message_getsizeof m' \<le> n"
    using s ne(2) assms(3) by (auto simp: message_serialize_def Let_def split: if_splits)
  then have "message_octets m = message_octets m'"
    using serialize_octets [OF assms(2) _ assms(5)] s assms(3)
      length_message_octets [OF assms(1)] length_message_octets [OF assms(2)] by simp
  then show ?thesis using msg.encode_inj assms(1,2) by blast
qed

lemma message_serialize_injective_witness:
  "message_norm (message_info_frame 4 0 2 [1, 2, 3]) = message_norm (message_info_frame 4 0 2 [1, 2, 99])"
  by (rule message_serialize_injective [of _ _ "replicate 8 0" 8])
    (simp_all add: message_info_frame_def message_serialize_def message_getsizeof_def load_def memcpy_def)

text \<open>The serializer's error branch: it returns -1 exactly when the operation is unknown or the message does not
  fit into the length given, and then leaves the buffer and \<open>outlen\<close> alone; on a well-formed message and a
  buffer of the length given it never writes outside.\<close>

theorem message_serialize_error:
  assumes "message_wf m \<or> message_op m \<notin> {1..8}" "n \<le> length buf"
  shows "(message_serialize m buf n = Some (- 1, buf, None) \<longleftrightarrow> (\<exists>op. m = Other op) \<or> n < message_getsizeof m) \<and>
         message_serialize m buf n \<noteq> None"
proof (cases "message_getsizeof m = 0 \<or> n < message_getsizeof m")
  case True
  then show ?thesis by (auto simp: message_serialize_def Let_def getsizeof_pos)
next
  case False
  then have "message_wf m" using assms(1) by (cases m) (auto simp: op_defs message_getsizeof_def)
  with False show ?thesis using serialize_octets [of m n buf] assms(2) by (auto simp: getsizeof_pos)
qed

lemma message_serialize_error_witness:
  "message_serialize (message_write_frame 1 2 3 1 [5]) (replicate 6 0) 6 = Some (- 1, replicate 6 0, None)"
  using message_serialize_error [of "message_write_frame 1 2 3 1 [5]" 6 "replicate 6 0"]
  by (simp add: message_write_frame_def message_getsizeof_def)

text \<open>C8: Deserialization never reads outside a buffer of the length given, and a message it accepts whose
  announced length leaves the eight-bit sum of header and value below 256 has its whole value inside
  the buffer.\<close>

theorem message_deserialize_in_bounds:
  assumes "n \<le> length buf"
  shows "message_deserialize buf n \<noteq> None \<and>
    (\<forall>m. message_deserialize buf n = Some (Inr m) \<longrightarrow> announced m \<le> 244 \<longrightarrow>
       message_wf m \<and> message_getsizeof m \<le> n)"
proof (intro conjI allI impI)
  show "message_deserialize buf n \<noteq> None" using deserialize_total [OF assms] by auto
next
  fix m assume "message_deserialize buf n = Some (Inr m)" "announced m \<le> 244"
  then show "message_wf m" "message_getsizeof m \<le> n"
    using assms by (auto simp: reading Let_def message_getsizeof_def vlen_exact split: if_splits)
qed

lemma message_deserialize_in_bounds_witness:
  "message_deserialize [6, 0, 1, 2, 3, 1, 9] 7 \<noteq> None \<and> (7 :: nat) \<le> length [6, 0, 1, 2, 3, 1, 9 :: u8]"
  using message_deserialize_in_bounds [of 7 "[6, 0, 1, 2, 3, 1, 9]"] by simp

text \<open>The length check of the deserializer is made in eight bits and wraps: a four-octet packet that announces a
  value of 252 to 255 octets is accepted as an INFO message whose value pointer is the end of the packet,
  with none of the announced octets behind it.\<close>

theorem message_deserialize_length_wraps:
  assumes "252 \<le> unat l"
  shows "message_deserialize [MESSAGES_OP_INFO, t, s, l] 4
    = Some (Inr (Info \<lparr>info_topic = t, info_subtopic = s, info_len = l, info_value = []\<rparr>))"
proof -
  have "unat l < 256" using unsigned_less [of l, where 'a=nat] by simp
  then have "unat (l + 4) \<le> 4" using assms by (auto simp: unat_word_ariths mod_if)
  then show ?thesis by (simp add: reading numeral_eq_Suc)
qed

lemma message_deserialize_length_wraps_witness:
  "message_deserialize [MESSAGES_OP_INFO, 4, 0, 255] 4
    = Some (Inr (Info \<lparr>info_topic = 4, info_subtopic = 0, info_len = 255, info_value = []\<rparr>))"
  using message_deserialize_length_wraps [of 255] by simp

end
