(* ===== verification/VexMotor.thy ===== *)
theory VexMotor
  imports Prelude
begin

text \<open>
  The motor driver of ConVEX, \<open>src/convex/cortex/fw/vexmotor.c\<close>: the table of motor commands that
  threads write, and the timer interrupt that drives the two H-bridges of ports 1 and 10 from it.
  The registers and port pads the driver writes are a small hardware state; every write is an event, so
  that the states between two writes of one call can be spoken about.
\<close>

section \<open>Data\<close>

datatype tVexMotorType = kVexMotorUndefined | kVexMotor269 | kVexMotor393T | kVexMotor393S | kVexMotor393R

definition kVexMotor_1 :: int where "kVexMotor_1 = 0"
definition kVexMotor_10 :: int where "kVexMotor_10 = 9"
definition kVexMotorNum :: int where "kVexMotorNum = 10"

lemmas motor_index_defs = kVexMotor_1_def kVexMotor_10_def kVexMotorNum_def

text \<open>Callbacks are pointers, numbered; \<open>None\<close> is NULL.\<close>

record vexMotor =
  motor_value :: int
  motor_type :: tVexMotorType
  reversed :: bool
  motorPositionGet :: "nat option"
  motorPositionSet :: "nat option"
  getEncoderId :: "nat option"
  port :: int

datatype pwm_reg = CR1 | DIER | SR | PSC | ARR | CR2 | CCMR1 | CCMR2 | CCER | CCR1 | CCR2 | CCR3 | CCR4

definition VEX_EBL_T0_N_PIN :: nat where "VEX_EBL_T0_N_PIN = 3"
definition VEX_EBL_T0_P_PIN :: nat where "VEX_EBL_T0_P_PIN = 4"
definition VEX_EBL_T9_N_PIN :: nat where "VEX_EBL_T9_N_PIN = 7"
definition VEX_EBL_T9_P_PIN :: nat where "VEX_EBL_T9_P_PIN = 8"

lemmas pin_defs = VEX_EBL_T0_N_PIN_def VEX_EBL_T0_P_PIN_def VEX_EBL_T9_N_PIN_def VEX_EBL_T9_P_PIN_def

datatype pwm_write = WReg pwm_reg int | SetPad nat | ClearPad nat

record pwm_hw =
  regs :: "pwm_reg \<Rightarrow> int"
  pads :: "nat \<Rightarrow> bool"

fun pwm_exec :: "pwm_write \<Rightarrow> pwm_hw \<Rightarrow> pwm_hw" where
  "pwm_exec (WReg r v) h = h\<lparr>regs := (regs h)(r := v)\<rparr>"
| "pwm_exec (SetPad p) h = h\<lparr>pads := (pads h)(p := True)\<rparr>"
| "pwm_exec (ClearPad p) h = h\<lparr>pads := (pads h)(p := False)\<rparr>"

record motor_state =
  vexMotors :: "vexMotor list"
  PwmTimer :: bool
  m0_cur_value :: int
  m0_new_value :: int
  m9_cur_value :: int
  m9_new_value :: int
  hw :: pwm_hw

definition motor_in_range :: "int \<Rightarrow> bool" where
  "motor_in_range index \<longleftrightarrow> \<not> (index < kVexMotor_1 \<or> index \<ge> kVexMotorNum)"

abbreviation motor_at :: "motor_state \<Rightarrow> int \<Rightarrow> vexMotor" where
  "motor_at s index \<equiv> vexMotors s ! nat index"

definition motor_update :: "int \<Rightarrow> (vexMotor \<Rightarrow> vexMotor) \<Rightarrow> motor_state \<Rightarrow> motor_state" where
  "motor_update index f s = s\<lparr>vexMotors := (vexMotors s)[nat index := f (motor_at s index)]\<rparr>"

section \<open>Commands\<close>

definition vexMotorSet :: "int \<Rightarrow> int \<Rightarrow> motor_state \<Rightarrow> motor_state" where
  "vexMotorSet index v s =
     (if index < kVexMotor_1 \<or> index \<ge> kVexMotorNum then s
      else let v = (if v > 127 then 127 else if v < - 127 then - 127 else v)
           in motor_update index (\<lambda>m. m\<lparr>motor_value := v\<rparr>) s)"

definition vexMotorGet :: "int \<Rightarrow> motor_state \<Rightarrow> int" where
  "vexMotorGet index s =
     (if index < kVexMotor_1 \<or> index \<ge> kVexMotorNum then 0 else motor_value (motor_at s index))"

definition vexMotorStopAll :: "motor_state \<Rightarrow> motor_state" where
  "vexMotorStopAll s = fold (\<lambda>i. vexMotorSet i 0) [kVexMotor_1..kVexMotorNum - 1] s"

definition vexMotorTypeSet :: "int \<Rightarrow> tVexMotorType \<Rightarrow> motor_state \<Rightarrow> motor_state" where
  "vexMotorTypeSet index t s =
     (if index < kVexMotor_1 \<or> index \<ge> kVexMotorNum then s
      else motor_update index (\<lambda>m. m\<lparr>motor_type := t\<rparr>) s)"

definition vexMotorTypeGet :: "int \<Rightarrow> motor_state \<Rightarrow> tVexMotorType" where
  "vexMotorTypeGet index s =
     (if index < kVexMotor_1 \<or> index \<ge> kVexMotorNum then kVexMotorUndefined else motor_type (motor_at s index))"

definition vexMotorDirectionSet :: "int \<Rightarrow> bool \<Rightarrow> motor_state \<Rightarrow> motor_state" where
  "vexMotorDirectionSet index r s =
     (if index < kVexMotor_1 \<or> index \<ge> kVexMotorNum then s
      else motor_update index (\<lambda>m. m\<lparr>reversed := r\<rparr>) s)"

definition vexMotorDirectionGet :: "int \<Rightarrow> motor_state \<Rightarrow> bool" where
  "vexMotorDirectionGet index s =
     (if index < 0 \<or> index \<ge> kVexMotorNum then False else reversed (motor_at s index))"

definition vexMotorPositionGetCallback :: "int \<Rightarrow> nat option \<Rightarrow> int \<Rightarrow> motor_state \<Rightarrow> motor_state" where
  "vexMotorPositionGetCallback index cb p s =
     (if index < kVexMotor_1 \<or> index \<ge> kVexMotorNum then s
      else motor_update index (\<lambda>m. m\<lparr>motorPositionGet := cb, port := p\<rparr>) s)"

definition vexMotorPositionSetCallback :: "int \<Rightarrow> nat option \<Rightarrow> int \<Rightarrow> motor_state \<Rightarrow> motor_state" where
  "vexMotorPositionSetCallback index cb p s =
     (if index < kVexMotor_1 \<or> index \<ge> kVexMotorNum then s
      else motor_update index (\<lambda>m. m\<lparr>motorPositionSet := cb, port := p\<rparr>) s)"

definition vexMotorEncoderIdCallback :: "int \<Rightarrow> nat option \<Rightarrow> int \<Rightarrow> motor_state \<Rightarrow> motor_state" where
  "vexMotorEncoderIdCallback index cb p s =
     (if index < kVexMotor_1 \<or> index \<ge> kVexMotorNum then s
      else motor_update index (\<lambda>m. m\<lparr>getEncoderId := cb, port := p\<rparr>) s)"

section \<open>Positions\<close>

text \<open>
  What the callbacks do to the world \<open>'w\<close> they read and write. Negating the least 32-bit integer is
  undefined.
\<close>

record 'w position_env =
  position_get :: "nat \<Rightarrow> int \<Rightarrow> 'w \<Rightarrow> int"
  position_set :: "nat \<Rightarrow> int \<Rightarrow> int \<Rightarrow> 'w \<Rightarrow> 'w"
  encoder_id :: "nat \<Rightarrow> int \<Rightarrow> 'w \<Rightarrow> int"

definition neg32 :: "int \<Rightarrow> int option" where
  "neg32 x = (if x = - 2147483648 then None else Some (- x))"

definition vexMotorPositionSet :: "'w position_env \<Rightarrow> int \<Rightarrow> int \<Rightarrow> motor_state \<Rightarrow> 'w \<Rightarrow> 'w option" where
  "vexMotorPositionSet env index v s w =
     (if index < kVexMotor_1 \<or> index \<ge> kVexMotorNum then Some w
      else case motorPositionSet (motor_at s index) of
        None \<Rightarrow> Some w
      | Some cb \<Rightarrow> do {
          v \<leftarrow> (if motor_type (motor_at s index) = kVexMotor269 then neg32 v else Some v);
          v \<leftarrow> (if \<not> reversed (motor_at s index) then neg32 v else Some v);
          Some (position_set env cb (port (motor_at s index)) v w)
        })"

definition vexMotorPositionGet :: "'w position_env \<Rightarrow> int \<Rightarrow> motor_state \<Rightarrow> 'w \<Rightarrow> int option" where
  "vexMotorPositionGet env index s w =
     (if index < kVexMotor_1 \<or> index \<ge> kVexMotorNum then Some 0
      else case motorPositionGet (motor_at s index) of
        None \<Rightarrow> Some 0
      | Some cb \<Rightarrow> do {
          let position = position_get env cb (port (motor_at s index)) w;
          position \<leftarrow> (if motor_type (motor_at s index) = kVexMotor269 then neg32 position else Some position);
          (if \<not> reversed (motor_at s index) then Some position else neg32 position)
        })"

definition vexMotorEncoderIdGet :: "'w position_env \<Rightarrow> int \<Rightarrow> motor_state \<Rightarrow> 'w \<Rightarrow> int" where
  "vexMotorEncoderIdGet env index s w =
     (if index < kVexMotor_1 \<or> index \<ge> kVexMotorNum then - 1
      else case getEncoderId (motor_at s index) of
        None \<Rightarrow> - 1
      | Some cb \<Rightarrow> encoder_id env cb (port (motor_at s index)) w)"

section \<open>The H-bridges\<close>

text \<open>The writes of \<open>_vexMotorPwmSet_0\<close> and \<open>_vexMotorPwmSet_9\<close>, in order; \<open>timer\<close> tells whether the timer is set.\<close>

definition vexMotorPwmSet_0 :: "bool \<Rightarrow> int \<Rightarrow> pwm_write list" where
  "vexMotorPwmSet_0 timer v =
     (if \<not> timer then []
      else if v > 0 then
        [WReg CCR2 0, ClearPad VEX_EBL_T0_N_PIN, SetPad VEX_EBL_T0_P_PIN, WReg CCR1 (v AND 0x7F)]
      else if v < 0 then
        [WReg CCR1 0, ClearPad VEX_EBL_T0_P_PIN, SetPad VEX_EBL_T0_N_PIN, WReg CCR2 ((- v) AND 0x7F)]
      else
        [WReg CCR1 0, WReg CCR2 0, ClearPad VEX_EBL_T0_N_PIN, ClearPad VEX_EBL_T0_P_PIN])"

definition vexMotorPwmSet_9 :: "bool \<Rightarrow> int \<Rightarrow> pwm_write list" where
  "vexMotorPwmSet_9 timer v =
     (if \<not> timer then []
      else if v > 0 then
        [WReg CCR4 0, ClearPad VEX_EBL_T9_N_PIN, SetPad VEX_EBL_T9_P_PIN, WReg CCR3 (v AND 0x7F)]
      else if v < 0 then
        [WReg CCR3 0, ClearPad VEX_EBL_T9_P_PIN, SetPad VEX_EBL_T9_N_PIN, WReg CCR4 ((- v) AND 0x7F)]
      else
        [WReg CCR3 0, WReg CCR4 0, ClearPad VEX_EBL_T9_N_PIN, ClearPad VEX_EBL_T9_P_PIN])"

text \<open>What the handler does with one motor: the value it drives next, and the writes.\<close>

definition bridge_step :: "(int \<Rightarrow> pwm_write list) \<Rightarrow> int \<Rightarrow> int \<Rightarrow> int \<times> pwm_write list" where
  "bridge_step pwm_set cur new =
     (if cur \<noteq> new then
        (if new = 0 then (0, pwm_set 0)
         else if new > 0 then
           (if cur \<ge> 0 then (new, pwm_set new) else (0, pwm_set 0))
         else
           (if cur \<le> 0 then (new, pwm_set new) else (0, pwm_set 0)))
      else (cur, []))"

definition motor_command :: "vexMotor \<Rightarrow> int" where
  "motor_command m = (if \<not> reversed m then motor_value m else i16 (- motor_value m))"

text \<open>The interrupt handler: the register writes it makes, and the state it leaves.\<close>

definition TIM4_IRQHandler :: "motor_state \<Rightarrow> pwm_write list \<times> motor_state" where
  "TIM4_IRQHandler s =
     (let new0 = motor_command (motor_at s kVexMotor_1);
          (cur0, w0) = bridge_step (vexMotorPwmSet_0 (PwmTimer s)) (m0_cur_value s) new0;
          new9 = motor_command (motor_at s kVexMotor_10);
          (cur9, w9) = bridge_step (vexMotorPwmSet_9 (PwmTimer s)) (m9_cur_value s) new9;
          ws = WReg SR 0 # w0 @ w9
      in (ws, s\<lparr>m0_cur_value := cur0, m0_new_value := new0, m9_cur_value := cur9, m9_new_value := new9,
                hw := fold pwm_exec ws (hw s)\<rparr>))"

text \<open>
  Initialisation: the timer registers and the enable pads. The clock gates, the vector and the pad
  modes are set by calls of the hardware layer and are not part of the state.
\<close>

definition pwm_init_writes :: "pwm_write list" where
  "pwm_init_writes =
     [WReg CR1 0, WReg DIER 0, WReg SR 0, WReg PSC 0x1D8, WReg ARR 0x7E, WReg CR2 0,
      WReg CCMR1 (0x0008 OR 0x0040 OR 0x0020 OR 0x0800 OR 0x4000 OR 0x2000),
      WReg CCMR2 (0x0008 OR 0x0040 OR 0x0020 OR 0x0800 OR 0x4000 OR 0x2000),
      WReg CCER (0x0002 OR 0x0020 OR 0x0200 OR 0x2000),
      WReg CCER ((0x0002 OR 0x0020 OR 0x0200 OR 0x2000) OR (0x0001 OR 0x0010 OR 0x0100 OR 0x1000)),
      WReg CCR1 0, WReg CCR2 0, WReg CCR3 0, WReg CCR4 0,
      WReg CR1 (0x0080 OR 0x0001),
      ClearPad VEX_EBL_T0_N_PIN, ClearPad VEX_EBL_T0_P_PIN, ClearPad VEX_EBL_T9_N_PIN, ClearPad VEX_EBL_T9_P_PIN,
      WReg DIER 0x0001, WReg SR 0]"

definition vexMotorPwmInit :: "motor_state \<Rightarrow> motor_state" where
  "vexMotorPwmInit s = s\<lparr>PwmTimer := True, hw := fold pwm_exec pwm_init_writes (hw s)\<rparr>"

definition vexMotorInit :: "motor_state \<Rightarrow> motor_state" where
  "vexMotorInit s = vexMotorPwmInit
     (fold (\<lambda>i. motor_update i (\<lambda>m. m\<lparr>motor_value := 0, motor_type := kVexMotorUndefined, reversed := False,
        motorPositionGet := None, motorPositionSet := None\<rparr>)) [kVexMotor_1..kVexMotorNum - 1] s)"

section \<open>The driver as a transition system\<close>

text \<open>Any thread may call the commands between any two interrupts.\<close>

inductive motor_step :: "motor_state \<Rightarrow> motor_state \<Rightarrow> bool" where
  step_set: "motor_step s (vexMotorSet i v s)"
| step_stop: "motor_step s (vexMotorStopAll s)"
| step_type: "motor_step s (vexMotorTypeSet i t s)"
| step_direction: "motor_step s (vexMotorDirectionSet i r s)"
| step_get_cb: "motor_step s (vexMotorPositionGetCallback i cb p s)"
| step_set_cb: "motor_step s (vexMotorPositionSetCallback i cb p s)"
| step_id_cb: "motor_step s (vexMotorEncoderIdCallback i cb p s)"
| step_irq: "motor_step s (snd (TIM4_IRQHandler s))"

inductive_cases motor_stepE: "motor_step s s'"

text \<open>Memory at reset: the table has its ten entries, the driven values are zero.\<close>

definition motor_reset :: "motor_state \<Rightarrow> bool" where
  "motor_reset s \<longleftrightarrow> length (vexMotors s) = 10 \<and> m0_cur_value s = 0 \<and> m9_cur_value s = 0"

inductive motor_reachable :: "motor_state \<Rightarrow> bool" where
  reach_init: "motor_reset s \<Longrightarrow> motor_reachable (vexMotorInit s)"
| reach_step: "motor_reachable s \<Longrightarrow> motor_step s s' \<Longrightarrow> motor_reachable s'"

section \<open>Interface: an H-bridge\<close>

text \<open>A predicate on every hardware state a list of writes goes through, the first and the last included.\<close>

fun all_states :: "(pwm_hw \<Rightarrow> bool) \<Rightarrow> pwm_write list \<Rightarrow> pwm_hw \<Rightarrow> bool" where
  "all_states P [] h = P h"
| "all_states P (w # ws) h = (P h \<and> all_states P ws (pwm_exec w h))"

lemma all_states_append:
  "all_states P (xs @ ys) h \<longleftrightarrow> all_states P xs h \<and> all_states P ys (fold pwm_exec xs h)"
proof (induction xs arbitrary: h)
  case Nil
  then show ?case by (cases ys) auto
qed simp

text \<open>What the two enable pads and the two compare registers of a bridge are when it drives \<open>cur\<close>.\<close>

definition bridge_ok :: "nat \<Rightarrow> nat \<Rightarrow> pwm_reg \<Rightarrow> pwm_reg \<Rightarrow> pwm_hw \<Rightarrow> int \<Rightarrow> bool" where
  "bridge_ok pp pn rp rn h cur \<longleftrightarrow> \<bar>cur\<bar> \<le> 127 \<and> (pads h pp \<longleftrightarrow> cur > 0) \<and> (pads h pn \<longleftrightarrow> cur < 0) \<and>
     regs h rp = max cur 0 \<and> regs h rn = max (- cur) 0"

fun write_within :: "nat set \<Rightarrow> pwm_reg set \<Rightarrow> pwm_write \<Rightarrow> bool" where
  "write_within P R (WReg r v) = (r \<in> R)"
| "write_within P R (SetPad p) = (p \<in> P)"
| "write_within P R (ClearPad p) = (p \<in> P)"

lemma exec_outside:
  assumes "\<forall>w\<in>set ws. write_within P R w"
  shows "p \<notin> P \<Longrightarrow> pads (fold pwm_exec ws h) p = pads h p"
    and "r \<notin> R \<Longrightarrow> regs (fold pwm_exec ws h) r = regs h r"
proof -
  have "(p \<notin> P \<longrightarrow> pads (fold pwm_exec ws h) p = pads h p) \<and> (r \<notin> R \<longrightarrow> regs (fold pwm_exec ws h) r = regs h r)"
    using assms
  proof (induction ws arbitrary: h)
    case (Cons w ws)
    then show ?case by (cases w) auto
  qed simp
  then show "p \<notin> P \<Longrightarrow> pads (fold pwm_exec ws h) p = pads h p"
    and "r \<notin> R \<Longrightarrow> regs (fold pwm_exec ws h) r = regs h r" by auto
qed

lemma states_outside:
  assumes "\<forall>w\<in>set ws. write_within P R w" "p \<notin> P" "q \<notin> P"
  shows "all_states (\<lambda>h. \<not> (pads h p \<and> pads h q)) ws h \<longleftrightarrow> \<not> (pads h p \<and> pads h q)"
  using assms
proof (induction ws arbitrary: h)
  case (Cons w ws)
  then show ?case by (cases w) auto
qed simp

locale h_bridge =
  fixes pwm_set :: "int \<Rightarrow> pwm_write list"
    and pp pn :: nat
    and rp rn :: pwm_reg
  assumes set_pos: "0 < v \<Longrightarrow> v \<le> 127 \<Longrightarrow> pwm_set v = [WReg rn 0, ClearPad pn, SetPad pp, WReg rp v]"
    and set_neg: "v < 0 \<Longrightarrow> - 127 \<le> v \<Longrightarrow> pwm_set v = [WReg rp 0, ClearPad pp, SetPad pn, WReg rn (- v)]"
    and set_zero: "pwm_set 0 = [WReg rp 0, WReg rn 0, ClearPad pn, ClearPad pp]"
    and pins: "pp \<noteq> pn"
    and compare_regs: "rp \<noteq> rn"
begin

lemma set_within:
  assumes "\<bar>v\<bar> \<le> 127"
  shows "\<forall>w\<in>set (pwm_set v). write_within {pp, pn} {rp, rn} w"
proof -
  consider "0 < v" | "v < 0" | "v = 0" by linarith
  then show ?thesis using assms by cases (simp_all add: set_pos set_neg set_zero)
qed

lemma bridge_step_next:
  assumes "\<bar>cur\<bar> \<le> 127" "\<bar>new\<bar> \<le> 127"
  shows "fst (bridge_step pwm_set cur new) = (if cur * new \<ge> 0 then new else 0) \<and>
     snd (bridge_step pwm_set cur new) = (if cur = new then [] else pwm_set (fst (bridge_step pwm_set cur new)))"
  by (auto simp: bridge_step_def zero_le_mult_iff not_le mult_less_0_iff)

lemma step_drives:
  assumes "bridge_ok pp pn rp rn h cur" "\<bar>new\<bar> \<le> 127"
  shows "bridge_ok pp pn rp rn (fold pwm_exec (snd (bridge_step pwm_set cur new)) h)
     (fst (bridge_step pwm_set cur new))"
proof -
  have "\<bar>v\<bar> \<le> 127 \<Longrightarrow> bridge_ok pp pn rp rn (fold pwm_exec (pwm_set v) h) v" for v
    using pins compare_regs not_sym [OF pins] not_sym [OF compare_regs]
    by (cases "0 < v"; cases "v < 0") (auto simp: set_pos set_neg set_zero bridge_ok_def)
  moreover have "\<bar>cur\<bar> \<le> 127" using assms(1) by (simp add: bridge_ok_def)
  ultimately show ?thesis
    using assms bridge_step_next [of cur new] by (cases "cur = new") (auto simp: bridge_step_def)
qed

lemma step_never_both:
  assumes "bridge_ok pp pn rp rn h cur" "\<bar>new\<bar> \<le> 127"
  shows "all_states (\<lambda>h. \<not> (pads h pp \<and> pads h pn)) (snd (bridge_step pwm_set cur new)) h"
proof -
  have "\<bar>v\<bar> \<le> 127 \<Longrightarrow> all_states (\<lambda>h. \<not> (pads h pp \<and> pads h pn)) (pwm_set v) h" for v
    using assms(1) pins not_sym [OF pins]
    by (cases "0 < v"; cases "v < 0") (auto simp: set_pos set_neg set_zero bridge_ok_def)
  moreover have "\<bar>cur\<bar> \<le> 127" "\<not> (pads h pp \<and> pads h pn)" using assms(1) by (auto simp: bridge_ok_def)
  ultimately show ?thesis
    using assms(2) bridge_step_next [of cur new] by (cases "cur = new") (auto simp: bridge_step_def)
qed

lemma step_within:
  assumes "\<bar>cur\<bar> \<le> 127" "\<bar>new\<bar> \<le> 127"
  shows "\<forall>w\<in>set (snd (bridge_step pwm_set cur new)). write_within {pp, pn} {rp, rn} w"
  using set_within [of "fst (bridge_step pwm_set cur new)"] bridge_step_next [OF assms] assms
  by (cases "cur = new") auto

lemma two_steps_reach:
  assumes "\<bar>cur\<bar> \<le> 127" "\<bar>new\<bar> \<le> 127"
  shows "fst (bridge_step pwm_set (fst (bridge_step pwm_set cur new)) new) = new"
  using assms bridge_step_next [of cur new] bridge_step_next [of new new] bridge_step_next [of 0 new]
  by (auto simp: bridge_step_def)

end

lemma and_127: "0 \<le> v \<Longrightarrow> v \<le> 127 \<Longrightarrow> v AND (127 :: int) = v"
  using take_bit_eq_mask [of 7 v] take_bit_int_eq_self [of v 7] by (simp add: mask_eq_exp_minus_1)

interpretation bridge0: h_bridge "vexMotorPwmSet_0 True" VEX_EBL_T0_P_PIN VEX_EBL_T0_N_PIN CCR1 CCR2
  by unfold_locales (simp_all add: vexMotorPwmSet_0_def and_127 pin_defs)

interpretation bridge9: h_bridge "vexMotorPwmSet_9 True" VEX_EBL_T9_P_PIN VEX_EBL_T9_N_PIN CCR3 CCR4
  by unfold_locales (simp_all add: vexMotorPwmSet_9_def and_127 pin_defs)

section \<open>Invariant\<close>

definition motors_ok :: "vexMotor list \<Rightarrow> bool" where
  "motors_ok ms \<longleftrightarrow> length ms = 10 \<and> (\<forall>m\<in>set ms. \<bar>motor_value m\<bar> \<le> 127)"

lemma motors_ok_get: "motors_ok (vexMotors ms) \<Longrightarrow> 0 \<le> i \<Longrightarrow> i < 10 \<Longrightarrow> \<bar>vexMotorGet i ms\<bar> \<le> 127"
  by (simp add: motors_ok_def vexMotorGet_def motor_index_defs)

definition bridges_ok :: "motor_state \<Rightarrow> bool" where
  "bridges_ok s \<longleftrightarrow> PwmTimer s \<and>
     bridge_ok VEX_EBL_T0_P_PIN VEX_EBL_T0_N_PIN CCR1 CCR2 (hw s) (m0_cur_value s) \<and>
     bridge_ok VEX_EBL_T9_P_PIN VEX_EBL_T9_N_PIN CCR3 CCR4 (hw s) (m9_cur_value s)"

definition motor_inv :: "motor_state \<Rightarrow> bool" where
  "motor_inv s \<longleftrightarrow> motors_ok (vexMotors s) \<and> bridges_ok s"

lemma motors_ok_update:
  assumes "motors_ok (vexMotors s)" "\<And>m. \<bar>motor_value m\<bar> \<le> 127 \<Longrightarrow> \<bar>motor_value (f m)\<bar> \<le> 127" "0 \<le> i" "i < 10"
  shows "motors_ok (vexMotors (motor_update i f s))"
proof -
  have "motor_at s i \<in> set (vexMotors s)" using assms(1,3,4) by (simp add: motors_ok_def nat_less_iff)
  then have "\<bar>motor_value (f (motor_at s i))\<bar> \<le> 127" using assms(1,2) by (simp add: motors_ok_def)
  then show ?thesis using assms(1)
    by (auto simp: motors_ok_def motor_update_def dest!: set_update_subset_insert [THEN subsetD])
qed

lemma motor_update_keeps [simp]:
  "PwmTimer (motor_update i f s) = PwmTimer s" "hw (motor_update i f s) = hw s"
  "m0_cur_value (motor_update i f s) = m0_cur_value s" "m9_cur_value (motor_update i f s) = m9_cur_value s"
  "m0_new_value (motor_update i f s) = m0_new_value s" "m9_new_value (motor_update i f s) = m9_new_value s"
  by (simp_all add: motor_update_def)

lemma bridges_ok_update [simp]: "bridges_ok (motor_update i f s) = bridges_ok s"
  by (simp add: bridges_ok_def)

text \<open>The commands touch the table of motors only.\<close>

definition table_only :: "motor_state \<Rightarrow> motor_state \<Rightarrow> bool" where
  "table_only s s' \<longleftrightarrow> s' = s\<lparr>vexMotors := vexMotors s'\<rparr>"

lemma table_only_update [simp]: "table_only s (motor_update i f s)"
  by (simp add: table_only_def motor_update_def)

lemma table_only_refl [simp]: "table_only s s"
  by (simp add: table_only_def)

lemma table_only_trans: "table_only a b \<Longrightarrow> table_only b c \<Longrightarrow> table_only a c"
  unfolding table_only_def by (metis motor_state.surjective motor_state.update_convs(1))

lemma table_onlyD:
  assumes "table_only s s'"
  shows "PwmTimer s' = PwmTimer s" "hw s' = hw s" "m0_cur_value s' = m0_cur_value s" "m9_cur_value s' = m9_cur_value s"
proof -
  obtain ms where "s' = s\<lparr>vexMotors := ms\<rparr>" using assms by (auto simp: table_only_def)
  then show "PwmTimer s' = PwmTimer s" "hw s' = hw s" "m0_cur_value s' = m0_cur_value s" "m9_cur_value s' = m9_cur_value s"
    by simp_all
qed

lemma set_table: "table_only s (vexMotorSet i v s)"
  "motors_ok (vexMotors s) \<Longrightarrow> motors_ok (vexMotors (vexMotorSet i v s))"
  by (auto simp: vexMotorSet_def motor_index_defs Let_def intro!: motors_ok_update)

lemma fold_table:
  assumes "\<And>i s. i \<in> set is \<Longrightarrow> table_only s (g i s)"
    and "\<And>i s. i \<in> set is \<Longrightarrow> motors_ok (vexMotors s) \<Longrightarrow> motors_ok (vexMotors (g i s))"
  shows "table_only s (fold g is s) \<and> (motors_ok (vexMotors s) \<longrightarrow> motors_ok (vexMotors (fold g is s)))"
  using assms
proof (induction "is" arbitrary: s)
  case (Cons i js)
  then have "table_only s (g i s)" "table_only (g i s) (fold g js (g i s))" by simp_all
  with Cons show ?case by (auto intro: table_only_trans)
qed simp

lemma command_le:
  assumes "motors_ok (vexMotors s)" "0 \<le> i" "i < 10"
  shows "\<bar>motor_command (motor_at s i)\<bar> \<le> 127"
proof -
  have "motor_at s i \<in> set (vexMotors s)" using assms by (simp add: motors_ok_def nat_less_iff)
  then show ?thesis using assms(1) by (auto simp: motors_ok_def motor_command_def i16_id)
qed

text \<open>The interrupt, bridge by bridge.\<close>

lemma irq_bridges:
  assumes "motor_inv s"
  defines "s' \<equiv> snd (TIM4_IRQHandler s)"
  shows "motor_inv s' \<and>
     m0_cur_value s' = fst (bridge_step (vexMotorPwmSet_0 True) (m0_cur_value s) (motor_command (motor_at s 0))) \<and>
     m9_cur_value s' = fst (bridge_step (vexMotorPwmSet_9 True) (m9_cur_value s) (motor_command (motor_at s 9))) \<and>
     vexMotors s' = vexMotors s"
proof -
  let ?c0 = "motor_command (motor_at s 0)" and ?c9 = "motor_command (motor_at s 9)"
  let ?b0 = "bridge_step (vexMotorPwmSet_0 True) (m0_cur_value s) ?c0"
  let ?b9 = "bridge_step (vexMotorPwmSet_9 True) (m9_cur_value s) ?c9"
  let ?h0 = "pwm_exec (WReg SR 0) (hw s)" and ?h1 = "fold pwm_exec (snd ?b0) (pwm_exec (WReg SR 0) (hw s))"
  let ?h2 = "fold pwm_exec (snd ?b9) ?h1"
  have t: "PwmTimer s" and c: "\<bar>?c0\<bar> \<le> 127" "\<bar>?c9\<bar> \<le> 127"
    using assms command_le [of s 0] command_le [of s 9] by (simp_all add: motor_inv_def bridges_ok_def)
  have b: "bridge_ok VEX_EBL_T0_P_PIN VEX_EBL_T0_N_PIN CCR1 CCR2 ?h0 (m0_cur_value s)"
      "bridge_ok VEX_EBL_T9_P_PIN VEX_EBL_T9_N_PIN CCR3 CCR4 ?h0 (m9_cur_value s)"
    using assms by (simp_all add: motor_inv_def bridges_ok_def bridge_ok_def)
  have le: "\<bar>m0_cur_value s\<bar> \<le> 127" "\<bar>m9_cur_value s\<bar> \<le> 127" using b by (simp_all add: bridge_ok_def)
  have "bridge_ok VEX_EBL_T9_P_PIN VEX_EBL_T9_N_PIN CCR3 CCR4 ?h1 (m9_cur_value s)"
    using b(2) exec_outside [OF bridge0.step_within [OF le(1) c(1)]] by (simp add: bridge_ok_def pin_defs)
  from bridge9.step_drives [OF this c(2)]
  have 9: "bridge_ok VEX_EBL_T9_P_PIN VEX_EBL_T9_N_PIN CCR3 CCR4 ?h2 (fst ?b9)" .
  have 0: "bridge_ok VEX_EBL_T0_P_PIN VEX_EBL_T0_N_PIN CCR1 CCR2 ?h2 (fst ?b0)"
    using bridge0.step_drives [OF b(1) c(1)] exec_outside [OF bridge9.step_within [OF le(2) c(2)]]
    by (simp add: bridge_ok_def pin_defs)
  show ?thesis
    using assms 0 9 t
    by (simp add: s'_def TIM4_IRQHandler_def motor_index_defs Let_def split_def motor_inv_def bridges_ok_def)
qed

lemma irq_never_both:
  assumes "motor_inv s"
  shows "all_states (\<lambda>h. \<not> (pads h VEX_EBL_T0_P_PIN \<and> pads h VEX_EBL_T0_N_PIN)) (fst (TIM4_IRQHandler s)) (hw s)"
    and "all_states (\<lambda>h. \<not> (pads h VEX_EBL_T9_P_PIN \<and> pads h VEX_EBL_T9_N_PIN)) (fst (TIM4_IRQHandler s)) (hw s)"
proof -
  let ?c0 = "motor_command (motor_at s 0)" and ?c9 = "motor_command (motor_at s 9)"
  let ?b0 = "bridge_step (vexMotorPwmSet_0 True) (m0_cur_value s) ?c0"
  let ?b9 = "bridge_step (vexMotorPwmSet_9 True) (m9_cur_value s) ?c9"
  let ?h0 = "pwm_exec (WReg SR 0) (hw s)" and ?h1 = "fold pwm_exec (snd ?b0) (pwm_exec (WReg SR 0) (hw s))"
  have t: "PwmTimer s" and c: "\<bar>?c0\<bar> \<le> 127" "\<bar>?c9\<bar> \<le> 127"
    using assms command_le [of s 0] command_le [of s 9] by (simp_all add: motor_inv_def bridges_ok_def)
  have b: "bridge_ok VEX_EBL_T0_P_PIN VEX_EBL_T0_N_PIN CCR1 CCR2 ?h0 (m0_cur_value s)"
      "bridge_ok VEX_EBL_T9_P_PIN VEX_EBL_T9_N_PIN CCR3 CCR4 ?h0 (m9_cur_value s)"
    using assms by (simp_all add: motor_inv_def bridges_ok_def bridge_ok_def)
  have le: "\<bar>m0_cur_value s\<bar> \<le> 127" "\<bar>m9_cur_value s\<bar> \<le> 127" using b by (simp_all add: bridge_ok_def)
  have ws: "fst (TIM4_IRQHandler s) = WReg SR 0 # snd ?b0 @ snd ?b9"
    by (simp add: TIM4_IRQHandler_def motor_index_defs Let_def split_def t)
  note w0 = bridge0.step_within [OF le(1) c(1)] and w9 = bridge9.step_within [OF le(2) c(2)]
  have b9: "bridge_ok VEX_EBL_T9_P_PIN VEX_EBL_T9_N_PIN CCR3 CCR4 ?h1 (m9_cur_value s)"
    using b(2) exec_outside [OF w0] by (simp add: bridge_ok_def pin_defs)
  have 0: "bridge_ok VEX_EBL_T0_P_PIN VEX_EBL_T0_N_PIN CCR1 CCR2 ?h1 (fst ?b0)"
    using bridge0.step_drives [OF b(1) c(1)] .
  show "all_states (\<lambda>h. \<not> (pads h VEX_EBL_T0_P_PIN \<and> pads h VEX_EBL_T0_N_PIN)) (fst (TIM4_IRQHandler s)) (hw s)"
    using bridge0.step_never_both [OF b(1) c(1)] 0 b(1)
    unfolding ws all_states.simps all_states_append
    by (subst states_outside [OF w9]) (auto simp: bridge_ok_def pin_defs)
  show "all_states (\<lambda>h. \<not> (pads h VEX_EBL_T9_P_PIN \<and> pads h VEX_EBL_T9_N_PIN)) (fst (TIM4_IRQHandler s)) (hw s)"
    using bridge9.step_never_both [OF b9 c(2)] b(2)
    unfolding ws all_states.simps all_states_append
    by (subst states_outside [OF w0]) (auto simp: bridge_ok_def pin_defs)
qed

text \<open>Initialisation.\<close>

lemma init_writes_bridges:
  "bridge_ok VEX_EBL_T0_P_PIN VEX_EBL_T0_N_PIN CCR1 CCR2 (fold pwm_exec pwm_init_writes h) 0"
  "bridge_ok VEX_EBL_T9_P_PIN VEX_EBL_T9_N_PIN CCR3 CCR4 (fold pwm_exec pwm_init_writes h) 0"
  by (simp_all add: pwm_init_writes_def bridge_ok_def pin_defs)

lemma upto_10: "[0..9::int] = [0,1,2,3,4,5,6,7,8,9]"
  by (simp add: upto.simps)

lemma init_table:
  assumes "length (vexMotors s) = 10"
  shows "motors_ok (vexMotors (fold (\<lambda>i. motor_update i (\<lambda>m. m\<lparr>motor_value := 0, motor_type := kVexMotorUndefined,
     reversed := False, motorPositionGet := None, motorPositionSet := None\<rparr>)) [0..9] s))"
proof -
  obtain a b c d e f g h i j where "vexMotors s = [a,b,c,d,e,f,g,h,i,j]"
    using assms by (auto simp: numeral_eq_Suc length_Suc_conv)
  then show ?thesis by (simp add: upto_10 motor_update_def motors_ok_def)
qed

lemma motor_inv_init:
  assumes "motor_reset s"
  shows "motor_inv (vexMotorInit s)"
proof -
  let ?t = "fold (\<lambda>i. motor_update i (\<lambda>m. m\<lparr>motor_value := 0, motor_type := kVexMotorUndefined,
     reversed := False, motorPositionGet := None, motorPositionSet := None\<rparr>)) [0..9] s"
  have "m0_cur_value ?t = m0_cur_value s \<and> m9_cur_value ?t = m9_cur_value s"
    by (simp add: upto_10)
  then show ?thesis
    using init_table [of s] init_writes_bridges [of "hw ?t"] assms
    by (simp add: motor_inv_def vexMotorInit_def vexMotorPwmInit_def motor_index_defs bridges_ok_def motor_reset_def)
qed

lemma stop_table: "table_only s (vexMotorStopAll s) \<and> (motors_ok (vexMotors s) \<longrightarrow> motors_ok (vexMotors (vexMotorStopAll s)))"
  unfolding vexMotorStopAll_def by (intro fold_table set_table)

lemma step_cases:
  assumes "motor_step s s'"
  shows "table_only s s' \<and> (motors_ok (vexMotors s) \<longrightarrow> motors_ok (vexMotors s')) \<or> s' = snd (TIM4_IRQHandler s)"
  using assms
proof (cases rule: motor_step.cases)
  case (step_set i v)
  then show ?thesis using set_table by blast
next
  case step_stop
  then show ?thesis using stop_table by blast
qed (auto simp: vexMotorTypeSet_def vexMotorDirectionSet_def vexMotorPositionGetCallback_def
    vexMotorPositionSetCallback_def vexMotorEncoderIdCallback_def motor_index_defs intro!: motors_ok_update)

lemma motor_inv_step:
  assumes "motor_inv s" "motor_step s s'"
  shows "motor_inv s'"
  using step_cases [OF assms(2)]
proof
  assume a: "table_only s s' \<and> (motors_ok (vexMotors s) \<longrightarrow> motors_ok (vexMotors s'))"
  with assms(1) table_onlyD [of s s'] show ?thesis by (simp add: motor_inv_def bridges_ok_def)
next
  assume "s' = snd (TIM4_IRQHandler s)"
  with irq_bridges [OF assms(1)] show ?thesis by simp
qed

lemma reachable_inv: "motor_reachable s \<Longrightarrow> motor_inv s"
  by (induction rule: motor_reachable.induct) (auto intro: motor_inv_init motor_inv_step)

section \<open>Properties\<close>

text \<open>A reachable state: port 1 driven forward, then commanded backward.\<close>

definition motor_memory :: motor_state where
  "motor_memory = \<lparr>vexMotors = replicate 10 \<lparr>motor_value = 55, motor_type = kVexMotor393T, reversed = True,
       motorPositionGet = Some 3, motorPositionSet = None, getEncoderId = None, port = 0\<rparr>,
     PwmTimer = False, m0_cur_value = 0, m0_new_value = 0, m9_cur_value = 0, m9_new_value = 0,
     hw = \<lparr>regs = (\<lambda>_. 99), pads = (\<lambda>_. True)\<rparr>\<rparr>"

definition forward_then_back :: motor_state where
  "forward_then_back = vexMotorSet 0 (- 300) (snd (TIM4_IRQHandler (vexMotorSet 0 90 (vexMotorInit motor_memory))))"

lemma motor_memory_reachable: "motor_reachable (vexMotorInit motor_memory)"
  by (rule reach_init) (simp add: motor_reset_def motor_memory_def)

lemma forward_then_back_reachable: "motor_reachable forward_then_back"
  unfolding forward_then_back_def
  by (rule reach_step [OF reach_step [OF reach_step [OF motor_memory_reachable step_set] step_irq] step_set])

text \<open>C9: The H-bridges never short the supply: whatever motor commands, reversals and interrupts have happened
  since initialisation, in every state the timer interrupt takes the hardware through, write by write, the two
  enable pads of port 1 are not both set, nor those of port 10.\<close>

theorem motor_bridges_never_shoot_through:
  assumes "motor_reachable s"
  shows "all_states (\<lambda>h. \<not> (pads h VEX_EBL_T0_P_PIN \<and> pads h VEX_EBL_T0_N_PIN)) (fst (TIM4_IRQHandler s)) (hw s) \<and>
         all_states (\<lambda>h. \<not> (pads h VEX_EBL_T9_P_PIN \<and> pads h VEX_EBL_T9_N_PIN)) (fst (TIM4_IRQHandler s)) (hw s)"
  using irq_never_both [OF reachable_inv [OF assms]] by blast

lemma motor_bridges_never_shoot_through_witness:
  "all_states (\<lambda>h. \<not> (pads h VEX_EBL_T0_P_PIN \<and> pads h VEX_EBL_T0_N_PIN)) (fst (TIM4_IRQHandler forward_then_back)) (hw forward_then_back)"
  using motor_bridges_never_shoot_through [OF forward_then_back_reachable] by blast



text \<open>Two timer interrupts after the last command the hardware drives it: the value driven on port 1 is the
  commanded value, negated if the motor is reversed, its enable pads show the direction and its compare registers
  the magnitude, all within 127; the same for port 10.\<close>

theorem motor_drives_command:
  assumes "motor_reachable s"
  defines "s' \<equiv> snd (TIM4_IRQHandler (snd (TIM4_IRQHandler s)))"
  shows "m0_cur_value s' = motor_command (motor_at s 0) \<and>
         bridge_ok VEX_EBL_T0_P_PIN VEX_EBL_T0_N_PIN CCR1 CCR2 (hw s') (motor_command (motor_at s 0)) \<and>
         m9_cur_value s' = motor_command (motor_at s 9) \<and>
         bridge_ok VEX_EBL_T9_P_PIN VEX_EBL_T9_N_PIN CCR3 CCR4 (hw s') (motor_command (motor_at s 9))"
proof -
  let ?s1 = "snd (TIM4_IRQHandler s)"
  have inv: "motor_inv s" by (rule reachable_inv [OF assms(1)])
  have 1: "motor_inv ?s1" "vexMotors ?s1 = vexMotors s" using irq_bridges [OF inv] by blast+
  have "\<bar>m0_cur_value s\<bar> \<le> 127" "\<bar>m9_cur_value s\<bar> \<le> 127"
    using inv by (simp_all add: motor_inv_def bridges_ok_def bridge_ok_def)
  moreover have "\<bar>motor_command (motor_at s 0)\<bar> \<le> 127" "\<bar>motor_command (motor_at s 9)\<bar> \<le> 127"
    using command_le [of s 0] command_le [of s 9] inv by (simp_all add: motor_inv_def)
  ultimately have "m0_cur_value s' = motor_command (motor_at s 0)" "m9_cur_value s' = motor_command (motor_at s 9)"
    using irq_bridges [OF inv] irq_bridges [OF 1(1)] bridge0.two_steps_reach bridge9.two_steps_reach
    by (simp_all add: s'_def 1(2))
  moreover have "motor_inv s'" using irq_bridges [OF 1(1)] by (simp add: s'_def)
  ultimately show ?thesis by (simp add: motor_inv_def bridges_ok_def)
qed

lemma motor_drives_command_witness:
  "m0_cur_value (snd (TIM4_IRQHandler (snd (TIM4_IRQHandler forward_then_back)))) = - 127"
proof -
  have "motor_command (motor_at forward_then_back 0) = - 127"
    by (simp add: forward_then_back_def vexMotorSet_def vexMotorInit_def vexMotorPwmInit_def motor_index_defs
      motor_update_def TIM4_IRQHandler_def Let_def split_def motor_memory_def upto_10 motor_command_def)
  then show ?thesis using motor_drives_command [OF forward_then_back_reachable] by simp
qed

text \<open>\<open>vexMotorSet\<close> stores the command limited to -127..127: a following \<open>vexMotorGet\<close> of the same port returns
  the limited value, the command of every other port, and everything but the table, is as it was, and an index
  outside the ten ports is ignored and reads as 0.\<close>

theorem vexMotorSet_limits:
  assumes "motors_ok (vexMotors s)"
  shows "(0 \<le> i \<and> i < 10 \<longrightarrow> vexMotorGet i (vexMotorSet i v s) = max (- 127) (min 127 v)) \<and>
         (j \<noteq> i \<longrightarrow> vexMotorGet j (vexMotorSet i v s) = vexMotorGet j s) \<and>
         (i < 0 \<or> 10 \<le> i \<longrightarrow> vexMotorSet i v s = s \<and> vexMotorGet i s = 0) \<and>
         table_only s (vexMotorSet i v s) \<and> motors_ok (vexMotors (vexMotorSet i v s))"
  using assms set_table [of s i v]
  by (auto simp: vexMotorSet_def vexMotorGet_def motor_index_defs Let_def motor_update_def motors_ok_def
    nth_list_update nat_less_iff nat_eq_iff2)

lemma vexMotorSet_limits_witness:
  "vexMotorGet 3 (vexMotorSet 3 1000 (vexMotorInit motor_memory)) = 127"
  using vexMotorSet_limits [of "vexMotorInit motor_memory" 3 1000 0]
    reachable_inv [OF motor_memory_reachable] by (simp add: motor_inv_def)

end
