(* ===== verification/Stm32Flash.thy ===== *)
theory Stm32Flash
  imports Prelude
begin

text \<open>
  The driver of the flash controller, \<open>src/convex/cortex/opt/stm32_flash.c\<close>. The registers of the controller and
  the memory bus are a parameter (\<open>flash_hw\<close>); the locale \<open>flash_controller\<close> states what the documented
  controller does with one page, and the interpretation at the end gives a device that does it.
\<close>

section \<open>Data\<close>

datatype FLASH_Status = FLASH_BUSY | FLASH_ERROR_PG | FLASH_ERROR_WRP | FLASH_COMPLETE | FLASH_TIMEOUT

definition CR_PG_Set :: u32 where "CR_PG_Set = 0x00000001"
definition CR_PG_Reset :: u32 where "CR_PG_Reset = 0x00001FFE"
definition CR_PER_Set :: u32 where "CR_PER_Set = 0x00000002"
definition CR_PER_Reset :: u32 where "CR_PER_Reset = 0x00001FFD"
definition CR_STRT_Set :: u32 where "CR_STRT_Set = 0x00000040"
definition FLASH_KEY1 :: u32 where "FLASH_KEY1 = 0x45670123"
definition FLASH_KEY2 :: u32 where "FLASH_KEY2 = 0xCDEF89AB"
definition EraseTimeout :: nat where "EraseTimeout = 0x000B0000"
definition ProgramTimeout :: nat where "ProgramTimeout = 0x00002000"
definition FLASH_FLAG_BSY :: u32 where "FLASH_FLAG_BSY = 0x00000001"
definition FLASH_FLAG_EOP :: u32 where "FLASH_FLAG_EOP = 0x00000020"
definition FLASH_FLAG_PGERR :: u32 where "FLASH_FLAG_PGERR = 0x00000004"
definition FLASH_FLAG_WRPRTERR :: u32 where "FLASH_FLAG_WRPRTERR = 0x00000010"

lemmas cr_consts = CR_PG_Set_def CR_PG_Reset_def CR_PER_Set_def CR_PER_Reset_def CR_STRT_Set_def
lemmas flag_consts = FLASH_FLAG_BSY_def FLASH_FLAG_EOP_def FLASH_FLAG_PGERR_def FLASH_FLAG_WRPRTERR_def

text \<open>
  The registers and the bus: reading the status register is an event the hardware can react to, so it returns
  the hardware as well. Flash is read by words and programmed by halfwords, at byte addresses.
\<close>

record 'h flash_hw =
  get_SR :: "'h \<Rightarrow> u32 \<times> 'h"
  set_SR :: "u32 \<Rightarrow> 'h \<Rightarrow> 'h"
  get_CR :: "'h \<Rightarrow> u32"
  set_CR :: "u32 \<Rightarrow> 'h \<Rightarrow> 'h"
  set_AR :: "u32 \<Rightarrow> 'h \<Rightarrow> 'h"
  set_KEYR :: "u32 \<Rightarrow> 'h \<Rightarrow> 'h"
  store16 :: "u32 \<Rightarrow> u16 \<Rightarrow> 'h \<Rightarrow> 'h"
  load32 :: "'h \<Rightarrow> u32 \<Rightarrow> u32"

section \<open>Operations\<close>

definition FLASH_GetBank1Status :: "'h flash_hw \<Rightarrow> 'h \<Rightarrow> FLASH_Status \<times> 'h" where
  "FLASH_GetBank1Status hw h =
     (let (sr, h) = get_SR hw h in
      if sr AND FLASH_FLAG_BSY = FLASH_FLAG_BSY then (FLASH_BUSY, h)
      else let (sr, h) = get_SR hw h in
           if sr AND FLASH_FLAG_PGERR \<noteq> 0 then (FLASH_ERROR_PG, h)
           else let (sr, h) = get_SR hw h in
                if sr AND FLASH_FLAG_WRPRTERR \<noteq> 0 then (FLASH_ERROR_WRP, h) else (FLASH_COMPLETE, h))"

fun wait_loop :: "'h flash_hw \<Rightarrow> nat \<Rightarrow> FLASH_Status \<Rightarrow> 'h \<Rightarrow> FLASH_Status \<times> 'h" where
  "wait_loop hw 0 status h = (FLASH_TIMEOUT, h)"
| "wait_loop hw (Suc Timeout) status h =
     (if status = FLASH_BUSY then let (status, h) = FLASH_GetBank1Status hw h in wait_loop hw Timeout status h
      else (status, h))"

definition FLASH_WaitForLastOperation :: "'h flash_hw \<Rightarrow> nat \<Rightarrow> 'h \<Rightarrow> FLASH_Status \<times> 'h" where
  "FLASH_WaitForLastOperation hw Timeout h =
     (let (status, h) = FLASH_GetBank1Status hw h in wait_loop hw Timeout status h)"

definition FLASH_ErasePage :: "'h flash_hw \<Rightarrow> u32 \<Rightarrow> 'h \<Rightarrow> FLASH_Status \<times> 'h" where
  "FLASH_ErasePage hw Page_Address h =
     (let (status, h) = FLASH_WaitForLastOperation hw EraseTimeout h in
      if status = FLASH_COMPLETE then
        let h = set_CR hw (get_CR hw h OR CR_PER_Set) h;
            h = set_AR hw Page_Address h;
            h = set_CR hw (get_CR hw h OR CR_STRT_Set) h;
            (status, h) = FLASH_WaitForLastOperation hw EraseTimeout h
        in (status, set_CR hw (get_CR hw h AND CR_PER_Reset) h)
      else (status, h))"

definition FLASH_ClearFlag :: "'h flash_hw \<Rightarrow> u32 \<Rightarrow> 'h \<Rightarrow> 'h" where
  "FLASH_ClearFlag hw FLASH_FLAG h = set_SR hw FLASH_FLAG h"

definition FLASH_ProgramWord :: "'h flash_hw \<Rightarrow> u32 \<Rightarrow> u32 \<Rightarrow> 'h \<Rightarrow> FLASH_Status \<times> 'h" where
  "FLASH_ProgramWord hw Address Data h =
     (let (status, h) = FLASH_WaitForLastOperation hw ProgramTimeout h in
      if status = FLASH_COMPLETE then
        let h = set_CR hw (get_CR hw h OR CR_PG_Set) h;
            h = store16 hw Address (ucast Data) h;
            (status, h) = FLASH_WaitForLastOperation hw ProgramTimeout h
        in if status = FLASH_COMPLETE then
             let tmp = Address + 2;
                 h = store16 hw tmp (ucast (drop_bit 16 Data)) h;
                 (status, h) = FLASH_WaitForLastOperation hw ProgramTimeout h
             in (status, set_CR hw (get_CR hw h AND CR_PG_Reset) h)
           else (status, set_CR hw (get_CR hw h AND CR_PG_Reset) h)
      else (status, h))"

definition FLASH_ProgramHalfWord :: "'h flash_hw \<Rightarrow> u32 \<Rightarrow> u16 \<Rightarrow> 'h \<Rightarrow> FLASH_Status \<times> 'h" where
  "FLASH_ProgramHalfWord hw Address Data h =
     (let (status, h) = FLASH_WaitForLastOperation hw ProgramTimeout h in
      if status = FLASH_COMPLETE then
        let h = set_CR hw (get_CR hw h OR CR_PG_Set) h;
            h = store16 hw Address Data h;
            (status, h) = FLASH_WaitForLastOperation hw ProgramTimeout h
        in (status, set_CR hw (get_CR hw h AND CR_PG_Reset) h)
      else (status, h))"

definition FLASH_UnlockBank1 :: "'h flash_hw \<Rightarrow> 'h \<Rightarrow> 'h" where
  "FLASH_UnlockBank1 hw h = set_KEYR hw FLASH_KEY2 (set_KEYR hw FLASH_KEY1 h)"

section \<open>Interface: a page of the controller\<close>

text \<open>
  \<open>cells\<close> is the page as halfwords, \<open>busy\<close> the number of readings of the status register that still show the
  busy flag, \<open>opened\<close> that the keys were accepted. \<open>pg\<close> and \<open>per\<close> read the control register.
\<close>

definition page_base :: u32 where "page_base = 0x0805F000"

abbreviation word_addr :: "nat \<Rightarrow> u32" where "word_addr i \<equiv> page_base + word_of_nat (4 * i)"

locale flash_controller =
  fixes hw :: "'h flash_hw"
    and cells :: "'h \<Rightarrow> u16 list"
    and busy :: "'h \<Rightarrow> nat"
    and opened :: "'h \<Rightarrow> bool"
    and good :: "'h \<Rightarrow> bool"
  assumes sr_busy: "good h \<Longrightarrow> busy h > 0 \<Longrightarrow> \<exists>sr h'. get_SR hw h = (sr, h') \<and> sr AND FLASH_FLAG_BSY = FLASH_FLAG_BSY \<and>
        good h' \<and> busy h' = busy h - 1 \<and> cells h' = cells h \<and> opened h' = opened h \<and> get_CR hw h' = get_CR hw h"
    and sr_idle: "good h \<Longrightarrow> busy h = 0 \<Longrightarrow> \<exists>sr. get_SR hw h = (sr, h) \<and> sr AND FLASH_FLAG_BSY = 0 \<and>
        sr AND FLASH_FLAG_PGERR = 0 \<and> sr AND FLASH_FLAG_WRPRTERR = 0"
    and sr_set: "good h \<Longrightarrow> good (set_SR hw v h) \<and> busy (set_SR hw v h) = busy h \<and> cells (set_SR hw v h) = cells h \<and>
        opened (set_SR hw v h) = opened h \<and> get_CR hw (set_SR hw v h) = get_CR hw h"
    and cr_set: "good h \<Longrightarrow> v AND CR_STRT_Set = 0 \<Longrightarrow> good (set_CR hw v h) \<and> busy (set_CR hw v h) = busy h \<and>
        cells (set_CR hw v h) = cells h \<and> opened (set_CR hw v h) = opened h \<and> get_CR hw (set_CR hw v h) = v"
    and cr_idle: "good h \<Longrightarrow> busy h = 0 \<Longrightarrow> get_CR hw h AND CR_STRT_Set = 0"
    and keys: "good h \<Longrightarrow> good (FLASH_UnlockBank1 hw h) \<and> busy (FLASH_UnlockBank1 hw h) = busy h \<and>
        cells (FLASH_UnlockBank1 hw h) = cells h \<and> opened (FLASH_UnlockBank1 hw h) \<and>
        get_CR hw (FLASH_UnlockBank1 hw h) = get_CR hw h"
    and program: "good h \<Longrightarrow> opened h \<Longrightarrow> busy h = 0 \<Longrightarrow> get_CR hw h AND CR_PG_Set \<noteq> 0 \<Longrightarrow> get_CR hw h AND CR_PER_Set = 0 \<Longrightarrow>
        i < 1024 \<Longrightarrow> cells h ! i = 0xFFFF \<or> d = 0 \<Longrightarrow>
        good (store16 hw (page_base + word_of_nat (2 * i)) d h) \<and>
        busy (store16 hw (page_base + word_of_nat (2 * i)) d h) < ProgramTimeout \<and>
        cells (store16 hw (page_base + word_of_nat (2 * i)) d h) = (cells h)[i := d] \<and>
        opened (store16 hw (page_base + word_of_nat (2 * i)) d h) \<and>
        get_CR hw (store16 hw (page_base + word_of_nat (2 * i)) d h) = get_CR hw h"
    and erase: "good h \<Longrightarrow> opened h \<Longrightarrow> busy h = 0 \<Longrightarrow> get_CR hw h AND CR_PER_Set \<noteq> 0 \<Longrightarrow> get_CR hw h AND CR_PG_Set = 0 \<Longrightarrow>
        \<exists>h'. set_CR hw (get_CR hw h OR CR_STRT_Set) (set_AR hw page_base h) = h' \<and> good h' \<and> busy h' < EraseTimeout \<and>
          cells h' = replicate 1024 0xFFFF \<and> opened h' \<and>
          get_CR hw h' AND CR_PG_Set = 0 \<and> get_CR hw (set_AR hw page_base h) = get_CR hw h"
    and fetch: "good h \<Longrightarrow> i < 512 \<Longrightarrow>
        load32 hw h (word_addr i) = ucast (cells h ! (2 * i)) OR push_bit 16 (ucast (cells h ! (2 * i + 1)))"
    and size: "good h \<Longrightarrow> length (cells h) = 1024"

lemma wait_idle: "0 < t \<Longrightarrow> status \<noteq> FLASH_BUSY \<Longrightarrow> wait_loop hw t status h = (status, h)"
  by (cases t) simp_all

text \<open>The page read by words.\<close>

definition word_of_halves :: "u16 \<Rightarrow> u16 \<Rightarrow> u32" where
  "word_of_halves lo hi = ucast lo OR push_bit 16 (ucast hi)"

definition page_words :: "u16 list \<Rightarrow> u32 list" where
  "page_words cs = map (\<lambda>i. word_of_halves (cs ! (2 * i)) (cs ! (2 * i + 1))) [0..<512]"

lemma length_page_words [simp]: "length (page_words cs) = 512"
  by (simp add: page_words_def)

lemma halves_of_word: "word_of_halves (ucast v) (ucast (drop_bit 16 v)) = v"
  by (rule bit_word_eqI) (auto simp: word_of_halves_def bit_simps)

lemma word_of_halves_erased: "word_of_halves lo hi = 0xFFFFFFFF \<Longrightarrow> lo = 0xFFFF \<and> hi = 0xFFFF"
proof -
  assume a: "word_of_halves lo hi = 0xFFFFFFFF"
  have "lo = ucast (word_of_halves lo hi)" "hi = ucast (drop_bit 16 (word_of_halves lo hi))"
    by (auto intro!: bit_word_eqI simp: word_of_halves_def bit_simps no_bit_16)
  then show ?thesis unfolding a by simp
qed

lemma page_words_erased: "i < 512 \<Longrightarrow> page_words cs ! i = 0xFFFFFFFF \<Longrightarrow> cs ! (2 * i) = 0xFFFF \<and> cs ! Suc (2 * i) = 0xFFFF"
  using word_of_halves_erased [of "cs ! (2 * i)" "cs ! Suc (2 * i)"] by (simp add: page_words_def)

lemma page_words_update:
  assumes "length cs = 1024" "i < 512"
  shows "page_words (cs[2 * i := ucast v, Suc (2 * i) := ucast (drop_bit 16 v)]) = (page_words cs)[i := v]"
proof (rule nth_equalityI)
  fix j assume "j < length (page_words (cs[2 * i := ucast v, Suc (2 * i) := ucast (drop_bit 16 v)]))"
  then have j: "j < 512" by simp
  have "2 * i \<noteq> Suc (2 * j)" "Suc (2 * i) \<noteq> 2 * j" by presburger+
  then show "page_words (cs[2 * i := ucast v, Suc (2 * i) := ucast (drop_bit 16 v)]) ! j = (page_words cs)[i := v] ! j"
    using j assms by (cases "i = j") (simp_all add: page_words_def halves_of_word nth_list_update)
qed simp

lemma page_words_replicate: "page_words (replicate 1024 0xFFFF) = replicate 512 0xFFFFFFFF"
  by (rule nth_equalityI) (simp_all add: page_words_def word_of_halves_def)

context flash_controller
begin

definition ready :: "'h \<Rightarrow> bool" where
  "ready h \<longleftrightarrow> good h \<and> busy h = 0 \<and> get_CR hw h AND CR_PG_Set = 0 \<and> get_CR hw h AND CR_PER_Set = 0"

lemma status_busy:
  assumes "good h" "busy h > 0"
  shows "\<exists>h'. FLASH_GetBank1Status hw h = (FLASH_BUSY, h') \<and> good h' \<and> busy h' = busy h - 1 \<and> cells h' = cells h \<and>
     opened h' = opened h \<and> get_CR hw h' = get_CR hw h"
  using sr_busy [OF assms] by (auto simp: FLASH_GetBank1Status_def)

lemma status_idle:
  assumes "good h" "busy h = 0"
  shows "FLASH_GetBank1Status hw h = (FLASH_COMPLETE, h)"
proof -
  obtain sr where "get_SR hw h = (sr, h)" "sr AND FLASH_FLAG_BSY = 0" "sr AND FLASH_FLAG_PGERR = 0"
    "sr AND FLASH_FLAG_WRPRTERR = 0" using sr_idle [OF assms] by blast
  then show ?thesis by (simp add: FLASH_GetBank1Status_def FLASH_FLAG_BSY_def)
qed

lemma wait_loop:
  "good h \<Longrightarrow> busy h + 1 < t \<Longrightarrow>
    \<exists>h'. wait_loop hw t FLASH_BUSY h = (FLASH_COMPLETE, h') \<and> good h' \<and> busy h' = 0 \<and> cells h' = cells h \<and>
      opened h' = opened h \<and> get_CR hw h' = get_CR hw h"
proof (induction t arbitrary: h)
  case 0
  then show ?case by simp
next
  case (Suc t)
  show ?case
  proof (cases "busy h = 0")
    case True
    then obtain u where "t = Suc u" using Suc.prems by (cases t) auto
    then show ?thesis using status_idle [OF Suc.prems(1) True] Suc.prems(1) True by simp
  next
    case False
    then obtain h1 where h1: "FLASH_GetBank1Status hw h = (FLASH_BUSY, h1)" "good h1" "busy h1 = busy h - 1"
      "cells h1 = cells h" "opened h1 = opened h" "get_CR hw h1 = get_CR hw h"
      using status_busy [of h] Suc.prems(1) by auto
    then have "busy h1 + 1 < t" using Suc.prems(2) False by simp
    then show ?thesis using Suc.IH [of h1] h1 by simp
  qed
qed

text \<open>Waiting at least as long as the controller is busy ends with the operation complete.\<close>

lemma wait_complete:
  assumes "good h" "busy h < t" "0 < t"
  shows "\<exists>h'. FLASH_WaitForLastOperation hw t h = (FLASH_COMPLETE, h') \<and> good h' \<and> busy h' = 0 \<and> cells h' = cells h \<and>
     opened h' = opened h \<and> get_CR hw h' = get_CR hw h"
proof (cases "busy h = 0")
  case True
  obtain u where "t = Suc u" using assms(3) by (cases t) auto
  then show ?thesis using status_idle [OF assms(1) True] assms(1) True by (simp add: FLASH_WaitForLastOperation_def)
next
  case False
  then obtain h1 where h1: "FLASH_GetBank1Status hw h = (FLASH_BUSY, h1)" "good h1" "busy h1 = busy h - 1"
    "cells h1 = cells h" "opened h1 = opened h" "get_CR hw h1 = get_CR hw h"
    using status_busy [of h] assms(1) by auto
  then have "busy h1 + 1 < t" using assms(2) False by simp
  then show ?thesis using wait_loop [OF h1(2)] h1 by (fastforce simp: FLASH_WaitForLastOperation_def)
qed

lemma start_program:
  assumes "good h" "opened h" "busy h = 0" "get_CR hw h AND CR_PG_Set \<noteq> 0" "get_CR hw h AND CR_PER_Set = 0" "i < 1024"
    "cells h ! i = 0xFFFF \<or> d = 0"
  shows "\<exists>h'. FLASH_WaitForLastOperation hw ProgramTimeout (store16 hw (page_base + word_of_nat (2 * i)) d h) =
      (FLASH_COMPLETE, h') \<and> good h' \<and> opened h' \<and> busy h' = 0 \<and> get_CR hw h' = get_CR hw h \<and> cells h' = (cells h)[i := d]"
proof -
  let ?h = "store16 hw (page_base + word_of_nat (2 * i)) d h"
  have p: "good ?h" "busy ?h < ProgramTimeout" "cells ?h = (cells h)[i := d]" "opened ?h" "get_CR hw ?h = get_CR hw h"
    using program [OF assms] by simp_all
  show ?thesis using wait_complete [OF p(1,2)] p(3-5) by (auto simp: ProgramTimeout_def)
qed

lemma set_cr:
  assumes "good h" "busy h = 0" "v AND CR_STRT_Set = 0"
  shows "good (set_CR hw v h)" "busy (set_CR hw v h) = 0" "cells (set_CR hw v h) = cells h"
    "opened (set_CR hw v h) = opened h" "get_CR hw (set_CR hw v h) = v"
  using cr_set [OF assms(1,3)] assms(2) by simp_all

lemma programWord:
  assumes "ready h" "opened h" "i < 512" "page_words (cells h) ! i = 0xFFFFFFFF \<or> v = 0"
  shows "\<exists>h'. FLASH_ProgramWord hw (word_addr i) v h = (FLASH_COMPLETE, h') \<and> ready h' \<and> opened h' \<and>
     page_words (cells h') = (page_words (cells h))[i := v]"
proof -
  have r: "good h" "busy h = 0" "get_CR hw h AND CR_PG_Set = 0" "get_CR hw h AND CR_PER_Set = 0"
    using assms(1) by (simp_all add: ready_def)
  have w: "FLASH_WaitForLastOperation hw ProgramTimeout h = (FLASH_COMPLETE, h)"
    using status_idle [OF r(1,2)] by (simp add: FLASH_WaitForLastOperation_def ProgramTimeout_def wait_idle)
  define h0 where "h0 = set_CR hw (get_CR hw h OR CR_PG_Set) h"
  have st: "(get_CR hw h OR CR_PG_Set) AND CR_STRT_Set = 0"
    using cr_idle [OF r(1,2)] by (simp add: bit.conj_disj_distrib2 cr_consts)
  note c0 = set_cr [OF r(1,2) st, folded h0_def]
  have pg: "get_CR hw h0 AND CR_PG_Set \<noteq> 0" "get_CR hw h0 AND CR_PER_Set = 0"
    using r(3,4) unfolding c0(5) bit.conj_disj_distrib2 by (simp_all add: cr_consts)
  have e: "cells h0 ! (2 * i) = 0xFFFF \<or> ucast v = (0 :: u16)"
    "cells h0 ! (2 * i + 1) = 0xFFFF \<or> ucast (drop_bit 16 v) = (0 :: u16)"
    using assms(3,4) by (auto simp: c0(3) page_words_erased)
  obtain h1 where h1: "FLASH_WaitForLastOperation hw ProgramTimeout (store16 hw (word_addr i) (ucast v) h0) = (FLASH_COMPLETE, h1)"
    "good h1" "opened h1" "busy h1 = 0" "get_CR hw h1 = get_CR hw h0" "cells h1 = (cells h0)[2 * i := ucast v]"
    using start_program [OF c0(1) _ c0(2) pg _ e(1)] assms(2,3) c0(4) by (auto simp: mult.assoc [symmetric])
  have e1: "cells h1 ! (2 * i + 1) = 0xFFFF \<or> ucast (drop_bit 16 v) = (0 :: u16)" using e(2) h1(6) by simp
  have ad: "word_addr i + 2 = page_base + word_of_nat (2 * (2 * i + 1))" by (simp add: algebra_simps)
  have pg1: "get_CR hw h1 AND CR_PG_Set \<noteq> 0" "get_CR hw h1 AND CR_PER_Set = 0" "2 * i + 1 < 1024"
    using pg assms(3) by (simp_all add: h1(5))
  obtain h2 where h2: "FLASH_WaitForLastOperation hw ProgramTimeout
      (store16 hw (word_addr i + 2) (ucast (drop_bit 16 v)) h1) = (FLASH_COMPLETE, h2)" "good h2" "opened h2" "busy h2 = 0"
      "get_CR hw h2 = get_CR hw h1" "cells h2 = (cells h1)[2 * i + 1 := ucast (drop_bit 16 v)]"
    using start_program [OF h1(2-4) pg1 e1] unfolding ad by blast
  define h3 where "h3 = set_CR hw (get_CR hw h2 AND CR_PG_Reset) h2"
  have "(get_CR hw h2 AND CR_PG_Reset) AND CR_STRT_Set = 0"
    using cr_idle [OF h2(2,4)] by (simp add: and.assoc cr_consts)
  note c3 = set_cr [OF h2(2,4) this, folded h3_def]
  have "ready h3" using pg c3 by (simp add: ready_def and.assoc h2(5) h1(5)) (simp add: cr_consts)
  moreover have "page_words (cells h3) = (page_words (cells h))[i := v]"
    using assms(3) size [OF r(1)] by (simp add: c3(3) h2(6) h1(6) c0(3) page_words_update)
  moreover have "FLASH_ProgramWord hw (word_addr i) v h = (FLASH_COMPLETE, h3)"
    using w h1(1) h2(1) by (simp add: FLASH_ProgramWord_def h0_def h3_def)
  ultimately show ?thesis using c3(4) h2(3) by blast
qed

lemma erasePage:
  assumes "ready h" "opened h"
  shows "\<exists>h'. FLASH_ErasePage hw page_base h = (FLASH_COMPLETE, h') \<and> ready h' \<and> opened h' \<and>
     page_words (cells h') = replicate 512 0xFFFFFFFF"
proof -
  have r: "good h" "busy h = 0" "get_CR hw h AND CR_PG_Set = 0" "get_CR hw h AND CR_PER_Set = 0"
    using assms(1) by (simp_all add: ready_def)
  have w: "FLASH_WaitForLastOperation hw EraseTimeout h = (FLASH_COMPLETE, h)"
    using status_idle [OF r(1,2)] by (simp add: FLASH_WaitForLastOperation_def EraseTimeout_def wait_idle)
  define h0 where "h0 = set_CR hw (get_CR hw h OR CR_PER_Set) h"
  have st: "(get_CR hw h OR CR_PER_Set) AND CR_STRT_Set = 0"
    using cr_idle [OF r(1,2)] by (simp add: bit.conj_disj_distrib2 cr_consts)
  note c0 = set_cr [OF r(1,2) st, folded h0_def]
  have per: "get_CR hw h0 AND CR_PER_Set \<noteq> 0" "get_CR hw h0 AND CR_PG_Set = 0"
    using r(3,4) unfolding c0(5) bit.conj_disj_distrib2 by (simp_all add: cr_consts)
  define h1 where "h1 = set_CR hw (get_CR hw (set_AR hw page_base h0) OR CR_STRT_Set) (set_AR hw page_base h0)"
  have e: "good h1" "busy h1 < EraseTimeout" "cells h1 = replicate 1024 0xFFFF" "opened h1" "get_CR hw h1 AND CR_PG_Set = 0"
    using erase [OF c0(1) _ c0(2) per] assms(2) c0(4) unfolding h1_def by simp_all
  obtain h2 where h2: "FLASH_WaitForLastOperation hw EraseTimeout h1 = (FLASH_COMPLETE, h2)" "good h2" "busy h2 = 0"
    "cells h2 = cells h1" "opened h2" "get_CR hw h2 = get_CR hw h1"
    using wait_complete [OF e(1,2)] e(4) by (auto simp: EraseTimeout_def)
  define h3 where "h3 = set_CR hw (get_CR hw h2 AND CR_PER_Reset) h2"
  have "(get_CR hw h2 AND CR_PER_Reset) AND CR_STRT_Set = 0"
    using cr_idle [OF h2(2,3)] by (simp add: and.assoc cr_consts)
  note c3 = set_cr [OF h2(2,3) this, folded h3_def]
  have "ready h3" using e(5) c3 by (simp add: ready_def and.assoc h2(6)) (simp add: cr_consts)
  moreover have "page_words (cells h3) = replicate 512 0xFFFFFFFF"
    by (simp add: c3(3) h2(4) e(3) page_words_replicate)
  moreover have "FLASH_ErasePage hw page_base h = (FLASH_COMPLETE, h3)"
    using w h2(1) by (simp add: FLASH_ErasePage_def h0_def h1_def h3_def)
  ultimately show ?thesis using c3(4) h2(5) by blast
qed

lemma unlock: "ready h \<Longrightarrow> ready (FLASH_UnlockBank1 hw h) \<and> opened (FLASH_UnlockBank1 hw h) \<and>
    cells (FLASH_UnlockBank1 hw h) = cells h"
  using keys [of h] by (simp add: ready_def)

lemma clear: "ready h \<Longrightarrow> ready (FLASH_ClearFlag hw v h) \<and> opened (FLASH_ClearFlag hw v h) = opened h \<and>
    cells (FLASH_ClearFlag hw v h) = cells h"
  using sr_set [of h v] by (simp add: ready_def FLASH_ClearFlag_def)

lemma load: "good h \<Longrightarrow> i < 512 \<Longrightarrow> load32 hw h (word_addr i) = page_words (cells h) ! i"
  using fetch [of h i] by (simp add: page_words_def word_of_halves_def)

end

section \<open>The device\<close>

text \<open>
  A device with the documented behaviour: a page of halfwords, a control register in which the start bit clears
  itself, a status register with the busy and the two error flags, the key register, and constant times for
  programming and erasing, counted in readings of the status register.
\<close>

record stm32 =
  page :: "u16 list"
  cr :: u32
  errors :: u32
  ar :: u32
  key :: nat
  pending :: nat
  prog_time :: nat
  erase_time :: nat

definition stm32_store :: "u32 \<Rightarrow> u16 \<Rightarrow> stm32 \<Rightarrow> stm32" where
  "stm32_store a d h =
     (let i = unat (a - page_base) div 2 in
      if key h = 2 \<and> pending h = 0 \<and> cr h AND CR_PG_Set \<noteq> 0 \<and> i < 1024 then
        if page h ! i = 0xFFFF \<or> d = 0 then h\<lparr>page := (page h)[i := d], pending := prog_time h\<rparr>
        else h\<lparr>errors := errors h OR FLASH_FLAG_PGERR\<rparr>
      else h)"

definition stm32_set_CR :: "u32 \<Rightarrow> stm32 \<Rightarrow> stm32" where
  "stm32_set_CR v h =
     (let h = h\<lparr>cr := v AND NOT CR_STRT_Set\<rparr> in
      if key h = 2 \<and> pending h = 0 \<and> v AND CR_STRT_Set \<noteq> 0 \<and> v AND CR_PER_Set \<noteq> 0 \<and> ar h = page_base
      then h\<lparr>page := replicate 1024 0xFFFF, pending := erase_time h\<rparr> else h)"

definition stm32_hw :: "stm32 flash_hw" where
  "stm32_hw = \<lparr>get_SR = (\<lambda>h. (errors h OR (if pending h > 0 then FLASH_FLAG_BSY else 0), h\<lparr>pending := pending h - 1\<rparr>)),
     set_SR = (\<lambda>v h. h\<lparr>errors := errors h AND NOT v\<rparr>),
     get_CR = cr, set_CR = stm32_set_CR, set_AR = (\<lambda>v h. h\<lparr>ar := v\<rparr>),
     set_KEYR = (\<lambda>v h. h\<lparr>key := if key h = 2 then 2 else if v = FLASH_KEY1 then 1
                                else if v = FLASH_KEY2 \<and> key h = 1 then 2 else 0\<rparr>),
     store16 = stm32_store,
     load32 = (\<lambda>h a. let i = unat (a - page_base) div 2 in word_of_halves (page h ! i) (page h ! (i + 1)))\<rparr>"

definition stm32_ok :: "stm32 \<Rightarrow> bool" where
  "stm32_ok h \<longleftrightarrow> length (page h) = 1024 \<and> errors h = 0 \<and> cr h AND CR_STRT_Set = 0 \<and>
     prog_time h < ProgramTimeout \<and> erase_time h < EraseTimeout"

lemma and_not_id:
  fixes v :: u32
  assumes "v AND m = 0"
  shows "v AND NOT m = v"
proof (rule bit_word_eqI)
  fix n assume n: "n < LENGTH(32)"
  have "\<not> bit (v AND m) n" using assms by simp
  then show "bit (v AND NOT m) n = bit v n" using n by (auto simp: bit_simps)
qed

lemma half_index: "i < 1024 \<Longrightarrow> unat ((page_base + word_of_nat (2 * i)) - page_base) = 2 * i"
  by (simp add: unat_word_ariths unat_of_nat)

interpretation stm32: flash_controller stm32_hw page pending "\<lambda>h. key h = 2" stm32_ok
proof (unfold_locales, goal_cases)
  case (1 h) then show ?case by (simp add: stm32_hw_def stm32_ok_def flag_consts)
next
  case (2 h) then show ?case by (simp add: stm32_hw_def stm32_ok_def)
next
  case (3 h v) then show ?case by (simp add: stm32_hw_def stm32_ok_def)
next
  case (4 h v)
  then have "v AND NOT CR_STRT_Set = v" by (intro and_not_id)
  with 4 show ?case by (simp add: stm32_hw_def stm32_ok_def stm32_set_CR_def)
next
  case (5 h) then show ?case by (simp add: stm32_hw_def stm32_ok_def)
next
  case (6 h) then show ?case by (simp add: stm32_hw_def stm32_ok_def FLASH_UnlockBank1_def FLASH_KEY1_def FLASH_KEY2_def)
next
  case (7 h i d)
  have "stm32_store (page_base + word_of_nat (2 * i)) d h = h\<lparr>page := (page h)[i := d], pending := prog_time h\<rparr>"
    unfolding stm32_store_def half_index [OF 7(6)] using 7(2-) by (simp add: stm32_hw_def Let_def)
  then show ?case using 7 by (simp add: stm32_hw_def stm32_ok_def)
next
  case (8 h)
  have "(cr h OR CR_STRT_Set) AND NOT CR_STRT_Set AND CR_PG_Set = 0"
    using 8(5) by (simp add: stm32_hw_def bit.conj_disj_distrib2 and.assoc) (simp add: cr_consts)
  moreover have "(cr h OR CR_STRT_Set) AND CR_STRT_Set \<noteq> 0" "(cr h OR CR_STRT_Set) AND CR_PER_Set \<noteq> 0"
    using 8(4) by (simp_all add: bit.conj_disj_distrib2 stm32_hw_def) (simp_all add: cr_consts)
  ultimately show ?case using 8 by (simp add: stm32_hw_def stm32_ok_def stm32_set_CR_def and.assoc)
next
  case (9 h i)
  have "unat (word_addr i - page_base) = 4 * i" using half_index [of "2 * i"] 9(2) by (simp add: mult.assoc [symmetric])
  then show ?case by (simp add: stm32_hw_def word_of_halves_def Let_def)
next
  case (10 h) then show ?case by (simp add: stm32_ok_def)
qed

end
