(* ===== verification/VexFlash.thy ===== *)
theory VexFlash
  imports Stm32Flash
begin

text \<open>
  The user parameters in flash, \<open>src/convex/cortex/opt/vexflash.c\<close>, and the cassette that stores a recording
  in them, \<open>src/src/cassette.c\<close>. One flash page of 512 words is a log: 64 words of index, then 56 blocks of 8
  words; every write programs the next block and clears the next word of the index, and the page is erased when
  it is full.
\<close>

section \<open>Data\<close>

definition USER_PARAM_PAGE_ADDR :: u32 where "USER_PARAM_PAGE_ADDR = 0x0805F000"
definition USER_PARAM_INDEX :: nat where "USER_PARAM_INDEX = 64"
definition USER_PARAM_MAX_WRITE :: int where "USER_PARAM_MAX_WRITE = 32"
definition USER_PARAM_WORDS :: nat where "USER_PARAM_WORDS = 8"

definition FLASH_SUCCESS :: int where "FLASH_SUCCESS = 1"
definition FLASH_ERROR_WRITE :: int where "FLASH_ERROR_WRITE = - 1"
definition FLASH_ERROR_WRITE_LIMIT :: int where "FLASH_ERROR_WRITE_LIMIT = - 2"
definition FLASH_ERROR_ERASE :: int where "FLASH_ERROR_ERASE = - 3"
definition FLASH_ERROR_ERASE_LIMIT :: int where "FLASH_ERROR_ERASE_LIMIT = - 4"
definition FLASH_ERROR :: int where "FLASH_ERROR = - 5"

lemmas flash_consts = USER_PARAM_PAGE_ADDR_def USER_PARAM_INDEX_def USER_PARAM_MAX_WRITE_def USER_PARAM_WORDS_def
  FLASH_SUCCESS_def FLASH_ERROR_WRITE_def FLASH_ERROR_WRITE_LIMIT_def FLASH_ERROR_ERASE_def
  FLASH_ERROR_ERASE_LIMIT_def FLASH_ERROR_def

record user_param =
  data :: octets
  param_offset :: int
  addr :: u32

text \<open>The only object of this type is the static \<open>params\<close>, so a pointer to one is NULL or points there.\<close>

datatype user_param_ptr = NO_PARAM | PARAMS

record 'h flash_state =
  flash :: 'h
  params :: user_param
  user_param_write_limit :: int
  erase_done :: bool

section \<open>Operations\<close>

fun get_offset_loop :: "'h flash_hw \<Rightarrow> 'h \<Rightarrow> u32 \<Rightarrow> nat \<Rightarrow> int \<Rightarrow> int" where
  "get_offset_loop hw h p 0 off = off"
| "get_offset_loop hw h p (Suc n) off =
     (if load32 hw h p \<noteq> 0xFFFFFFFF then get_offset_loop hw h (p + 4) n (off + 1) else off)"

definition vexFlashUserParamGetOffset :: "'h flash_hw \<Rightarrow> 'h \<Rightarrow> int" where
  "vexFlashUserParamGetOffset hw h = get_offset_loop hw h USER_PARAM_PAGE_ADDR USER_PARAM_INDEX (- 1)"

definition block_addr :: "int \<Rightarrow> u32" where
  "block_addr off = USER_PARAM_PAGE_ADDR + (of_nat USER_PARAM_INDEX + of_int off * of_nat USER_PARAM_WORDS) * 4"

definition vexFlashUserParamRead :: "'h flash_hw \<Rightarrow> 'h flash_state \<Rightarrow> user_param_ptr \<times> 'h flash_state" where
  "vexFlashUserParamRead hw s =
     (let off = vexFlashUserParamGetOffset hw (flash s) in
      if off = - 1 then
        (PARAMS, s\<lparr>params := \<lparr>data = concat (replicate USER_PARAM_WORDS (mem32 0xFFFFFFFF)), param_offset = off, addr = 0\<rparr>\<rparr>)
      else
        let p = block_addr off in
        (PARAMS, s\<lparr>params := \<lparr>data = concat (map (\<lambda>i. mem32 (load32 hw (flash s) (p + 4 * of_nat i))) [0..<USER_PARAM_WORDS]),
                             param_offset = off, addr = p\<rparr>\<rparr>))"

text \<open>The loop that programs the data: it stops at the first error.\<close>

fun write_loop :: "'h flash_hw \<Rightarrow> u32 \<Rightarrow> u32 list \<Rightarrow> 'h \<Rightarrow> bool \<times> 'h" where
  "write_loop hw p [] h = (True, h)"
| "write_loop hw p (q # qs) h =
     (let (st, h) = FLASH_ProgramWord hw p q h
      in if st \<noteq> FLASH_COMPLETE then (False, h) else write_loop hw (p + 4) qs h)"

definition data_words :: "octets \<Rightarrow> u32 list" where
  "data_words d = map (\<lambda>i. of_mem32 (take 4 (drop (4 * i) d))) [0..<USER_PARAM_WORDS]"

definition vexFlashUserParamWrite ::
  "'h flash_hw \<Rightarrow> user_param_ptr \<Rightarrow> 'h flash_state \<Rightarrow> int \<times> 'h flash_state" where
  "vexFlashUserParamWrite hw u s =
     (if u = NO_PARAM then (FLASH_ERROR, s)
      else if user_param_write_limit s \<ge> USER_PARAM_MAX_WRITE then (FLASH_ERROR_WRITE_LIMIT, s)
      else
        let s = s\<lparr>user_param_write_limit := user_param_write_limit s + 1\<rparr>;
            h = FLASH_UnlockBank1 hw (flash s);
            h = FLASH_ClearFlag hw (FLASH_FLAG_EOP OR FLASH_FLAG_PGERR OR FLASH_FLAG_WRPRTERR) h;
            s = s\<lparr>flash := h\<rparr>;
            off = vexFlashUserParamGetOffset hw (flash s) + 1;
            s = s\<lparr>params := (params s)\<lparr>param_offset := off\<rparr>\<rparr>;
            full = (off \<ge> int ((512 - USER_PARAM_INDEX) div USER_PARAM_WORDS));
            (st, h) = (if full then FLASH_ErasePage hw USER_PARAM_PAGE_ADDR (flash s) else (FLASH_COMPLETE, flash s));
            s = s\<lparr>flash := h\<rparr>
        in if full \<and> st \<noteq> FLASH_COMPLETE then (FLASH_ERROR_ERASE, s)
           else
             let off = (if full then 0 else off);
                 p = block_addr off;
                 s = s\<lparr>params := (params s)\<lparr>param_offset := off, addr := p\<rparr>\<rparr>;
                 (ok, h) = write_loop hw p (data_words (data (params s))) (flash s);
                 ret = (if ok then FLASH_SUCCESS else FLASH_ERROR_WRITE);
                 (st, h) = FLASH_ProgramWord hw (USER_PARAM_PAGE_ADDR + of_int off * 4) 0 h;
                 ret = (if st \<noteq> FLASH_COMPLETE then FLASH_ERROR_WRITE else ret)
             in (ret, s\<lparr>flash := h\<rparr>))"

definition vexFlashUserParamInit :: "'h flash_hw \<Rightarrow> 'h flash_state \<Rightarrow> int \<times> 'h flash_state" where
  "vexFlashUserParamInit hw s =
     (if \<not> erase_done s then
        let s = s\<lparr>erase_done := True\<rparr>;
            h = FLASH_UnlockBank1 hw (flash s);
            (st, h) = FLASH_ErasePage hw USER_PARAM_PAGE_ADDR h;
            s = s\<lparr>flash := h\<rparr>
        in if st \<noteq> FLASH_COMPLETE then (FLASH_ERROR_ERASE, s) else (FLASH_SUCCESS, s)
      else (FLASH_ERROR_ERASE_LIMIT, s))"

section \<open>The cassette\<close>

definition CASSETTE_MAX :: u8 where "CASSETTE_MAX = 1"

definition cassetteOpenRead :: "'h flash_hw \<Rightarrow> u8 \<Rightarrow> 'h flash_state \<Rightarrow> user_param_ptr \<times> 'h flash_state" where
  "cassetteOpenRead hw index s =
     (if index \<ge> CASSETTE_MAX then (NO_PARAM, s)
      else let (fp, s) = vexFlashUserParamRead hw s;
               d0 = data (params s) ! 0
           in if d0 = 0 \<or> d0 > 31 then (NO_PARAM, s) else (fp, s))"

definition cassetteOpenWrite :: "'h flash_hw \<Rightarrow> u8 \<Rightarrow> 'h flash_state \<Rightarrow> user_param_ptr \<times> 'h flash_state" where
  "cassetteOpenWrite hw index s =
     (if index \<ge> CASSETTE_MAX then (NO_PARAM, s)
      else let (fp, s) = vexFlashUserParamRead hw s
           in (fp, s\<lparr>params := (params s)\<lparr>data := (data (params s))[0 := 0]\<rparr>\<rparr>))"

definition cassetteCount :: "'h flash_hw \<Rightarrow> 'h flash_state \<Rightarrow> u8 \<times> 'h flash_state" where
  "cassetteCount hw s =
     (let (fp, s) = cassetteOpenRead hw 0 s in (if fp = NO_PARAM then 0 else 1, s))"

definition cassetteFree :: "'h flash_hw \<Rightarrow> 'h flash_state \<Rightarrow> u8 \<times> 'h flash_state" where
  "cassetteFree hw s = (let (n, s) = cassetteCount hw s in (CASSETTE_MAX - n, s))"

definition cassetteMax :: u8 where "cassetteMax = CASSETTE_MAX"


section \<open>The page as a log\<close>

text \<open>A page in which the first \<open>k\<close> blocks are used: their index words are cleared, everything behind is erased.\<close>

abbreviation erased :: u32 where "erased \<equiv> 0xFFFFFFFF"

definition page_ok :: "nat \<Rightarrow> u32 list \<Rightarrow> bool" where
  "page_ok k ws \<longleftrightarrow> length ws = 512 \<and> k \<le> 56 \<and> (\<forall>i<k. ws ! i = 0) \<and> (\<forall>i. k \<le> i \<and> i < 64 \<longrightarrow> ws ! i = erased) \<and>
     (\<forall>i. 64 + 8 * k \<le> i \<and> i < 512 \<longrightarrow> ws ! i = erased)"

definition block :: "nat \<Rightarrow> u32 list \<Rightarrow> u32 list" where
  "block k ws = take 8 (drop (64 + 8 * k) ws)"

lemma page_ok_erased: "page_ok 0 (replicate 512 erased)"
  by (simp add: page_ok_def)

lemma page_ok_length: "page_ok k ws \<Longrightarrow> length ws = 512"
  by (simp add: page_ok_def)

lemma page_base: "USER_PARAM_PAGE_ADDR = page_base"
  by (simp add: USER_PARAM_PAGE_ADDR_def page_base_def)

lemma block_addr: "block_addr (int k) = word_addr (64 + 8 * k)"
  by (simp add: block_addr_def page_base flash_consts algebra_simps)

lemma word_addr_Suc: "word_addr j + 4 = word_addr (Suc j)"
  by (simp add: algebra_simps)

declare word_addr_Suc [simp] of_nat_mult [simp del] of_nat_add [simp del]

text \<open>Writing block \<open>k\<close> and clearing its index word turns a page with \<open>k\<close> blocks into one with \<open>k + 1\<close>.\<close>

definition append_block :: "nat \<Rightarrow> u32 list \<Rightarrow> u32 list \<Rightarrow> u32 list" where
  "append_block k d ws = (take (64 + 8 * k) ws @ d @ drop (64 + 8 * k + 8) ws)[k := 0]"

lemma append_block_ok:
  assumes "page_ok k ws" "k < 56" "length d = 8"
  shows "page_ok (Suc k) (append_block k d ws)"
  using assms by (auto simp: page_ok_def append_block_def nth_append nth_list_update less_Suc_eq)

lemma block_append_block:
  assumes "page_ok k ws" "k < 56" "length d = 8"
  shows "block k (append_block k d ws) = d"
    and "j < k \<Longrightarrow> block j (append_block k d ws) = block j ws"
proof -
  have l: "length ws = 512" using assms(1) by (rule page_ok_length)
  show "block k (append_block k d ws) = d"
    using l assms(2,3) by (simp add: block_def append_block_def drop_update_swap drop_append take_append)
  show "block j (append_block k d ws) = block j ws" if "j < k"
  proof (rule nth_equalityI)
    show "length (block j (append_block k d ws)) = length (block j ws)"
      using l page_ok_length [OF append_block_ok [OF assms]] by (simp add: block_def)
    fix i assume "i < length (block j (append_block k d ws))"
    then have "i < 8" by (simp add: block_def)
    then have "i < 8 * k - 8 * j" using that by simp
    then show "block j (append_block k d ws) ! i = block j ws ! i"
      using l assms(2,3) \<open>i < 8\<close> by (simp add: block_def append_block_def nth_append nth_list_update)
  qed
qed

section \<open>What the operations do on a controller\<close>

context flash_controller
begin

abbreviation words :: "'h \<Rightarrow> u32 list" where "words h \<equiv> page_words (cells h)"

lemma ready_good: "ready h \<Longrightarrow> good h"
  by (simp add: ready_def)

lemma get_offset_loop:
  assumes "good h" "page_ok k (words h)" "j + n = 64" "j \<le> k"
  shows "get_offset_loop hw h (word_addr j) n off = off + int (k - j)"
  using assms
proof (induction n arbitrary: j off)
  case 0
  then show ?case by (simp add: page_ok_def)
next
  case (Suc n)
  then have l: "j < 512" "k \<le> 56" by (simp_all add: page_ok_def)
  show ?case
  proof (cases "j < k")
    case True
    then have "words h ! j = 0" using Suc.prems(2) by (simp add: page_ok_def)
    then show ?thesis using Suc.IH [of "Suc j" "off + 1"] Suc.prems True load [OF Suc.prems(1) l(1)]
      by (simp only: get_offset_loop.simps word_addr_Suc) (simp add: of_nat_diff)
  next
    case False
    then have "words h ! j = erased" using Suc.prems by (simp add: page_ok_def)
    then show ?thesis using False Suc.prems load [OF Suc.prems(1) l(1)] by simp
  qed
qed

lemma get_offset: "good h \<Longrightarrow> page_ok k (words h) \<Longrightarrow> vexFlashUserParamGetOffset hw h = int k - 1"
  using get_offset_loop [of h k 0 64 "- 1"] by (simp add: vexFlashUserParamGetOffset_def USER_PARAM_INDEX_def page_base)

lemma write_loop:
  assumes "ready h" "opened h" "b + length qs \<le> 512" "\<forall>i. b \<le> i \<and> i < b + length qs \<longrightarrow> words h ! i = erased"
  shows "\<exists>h'. write_loop hw (word_addr b) qs h = (True, h') \<and> ready h' \<and> opened h' \<and>
     words h' = take b (words h) @ qs @ drop (b + length qs) (words h)"
  using assms
proof (induction qs arbitrary: b h)
  case Nil
  then show ?case by simp
next
  case (Cons q qs)
  have b: "b < 512" "words h ! b = erased" using Cons.prems by simp_all
  then obtain h1 where h1: "FLASH_ProgramWord hw (word_addr b) q h = (FLASH_COMPLETE, h1)" "ready h1" "opened h1"
      "words h1 = (words h)[b := q]"
    using programWord [of h b q] Cons.prems(1,2) by blast
  have "\<forall>i. Suc b \<le> i \<and> i < Suc b + length qs \<longrightarrow> words h1 ! i = erased"
    using Cons.prems h1(4) by auto
  then obtain h2 where h2: "write_loop hw (word_addr (Suc b)) qs h1 = (True, h2)" "ready h2" "opened h2"
    "words h2 = take (Suc b) (words h1) @ qs @ drop (Suc b + length qs) (words h1)"
    using Cons.IH [of h1 "Suc b"] Cons.prems(3) h1(2,3) by auto
  have "take (Suc b) (words h1) = take b (words h) @ [q]"
    using b h1(4) by (simp add: take_list_update_last)
  then have "words h2 = take b (words h) @ (q # qs) @ drop (b + length (q # qs)) (words h)"
    using h2(4) h1(4) by (simp add: drop_update_cancel)
  moreover have "write_loop hw (word_addr b) (q # qs) h = (True, h2)"
    using h1(1) h2(1) by (simp only: write_loop.simps word_addr_Suc) simp
  ultimately show ?case using h2(2,3) by blast
qed

lemma write_block:
  assumes "ready h" "opened h" "page_ok k (words h)" "k < 56" "length qs = 8"
  shows "\<exists>h1 h2. write_loop hw (block_addr (int k)) qs h = (True, h1) \<and>
     FLASH_ProgramWord hw (USER_PARAM_PAGE_ADDR + of_int (int k) * 4) 0 h1 = (FLASH_COMPLETE, h2) \<and>
     ready h2 \<and> opened h2 \<and> words h2 = append_block k qs (words h)"
proof -
  obtain h1 where h1: "write_loop hw (word_addr (64 + 8 * k)) qs h = (True, h1)" "ready h1" "opened h1"
     "words h1 = take (64 + 8 * k) (words h) @ qs @ drop (64 + 8 * k + length qs) (words h)"
    using write_loop [of h "64 + 8 * k" qs] assms by (auto simp: page_ok_def)
  obtain h2 where h2: "FLASH_ProgramWord hw (word_addr k) 0 h1 = (FLASH_COMPLETE, h2)" "ready h2" "opened h2"
     "words h2 = (words h1)[k := 0]"
    using programWord [of h1 k 0] h1(2,3) assms(4) by auto
  have "USER_PARAM_PAGE_ADDR + of_int (int k) * 4 = word_addr k" by (simp add: page_base of_nat_mult)
  then show ?thesis using h1 h2 assms(5) by (metis append_block_def block_addr)
qed

lemma flash_write:
  assumes "ready (flash s)" "page_ok k (words (flash s))" "user_param_write_limit s < USER_PARAM_MAX_WRITE"
  defines "k' \<equiv> if k = 56 then 0 else k"
    and "ws \<equiv> if k = 56 then replicate 512 erased else words (flash s)"
  shows "\<exists>s'. vexFlashUserParamWrite hw PARAMS s = (FLASH_SUCCESS, s') \<and> ready (flash s') \<and>
     user_param_write_limit s' = user_param_write_limit s + 1 \<and> data (params s') = data (params s) \<and>
     page_ok (Suc k') (words (flash s')) \<and> words (flash s') = append_block k' (data_words (data (params s))) ws"
proof -
  define h0 where "h0 = FLASH_ClearFlag hw (FLASH_FLAG_EOP OR FLASH_FLAG_PGERR OR FLASH_FLAG_WRPRTERR) (FLASH_UnlockBank1 hw (flash s))"
  have h0: "ready h0" "opened h0" "cells h0 = cells (flash s)"
    using unlock [OF assms(1)] clear by (simp_all add: h0_def)
  have off: "vexFlashUserParamGetOffset hw h0 = int k - 1"
    using get_offset [of h0 k] h0(1,3) assms(2) by (simp add: ready_def)
  have k: "k \<le> 56" using assms(2) by (simp add: page_ok_def)
  have full: "((512 - USER_PARAM_INDEX) div USER_PARAM_WORDS \<le> k) = (k = 56)"
    using k by (auto simp: flash_consts)
  obtain h1 where h1: "(if k = 56 then FLASH_ErasePage hw USER_PARAM_PAGE_ADDR h0 else (FLASH_COMPLETE, h0)) = (FLASH_COMPLETE, h1)"
    "ready h1" "opened h1" "words h1 = ws"
    using erasePage [OF h0(1,2)] h0 by (cases "k = 56") (auto simp: page_base ws_def)
  have ok: "page_ok k' ws" "k' < 56" using assms(2) k page_ok_erased by (auto simp: k'_def ws_def)
  have len: "length (data_words (data (params s))) = 8" by (simp add: data_words_def flash_consts)
  obtain h2 h3 where h2: "write_loop hw (block_addr (int k')) (data_words (data (params s))) h1 = (True, h2)"
     "FLASH_ProgramWord hw (USER_PARAM_PAGE_ADDR + of_int (int k') * 4) 0 h2 = (FLASH_COMPLETE, h3)"
     "ready h3" "opened h3" "words h3 = append_block k' (data_words (data (params s))) ws"
    using write_block [OF h1(2,3) _ ok(2) len] ok(1) h1(4) by auto
  have k'i: "(if k = 56 then 0 else int k) = int k'" by (simp add: k'_def)
  note [simp del] = of_int_of_nat_eq
  have w: "vexFlashUserParamWrite hw PARAMS s = (FLASH_SUCCESS,
      s\<lparr>user_param_write_limit := user_param_write_limit s + 1, flash := h3,
        params := (params s)\<lparr>param_offset := int k', addr := block_addr (int k')\<rparr>\<rparr>)"
    using linorder_not_le [THEN iffD2, OF assms(3)] h1(1) h2(1,2)
    by (simp add: vexFlashUserParamWrite_def h0_def [symmetric] off full split del: if_split)
      (simp add: Let_def full k'i cong: if_cong split del: if_split)
  show ?thesis using w h2(3,5) append_block_ok [OF ok len] by simp
qed

lemma flash_read:
  assumes "ready (flash s)" "page_ok (Suc k) (words (flash s))"
  shows "vexFlashUserParamRead hw s = (PARAMS, s\<lparr>params :=
     \<lparr>data = concat (map mem32 (block k (words (flash s)))), param_offset = int k, addr = block_addr (int k)\<rparr>\<rparr>)"
proof -
  have off: "vexFlashUserParamGetOffset hw (flash s) = int k"
    using get_offset [OF ready_good [OF assms(1)] assms(2)] by simp
  have k: "64 + 8 * k + 8 \<le> 512" using assms(2) by (simp add: page_ok_def)
  have "map (\<lambda>i. load32 hw (flash s) (block_addr (int k) + 4 * of_nat i)) [0..<8] = block k (words (flash s))"
  proof (rule nth_equalityI)
    fix i assume "i < length (map (\<lambda>i. load32 hw (flash s) (block_addr (int k) + 4 * of_nat i)) [0..<8])"
    then have i: "i < 8" by simp
    have "block_addr (int k) + 4 * of_nat i = word_addr (64 + 8 * k + i)"
      by (simp add: block_addr of_nat_mult of_nat_add algebra_simps)
    then show "map (\<lambda>i. load32 hw (flash s) (block_addr (int k) + 4 * of_nat i)) [0..<8] ! i = block k (words (flash s)) ! i"
      using load [OF ready_good [OF assms(1)], of "64 + 8 * k + i"] i k by (simp add: block_def)
  qed (use k in \<open>simp add: block_def\<close>)
  note m = this
  have mm: "map (\<lambda>i. mem32 (f i)) xs = map mem32 (map f xs)" for f :: "nat \<Rightarrow> u32" and xs by simp
  have "map (\<lambda>i. mem32 (load32 hw (flash s) (block_addr (int k) + 4 * of_nat i))) [0..<8] = map mem32 (block k (words (flash s)))"
    unfolding mm m ..
  then show ?thesis using off by (simp add: vexFlashUserParamRead_def Let_def USER_PARAM_WORDS_def)
qed

end

section \<open>Sequences of writes\<close>

lemma data_words: "length d = 32 \<Longrightarrow> concat (map mem32 (data_words d)) = d"
proof -
  assume l: "length d = 32"
  have "mem32 (of_mem32 (take 4 (drop (4 * i) d))) = take 4 (drop (4 * i) d)" if "i < 8" for i
    using l that by (intro mem32_of_mem32) simp
  then have "map mem32 (data_words d) = map (\<lambda>i. take 4 (drop (4 * i) d)) [0..<8]"
    by (simp add: data_words_def USER_PARAM_WORDS_def)
  also have "concat \<dots> = d"
  proof -
    have "concat (map (\<lambda>i. take 4 (drop (4 * i) d)) [0..<n]) = take (4 * n) d" for n
      by (induction n) (simp_all add: take_add [symmetric] add.commute)
    from this [of 8] show ?thesis using l by simp
  qed
  finally show ?thesis .
qed

lemma length_data_words [simp]: "length (data_words d) = 8"
  by (simp add: data_words_def USER_PARAM_WORDS_def)

text \<open>Storing a sequence of buffers, one call of \<open>vexFlashUserParamWrite\<close> each.\<close>

fun store_all :: "'h flash_hw \<Rightarrow> octets list \<Rightarrow> 'h flash_state \<Rightarrow> int list \<times> 'h flash_state" where
  "store_all hw [] s = ([], s)"
| "store_all hw (d # ds) s =
     (let (r, s) = vexFlashUserParamWrite hw PARAMS (s\<lparr>params := (params s)\<lparr>data := d\<rparr>\<rparr>);
          (rs, s) = store_all hw ds s
      in (r # rs, s))"

lemma store_all_limit:
  "USER_PARAM_MAX_WRITE \<le> user_param_write_limit s \<Longrightarrow>
    fst (store_all hw ds s) = replicate (length ds) FLASH_ERROR_WRITE_LIMIT \<and> flash (snd (store_all hw ds s)) = flash s"
proof (induction ds arbitrary: s)
  case (Cons d ds)
  have "vexFlashUserParamWrite hw PARAMS (s\<lparr>params := (params s)\<lparr>data := d\<rparr>\<rparr>) =
      (FLASH_ERROR_WRITE_LIMIT, s\<lparr>params := (params s)\<lparr>data := d\<rparr>\<rparr>)"
    using Cons.prems by (simp add: vexFlashUserParamWrite_def)
  with Cons.IH [of "s\<lparr>params := (params s)\<lparr>data := d\<rparr>\<rparr>"] Cons.prems show ?case
    by (simp add: case_prod_unfold)
qed simp

context flash_controller
begin

text \<open>\<open>holds d h\<close>: the page is well formed and its last block is \<open>d\<close>.\<close>

definition holds :: "octets \<Rightarrow> 'h \<Rightarrow> bool" where
  "holds d h \<longleftrightarrow> ready h \<and> (\<exists>k. page_ok (Suc k) (words h) \<and> concat (map mem32 (block k (words h))) = d)"

lemma holds_read:
  assumes "holds d (flash s)"
  shows "\<exists>k. vexFlashUserParamRead hw s = (PARAMS, s\<lparr>params := \<lparr>data = d, param_offset = int k, addr = block_addr (int k)\<rparr>\<rparr>)"
  using assms flash_read [of s] by (auto simp: holds_def)

lemma write_holds:
  assumes "ready (flash s)" "page_ok k (words (flash s))" "user_param_write_limit s < USER_PARAM_MAX_WRITE" "length (data (params s)) = 32"
  shows "\<exists>s'. vexFlashUserParamWrite hw PARAMS s = (FLASH_SUCCESS, s') \<and> holds (data (params s)) (flash s') \<and>
     user_param_write_limit s' = user_param_write_limit s + 1"
proof -
  define k' where "k' = (if k = 56 then 0 else k)"
  define ws where "ws = (if k = 56 then replicate 512 erased else words (flash s))"
  have ok: "page_ok k' ws" "k' < 56" using assms(2) page_ok_erased by (auto simp: k'_def ws_def page_ok_def)
  show ?thesis
    using flash_write [OF assms(1-3), folded k'_def ws_def] block_append_block(1) [OF ok, of "data_words (data (params s))"]
    by (auto simp: holds_def data_words [OF assms(4)] intro!: exI [of _ k'])
qed

lemma store_all:
  assumes "ready (flash s)" "page_ok k (words (flash s))" "user_param_write_limit s \<le> USER_PARAM_MAX_WRITE"
    "\<forall>d\<in>set ds. length d = 32" "n = nat (USER_PARAM_MAX_WRITE - user_param_write_limit s)"
  shows "fst (store_all hw ds s) =
       replicate (min n (length ds)) FLASH_SUCCESS @ replicate (length ds - n) FLASH_ERROR_WRITE_LIMIT \<and>
    (ds \<noteq> [] \<longrightarrow> n > 0 \<longrightarrow> holds (ds ! (min n (length ds) - 1)) (flash (snd (store_all hw ds s))))"
  using assms
proof (induction ds arbitrary: s n k)
  case Nil
  then show ?case by simp
next
  case (Cons d ds)
  note p = Cons.prems
  show ?case
  proof (cases "user_param_write_limit s = USER_PARAM_MAX_WRITE")
    case True
    then show ?thesis using store_all_limit [of s hw "d # ds"] p(5) by simp
  next
    case False
    let ?s = "s\<lparr>params := (params s)\<lparr>data := d\<rparr>\<rparr>"
    obtain s1 where s1: "vexFlashUserParamWrite hw PARAMS ?s = (FLASH_SUCCESS, s1)" "holds d (flash s1)"
      "user_param_write_limit s1 = user_param_write_limit s + 1"
      using write_holds [of ?s k] p False by auto
    obtain j where j: "ready (flash s1)" "page_ok (Suc j) (words (flash s1))" using s1(2) by (auto simp: holds_def)
    obtain m where m: "n = Suc m" "m = nat (USER_PARAM_MAX_WRITE - user_param_write_limit s1)"
      using p(3,5) False s1(3) by (cases n) auto
    have le: "user_param_write_limit s1 \<le> USER_PARAM_MAX_WRITE" using p(3) False s1(3) by simp
    have ds: "\<forall>d\<in>set ds. length d = 32" using p(4) by simp
    note IH = Cons.IH [OF j le ds m(2)]
    obtain rs s2 where rs: "store_all hw ds s1 = (rs, s2)" by fastforce
    have "fst (store_all hw (d # ds) s) = FLASH_SUCCESS # rs" "snd (store_all hw (d # ds) s) = s2"
      using s1(1) rs by simp_all
    moreover have "holds ((d # ds) ! min m (length ds)) (flash s2)"
    proof (cases "ds = [] \<or> m = 0")
      case True
      then have "flash s2 = flash s1"
        using rs store_all_limit [of s1 hw ds] m(2) by (auto simp: USER_PARAM_MAX_WRITE_def)
      then show ?thesis using True s1(2) by auto
    next
      case False
      then have "min m (length ds) = Suc (min m (length ds) - 1)" by simp
      then show ?thesis using IH False rs by (metis neq0_conv nth_Cons_Suc snd_conv)
    qed
    ultimately show ?thesis using IH rs by (simp add: m(1))
  qed
qed

end

section \<open>Properties\<close>

text \<open>The device is idle and the page is a log of \<open>k\<close> blocks.\<close>

definition flash_ready :: "nat \<Rightarrow> stm32 flash_state \<Rightarrow> bool" where
  "flash_ready k s \<longleftrightarrow> stm32_ok (flash s) \<and> pending (flash s) = 0 \<and> cr (flash s) AND CR_PG_Set = 0 \<and>
     cr (flash s) AND CR_PER_Set = 0 \<and> page_ok k (page_words (page (flash s)))"

lemma get_CR_stm32: "get_CR stm32_hw = cr"
  by (simp add: stm32_hw_def)

lemma flash_ready: "flash_ready k s \<longleftrightarrow> stm32.ready (flash s) \<and> page_ok k (page_words (page (flash s)))"
  by (auto simp: flash_ready_def stm32.ready_def get_CR_stm32)

definition stm32_blank :: stm32 where
  "stm32_blank = \<lparr>page = replicate 1024 0xFFFF, cr = 0, errors = 0, ar = 0, key = 0, pending = 0, prog_time = 5, erase_time = 100\<rparr>"

definition blank_flash :: "stm32 flash_state" where
  "blank_flash = \<lparr>flash = stm32_blank, params = \<lparr>data = replicate 32 0, param_offset = 0, addr = 0\<rparr>,
     user_param_write_limit = 0, erase_done = False\<rparr>"

lemma blank_flash_ready: "flash_ready 0 blank_flash"
  using page_ok_erased
  by (simp add: flash_ready_def blank_flash_def stm32_blank_def stm32_ok_def ProgramTimeout_def EraseTimeout_def page_words_replicate)

text \<open>C12: Any sequence of calls of vexFlashUserParamWrite, from any number of blocks already in the page, programs the
  first 32 buffers successfully (the page being erased whenever its 56 blocks are used up) and refuses the others
  with FLASH_ERROR_WRITE_LIMIT; vexFlashUserParamRead then returns exactly the last buffer that was programmed.\<close>
theorem vexFlash_reads_last_write:
  assumes "flash_ready k s" "user_param_write_limit s = 0" "ds \<noteq> []" "\<forall>d\<in>set ds. length d = 32"
  shows "fst (store_all stm32_hw ds s) =
           replicate (min 32 (length ds)) FLASH_SUCCESS @ replicate (length ds - 32) FLASH_ERROR_WRITE_LIMIT \<and>
    fst (vexFlashUserParamRead stm32_hw (snd (store_all stm32_hw ds s))) = PARAMS \<and>
    data (params (snd (vexFlashUserParamRead stm32_hw (snd (store_all stm32_hw ds s))))) = ds ! (min 32 (length ds) - 1)"
proof -
  have r: "stm32.ready (flash s)" "page_ok k (page_words (page (flash s)))" using assms(1) by (simp_all add: flash_ready)
  have l: "user_param_write_limit s \<le> USER_PARAM_MAX_WRITE" "32 = nat (USER_PARAM_MAX_WRITE - user_param_write_limit s)"
    by (simp_all add: assms(2) USER_PARAM_MAX_WRITE_def)
  note w = stm32.store_all [OF r l(1) assms(4) l(2)]
  have "stm32.holds (ds ! (min 32 (length ds) - 1)) (flash (snd (store_all stm32_hw ds s)))" using w assms(3) by simp
  from stm32.holds_read [OF this] w show ?thesis by auto
qed

theorem vexFlash_reads_last_write_witness:
  "data (params (snd (vexFlashUserParamRead stm32_hw
     (snd (store_all stm32_hw (map (\<lambda>i. replicate 32 (word_of_nat i)) [0..<100]) blank_flash))))) = replicate 32 31"
proof -
  have "user_param_write_limit blank_flash = 0" "map (\<lambda>i. replicate 32 (word_of_nat i) :: octets) [0..<100] \<noteq> []"
    "\<forall>d\<in>set (map (\<lambda>i. replicate 32 (word_of_nat i) :: octets) [0..<100]). length d = 32"
    by (auto simp: blank_flash_def)
  from vexFlash_reads_last_write [OF blank_flash_ready this] show ?thesis by simp
qed

text \<open>A recording of length \<open>d ! 0\<close> is one the cassette plays back.\<close>

definition playable :: "octets \<Rightarrow> bool" where
  "playable d \<longleftrightarrow> d ! 0 \<noteq> 0 \<and> d ! 0 \<le> 31"

text \<open>What the cassette does with the buffer \<open>d\<close> that was stored last: slot 0 opens for reading exactly when its
  length octet is between 1 and 31, and then holds \<open>d\<close>; the count is 1 and the free count 0 in that case, 0 and 1
  otherwise; every other slot is refused.\<close>
theorem cassette_plays_back:
  assumes "flash_ready k s" "user_param_write_limit s < USER_PARAM_MAX_WRITE" "length (data (params s)) = 32"
  shows "\<exists>s'. vexFlashUserParamWrite stm32_hw PARAMS s = (FLASH_SUCCESS, s') \<and>
    fst (cassetteOpenRead stm32_hw index s') = (if index = 0 \<and> playable (data (params s)) then PARAMS else NO_PARAM) \<and>
    (index = 0 \<longrightarrow> data (params (snd (cassetteOpenRead stm32_hw index s'))) = data (params s)) \<and>
    fst (cassetteCount stm32_hw s') = (if playable (data (params s)) then 1 else 0) \<and>
    fst (cassetteFree stm32_hw s') = (if playable (data (params s)) then 0 else 1)"
proof -
  have r: "stm32.ready (flash s)" "page_ok k (page_words (page (flash s)))" using assms(1) by (simp_all add: flash_ready)
  obtain s' where s': "vexFlashUserParamWrite stm32_hw PARAMS s = (FLASH_SUCCESS, s')" "stm32.holds (data (params s)) (flash s')"
    using stm32.write_holds [OF r assms(2,3)] by blast
  obtain j where j: "vexFlashUserParamRead stm32_hw s' =
      (PARAMS, s'\<lparr>params := \<lparr>data = data (params s), param_offset = int j, addr = block_addr (int j)\<rparr>\<rparr>)"
    using stm32.holds_read [OF s'(2)] by blast
  have i: "index < 1 \<longleftrightarrow> index = 0" for index :: u8 by (simp add: word_less_1)
  have p: "(data (params s) ! 0 = 0 \<or> data (params s) ! 0 > 31) = (\<not> playable (data (params s)))"
    by (auto simp: playable_def not_less)
  show ?thesis
    using s'(1) i [of index] by (auto simp: cassetteOpenRead_def cassetteCount_def cassetteFree_def CASSETTE_MAX_def j p not_le)
qed

theorem cassette_plays_back_witness:
  "\<exists>s'. vexFlashUserParamWrite stm32_hw PARAMS (blank_flash\<lparr>params := \<lparr>data = 3 # replicate 31 7, param_offset = 0, addr = 0\<rparr>\<rparr>) =
      (FLASH_SUCCESS, s') \<and> fst (cassetteOpenRead stm32_hw 0 s') = PARAMS"
proof -
  let ?s = "blank_flash\<lparr>params := \<lparr>data = 3 # replicate 31 7, param_offset = 0, addr = 0\<rparr>\<rparr>"
  have "flash_ready 0 ?s" using blank_flash_ready by (simp add: flash_ready_def)
  moreover have "user_param_write_limit ?s < USER_PARAM_MAX_WRITE" "length (data (params ?s)) = 32"
    by (simp_all add: blank_flash_def USER_PARAM_MAX_WRITE_def)
  ultimately show ?thesis
    using cassette_plays_back [of 0 ?s 0] by (auto simp: playable_def)
qed

end
