(* ===== verification/Rpc.thy ===== *)
theory Rpc
  imports PotRingbuffer Messages VexMotor VexFlash
begin

text \<open>
  The remote procedure calls of the robot, \<open>src/src/rpc.c\<close>: requests to read and write the clock, the motors,
  the subscriptions and the cassette, and the periodic publications. The state is the \<open>rpc_t\<close>, the parts of the
  robot the calls act on, and a component \<open>'c\<close> only the packet writer touches. The writer is called through a
  pointer and may change all of it.
\<close>

section \<open>Data\<close>

definition MESSAGES_DATA_FLAG_END :: u8 where "MESSAGES_DATA_FLAG_END = 0x01"
definition MESSAGES_DATA_FLAG_PUB :: u8 where "MESSAGES_DATA_FLAG_PUB = 0x02"
definition MESSAGES_DATA_FLAG_ERROR :: u8 where "MESSAGES_DATA_FLAG_ERROR = 0x04"
definition MESSAGES_ERROR_BAD_REQ_ID :: u8 where "MESSAGES_ERROR_BAD_REQ_ID = 0x01"
definition MESSAGES_ERROR_BAD_TOPIC :: u8 where "MESSAGES_ERROR_BAD_TOPIC = 0x02"
definition MESSAGES_ERROR_BAD_SUBTOPIC :: u8 where "MESSAGES_ERROR_BAD_SUBTOPIC = 0x03"
definition MESSAGES_ERROR_SUB_MAX :: u8 where "MESSAGES_ERROR_SUB_MAX = 0x04"
definition MESSAGES_TOPIC_PUBSUB :: u8 where "MESSAGES_TOPIC_PUBSUB = 0x00"
definition MESSAGES_TOPIC_PUBSUB_SUBTOPIC_COUNT :: u8 where "MESSAGES_TOPIC_PUBSUB_SUBTOPIC_COUNT = 0xfb"
definition MESSAGES_TOPIC_PUBSUB_SUBTOPIC_FREE :: u8 where "MESSAGES_TOPIC_PUBSUB_SUBTOPIC_FREE = 0xfc"
definition MESSAGES_TOPIC_PUBSUB_SUBTOPIC_MAX :: u8 where "MESSAGES_TOPIC_PUBSUB_SUBTOPIC_MAX = 0xfd"
definition MESSAGES_TOPIC_PUBSUB_SUBTOPIC_LIST :: u8 where "MESSAGES_TOPIC_PUBSUB_SUBTOPIC_LIST = 0xfe"
definition MESSAGES_TOPIC_PUBSUB_SUBTOPIC_ALL :: u8 where "MESSAGES_TOPIC_PUBSUB_SUBTOPIC_ALL = 0xff"
definition MESSAGES_TOPIC_CLOCK :: u8 where "MESSAGES_TOPIC_CLOCK = 0x01"
definition MESSAGES_TOPIC_CLOCK_SUBTOPIC_NOW :: u8 where "MESSAGES_TOPIC_CLOCK_SUBTOPIC_NOW = 0x00"
definition MESSAGES_TOPIC_MOTOR :: u8 where "MESSAGES_TOPIC_MOTOR = 0x02"
definition MESSAGES_TOPIC_MOTOR_SUBTOPIC_ALL :: u8 where "MESSAGES_TOPIC_MOTOR_SUBTOPIC_ALL = 0xff"
definition MESSAGES_TOPIC_NETWORK :: u8 where "MESSAGES_TOPIC_NETWORK = 0x04"
definition MESSAGES_TOPIC_NETWORK_SUBTOPIC_IPV4 :: u8 where "MESSAGES_TOPIC_NETWORK_SUBTOPIC_IPV4 = 0x00"
definition MESSAGES_TOPIC_ROBOT :: u8 where "MESSAGES_TOPIC_ROBOT = 0x05"
definition MESSAGES_TOPIC_ROBOT_SUBTOPIC_SPI :: u8 where "MESSAGES_TOPIC_ROBOT_SUBTOPIC_SPI = 0x00"
definition MESSAGES_TOPIC_CASSETTE :: u8 where "MESSAGES_TOPIC_CASSETTE = 0x06"
definition MESSAGES_TOPIC_CASSETTE_SUBTOPIC_WRITE :: u8 where "MESSAGES_TOPIC_CASSETTE_SUBTOPIC_WRITE = 0xf8"
definition MESSAGES_TOPIC_CASSETTE_SUBTOPIC_CLOSE :: u8 where "MESSAGES_TOPIC_CASSETTE_SUBTOPIC_CLOSE = 0xf9"
definition MESSAGES_TOPIC_CASSETTE_SUBTOPIC_OPEN :: u8 where "MESSAGES_TOPIC_CASSETTE_SUBTOPIC_OPEN = 0xfa"
definition MESSAGES_TOPIC_CASSETTE_SUBTOPIC_COUNT :: u8 where "MESSAGES_TOPIC_CASSETTE_SUBTOPIC_COUNT = 0xfb"
definition MESSAGES_TOPIC_CASSETTE_SUBTOPIC_FREE :: u8 where "MESSAGES_TOPIC_CASSETTE_SUBTOPIC_FREE = 0xfc"
definition MESSAGES_TOPIC_CASSETTE_SUBTOPIC_MAX :: u8 where "MESSAGES_TOPIC_CASSETTE_SUBTOPIC_MAX = 0xfd"
definition MESSAGES_TOPIC_ALL :: u8 where "MESSAGES_TOPIC_ALL = 0xff"
definition MESSAGES_TOPIC_ALL_SUBTOPIC_ALL :: u8 where "MESSAGES_TOPIC_ALL_SUBTOPIC_ALL = 0xff"

definition RPC_SUB_MAX :: nat where "RPC_SUB_MAX = 10"
definition RPC_PUB_TIMEOUT :: u32 where "RPC_PUB_TIMEOUT = 25"
definition RPC_INFO_TIMEOUT :: u32 where "RPC_INFO_TIMEOUT = 1000"
definition TMP_SIZE :: nat where "TMP_SIZE = 256"

lemmas flag_defs = MESSAGES_DATA_FLAG_END_def MESSAGES_DATA_FLAG_PUB_def MESSAGES_DATA_FLAG_ERROR_def
lemmas topic_defs = MESSAGES_TOPIC_PUBSUB_def MESSAGES_TOPIC_CLOCK_def MESSAGES_TOPIC_MOTOR_def MESSAGES_TOPIC_NETWORK_def
  MESSAGES_TOPIC_ROBOT_def MESSAGES_TOPIC_CASSETTE_def MESSAGES_TOPIC_ALL_def
lemmas subtopic_defs = MESSAGES_TOPIC_PUBSUB_SUBTOPIC_COUNT_def MESSAGES_TOPIC_PUBSUB_SUBTOPIC_FREE_def
  MESSAGES_TOPIC_PUBSUB_SUBTOPIC_MAX_def MESSAGES_TOPIC_PUBSUB_SUBTOPIC_LIST_def MESSAGES_TOPIC_PUBSUB_SUBTOPIC_ALL_def
  MESSAGES_TOPIC_CLOCK_SUBTOPIC_NOW_def MESSAGES_TOPIC_MOTOR_SUBTOPIC_ALL_def MESSAGES_TOPIC_NETWORK_SUBTOPIC_IPV4_def
  MESSAGES_TOPIC_ROBOT_SUBTOPIC_SPI_def MESSAGES_TOPIC_CASSETTE_SUBTOPIC_WRITE_def MESSAGES_TOPIC_CASSETTE_SUBTOPIC_CLOSE_def
  MESSAGES_TOPIC_CASSETTE_SUBTOPIC_OPEN_def MESSAGES_TOPIC_CASSETTE_SUBTOPIC_COUNT_def
  MESSAGES_TOPIC_CASSETTE_SUBTOPIC_FREE_def MESSAGES_TOPIC_CASSETTE_SUBTOPIC_MAX_def MESSAGES_TOPIC_ALL_SUBTOPIC_ALL_def

record rpcSubscription =
  active :: bool
  sub_req_id :: u16
  sub_topic :: u8
  sub_subtopic :: u8

record rpc_t =
  seq_id :: u8
  ipv4 :: octets
  motor :: "int list"
  cassette :: u8
  fp :: user_param_ptr
  tmp :: octets
  in_buf :: octets
  in_msg :: message_any
  out_buf :: octets
  out_msg :: message_any
  timestamp :: u32
  heartbeat :: u32
  published :: u32
  sendstats :: u32
  writePacket :: "nat option"
  subs :: "rpcSubscription list"

text \<open>
  What the calls act on: the clock, which stands still within a call, the motors, the user parameters, and the
  battery voltages last received from the master processor; \<open>periphery\<close> is for the packet writer.
\<close>

record ('h, 'x) robot =
  rpc :: rpc_t
  clock :: u32
  motors :: motor_state
  user_params :: "'h flash_state"
  main_battery :: u16
  backup_battery :: u16
  periphery :: 'x

type_synonym ('h, 'x, 'c) rpc_state = "('h, 'x) robot \<times> 'c"

record ('h, 'x, 'c) rpc_env =
  flash_dev :: "'h flash_hw"
  call_writePacket :: "nat \<Rightarrow> octets \<Rightarrow> nat \<Rightarrow> ('h, 'x, 'c) rpc_state \<Rightarrow> ('h, 'x, 'c) rpc_state option"

abbreviation rpc_of :: "('h, 'x, 'c) rpc_state \<Rightarrow> rpc_t" where "rpc_of s \<equiv> rpc (fst s)"

definition upd_rpc :: "(rpc_t \<Rightarrow> rpc_t) \<Rightarrow> ('h, 'x, 'c) rpc_state \<Rightarrow> ('h, 'x, 'c) rpc_state" where
  "upd_rpc f s = ((fst s)\<lparr>rpc := f (rpc (fst s))\<rparr>, snd s)"

definition chTimeElapsedSince :: "u32 \<Rightarrow> ('h, 'x, 'c) rpc_state \<Rightarrow> u32" where
  "chTimeElapsedSince start s = clock (fst s) - start"

text \<open>A call of a function of the flash or cassette layer.\<close>

definition on_params :: "('h flash_state \<Rightarrow> 'r \<times> 'h flash_state) \<Rightarrow> ('h, 'x, 'c) rpc_state \<Rightarrow> 'r \<times> ('h, 'x, 'c) rpc_state" where
  "on_params f s = (let (r, p) = f (user_params (fst s)) in (r, (fst s)\<lparr>user_params := p\<rparr>, snd s))"

section \<open>Sending\<close>

definition rpcSend ::
  "('h, 'x, 'c) rpc_env \<Rightarrow> message_any \<Rightarrow> ('h, 'x, 'c) rpc_state \<Rightarrow> (int \<times> ('h, 'x, 'c) rpc_state) option" where
  "rpcSend env message s =
     (case writePacket (rpc_of s) of
        None \<Rightarrow> Some (- 1, s)
      | Some w \<Rightarrow> do {
          (retval, b, outlen) \<leftarrow> message_serialize message (out_buf (rpc_of s)) SFP_CONFIG_MAX_PACKET_SIZE;
          let s = upd_rpc (\<lambda>r. r\<lparr>out_buf := b\<rparr>) s;
          s \<leftarrow> (if retval = 0 then do { n \<leftarrow> outlen; call_writePacket env w b n s } else Some s);
          Some (retval, s)
        })"

definition rpcSendData ::
  "('h, 'x, 'c) rpc_env \<Rightarrow> u16 \<Rightarrow> u8 \<Rightarrow> u8 \<Rightarrow> u8 \<Rightarrow> u8 \<Rightarrow> octets \<Rightarrow> ('h, 'x, 'c) rpc_state
     \<Rightarrow> (int \<times> ('h, 'x, 'c) rpc_state) option" where
  "rpcSendData env req_id topic subtopic flag n v s =
     (let m = message_data_frame req_id topic subtopic flag (chTimeElapsedSince (timestamp (rpc_of s)) s) n v
      in rpcSend env m (upd_rpc (\<lambda>r. r\<lparr>out_msg := m\<rparr>) s))"

definition rpcSendPub ::
  "('h, 'x, 'c) rpc_env \<Rightarrow> rpcSubscription \<Rightarrow> u8 \<Rightarrow> octets \<Rightarrow> ('h, 'x, 'c) rpc_state
     \<Rightarrow> (int \<times> ('h, 'x, 'c) rpc_state) option" where
  "rpcSendPub env sub n v s =
     rpcSendData env (sub_req_id sub) (sub_topic sub) (sub_subtopic sub) MESSAGES_DATA_FLAG_PUB n v s"

definition rpcSendPubError ::
  "('h, 'x, 'c) rpc_env \<Rightarrow> rpcSubscription \<Rightarrow> u8 \<Rightarrow> ('h, 'x, 'c) rpc_state \<Rightarrow> (int \<times> ('h, 'x, 'c) rpc_state) option" where
  "rpcSendPubError env sub err s =
     rpcSendData env (sub_req_id sub) (sub_topic sub) (sub_subtopic sub)
       (MESSAGES_DATA_FLAG_PUB OR MESSAGES_DATA_FLAG_ERROR OR MESSAGES_DATA_FLAG_END) 1 [err] s"

definition rpcSendRep ::
  "('h, 'x, 'c) rpc_env \<Rightarrow> message_read \<Rightarrow> u8 \<Rightarrow> octets \<Rightarrow> ('h, 'x, 'c) rpc_state
     \<Rightarrow> (int \<times> ('h, 'x, 'c) rpc_state) option" where
  "rpcSendRep env read n v s =
     rpcSendData env (read_req_id read) (read_topic read) (read_subtopic read) MESSAGES_DATA_FLAG_END n v s"

definition rpcSendRepError ::
  "('h, 'x, 'c) rpc_env \<Rightarrow> u16 \<Rightarrow> u8 \<Rightarrow> u8 \<Rightarrow> u8 \<Rightarrow> ('h, 'x, 'c) rpc_state
     \<Rightarrow> (int \<times> ('h, 'x, 'c) rpc_state) option" where
  "rpcSendRepError env req_id topic subtopic err s =
     rpcSendData env req_id topic subtopic (MESSAGES_DATA_FLAG_ERROR OR MESSAGES_DATA_FLAG_END) 1 [err] s"

text \<open>A call whose result is cast to void.\<close>

definition void :: "('r \<times> 's) option \<Rightarrow> 's option" where
  "void m = map_option snd m"

section \<open>Subscriptions\<close>

definition no_sub :: rpcSubscription where
  "no_sub = \<lparr>active = False, sub_req_id = 0, sub_topic = 0, sub_subtopic = 0\<rparr>"

definition sub_at :: "nat \<Rightarrow> ('h, 'x, 'c) rpc_state \<Rightarrow> rpcSubscription" where
  "sub_at i s = subs (rpc_of s) ! i"

definition upd_sub :: "nat \<Rightarrow> (rpcSubscription \<Rightarrow> rpcSubscription) \<Rightarrow> ('h, 'x, 'c) rpc_state \<Rightarrow> ('h, 'x, 'c) rpc_state" where
  "upd_sub i f s = upd_rpc (\<lambda>r. r\<lparr>subs := (subs r)[i := f (subs r ! i)]\<rparr>) s"

definition rpcSubReset :: "nat \<Rightarrow> ('h, 'x, 'c) rpc_state \<Rightarrow> ('h, 'x, 'c) rpc_state" where
  "rpcSubReset i s = upd_sub i (\<lambda>u. no_sub) s"

text \<open>
  The search returns only through \<open>subp\<close>: \<open>want\<close> tells whether it is not NULL, the result is the return value
  and the index stored. When \<open>subp\<close> is NULL a match does not end the loop.
\<close>

definition rpcSubFind :: "bool \<Rightarrow> u16 \<Rightarrow> ('h, 'x, 'c) rpc_state \<Rightarrow> int \<times> nat option" where
  "rpcSubFind want req_id s =
     (if want then
        (case filter (\<lambda>i. active (sub_at i s) \<and> sub_req_id (sub_at i s) = req_id) [0..<RPC_SUB_MAX] of
           [] \<Rightarrow> (0, None)
         | i # _ \<Rightarrow> (1, Some i))
      else (0, None))"

definition rpcSubFree :: "('h, 'x, 'c) rpc_state \<Rightarrow> nat \<times> nat option" where
  "rpcSubFree s =
     (let free = filter (\<lambda>i. \<not> active (sub_at i s)) [0..<RPC_SUB_MAX]
      in (length free, case free of [] \<Rightarrow> None | i # _ \<Rightarrow> Some i))"

definition rpcRecvSubscribe ::
  "('h, 'x, 'c) rpc_env \<Rightarrow> message_subscribe \<Rightarrow> ('h, 'x, 'c) rpc_state \<Rightarrow> ('h, 'x, 'c) rpc_state option" where
  "rpcRecvSubscribe env m s = do {
     let new = \<lparr>active = True, sub_req_id = subscribe_req_id m, sub_topic = subscribe_topic m,
                sub_subtopic = subscribe_subtopic m\<rparr>;
     s \<leftarrow> (if fst (rpcSubFind False (subscribe_req_id m) s) \<noteq> 0
           then void (rpcSendPubError env new MESSAGES_ERROR_BAD_REQ_ID s) else Some s);
     (case rpcSubFree s of
        (n, p) \<Rightarrow> if n = 0 then void (rpcSendPubError env new MESSAGES_ERROR_SUB_MAX s)
                  else do { i \<leftarrow> p; Some (upd_sub i (\<lambda>u. new) s) })
   }"

definition rpcRecvUnsubscribe ::
  "('h, 'x, 'c) rpc_env \<Rightarrow> message_unsubscribe \<Rightarrow> ('h, 'x, 'c) rpc_state \<Rightarrow> ('h, 'x, 'c) rpc_state option" where
  "rpcRecvUnsubscribe env m s = do {
     let flag = MESSAGES_DATA_FLAG_PUB OR MESSAGES_DATA_FLAG_END;
     let new = \<lparr>active = True, sub_req_id = unsubscribe_req_id m, sub_topic = MESSAGES_TOPIC_ALL,
                sub_subtopic = MESSAGES_TOPIC_ALL_SUBTOPIC_ALL\<rparr>;
     (case rpcSubFind True (unsubscribe_req_id m) s of
        (_, None) \<Rightarrow> do {
          s \<leftarrow> void (rpcSendPubError env new MESSAGES_ERROR_BAD_REQ_ID s);
          void (rpcSendData env (sub_req_id new) (sub_topic new) (sub_subtopic new) flag 0 [] s) }
      | (_, Some i) \<Rightarrow> do {
          s \<leftarrow> void (rpcSendData env (sub_req_id (sub_at i s)) (sub_topic (sub_at i s)) (sub_subtopic (sub_at i s)) flag 0 [] s);
          Some (rpcSubReset i s) })
   }"

section \<open>Values\<close>

type_synonym u64 = "64 word"

definition mem64 :: "u64 \<Rightarrow> octets" where
  "mem64 w = mem32 (ucast w) @ mem32 (ucast (drop_bit 32 w))"

definition htonll :: "u64 \<Rightarrow> u64" where
  "htonll w = push_bit 32 (ucast (htonl (ucast w))) OR ucast (htonl (ucast (drop_bit 32 w)))"

text \<open>The two's complement octet of an \<open>int8_t\<close>, and the \<open>int8_t\<close> of an octet.\<close>

definition octet_of :: "int \<Rightarrow> u8" where "octet_of v = word_of_int v"

definition int8_of :: "u8 \<Rightarrow> int" where "int8_of b = sint b"

text \<open>Storing the octets appended so far at the start of the scratch buffer.\<close>

definition put_tmp :: "octets \<Rightarrow> ('h, 'x, 'c) rpc_state \<Rightarrow> ('h, 'x, 'c) rpc_state option" where
  "put_tmp octs s = do { t \<leftarrow> memcpy (tmp (rpc_of s)) 0 octs; Some (upd_rpc (\<lambda>r. r\<lparr>tmp := t\<rparr>) s) }"

section \<open>Publications\<close>

definition rpcPublishClock :: "('h, 'x, 'c) rpc_env \<Rightarrow> nat \<Rightarrow> ('h, 'x, 'c) rpc_state \<Rightarrow> ('h, 'x, 'c) rpc_state option" where
  "rpcPublishClock env i s =
     (if sub_subtopic (sub_at i s) = MESSAGES_TOPIC_CLOCK_SUBTOPIC_NOW
      then void (rpcSendPub env (sub_at i s) 8 (mem64 (htonll (ucast (clock (fst s))))) s)
      else do {
        s \<leftarrow> void (rpcSendPubError env (sub_at i s) MESSAGES_ERROR_BAD_SUBTOPIC s);
        Some (rpcSubReset i s) })"

text \<open>The loop over the motors: the octets of those that changed, the cache being updated.\<close>

fun changed_motors :: "int list \<Rightarrow> ('h, 'x, 'c) rpc_state \<Rightarrow> octets \<times> ('h, 'x, 'c) rpc_state" where
  "changed_motors [] s = ([], s)"
| "changed_motors (i # is) s =
     (let v = i8 (vexMotorGet i (motors (fst s))) in
      if v = motor (rpc_of s) ! nat i then changed_motors is s
      else let (octs, s) = changed_motors is (upd_rpc (\<lambda>r. r\<lparr>motor := (motor r)[nat i := v]\<rparr>) s)
           in (octet_of i # octet_of v # octs, s))"

definition rpcPublishMotor :: "('h, 'x, 'c) rpc_env \<Rightarrow> nat \<Rightarrow> ('h, 'x, 'c) rpc_state \<Rightarrow> ('h, 'x, 'c) rpc_state option" where
  "rpcPublishMotor env i s =
     (let t = sub_subtopic (sub_at i s) in
      if uint t < kVexMotorNum then
        let v = i8 (vexMotorGet (uint t) (motors (fst s))) in
        if v = motor (rpc_of s) ! unat t then Some s
        else let s = upd_rpc (\<lambda>r. r\<lparr>motor := (motor r)[unat t := v]\<rparr>) s
             in void (rpcSendPub env (sub_at i s) 1 [octet_of v] s)
      else if t = MESSAGES_TOPIC_MOTOR_SUBTOPIC_ALL then
        (case changed_motors [kVexMotor_1..kVexMotorNum - 1] s of (octs, s) \<Rightarrow> do {
           s \<leftarrow> put_tmp octs s;
           (if length octs > 0
            then void (rpcSendPub env (sub_at i s) (word_of_nat (length octs)) (tmp (rpc_of s)) s)
            else Some s) })
      else do {
        s \<leftarrow> void (rpcSendPubError env (sub_at i s) MESSAGES_ERROR_BAD_SUBTOPIC s);
        Some (rpcSubReset i s) })"

definition rpcPublishAll :: "('h, 'x, 'c) rpc_env \<Rightarrow> nat \<Rightarrow> ('h, 'x, 'c) rpc_state \<Rightarrow> ('h, 'x, 'c) rpc_state option" where
  "rpcPublishAll env i s =
     (if sub_subtopic (sub_at i s) = MESSAGES_TOPIC_ALL_SUBTOPIC_ALL then do {
        let topic = sub_topic (sub_at i s);
        let subtopic = sub_subtopic (sub_at i s);
        let s = upd_sub i (\<lambda>u. u\<lparr>sub_topic := MESSAGES_TOPIC_CLOCK, sub_subtopic := MESSAGES_TOPIC_CLOCK_SUBTOPIC_NOW\<rparr>) s;
        s \<leftarrow> rpcPublishClock env i s;
        let s = upd_sub i (\<lambda>u. u\<lparr>sub_topic := MESSAGES_TOPIC_MOTOR, sub_subtopic := MESSAGES_TOPIC_MOTOR_SUBTOPIC_ALL\<rparr>) s;
        s \<leftarrow> rpcPublishMotor env i s;
        Some (upd_sub i (\<lambda>u. u\<lparr>sub_topic := topic, sub_subtopic := subtopic\<rparr>) s) }
      else do {
        s \<leftarrow> void (rpcSendPubError env (sub_at i s) MESSAGES_ERROR_BAD_SUBTOPIC s);
        Some (rpcSubReset i s) })"

definition rpcPublish :: "('h, 'x, 'c) rpc_env \<Rightarrow> nat \<Rightarrow> ('h, 'x, 'c) rpc_state \<Rightarrow> ('h, 'x, 'c) rpc_state option" where
  "rpcPublish env i s =
     (if \<not> active (sub_at i s) then Some s
      else let t = sub_topic (sub_at i s) in
      if t = MESSAGES_TOPIC_CLOCK then rpcPublishClock env i s
      else if t = MESSAGES_TOPIC_MOTOR then rpcPublishMotor env i s
      else if t = MESSAGES_TOPIC_ALL then rpcPublishAll env i s
      else do {
        s \<leftarrow> void (rpcSendPubError env (sub_at i s) MESSAGES_ERROR_BAD_TOPIC s);
        Some (rpcSubReset i s) })"

fun publish_loop :: "('h, 'x, 'c) rpc_env \<Rightarrow> nat list \<Rightarrow> ('h, 'x, 'c) rpc_state \<Rightarrow> ('h, 'x, 'c) rpc_state option" where
  "publish_loop env [] s = Some s"
| "publish_loop env (i # is) s = do {
     s \<leftarrow> (if active (sub_at i s) then rpcPublish env i s else Some s);
     publish_loop env is s }"

definition rpcLoop :: "('h, 'x, 'c) rpc_env \<Rightarrow> ('h, 'x, 'c) rpc_state \<Rightarrow> ('h, 'x, 'c) rpc_state option" where
  "rpcLoop env s = do {
     s \<leftarrow> (if chTimeElapsedSince (published (rpc_of s)) s \<ge> RPC_PUB_TIMEOUT
           then do { s \<leftarrow> publish_loop env [0..<RPC_SUB_MAX] s; Some (upd_rpc (\<lambda>r. r\<lparr>published := clock (fst s)\<rparr>) s) }
           else Some s);
     (if chTimeElapsedSince (sendstats (rpc_of s)) s \<ge> RPC_INFO_TIMEOUT then do {
        s \<leftarrow> put_tmp (mem32 (htonl (clock (fst s))) @ mem16 (htons (main_battery (fst s))) @
               mem16 (htons (backup_battery (fst s)))) s;
        let m = message_info_frame MESSAGES_TOPIC_ROBOT MESSAGES_TOPIC_ROBOT_SUBTOPIC_SPI 8 (tmp (rpc_of s));
        s \<leftarrow> void (rpcSend env m (upd_rpc (\<lambda>r. r\<lparr>out_msg := m\<rparr>) s));
        Some (upd_rpc (\<lambda>r. r\<lparr>sendstats := clock (fst s)\<rparr>) s) }
      else Some s)
   }"

section \<open>Requests: reading\<close>

text \<open>The list of the active subscriptions, five octets each.\<close>

definition list_subs :: "('h, 'x, 'c) rpc_state \<Rightarrow> octets" where
  "list_subs s = concat (map (\<lambda>i. let u = sub_at i s in
       [word_of_nat i] @ mem16 (htons (sub_req_id u)) @ [sub_topic u, sub_subtopic u])
     (filter (\<lambda>i. active (sub_at i s)) [0..<RPC_SUB_MAX]))"

definition rpcRecvReadPubsub ::
  "('h, 'x, 'c) rpc_env \<Rightarrow> message_read \<Rightarrow> ('h, 'x, 'c) rpc_state \<Rightarrow> ('h, 'x, 'c) rpc_state option" where
  "rpcRecvReadPubsub env read s =
     (let t = read_subtopic read; q = read_req_id read; topic = read_topic read in
      if unat t < RPC_SUB_MAX then
        let u = sub_at (unat t) s in
        if \<not> active u then void (rpcSendRep env read 0 [] s)
        else do {
          s \<leftarrow> put_tmp (mem16 (htons (sub_req_id u)) @ [sub_topic u, sub_subtopic u]) s;
          void (rpcSendRep env read 4 (tmp (rpc_of s)) s) }
      else if t = MESSAGES_TOPIC_PUBSUB_SUBTOPIC_COUNT then
        void (rpcSendRep env read 1 [word_of_nat RPC_SUB_MAX - word_of_nat (fst (rpcSubFree s))] s)
      else if t = MESSAGES_TOPIC_PUBSUB_SUBTOPIC_FREE then
        void (rpcSendRep env read 1 [word_of_nat (fst (rpcSubFree s))] s)
      else if t = MESSAGES_TOPIC_PUBSUB_SUBTOPIC_MAX then
        void (rpcSendRep env read 1 [word_of_nat RPC_SUB_MAX] s)
      else if t = MESSAGES_TOPIC_PUBSUB_SUBTOPIC_LIST then do {
        let octs = list_subs s;
        s \<leftarrow> put_tmp octs s;
        void (rpcSendRep env read (word_of_nat (length octs)) (tmp (rpc_of s)) s) }
      else if t = MESSAGES_TOPIC_PUBSUB_SUBTOPIC_ALL then do {
        let octs = list_subs s;
        s \<leftarrow> put_tmp octs s;
        s \<leftarrow> void (rpcSendData env q topic MESSAGES_TOPIC_PUBSUB_SUBTOPIC_LIST 0 (word_of_nat (length octs)) (tmp (rpc_of s)) s);
        s \<leftarrow> void (rpcSendData env q topic MESSAGES_TOPIC_PUBSUB_SUBTOPIC_COUNT 0 1
                    [word_of_nat RPC_SUB_MAX - word_of_nat (fst (rpcSubFree s))] s);
        s \<leftarrow> void (rpcSendData env q topic MESSAGES_TOPIC_PUBSUB_SUBTOPIC_FREE 0 1 [word_of_nat (fst (rpcSubFree s))] s);
        s \<leftarrow> void (rpcSendData env q topic MESSAGES_TOPIC_PUBSUB_SUBTOPIC_MAX 0 1 [word_of_nat RPC_SUB_MAX] s);
        void (rpcSendData env q topic t (0 OR MESSAGES_DATA_FLAG_END) 0 [] s) }
      else void (rpcSendRepError env q topic t MESSAGES_ERROR_BAD_SUBTOPIC s))"

definition rpcRecvReadClock ::
  "('h, 'x, 'c) rpc_env \<Rightarrow> message_read \<Rightarrow> ('h, 'x, 'c) rpc_state \<Rightarrow> ('h, 'x, 'c) rpc_state option" where
  "rpcRecvReadClock env read s =
     (if read_subtopic read = MESSAGES_TOPIC_CLOCK_SUBTOPIC_NOW
      then void (rpcSendRep env read 8 (mem64 (htonll (ucast (clock (fst s))))) s)
      else void (rpcSendRepError env (read_req_id read) (read_topic read) (read_subtopic read) MESSAGES_ERROR_BAD_SUBTOPIC s))"

text \<open>The loop over all motors: index and value of each, the cache being updated.\<close>

fun all_motors :: "int list \<Rightarrow> ('h, 'x, 'c) rpc_state \<Rightarrow> octets \<times> ('h, 'x, 'c) rpc_state" where
  "all_motors [] s = ([], s)"
| "all_motors (i # is) s =
     (let v = i8 (vexMotorGet i (motors (fst s)));
          s = (if v \<noteq> motor (rpc_of s) ! nat i then upd_rpc (\<lambda>r. r\<lparr>motor := (motor r)[nat i := v]\<rparr>) s else s);
          (octs, s) = all_motors is s
      in (octet_of i # octet_of v # octs, s))"

definition rpcRecvReadMotor ::
  "('h, 'x, 'c) rpc_env \<Rightarrow> message_read \<Rightarrow> ('h, 'x, 'c) rpc_state \<Rightarrow> ('h, 'x, 'c) rpc_state option" where
  "rpcRecvReadMotor env read s =
     (let t = read_subtopic read in
      if uint t < kVexMotorNum then
        let v = i8 (vexMotorGet (uint t) (motors (fst s)));
            s = (if v \<noteq> motor (rpc_of s) ! unat t then upd_rpc (\<lambda>r. r\<lparr>motor := (motor r)[unat t := v]\<rparr>) s else s)
        in void (rpcSendRep env read 1 [octet_of v] s)
      else if t = MESSAGES_TOPIC_MOTOR_SUBTOPIC_ALL then
        (case all_motors [kVexMotor_1..kVexMotorNum - 1] s of (octs, s) \<Rightarrow> do {
           s \<leftarrow> put_tmp octs s;
           void (rpcSendRep env read (word_of_nat (length octs)) (tmp (rpc_of s)) s) })
      else void (rpcSendRepError env (read_req_id read) (read_topic read) t MESSAGES_ERROR_BAD_SUBTOPIC s))"

text \<open>When the cassette is open, the code reads through its local pointer, which is NULL: that is \<open>None\<close>.\<close>

definition rpcRecvReadCassette ::
  "('h, 'x, 'c) rpc_env \<Rightarrow> message_read \<Rightarrow> ('h, 'x, 'c) rpc_state \<Rightarrow> ('h, 'x, 'c) rpc_state option" where
  "rpcRecvReadCassette env read s =
     (let t = read_subtopic read in
      if t < cassetteMax then
        (if fp (rpc_of s) \<noteq> NO_PARAM then
           let (r, s) = on_params (vexFlashUserParamWrite (flash_dev env) (fp (rpc_of s))) s
           in void (rpcSendRep env read 0 [] s)
         else
           let (p, s) = on_params (cassetteOpenRead (flash_dev env) t) s in
           if p = NO_PARAM then void (rpcSendRep env read 0 [] s)
           else do {
             let d = data (params (user_params (fst s)));
             let rlen = d ! 0;
             (rlen, s) \<leftarrow> (if rlen > 0 \<and> rlen < 32 then do {
                  octs \<leftarrow> load (drop 1 d) (unat rlen);
                  s \<leftarrow> put_tmp octs s;
                  s \<leftarrow> void (rpcSendData env (read_req_id read) (read_topic read) t 0 rlen (tmp (rpc_of s)) s);
                  Some (rlen, s) }
                else Some (0, s));
             void (rpcSendRep env read 4 (mem32 (htonl (ucast rlen))) s) })
      else if t = MESSAGES_TOPIC_CASSETTE_SUBTOPIC_OPEN then
        (if fp (rpc_of s) \<noteq> NO_PARAM then None
         else do {
           s \<leftarrow> put_tmp (cassette (rpc_of s) # mem32 (htonl 0)) s;
           void (rpcSendRep env read 5 (tmp (rpc_of s)) s) })
      else if t = MESSAGES_TOPIC_CASSETTE_SUBTOPIC_COUNT then
        let (v, s) = on_params (cassetteCount (flash_dev env)) s in void (rpcSendRep env read 1 [v] s)
      else if t = MESSAGES_TOPIC_CASSETTE_SUBTOPIC_FREE then
        let (v, s) = on_params (cassetteFree (flash_dev env)) s in void (rpcSendRep env read 1 [v] s)
      else if t = MESSAGES_TOPIC_CASSETTE_SUBTOPIC_MAX then void (rpcSendRep env read 1 [cassetteMax] s)
      else void (rpcSendRepError env (read_req_id read) (read_topic read) t MESSAGES_ERROR_BAD_SUBTOPIC s))"

definition rpcRecvRead ::
  "('h, 'x, 'c) rpc_env \<Rightarrow> message_read \<Rightarrow> ('h, 'x, 'c) rpc_state \<Rightarrow> ('h, 'x, 'c) rpc_state option" where
  "rpcRecvRead env read s =
     (let t = read_topic read in
      if t = MESSAGES_TOPIC_PUBSUB then rpcRecvReadPubsub env read s
      else if t = MESSAGES_TOPIC_CLOCK then rpcRecvReadClock env read s
      else if t = MESSAGES_TOPIC_MOTOR then rpcRecvReadMotor env read s
      else if t = MESSAGES_TOPIC_CASSETTE then rpcRecvReadCassette env read s
      else void (rpcSendRepError env (read_req_id read) t (read_subtopic read) MESSAGES_ERROR_BAD_TOPIC s))"

section \<open>Requests: writing\<close>

text \<open>The loop over the pairs of index and value; what it reads has been checked to be there.\<close>

fun write_motors :: "octets \<Rightarrow> motor_state \<Rightarrow> motor_state" where
  "write_motors (index # v # rest) m =
     write_motors rest
       (if int8_of index \<ge> kVexMotor_1 \<and> int8_of index < kVexMotorNum then vexMotorSet (int8_of index) (int8_of v) m else m)"
| "write_motors _ m = m"

definition upd_motors :: "(motor_state \<Rightarrow> motor_state) \<Rightarrow> ('h, 'x, 'c) rpc_state \<Rightarrow> ('h, 'x, 'c) rpc_state" where
  "upd_motors f s = ((fst s)\<lparr>motors := f (motors (fst s))\<rparr>, snd s)"

definition rpcRecvWriteMotor :: "message_write \<Rightarrow> ('h, 'x, 'c) rpc_state \<Rightarrow> ('h, 'x, 'c) rpc_state option" where
  "rpcRecvWriteMotor w s =
     (let t = write_subtopic w; n = write_len w in
      if t = MESSAGES_TOPIC_MOTOR_SUBTOPIC_ALL then
        (if n = 0 \<or> n mod 2 \<noteq> 0 then Some s
         else do { octs \<leftarrow> load (write_value w) (2 * unat (n div 2)); Some (upd_motors (write_motors octs) s) })
      else if uint t \<ge> kVexMotorNum then Some s
      else if n \<noteq> 1 then Some s
      else do {
        v \<leftarrow> rd (write_value w) 0;
        Some (upd_motors (vexMotorSet (int8_of t) (int8_of v)) s) })"

definition upd_data :: "(octets \<Rightarrow> octets) \<Rightarrow> ('h, 'x, 'c) rpc_state \<Rightarrow> ('h, 'x, 'c) rpc_state" where
  "upd_data f s = snd (on_params (\<lambda>p. ((), p\<lparr>params := (params p)\<lparr>data := f (data (params p))\<rparr>\<rparr>)) s)"

definition rpcRecvWriteCassette ::
  "('h, 'x, 'c) rpc_env \<Rightarrow> message_write \<Rightarrow> ('h, 'x, 'c) rpc_state \<Rightarrow> ('h, 'x, 'c) rpc_state option" where
  "rpcRecvWriteCassette env w s =
     (let t = write_subtopic w; n = write_len w in
      if t = MESSAGES_TOPIC_CASSETTE_SUBTOPIC_OPEN then
        (if n \<noteq> 1 then Some s
         else do {
           b \<leftarrow> rd (write_value w) 0;
           if b \<ge> cassetteMax then Some s
           else if cassette (rpc_of s) \<noteq> 0xff then Some s
           else
             let s = upd_rpc (\<lambda>r. r\<lparr>cassette := b\<rparr>) s;
                 (p, s) = on_params (cassetteOpenWrite (flash_dev env) b) s;
                 s = upd_rpc (\<lambda>r. r\<lparr>fp := p\<rparr>) s
             in Some (if p = NO_PARAM then upd_rpc (\<lambda>r. r\<lparr>cassette := 0xff\<rparr>) s else s) })
      else if t = MESSAGES_TOPIC_CASSETTE_SUBTOPIC_CLOSE then
        (if n \<noteq> 1 then Some s
         else do {
           b \<leftarrow> rd (write_value w) 0;
           if b \<ge> cassetteMax then Some s
           else if cassette (rpc_of s) = 0xff \<and> fp (rpc_of s) = NO_PARAM then Some s
           else if cassette (rpc_of s) \<noteq> b then Some s
           else
             let s = upd_rpc (\<lambda>r. r\<lparr>cassette := 0xff\<rparr>) s;
                 (r, s) = on_params (vexFlashUserParamWrite (flash_dev env) (fp (rpc_of s))) s
             in Some (upd_rpc (\<lambda>r. r\<lparr>fp := NO_PARAM\<rparr>) s) })
      else if t = MESSAGES_TOPIC_CASSETTE_SUBTOPIC_WRITE then
        (if n = 1 \<or> n > 2 then Some s
         else do {
           b \<leftarrow> rd (write_value w) 0;
           if b \<ge> cassetteMax then Some s
           else if cassette (rpc_of s) = 0xff \<and> fp (rpc_of s) = NO_PARAM then Some s
           else if cassette (rpc_of s) \<noteq> b then Some s
           else if fp (rpc_of s) = NO_PARAM then None
           else
             let wlen = data (params (user_params (fst s))) ! 0 in
             if wlen \<ge> 31 then Some (upd_rpc (\<lambda>r. r\<lparr>cassette := 0xff, fp := NO_PARAM\<rparr>) s)
             else do {
               v \<leftarrow> rd (write_value w) 1;
               let s = upd_data (\<lambda>d. d[unat wlen := v]) s;
               let s = upd_data (\<lambda>d. d[0 := wlen + 1]) s;
               Some (snd (on_params (vexFlashUserParamWrite (flash_dev env) (fp (rpc_of s))) s)) } })
      else Some s)"

definition rpcRecvWrite ::
  "('h, 'x, 'c) rpc_env \<Rightarrow> message_write \<Rightarrow> ('h, 'x, 'c) rpc_state \<Rightarrow> ('h, 'x, 'c) rpc_state option" where
  "rpcRecvWrite env w s =
     (let t = write_topic w in
      if t = MESSAGES_TOPIC_MOTOR then rpcRecvWriteMotor w s
      else if t = MESSAGES_TOPIC_CASSETTE then rpcRecvWriteCassette env w s
      else void (rpcSendRepError env (write_req_id w) t (write_subtopic w) MESSAGES_ERROR_BAD_TOPIC s))"

section \<open>Receiving\<close>

definition rpcRecvPing ::
  "('h, 'x, 'c) rpc_env \<Rightarrow> message_ping \<Rightarrow> ('h, 'x, 'c) rpc_state \<Rightarrow> ('h, 'x, 'c) rpc_state option" where
  "rpcRecvPing env ping s =
     (let m = message_pong_frame (ping_seq_id ping)
      in void (rpcSend env m (upd_rpc (\<lambda>r. r\<lparr>seq_id := ping_seq_id ping, out_msg := m\<rparr>) s)))"

definition rpcRecvInfoNetwork :: "message_info \<Rightarrow> ('h, 'x, 'c) rpc_state \<Rightarrow> ('h, 'x, 'c) rpc_state option" where
  "rpcRecvInfoNetwork info s =
     (if info_subtopic info = MESSAGES_TOPIC_NETWORK_SUBTOPIC_IPV4 then
        (if info_len info \<noteq> 4 then Some s
         else do { v \<leftarrow> load (info_value info) 4; Some (upd_rpc (\<lambda>r. r\<lparr>ipv4 := v\<rparr>) s) })
      else Some s)"

definition rpcRecvInfo :: "message_info \<Rightarrow> ('h, 'x, 'c) rpc_state \<Rightarrow> ('h, 'x, 'c) rpc_state option" where
  "rpcRecvInfo info s =
     (if info_topic info = MESSAGES_TOPIC_NETWORK then rpcRecvInfoNetwork info s else Some s)"

definition rpcRecv ::
  "('h, 'x, 'c) rpc_env \<Rightarrow> message_any \<Rightarrow> ('h, 'x, 'c) rpc_state \<Rightarrow> ('h, 'x, 'c) rpc_state option" where
  "rpcRecv env message s =
     (let beat = map_option (\<lambda>s. upd_rpc (\<lambda>r. r\<lparr>heartbeat := clock (fst s)\<rparr>) s) in
      (case message of
         Ping m \<Rightarrow> beat (rpcRecvPing env m s)
       | Pong m \<Rightarrow> beat (Some s)
       | Info m \<Rightarrow> beat (rpcRecvInfo m s)
       | Data m \<Rightarrow> beat (Some s)
       | Read m \<Rightarrow> beat (rpcRecvRead env m s)
       | Write m \<Rightarrow> beat (rpcRecvWrite env m s)
       | Subscribe m \<Rightarrow> beat (rpcRecvSubscribe env m s)
       | Unsubscribe m \<Rightarrow> beat (rpcRecvUnsubscribe env m s)
       | Other op \<Rightarrow> Some s))"

end
