(* ===== verification/Rpc_Lemmas.thy ===== *)
theory Rpc_Lemmas
  imports Rpc
begin

text \<open>
  The contract between the remote procedure calls and the packet writer (locale \<open>rpc_transport\<close>), and what each
  call sends and changes under it. \<open>core\<close> is the state without the scratch buffers and the writer's part.
\<close>

lemma filter_ConsD: "filter P xs = i # ys \<Longrightarrow> i \<in> set xs \<and> P i"
  by (drule arg_cong [of _ _ set]) auto

section \<open>The state without buffers\<close>

definition core :: "('h, 'x, 'c) rpc_state \<Rightarrow> ('h, unit) robot" where
  "core s = \<lparr>rpc = (rpc_of s)\<lparr>tmp := [], out_buf := [], out_msg := Other 0\<rparr>, clock = clock (fst s), motors = motors (fst s),
     user_params = user_params (fst s), main_battery = main_battery (fst s), backup_battery = backup_battery (fst s), periphery = ()\<rparr>"

definition scratch_ok :: "('h, 'x, 'c) rpc_state \<Rightarrow> bool" where
  "scratch_ok s \<longleftrightarrow> length (tmp (rpc_of s)) = 256 \<and> length (out_buf (rpc_of s)) = 256"

lemma core_simps [simp]:
  "clock (core s) = clock (fst s)" "motors (core s) = motors (fst s)" "user_params (core s) = user_params (fst s)"
  "main_battery (core s) = main_battery (fst s)" "backup_battery (core s) = backup_battery (fst s)"
  "rpc (core s) = (rpc_of s)\<lparr>tmp := [], out_buf := [], out_msg := Other 0\<rparr>"
  by (simp_all add: core_def)

lemma core_eqD:
  assumes "core s' = core s"
  shows "clock (fst s') = clock (fst s)" "motors (fst s') = motors (fst s)" "user_params (fst s') = user_params (fst s)"
    "main_battery (fst s') = main_battery (fst s)" "backup_battery (fst s') = backup_battery (fst s)"
    "seq_id (rpc_of s') = seq_id (rpc_of s)" "ipv4 (rpc_of s') = ipv4 (rpc_of s)" "motor (rpc_of s') = motor (rpc_of s)"
    "cassette (rpc_of s') = cassette (rpc_of s)" "fp (rpc_of s') = fp (rpc_of s)"
    "timestamp (rpc_of s') = timestamp (rpc_of s)" "heartbeat (rpc_of s') = heartbeat (rpc_of s)"
    "published (rpc_of s') = published (rpc_of s)" "sendstats (rpc_of s') = sendstats (rpc_of s)"
    "subs (rpc_of s') = subs (rpc_of s)" "writePacket (rpc_of s') = writePacket (rpc_of s)"
proof -
  show "clock (fst s') = clock (fst s)" "motors (fst s') = motors (fst s)" "user_params (fst s') = user_params (fst s)"
    "main_battery (fst s') = main_battery (fst s)" "backup_battery (fst s') = backup_battery (fst s)"
    using assms by (metis core_simps(1), metis core_simps(2), metis core_simps(3), metis core_simps(4), metis core_simps(5))
  have r: "(rpc_of s')\<lparr>tmp := [], out_buf := [], out_msg := Other 0\<rparr> = (rpc_of s)\<lparr>tmp := [], out_buf := [], out_msg := Other 0\<rparr>"
    using assms by (metis core_simps(6))
  show "seq_id (rpc_of s') = seq_id (rpc_of s)" using arg_cong [OF r, of seq_id] by simp
  show "ipv4 (rpc_of s') = ipv4 (rpc_of s)" using arg_cong [OF r, of ipv4] by simp
  show "motor (rpc_of s') = motor (rpc_of s)" using arg_cong [OF r, of motor] by simp
  show "cassette (rpc_of s') = cassette (rpc_of s)" using arg_cong [OF r, of cassette] by simp
  show "fp (rpc_of s') = fp (rpc_of s)" using arg_cong [OF r, of fp] by simp
  show "timestamp (rpc_of s') = timestamp (rpc_of s)" using arg_cong [OF r, of timestamp] by simp
  show "heartbeat (rpc_of s') = heartbeat (rpc_of s)" using arg_cong [OF r, of heartbeat] by simp
  show "published (rpc_of s') = published (rpc_of s)" using arg_cong [OF r, of published] by simp
  show "sendstats (rpc_of s') = sendstats (rpc_of s)" using arg_cong [OF r, of sendstats] by simp
  show "subs (rpc_of s') = subs (rpc_of s)" using arg_cong [OF r, of subs] by simp
  show "writePacket (rpc_of s') = writePacket (rpc_of s)" using arg_cong [OF r, of writePacket] by simp
qed

text \<open>The octets of a data message sent in state \<open>s\<close>.\<close>

definition data_octets :: "u16 \<Rightarrow> u8 \<Rightarrow> u8 \<Rightarrow> u8 \<Rightarrow> octets \<Rightarrow> ('h, 'x, 'c) rpc_state \<Rightarrow> octets" where
  "data_octets q t u f v s =
     message_octets (message_data_frame q t u f (clock (fst s) - timestamp (rpc_of s)) (word_of_nat (length v)) v)"

lemma data_octets_core: "core s' = core s \<Longrightarrow> data_octets q t u f v s' = data_octets q t u f v s"
  using core_eqD(1,11) [of s' s] by (simp add: data_octets_def)

text \<open>The invariant of the rpc state while connected.\<close>

definition core_inv :: "('h, unit) robot \<Rightarrow> bool" where
  "core_inv r \<longleftrightarrow> length (motor (rpc r)) = 10 \<and> length (subs (rpc r)) = 10 \<and> length (ipv4 (rpc r)) = 4 \<and>
     length (vexMotors (motors r)) = 10 \<and> length (data (params (user_params r))) = 32 \<and>
     (cassette (rpc r) = 0xff \<and> fp (rpc r) = NO_PARAM \<or> cassette (rpc r) = 0 \<and> fp (rpc r) = PARAMS)"

text \<open>
  The two requests that read outside what they own: asking which cassette is open while one is, and an empty write
  to the cassette.
\<close>

fun request_ok :: "('h, unit) robot \<Rightarrow> message_any \<Rightarrow> bool" where
  "request_ok r (Read m) \<longleftrightarrow> \<not> (read_topic m = MESSAGES_TOPIC_CASSETTE \<and>
     read_subtopic m = MESSAGES_TOPIC_CASSETTE_SUBTOPIC_OPEN \<and> fp (rpc r) \<noteq> NO_PARAM)"
| "request_ok r (Write w) \<longleftrightarrow> \<not> (write_topic w = MESSAGES_TOPIC_CASSETTE \<and>
     write_subtopic w = MESSAGES_TOPIC_CASSETTE_SUBTOPIC_WRITE \<and> write_len w = 0)"
| "request_ok r m \<longleftrightarrow> True"

section \<open>Interface: the packet writer\<close>

text \<open>
  While the connection is \<open>live\<close>, writing a packet succeeds, and is a step \<open>tx\<close> with its octets of the periphery and
  the writer's own component. Being live depends on the rpc state only through the time of the last heartbeat, the
  start of the connection and the writer.
\<close>

fun steps :: "('o \<Rightarrow> 's \<Rightarrow> 's \<Rightarrow> bool) \<Rightarrow> 'o list \<Rightarrow> 's \<Rightarrow> 's \<Rightarrow> bool" where
  "steps R [] s s' \<longleftrightarrow> s' = s"
| "steps R (x # xs) s s' \<longleftrightarrow> (\<exists>s1. R x s s1 \<and> steps R xs s1 s')"

lemma steps_append: "steps R (xs @ ys) s s' \<longleftrightarrow> (\<exists>s1. steps R xs s s1 \<and> steps R ys s1 s')"
  by (induction xs arbitrary: s) auto

lemma steps_fun: "steps (\<lambda>x s s'. s' = f x s) xs s s' \<longleftrightarrow> s' = fold f xs s"
  by (induction xs arbitrary: s) auto

locale rpc_transport =
  fixes env :: "('h, 'x, 'c) rpc_env"
    and live :: "('h, 'x, 'c) rpc_state \<Rightarrow> bool"
    and tx :: "octets \<Rightarrow> 'x \<times> 'c \<Rightarrow> 'x \<times> 'c \<Rightarrow> bool"
  assumes call: "live s \<Longrightarrow> writePacket (rpc_of s) = Some w \<Longrightarrow> n \<le> length b \<Longrightarrow> n \<le> 254 \<Longrightarrow>
      \<exists>x c. call_writePacket env w b n s = Some ((fst s)\<lparr>periphery := x\<rparr>, c) \<and>
        tx (take n b) (periphery (fst s), snd s) (x, c) \<and> live ((fst s)\<lparr>periphery := x\<rparr>, c)"
    and live_cong: "live s \<Longrightarrow> clock r = clock (fst s) \<Longrightarrow> periphery r = periphery (fst s) \<Longrightarrow>
      heartbeat (rpc r) = heartbeat (rpc_of s) \<Longrightarrow> timestamp (rpc r) = timestamp (rpc_of s) \<Longrightarrow>
      writePacket (rpc r) = writePacket (rpc_of s) \<Longrightarrow> live (r, snd s)"
    and live_beat: "live s \<Longrightarrow> live (upd_rpc (\<lambda>r. r\<lparr>heartbeat := clock (fst s)\<rparr>) s)"
    and live_writer: "live s \<Longrightarrow> writePacket (rpc_of s) \<noteq> None"
begin

text \<open>\<open>sends os s s'\<close>: from \<open>s\<close> to \<open>s'\<close> exactly the packets \<open>os\<close> went to the writer.\<close>

definition sends :: "octets list \<Rightarrow> ('h, 'x, 'c) rpc_state \<Rightarrow> ('h, 'x, 'c) rpc_state \<Rightarrow> bool" where
  "sends os s s' \<longleftrightarrow> live s' \<and> scratch_ok s' \<and> steps tx os (periphery (fst s), snd s) (periphery (fst s'), snd s')"

lemma sends_trans: "sends os s s1 \<Longrightarrow> sends os' s1 s2 \<Longrightarrow> sends (os @ os') s s2"
  by (auto simp: sends_def steps_append)

lemma sends_refl: "live s \<Longrightarrow> scratch_ok s \<Longrightarrow> sends [] s s"
  by (simp add: sends_def)

lemma live_upd_rpc:
  "live s \<Longrightarrow> heartbeat (f (rpc_of s)) = heartbeat (rpc_of s) \<Longrightarrow> timestamp (f (rpc_of s)) = timestamp (rpc_of s) \<Longrightarrow>
    writePacket (f (rpc_of s)) = writePacket (rpc_of s) \<Longrightarrow> live (upd_rpc f s)"
  unfolding upd_rpc_def by (rule live_cong) simp_all

lemma rpcSend_ok:
  assumes "live s" "scratch_ok s" "message_wf m" "message_getsizeof m \<le> 254"
  shows "\<exists>s'. rpcSend env m s = Some (0, s') \<and> sends [message_octets m] s s' \<and>
    core s' = core s \<and> tmp (rpc_of s') = tmp (rpc_of s)"
proof -
  obtain w where w: "writePacket (rpc_of s) = Some w" using live_writer [OF assms(1)] by auto
  have len: "length (message_octets m) = message_getsizeof m" using assms(3) by (rule length_message_octets)
  have lo: "length (out_buf (rpc_of s)) = 256" using assms(2) by (simp add: scratch_ok_def)
  have k: "message_getsizeof m \<le> 256" using assms(4) by simp
  define b where "b = message_octets m @ drop (message_getsizeof m) (out_buf (rpc_of s))"
  have b: "message_serialize m (out_buf (rpc_of s)) SFP_CONFIG_MAX_PACKET_SIZE = Some (0, b, Some (message_getsizeof m))"
    using serialize_octets [OF assms(3) k eq_imp_le [OF lo [symmetric]]] by (simp only: b_def SFP_CONFIG_MAX_PACKET_SIZE_def)
  have t: "take (message_getsizeof m) b = message_octets m" using len by (simp add: b_def)
  have lb: "length b = 256" using len lo k by (simp add: b_def)
  define s1 where "s1 = upd_rpc (\<lambda>r. r\<lparr>out_buf := b\<rparr>) s"
  have s1: "periphery (fst s1) = periphery (fst s)" "snd s1 = snd s" "core s1 = core s" "tmp (rpc_of s1) = tmp (rpc_of s)"
    "writePacket (rpc_of s1) = Some w" "scratch_ok s1"
    using w lb assms(2) by (simp_all add: s1_def upd_rpc_def core_def scratch_ok_def)
  have l: "live s1" unfolding s1_def by (rule live_upd_rpc [OF assms(1)]) simp_all
  obtain x c where xc: "call_writePacket env w b (message_getsizeof m) s1 = Some ((fst s1)\<lparr>periphery := x\<rparr>, c)"
    "tx (message_octets m) (periphery (fst s), snd s) (x, c)" "live ((fst s1)\<lparr>periphery := x\<rparr>, c)"
    using call [OF l s1(5) _ assms(4), of b] lb assms(4) t s1(1,2) by auto
  define s2 where "s2 = ((fst s1)\<lparr>periphery := x\<rparr>, c)"
  have "rpcSend env m s = Some (0, s2)"
    using w b xc(1) by (simp add: rpcSend_def s1_def [symmetric] s2_def Let_def)
  moreover have "live s2" "tx (message_octets m) (periphery (fst s), snd s) (periphery (fst s2), snd s2)"
    using xc(2,3) by (simp_all add: s2_def)
  moreover have "scratch_ok s2" "core s2 = core s" "tmp (rpc_of s2) = tmp (rpc_of s)"
    using s1 by (simp_all add: s2_def core_def scratch_ok_def)
  ultimately show ?thesis by (simp add: sends_def)
qed

text \<open>Sending a data message.\<close>

lemma rpcSendData_ok:
  assumes "live s" "scratch_ok s" "unat n \<le> length v" "unat n \<le> 243"
  shows "\<exists>s'. rpcSendData env q t u f n v s = Some (0, s') \<and> sends [data_octets q t u f (take (unat n) v) s] s s' \<and>
    core s' = core s \<and> tmp (rpc_of s') = tmp (rpc_of s)"
proof -
  let ?m = "message_data_frame q t u f (chTimeElapsedSince (timestamp (rpc_of s)) s) n v"
  let ?s = "upd_rpc (\<lambda>r. r\<lparr>out_msg := ?m\<rparr>) s"
  have l: "live ?s" by (rule live_upd_rpc [OF assms(1)]) simp_all
  have k: "scratch_ok ?s" "message_wf ?m" "message_getsizeof ?m \<le> 254"
    using assms(2-4) by (simp_all add: scratch_ok_def upd_rpc_def message_data_frame_def message_getsizeof_def)
  obtain s' where s': "rpcSend env ?m ?s = Some (0, s')" "sends [message_octets ?m] ?s s'" "core s' = core ?s"
    "tmp (rpc_of s') = tmp (rpc_of ?s)"
    using rpcSend_ok [OF l k] by blast
  have "message_octets ?m = data_octets q t u f (take (unat n) v) s"
    using assms(3) by (simp add: data_octets_def message_data_frame_def chTimeElapsedSince_def min_def)
  moreover have "core ?s = core s" "sends os ?s s'' = sends os s s''" "tmp (rpc_of ?s) = tmp (rpc_of s)" for os s''
    by (simp_all add: core_def upd_rpc_def sends_def)
  ultimately show ?thesis using s' by (simp add: rpcSendData_def Let_def)
qed

lemma reply_val:
  assumes "live s" "scratch_ok s" "unat n = length v" "length v \<le> 243"
  shows "\<exists>s'. void (rpcSendData env q t u f n v s) = Some s' \<and> sends [data_octets q t u f v s] s s' \<and> core s' = core s"
  using rpcSendData_ok [OF assms(1,2), of n v q t u f] assms(3,4) by (auto simp: void_def)

lemma put_tmp:
  assumes "live s" "scratch_ok s" "length octs \<le> 256"
  shows "\<exists>s'. put_tmp octs s = Some s' \<and> sends [] s s' \<and> core s' = core s \<and> take (length octs) (tmp (rpc_of s')) = octs"
proof -
  let ?t = "octs @ drop (length octs) (tmp (rpc_of s))"
  have "memcpy (tmp (rpc_of s)) 0 octs = Some ?t" using assms(2,3) by (simp add: memcpy_0 scratch_ok_def)
  moreover have "live (upd_rpc (\<lambda>r. r\<lparr>tmp := ?t\<rparr>) s)" by (rule live_upd_rpc [OF assms(1)]) simp_all
  moreover have "scratch_ok (upd_rpc (\<lambda>r. r\<lparr>tmp := ?t\<rparr>) s)" using assms(2,3) by (simp add: scratch_ok_def upd_rpc_def)
  ultimately show ?thesis by (simp add: put_tmp_def sends_def) (simp add: upd_rpc_def core_def)
qed

text \<open>The octets put into the scratch buffer and sent from there.\<close>

lemma reply_tmp:
  assumes "live s" "scratch_ok s" "length octs \<le> 243"
  shows "\<exists>s'. do { s \<leftarrow> put_tmp octs s; void (rpcSendData env q t u f (word_of_nat (length octs)) (tmp (rpc_of s)) s) } = Some s' \<and>
    sends [data_octets q t u f octs s] s s' \<and> core s' = core s"
proof -
  obtain s1 where s1: "put_tmp octs s = Some s1" "sends [] s s1" "core s1 = core s" "take (length octs) (tmp (rpc_of s1)) = octs"
    using put_tmp [OF assms(1,2), of octs] assms(3) by auto
  have l: "live s1" "scratch_ok s1" using s1(2) by (simp_all add: sends_def)
  have n: "unat (word_of_nat (length octs) :: u8) = length octs" using assms(3) by (simp add: unat_of_nat)
  have k: "length octs \<le> length (tmp (rpc_of s1))" using l(2) assms(3) by (simp add: scratch_ok_def)
  obtain s2 where s2: "rpcSendData env q t u f (word_of_nat (length octs)) (tmp (rpc_of s1)) s1 = Some (0, s2)"
      "sends [data_octets q t u f octs s1] s1 s2" "core s2 = core s1"
    using rpcSendData_ok [OF l, of "word_of_nat (length octs)" "tmp (rpc_of s1)" q t u f] n k assms(3) s1(4) by auto
  have "sends [data_octets q t u f octs s] s s2"
    using sends_trans [OF s1(2) s2(2)] data_octets_core [OF s1(3)] by simp
  then show ?thesis using s1(1,3) s2(1,3) by (simp add: void_def)
qed

section \<open>What keeps the invariant\<close>

definition ok :: "('h, 'x, 'c) rpc_state \<Rightarrow> bool" where
  "ok s \<longleftrightarrow> live s \<and> scratch_ok s \<and> core_inv (core s)"

text \<open>A result \<open>r\<close> reached from \<open>s\<close>: no fault, the invariant again, only packets sent.\<close>

definition fine :: "('h, 'x, 'c) rpc_state \<Rightarrow> ('h, 'x, 'c) rpc_state option \<Rightarrow> bool" where
  "fine s r \<longleftrightarrow> (\<exists>s' os. r = Some s' \<and> sends os s s' \<and> core_inv (core s'))"

lemma fine_Some: "ok s \<Longrightarrow> fine s (Some s)"
  using sends_refl [of s] by (auto simp: fine_def ok_def)

lemma fine_from: "fine s' r \<Longrightarrow> periphery (fst s') = periphery (fst s) \<Longrightarrow> snd s' = snd s \<Longrightarrow> fine s r"
  by (simp add: fine_def sends_def)

lemma fine_if: "(b \<Longrightarrow> fine s x) \<Longrightarrow> (\<not> b \<Longrightarrow> fine s y) \<Longrightarrow> fine s (if b then x else y)"
  by simp

lemma fine_bind:
  assumes "fine s r" "\<And>s'. ok s' \<Longrightarrow> fine s' (N s')"
  shows "fine s (r \<bind> N)"
proof -
  obtain s1 os where s1: "r = Some s1" "sends os s s1" "core_inv (core s1)" using assms(1) by (auto simp: fine_def)
  then have "ok s1" by (simp add: ok_def sends_def)
  then obtain s2 os' where "N s1 = Some s2" "sends os' s1 s2" "core_inv (core s2)" using assms(2) by (fastforce simp: fine_def)
  then show ?thesis using s1 sends_trans by (fastforce simp: fine_def)
qed

lemma fine_reply:
  assumes "ok s" "unat n = length v" "length v \<le> 243"
  shows "fine s (void (rpcSendData env q t u f n v s))"
  using reply_val [OF _ _ assms(2,3), of s q t u f] assms(1) by (auto simp: ok_def fine_def)

lemma fine_reply_tmp:
  assumes "ok s" "length octs \<le> 243"
  shows "fine s (put_tmp octs s \<bind> (\<lambda>s. void (rpcSendData env q t u f (word_of_nat (length octs)) (tmp (rpc_of s)) s)))"
  using reply_tmp [OF _ _ assms(2), of s q t u f] assms(1) by (auto simp: ok_def fine_def)

text \<open>Steps that send nothing.\<close>

lemma ok_update:
  assumes "ok s" "clock r = clock (fst s)" "periphery r = periphery (fst s)" "heartbeat (rpc r) = heartbeat (rpc_of s)"
    "timestamp (rpc r) = timestamp (rpc_of s)" "writePacket (rpc r) = writePacket (rpc_of s)"
    "tmp (rpc r) = tmp (rpc_of s)" "out_buf (rpc r) = out_buf (rpc_of s)" "core_inv (core (r, snd s))"
  shows "ok (r, snd s)" "fine s (Some (r, snd s))"
proof -
  have "live (r, snd s)" using assms live_cong by (simp add: ok_def)
  moreover have "scratch_ok (r, snd s)" using assms by (simp add: ok_def scratch_ok_def)
  ultimately show k: "ok (r, snd s)" using assms by (simp add: ok_def)
  show "fine s (Some (r, snd s))" using fine_from [OF fine_Some [OF k]] assms(3) by simp
qed

lemma ok_upd_rpc:
  assumes "ok s" "heartbeat (f (rpc_of s)) = heartbeat (rpc_of s)" "timestamp (f (rpc_of s)) = timestamp (rpc_of s)"
    "writePacket (f (rpc_of s)) = writePacket (rpc_of s)" "tmp (f (rpc_of s)) = tmp (rpc_of s)"
    "out_buf (f (rpc_of s)) = out_buf (rpc_of s)" "core_inv (core (upd_rpc f s))"
  shows "ok (upd_rpc f s)" "fine s (Some (upd_rpc f s))"
  using ok_update [of s "(fst s)\<lparr>rpc := f (rpc_of s)\<rparr>"] assms by (simp_all add: upd_rpc_def)

lemma fine_after: "ok s' \<Longrightarrow> fine s (Some s') \<Longrightarrow> fine s' r \<Longrightarrow> fine s r"
  using fine_bind [of s "Some s'" "\<lambda>_. r"] by (metis bind.bind_lunit fine_def option.sel sends_trans)

lemma ok_upd_sub: "ok s \<Longrightarrow> ok (upd_sub i f s)" "ok s \<Longrightarrow> fine s (Some (upd_sub i f s))"
  using ok_upd_rpc [of s "\<lambda>r. r\<lparr>subs := (subs r)[i := f (subs r ! i)]\<rparr>"]
  by (simp_all add: upd_sub_def) (simp_all add: ok_def core_inv_def core_def upd_rpc_def)

lemma ok_reset: "ok s \<Longrightarrow> ok (rpcSubReset i s)" "ok s \<Longrightarrow> fine s (Some (rpcSubReset i s))"
  by (simp_all add: rpcSubReset_def ok_upd_sub)

lemma ok_motors:
  assumes "ok s" "length (vexMotors (f (motors (fst s)))) = 10"
  shows "ok (upd_motors f s)" "fine s (Some (upd_motors f s))"
  using ok_update [of s "(fst s)\<lparr>motors := f (motors (fst s))\<rparr>"] assms
  by (simp_all add: upd_motors_def ok_def core_inv_def)

lemma ok_cache:
  "ok s \<Longrightarrow> ok (upd_rpc (\<lambda>r. r\<lparr>motor := (motor r)[i := v]\<rparr>) s)"
  "ok s \<Longrightarrow> fine s (Some (upd_rpc (\<lambda>r. r\<lparr>motor := (motor r)[i := v]\<rparr>) s))"
  using ok_upd_rpc [of s "\<lambda>r. r\<lparr>motor := (motor r)[i := v]\<rparr>"]
  by (simp_all add: ok_def core_inv_def core_def upd_rpc_def)

text \<open>Errors, reset after an error, and the subscriptions.\<close>

lemma fine_errors:
  assumes "ok s"
  shows "fine s (void (rpcSendPubError env u err s))" "fine s (void (rpcSendRepError env q t v err s))"
    "fine s (void (rpcSendRep env rd0 0 [] s))" "fine s (void (rpcSendRep env rd0 1 [b] s))"
  by (auto simp: rpcSendPubError_def rpcSendRepError_def rpcSendRep_def intro!: fine_reply [OF assms])

lemma fine_error_reset: "ok s \<Longrightarrow> fine s (void (rpcSendPubError env u err s) \<bind> (\<lambda>s. Some (rpcSubReset i s)))"
  by (intro fine_bind fine_errors ok_reset)

lemma rpcSubFree_cases: "rpcSubFree s = (n, p) \<Longrightarrow> n \<noteq> 0 \<Longrightarrow> \<exists>i. p = Some i \<and> i < 10 \<and> \<not> active (sub_at i s)"
  by (auto simp: rpcSubFree_def Let_def RPC_SUB_MAX_def simp del: upt_rec_numeral split: list.splits dest!: filter_ConsD)

lemma fine_subscribe:
  assumes "ok s"
  shows "fine s (rpcRecvSubscribe env m s)"
proof -
  have f: "rpcSubFind False q s = (0, None)" for q by (simp add: rpcSubFind_def)
  obtain n p where np: "rpcSubFree s = (n, p)" by fastforce
  show ?thesis
  proof (cases "n = 0")
    case True
    then show ?thesis using np assms by (simp add: rpcRecvSubscribe_def f fine_errors)
  next
    case False
    then obtain i where "p = Some i" using rpcSubFree_cases [OF np] by auto
    then show ?thesis using False np assms by (simp add: rpcRecvSubscribe_def f ok_upd_sub)
  qed
qed

lemma fine_unsubscribe:
  assumes "ok s"
  shows "fine s (rpcRecvUnsubscribe env m s)"
proof (cases "snd (rpcSubFind True (unsubscribe_req_id m) s)")
  case None
  then show ?thesis using assms
    by (auto simp: rpcRecvUnsubscribe_def case_prod_unfold Let_def intro!: fine_bind fine_errors fine_reply)
next
  case (Some i)
  then show ?thesis using assms
    by (auto simp: rpcRecvUnsubscribe_def case_prod_unfold Let_def intro!: fine_bind fine_reply ok_reset)
qed

text \<open>Publications.\<close>

lemma length_mem64 [simp]: "length (mem64 w) = 8"
  by (simp add: mem64_def)

lemma fine_clock: "ok s \<Longrightarrow> fine s (rpcPublishClock env i s)"
  by (auto simp: rpcPublishClock_def rpcSendPub_def intro!: fine_error_reset fine_reply)

lemma changed_motors_ok:
  assumes "ok s" "changed_motors is s = (octs, s')"
  shows "ok s' \<and> length octs \<le> 2 * length is \<and> periphery (fst s') = periphery (fst s) \<and> snd s' = snd s"
  using assms
proof (induction "is" arbitrary: s octs s')
  case (Cons i "is")
  let ?v = "i8 (vexMotorGet i (motors (fst s)))"
  let ?s = "upd_rpc (\<lambda>r. r\<lparr>motor := (motor r)[nat i := ?v]\<rparr>) s"
  show ?case
  proof (cases "?v = motor (rpc_of s) ! nat i")
    case True
    then have "changed_motors is s = (octs, s')" using Cons.prems(2) by (simp add: Let_def)
    from Cons.IH [OF Cons.prems(1) this] show ?thesis by simp
  next
    case False
    obtain o1 s1 where "changed_motors is ?s = (o1, s1)" by (meson surj_pair)
    then show ?thesis
      using False Cons.IH [OF ok_cache(1) [OF Cons.prems(1)], of "nat i" ?v o1 s1] Cons.prems(2)
      by (auto simp: Let_def upd_rpc_def)
  qed
qed simp

lemma fine_motor:
  assumes "ok s"
  shows "fine s (rpcPublishMotor env i s)"
proof -
  let ?t = "sub_subtopic (sub_at i s)"
  let ?v = "i8 (vexMotorGet (uint ?t) (motors (fst s)))"
  let ?s = "upd_rpc (\<lambda>r. r\<lparr>motor := (motor r)[unat ?t := ?v]\<rparr>) s"
  have one: "fine s (void (rpcSendPub env u 1 [b] ?s))" for u b
    using ok_cache(1) [OF assms, of "unat ?t" ?v]
    by (intro fine_after [OF ok_cache [OF assms, of "unat ?t" ?v]]) (simp add: rpcSendPub_def fine_reply)
  obtain octs s1 where c: "changed_motors [kVexMotor_1..kVexMotorNum - 1] s = (octs, s1)" by (meson surj_pair)
  then have s1: "ok s1" "length octs \<le> 20" "periphery (fst s1) = periphery (fst s)" "snd s1 = snd s"
    using changed_motors_ok [OF assms c] by (auto simp: kVexMotor_1_def kVexMotorNum_def)
  have all: "fine s1 (put_tmp octs s1 \<bind> (\<lambda>s. if length octs > 0
      then void (rpcSendPub env (sub_at i s) (word_of_nat (length octs)) (tmp (rpc_of s)) s) else Some s))"
  proof (cases "length octs > 0")
    case False
    then show ?thesis using put_tmp [of s1 octs] s1(1) by (auto simp: fine_def ok_def)
  next
    case True
    obtain s2 where s2: "put_tmp octs s1 = Some s2" "core s2 = core s1" using put_tmp [of s1 octs] s1(1,2) by (auto simp: ok_def)
    have "sub_at i s2 = sub_at i s1" using core_eqD(15) [OF s2(2)] by (simp add: sub_at_def)
    then show ?thesis
      using True s2(1) fine_reply_tmp [OF s1(1), of octs "sub_req_id (sub_at i s1)" "sub_topic (sub_at i s1)"
          "sub_subtopic (sub_at i s1)" MESSAGES_DATA_FLAG_PUB] s1(2)
      by (simp add: rpcSendPub_def)
  qed
  show ?thesis
    unfolding rpcPublishMotor_def Let_def c prod.case
    by (intro fine_if one fine_from [OF all s1(3,4)] fine_Some [OF assms] fine_error_reset [OF assms])
qed

lemma fine_all: "ok s \<Longrightarrow> fine s (rpcPublishAll env i s)"
proof -
  assume k: "ok s"
  have m: "fine s' (rpcPublishMotor env i (upd_sub i f s') \<bind> (\<lambda>s. Some (upd_sub i g s)))" if "ok s'" for s' f g
    by (intro fine_bind fine_after [OF ok_upd_sub [OF that, of i f]] fine_motor ok_upd_sub that)
  have "fine s (rpcPublishClock env i (upd_sub i e s) \<bind> (\<lambda>s'. rpcPublishMotor env i (upd_sub i f s') \<bind> (\<lambda>s. Some (upd_sub i g s))))"
    for e f g
    by (rule fine_bind, rule fine_after [OF ok_upd_sub [OF k, of i e]], rule fine_clock, rule ok_upd_sub [OF k], rule m)
  then show ?thesis using fine_error_reset [OF k] by (simp add: rpcPublishAll_def Let_def)
qed

lemma fine_publish: "ok s \<Longrightarrow> fine s (rpcPublish env i s)"
  by (auto simp: rpcPublish_def Let_def intro!: fine_Some fine_clock fine_motor fine_all fine_error_reset)

lemma fine_publish_loop: "ok s \<Longrightarrow> fine s (publish_loop env is s)"
  by (induction "is" arbitrary: s) (auto intro!: fine_Some fine_bind fine_publish)

lemma fine_loop:
  assumes "ok s"
  shows "fine s (rpcLoop env s)"
proof -
  have time: "fine s (Some (upd_rpc (\<lambda>r. r\<lparr>published := clock (fst s)\<rparr>) s))"
    "fine s (Some (upd_rpc (\<lambda>r. r\<lparr>sendstats := clock (fst s)\<rparr>) s))" if "ok s" for s
    using that ok_upd_rpc(2) [OF that] by (simp_all add: ok_def core_inv_def core_def upd_rpc_def)
  have put: "fine s (put_tmp octs s)" if "ok s" "length octs \<le> 256" for s octs
    using put_tmp [of s octs] that by (auto simp: ok_def fine_def)
  have info: "fine s (void (rpcSend env (message_info_frame t u 8 (tmp (rpc_of s)))
      (upd_rpc (\<lambda>r. r\<lparr>out_msg := message_info_frame t u 8 (tmp (rpc_of s))\<rparr>) s)))" if "ok s" for s t u
  proof -
    let ?m = "message_info_frame t u 8 (tmp (rpc_of s))"
    let ?s = "upd_rpc (\<lambda>r. r\<lparr>out_msg := ?m\<rparr>) s"
    have k: "ok ?s" using ok_upd_rpc(1) [OF that] that by (simp add: ok_def core_inv_def core_def upd_rpc_def)
    have "message_wf ?m" "message_getsizeof ?m \<le> 254"
      using that by (simp_all add: ok_def scratch_ok_def message_info_frame_def message_getsizeof_def)
    then obtain s' where "rpcSend env ?m ?s = Some (0, s')" "sends [message_octets ?m] ?s s'" "core s' = core ?s"
      using rpcSend_ok [of ?s ?m] k by (auto simp: ok_def)
    then have "fine ?s (void (rpcSend env ?m ?s))" using k by (auto simp: fine_def void_def ok_def)
    then show ?thesis by (rule fine_from) (simp_all add: upd_rpc_def)
  qed
  have a: "fine s (if b then publish_loop env [0..<RPC_SUB_MAX] s \<bind> (\<lambda>s. Some (upd_rpc (\<lambda>r. r\<lparr>published := clock (fst s)\<rparr>) s))
      else Some s)" for b
    using fine_bind [OF fine_publish_loop [OF assms] time(1)] fine_Some [OF assms] by simp
  have b: "fine s (if b then put_tmp octs s \<bind> (\<lambda>s. void (rpcSend env (message_info_frame t u 8 (tmp (rpc_of s)))
      (upd_rpc (\<lambda>r. r\<lparr>out_msg := message_info_frame t u 8 (tmp (rpc_of s))\<rparr>) s)) \<bind>
      (\<lambda>s. Some (upd_rpc (\<lambda>r. r\<lparr>sendstats := clock (fst s)\<rparr>) s))) else Some s)" if "ok s" "length octs \<le> 256" for s octs b t u
    using fine_bind [OF put [OF that] fine_bind [OF info time(2)]] fine_Some [OF that(1)] by simp
  show ?thesis unfolding rpcLoop_def Let_def
    by (rule fine_bind [OF a], rule b) simp_all
qed

text \<open>Reading.\<close>

lemma fine_rep_tmp:
  assumes "ok s" "length octs \<le> 243"
  shows "fine s (put_tmp octs s \<bind> (\<lambda>s. void (rpcSendRep env read (word_of_nat (length octs)) (tmp (rpc_of s)) s)))"
  unfolding rpcSendRep_def by (rule fine_reply_tmp [OF assms])

lemma fine_tmp_then:
  assumes "ok s" "length octs \<le> 243" "\<And>s'. ok s' \<Longrightarrow> fine s' (N s')"
  shows "fine s (put_tmp octs s \<bind> (\<lambda>s. void (rpcSendData env q t u f (word_of_nat (length octs)) (tmp (rpc_of s)) s) \<bind> N))"
  using fine_bind [OF fine_reply_tmp [OF assms(1,2), of q t u f] assms(3)] by (simp add: bind_assoc)

lemma length_list_subs: "length (list_subs s) \<le> 50"
proof -
  have "length (list_subs s) = 5 * length (filter (\<lambda>i. active (sub_at i s)) [0..<RPC_SUB_MAX])"
    unfolding list_subs_def by (simp add: length_concat comp_def Let_def sum_list_triv)
  moreover have "length (filter (\<lambda>i. active (sub_at i s)) [0..<RPC_SUB_MAX]) \<le> 10"
    using length_filter_le [of "\<lambda>i. active (sub_at i s)" "[0..<RPC_SUB_MAX]"] by (simp add: RPC_SUB_MAX_def del: upt_rec_numeral)
  ultimately show ?thesis by simp
qed

lemma fine_read_pubsub:
  assumes "ok s"
  shows "fine s (rpcRecvReadPubsub env read s)"
proof -
  have l: "length (list_subs s) \<le> 243" using length_list_subs [of s] by simp
  have four: "fine s (put_tmp (mem16 a @ [b, c]) s \<bind> (\<lambda>s. void (rpcSendRep env read 4 (tmp (rpc_of s)) s)))" for a b c
    using fine_rep_tmp [OF assms, of "mem16 a @ [b, c]" read] by simp
  have d: "fine s (void (rpcSendData env q t u f 1 [b] s))" "fine s (void (rpcSendData env q t u f 0 [] s))" if "ok s" for s q t u f b
    by (rule fine_reply [OF that]; simp)+
  show ?thesis unfolding rpcRecvReadPubsub_def Let_def
    by (intro fine_if fine_errors [OF assms] four fine_rep_tmp [OF assms l] fine_tmp_then [OF assms l] fine_bind d)
qed

lemma fine_read_clock: "ok s \<Longrightarrow> fine s (rpcRecvReadClock env read s)"
  unfolding rpcRecvReadClock_def by (intro fine_if fine_errors) (simp_all add: rpcSendRep_def fine_reply)

lemma all_motors_ok:
  assumes "ok s" "all_motors is s = (octs, s')"
  shows "ok s' \<and> length octs = 2 * length is \<and> periphery (fst s') = periphery (fst s) \<and> snd s' = snd s"
  using assms
proof (induction "is" arbitrary: s octs s')
  case (Cons i "is")
  let ?v = "i8 (vexMotorGet i (motors (fst s)))"
  let ?s = "if ?v \<noteq> motor (rpc_of s) ! nat i then upd_rpc (\<lambda>r. r\<lparr>motor := (motor r)[nat i := ?v]\<rparr>) s else s"
  have k: "ok ?s" "periphery (fst ?s) = periphery (fst s)" "snd ?s = snd s"
    using Cons.prems(1) ok_cache(1) by (simp_all add: upd_rpc_def)
  obtain o1 s1 where o1: "all_motors is ?s = (o1, s1)" by (meson surj_pair)
  have "octs = octet_of i # octet_of ?v # o1" "s' = s1" using Cons.prems(2) o1 by (simp_all add: Let_def)
  then show ?case using Cons.IH [OF k(1) o1] k(2,3) by simp
qed simp

lemma fine_read_motor:
  assumes "ok s"
  shows "fine s (rpcRecvReadMotor env read s)"
proof -
  let ?t = "read_subtopic read"
  let ?v = "i8 (vexMotorGet (uint ?t) (motors (fst s)))"
  let ?u = "upd_rpc (\<lambda>r. r\<lparr>motor := (motor r)[unat ?t := ?v]\<rparr>) s"
  let ?s = "if ?v \<noteq> motor (rpc_of s) ! unat ?t then ?u else s"
  have k: "ok ?s" "fine s (Some ?s)" using assms ok_cache [OF assms] fine_Some by simp_all
  obtain octs s1 where c: "all_motors [kVexMotor_1..kVexMotorNum - 1] s = (octs, s1)" by (meson surj_pair)
  have s1: "ok s1" "length octs = 20" "periphery (fst s1) = periphery (fst s)" "snd s1 = snd s"
    using all_motors_ok [OF assms c] by (auto simp: kVexMotor_1_def kVexMotorNum_def)
  have all: "fine s1 (put_tmp octs s1 \<bind> (\<lambda>s. void (rpcSendRep env read (word_of_nat (length octs)) (tmp (rpc_of s)) s)))"
    by (rule fine_rep_tmp [OF s1(1)]) (simp add: s1(2))
  show ?thesis unfolding rpcRecvReadMotor_def Let_def c prod.case
    by (intro fine_if fine_after [OF k] fine_errors [OF k(1)] fine_errors [OF assms] fine_from [OF all s1(3,4)])
qed

text \<open>The calls into the flash layer.\<close>

lemma length_param_data:
  "length (data (params (snd (vexFlashUserParamRead dev p)))) = 32"
  "length (data (params p)) = 32 \<Longrightarrow> length (data (params (snd (vexFlashUserParamWrite dev u p)))) = 32"
  "length (data (params p)) = 32 \<Longrightarrow> length (data (params (snd (cassetteOpenRead dev i p)))) = 32"
  "length (data (params p)) = 32 \<Longrightarrow> length (data (params (snd (cassetteOpenWrite dev i p)))) = 32"
proof -
  show r: "length (data (params (snd (vexFlashUserParamRead dev p)))) = 32" for p
    by (simp add: vexFlashUserParamRead_def Let_def USER_PARAM_WORDS_def length_concat comp_def upt_rec sum_list_replicate)
  show "length (data (params p)) = 32 \<Longrightarrow> length (data (params (snd (vexFlashUserParamWrite dev u p)))) = 32"
    by (simp add: vexFlashUserParamWrite_def Let_def case_prod_unfold)
  show "length (data (params p)) = 32 \<Longrightarrow> length (data (params (snd (cassetteOpenRead dev i p)))) = 32"
    using r [of p] by (simp add: cassetteOpenRead_def Let_def case_prod_unfold)
  show "length (data (params p)) = 32 \<Longrightarrow> length (data (params (snd (cassetteOpenWrite dev i p)))) = 32"
    using r [of p] by (simp add: cassetteOpenWrite_def Let_def case_prod_unfold)
qed

lemma ok_on_params:
  assumes "ok s" "on_params f s = (r, s')" "length (data (params (snd (f (user_params (fst s)))))) = 32"
  shows "ok s'" "fine s (Some s')"
proof -
  have "s' = ((fst s)\<lparr>user_params := snd (f (user_params (fst s)))\<rparr>, snd s)"
    using assms(2) by (simp add: on_params_def case_prod_unfold Let_def)
  then show "ok s'" "fine s (Some s')"
    using ok_update [of s "(fst s)\<lparr>user_params := snd (f (user_params (fst s)))\<rparr>"] assms(1,3)
    by (simp_all add: ok_def core_inv_def)
qed

lemma cassette_read_playable:
  assumes "cassetteOpenRead dev i p = (PARAMS, p')"
  shows "data (params p') ! 0 \<noteq> 0" "unat (data (params p') ! 0) < 32"
proof -
  have "data (params p') ! 0 \<noteq> 0" "\<not> data (params p') ! 0 > 31"
    using assms by (auto simp: cassetteOpenRead_def Let_def case_prod_unfold split: if_splits)
  then show "data (params p') ! 0 \<noteq> 0" "unat (data (params p') ! 0) < 32"
    by (simp_all add: word_less_nat_alt)
qed

lemma fine_read_cassette:
  assumes "ok s" "\<not> (read_subtopic read = MESSAGES_TOPIC_CASSETTE_SUBTOPIC_OPEN \<and> fp (rpc_of s) \<noteq> NO_PARAM)"
  shows "fine s (rpcRecvReadCassette env read s)"
proof -
  let ?t = "read_subtopic read"
  have len: "length (data (params (user_params (fst s)))) = 32" using assms(1) by (simp add: ok_def core_inv_def)
  obtain r1 s1 where w: "on_params (vexFlashUserParamWrite (flash_dev env) (fp (rpc_of s))) s = (r1, s1)" by (meson surj_pair)
  have s1: "ok s1" "fine s (Some s1)" using ok_on_params [OF assms(1) w] length_param_data(2) [OF len] by auto
  obtain p s2 where o: "on_params (cassetteOpenRead (flash_dev env) ?t) s = (p, s2)" by (meson surj_pair)
  have s2: "ok s2" "fine s (Some s2)" using ok_on_params [OF assms(1) o] length_param_data(3) [OF len] by auto
  obtain c s3 where n: "on_params (cassetteCount (flash_dev env)) s = (c, s3)" by (meson surj_pair)
  have "length (data (params (snd (cassetteCount (flash_dev env) (user_params (fst s)))))) = 32"
    using length_param_data(3) [OF len] by (simp add: cassetteCount_def case_prod_unfold Let_def)
  note s3 = ok_on_params [OF assms(1) n this]
  obtain f s4 where g: "on_params (cassetteFree (flash_dev env)) s = (f, s4)" by (meson surj_pair)
  have "length (data (params (snd (cassetteFree (flash_dev env) (user_params (fst s)))))) = 32"
    using length_param_data(3) [OF len] by (simp add: cassetteFree_def cassetteCount_def case_prod_unfold Let_def)
  note s4 = ok_on_params [OF assms(1) g this]
  let ?d = "data (params (user_params (fst s2)))"
  have play: "?d ! 0 > 0 \<and> ?d ! 0 < 32 \<and> unat (?d ! 0) < 32 \<and> length ?d = 32" if "p \<noteq> NO_PARAM"
  proof -
    have "cassetteOpenRead (flash_dev env) ?t (user_params (fst s)) = (PARAMS, user_params (fst s2))"
      using o that by (cases p) (auto simp: on_params_def case_prod_unfold Let_def intro: prod_eqI)
    from cassette_read_playable [OF this] s2(1) show ?thesis
      by (simp add: word_neq_0_conv word_less_nat_alt ok_def core_inv_def)
  qed
  have rep: "fine s (void (rpcSendRep env read 4 (mem32 w) s))" if "ok s" for s w
    unfolding rpcSendRep_def by (rule fine_reply [OF that]) simp_all
  have body: "fine s2 (load (drop 1 ?d) (unat (?d ! 0)) \<bind> (\<lambda>octs. put_tmp octs s2) \<bind>
      (\<lambda>s. void (rpcSendData env q u t v (?d ! 0) (tmp (rpc_of s)) s) \<bind> (\<lambda>s. void (rpcSendRep env read 4 (mem32 w) s))))"
    if p: "p \<noteq> NO_PARAM" for q u t v w
  proof -
    define octs where "octs = take (unat (?d ! 0)) (drop 1 ?d)"
    have l: "load (drop 1 ?d) (unat (?d ! 0)) = Some octs" "length octs = unat (?d ! 0)" "word_of_nat (length octs) = ?d ! 0"
      using play [OF p] by (simp_all add: load_def octs_def)
    have "length octs \<le> 243" using l(2) play [OF p] by simp
    from fine_tmp_then [OF s2(1) this rep, of q u t v "\<lambda>s. w"] show ?thesis unfolding l(1,3) by simp
  qed
  have four: "fine s (put_tmp (b # mem32 w) s \<bind> (\<lambda>s. void (rpcSendRep env read 5 (tmp (rpc_of s)) s)))" for b w
    using fine_rep_tmp [OF assms(1), of "b # mem32 w" read] by simp
  show ?thesis
    unfolding rpcRecvReadCassette_def Let_def w o n g prod.case
    apply (rule fine_if)
     apply (rule fine_if)
      apply (rule fine_after [OF s1], rule fine_errors(3) [OF s1(1)])
     apply (rule fine_after [OF s2], rule fine_if, rule fine_errors(3) [OF s2(1)])
     apply (frule play, use body in \<open>simp add: bind_assoc\<close>)
    apply (rule fine_if, rule fine_if)
      apply (use assms(2) in simp)
     apply (rule four)
    apply (rule fine_if, rule fine_after [OF s3], rule fine_errors(4) [OF s3(1)])
    apply (rule fine_if, rule fine_after [OF s4], rule fine_errors(4) [OF s4(1)])
    apply (rule fine_if; rule fine_errors [OF assms(1)])
    done
qed

text \<open>Writing.\<close>

lemma length_vexMotorSet [simp]: "length (vexMotors (vexMotorSet i v m)) = length (vexMotors m)"
  by (simp add: vexMotorSet_def VexMotor.motor_update_def Let_def)

lemma length_write_motors [simp]: "length (vexMotors (write_motors octs m)) = length (vexMotors m)"
  by (induction octs m rule: write_motors.induct) simp_all

lemma fine_write_motor:
  assumes "ok s" "unat (write_len w) \<le> length (write_value w)"
  shows "fine s (rpcRecvWriteMotor w s)"
proof -
  have len: "length (vexMotors (motors (fst s))) = 10" using assms(1) by (simp add: ok_def core_inv_def)
  have "2 * unat (write_len w div 2) \<le> unat (write_len w)" by (simp add: unat_div)
  then have l: "load (write_value w) (2 * unat (write_len w div 2)) = Some (take (2 * unat (write_len w div 2)) (write_value w))"
    using assms(2) by (simp add: load_def)
  have one: "fine s (rd (write_value w) 0 \<bind> (\<lambda>v. Some (upd_motors (vexMotorSet i (int8_of v)) s)))" if "write_len w = 1" for i
  proof -
    have "write_value w \<noteq> []" using assms(2) that by auto
    then show ?thesis using ok_motors(2) [OF assms(1), of "vexMotorSet i (int8_of (write_value w ! 0))"] len by (simp add: rd_def)
  qed
  show ?thesis unfolding rpcRecvWriteMotor_def Let_def l bind.bind_lunit
    by (intro fine_if fine_Some [OF assms(1)] ok_motors(2) [OF assms(1)] one) (simp_all add: len)
qed

lemma ok_open:
  assumes "ok s" "on_params (cassetteOpenWrite (flash_dev env) 0) (upd_rpc (\<lambda>r. r\<lparr>cassette := 0\<rparr>) s) = (p, s1)"
  shows "p = PARAMS" "ok (upd_rpc (\<lambda>r. r\<lparr>fp := p\<rparr>) s1)" "fine s (Some (upd_rpc (\<lambda>r. r\<lparr>fp := p\<rparr>) s1))"
proof -
  let ?q = "cassetteOpenWrite (flash_dev env) 0 (user_params (fst s))"
  have len: "length (data (params (snd ?q))) = 32"
    using assms(1) by (intro length_param_data(4)) (simp add: ok_def core_inv_def)
  have "fst ?q = PARAMS"
    by (simp add: cassetteOpenWrite_def CASSETTE_MAX_def vexFlashUserParamRead_def Let_def)
  then have e: "p = PARAMS" "upd_rpc (\<lambda>r. r\<lparr>fp := p\<rparr>) s1 =
      ((fst s)\<lparr>rpc := (rpc_of s)\<lparr>cassette := 0, fp := PARAMS\<rparr>, user_params := snd ?q\<rparr>, snd s)"
    using assms(2) by (auto simp: on_params_def upd_rpc_def case_prod_unfold Let_def)
  show "p = PARAMS" by (rule e(1))
  show "ok (upd_rpc (\<lambda>r. r\<lparr>fp := p\<rparr>) s1)" "fine s (Some (upd_rpc (\<lambda>r. r\<lparr>fp := p\<rparr>) s1))"
    unfolding e(2) using ok_update [of s "(fst s)\<lparr>rpc := (rpc_of s)\<lparr>cassette := 0, fp := PARAMS\<rparr>, user_params := snd ?q\<rparr>"]
      assms(1) len by (simp_all add: ok_def core_inv_def)
qed

lemma fine_close:
  assumes "ok s" "on_params (vexFlashUserParamWrite (flash_dev env) u) (upd_rpc (\<lambda>r. r\<lparr>cassette := 0xff\<rparr>) s) = (r, s1)"
  shows "fine s (Some (upd_rpc (\<lambda>r. r\<lparr>fp := NO_PARAM\<rparr>) s1))"
proof -
  let ?q = "vexFlashUserParamWrite (flash_dev env) u (user_params (fst s))"
  have len: "length (data (params (snd ?q))) = 32"
    using assms(1) by (intro length_param_data(2)) (simp add: ok_def core_inv_def)
  have e: "upd_rpc (\<lambda>r. r\<lparr>fp := NO_PARAM\<rparr>) s1 =
      ((fst s)\<lparr>rpc := (rpc_of s)\<lparr>cassette := 0xff, fp := NO_PARAM\<rparr>, user_params := snd ?q\<rparr>, snd s)"
    using assms(2) by (auto simp: on_params_def upd_rpc_def case_prod_unfold Let_def)
  show ?thesis
    unfolding e using ok_update [of s "(fst s)\<lparr>rpc := (rpc_of s)\<lparr>cassette := 0xff, fp := NO_PARAM\<rparr>, user_params := snd ?q\<rparr>"]
      assms(1) len by (simp add: ok_def core_inv_def)
qed

lemma ok_upd_data: "ok s \<Longrightarrow> ok (upd_data (\<lambda>d. d[i := v]) s)" "ok s \<Longrightarrow> fine s (Some (upd_data (\<lambda>d. d[i := v]) s))"
  using ok_on_params [of s "\<lambda>p. ((), p\<lparr>params := (params p)\<lparr>data := (data (params p))[i := v]\<rparr>\<rparr>)" "()" "upd_data (\<lambda>d. d[i := v]) s"]
  by (simp_all add: upd_data_def ok_def core_inv_def prod_eq_iff)

lemma fine_param_write: "ok s \<Longrightarrow> fine s (Some (snd (on_params (vexFlashUserParamWrite (flash_dev env) u) s)))"
  using ok_on_params(2) [OF _ prod.collapse [symmetric], of s "vexFlashUserParamWrite (flash_dev env) u"]
    length_param_data(2) [of "user_params (fst s)" "flash_dev env" u]
  by (simp add: ok_def core_inv_def)

lemma fine_stop: "ok s \<Longrightarrow> fine s (Some (upd_rpc (\<lambda>r. r\<lparr>cassette := 0xff, fp := NO_PARAM\<rparr>) s))"
  by (rule ok_upd_rpc(2)) (simp_all add: ok_def core_inv_def core_def upd_rpc_def)

lemma below_max: "\<not> cassetteMax \<le> b \<Longrightarrow> b = 0"
  by (simp add: cassetteMax_def CASSETTE_MAX_def word_less_1 not_le)

lemma fine_write_cassette:
  assumes "ok s" "unat (write_len w) \<le> length (write_value w)"
    "\<not> (write_subtopic w = MESSAGES_TOPIC_CASSETTE_SUBTOPIC_WRITE \<and> write_len w = 0)"
  shows "fine s (rpcRecvWriteCassette env w s)"
proof -
  have r1: "rd (write_value w) 0 = Some (write_value w ! 0)" if "write_len w \<noteq> 0"
    using assms(2) that by (cases "write_value w") (auto simp: rd_def unat_eq_0)
  have "\<lbrakk>\<not> (write_len w = 1 \<or> write_len w > 2); write_len w \<noteq> 0\<rbrakk> \<Longrightarrow> write_len w = 2"
    by (auto simp: word_unat_eq_iff word_less_nat_alt)
  then have r2: "rd (write_value w) 1 = Some (write_value w ! 1)" if "\<not> (write_len w = 1 \<or> write_len w > 2)" "write_len w \<noteq> 0"
    using assms(2) that by (auto simp: rd_def)
  have rd0: "fine s (rd (write_value w) 0 \<bind> N)" if "write_len w \<noteq> 0" "fine s (N (write_value w ! 0))" for N
    using r1 that by simp
  have rd1: "fine s (rd (write_value w) 1 \<bind> N)" if "\<not> (write_len w = 1 \<or> write_len w > 2)" "write_len w \<noteq> 0"
    "fine s (N (write_value w ! 1))" for N
    using r2 that by simp
  have o: "fine s (case on_params (cassetteOpenWrite (flash_dev env) b) (upd_rpc (\<lambda>r. r\<lparr>cassette := b\<rparr>) s) of
      (p, s) \<Rightarrow> Some (if p = NO_PARAM then upd_rpc (\<lambda>r. r\<lparr>cassette := 0xff\<rparr>) (upd_rpc (\<lambda>r. r\<lparr>fp := p\<rparr>) s) else upd_rpc (\<lambda>r. r\<lparr>fp := p\<rparr>) s))"
    if "\<not> cassetteMax \<le> b" for b
    using ok_open [OF assms(1)] below_max [OF that] by (auto split: prod.split)
  have c: "fine s (case on_params (vexFlashUserParamWrite (flash_dev env) u) (upd_rpc (\<lambda>r. r\<lparr>cassette := 0xff\<rparr>) s) of
      (r, s) \<Rightarrow> Some (upd_rpc (\<lambda>r. r\<lparr>fp := NO_PARAM\<rparr>) s))" for u
    using fine_close [OF assms(1)] by (auto split: prod.split)
  have d: "fine s (Some (snd (on_params (vexFlashUserParamWrite (flash_dev env) u) (upd_data (\<lambda>d. d[0 := y]) (upd_data (\<lambda>d. d[i := v]) s)))))"
    for u y i v
    by (rule fine_after [OF ok_upd_data [OF assms(1)]], rule fine_after [OF ok_upd_data [OF ok_upd_data(1) [OF assms(1)]]],
        rule fine_param_write, intro ok_upd_data(1) assms(1))
  have fp: "cassette (rpc_of s) = 0xff \<and> fp (rpc_of s) = NO_PARAM \<or> cassette (rpc_of s) = 0 \<and> fp (rpc_of s) = PARAMS"
    using assms(1) by (simp add: ok_def core_inv_def)
  show ?thesis
    unfolding rpcRecvWriteCassette_def Let_def
    apply (rule fine_if)
     apply (rule fine_if, rule fine_Some [OF assms(1)])
     apply (rule rd0, simp, intro fine_if fine_Some [OF assms(1)], rule o, assumption)
    apply (rule fine_if)
     apply (rule fine_if, rule fine_Some [OF assms(1)])
     apply (rule rd0, simp, intro fine_if fine_Some [OF assms(1)], rule c)
    apply (rule fine_if)
     apply (rule fine_if, rule fine_Some [OF assms(1)])
     apply (rule rd0, use assms(3) in blast, intro fine_if fine_Some [OF assms(1)])
       apply (use fp in fastforce)
      apply (rule fine_stop [OF assms(1)])
     apply (rule rd1, assumption, use assms(3) in blast, rule d)
    apply (rule fine_Some [OF assms(1)])
    done
qed

text \<open>Receiving: every request but two.\<close>

lemma fine_beat: "fine s r \<Longrightarrow> fine s (map_option (\<lambda>s. upd_rpc (\<lambda>r. r\<lparr>heartbeat := clock (fst s)\<rparr>) s) r)"
proof -
  assume "fine s r"
  then obtain s' os where s': "r = Some s'" "sends os s s'" "core_inv (core s')" by (auto simp: fine_def)
  then have "live (upd_rpc (\<lambda>r. r\<lparr>heartbeat := clock (fst s')\<rparr>) s')" by (intro live_beat) (simp add: sends_def)
  with s' show ?thesis by (auto simp: fine_def sends_def scratch_ok_def core_inv_def upd_rpc_def intro!: exI [of _ os])
qed

lemma fine_recv:
  assumes "ok s" "message_wf m" "request_ok (core s) m"
  shows "fine s (rpcRecv env m s)"
proof (cases m)
  case (Ping p)
  let ?m = "message_pong_frame (ping_seq_id p)"
  let ?s = "upd_rpc (\<lambda>r. r\<lparr>seq_id := ping_seq_id p, out_msg := ?m\<rparr>) s"
  have k: "ok ?s" "fine s (Some ?s)"
    using assms(1) ok_upd_rpc [of s "\<lambda>r. r\<lparr>seq_id := ping_seq_id p, out_msg := ?m\<rparr>"]
    by (simp_all add: ok_def core_inv_def core_def upd_rpc_def)
  obtain s' where s': "rpcSend env ?m ?s = Some (0, s')" "sends [message_octets ?m] ?s s'" "core s' = core ?s"
    using rpcSend_ok [of ?s ?m] k(1) by (auto simp: ok_def message_pong_frame_def message_getsizeof_def)
  then have "fine ?s (Some s')" using k(1) by (auto simp: fine_def ok_def)
  from fine_after [OF k this] show ?thesis
    using Ping s'(1) by (simp add: rpcRecv_def rpcRecvPing_def Let_def void_def fine_beat [of _ "Some s'", simplified])
next
  case (Info i)
  have "ok (upd_rpc (\<lambda>r. r\<lparr>ipv4 := v\<rparr>) s) \<and> fine s (Some (upd_rpc (\<lambda>r. r\<lparr>ipv4 := v\<rparr>) s))" if "length v = 4" for v
    using assms(1) that ok_upd_rpc [of s "\<lambda>r. r\<lparr>ipv4 := v\<rparr>"] by (simp add: ok_def core_inv_def core_def upd_rpc_def)
  then have "fine s (rpcRecvInfo i s)"
    using assms(2) Info fine_Some [OF assms(1)] by (auto simp: rpcRecvInfo_def rpcRecvInfoNetwork_def load_def)
  then show ?thesis using Info by (simp add: rpcRecv_def Let_def fine_beat)
next
  case (Read r)
  then have "\<not> (read_topic r = MESSAGES_TOPIC_CASSETTE \<and> read_subtopic r = MESSAGES_TOPIC_CASSETTE_SUBTOPIC_OPEN \<and>
      fp (rpc_of s) \<noteq> NO_PARAM)" using assms(3) by (simp add: core_def)
  then have "fine s (rpcRecvRead env r s)" unfolding rpcRecvRead_def Let_def
    by (intro fine_if fine_read_pubsub fine_read_clock fine_read_motor fine_read_cassette fine_errors assms(1)) blast
  then show ?thesis using Read by (simp add: rpcRecv_def Let_def fine_beat)
next
  case (Write w)
  then have "fine s (rpcRecvWrite env w s)" unfolding rpcRecvWrite_def Let_def
    using assms(2,3) by (intro fine_if fine_write_motor fine_write_cassette fine_errors assms(1)) auto
  then show ?thesis using Write by (simp add: rpcRecv_def Let_def fine_beat)
next
  case (Subscribe u)
  then show ?thesis using fine_subscribe [OF assms(1)] by (simp add: rpcRecv_def Let_def fine_beat)
next
  case (Unsubscribe u)
  then show ?thesis using fine_unsubscribe [OF assms(1)] by (simp add: rpcRecv_def Let_def fine_beat)
qed (use assms(2) fine_beat [OF fine_Some [OF assms(1)]] in \<open>simp_all add: rpcRecv_def Let_def\<close>)

end

section \<open>The writer that logs\<close>

text \<open>The packets handed to the writer, in order; the log is the component \<open>'c\<close>.\<close>

definition log_rpc :: "'h flash_hw \<Rightarrow> ('h, 'x, octets list) rpc_env" where
  "log_rpc dev = \<lparr>flash_dev = dev,
     call_writePacket = (\<lambda>w b n s. do { octs \<leftarrow> load b n; Some (fst s, snd s @ [octs]) })\<rparr>"

definition log_live :: "('h, 'x, octets list) rpc_state \<Rightarrow> bool" where
  "log_live s \<longleftrightarrow> writePacket (rpc_of s) \<noteq> None"

definition log_packet :: "octets \<Rightarrow> 'x \<times> octets list \<Rightarrow> 'x \<times> octets list" where
  "log_packet octs p = (fst p, snd p @ [octs])"

interpretation logged_rpc: rpc_transport "log_rpc dev" log_live "\<lambda>octs p p'. p' = log_packet octs p"
  by unfold_locales (auto simp: log_rpc_def log_live_def load_def upd_rpc_def log_packet_def)

lemma fold_log: "fold log_packet os p = (fst p, snd p @ os)"
  by (induction os arbitrary: p) (simp_all add: log_packet_def)

lemma log_steps [simp]: "steps (\<lambda>octs p p'. p' = log_packet octs p) os p p' \<longleftrightarrow> p' = (fst p, snd p @ os)"
  by (simp add: steps_fun fold_log)

end
