(* ===== verification/Rpc_Properties.thy ===== *)
theory Rpc_Properties
  imports Rpc_Lemmas "HOL-Library.Multiset"
begin

text \<open>
  What the remote procedure calls do, with the packets that reach the writer collected in a log: safety of every
  history of requests, the motors written and read, publications, subscriptions and the cassette.
\<close>

section \<open>Histories\<close>

type_synonym ('h, 'x) logged_state = "('h, 'x, octets list) rpc_state"

definition rpc_ok :: "('h, 'x) logged_state \<Rightarrow> bool" where
  "rpc_ok s \<longleftrightarrow> log_live s \<and> scratch_ok s \<and> core_inv (core s)"

lemma rpc_ok_logged: "rpc_ok s = logged_rpc.ok s"
  by (simp add: rpc_ok_def logged_rpc.ok_def)

text \<open>
  What can happen between two instructions of the server: a request is received, its loop runs, time passes,
  another thread commands a motor.
\<close>

datatype rpc_event = Request message_any | Loop | Elapse u32 | Command int int

fun rpc_do :: "('h, 'x, octets list) rpc_env \<Rightarrow> rpc_event \<Rightarrow> ('h, 'x) logged_state \<Rightarrow> ('h, 'x) logged_state option" where
  "rpc_do env (Request m) s = rpcRecv env m s"
| "rpc_do env Loop s = rpcLoop env s"
| "rpc_do env (Elapse t) s = Some ((fst s)\<lparr>clock := clock (fst s) + t\<rparr>, snd s)"
| "rpc_do env (Command i v) s = Some (upd_motors (vexMotorSet i v) s)"

fun rpc_run :: "('h, 'x, octets list) rpc_env \<Rightarrow> rpc_event list \<Rightarrow> ('h, 'x) logged_state \<Rightarrow> ('h, 'x) logged_state option" where
  "rpc_run env [] s = Some s"
| "rpc_run env (e # es) s = do { s \<leftarrow> rpc_do env e s; rpc_run env es s }"

text \<open>Requests that are handled whatever the state.\<close>

fun served :: "rpc_event \<Rightarrow> bool" where
  "served (Request m) \<longleftrightarrow> message_wf m \<and> (case m of
      Read r \<Rightarrow> \<not> (read_topic r = MESSAGES_TOPIC_CASSETTE \<and> read_subtopic r = MESSAGES_TOPIC_CASSETTE_SUBTOPIC_OPEN)
    | Write w \<Rightarrow> \<not> (write_topic w = MESSAGES_TOPIC_CASSETTE \<and>
        write_subtopic w = MESSAGES_TOPIC_CASSETTE_SUBTOPIC_WRITE \<and> write_len w = 0)
    | _ \<Rightarrow> True)"
| "served e \<longleftrightarrow> True"

lemma fine_log:
  assumes "logged_rpc.fine s r"
  shows "\<exists>s' os. r = Some s' \<and> rpc_ok s' \<and> snd s' = snd s @ os"
proof -
  obtain s' os where s': "r = Some s'" "logged_rpc.sends os s s'" "core_inv (core s')"
    using assms by (auto simp: logged_rpc.fine_def)
  then have "snd s' = snd s @ os" by (simp add: logged_rpc.sends_def)
  with s' show ?thesis by (simp add: rpc_ok_def logged_rpc.sends_def)
qed

lemma rpc_do_ok:
  assumes "rpc_ok s" "served e"
  shows "\<exists>s' os. rpc_do (log_rpc dev) e s = Some s' \<and> rpc_ok s' \<and> snd s' = snd s @ os"
proof (cases e)
  case (Request m)
  have "request_ok (core s) m" using assms(2) Request by (cases m) auto
  then have "logged_rpc.fine s (rpcRecv (log_rpc dev) m s)"
    using Request assms by (intro logged_rpc.fine_recv) (simp_all add: rpc_ok_logged)
  then show ?thesis using fine_log Request by simp
next
  case Loop
  then show ?thesis using assms fine_log [OF logged_rpc.fine_loop, of s dev] by (simp add: rpc_ok_logged)
next
  case (Elapse t)
  then show ?thesis using assms by (auto simp: rpc_ok_def log_live_def scratch_ok_def core_inv_def)
next
  case (Command i v)
  have "rpc_ok (upd_motors (vexMotorSet i v) s)"
    using assms by (simp add: rpc_ok_def log_live_def scratch_ok_def core_inv_def upd_motors_def)
  then show ?thesis using Command by (simp add: upd_motors_def)
qed


text \<open>A connected robot at rest.\<close>

definition sample_motors :: motor_state where
  "sample_motors = \<lparr>vexMotors = replicate 10 \<lparr>motor_value = 0, motor_type = kVexMotor393S, reversed = False,
      motorPositionGet = None, motorPositionSet = None, getEncoderId = None, port = 0\<rparr>,
     PwmTimer = False, m0_cur_value = 0, m0_new_value = 0, m9_cur_value = 0, m9_new_value = 0,
     hw = \<lparr>regs = (\<lambda>r. 0), pads = (\<lambda>p. False)\<rparr>\<rparr>"

definition sample_rpc :: rpc_t where
  "sample_rpc = \<lparr>seq_id = 0, ipv4 = replicate 4 0, motor = replicate 10 0, cassette = 0xff, fp = NO_PARAM,
     tmp = replicate 256 0, in_buf = replicate 256 0, in_msg = Other 0, out_buf = replicate 256 0, out_msg = Other 0,
     timestamp = 0, heartbeat = 0, published = 0, sendstats = 0, writePacket = Some 1, subs = replicate 10 no_sub\<rparr>"

definition sample_robot :: "(stm32, unit) logged_state" where
  "sample_robot = (\<lparr>rpc = sample_rpc, clock = 100, motors = sample_motors, user_params = blank_flash,
     main_battery = 7200, backup_battery = 9000, periphery = ()\<rparr>, [])"

lemma sample_robot_ok: "rpc_ok sample_robot"
  by (simp add: rpc_ok_def sample_robot_def sample_rpc_def sample_motors_def log_live_def scratch_ok_def core_inv_def
      blank_flash_def core_def)


text \<open>Asking which cassette is open while one is open dereferences a null pointer: the handler tests the pointer kept
  in the rpc state but reads through its own local one, which is still NULL.\<close>
theorem rpc_open_cassette_query_faults:
  assumes "rpc_ok s" "cassette (rpc_of s) \<noteq> 0xff"
  shows "rpcRecv (log_rpc dev) (message_read_frame q MESSAGES_TOPIC_CASSETTE MESSAGES_TOPIC_CASSETTE_SUBTOPIC_OPEN) s = None"
  using assms
  by (auto simp: rpcRecv_def message_read_frame_def rpcRecvRead_def rpcRecvReadCassette_def topic_defs subtopic_defs
      cassetteMax_def CASSETTE_MAX_def rpc_ok_def core_inv_def)

theorem rpc_open_cassette_query_faults_witness:
  "rpcRecv (log_rpc stm32_hw) (message_read_frame 1 MESSAGES_TOPIC_CASSETTE MESSAGES_TOPIC_CASSETTE_SUBTOPIC_OPEN)
     (upd_rpc (\<lambda>r. r\<lparr>cassette := 0, fp := PARAMS\<rparr>) sample_robot) = None"
proof (rule rpc_open_cassette_query_faults)
  show "rpc_ok (upd_rpc (\<lambda>r. r\<lparr>cassette := 0, fp := PARAMS\<rparr>) sample_robot)"
    using sample_robot_ok by (simp add: rpc_ok_def upd_rpc_def log_live_def scratch_ok_def core_inv_def)
qed (simp add: upd_rpc_def)

section \<open>Motors\<close>

declare split_paired_Ex [simp del] split_paired_All [simp del]

definition motor_now :: "motor_state \<Rightarrow> int \<Rightarrow> int" where
  "motor_now m i = i8 (vexMotorGet i m)"

definition pairs :: "(int \<Rightarrow> int) \<Rightarrow> int list \<Rightarrow> octets" where
  "pairs f is = concat (map (\<lambda>i. [octet_of i, octet_of (f i)]) is)"

lemma pairs_simps [simp]: "pairs f [] = []" "pairs f (i # is) = octet_of i # octet_of (f i) # pairs f is"
  by (simp_all add: pairs_def)

lemma pairs_empty [simp]: "pairs f is = [] \<longleftrightarrow> is = []"
  by (cases "is") simp_all

text \<open>Both loops leave everything but the cache of motor values alone.\<close>

definition set_cache :: "int list \<Rightarrow> ('h, 'x) logged_state \<Rightarrow> ('h, 'x) logged_state" where
  "set_cache c s = upd_rpc (\<lambda>r. r\<lparr>motor := c\<rparr>) s"

lemma set_cache_simps [simp]:
  "set_cache c (set_cache d s) = set_cache c s" "motor (rpc_of (set_cache c s)) = c" "motors (fst (set_cache c s)) = motors (fst s)"
  "set_cache (motor (rpc_of s)) s = s" "snd (set_cache c s) = snd s" "subs (rpc_of (set_cache c s)) = subs (rpc_of s)"
  "clock (fst (set_cache c s)) = clock (fst s)" "timestamp (rpc_of (set_cache c s)) = timestamp (rpc_of s)"
  by (simp_all add: set_cache_def upd_rpc_def)

definition refreshed :: "motor_state \<Rightarrow> int list \<Rightarrow> int list \<Rightarrow> int list" where
  "refreshed m is c = fold (\<lambda>i c. c[nat i := motor_now m i]) is c"

lemma refreshed_nth:
  assumes "\<forall>i\<in>set is. 0 \<le> i" "j < length c"
  shows "refreshed m is c ! j = (if int j \<in> set is then motor_now m (int j) else c ! j)"
  using assms
proof (induction "is" arbitrary: c)
  case (Cons i "is")
  then show ?case by (auto simp: refreshed_def nth_list_update)
qed (simp add: refreshed_def)

lemma length_refreshed [simp]: "length (refreshed m is c) = length c"
  by (induction "is" arbitrary: c) (simp_all add: refreshed_def)

lemma all_motors_run:
  "all_motors is s = (pairs (motor_now (motors (fst s))) is, set_cache (refreshed (motors (fst s)) is (motor (rpc_of s))) s)"
proof (induction "is" arbitrary: s)
  case (Cons i "is")
  let ?v = "i8 (vexMotorGet i (motors (fst s)))"
  have "(if ?v \<noteq> motor (rpc_of s) ! nat i then upd_rpc (\<lambda>r. r\<lparr>motor := (motor r)[nat i := ?v]\<rparr>) s else s) =
      set_cache ((motor (rpc_of s))[nat i := ?v]) s"
    by (auto simp: set_cache_def upd_rpc_def)
  then show ?case
    using Cons.IH [of "set_cache ((motor (rpc_of s))[nat i := ?v]) s"]
    by (simp add: Let_def motor_now_def refreshed_def)
qed (simp add: refreshed_def)

lemma changed_motors_run:
  assumes "distinct is" "\<forall>i\<in>set is. 0 \<le> i"
  shows "changed_motors is s =
    (pairs (motor_now (motors (fst s))) (filter (\<lambda>i. motor_now (motors (fst s)) i \<noteq> motor (rpc_of s) ! nat i) is),
     set_cache (refreshed (motors (fst s)) is (motor (rpc_of s))) s)"
  using assms
proof (induction "is" arbitrary: s)
  case (Cons i "is")
  let ?v = "i8 (vexMotorGet i (motors (fst s)))"
  let ?c = "(motor (rpc_of s))[nat i := ?v]"
  have f: "filter (\<lambda>j. motor_now (motors (fst s)) j \<noteq> ?c ! nat j) is = filter (\<lambda>j. motor_now (motors (fst s)) j \<noteq> motor (rpc_of s) ! nat j) is"
  proof (rule filter_cong)
    fix j assume "j \<in> set is"
    then have "i \<noteq> j" "0 \<le> i" "0 \<le> j" using Cons.prems by auto
    then have "nat i \<noteq> nat j" by (simp add: eq_nat_nat_iff)
    then show "motor_now (motors (fst s)) j \<noteq> ?c ! nat j \<longleftrightarrow> motor_now (motors (fst s)) j \<noteq> motor (rpc_of s) ! nat j" by simp
  qed simp
  show ?case
  proof (cases "?v = motor (rpc_of s) ! nat i")
    case True
    then have "?c = motor (rpc_of s)" by simp
    then show ?thesis using True Cons.IH [of s] Cons.prems by (simp add: Let_def motor_now_def refreshed_def)
  next
    case False
    have "upd_rpc (\<lambda>r. r\<lparr>motor := (motor r)[nat i := ?v]\<rparr>) s = set_cache ?c s" by (simp add: set_cache_def upd_rpc_def)
    then show ?thesis using False f Cons.IH [of "set_cache ?c s"] Cons.prems by (simp add: Let_def motor_now_def refreshed_def)
  qed
qed (simp add: refreshed_def)

abbreviation all_ports :: "int list" where "all_ports \<equiv> [kVexMotor_1..kVexMotorNum - 1]"

lemma all_ports: "all_ports = [0, 1, 2, 3, 4, 5, 6, 7, 8, 9]"
  by (simp add: kVexMotor_1_def kVexMotorNum_def upto.simps)

lemma refreshed_all: "length c = 10 \<Longrightarrow> refreshed m all_ports c = map (motor_now m) all_ports"
proof (rule nth_equalityI)
  fix j assume c: "length c = 10" and "j < length (refreshed m all_ports c)"
  then have "j < 10" by simp
  then have "j \<in> {0,1,2,3,4,5,6,7,8,9}" by auto
  then show "refreshed m all_ports c ! j = map (motor_now m) all_ports ! j"
    using refreshed_nth [of all_ports j c m] c \<open>j < 10\<close> unfolding all_ports by auto
qed (simp add: all_ports)

text \<open>What a list of index and value pairs commands port \<open>i\<close>, \<open>c\<close> being its command before.\<close>

fun commanded :: "int \<Rightarrow> octets \<Rightarrow> int \<Rightarrow> int" where
  "commanded i (p # v # rest) c = commanded i rest (if int8_of p = i then max (- 127) (int8_of v) else c)"
| "commanded i _ c = c"

lemma int8_range: "- 128 \<le> int8_of b" "int8_of b \<le> 127"
  using sint_greater_eq [of b] sint_less [of b] by (simp_all add: int8_of_def)

lemma vexMotorGet_write_motors:
  assumes "length (vexMotors m) = 10" "0 \<le> i" "i < 10"
  shows "vexMotorGet i (write_motors octs m) = commanded i octs (vexMotorGet i m)"
  using assms(1)
proof (induction octs m rule: write_motors.induct)
  case (1 p v rest m)
  let ?m = "if int8_of p \<ge> kVexMotor_1 \<and> int8_of p < kVexMotorNum then vexMotorSet (int8_of p) (int8_of v) m else m"
  have "vexMotorGet i ?m = (if int8_of p = i then max (- 127) (int8_of v) else vexMotorGet i m)"
    using 1(2) assms(2,3) int8_range [of v]
    by (auto simp: vexMotorGet_def vexMotorSet_def VexMotor.motor_update_def Let_def motor_index_defs nth_list_update)
  then show ?case using 1 by simp
qed simp_all

text \<open>Sending from the scratch buffer, in the log.\<close>

lemma log_reply_tmp:
  assumes "rpc_ok s" "length octs \<le> 243"
  shows "\<exists>s'. (put_tmp octs s \<bind> (\<lambda>s. void (rpcSendData (log_rpc dev) q t u f (word_of_nat (length octs)) (tmp (rpc_of s)) s))) = Some s' \<and>
    snd s' = snd s @ [data_octets q t u f octs s] \<and> core s' = core s \<and> rpc_ok s'"
proof -
  obtain s' where s': "(put_tmp octs s \<bind> (\<lambda>s. void (rpcSendData (log_rpc dev) q t u f (word_of_nat (length octs)) (tmp (rpc_of s)) s))) = Some s'"
    "logged_rpc.sends [data_octets q t u f octs s] s s'" "core s' = core s"
    using logged_rpc.reply_tmp [of s octs dev q t u f] assms by (auto simp: rpc_ok_def)
  then show ?thesis using assms(1) by (auto simp: logged_rpc.sends_def rpc_ok_def)
qed

lemma log_reply_val:
  assumes "rpc_ok s" "unat n = length v" "length v \<le> 243"
  shows "\<exists>s'. void (rpcSendData (log_rpc dev) q t u f n v s) = Some s' \<and>
    snd s' = snd s @ [data_octets q t u f v s] \<and> core s' = core s \<and> rpc_ok s'"
proof -
  obtain s' where s': "void (rpcSendData (log_rpc dev) q t u f n v s) = Some s'"
    "logged_rpc.sends [data_octets q t u f v s] s s'" "core s' = core s"
    using logged_rpc.reply_val [of s n v dev q t u f] assms by (auto simp: rpc_ok_def)
  then show ?thesis using assms(1) by (auto simp: logged_rpc.sends_def rpc_ok_def)
qed

lemma rpc_ok_set_cache: "rpc_ok s \<Longrightarrow> length c = 10 \<Longrightarrow> rpc_ok (set_cache c s)"
  by (simp add: rpc_ok_def set_cache_def upd_rpc_def log_live_def scratch_ok_def core_inv_def)

lemma rpc_ok_lengths: "rpc_ok s \<Longrightarrow> length (motor (rpc_of s)) = 10 \<and> length (subs (rpc_of s)) = 10 \<and> length (vexMotors (motors (fst s))) = 10"
  by (simp add: rpc_ok_def core_inv_def)

lemma data_octets_set_cache [simp]: "data_octets q t u f v (set_cache c s) = data_octets q t u f v s"
  by (simp add: data_octets_def)

lemma length_pairs [simp]: "length (pairs f is) = 2 * length is"
  by (induction "is") simp_all

lemma read_all_motors:
  assumes "rpc_ok s"
  shows "\<exists>s'. rpcRecv (log_rpc dev) (message_read_frame q MESSAGES_TOPIC_MOTOR MESSAGES_TOPIC_MOTOR_SUBTOPIC_ALL) s = Some s' \<and>
    snd s' = snd s @ [data_octets q MESSAGES_TOPIC_MOTOR MESSAGES_TOPIC_MOTOR_SUBTOPIC_ALL MESSAGES_DATA_FLAG_END
      (pairs (motor_now (motors (fst s))) all_ports) s] \<and> motors (fst s') = motors (fst s)"
proof -
  let ?p = "pairs (motor_now (motors (fst s))) all_ports"
  define c where "c = refreshed (motors (fst s)) all_ports (motor (rpc_of s))"
  have "rpc_ok (set_cache c s)" using rpc_ok_set_cache [OF assms] rpc_ok_lengths [OF assms] by (simp add: c_def)
  moreover have "length ?p \<le> 243" by (simp add: all_ports)
  ultimately obtain s' where "(put_tmp ?p (set_cache c s) \<bind> (\<lambda>s. void (rpcSendData (log_rpc dev) q MESSAGES_TOPIC_MOTOR
       MESSAGES_TOPIC_MOTOR_SUBTOPIC_ALL MESSAGES_DATA_FLAG_END (word_of_nat (length ?p)) (tmp (rpc_of s)) s))) = Some s'"
    "snd s' = snd s @ [data_octets q MESSAGES_TOPIC_MOTOR MESSAGES_TOPIC_MOTOR_SUBTOPIC_ALL MESSAGES_DATA_FLAG_END ?p s]"
    "core s' = core (set_cache c s)"
    using log_reply_tmp [of "set_cache c s" ?p dev q MESSAGES_TOPIC_MOTOR MESSAGES_TOPIC_MOTOR_SUBTOPIC_ALL MESSAGES_DATA_FLAG_END] by auto
  moreover from this(3) have "motors (fst s') = motors (fst s)" using core_eqD(2) by fastforce
  moreover have "\<not> uint MESSAGES_TOPIC_MOTOR_SUBTOPIC_ALL < kVexMotorNum" by (simp add: subtopic_defs kVexMotorNum_def)
  moreover have "MESSAGES_TOPIC_MOTOR \<noteq> MESSAGES_TOPIC_PUBSUB" "MESSAGES_TOPIC_MOTOR \<noteq> MESSAGES_TOPIC_CLOCK" by (simp_all add: topic_defs)
  ultimately show ?thesis
    by (auto simp: rpcRecv_def message_read_frame_def rpcRecvRead_def rpcRecvReadMotor_def Let_def all_motors_run c_def [symmetric]
        rpcSendRep_def upd_rpc_def)
qed

text \<open>Commanding motors and reading them back: after a WRITE to all motors, whose value is any list of index and value
  pairs, the command of every port is the last value given for it, limited to -127, or the old one if none is;
  a READ of all motors is then answered by one final DATA packet with the request's id whose value lists the ten
  ports in order, each with its command. Pairs with an index outside 0 to 9 change nothing.\<close>
theorem rpc_motor_write_read:
  assumes "rpc_ok s" "unat n = length v" "even (length v)" "v \<noteq> []"
  shows "\<exists>s1 s2. rpcRecv (log_rpc dev) (message_write_frame w MESSAGES_TOPIC_MOTOR MESSAGES_TOPIC_MOTOR_SUBTOPIC_ALL n v) s = Some s1 \<and>
    rpcRecv (log_rpc dev) (message_read_frame q MESSAGES_TOPIC_MOTOR MESSAGES_TOPIC_MOTOR_SUBTOPIC_ALL) s1 = Some s2 \<and>
    (\<forall>i\<in>{0..9}. vexMotorGet i (motors (fst s2)) = commanded i v (vexMotorGet i (motors (fst s)))) \<and>
    snd s2 = snd s @ [data_octets q MESSAGES_TOPIC_MOTOR MESSAGES_TOPIC_MOTOR_SUBTOPIC_ALL MESSAGES_DATA_FLAG_END
      (pairs (\<lambda>i. i8 (commanded i v (vexMotorGet i (motors (fst s))))) all_ports) s]"
proof -
  define s1 where "s1 = upd_rpc (\<lambda>r. r\<lparr>heartbeat := clock (fst s)\<rparr>) (upd_motors (write_motors v) s)"
  have n: "n \<noteq> 0" "n mod 2 = 0" "2 * unat (n div 2) = length v"
    using assms(2-4) by (auto simp: unat_div unat_mod word_unat_eq_iff even_iff_mod_2_eq_zero)
  have w: "rpcRecv (log_rpc dev) (message_write_frame w MESSAGES_TOPIC_MOTOR MESSAGES_TOPIC_MOTOR_SUBTOPIC_ALL n v) s = Some s1"
    using n by (simp add: rpcRecv_def message_write_frame_def rpcRecvWrite_def rpcRecvWriteMotor_def Let_def s1_def upd_motors_def)
  have ok: "rpc_ok s1" using assms(1)
    by (simp add: rpc_ok_def s1_def upd_rpc_def upd_motors_def log_live_def scratch_ok_def core_inv_def)
  obtain s2 where s2: "rpcRecv (log_rpc dev) (message_read_frame q MESSAGES_TOPIC_MOTOR MESSAGES_TOPIC_MOTOR_SUBTOPIC_ALL) s1 = Some s2"
    "snd s2 = snd s1 @ [data_octets q MESSAGES_TOPIC_MOTOR MESSAGES_TOPIC_MOTOR_SUBTOPIC_ALL MESSAGES_DATA_FLAG_END
      (pairs (motor_now (motors (fst s1))) all_ports) s1]" "motors (fst s2) = motors (fst s1)"
    using read_all_motors [OF ok, of dev q] by blast
  have m: "vexMotorGet i (motors (fst s1)) = commanded i v (vexMotorGet i (motors (fst s)))" if "0 \<le> i" "i < 10" for i
    using vexMotorGet_write_motors [OF _ that] rpc_ok_lengths [OF assms(1)] by (simp add: s1_def upd_rpc_def upd_motors_def)
  then have "pairs (motor_now (motors (fst s1))) all_ports = pairs (\<lambda>i. i8 (commanded i v (vexMotorGet i (motors (fst s))))) all_ports"
    by (simp add: all_ports motor_now_def)
  moreover have "data_octets q' t u f v' s1 = data_octets q' t u f v' s" "snd s1 = snd s" for q' t u f v'
    by (simp_all add: s1_def data_octets_def upd_rpc_def upd_motors_def)
  ultimately show ?thesis using w s2 m by auto
qed

theorem rpc_motor_write_read_witness:
  "\<exists>s1 s2. rpcRecv (log_rpc stm32_hw) (message_write_frame 1 MESSAGES_TOPIC_MOTOR MESSAGES_TOPIC_MOTOR_SUBTOPIC_ALL 4 [3, 0x80, 3, 50]) sample_robot = Some s1 \<and>
    rpcRecv (log_rpc stm32_hw) (message_read_frame 2 MESSAGES_TOPIC_MOTOR MESSAGES_TOPIC_MOTOR_SUBTOPIC_ALL) s1 = Some s2 \<and>
    vexMotorGet 3 (motors (fst s2)) = 50"
  using rpc_motor_write_read [OF sample_robot_ok, of 4 "[3, 0x80, 3, 50]" stm32_hw 1 2]
  by (auto simp: int8_of_def)

section \<open>Publications\<close>

definition changed_ports :: "('h, 'x) logged_state \<Rightarrow> int list" where
  "changed_ports s = filter (\<lambda>i. motor_now (motors (fst s)) i \<noteq> motor (rpc_of s) ! nat i) all_ports"

lemma length_changed_ports: "length (changed_ports s) \<le> 10"
  using length_filter_le [of "\<lambda>i. motor_now (motors (fst s)) i \<noteq> motor (rpc_of s) ! nat i" all_ports]
  by (simp add: changed_ports_def motor_index_defs)

lemma no_changed_ports: "motor (rpc_of s) = map (motor_now (motors (fst s))) all_ports \<Longrightarrow> changed_ports s = []"
  by (simp add: changed_ports_def filter_empty_conv all_ports)

lemma publish_motors:
  assumes "rpc_ok s" "active (sub_at i s)" "sub_topic (sub_at i s) = MESSAGES_TOPIC_MOTOR"
    "sub_subtopic (sub_at i s) = MESSAGES_TOPIC_MOTOR_SUBTOPIC_ALL"
  shows "\<exists>s'. rpcPublish (log_rpc dev) i s = Some s' \<and> rpc_ok s' \<and> snd s' = snd s @
      (if changed_ports s = [] then [] else [data_octets (sub_req_id (sub_at i s)) MESSAGES_TOPIC_MOTOR
         MESSAGES_TOPIC_MOTOR_SUBTOPIC_ALL MESSAGES_DATA_FLAG_PUB (pairs (motor_now (motors (fst s))) (changed_ports s)) s]) \<and>
    core s' = core (set_cache (map (motor_now (motors (fst s))) all_ports) s)"
proof -
  let ?o = "pairs (motor_now (motors (fst s))) (changed_ports s)"
  define c where "c = refreshed (motors (fst s)) all_ports (motor (rpc_of s))"
  have c: "c = map (motor_now (motors (fst s))) all_ports" "length c = 10"
    using rpc_ok_lengths [OF assms(1)] by (simp add: c_def refreshed_all, simp add: c_def)
  have run: "changed_motors all_ports s = (?o, set_cache c s)"
    unfolding c_def changed_ports_def by (rule changed_motors_run) (auto simp: motor_index_defs)
  have ok: "rpc_ok (set_cache c s)" using rpc_ok_set_cache [OF assms(1) c(2)] .
  have len: "length ?o \<le> 243" using length_changed_ports [of s] by simp
  have "rpcPublish (log_rpc dev) i s = rpcPublishMotor (log_rpc dev) i s"
    using assms(2,3) by (simp add: rpcPublish_def topic_defs)
  also have "\<dots> = put_tmp ?o (set_cache c s) \<bind> (\<lambda>s'. if length ?o > 0
      then void (rpcSendPub (log_rpc dev) (sub_at i s) (word_of_nat (length ?o)) (tmp (rpc_of s')) s') else Some s')"
  proof -
    have "\<not> uint MESSAGES_TOPIC_MOTOR_SUBTOPIC_ALL < kVexMotorNum" by (simp add: subtopic_defs kVexMotorNum_def)
    moreover have "sub_at i s' = sub_at i s" if "put_tmp ?o (set_cache c s) = Some s'" for s'
      using that by (auto simp: put_tmp_def bind_Some_iff sub_at_def upd_rpc_def set_cache_def)
    ultimately show ?thesis using assms(4)
      by (cases "put_tmp ?o (set_cache c s)") (simp_all add: rpcPublishMotor_def Let_def run)
  qed
  finally have e: "rpcPublish (log_rpc dev) i s = \<dots>" .
  show ?thesis
  proof (cases "changed_ports s = []")
    case True
    obtain s' where "put_tmp [] (set_cache c s) = Some s'" "logged_rpc.sends [] (set_cache c s) s'" "core s' = core (set_cache c s)"
      using logged_rpc.put_tmp [of "set_cache c s" "[]"] ok by (auto simp: rpc_ok_def)
    moreover from this ok have "rpc_ok s'" by (simp add: rpc_ok_def logged_rpc.sends_def)
    ultimately show ?thesis using e True c(1) by (auto simp: logged_rpc.sends_def)
  next
    case False
    then have "length ?o > 0" by simp
    then show ?thesis
      using e False log_reply_tmp [OF ok len, of dev "sub_req_id (sub_at i s)" MESSAGES_TOPIC_MOTOR MESSAGES_TOPIC_MOTOR_SUBTOPIC_ALL
          MESSAGES_DATA_FLAG_PUB] c(1) assms(3,4)
      by (simp add: rpcSendPub_def conj_ac)
  qed
qed

text \<open>C14: A subscription to all motors is served with the differences only: one PUB packet with the subscriber's id that lists,
  in the order of the ports, exactly the motors whose value is not the one last told, and no packet when there are
  none. Afterwards every motor counts as told, so publishing again sends nothing until some motor changes.\<close>
theorem rpc_publishes_changes:
  assumes "rpc_ok s" "active (sub_at i s)" "sub_topic (sub_at i s) = MESSAGES_TOPIC_MOTOR"
    "sub_subtopic (sub_at i s) = MESSAGES_TOPIC_MOTOR_SUBTOPIC_ALL"
  shows "\<exists>s' s''. rpcPublish (log_rpc dev) i s = Some s' \<and> snd s' = snd s @
      (if changed_ports s = [] then [] else [data_octets (sub_req_id (sub_at i s)) MESSAGES_TOPIC_MOTOR
         MESSAGES_TOPIC_MOTOR_SUBTOPIC_ALL MESSAGES_DATA_FLAG_PUB (pairs (motor_now (motors (fst s))) (changed_ports s)) s]) \<and>
    motor (rpc_of s') = map (motor_now (motors (fst s))) all_ports \<and>
    rpcPublish (log_rpc dev) i s' = Some s'' \<and> snd s'' = snd s'"
proof -
  obtain s' where s': "rpcPublish (log_rpc dev) i s = Some s'" "rpc_ok s'" "snd s' = snd s @
      (if changed_ports s = [] then [] else [data_octets (sub_req_id (sub_at i s)) MESSAGES_TOPIC_MOTOR
         MESSAGES_TOPIC_MOTOR_SUBTOPIC_ALL MESSAGES_DATA_FLAG_PUB (pairs (motor_now (motors (fst s))) (changed_ports s)) s])"
    "core s' = core (set_cache (map (motor_now (motors (fst s))) all_ports) s)"
    using publish_motors [OF assms] by blast
  have k: "motor (rpc_of s') = map (motor_now (motors (fst s))) all_ports" "motors (fst s') = motors (fst s)" "sub_at i s' = sub_at i s"
    using core_eqD(2,8,15) [OF s'(4)] by (simp_all add: sub_at_def)
  obtain s'' where "rpcPublish (log_rpc dev) i s' = Some s''" "snd s'' = snd s'"
    using publish_motors [OF s'(2), of i dev] assms(2-4) k no_changed_ports [of s'] by auto
  then show ?thesis using s' k by blast
qed

theorem rpc_publishes_changes_witness:
  "\<exists>s' s''. rpcPublish (log_rpc stm32_hw) 2 (upd_motors (vexMotorSet 4 99) (upd_sub 2 (\<lambda>u. \<lparr>active = True, sub_req_id = 5,
      sub_topic = MESSAGES_TOPIC_MOTOR, sub_subtopic = MESSAGES_TOPIC_MOTOR_SUBTOPIC_ALL\<rparr>) sample_robot)) = Some s' \<and>
    motor (rpc_of s') = [0, 0, 0, 0, 99, 0, 0, 0, 0, 0] \<and>
    rpcPublish (log_rpc stm32_hw) 2 s' = Some s'' \<and> snd s'' = snd s'"
proof -
  let ?s = "upd_motors (vexMotorSet 4 99) (upd_sub 2 (\<lambda>u. \<lparr>active = True, sub_req_id = 5,
      sub_topic = MESSAGES_TOPIC_MOTOR, sub_subtopic = MESSAGES_TOPIC_MOTOR_SUBTOPIC_ALL\<rparr>) sample_robot)"
  have "rpc_ok ?s" using sample_robot_ok
    by (simp add: rpc_ok_def upd_motors_def upd_sub_def upd_rpc_def log_live_def scratch_ok_def core_inv_def)
  moreover have "sub_at 2 ?s = \<lparr>active = True, sub_req_id = 5, sub_topic = MESSAGES_TOPIC_MOTOR,
      sub_subtopic = MESSAGES_TOPIC_MOTOR_SUBTOPIC_ALL\<rparr>"
    by (simp add: sub_at_def upd_motors_def upd_sub_def upd_rpc_def sample_robot_def sample_rpc_def)
  moreover have "map (motor_now (motors (fst ?s))) all_ports = [0, 0, 0, 0, 99, 0, 0, 0, 0, 0]"
    unfolding all_ports
    by (simp add: upd_motors_def upd_sub_def upd_rpc_def sample_robot_def sample_motors_def vexMotorSet_def
        VexMotor.motor_update_def motor_now_def vexMotorGet_def motor_index_defs Let_def i8_def)
  ultimately show ?thesis using rpc_publishes_changes [of ?s 2 stm32_hw] by auto
qed

section \<open>Subscriptions\<close>

definition subscriptions :: "('h, 'x) logged_state \<Rightarrow> rpcSubscription multiset" where
  "subscriptions s = mset (filter active (subs (rpc_of s)))"

lemma filter_update_mset:
  assumes "i < length us"
  shows "mset (filter P (us[i := u])) + (if P (us ! i) then {#us ! i#} else {#}) =
    mset (filter P us) + (if P u then {#u#} else {#})"
  using assms
proof (induction us arbitrary: i)
  case (Cons a us)
  show ?case
  proof (cases i)
    case (Suc k)
    then show ?thesis using Cons.IH [of k] Cons.prems by (auto simp: ac_simps)
  qed (auto simp: ac_simps)
qed simp

lemma free_count:
  assumes "length (subs (rpc_of s)) = 10"
  shows "fst (rpcSubFree s) + size (subscriptions s) = 10"
proof -
  have "subs (rpc_of s) = map (\<lambda>i. sub_at i s) [0..<10]"
    using assms by (simp add: sub_at_def list_eq_iff_nth_eq del: upt_rec_numeral)
  then have "filter active (subs (rpc_of s)) = filter active (map (\<lambda>i. sub_at i s) [0..<10])" by (rule arg_cong)
  then have "size (subscriptions s) = length (filter (\<lambda>i. active (sub_at i s)) [0..<10])"
    by (simp only: subscriptions_def size_mset filter_map comp_def length_map)
  then show ?thesis
    using sum_length_filter_compl [of "\<lambda>i. active (sub_at i s)" "[0..<10]"]
    by (simp add: rpcSubFree_def RPC_SUB_MAX_def Let_def del: upt_rec_numeral)
qed

lemma find_spec:
  assumes "length (subs (rpc_of s)) = 10"
  shows "case snd (rpcSubFind True q s) of
      Some i \<Rightarrow> i < 10 \<and> active (sub_at i s) \<and> sub_req_id (sub_at i s) = q
    | None \<Rightarrow> \<forall>u\<in>#subscriptions s. sub_req_id u \<noteq> q"
proof (cases "filter (\<lambda>i. active (sub_at i s) \<and> sub_req_id (sub_at i s) = q) [0..<RPC_SUB_MAX]")
  case Nil
  have "\<forall>u\<in>#subscriptions s. sub_req_id u \<noteq> q"
    using Nil assms by (auto simp: filter_empty_conv subscriptions_def RPC_SUB_MAX_def sub_at_def in_set_conv_nth simp del: upt_rec_numeral)
  then show ?thesis using Nil by (simp add: rpcSubFind_def)
next
  case (Cons i js)
  then show ?thesis using filter_ConsD [OF Cons] by (simp add: rpcSubFind_def RPC_SUB_MAX_def del: upt_rec_numeral)
qed

definition new_sub :: "message_subscribe \<Rightarrow> rpcSubscription" where
  "new_sub m = \<lparr>active = True, sub_req_id = subscribe_req_id m, sub_topic = subscribe_topic m, sub_subtopic = subscribe_subtopic m\<rparr>"

abbreviation flag_pub_end :: u8 where "flag_pub_end \<equiv> MESSAGES_DATA_FLAG_PUB OR MESSAGES_DATA_FLAG_END"
abbreviation flag_pub_error :: u8 where "flag_pub_error \<equiv> MESSAGES_DATA_FLAG_PUB OR MESSAGES_DATA_FLAG_ERROR OR MESSAGES_DATA_FLAG_END"

lemma subscriptions_update:
  assumes "length (subs (rpc_of s)) = 10" "i < 10"
  shows "subscriptions (upd_sub i (\<lambda>_. u) s) + (if active (sub_at i s) then {#sub_at i s#} else {#}) =
    subscriptions s + (if active u then {#u#} else {#})"
  using filter_update_mset [of i "subs (rpc_of s)" active u] assms by (simp add: subscriptions_def upd_sub_def upd_rpc_def sub_at_def cong: if_cong split del: if_split)

lemma subscribe_free:
  assumes "rpc_ok s" "size (subscriptions s) < 10"
  shows "\<exists>s'. rpcRecvSubscribe (log_rpc dev) m s = Some s' \<and> subscriptions s' = add_mset (new_sub m) (subscriptions s) \<and> snd s' = snd s"
proof -
  have l: "length (subs (rpc_of s)) = 10" using rpc_ok_lengths [OF assms(1)] by simp
  obtain n p where np: "rpcSubFree s = (n, p)" by (meson surj_pair)
  then have n: "n \<noteq> 0" using free_count [OF l] assms(2) by simp
  then obtain i where i: "p = Some i" "i < 10" "\<not> active (sub_at i s)" using logged_rpc.rpcSubFree_cases [OF np] by auto
  have "rpcRecvSubscribe (log_rpc dev) m s = Some (upd_sub i (\<lambda>u. new_sub m) s)"
    using np n i by (simp add: rpcRecvSubscribe_def rpcSubFind_def new_sub_def)
  moreover have "subscriptions (upd_sub i (\<lambda>_. new_sub m) s) = add_mset (new_sub m) (subscriptions s)"
    using subscriptions_update [OF l i(2), of "new_sub m"] i(3) by (simp add: new_sub_def)
  ultimately show ?thesis by (simp add: upd_sub_def upd_rpc_def)
qed

lemma subscribe_full:
  assumes "rpc_ok s" "size (subscriptions s) = 10"
  shows "\<exists>s'. rpcRecvSubscribe (log_rpc dev) m s = Some s' \<and> subscriptions s' = subscriptions s \<and>
    snd s' = snd s @ [data_octets (subscribe_req_id m) (subscribe_topic m) (subscribe_subtopic m) flag_pub_error [MESSAGES_ERROR_SUB_MAX] s]"
proof -
  have l: "length (subs (rpc_of s)) = 10" using rpc_ok_lengths [OF assms(1)] by simp
  obtain p where np: "rpcSubFree s = (0, p)" using free_count [OF l] assms(2) by (cases "rpcSubFree s") simp
  obtain s' where s': "void (rpcSendData (log_rpc dev) (subscribe_req_id m) (subscribe_topic m) (subscribe_subtopic m) flag_pub_error 1
      [MESSAGES_ERROR_SUB_MAX] s) = Some s'" "core s' = core s"
     "snd s' = snd s @ [data_octets (subscribe_req_id m) (subscribe_topic m) (subscribe_subtopic m) flag_pub_error [MESSAGES_ERROR_SUB_MAX] s]"
    using log_reply_val [OF assms(1), of 1 "[MESSAGES_ERROR_SUB_MAX]" dev "subscribe_req_id m" "subscribe_topic m" "subscribe_subtopic m" flag_pub_error] by auto
  then show ?thesis using np core_eqD(15) [OF s'(2)]
    by (simp add: rpcRecvSubscribe_def rpcSubFind_def rpcSendPubError_def subscriptions_def)
qed

lemma unsubscribe_found:
  assumes "rpc_ok s" "\<exists>u\<in>#subscriptions s. sub_req_id u = unsubscribe_req_id m"
  shows "\<exists>s' u. rpcRecvUnsubscribe (log_rpc dev) m s = Some s' \<and> u \<in># subscriptions s \<and> sub_req_id u = unsubscribe_req_id m \<and>
    subscriptions s' = subscriptions s - {#u#} \<and>
    snd s' = snd s @ [data_octets (unsubscribe_req_id m) (sub_topic u) (sub_subtopic u) flag_pub_end [] s]"
proof -
  have l: "length (subs (rpc_of s)) = 10" using rpc_ok_lengths [OF assms(1)] by simp
  obtain i where i: "snd (rpcSubFind True (unsubscribe_req_id m) s) = Some i" "i < 10" "active (sub_at i s)"
      "sub_req_id (sub_at i s) = unsubscribe_req_id m"
    using find_spec [OF l, of "unsubscribe_req_id m"] assms(2) by (auto split: option.splits)
  let ?u = "sub_at i s"
  obtain s' where s': "void (rpcSendData (log_rpc dev) (sub_req_id ?u) (sub_topic ?u) (sub_subtopic ?u) flag_pub_end 0 [] s) = Some s'"
     "core s' = core s" "snd s' = snd s @ [data_octets (sub_req_id ?u) (sub_topic ?u) (sub_subtopic ?u) flag_pub_end [] s]"
    using log_reply_val [OF assms(1), of 0 "[]" dev "sub_req_id ?u" "sub_topic ?u" "sub_subtopic ?u" flag_pub_end] by auto
  have same: "subs (rpc_of s') = subs (rpc_of s)" using core_eqD(15) [OF s'(2)] .
  have "rpcRecvUnsubscribe (log_rpc dev) m s = Some (rpcSubReset i s')"
    using i s'(1) by (simp add: rpcRecvUnsubscribe_def case_prod_unfold Let_def)
  moreover have "subscriptions (rpcSubReset i s') + {#?u#} = subscriptions s"
    using subscriptions_update [of s' i no_sub] l i(2,3) same by (simp add: rpcSubReset_def no_sub_def subscriptions_def sub_at_def)
  moreover have "?u \<in># subscriptions s" using i(2,3) l by (simp add: subscriptions_def sub_at_def)
  moreover have "snd (rpcSubReset i s') = snd s'" by (simp add: rpcSubReset_def upd_sub_def upd_rpc_def)
  ultimately show ?thesis using s'(3) i(4) by (metis add_diff_cancel_right')
qed

lemma unsubscribe_missing:
  assumes "rpc_ok s" "\<forall>u\<in>#subscriptions s. sub_req_id u \<noteq> unsubscribe_req_id m"
  shows "\<exists>s'. rpcRecvUnsubscribe (log_rpc dev) m s = Some s' \<and> subscriptions s' = subscriptions s \<and>
    snd s' = snd s @ [data_octets (unsubscribe_req_id m) MESSAGES_TOPIC_ALL MESSAGES_TOPIC_ALL_SUBTOPIC_ALL flag_pub_error [MESSAGES_ERROR_BAD_REQ_ID] s,
      data_octets (unsubscribe_req_id m) MESSAGES_TOPIC_ALL MESSAGES_TOPIC_ALL_SUBTOPIC_ALL flag_pub_end [] s]"
proof -
  let ?o = "data_octets (unsubscribe_req_id m) MESSAGES_TOPIC_ALL MESSAGES_TOPIC_ALL_SUBTOPIC_ALL"
  have l: "length (subs (rpc_of s)) = 10" using rpc_ok_lengths [OF assms(1)] by simp
  have n: "snd (rpcSubFind True (unsubscribe_req_id m) s) = None"
    using find_spec [OF l, of "unsubscribe_req_id m"] assms(2) l
    by (auto simp: subscriptions_def sub_at_def split: option.splits)
  obtain s1 where s1: "void (rpcSendData (log_rpc dev) (unsubscribe_req_id m) MESSAGES_TOPIC_ALL MESSAGES_TOPIC_ALL_SUBTOPIC_ALL
      flag_pub_error 1 [MESSAGES_ERROR_BAD_REQ_ID] s) = Some s1" "snd s1 = snd s @ [?o flag_pub_error [MESSAGES_ERROR_BAD_REQ_ID] s]"
      "core s1 = core s" "rpc_ok s1"
    using log_reply_val [OF assms(1), of 1 "[MESSAGES_ERROR_BAD_REQ_ID]" dev "unsubscribe_req_id m" MESSAGES_TOPIC_ALL
        MESSAGES_TOPIC_ALL_SUBTOPIC_ALL flag_pub_error] by auto
  obtain s2 where s2: "void (rpcSendData (log_rpc dev) (unsubscribe_req_id m) MESSAGES_TOPIC_ALL MESSAGES_TOPIC_ALL_SUBTOPIC_ALL
      flag_pub_end 0 [] s1) = Some s2" "snd s2 = snd s1 @ [?o flag_pub_end [] s1]" "core s2 = core s1"
    using log_reply_val [OF s1(4), of 0 "[]" dev "unsubscribe_req_id m" MESSAGES_TOPIC_ALL MESSAGES_TOPIC_ALL_SUBTOPIC_ALL flag_pub_end] by auto
  have "rpcRecvUnsubscribe (log_rpc dev) m s = Some s2"
    using n s1(1) s2(1) by (simp add: rpcRecvUnsubscribe_def case_prod_unfold Let_def rpcSendPubError_def)
  moreover have "subscriptions s2 = subscriptions s" using core_eqD(15) [OF s1(3)] core_eqD(15) [OF s2(3)] by (simp add: subscriptions_def)
  ultimately show ?thesis using s1(2) s2(2) data_octets_core [OF s1(3)] by simp
qed

text \<open>C15: The table of subscriptions behaves as a bag of at most ten: subscribing adds the subscription and answers nothing
  while fewer than ten are active, even if one of them already uses the request id, and leaves the bag alone and
  answers with a SUB_MAX error when ten are; unsubscribing removes one subscription with the id and answers with a
  final packet, and answers with a BAD_REQ_ID error and a final packet, changing nothing, when there is none.\<close>
theorem rpc_subscriptions_are_a_bag:
  assumes "rpc_ok s"
  shows "size (subscriptions s) \<le> 10 \<and>
    (\<exists>s'. rpcRecvSubscribe (log_rpc dev) m s = Some s' \<and>
       (if size (subscriptions s) < 10
        then subscriptions s' = add_mset (new_sub m) (subscriptions s) \<and> snd s' = snd s
        else subscriptions s' = subscriptions s \<and> snd s' = snd s @ [data_octets (subscribe_req_id m) (subscribe_topic m)
               (subscribe_subtopic m) flag_pub_error [MESSAGES_ERROR_SUB_MAX] s])) \<and>
    (\<exists>s'. rpcRecvUnsubscribe (log_rpc dev) n s = Some s' \<and>
       (if \<exists>u\<in>#subscriptions s. sub_req_id u = unsubscribe_req_id n
        then \<exists>u\<in>#subscriptions s. sub_req_id u = unsubscribe_req_id n \<and> subscriptions s' = subscriptions s - {#u#} \<and>
               snd s' = snd s @ [data_octets (unsubscribe_req_id n) (sub_topic u) (sub_subtopic u) flag_pub_end [] s]
        else subscriptions s' = subscriptions s \<and> snd s' = snd s @
          [data_octets (unsubscribe_req_id n) MESSAGES_TOPIC_ALL MESSAGES_TOPIC_ALL_SUBTOPIC_ALL flag_pub_error [MESSAGES_ERROR_BAD_REQ_ID] s,
           data_octets (unsubscribe_req_id n) MESSAGES_TOPIC_ALL MESSAGES_TOPIC_ALL_SUBTOPIC_ALL flag_pub_end [] s]))"
proof (intro conjI)
  have l: "length (subs (rpc_of s)) = 10" using rpc_ok_lengths [OF assms(1)] by simp
  show size: "size (subscriptions s) \<le> 10" using free_count [OF l] by simp
  show "\<exists>s'. rpcRecvSubscribe (log_rpc dev) m s = Some s' \<and>
       (if size (subscriptions s) < 10
        then subscriptions s' = add_mset (new_sub m) (subscriptions s) \<and> snd s' = snd s
        else subscriptions s' = subscriptions s \<and> snd s' = snd s @ [data_octets (subscribe_req_id m) (subscribe_topic m)
               (subscribe_subtopic m) flag_pub_error [MESSAGES_ERROR_SUB_MAX] s])"
    using subscribe_free [OF assms, of dev m] subscribe_full [OF assms, of dev m] size by (cases "size (subscriptions s) < 10") auto
  show "\<exists>s'. rpcRecvUnsubscribe (log_rpc dev) n s = Some s' \<and>
       (if \<exists>u\<in>#subscriptions s. sub_req_id u = unsubscribe_req_id n
        then \<exists>u\<in>#subscriptions s. sub_req_id u = unsubscribe_req_id n \<and> subscriptions s' = subscriptions s - {#u#} \<and>
               snd s' = snd s @ [data_octets (unsubscribe_req_id n) (sub_topic u) (sub_subtopic u) flag_pub_end [] s]
        else subscriptions s' = subscriptions s \<and> snd s' = snd s @
          [data_octets (unsubscribe_req_id n) MESSAGES_TOPIC_ALL MESSAGES_TOPIC_ALL_SUBTOPIC_ALL flag_pub_error [MESSAGES_ERROR_BAD_REQ_ID] s,
           data_octets (unsubscribe_req_id n) MESSAGES_TOPIC_ALL MESSAGES_TOPIC_ALL_SUBTOPIC_ALL flag_pub_end [] s])"
  proof (cases "\<exists>u\<in>#subscriptions s. sub_req_id u = unsubscribe_req_id n")
    case True
    from unsubscribe_found [OF assms True, of dev] show ?thesis unfolding if_P [OF True] by blast
  next
    case False
    then have "\<forall>u\<in>#subscriptions s. sub_req_id u \<noteq> unsubscribe_req_id n" by blast
    from unsubscribe_missing [OF assms this, of dev] show ?thesis unfolding if_not_P [OF False] .
  qed
qed

theorem rpc_subscriptions_are_a_bag_witness:
  "size (subscriptions sample_robot) \<le> 10 \<and>
    (\<exists>s'. rpcRecvSubscribe (log_rpc stm32_hw) \<lparr>subscribe_req_id = 7, subscribe_topic = 1, subscribe_subtopic = 0\<rparr> sample_robot = Some s' \<and>
      snd s' = [] \<and> size (subscriptions s') = 1)"
proof -
  have e: "subscriptions sample_robot = {#}"
    by (simp add: subscriptions_def sample_robot_def sample_rpc_def no_sub_def)
  have sn: "snd sample_robot = []" by (simp add: sample_robot_def)
  show ?thesis
    using rpc_subscriptions_are_a_bag [OF sample_robot_ok, of stm32_hw "\<lparr>subscribe_req_id = 7, subscribe_topic = 1, subscribe_subtopic = 0\<rparr>" "\<lparr>unsubscribe_req_id = 7\<rparr>"] e sn
    by auto
qed

end
