(* ===== verification/Rpc_Cassette.thy ===== *)
theory Rpc_Cassette
  imports Rpc_Properties
begin

text \<open>
  Recording a cassette through the remote procedure calls and playing it back, on the flash device: the requests OPEN,
  WRITE for each octet, CLOSE and READ.
\<close>

definition open_cassette :: rpc_event where
  "open_cassette = Request (message_write_frame 1 MESSAGES_TOPIC_CASSETTE MESSAGES_TOPIC_CASSETTE_SUBTOPIC_OPEN 1 [0])"

definition write_octet :: "u8 \<Rightarrow> rpc_event" where
  "write_octet b = Request (message_write_frame 2 MESSAGES_TOPIC_CASSETTE MESSAGES_TOPIC_CASSETTE_SUBTOPIC_WRITE 2 [0, b])"

definition close_cassette :: rpc_event where
  "close_cassette = Request (message_write_frame 3 MESSAGES_TOPIC_CASSETTE MESSAGES_TOPIC_CASSETTE_SUBTOPIC_CLOSE 1 [0])"

definition read_cassette :: "u16 \<Rightarrow> rpc_event" where
  "read_cassette q = Request (message_read_frame q MESSAGES_TOPIC_CASSETTE 0)"

abbreviation dev_rpc :: "(stm32, 'x, octets list) rpc_env" where "dev_rpc \<equiv> log_rpc stm32_hw"

abbreviation tape :: "(stm32, 'x) logged_state \<Rightarrow> octets" where "tape s \<equiv> data (params (user_params (fst s)))"
abbreviation writes_done :: "(stm32, 'x) logged_state \<Rightarrow> int" where "writes_done s \<equiv> user_param_write_limit (user_params (fst s))"

lemma dev_rpc_simps [simp]: "flash_dev dev_rpc = stm32_hw"
  by (simp add: log_rpc_def)

lemma cassette_max_simps [simp]: "cassetteMax = 1"
  by (simp add: cassetteMax_def CASSETTE_MAX_def)

text \<open>Between two requests while recording.\<close>

definition recording :: "(stm32, 'x) logged_state \<Rightarrow> bool" where
  "recording s \<longleftrightarrow> rpc_ok s \<and> cassette (rpc_of s) = 0 \<and> fp (rpc_of s) = PARAMS \<and> (\<exists>k. flash_ready k (user_params (fst s)))"

definition same_clock :: "('h, 'x) logged_state \<Rightarrow> ('h, 'x) logged_state \<Rightarrow> bool" where
  "same_clock s s' \<longleftrightarrow> snd s' = snd s \<and> clock (fst s') = clock (fst s) \<and> timestamp (rpc_of s') = timestamp (rpc_of s)"

lemma same_clock_trans: "same_clock s t \<Longrightarrow> same_clock t u \<Longrightarrow> same_clock s u"
  by (simp add: same_clock_def)

lemma param_write:
  assumes "flash_ready k p" "user_param_write_limit p < 32" "length (data (params p)) = 32"
  shows "\<exists>p' k'. vexFlashUserParamWrite stm32_hw PARAMS p = (FLASH_SUCCESS, p') \<and> flash_ready k' p' \<and>
    data (params p') = data (params p) \<and> user_param_write_limit p' = user_param_write_limit p + 1 \<and>
    stm32.holds (data (params p)) (flash p')"
proof -
  have r: "stm32.ready (flash p)" "page_ok k (page_words (page (flash p)))" using assms(1) by (simp_all add: flash_ready)
  have l: "user_param_write_limit p < USER_PARAM_MAX_WRITE" using assms(2) by (simp add: USER_PARAM_MAX_WRITE_def)
  obtain p' where p': "vexFlashUserParamWrite stm32_hw PARAMS p = (FLASH_SUCCESS, p')" "stm32.ready (flash p')"
    "user_param_write_limit p' = user_param_write_limit p + 1" "data (params p') = data (params p)"
    "\<exists>k'. page_ok k' (page_words (page (flash p')))"
    using stm32.flash_write [OF r l] by blast
  then show ?thesis using stm32.write_holds [OF r l assms(3)] by (auto simp: flash_ready)
qed

lemma ok_params:
  "rpc_ok s \<Longrightarrow> length (data (params p)) = 32 \<Longrightarrow> core_inv (core (((fst s)\<lparr>rpc := r, user_params := p\<rparr>, snd s))) \<Longrightarrow>
    tmp r = tmp (rpc_of s) \<Longrightarrow> out_buf r = out_buf (rpc_of s) \<Longrightarrow> writePacket r = writePacket (rpc_of s) \<Longrightarrow>
    rpc_ok ((fst s)\<lparr>rpc := r, user_params := p\<rparr>, snd s)"
  by (simp add: rpc_ok_def log_live_def scratch_ok_def)

lemma recording_write:
  assumes "recording s" "writes_done s < 32" "tape s ! 0 = word_of_nat j" "j < 31"
  shows "\<exists>s'. rpc_do dev_rpc (write_octet b) s = Some s' \<and> recording s' \<and> writes_done s' = writes_done s + 1 \<and>
    tape s' = (tape s)[j := b, 0 := word_of_nat (Suc j)] \<and> same_clock s s'"
proof -
  define d where "d = (tape s)[j := b, 0 := word_of_nat (Suc j)]"
  define p where "p = (user_params (fst s))\<lparr>params := (params (user_params (fst s)))\<lparr>data := d\<rparr>\<rparr>"
  have s: "rpc_ok s" "cassette (rpc_of s) = 0" "fp (rpc_of s) = PARAMS" using assms(1) by (simp_all add: recording_def)
  obtain k where k: "flash_ready k (user_params (fst s))" using assms(1) by (auto simp: recording_def)
  have "length d = 32" using s(1) by (simp add: d_def rpc_ok_def core_inv_def)
  then obtain p' k' where p': "vexFlashUserParamWrite stm32_hw PARAMS p = (FLASH_SUCCESS, p')" "flash_ready k' p'"
    "data (params p') = d" "user_param_write_limit p' = writes_done s + 1"
    using param_write [of k p] k assms(2) by (auto simp: p_def flash_ready_def)
  let ?s = "((fst s)\<lparr>rpc := (rpc_of s)\<lparr>heartbeat := clock (fst s)\<rparr>, user_params := p'\<rparr>, snd s)"
  have j: "unat (word_of_nat j :: u8) = j" "\<not> (31 :: u8) \<le> word_of_nat j" "word_of_nat j + 1 = (word_of_nat (Suc j) :: u8)"
    using assms(4) by (simp add: unat_of_nat, simp add: word_le_nat_alt unat_of_nat, simp)
  have o: "MESSAGES_TOPIC_CASSETTE \<noteq> MESSAGES_TOPIC_MOTOR" "MESSAGES_TOPIC_CASSETTE_SUBTOPIC_WRITE \<noteq> MESSAGES_TOPIC_CASSETTE_SUBTOPIC_OPEN"
    "MESSAGES_TOPIC_CASSETTE_SUBTOPIC_WRITE \<noteq> MESSAGES_TOPIC_CASSETTE_SUBTOPIC_CLOSE"
    by (simp_all add: topic_defs subtopic_defs)
  have data: "upd_data (\<lambda>d. d[0 := word_of_nat j + 1]) (upd_data (\<lambda>d. d[j := b]) s) = ((fst s)\<lparr>user_params := p\<rparr>, snd s)"
    unfolding j(3) by (simp add: upd_data_def on_params_def p_def d_def)
  have "rpcRecvWriteCassette dev_rpc \<lparr>write_req_id = 2, write_topic = MESSAGES_TOPIC_CASSETTE,
      write_subtopic = MESSAGES_TOPIC_CASSETTE_SUBTOPIC_WRITE, write_len = 2, write_value = [0, b]\<rparr> s =
      Some ((fst s)\<lparr>user_params := p'\<rparr>, snd s)"
    using o s assms(3) j data p'(1)
    by (simp add: rpcRecvWriteCassette_def rd_def on_params_def Let_def del: add.commute of_nat_Suc)
  then have "rpc_do dev_rpc (write_octet b) s = Some ?s"
    using o by (simp add: write_octet_def message_write_frame_def rpcRecv_def rpcRecvWrite_def upd_rpc_def)
  moreover have "rpc_ok ?s"
    using s \<open>length d = 32\<close> p'(3) by (intro ok_params) (simp_all add: rpc_ok_def core_inv_def)
  ultimately show ?thesis using p' s by (auto simp: recording_def same_clock_def d_def)
qed

lemma recording_writes:
  assumes "recording s" "writes_done s + int (length bs) \<le> 32" "tape s ! 0 = word_of_nat j" "j + length bs \<le> 31"
  shows "\<exists>s'. rpc_run dev_rpc (map write_octet bs) s = Some s' \<and> recording s' \<and> writes_done s' = writes_done s + int (length bs) \<and>
    tape s' ! 0 = word_of_nat (j + length bs) \<and> (\<forall>i. 1 \<le> i \<and> i < j \<longrightarrow> tape s' ! i = tape s ! i) \<and>
    (\<forall>i<length bs. 1 \<le> j + i \<longrightarrow> tape s' ! (j + i) = bs ! i) \<and> same_clock s s'"
  using assms
proof (induction bs arbitrary: s j)
  case Nil
  then show ?case by (simp add: same_clock_def)
next
  case (Cons b bs)
  have lim: "writes_done s < 32" "j < 31" using Cons.prems(2,4) by simp_all
  obtain s1 where s1: "rpc_do dev_rpc (write_octet b) s = Some s1" "recording s1" "writes_done s1 = writes_done s + 1"
    "tape s1 = (tape s)[j := b, 0 := word_of_nat (Suc j)]" "same_clock s s1"
    using recording_write [OF Cons.prems(1) lim(1) Cons.prems(3) lim(2), of b] by blast
  have len: "length (tape s) = 32" using Cons.prems(1) by (simp add: recording_def rpc_ok_def core_inv_def)
  then have "tape s1 ! 0 = word_of_nat (Suc j)" using s1(4) by simp
  then obtain s2 where s2: "rpc_run dev_rpc (map write_octet bs) s1 = Some s2" "recording s2"
    "writes_done s2 = writes_done s1 + int (length bs)" "tape s2 ! 0 = word_of_nat (Suc j + length bs)"
    "\<forall>i. 1 \<le> i \<and> i < Suc j \<longrightarrow> tape s2 ! i = tape s1 ! i" "\<forall>i<length bs. 1 \<le> Suc j + i \<longrightarrow> tape s2 ! (Suc j + i) = bs ! i"
    "same_clock s1 s2"
    using Cons.IH [OF s1(2), of "Suc j"] Cons.prems(2,4) s1(3) by auto
  have "tape s2 ! (j + i) = (b # bs) ! i" if "i < length (b # bs)" "1 \<le> j + i" for i
  proof (cases i)
    case 0
    then show ?thesis using s2(5) s1(4) that len Cons.prems(4) by simp
  next
    case (Suc m)
    then show ?thesis using s2(6) that by simp
  qed
  moreover have "tape s2 ! i = tape s ! i" if "1 \<le> i" "i < j" for i
    using s2(5) s1(4) that by simp
  ultimately show ?case using s1(1-3) s2 same_clock_trans [OF s1(5) s2(7)] by auto
qed

lemma open_run:
  assumes "rpc_ok s" "cassette (rpc_of s) = 0xff" "flash_ready k (user_params (fst s))"
  shows "\<exists>s'. rpc_do dev_rpc open_cassette s = Some s' \<and> recording s' \<and> writes_done s' = writes_done s \<and> tape s' ! 0 = 0 \<and>
    same_clock s s'"
proof -
  obtain j where j: "fst (vexFlashUserParamRead stm32_hw (user_params (fst s))) = PARAMS" by (simp add: vexFlashUserParamRead_def Let_def)
  define p' where "p' = snd (cassetteOpenWrite stm32_hw 0 (user_params (fst s)))"
  have o: "cassetteOpenWrite stm32_hw 0 (user_params (fst s)) = (PARAMS, p')"
    using j by (simp add: cassetteOpenWrite_def CASSETTE_MAX_def p'_def case_prod_unfold Let_def)
  have len: "length (data (params p')) = 32"
    using assms(1) unfolding p'_def by (intro logged_rpc.length_param_data(4)) (simp add: rpc_ok_def core_inv_def)
  have f: "flash p' = flash (user_params (fst s))" "user_param_write_limit p' = writes_done s" "data (params p') ! 0 = 0"
    using len by (simp_all add: p'_def cassetteOpenWrite_def CASSETTE_MAX_def case_prod_unfold Let_def vexFlashUserParamRead_def)
  let ?s = "((fst s)\<lparr>rpc := (rpc_of s)\<lparr>cassette := 0, fp := PARAMS, heartbeat := clock (fst s)\<rparr>, user_params := p'\<rparr>, snd s)"
  have "MESSAGES_TOPIC_CASSETTE \<noteq> MESSAGES_TOPIC_MOTOR" by (simp add: topic_defs)
  then have "rpc_do dev_rpc open_cassette s = Some ?s"
    using o assms(2)
    by (simp add: open_cassette_def message_write_frame_def rpcRecv_def rpcRecvWrite_def rpcRecvWriteCassette_def rd_def
        upd_rpc_def on_params_def)
  moreover have "rpc_ok ?s" using assms(1) len by (intro ok_params) (simp_all add: rpc_ok_def core_inv_def)
  ultimately show ?thesis using f assms(3) by (auto simp: recording_def same_clock_def flash_ready_def)
qed

lemma close_run:
  assumes "recording s" "writes_done s < 32"
  shows "\<exists>s'. rpc_do dev_rpc close_cassette s = Some s' \<and> rpc_ok s' \<and> fp (rpc_of s') = NO_PARAM \<and>
    stm32.holds (tape s) (flash (user_params (fst s'))) \<and> same_clock s s'"
proof -
  have s: "rpc_ok s" "cassette (rpc_of s) = 0" "fp (rpc_of s) = PARAMS" using assms(1) by (simp_all add: recording_def)
  obtain k where k: "flash_ready k (user_params (fst s))" using assms(1) by (auto simp: recording_def)
  have len: "length (tape s) = 32" using s(1) by (simp add: rpc_ok_def core_inv_def)
  obtain p' where p': "vexFlashUserParamWrite stm32_hw PARAMS (user_params (fst s)) = (FLASH_SUCCESS, p')"
    "data (params p') = tape s" "stm32.holds (tape s) (flash p')"
    using param_write [OF k assms(2) len] by blast
  let ?s = "((fst s)\<lparr>rpc := (rpc_of s)\<lparr>cassette := 0xff, fp := NO_PARAM, heartbeat := clock (fst s)\<rparr>, user_params := p'\<rparr>, snd s)"
  have o: "MESSAGES_TOPIC_CASSETTE \<noteq> MESSAGES_TOPIC_MOTOR" "MESSAGES_TOPIC_CASSETTE_SUBTOPIC_CLOSE \<noteq> MESSAGES_TOPIC_CASSETTE_SUBTOPIC_OPEN"
    by (simp_all add: topic_defs subtopic_defs)
  then have "rpc_do dev_rpc close_cassette s = Some ?s"
    using s p'(1)
    by (simp add: close_cassette_def message_write_frame_def rpcRecv_def rpcRecvWrite_def rpcRecvWriteCassette_def rd_def
        upd_rpc_def on_params_def)
  moreover have "rpc_ok ?s" using s(1) len p'(2) by (intro ok_params) (simp_all add: rpc_ok_def core_inv_def)
  ultimately show ?thesis using p' by (auto simp: same_clock_def)
qed

lemma read_run:
  assumes "rpc_ok s" "fp (rpc_of s) = NO_PARAM" "stm32.holds d (flash (user_params (fst s)))" "d ! 0 = word_of_nat n"
    "1 \<le> n" "n \<le> 31" "length d = 32"
  shows "\<exists>s'. rpc_do dev_rpc (read_cassette q) s = Some s' \<and> snd s' = snd s @
    [data_octets q MESSAGES_TOPIC_CASSETTE 0 0 (take n (drop 1 d)) s,
     data_octets q MESSAGES_TOPIC_CASSETTE 0 MESSAGES_DATA_FLAG_END (mem32 (htonl (word_of_nat n))) s]"
proof -
  obtain j where j: "vexFlashUserParamRead stm32_hw (user_params (fst s)) = (PARAMS,
      (user_params (fst s))\<lparr>params := \<lparr>data = d, param_offset = int j, addr = block_addr (int j)\<rparr>\<rparr>)"
    using stm32.holds_read [OF assms(3)] by blast
  define p where "p = (user_params (fst s))\<lparr>params := \<lparr>data = d, param_offset = int j, addr = block_addr (int j)\<rparr>\<rparr>"
  have n: "unat (word_of_nat n :: u8) = n" "word_of_nat n \<noteq> (0 :: u8)" "\<not> (31 :: u8) < word_of_nat n" "(0 :: u8) < word_of_nat n"
    "word_of_nat n < (32 :: u8)" "ucast (word_of_nat n :: u8) = (word_of_nat n :: u32)"
    using assms(5,6)
    by (simp_all add: unat_of_nat word_less_nat_alt word_unat_eq_iff unsigned_of_nat take_bit_nat_eq_self)
  have o: "cassetteOpenRead stm32_hw 0 (user_params (fst s)) = (PARAMS, p)" "data (params p) = d"
    using j n(2,3) assms(4) by (simp_all add: cassetteOpenRead_def CASSETTE_MAX_def p_def)
  define s0 where "s0 = ((fst s)\<lparr>user_params := p\<rparr>, snd s)"
  have ok0: "rpc_ok s0"
    using ok_params [OF assms(1), of p "rpc_of s"] assms(1,7) o(2) by (simp add: s0_def rpc_ok_def core_inv_def core_def)
  have octs: "load (drop 1 d) n = Some (take n (drop 1 d))" "length (take n (drop 1 d)) = n"
    using assms(6,7) by (simp_all add: load_def)
  have n8: "(word_of_nat (length (take n (drop 1 d))) :: u8) = word_of_nat n" using octs(2) by simp
  obtain s1 where s1: "(put_tmp (take n (drop 1 d)) s0 \<bind> (\<lambda>s. void (rpcSendData dev_rpc q MESSAGES_TOPIC_CASSETTE 0 0
      (word_of_nat n) (tmp (rpc_of s)) s))) = Some s1"
    "snd s1 = snd s0 @ [data_octets q MESSAGES_TOPIC_CASSETTE 0 0 (take n (drop 1 d)) s0]" "core s1 = core s0" "rpc_ok s1"
    using log_reply_tmp [OF ok0, of "take n (drop 1 d)" stm32_hw q MESSAGES_TOPIC_CASSETTE 0 0] octs(2) assms(6) unfolding n8 by auto
  obtain s2 where s2: "void (rpcSendData dev_rpc q MESSAGES_TOPIC_CASSETTE 0 MESSAGES_DATA_FLAG_END 4 (mem32 (htonl (word_of_nat n))) s1) = Some s2"
    "snd s2 = snd s1 @ [data_octets q MESSAGES_TOPIC_CASSETTE 0 MESSAGES_DATA_FLAG_END (mem32 (htonl (word_of_nat n))) s1]"
    using log_reply_val [OF s1(4), of 4 "mem32 (htonl (word_of_nat n))" stm32_hw q MESSAGES_TOPIC_CASSETTE 0 MESSAGES_DATA_FLAG_END] by auto
  obtain s3 where s3: "put_tmp (take n (drop 1 d)) s0 = Some s3"
    "void (rpcSendData dev_rpc q MESSAGES_TOPIC_CASSETTE 0 0 (word_of_nat n) (tmp (rpc_of s3)) s3) = Some s1"
    using s1(1) by (auto simp: bind_Some_iff)
  have topics: "MESSAGES_TOPIC_CASSETTE \<noteq> MESSAGES_TOPIC_PUBSUB" "MESSAGES_TOPIC_CASSETTE \<noteq> MESSAGES_TOPIC_CLOCK"
    "MESSAGES_TOPIC_CASSETTE \<noteq> MESSAGES_TOPIC_MOTOR" by (simp_all add: topic_defs)
  have "rpcRecvReadCassette dev_rpc \<lparr>read_req_id = q, read_topic = MESSAGES_TOPIC_CASSETTE, read_subtopic = 0\<rparr> s = Some s2"
    using assms(2,4) o n octs s3 s2(1)
    by (simp add: rpcRecvReadCassette_def on_params_def rpcSendRep_def s0_def [symmetric] Let_def) (simp add: s0_def)
  then have "rpc_do dev_rpc (read_cassette q) s = Some (upd_rpc (\<lambda>r. r\<lparr>heartbeat := clock (fst s2)\<rparr>) s2)"
    using topics by (simp add: read_cassette_def message_read_frame_def rpcRecv_def rpcRecvRead_def)
  moreover have "data_octets q' t u f v s1 = data_octets q' t u f v s" "data_octets q' t u f v s0 = data_octets q' t u f v s" for q' t u f v
    using data_octets_core [OF s1(3)] by (simp_all add: data_octets_def s0_def)
  ultimately show ?thesis using s1(2) s2(2) by (simp add: upd_rpc_def s0_def)
qed

lemma rpc_run_append: "rpc_run env (xs @ ys) s = (rpc_run env xs s \<bind> rpc_run env ys)"
proof (induction xs arbitrary: s)
  case (Cons x xs)
  then show ?case by (cases "rpc_do env x s") simp_all
qed simp

text \<open>A recording loses its first octet. After OPEN, up to 31 requests to WRITE an octet and CLOSE, reading the
  cassette answers with as many octets as were written, followed by their number, but these are the octets from
  the second on and one stale octet of the buffer: the length is kept where the first octet was stored.\<close>
theorem rpc_cassette_loses_first_octet:
  assumes "rpc_ok s" "cassette (rpc_of s) = 0xff" "flash_ready k (user_params (fst s))"
    "writes_done s + int (length bs) < 32" "bs \<noteq> []" "length bs \<le> 31"
  shows "\<exists>s' v. rpc_run dev_rpc (open_cassette # map write_octet bs @ [close_cassette, read_cassette q]) s = Some s' \<and>
    length v = length bs \<and> butlast v = tl bs \<and> snd s' = snd s @
      [data_octets q MESSAGES_TOPIC_CASSETTE 0 0 v s,
       data_octets q MESSAGES_TOPIC_CASSETTE 0 MESSAGES_DATA_FLAG_END (mem32 (htonl (word_of_nat (length bs)))) s]"
proof -
  let ?n = "length bs"
  obtain s1 where s1: "rpc_do dev_rpc open_cassette s = Some s1" "recording s1" "writes_done s1 = writes_done s" "tape s1 ! 0 = 0"
    "same_clock s s1"
    using open_run [OF assms(1-3)] by blast
  obtain s2 where s2: "rpc_run dev_rpc (map write_octet bs) s1 = Some s2" "recording s2" "writes_done s2 = writes_done s1 + int ?n"
    "tape s2 ! 0 = word_of_nat ?n" "\<forall>i<?n. 1 \<le> i \<longrightarrow> tape s2 ! i = bs ! i" "same_clock s1 s2"
    using recording_writes [OF s1(2), of bs 0] s1(3,4) assms(4,6) by auto
  obtain s3 where s3: "rpc_do dev_rpc close_cassette s2 = Some s3" "rpc_ok s3" "fp (rpc_of s3) = NO_PARAM"
    "stm32.holds (tape s2) (flash (user_params (fst s3)))" "same_clock s2 s3"
    using close_run [OF s2(2)] s1(3) s2(3) assms(4) by auto
  have len: "length (tape s2) = 32" using s2(2) by (simp add: recording_def rpc_ok_def core_inv_def)
  have n: "1 \<le> ?n" using assms(5) by (cases bs) simp_all
  obtain s4 where s4: "rpc_do dev_rpc (read_cassette q) s3 = Some s4" "snd s4 = snd s3 @
    [data_octets q MESSAGES_TOPIC_CASSETTE 0 0 (take ?n (drop 1 (tape s2))) s3,
     data_octets q MESSAGES_TOPIC_CASSETTE 0 MESSAGES_DATA_FLAG_END (mem32 (htonl (word_of_nat ?n))) s3]"
    using read_run [OF s3(2-4) s2(4) n assms(6) len] by blast
  define v where "v = take ?n (drop 1 (tape s2))"
  have lv: "length v = ?n" using len assms(6) by (simp add: v_def)
  have "butlast v = tl bs"
  proof (rule nth_equalityI)
    fix i assume "i < length (butlast v)"
    then have i: "Suc i < ?n" using lv by simp
    then have "v ! i = tape s2 ! Suc i" using len assms(6) by (simp add: v_def)
    also have "\<dots> = bs ! Suc i" using s2(5) i by simp
    finally show "butlast v ! i = tl bs ! i" using i lv by (simp add: nth_butlast nth_tl)
  qed (simp add: lv)
  moreover have "same_clock s s3" using same_clock_trans [OF same_clock_trans [OF s1(5) s2(6)] s3(5)] .
  then have "snd s3 = snd s" "data_octets q' t u f w s3 = data_octets q' t u f w s" for q' t u f w
    by (simp_all add: same_clock_def data_octets_def)
  moreover have "rpc_run dev_rpc (open_cassette # map write_octet bs @ [close_cassette, read_cassette q]) s = Some s4"
    using s1(1) s2(1) s3(1) s4(1) by (simp add: rpc_run_append)
  ultimately show ?thesis using s4(2) lv unfolding v_def [symmetric] by auto
qed

theorem rpc_cassette_loses_first_octet_witness:
  "\<exists>s' x. rpc_run dev_rpc (open_cassette # map write_octet [11, 22, 33] @ [close_cassette, read_cassette 9]) sample_robot = Some s' \<and>
    snd s' = [data_octets 9 MESSAGES_TOPIC_CASSETTE 0 0 [22, 33, x] sample_robot,
       data_octets 9 MESSAGES_TOPIC_CASSETTE 0 MESSAGES_DATA_FLAG_END (mem32 (htonl 3)) sample_robot]"
proof -
  have a: "cassette (rpc_of sample_robot) = 0xff" "flash_ready 0 (user_params (fst sample_robot))" "writes_done sample_robot = 0"
    "snd sample_robot = []"
    using blank_flash_ready by (simp_all add: sample_robot_def sample_rpc_def blank_flash_def)
  obtain s' v where r: "rpc_run dev_rpc (open_cassette # map write_octet [11, 22, 33] @ [close_cassette, read_cassette 9]) sample_robot = Some s'"
    and v: "length v = 3" "butlast v = [22, 33]" "snd s' = [data_octets 9 MESSAGES_TOPIC_CASSETTE 0 0 v sample_robot,
       data_octets 9 MESSAGES_TOPIC_CASSETTE 0 MESSAGES_DATA_FLAG_END (mem32 (htonl 3)) sample_robot]"
    using rpc_cassette_loses_first_octet [OF sample_robot_ok a(1,2), of "[11, 22, 33]" 9] a(3,4) by (auto simp del: list.map rpc_run.simps)
  from v(1,2) have "v = [22, 33, last v]" by (metis append_butlast_last_id append_Cons append_Nil length_0_conv zero_neq_numeral)
  then show ?thesis using r v(3) by metis
qed

end
