(* ===== verification/ChQueues.thy ===== *)
theory ChQueues
  imports Prelude
begin

text \<open>
  The octet queues between threads and interrupt handlers (\<open>os/kernel/src/chqueues.c\<close> of the kernel in
  \<open>src/ChibiOS_2.6.2\<close>) and the part of the serial driver (\<open>os/hal/src/serial.c\<close>) the server uses. A pointer into a
  queue's buffer is its offset. The functions an interrupt handler calls act on the queue alone; those a thread calls
  act on a state \<open>'s\<close> that holds the queue, since the notification callback runs inside them and interrupts are served
  whenever the lock is released.
\<close>

section \<open>Data\<close>

definition Q_OK :: int where "Q_OK = 0"
definition Q_TIMEOUT :: int where "Q_TIMEOUT = - 1"
definition Q_RESET :: int where "Q_RESET = - 2"
definition Q_EMPTY :: int where "Q_EMPTY = - 3"
definition Q_FULL :: int where "Q_FULL = - 4"
definition TIME_IMMEDIATE :: u32 where "TIME_IMMEDIATE = 0"

lemmas queue_codes = Q_OK_def Q_TIMEOUT_def Q_RESET_def Q_EMPTY_def Q_FULL_def

text \<open>The waiting threads are numbers, first to be released first; \<open>q_top\<close> is the length of the buffer.\<close>

record IOQueue =
  q_waiting :: "nat list"
  q_counter :: nat
  q_buffer :: octets
  q_wrptr :: nat
  q_rdptr :: nat

text \<open>A thread released from a queue, and the message it is released with.\<close>

type_synonym released = "(nat \<times> int) list"

definition release_one :: "int \<Rightarrow> IOQueue \<Rightarrow> released \<times> IOQueue" where
  "release_one msg q = (case q_waiting q of [] \<Rightarrow> ([], q) | t # ts \<Rightarrow> ([(t, msg)], q\<lparr>q_waiting := ts\<rparr>))"

definition release_all :: "int \<Rightarrow> IOQueue \<Rightarrow> released \<times> IOQueue" where
  "release_all msg q = (map (\<lambda>t. (t, msg)) (q_waiting q), q\<lparr>q_waiting := []\<rparr>)"

definition chQSizeI :: "IOQueue \<Rightarrow> nat" where
  "chQSizeI q = length (q_buffer q)"

definition chIQIsEmptyI :: "IOQueue \<Rightarrow> bool" where
  "chIQIsEmptyI q \<longleftrightarrow> q_counter q \<le> 0"

definition chIQIsFullI :: "IOQueue \<Rightarrow> bool" where
  "chIQIsFullI q \<longleftrightarrow> q_wrptr q = q_rdptr q \<and> q_counter q \<noteq> 0"

definition chOQIsEmptyI :: "IOQueue \<Rightarrow> bool" where
  "chOQIsEmptyI q \<longleftrightarrow> q_wrptr q = q_rdptr q \<and> q_counter q \<noteq> 0"

definition chOQIsFullI :: "IOQueue \<Rightarrow> bool" where
  "chOQIsFullI q \<longleftrightarrow> q_counter q \<le> 0"

text \<open>Storing through the write pointer and fetching through the read pointer, with the wrap at the top.\<close>

definition store_octet :: "u8 \<Rightarrow> IOQueue \<Rightarrow> IOQueue option" where
  "store_octet b q = do {
     d \<leftarrow> memcpy (q_buffer q) (q_wrptr q) [b];
     Some (q\<lparr>q_buffer := d, q_wrptr := (if q_wrptr q + 1 \<ge> length (q_buffer q) then 0 else q_wrptr q + 1)\<rparr>)
   }"

definition fetch_octet :: "IOQueue \<Rightarrow> (u8 \<times> IOQueue) option" where
  "fetch_octet q =
     (if q_rdptr q < length (q_buffer q)
      then Some (q_buffer q ! q_rdptr q,
        q\<lparr>q_rdptr := (if q_rdptr q + 1 \<ge> length (q_buffer q) then 0 else q_rdptr q + 1)\<rparr>)
      else None)"

section \<open>Called by interrupt handlers\<close>

definition chIQInit :: "octets \<Rightarrow> IOQueue" where
  "chIQInit bp = \<lparr>q_waiting = [], q_counter = 0, q_buffer = bp, q_wrptr = 0, q_rdptr = 0\<rparr>"

definition chIQResetI :: "IOQueue \<Rightarrow> released \<times> IOQueue" where
  "chIQResetI q = release_all Q_RESET (q\<lparr>q_rdptr := 0, q_wrptr := 0, q_counter := 0\<rparr>)"

definition chIQPutI :: "u8 \<Rightarrow> IOQueue \<Rightarrow> (int \<times> released \<times> IOQueue) option" where
  "chIQPutI b q =
     (if chIQIsFullI q then Some (Q_FULL, [], q)
      else do {
        q \<leftarrow> store_octet b (q\<lparr>q_counter := q_counter q + 1\<rparr>);
        Some (Q_OK, release_one Q_OK q) })"

definition chOQInit :: "octets \<Rightarrow> IOQueue" where
  "chOQInit bp = \<lparr>q_waiting = [], q_counter = length bp, q_buffer = bp, q_wrptr = 0, q_rdptr = 0\<rparr>"

definition chOQResetI :: "IOQueue \<Rightarrow> released \<times> IOQueue" where
  "chOQResetI q = release_all Q_RESET (q\<lparr>q_rdptr := 0, q_wrptr := 0, q_counter := chQSizeI q\<rparr>)"

definition chOQGetI :: "IOQueue \<Rightarrow> (int \<times> released \<times> IOQueue) option" where
  "chOQGetI q =
     (if chOQIsEmptyI q then Some (Q_EMPTY, [], q)
      else do {
        (b, q) \<leftarrow> fetch_octet (q\<lparr>q_counter := q_counter q + 1\<rparr>);
        Some (uint b, release_one Q_OK q) })"

section \<open>Called by threads\<close>

text \<open>
  \<open>q_notify\<close> is the queue's callback (the identity where it is NULL), \<open>q_unlock\<close> what interrupts and other threads do
  when the lock is released, \<open>q_sleep\<close> a wait in the queue, with the message that ends it.
\<close>

record 's queue_env =
  queue_of :: "'s \<Rightarrow> IOQueue"
  set_queue :: "IOQueue \<Rightarrow> 's \<Rightarrow> 's"
  q_notify :: "'s \<Rightarrow> 's"
  q_unlock :: "'s \<Rightarrow> 's"
  q_sleep :: "u32 \<Rightarrow> 's \<Rightarrow> int \<times> 's"

definition qwait :: "'s queue_env \<Rightarrow> u32 \<Rightarrow> 's \<Rightarrow> int \<times> 's" where
  "qwait env time s = (if time = TIME_IMMEDIATE then (Q_TIMEOUT, s) else q_sleep env time s)"

text \<open>The body of the four functions once the queue is not empty, or not full.\<close>

definition take_octet :: "'s queue_env \<Rightarrow> 's \<Rightarrow> (u8 \<times> 's) option" where
  "take_octet env s = do {
     let q = queue_of env s;
     (b, q) \<leftarrow> fetch_octet (q\<lparr>q_counter := q_counter q - 1\<rparr>);
     Some (b, set_queue env q s) }"

definition append_octet :: "'s queue_env \<Rightarrow> u8 \<Rightarrow> 's \<Rightarrow> 's option" where
  "append_octet env b s = do {
     let q = queue_of env s;
     q \<leftarrow> store_octet b (q\<lparr>q_counter := q_counter q - 1\<rparr>);
     Some (q_notify env (set_queue env q s)) }"

partial_function (option) get_loop :: "'s queue_env \<Rightarrow> u32 \<Rightarrow> 's \<Rightarrow> (int \<times> 's) option" where
  "get_loop env time s =
     (if chIQIsEmptyI (queue_of env s)
      then (case qwait env time s of (msg, s) \<Rightarrow>
        if msg < Q_OK then Some (msg, q_unlock env s) else get_loop env time s)
      else do { (b, s) \<leftarrow> take_octet env s; Some (uint b, q_unlock env s) })"

definition chIQGetTimeout :: "'s queue_env \<Rightarrow> u32 \<Rightarrow> 's \<Rightarrow> (int \<times> 's) option" where
  "chIQGetTimeout env time s = get_loop env time (q_notify env s)"

text \<open>
  The count \<open>n\<close> of the reading and the writing loop is decremented before it is compared, so 0 stands for \<open>2 ^ 32\<close>.
  \<open>notified\<close> tells whether the callback has run for the octet the loop is waiting for.
\<close>

partial_function (option) read_loop ::
  "'s queue_env \<Rightarrow> bool \<Rightarrow> octets \<Rightarrow> u32 \<Rightarrow> u32 \<Rightarrow> 's \<Rightarrow> (octets \<times> 's) option" where
  "read_loop env notified r n time s =
     (let s = (if notified then s else q_notify env s) in
      if chIQIsEmptyI (queue_of env s)
      then (case qwait env time s of (msg, s) \<Rightarrow>
        if msg \<noteq> Q_OK then Some (r, q_unlock env s) else read_loop env True r n time s)
      else do {
        (b, s) \<leftarrow> take_octet env s;
        let s = q_unlock env s;
        (if n - 1 = 0 then Some (r @ [b], s) else read_loop env False (r @ [b]) (n - 1) time s) })"

definition chIQReadTimeout :: "'s queue_env \<Rightarrow> u32 \<Rightarrow> u32 \<Rightarrow> 's \<Rightarrow> (octets \<times> 's) option" where
  "chIQReadTimeout env n time s = read_loop env False [] n time s"

partial_function (option) chOQPutTimeout :: "'s queue_env \<Rightarrow> u8 \<Rightarrow> u32 \<Rightarrow> 's \<Rightarrow> (int \<times> 's) option" where
  "chOQPutTimeout env b time s =
     (if chOQIsFullI (queue_of env s)
      then (case qwait env time s of (msg, s) \<Rightarrow>
        if msg < Q_OK then Some (msg, q_unlock env s) else chOQPutTimeout env b time s)
      else do { s \<leftarrow> append_octet env b s; Some (Q_OK, q_unlock env s) })"

partial_function (option) write_octets ::
  "'s queue_env \<Rightarrow> octets \<Rightarrow> u32 \<Rightarrow> u32 \<Rightarrow> nat \<Rightarrow> 's \<Rightarrow> (nat \<times> 's) option" where
  "write_octets env bp n time w s =
     (if chOQIsFullI (queue_of env s)
      then (case qwait env time s of (msg, s) \<Rightarrow>
        if msg \<noteq> Q_OK then Some (w, q_unlock env s) else write_octets env bp n time w s)
      else if length bp \<le> w then None
      else do {
        s \<leftarrow> append_octet env (bp ! w) s;
        let s = q_unlock env s;
        (if n - 1 = 0 then Some (w + 1, s) else write_octets env bp (n - 1) time (w + 1) s) })"

definition chOQWriteTimeout :: "'s queue_env \<Rightarrow> octets \<Rightarrow> u32 \<Rightarrow> u32 \<Rightarrow> 's \<Rightarrow> (nat \<times> 's) option" where
  "chOQWriteTimeout env bp n time s = write_octets env bp n time 0 s"

section \<open>First in, first out\<close>

definition q_ok :: "IOQueue \<Rightarrow> nat \<Rightarrow> bool" where
  "q_ok q n \<longleftrightarrow> q_rdptr q < chQSizeI q \<and> n \<le> chQSizeI q \<and> q_wrptr q = (q_rdptr q + n) mod chQSizeI q"

definition q_items :: "IOQueue \<Rightarrow> nat \<Rightarrow> octets" where
  "q_items q n = map (\<lambda>i. q_buffer q ! ((q_rdptr q + i) mod chQSizeI q)) [0..<n]"

text \<open>The two kinds of queue count the octets in them and the free places.\<close>

definition iq_inv :: "IOQueue \<Rightarrow> bool" where "iq_inv q \<longleftrightarrow> q_ok q (q_counter q)"
definition iq_items :: "IOQueue \<Rightarrow> octets" where "iq_items q = q_items q (q_counter q)"
definition oq_inv :: "IOQueue \<Rightarrow> bool" where "oq_inv q \<longleftrightarrow> q_counter q \<le> chQSizeI q \<and> q_ok q (chQSizeI q - q_counter q)"
definition oq_items :: "IOQueue \<Rightarrow> octets" where "oq_items q = q_items q (chQSizeI q - q_counter q)"

lemma length_q_items [simp]: "length (q_items q n) = n"
  by (simp add: q_items_def)

lemma q_items_0 [simp]: "q_items q 0 = []"
  by (simp add: q_items_def)

lemma wrap: "p < n \<Longrightarrow> (if n \<le> Suc p then 0 else Suc p) = Suc p mod n"
  by (cases "Suc p = n") auto

lemma ring_full: "q_ok q n \<Longrightarrow> n \<noteq> 0 \<Longrightarrow> q_wrptr q = q_rdptr q \<longleftrightarrow> n = chQSizeI q"
  by (cases "q_rdptr q + n < chQSizeI q") (auto simp: q_ok_def mod_if)

lemma mod_slot_neq: "i < n \<Longrightarrow> n < (m::nat) \<Longrightarrow> (a + i) mod m \<noteq> (a + n) mod m"
proof
  assume h: "i < n" "n < m" "(a + i) mod m = (a + n) mod m"
  then have "m dvd (a + n) - (a + i)" by (metis mod_eq_dvd_iff_nat nat_add_left_cancel_le less_imp_le)
  then have "m dvd n - i" by simp
  with h show False by (meson diff_less_mono2 dvd_imp_le leD le_less_trans zero_less_diff diff_le_self)
qed

lemma store_octet_spec:
  assumes "q_ok q n" "n < chQSizeI q"
  shows "\<exists>q'. store_octet b q = Some q' \<and> q_ok q' (Suc n) \<and> q_items q' (Suc n) = q_items q n @ [b] \<and>
    q_counter q' = q_counter q \<and> chQSizeI q' = chQSizeI q"
proof -
  let ?q = "q\<lparr>q_buffer := (q_buffer q)[q_wrptr q := b], q_wrptr := Suc (q_wrptr q) mod chQSizeI q\<rparr>"
  have w: "q_wrptr q < length (q_buffer q)" using assms by (auto simp: q_ok_def chQSizeI_def intro!: mod_less_divisor)
  then have "store_octet b q = Some ?q"
    using w by (simp add: store_octet_def memcpy_def chQSizeI_def upd_conv_take_nth_drop flip: wrap [OF w])
  moreover have "q_items ?q (Suc n) = q_items q n @ [b]"
  proof (rule nth_equalityI)
    fix i assume "i < length (q_items ?q (Suc n))"
    then consider "i < n" | "i = n" by fastforce
    then show "q_items ?q (Suc n) ! i = (q_items q n @ [b]) ! i"
      using assms w mod_slot_neq [of i n "chQSizeI q" "q_rdptr q"]
      by cases (auto simp: q_items_def nth_append chQSizeI_def q_ok_def nth_list_update simp del: upt_Suc)
  qed simp
  ultimately show ?thesis using assms by (auto simp: q_ok_def chQSizeI_def mod_Suc_eq)
qed

lemma fetch_octet_spec:
  assumes "q_ok q (Suc n)"
  shows "\<exists>q'. fetch_octet q = Some (hd (q_items q (Suc n)), q') \<and> q_ok q' n \<and> q_items q' n = tl (q_items q (Suc n)) \<and>
    q_counter q' = q_counter q \<and> chQSizeI q' = chQSizeI q"
proof -
  let ?q = "q\<lparr>q_rdptr := Suc (q_rdptr q) mod chQSizeI q\<rparr>"
  have r: "q_rdptr q < length (q_buffer q)" using assms by (simp add: q_ok_def chQSizeI_def)
  have "hd (q_items q (Suc n)) = q_buffer q ! q_rdptr q"
    using r by (simp add: q_items_def hd_map chQSizeI_def del: upt_Suc)
  then have "fetch_octet q = Some (hd (q_items q (Suc n)), ?q)"
    using r by (simp add: fetch_octet_def chQSizeI_def flip: wrap [OF r])
  moreover have "q_items ?q n = tl (q_items q (Suc n))"
    by (intro nth_equalityI) (simp_all add: q_items_def nth_tl chQSizeI_def mod_simps del: upt_Suc)
  moreover have "q_ok ?q n" using assms r by (auto simp: q_ok_def chQSizeI_def mod_simps intro!: mod_less_divisor)
  ultimately show ?thesis by (auto simp: chQSizeI_def)
qed

lemma q_frame [simp]:
  "q_ok (q\<lparr>q_counter := k\<rparr>) n = q_ok q n" "q_items (q\<lparr>q_counter := k\<rparr>) n = q_items q n"
  "chQSizeI (q\<lparr>q_counter := k\<rparr>) = chQSizeI q"
  "q_ok (q\<lparr>q_waiting := ts\<rparr>) n = q_ok q n" "q_items (q\<lparr>q_waiting := ts\<rparr>) n = q_items q n"
  "chQSizeI (q\<lparr>q_waiting := ts\<rparr>) = chQSizeI q"
  by (simp_all add: q_ok_def q_items_def chQSizeI_def)

lemma release_one_frame [simp]:
  "q_ok (snd (release_one m q)) n = q_ok q n" "q_items (snd (release_one m q)) n = q_items q n"
  "chQSizeI (snd (release_one m q)) = chQSizeI q" "q_counter (snd (release_one m q)) = q_counter q"
  by (auto simp: release_one_def split: list.split)

lemma q_items_eq_Nil [simp]: "q_items q n = [] \<longleftrightarrow> n = 0"
  by (simp add: q_items_def)

text \<open>The four operations on a queue that is neither locked nor notified.\<close>

definition plain_env :: "IOQueue queue_env" where
  "plain_env = \<lparr>queue_of = (\<lambda>q. q), set_queue = (\<lambda>q _. q), q_notify = (\<lambda>q. q), q_unlock = (\<lambda>q. q),
     q_sleep = (\<lambda>_ q. (Q_TIMEOUT, q))\<rparr>"

lemma chIQPutI_spec:
  assumes "iq_inv q"
  shows "\<exists>r q'. chIQPutI b q = Some (if length (iq_items q) < chQSizeI q then Q_OK else Q_FULL, r, q') \<and>
    iq_inv q' \<and> iq_items q' = take (chQSizeI q) (iq_items q @ [b]) \<and> chQSizeI q' = chQSizeI q"
proof (cases "q_counter q < chQSizeI q")
  case True
  let ?q = "q\<lparr>q_counter := q_counter q + 1\<rparr>"
  obtain q1 where q1: "store_octet b ?q = Some q1" "q_ok q1 (Suc (q_counter q))"
    "q_items q1 (Suc (q_counter q)) = q_items q (q_counter q) @ [b]" "q_counter q1 = q_counter q + 1" "chQSizeI q1 = chQSizeI q"
    using store_octet_spec [of ?q "q_counter q" b] assms True by (auto simp: iq_inv_def)
  have "\<not> chIQIsFullI q" using assms True ring_full [of q "q_counter q"] by (auto simp: chIQIsFullI_def iq_inv_def)
  then have "chIQPutI b q = Some (Q_OK, release_one Q_OK q1)" using q1(1) by (simp add: chIQPutI_def)
  then show ?thesis using q1 True
    by (intro exI [of _ "fst (release_one Q_OK q1)"] exI [of _ "snd (release_one Q_OK q1)"]) (simp add: iq_inv_def iq_items_def)
next
  case False
  then have "chIQIsFullI q"
    using assms ring_full [of q "q_counter q"] by (auto simp: chIQIsFullI_def iq_inv_def q_ok_def)
  then show ?thesis using assms False by (auto simp: chIQPutI_def iq_inv_def iq_items_def q_ok_def)
qed

lemma take_octet_spec:
  assumes "iq_inv (queue_of env s)" "iq_items (queue_of env s) = b # bs"
  shows "\<exists>q'. take_octet env s = Some (b, set_queue env q' s) \<and> iq_inv q' \<and> iq_items q' = bs \<and>
    chQSizeI q' = chQSizeI (queue_of env s)"
proof -
  let ?q = "queue_of env s"
  obtain n where n: "q_counter ?q = Suc n"
    using assms(2) length_q_items [of ?q "q_counter ?q"] by (cases "q_counter ?q") (auto simp: iq_items_def)
  then show ?thesis using fetch_octet_spec [of "?q\<lparr>q_counter := n\<rparr>" n] assms
    by (auto simp: take_octet_def iq_inv_def iq_items_def)
qed

lemma append_octet_spec:
  assumes "oq_inv (queue_of env s)" "length (oq_items (queue_of env s)) < chQSizeI (queue_of env s)"
  shows "\<exists>q'. append_octet env b s = Some (q_notify env (set_queue env q' s)) \<and> oq_inv q' \<and>
    oq_items q' = oq_items (queue_of env s) @ [b] \<and> chQSizeI q' = chQSizeI (queue_of env s)"
proof -
  let ?q = "queue_of env s"
  have k: "q_counter ?q \<noteq> 0" "q_counter ?q \<le> chQSizeI ?q" using assms by (auto simp: oq_items_def oq_inv_def)
  then have "Suc (chQSizeI ?q - q_counter ?q) = chQSizeI ?q - (q_counter ?q - 1)" by simp
  then show ?thesis using store_octet_spec [of "?q\<lparr>q_counter := q_counter ?q - 1\<rparr>" "chQSizeI ?q - q_counter ?q" b] assms k
    by (auto simp: append_octet_def oq_inv_def oq_items_def)
qed

lemma chOQGetI_spec:
  assumes "oq_inv q"
  shows "\<exists>r q'. chOQGetI q = Some (case oq_items q of [] \<Rightarrow> Q_EMPTY | b # _ \<Rightarrow> uint b, r, q') \<and>
    oq_inv q' \<and> oq_items q' = tl (oq_items q) \<and> chQSizeI q' = chQSizeI q"
proof (cases "chQSizeI q - q_counter q")
  case 0
  then have "q_counter q = chQSizeI q" "chQSizeI q \<noteq> 0" "q_wrptr q = q_rdptr q" using assms by (auto simp: oq_inv_def q_ok_def)
  then show ?thesis using assms 0 by (simp add: chOQGetI_def chOQIsEmptyI_def oq_items_def)
next
  case (Suc n)
  let ?q = "q\<lparr>q_counter := q_counter q + 1\<rparr>"
  have k: "q_ok q (Suc n)" "q_counter q \<le> chQSizeI q" using assms Suc by (simp_all add: oq_inv_def)
  obtain q1 where q1: "fetch_octet ?q = Some (hd (q_items q (Suc n)), q1)" "q_ok q1 n" "q_items q1 n = tl (q_items q (Suc n))"
    "q_counter q1 = q_counter q + 1" "chQSizeI q1 = chQSizeI q"
    using fetch_octet_spec [of ?q n] k(1) by auto
  have "\<not> chOQIsEmptyI q" using k Suc ring_full [of q "Suc n"] by (auto simp: chOQIsEmptyI_def)
  then have "chOQGetI q = Some (uint (hd (oq_items q)), release_one Q_OK q1)"
    using q1(1) Suc by (simp add: chOQGetI_def oq_items_def)
  moreover have "chQSizeI q - Suc (q_counter q) = n" using Suc by simp
  moreover obtain b bs where "oq_items q = b # bs" using Suc by (cases "oq_items q") (auto simp: oq_items_def)
  ultimately show ?thesis using q1 k Suc
    by (intro exI [of _ "fst (release_one Q_OK q1)"] exI [of _ "snd (release_one Q_OK q1)"]) (auto simp: oq_inv_def oq_items_def)
qed

lemma iq_empty: "chIQIsEmptyI q \<longleftrightarrow> iq_items q = []"
  by (simp add: chIQIsEmptyI_def iq_items_def)

lemma oq_full: "oq_inv q \<Longrightarrow> chOQIsFullI q \<longleftrightarrow> length (oq_items q) = chQSizeI q"
  by (auto simp: chOQIsFullI_def oq_items_def oq_inv_def q_ok_def)

lemma oq_bound: "length (oq_items q) \<le> chQSizeI q"
  by (simp add: oq_items_def)

section \<open>Interface: a bounded queue of octets\<close>

text \<open>
  What both kinds promise their two ends: putting reports whether there was room and loses the octet otherwise,
  getting returns the oldest octet if there is one.
\<close>

locale octet_queue =
  fixes inv :: "'q \<Rightarrow> bool" and items :: "'q \<Rightarrow> octets" and size :: "'q \<Rightarrow> nat"
    and put :: "u8 \<Rightarrow> 'q \<Rightarrow> (bool \<times> 'q) option" and get :: "'q \<Rightarrow> (u8 option \<times> 'q) option"
  assumes put: "inv q \<Longrightarrow> \<exists>q'. put b q = Some (length (items q) < size q, q') \<and> inv q' \<and>
      items q' = take (size q) (items q @ [b]) \<and> size q' = size q"
    and get: "inv q \<Longrightarrow> \<exists>q'. get q = Some (case items q of [] \<Rightarrow> None | b # _ \<Rightarrow> Some b, q') \<and> inv q' \<and>
      items q' = tl (items q) \<and> size q' = size q"
begin

fun puts :: "octets \<Rightarrow> 'q \<Rightarrow> (nat \<times> 'q) option" where
  "puts [] q = Some (0, q)"
| "puts (b # bs) q = do { (a, q) \<leftarrow> put b q; (n, q) \<leftarrow> puts bs q; Some (of_bool a + n, q) }"

fun gets :: "nat \<Rightarrow> 'q \<Rightarrow> (octets \<times> 'q) option" where
  "gets 0 q = Some ([], q)"
| "gets (Suc n) q = do { (b, q) \<leftarrow> get q; (bs, q) \<leftarrow> gets n q; Some (case b of None \<Rightarrow> bs | Some b \<Rightarrow> b # bs, q) }"

lemma puts_fill:
  "inv q \<Longrightarrow> length (items q) \<le> size q \<Longrightarrow> \<exists>q'. puts bs q = Some (min (length bs) (size q - length (items q)), q') \<and> inv q' \<and>
     items q' = take (size q) (items q @ bs) \<and> size q' = size q"
proof (induction bs arbitrary: q)
  case (Cons b bs)
  obtain q1 where q1: "put b q = Some (length (items q) < size q, q1)" "inv q1" "items q1 = take (size q) (items q @ [b])"
    "size q1 = size q" using put [OF Cons.prems(1)] by blast
  have "length (items q1) \<le> size q1" using q1(3,4) by simp
  from Cons.IH [OF q1(2) this] show ?case using q1 Cons.prems(2)
    by (cases "length (items q) < size q") (auto simp: Suc_diff_le Suc_diff_Suc min_def)
qed simp

lemma gets_drain:
  "inv q \<Longrightarrow> \<exists>q'. gets n q = Some (take n (items q), q') \<and> inv q' \<and> items q' = drop n (items q) \<and> size q' = size q"
proof (induction n arbitrary: q)
  case (Suc n)
  obtain q1 where q1: "get q = Some (case items q of [] \<Rightarrow> None | b # _ \<Rightarrow> Some b, q1)" "inv q1" "items q1 = tl (items q)"
    "size q1 = size q" using get [OF Suc.prems] by blast
  from Suc.IH [OF q1(2)] q1 show ?case by (cases "items q") (auto split: option.splits)
qed simp

lemma puts_then_gets:
  assumes "inv q" "items q = []" "length bs \<le> size q"
  shows "\<exists>q' q''. puts bs q = Some (length bs, q') \<and> gets (length bs) q' = Some (bs, q'') \<and> items q'' = []"
  using puts_fill [OF assms(1), of bs] assms gets_drain [where n = "length bs"] by force

end

text \<open>The input queue: the interrupt handler puts, the thread gets without waiting; the output queue the other way round.\<close>

definition iq_put :: "u8 \<Rightarrow> IOQueue \<Rightarrow> (bool \<times> IOQueue) option" where
  "iq_put b q = map_option (\<lambda>(m, _, q). (m = Q_OK, q)) (chIQPutI b q)"

definition octet_result :: "int \<Rightarrow> u8 option" where
  "octet_result m = (if m < Q_OK then None else Some (word_of_int m))"

lemma octet_result_simps [simp]: "octet_result (uint b) = Some b" "octet_result Q_EMPTY = None" "octet_result Q_TIMEOUT = None"
  by (simp_all add: octet_result_def queue_codes)

definition iq_get :: "IOQueue \<Rightarrow> (u8 option \<times> IOQueue) option" where
  "iq_get q = map_option (\<lambda>(m, q). (octet_result m, q)) (chIQGetTimeout plain_env TIME_IMMEDIATE q)"

definition oq_put :: "u8 \<Rightarrow> IOQueue \<Rightarrow> (bool \<times> IOQueue) option" where
  "oq_put b q = map_option (\<lambda>(m, q). (m = Q_OK, q)) (chOQPutTimeout plain_env b TIME_IMMEDIATE q)"

definition oq_get :: "IOQueue \<Rightarrow> (u8 option \<times> IOQueue) option" where
  "oq_get q = map_option (\<lambda>(m, _, q). (octet_result m, q)) (chOQGetI q)"

lemma plain_env_simps [simp]:
  "queue_of plain_env q = q" "set_queue plain_env q q' = q" "q_notify plain_env q = q" "q_unlock plain_env q = q"
  "qwait plain_env TIME_IMMEDIATE q = (Q_TIMEOUT, q)"
  by (simp_all add: plain_env_def qwait_def)

interpretation in_queue: octet_queue iq_inv iq_items chQSizeI iq_put iq_get
proof
  fix q b assume i: "iq_inv q"
  show "\<exists>q'. iq_put b q = Some (length (iq_items q) < chQSizeI q, q') \<and> iq_inv q' \<and>
      iq_items q' = take (chQSizeI q) (iq_items q @ [b]) \<and> chQSizeI q' = chQSizeI q"
    using chIQPutI_spec [OF i, of b] by (auto simp: iq_put_def queue_codes)
  show "\<exists>q'. iq_get q = Some (case iq_items q of [] \<Rightarrow> None | b # _ \<Rightarrow> Some b, q') \<and> iq_inv q' \<and>
      iq_items q' = tl (iq_items q) \<and> chQSizeI q' = chQSizeI q"
  proof (cases "iq_items q")
    case Nil
    have "(Q_TIMEOUT < Q_OK) = True" by (simp add: queue_codes)
    then show ?thesis using i Nil by (simp add: iq_get_def chIQGetTimeout_def get_loop.simps iq_empty)
  next
    case (Cons b bs)
    obtain q' where q': "take_octet plain_env q = Some (b, q')" "iq_inv q'" "iq_items q' = bs" "chQSizeI q' = chQSizeI q"
      using take_octet_spec [of plain_env q b bs] i Cons by auto
    then have "iq_get q = Some (Some b, q')"
      using Cons by (simp add: iq_get_def chIQGetTimeout_def get_loop.simps iq_empty)
    with q' Cons show ?thesis by simp
  qed
qed

interpretation out_queue: octet_queue oq_inv oq_items chQSizeI oq_put oq_get
proof
  fix q b assume i: "oq_inv q"
  show "\<exists>q'. oq_put b q = Some (length (oq_items q) < chQSizeI q, q') \<and> oq_inv q' \<and>
      oq_items q' = take (chQSizeI q) (oq_items q @ [b]) \<and> chQSizeI q' = chQSizeI q"
  proof (cases "length (oq_items q) < chQSizeI q")
    case True
    then show ?thesis using append_octet_spec [of plain_env q b] i oq_full [OF i]
      by (auto simp: oq_put_def chOQPutTimeout.simps queue_codes)
  next
    case False
    then show ?thesis using i oq_full [OF i] oq_bound [of q]
      by (auto simp: oq_put_def chOQPutTimeout.simps queue_codes)
  qed
  show "\<exists>q'. oq_get q = Some (case oq_items q of [] \<Rightarrow> None | b # _ \<Rightarrow> Some b, q') \<and> oq_inv q' \<and>
      oq_items q' = tl (oq_items q) \<and> chQSizeI q' = chQSizeI q"
  proof -
    obtain r q' where q': "chOQGetI q = Some (case oq_items q of [] \<Rightarrow> Q_EMPTY | b # _ \<Rightarrow> uint b, r, q')" "oq_inv q'"
      "oq_items q' = tl (oq_items q)" "chQSizeI q' = chQSizeI q" using chOQGetI_spec [OF i] by blast
    then have "oq_get q = Some (case oq_items q of [] \<Rightarrow> None | b # _ \<Rightarrow> Some b, q')"
      by (simp add: oq_get_def split: list.split)
    with q' show ?thesis by blast
  qed
qed

end
