(* ===== verification/SerialPort.thy ===== *)
theory SerialPort
  imports ChQueues
begin

text \<open>
  The serial driver, \<open>os/hal/src/serial.c\<close> and \<open>os/hal/platforms/STM32/USARTv1/serial_lld.c\<close> of \<open>src/ChibiOS_2.6.2\<close>:
  an input and an output queue between the threads and the interrupt handler of the port. Registers a handler reads are
  its arguments. The driver's events have no listener in this program and are left out, as is the configuration of the
  clocks and the interrupt controller. \<open>sent\<close> is what the port has sent or will send: an octet is never lost between
  the queue and the line, and never stuck in the queue with its interrupt disabled.
\<close>

section \<open>The driver\<close>

definition SERIAL_BUFFERS_SIZE :: nat where "SERIAL_BUFFERS_SIZE = 64"
definition USART_CR1_TXEIE :: u32 where "USART_CR1_TXEIE = 0x80"
definition USART_CR1_TCIE :: u32 where "USART_CR1_TCIE = 0x40"
definition USART_SR_TXE :: u32 where "USART_SR_TXE = 0x80"
definition USART_SR_TC :: u32 where "USART_SR_TC = 0x40"
definition USART_SR_RXNE :: u32 where "USART_SR_RXNE = 0x20"

text \<open>The control register and the octets written to the data register so far.\<close>

record usart =
  CR1 :: u32
  line :: octets

datatype sdstate_t = SD_UNINIT | SD_STOP | SD_READY

record SerialDriver =
  sd_state :: sdstate_t
  iqueue :: IOQueue
  oqueue :: IOQueue
  usart_regs :: usart

text \<open>What interrupts do to the driver when a lock is released, and while a thread sleeps.\<close>

record serial_env =
  at_unlock :: "SerialDriver \<Rightarrow> SerialDriver"
  at_sleep :: "nat \<Rightarrow> SerialDriver \<Rightarrow> SerialDriver"

definition upd_cr1 :: "(u32 \<Rightarrow> u32) \<Rightarrow> SerialDriver \<Rightarrow> SerialDriver" where
  "upd_cr1 f sd = sd\<lparr>usart_regs := (usart_regs sd)\<lparr>CR1 := f (CR1 (usart_regs sd))\<rparr>\<rparr>"

text \<open>The callback of the output queue, one copy for each port.\<close>

definition notify1 :: "SerialDriver \<Rightarrow> SerialDriver" where
  "notify1 sd = upd_cr1 (\<lambda>cr1. cr1 OR USART_CR1_TXEIE) sd"

definition sdObjectInit :: "octets \<Rightarrow> octets \<Rightarrow> SerialDriver \<Rightarrow> SerialDriver" where
  "sdObjectInit ib ob sd = sd\<lparr>sd_state := SD_STOP, iqueue := chIQInit ib, oqueue := chOQInit ob\<rparr>"

text \<open>The enabled bits UE, PEIE, RXNEIE, TE and RE.\<close>

definition usart_init :: "SerialDriver \<Rightarrow> SerialDriver" where
  "usart_init sd = upd_cr1 (\<lambda>_. 0x2000 OR 0x100 OR 0x20 OR 0x08 OR 0x04) sd"

definition sdStart :: "SerialDriver \<Rightarrow> SerialDriver" where
  "sdStart sd = (usart_init sd)\<lparr>sd_state := SD_READY\<rparr>"

definition usart_deinit :: "SerialDriver \<Rightarrow> SerialDriver" where
  "usart_deinit sd = upd_cr1 (\<lambda>_. 0) sd"

definition sdStop :: "SerialDriver \<Rightarrow> released \<times> SerialDriver" where
  "sdStop sd =
     (let sd = (if sd_state sd = SD_READY then usart_deinit sd else sd);
          (r1, oq) = chOQResetI (oqueue sd); (r2, iq) = chIQResetI (iqueue sd)
      in (r1 @ r2, sd\<lparr>sd_state := SD_STOP, oqueue := oq, iqueue := iq\<rparr>))"

section \<open>The interrupt handler\<close>

definition sdIncomingDataI :: "u8 \<Rightarrow> SerialDriver \<Rightarrow> SerialDriver option" where
  "sdIncomingDataI b sd = do { (msg, r, q) \<leftarrow> chIQPutI b (iqueue sd); Some (sd\<lparr>iqueue := q\<rparr>) }"

fun incoming :: "octets \<Rightarrow> SerialDriver \<Rightarrow> SerialDriver option" where
  "incoming [] sd = Some sd"
| "incoming (b # bs) sd = do { sd \<leftarrow> sdIncomingDataI b sd; incoming bs sd }"

text \<open>
  \<open>dr\<close> are the values of the data register as long as RXNE is found set, \<open>sr\<close> is the last value of the status
  register, read when it no longer is.
\<close>

definition serve_interrupt :: "octets \<Rightarrow> u32 \<Rightarrow> SerialDriver \<Rightarrow> SerialDriver option" where
  "serve_interrupt dr sr sd = do {
     let cr1 = CR1 (usart_regs sd);
     sd \<leftarrow> incoming dr sd;
     sd \<leftarrow> (if cr1 AND USART_CR1_TXEIE \<noteq> 0 \<and> sr AND USART_SR_TXE \<noteq> 0 then do {
             (b, r, q) \<leftarrow> chOQGetI (oqueue sd);
             let sd = sd\<lparr>oqueue := q\<rparr>;
             Some (if b < Q_OK then upd_cr1 (\<lambda>_. (cr1 AND NOT USART_CR1_TXEIE) OR USART_CR1_TCIE) sd
                   else sd\<lparr>usart_regs := (usart_regs sd)\<lparr>line := line (usart_regs sd) @ [word_of_int b]\<rparr>\<rparr>) }
           else Some sd);
     Some (if sr AND USART_SR_TC \<noteq> 0
           then upd_cr1 (\<lambda>_. cr1 AND NOT (USART_CR1_TXEIE OR USART_CR1_TCIE)) sd else sd)
   }"

section \<open>Reading and writing without waiting\<close>

definition iq_env :: "serial_env \<Rightarrow> SerialDriver queue_env" where
  "iq_env env = \<lparr>queue_of = iqueue, set_queue = (\<lambda>q sd. sd\<lparr>iqueue := q\<rparr>), q_notify = (\<lambda>sd. sd), q_unlock = at_unlock env,
     q_sleep = (\<lambda>_ sd. (Q_TIMEOUT, sd))\<rparr>"

definition oq_env :: "serial_env \<Rightarrow> SerialDriver queue_env" where
  "oq_env env = \<lparr>queue_of = oqueue, set_queue = (\<lambda>q sd. sd\<lparr>oqueue := q\<rparr>), q_notify = notify1, q_unlock = at_unlock env,
     q_sleep = (\<lambda>_ sd. (Q_TIMEOUT, sd))\<rparr>"

definition sdAsynchronousRead :: "serial_env \<Rightarrow> u32 \<Rightarrow> SerialDriver \<Rightarrow> (octets \<times> SerialDriver) option" where
  "sdAsynchronousRead env n sd = chIQReadTimeout (iq_env env) n TIME_IMMEDIATE sd"

definition sdAsynchronousWrite :: "serial_env \<Rightarrow> octets \<Rightarrow> u32 \<Rightarrow> SerialDriver \<Rightarrow> (nat \<times> SerialDriver) option" where
  "sdAsynchronousWrite env octs n sd = chOQWriteTimeout (oq_env env) octs n TIME_IMMEDIATE sd"

section \<open>Interface: a line that keeps up\<close>

definition sent :: "SerialDriver \<Rightarrow> octets" where
  "sent sd = line (usart_regs sd) @ oq_items (oqueue sd)"

definition received :: "SerialDriver \<Rightarrow> octets" where
  "received sd = iq_items (iqueue sd)"

definition port_ok :: "SerialDriver \<Rightarrow> bool" where
  "port_ok sd \<longleftrightarrow> iq_inv (iqueue sd) \<and> chQSizeI (iqueue sd) = SERIAL_BUFFERS_SIZE \<and>
     oq_inv (oqueue sd) \<and> chQSizeI (oqueue sd) = SERIAL_BUFFERS_SIZE \<and>
     (oq_items (oqueue sd) \<noteq> [] \<longrightarrow> CR1 (usart_regs sd) AND USART_CR1_TXEIE \<noteq> 0)"

text \<open>
  Interrupts keep the invariant and lose nothing that is to be sent, and a sleep leaves room in the output queue.
  Octets that arrive while a call is running count as arriving after it.
\<close>

locale serial_line =
  fixes env :: serial_env
  assumes unlock: "port_ok sd \<Longrightarrow> port_ok (at_unlock env sd) \<and> sent (at_unlock env sd) = sent sd \<and> iqueue (at_unlock env sd) = iqueue sd"
    and sleep: "port_ok sd \<Longrightarrow> port_ok (at_sleep env ms sd) \<and> sent (at_sleep env ms sd) = sent sd \<and>
      iqueue (at_sleep env ms sd) = iqueue sd"
    and progress: "port_ok sd \<Longrightarrow> 0 < ms \<Longrightarrow> length (oq_items (oqueue (at_sleep env ms sd))) < SERIAL_BUFFERS_SIZE"
begin

lemma append_sent:
  assumes "port_ok sd" "\<not> chOQIsFullI (oqueue sd)"
  shows "\<exists>sd'. append_octet (oq_env env) b sd = Some sd' \<and> port_ok sd' \<and> sent sd' = sent sd @ [b] \<and> iqueue sd' = iqueue sd"
proof -
  have i: "oq_inv (oqueue sd)" using assms(1) by (simp add: port_ok_def)
  have "length (oq_items (oqueue sd)) < chQSizeI (oqueue sd)"
    using oq_full [OF i] oq_bound [of "oqueue sd"] assms(2) by simp
  then obtain q' where q': "append_octet (oq_env env) b sd = Some (notify1 (sd\<lparr>oqueue := q'\<rparr>))" "oq_inv q'"
    "oq_items q' = oq_items (oqueue sd) @ [b]" "chQSizeI q' = chQSizeI (oqueue sd)"
    using append_octet_spec [of "oq_env env" sd b] i by (auto simp: oq_env_def)
  have "(x OR USART_CR1_TXEIE) AND USART_CR1_TXEIE = USART_CR1_TXEIE" for x :: u32
    by (rule bit_eqI) (auto simp: bit_simps)
  then show ?thesis using q' assms(1)
    by (auto simp: port_ok_def sent_def notify1_def upd_cr1_def USART_CR1_TXEIE_def)
qed

lemma write_octets_sent:
  "port_ok sd \<Longrightarrow> n \<noteq> 0 \<Longrightarrow> w + unat n \<le> length octs \<Longrightarrow>
   \<exists>k sd'. write_octets (oq_env env) octs n TIME_IMMEDIATE w sd = Some (w + k, sd') \<and> k \<le> unat n \<and> port_ok sd' \<and>
     sent sd' = sent sd @ take k (drop w octs) \<and> iqueue sd' = iqueue sd \<and> (chOQIsFullI (oqueue sd) \<or> 0 < k)"
proof (induction "unat n" arbitrary: n w sd)
  case 0
  then show ?case by (simp add: unat_eq_0)
next
  case (Suc m)
  have env: "queue_of (oq_env env) = oqueue" "q_unlock (oq_env env) = at_unlock env" by (simp_all add: oq_env_def)
  show ?case
  proof (cases "chOQIsFullI (oqueue sd)")
    case True
    have "qwait (oq_env env) TIME_IMMEDIATE sd = (Q_TIMEOUT, sd)" by (simp add: qwait_def)
    then have "write_octets (oq_env env) octs n TIME_IMMEDIATE w sd = Some (w + 0, at_unlock env sd)"
      using True by (simp add: write_octets.simps env queue_codes)
    then show ?thesis using unlock [OF Suc.prems(1)] True by fastforce
  next
    case False
    obtain sd1 where sd1: "append_octet (oq_env env) (octs ! w) sd = Some sd1" "port_ok sd1" "sent sd1 = sent sd @ [octs ! w]"
      "iqueue sd1 = iqueue sd" using append_sent [OF Suc.prems(1) False] by blast
    let ?sd2 = "at_unlock env sd1"
    have w: "w < length octs" using Suc.prems(2,3) Suc.hyps(2) by simp
    have step: "write_octets (oq_env env) octs n TIME_IMMEDIATE w sd =
        (if n - 1 = 0 then Some (w + 1, ?sd2) else write_octets (oq_env env) octs (n - 1) TIME_IMMEDIATE (w + 1) ?sd2)"
      using False sd1(1) w by (subst write_octets.simps) (simp add: env)
    have first: "take (Suc k) (drop w octs) = octs ! w # take k (drop (Suc w) octs)" for k
      using w by (simp add: Cons_nth_drop_Suc [symmetric])
    show ?thesis
    proof (cases "n - 1 = 0")
      case True
      then show ?thesis using step unlock [OF sd1(2)] sd1(3,4) first [of 0] Suc.hyps(2)
        by (intro exI [of _ 1] exI [of _ ?sd2]) simp
    next
      case False
      have m: "m = unat (n - 1)" using Suc.hyps(2) Suc.prems(2) by (simp add: unat_minus_one)
      then obtain k sd' where k: "write_octets (oq_env env) octs (n - 1) TIME_IMMEDIATE (w + 1) ?sd2 = Some (w + 1 + k, sd')"
        "k \<le> unat (n - 1)" "port_ok sd'" "sent sd' = sent ?sd2 @ take k (drop (w + 1) octs)" "iqueue sd' = iqueue ?sd2"
        using Suc.hyps(1) [OF m, of ?sd2 "w + 1"] unlock [OF sd1(2)] False Suc.prems(3) Suc.hyps(2) by auto
      then show ?thesis using step unlock [OF sd1(2)] sd1(3,4) first [of k] Suc.hyps(2) m False
        by (intro exI [of _ "Suc k"] exI [of _ sd']) simp
    qed
  qed
qed

lemma async_write:
  assumes "port_ok sd" "octs \<noteq> []" "length octs < 2 ^ 32"
  shows "\<exists>k sd'. sdAsynchronousWrite env octs (word_of_nat (length octs)) sd = Some (k, sd') \<and> k \<le> length octs \<and> port_ok sd' \<and>
    sent sd' = sent sd @ take k octs \<and> iqueue sd' = iqueue sd \<and> (chOQIsFullI (oqueue sd) \<or> 0 < k)"
proof -
  have n: "unat (word_of_nat (length octs) :: u32) = length octs" using assms(3) by (simp add: unat_of_nat take_bit_nat_eq_self)
  then have "(word_of_nat (length octs) :: u32) \<noteq> 0" using assms(2) by (metis length_0_conv unat_0)
  from write_octets_sent [OF assms(1) this, of 0 octs] n show ?thesis
    by (simp add: sdAsynchronousWrite_def chOQWriteTimeout_def)
qed

lemma read_loop_received:
  "port_ok sd \<Longrightarrow> n \<noteq> 0 \<Longrightarrow>
   \<exists>sd'. read_loop (iq_env env) False r n TIME_IMMEDIATE sd = Some (r @ take (unat n) (received sd), sd') \<and> port_ok sd' \<and>
     sent sd' = sent sd \<and> received sd' = drop (unat n) (received sd)"
proof (induction "unat n" arbitrary: n r sd)
  case 0
  then show ?case by (simp add: unat_eq_0)
next
  case (Suc m)
  have env: "queue_of (iq_env env) = iqueue" "q_unlock (iq_env env) = at_unlock env" "q_notify (iq_env env) = (\<lambda>sd. sd)"
    "set_queue (iq_env env) = (\<lambda>q sd. sd\<lparr>iqueue := q\<rparr>)" by (simp_all add: iq_env_def)
  show ?case
  proof (cases "received sd")
    case Nil
    have "qwait (iq_env env) TIME_IMMEDIATE sd = (Q_TIMEOUT, sd)" by (simp add: qwait_def)
    then have "read_loop (iq_env env) False r n TIME_IMMEDIATE sd = Some (r, at_unlock env sd)"
      using Nil by (simp add: read_loop.simps env queue_codes iq_empty received_def)
    then show ?thesis using unlock [OF Suc.prems(1)] Nil by (auto simp: received_def)
  next
    case (Cons b bs)
    have i: "iq_inv (iqueue sd)" "chQSizeI (iqueue sd) = SERIAL_BUFFERS_SIZE" using Suc.prems(1) by (simp_all add: port_ok_def)
    obtain q where q: "take_octet (iq_env env) sd = Some (b, sd\<lparr>iqueue := q\<rparr>)" "iq_inv q" "iq_items q = bs"
      "chQSizeI q = SERIAL_BUFFERS_SIZE"
      using take_octet_spec [of "iq_env env" sd b bs] i Cons by (auto simp: env received_def)
    let ?sd1 = "sd\<lparr>iqueue := q\<rparr>" let ?sd2 = "at_unlock env ?sd1"
    have ok: "port_ok ?sd1" "sent ?sd1 = sent sd" using Suc.prems(1) q by (simp_all add: port_ok_def sent_def)
    have step: "read_loop (iq_env env) False r n TIME_IMMEDIATE sd =
        (if n - 1 = 0 then Some (r @ [b], ?sd2) else read_loop (iq_env env) False (r @ [b]) (n - 1) TIME_IMMEDIATE ?sd2)"
      using q(1) Cons by (subst read_loop.simps) (simp add: env iq_empty received_def)
    have u: "port_ok ?sd2" "sent ?sd2 = sent sd" "received ?sd2 = bs"
      using unlock [OF ok(1)] ok(2) q(3) by (simp_all add: received_def)
    have m: "m = unat (n - 1)" using Suc.hyps(2) Suc.prems(2) by (simp add: unat_minus_one)
    show ?thesis
    proof (cases "n - 1 = 0")
      case True
      then show ?thesis using step u Cons Suc.hyps(2) m by (intro exI [of _ ?sd2]) (simp flip: Suc.hyps(2))
    next
      case False
      then show ?thesis using Suc.hyps(1) [OF m u(1) False, of "r @ [b]"] step u Cons Suc.hyps(2) m
        by (auto simp flip: Suc.hyps(2))
    qed
  qed
qed

lemma async_read:
  assumes "port_ok sd" "n \<noteq> 0"
  shows "\<exists>sd'. sdAsynchronousRead env n sd = Some (take (unat n) (received sd), sd') \<and> port_ok sd' \<and>
    sent sd' = sent sd \<and> received sd' = drop (unat n) (received sd)"
  using read_loop_received [OF assms, of "[]"] by (simp add: sdAsynchronousRead_def chIQReadTimeout_def)

end

text \<open>
  At 115200 baud a little over eleven octets leave per millisecond: while a thread sleeps the handler is called that
  often with TXE set, and once whenever the lock is released.
\<close>

definition tx_interrupt :: "SerialDriver \<Rightarrow> SerialDriver" where
  "tx_interrupt sd = (case serve_interrupt [] USART_SR_TXE sd of None \<Rightarrow> sd | Some sd \<Rightarrow> sd)"

definition usart_env :: serial_env where
  "usart_env = \<lparr>at_unlock = tx_interrupt, at_sleep = (\<lambda>ms. tx_interrupt ^^ (11 * ms))\<rparr>"

lemma tx_interrupt_ok:
  assumes "port_ok sd"
  shows "port_ok (tx_interrupt sd) \<and> sent (tx_interrupt sd) = sent sd \<and> iqueue (tx_interrupt sd) = iqueue sd \<and>
    length (oq_items (oqueue (tx_interrupt sd))) = length (oq_items (oqueue sd)) - 1"
proof -
  have tc: "USART_SR_TXE AND USART_SR_TC = 0" "USART_SR_TXE AND USART_SR_TXE \<noteq> 0"
    by (simp_all add: USART_SR_TXE_def USART_SR_TC_def)
  have i: "oq_inv (oqueue sd)" using assms by (simp add: port_ok_def)
  obtain r q where q: "chOQGetI (oqueue sd) = Some (case oq_items (oqueue sd) of [] \<Rightarrow> Q_EMPTY | b # _ \<Rightarrow> uint b, r, q)"
    "oq_inv q" "oq_items q = tl (oq_items (oqueue sd))" "chQSizeI q = chQSizeI (oqueue sd)" using chOQGetI_spec [OF i] by blast
  show ?thesis
  proof (cases "CR1 (usart_regs sd) AND USART_CR1_TXEIE \<noteq> 0")
    case True
    show ?thesis
    proof (cases "oq_items (oqueue sd)")
      case Nil
      have "Q_EMPTY < Q_OK" by (simp add: queue_codes)
      then have "tx_interrupt sd = upd_cr1 (\<lambda>_. (CR1 (usart_regs sd) AND NOT USART_CR1_TXEIE) OR USART_CR1_TCIE) (sd\<lparr>oqueue := q\<rparr>)"
        using q(1) True Nil tc by (simp add: tx_interrupt_def serve_interrupt_def Let_def)
      then show ?thesis using q Nil assms by (simp add: port_ok_def sent_def upd_cr1_def)
    next
      case (Cons b bs)
      have "\<not> uint b < Q_OK" by (simp add: queue_codes)
      then have "tx_interrupt sd = sd\<lparr>oqueue := q, usart_regs := (usart_regs sd)\<lparr>line := line (usart_regs sd) @ [b]\<rparr>\<rparr>"
        using q(1) True Cons tc by (simp add: tx_interrupt_def serve_interrupt_def Let_def)
      then show ?thesis using q Cons assms True by (simp add: port_ok_def sent_def)
    qed
  next
    case False
    then have "tx_interrupt sd = sd" "oq_items (oqueue sd) = []"
      using tc assms by (auto simp: tx_interrupt_def serve_interrupt_def Let_def port_ok_def)
    then show ?thesis using assms by simp
  qed
qed

lemma tx_interrupts_ok:
  "port_ok sd \<Longrightarrow> port_ok ((tx_interrupt ^^ n) sd) \<and> sent ((tx_interrupt ^^ n) sd) = sent sd \<and> iqueue ((tx_interrupt ^^ n) sd) = iqueue sd \<and>
    length (oq_items (oqueue ((tx_interrupt ^^ n) sd))) = length (oq_items (oqueue sd)) - n"
  using tx_interrupt_ok by (induction n) auto

interpretation usart_line: serial_line usart_env
proof
  fix sd :: SerialDriver and ms :: nat assume "port_ok sd" "0 < ms"
  then show "length (oq_items (oqueue (at_sleep usart_env ms sd))) < SERIAL_BUFFERS_SIZE"
    using tx_interrupts_ok [of sd "11 * ms"] oq_bound [of "oqueue sd"]
    by (simp add: usart_env_def port_ok_def SERIAL_BUFFERS_SIZE_def)
qed (use tx_interrupt_ok tx_interrupts_ok in \<open>simp_all add: usart_env_def\<close>)

section \<open>What arrives between two reads\<close>

lemma take_take_append: "take n (take n xs @ ys) = take n (xs @ ys)"
  by (cases "n \<le> length xs") auto

lemma incoming_received:
  "port_ok sd \<Longrightarrow> \<exists>sd'. incoming bs sd = Some sd' \<and> port_ok sd' \<and> received sd' = take 64 (received sd @ bs) \<and> sent sd' = sent sd"
proof (induction bs arbitrary: sd)
  case Nil
  then have "length (received sd) \<le> 64"
    by (simp add: port_ok_def received_def iq_items_def iq_inv_def q_ok_def SERIAL_BUFFERS_SIZE_def)
  then show ?case using Nil by simp
next
  case (Cons b bs)
  have i: "iq_inv (iqueue sd)" "chQSizeI (iqueue sd) = 64" using Cons.prems by (simp_all add: port_ok_def SERIAL_BUFFERS_SIZE_def)
  obtain m r q where q: "chIQPutI b (iqueue sd) = Some (m, r, q)" "iq_inv q" "iq_items q = take 64 (iq_items (iqueue sd) @ [b])"
    "chQSizeI q = 64" using chIQPutI_spec [OF i(1), of b] i(2) by auto
  have "port_ok (sd\<lparr>iqueue := q\<rparr>)" using Cons.prems q by (simp add: port_ok_def SERIAL_BUFFERS_SIZE_def)
  from Cons.IH [OF this] obtain sd' where "incoming bs (sd\<lparr>iqueue := q\<rparr>) = Some sd'" "port_ok sd'"
    "received sd' = take 64 (iq_items q @ bs)" "sent sd' = sent sd"
    by (auto simp: received_def sent_def)
  moreover have "take 64 (iq_items q @ bs) = take 64 (received sd @ b # bs)"
    unfolding q(3) take_take_append received_def by simp
  ultimately show ?case using q(1) by (simp add: sdIncomingDataI_def)
qed

text \<open>The input queue of the port is lossy: whatever octets the interrupt handler takes in between two reads, a read of
  up to 256 octets returns the first 64 of those not yet read, in order, and leaves nothing; the others are lost and
  what is to be sent is untouched. A thread that reads every half second receives no longer frame.\<close>
theorem serial_port_keeps_first_64:
  assumes "serial_line env" "port_ok sd"
  shows "\<exists>sd1 sd2. incoming bs sd = Some sd1 \<and> sdAsynchronousRead env 256 sd1 = Some (take 64 (received sd @ bs), sd2) \<and>
    received sd2 = [] \<and> port_ok sd2 \<and> sent sd2 = sent sd"
proof -
  obtain sd1 where sd1: "incoming bs sd = Some sd1" "port_ok sd1" "received sd1 = take 64 (received sd @ bs)" "sent sd1 = sent sd"
    using incoming_received [OF assms(2)] by blast
  show ?thesis using serial_line.async_read [OF assms(1) sd1(2), of 256] sd1 by auto
qed

definition idle_port :: SerialDriver where
  "idle_port = sdStart (sdObjectInit (replicate 64 0) (replicate 64 0)
     \<lparr>sd_state = SD_UNINIT, iqueue = chIQInit [], oqueue = chOQInit [], usart_regs = \<lparr>CR1 = 0, line = []\<rparr>\<rparr>)"

lemma idle_port_ok: "port_ok idle_port" "received idle_port = []" "sent idle_port = []"
  by (simp_all add: idle_port_def sdStart_def usart_init_def upd_cr1_def sdObjectInit_def port_ok_def chIQInit_def chOQInit_def
      iq_inv_def oq_inv_def oq_items_def q_ok_def chQSizeI_def SERIAL_BUFFERS_SIZE_def received_def sent_def iq_items_def)

theorem serial_port_keeps_first_64_witness:
  "\<exists>sd1 sd2. incoming (replicate 70 9) idle_port = Some sd1 \<and>
     sdAsynchronousRead usart_env 256 sd1 = Some (replicate 64 9, sd2) \<and> received sd2 = []"
  using serial_port_keeps_first_64 [OF usart_line.serial_line_axioms idle_port_ok(1), of "replicate 70 9"] idle_port_ok(2) by auto

end
