(* ===== verification/Server.thy ===== *)
theory Server
  imports SFP_Protocol Rpc_Lemmas SerialPort
begin

text \<open>
  The server of the robot, \<open>src/src/server.c\<close>: a thread that feeds the octets received on a serial port to the framing
  protocol, hands each packet delivered to the remote procedure calls, and writes their packets back to the port. It
  holds the state of the two layers (\<open>server.rpc\<close> and \<open>server.sfp\<close>), so the callbacks of the framing protocol change
  it too: they may reset the protocol that is calling them.
\<close>

section \<open>Data\<close>

datatype serverState_t = serverStateConnected | serverStateDisconnected

record server_t =
  sd :: "SerialDriver option"
  server_state :: serverState_t
  serverThreadPointer :: "nat option"
  serverThreadDeadTimer :: u32

text \<open>The two layers with the rest of the server: its members \<open>rpc\<close> and \<open>sfp\<close> are those of the pair.\<close>

type_synonym 'h server_st = "('h, server_t) robot \<times> SFPcontext"

text \<open>
  What the server is built on: the flash controller, the interrupts of the serial port, the scheduler (a thread
  created, by its number), and the rest of the robot while the server's thread sleeps for some milliseconds.
\<close>

record 'h server_env =
  srv_flash :: "'h flash_hw"
  srv_serial :: serial_env
  create_thread :: "'h server_st \<Rightarrow> nat"
  while_asleep :: "nat \<Rightarrow> 'h server_st \<Rightarrow> 'h server_st"

text \<open>The functions passed by pointer, and the address of the server passed as user data.\<close>

definition SERVER_READ :: nat where "SERVER_READ = 1"
definition SERVER_WRITE :: nat where "SERVER_WRITE = 2"
definition SERVER_WRITE_PACKET :: nat where "SERVER_WRITE_PACKET = 3"
definition SERVER_DATA :: userdata where "SERVER_DATA = 1"

definition upd_server :: "(server_t \<Rightarrow> server_t) \<Rightarrow> 'h server_st \<Rightarrow> 'h server_st" where
  "upd_server f s = ((fst s)\<lparr>periphery := f (periphery (fst s))\<rparr>, snd s)"

abbreviation server_of :: "'h server_st \<Rightarrow> server_t" where "server_of s \<equiv> periphery (fst s)"

section \<open>The connection\<close>

definition serverReset :: "'h server_st \<Rightarrow> 'h server_st" where
  "serverReset s =
     (let s = upd_server (\<lambda>v. v\<lparr>server_state := serverStateDisconnected\<rparr>) s;
          s = upd_rpc (\<lambda>r. r\<lparr>seq_id := 0, timestamp := clock (fst s), subs := map (\<lambda>u. no_sub) (subs r), ipv4 := replicate 4 0\<rparr>) s
      in (fst s, sfpSetWriteCallback (Some SERVER_WRITE) SERVER_DATA
            (sfpSetDeliverCallback (Some SERVER_READ) SERVER_DATA (sfpInit (snd s)))))"

definition serverCheckConnection :: "'h server_st \<Rightarrow> 'h server_st" where
  "serverCheckConnection s =
     (if server_state (server_of s) = serverStateDisconnected then
        (if sfpIsConnected (snd s) then
           let now = clock (fst s);
               s = upd_rpc (\<lambda>r. r\<lparr>timestamp := now, heartbeat := now, published := now, sendstats := now,
                     subs := map (\<lambda>u. no_sub) (subs r), cassette := 0xff, fp := NO_PARAM\<rparr>) s
           in upd_server (\<lambda>v. v\<lparr>server_state := serverStateConnected\<rparr>) s
         else s)
      else if \<not> sfpIsConnected (snd s) \<or> chTimeElapsedSince (heartbeat (rpc_of s)) s > 5000 \<or>
              chTimeElapsedSince (timestamp (rpc_of s)) s > 2147483647
      then serverReset s else s)"

definition serverIsConnected :: "'h server_st \<Rightarrow> bool" where
  "serverIsConnected s \<longleftrightarrow> server_state (server_of s) = serverStateConnected"

definition serverGetIpv4 :: "'h server_st \<Rightarrow> octets option" where
  "serverGetIpv4 s = load (ipv4 (rpc_of s)) 4"

section \<open>Writing\<close>

text \<open>The octets not yet in the output queue of the port are tried again every two milliseconds.\<close>

partial_function (option) serverWrite_loop :: "serial_env \<Rightarrow> octets \<Rightarrow> nat \<Rightarrow> SerialDriver \<Rightarrow> (nat \<times> SerialDriver) option" where
  "serverWrite_loop env octs wcnt p =
     (if length octs > 0 then do {
        (wlen, p) \<leftarrow> sdAsynchronousWrite env octs (word_of_nat (length octs)) (at_sleep env 2 p);
        serverWrite_loop env (drop wlen octs) (wcnt + wlen) p }
      else Some (wcnt, p))"

definition serverWrite :: "'h server_env \<Rightarrow> octets \<Rightarrow> 'h server_st \<Rightarrow> (int \<times> nat \<times> 'h server_st) option" where
  "serverWrite env octs s = do {
     p \<leftarrow> sd (server_of s);
     (wlen, p) \<leftarrow> sdAsynchronousWrite (srv_serial env) octs (word_of_nat (length octs)) p;
     (wcnt, p) \<leftarrow> serverWrite_loop (srv_serial env) (drop wlen octs) wlen p;
     Some (0, wcnt, serverCheckConnection (upd_server (\<lambda>v. v\<lparr>sd := Some p\<rparr>) s))
   }"

text \<open>
  Calls through the pointers the framing protocol holds. Writing a packet never delivers one, so the writing side has
  no other callback.
\<close>

definition call_serverWrite :: "'h server_env \<Rightarrow> nat \<Rightarrow> octets \<Rightarrow> userdata \<Rightarrow> 'h server_st \<Rightarrow> 'h server_st option" where
  "call_serverWrite env w octs d s =
     (if w = SERVER_WRITE then do { (r, n, s) \<leftarrow> serverWrite env octs s; Some s } else None)"

definition server_tx :: "'h server_env \<Rightarrow> ('h, server_t) robot sfp_env" where
  "server_tx env = \<lparr>call_write = call_serverWrite env, call_deliver = (\<lambda>_ _ _ _. None)\<rparr>"

definition serverWritePacket ::
  "'h server_env \<Rightarrow> octets \<Rightarrow> nat \<Rightarrow> 'h server_st \<Rightarrow> (int \<times> nat \<times> 'h server_st) option" where
  "serverWritePacket env octs n s = sfpWritePacket (server_tx env) octs n s"

definition server_rpc :: "'h server_env \<Rightarrow> ('h, server_t, SFPcontext) rpc_env" where
  "server_rpc env = \<lparr>flash_dev = srv_flash env,
     call_writePacket = (\<lambda>w octs n s.
       if w = SERVER_WRITE_PACKET then do { (r, k, s) \<leftarrow> serverWritePacket env octs n s; Some s } else None)\<rparr>"

section \<open>Reading\<close>

text \<open>A message that does not parse is left half stored in \<open>in.msg\<close>, which is only read after one that does.\<close>

definition serverRead :: "'h server_env \<Rightarrow> octets \<Rightarrow> 'h server_st \<Rightarrow> 'h server_st option" where
  "serverRead env b s = do {
     m \<leftarrow> message_deserialize b (length b);
     s \<leftarrow> (case m of
             Inl e \<Rightarrow> Some s
           | Inr m \<Rightarrow> rpcRecv (server_rpc env) m (upd_rpc (\<lambda>r. r\<lparr>in_msg := m\<rparr>) s));
     Some (serverCheckConnection s)
   }"

definition server_sfp :: "'h server_env \<Rightarrow> ('h, server_t) robot sfp_env" where
  "server_sfp env = \<lparr>call_write = call_serverWrite env,
     call_deliver = (\<lambda>w octs d s. if w = SERVER_READ then serverRead env octs s else None)\<rparr>"

section \<open>Setup and the thread\<close>

definition serverSetup :: "SerialDriver option \<Rightarrow> 'h server_st \<Rightarrow> 'h server_st" where
  "serverSetup p s = upd_rpc (\<lambda>r. r\<lparr>writePacket := Some SERVER_WRITE_PACKET\<rparr>) (upd_server (\<lambda>v. v\<lparr>sd := p\<rparr>) s)"

definition serverInit :: "'h server_st \<Rightarrow> 'h server_st option" where
  "serverInit s = do {
     let s = serverReset s;
     p \<leftarrow> sd (server_of s);
     Some (upd_server (\<lambda>v. v\<lparr>sd := Some (sdStart p)\<rparr>) s) }"

definition serverStart :: "'h server_env \<Rightarrow> 'h server_st \<Rightarrow> 'h server_st" where
  "serverStart env s =
     (let s = (if chTimeElapsedSince (serverThreadDeadTimer (server_of s)) s > 300
               then upd_server (\<lambda>v. v\<lparr>serverThreadPointer := None\<rparr>) s else s)
      in if serverThreadPointer (server_of s) \<noteq> None then s
         else upd_server (\<lambda>v. v\<lparr>serverThreadPointer := Some (create_thread env s)\<rparr>) s)"

definition serverThread_step :: "'h server_env \<Rightarrow> 'h server_st \<Rightarrow> 'h server_st option" where
  "serverThread_step env s = do {
     let s = upd_server (\<lambda>v. v\<lparr>serverThreadDeadTimer := clock (fst s)\<rparr>) s;
     p \<leftarrow> sd (server_of s);
     (octs, p) \<leftarrow> sdAsynchronousRead (srv_serial env) (word_of_nat SFP_CONFIG_MAX_PACKET_SIZE) p;
     b \<leftarrow> memcpy (in_buf (rpc_of s)) 0 octs;
     let s = upd_rpc (\<lambda>r. r\<lparr>in_buf := b\<rparr>) (upd_server (\<lambda>v. v\<lparr>sd := Some p\<rparr>) s);
     s \<leftarrow> sfpDeliverOctets (server_sfp env) octs s;
     let s = serverCheckConnection s;
     s \<leftarrow> (if serverIsConnected s then rpcLoop (server_rpc env) s else Some s);
     Some (while_asleep env 500 s)
   }"

fun serverThread_loop :: "'h server_env \<Rightarrow> nat \<Rightarrow> 'h server_st \<Rightarrow> 'h server_st option" where
  "serverThread_loop env 0 s = Some s"
| "serverThread_loop env (Suc n) s = do { s \<leftarrow> serverThread_step env s; serverThread_loop env n s }"

text \<open>The thread is told to terminate after \<open>n\<close> rounds.\<close>

definition serverThread :: "'h server_env \<Rightarrow> nat \<Rightarrow> 'h server_st \<Rightarrow> 'h server_st option" where
  "serverThread env n s = do {
     let now = clock (fst s);
     s \<leftarrow> serverThread_loop env n (upd_rpc (\<lambda>r. r\<lparr>sendstats := now, published := now, heartbeat := now, timestamp := now\<rparr>) s);
     Some (upd_server (\<lambda>v. v\<lparr>serverThreadPointer := None, serverThreadDeadTimer := 0\<rparr>) (serverReset s))
   }"

end
