(* ===== verification/SFP_Sim.thy ===== *)
theory SFP_Sim
  imports SFP_Protocol
begin

text \<open>
  Two worlds for the framing protocol whose write callbacks correspond as long as the first one is stable: everything
  the protocol transmits then runs alike in both. So what was shown for callbacks that do not reenter the protocol
  holds for callbacks that could, in the states where they do not.
\<close>

lemma rel_bind:
  "rel_option A m n \<Longrightarrow> (\<And>x y. A x y \<Longrightarrow> rel_option B (f x) (g y)) \<Longrightarrow> rel_option B (m \<bind> f) (n \<bind> g)"
  by (cases m; cases n) auto

abbreviation rel_ret :: "('s \<Rightarrow> 't \<Rightarrow> bool) \<Rightarrow> 'r \<times> 's \<Rightarrow> 'r \<times> 't \<Rightarrow> bool" where
  "rel_ret A \<equiv> rel_prod (=) A"

lemma rel_bind2:
  "rel_option (rel_ret A) m n \<Longrightarrow> (\<And>r s t. A s t \<Longrightarrow> rel_option B (f (r, s)) (g (r, t))) \<Longrightarrow> rel_option B (m \<bind> f) (n \<bind> g)"
  by (erule rel_bind) (auto simp: rel_prod_sel prod_eq_iff split_def)

lemma rel_bind3:
  "rel_option (rel_ret (rel_ret A)) m n \<Longrightarrow> (\<And>r k s t. A s t \<Longrightarrow> rel_option B (f (r, k, s)) (g (r, k, t))) \<Longrightarrow>
    rel_option B (m \<bind> f) (n \<bind> g)"
  by (erule rel_bind) (auto simp: rel_prod_sel prod_eq_iff split_def)

lemma rel_refl_bind: "(\<And>x. rel_option B (f x) (g x)) \<Longrightarrow> rel_option B (m \<bind> f) (m \<bind> g)"
  by (cases m) auto

lemma rel_Some [simp]: "rel_option A (Some x) (Some y) = A x y" "rel_option A None None"
  by simp_all

lemma rel_SomeD: "rel_option A m (Some y) \<Longrightarrow> \<exists>x. m = Some x \<and> A x y"
  by (cases m) auto

locale sfp_sim =
  fixes E :: "'u sfp_env" and F :: "'v sfp_env"
    and base :: "'u \<Rightarrow> 'v \<Rightarrow> bool" and stable :: "SFPconnectstate \<Rightarrow> 'u \<Rightarrow> bool" and w :: nat
  assumes call: "base u v \<Longrightarrow> stable (connectState c) u \<Longrightarrow> octs \<noteq> [] \<Longrightarrow> length octs \<le> 512 \<Longrightarrow>
    \<exists>u' v'. call_write E w octs d (u, c) = Some (u', c) \<and> call_write F w octs d (v, c) = Some (v', c) \<and>
      base u' v' \<and> stable (connectState c) u'"
begin

text \<open>The same context, its buffer of the declared size; a transmission begun in \<open>k\<close> goes on there.\<close>

definition S :: "SFPconnectstate \<Rightarrow> 'u sfp_state \<Rightarrow> 'v sfp_state \<Rightarrow> bool" where
  "S k s t \<longleftrightarrow> snd s = snd t \<and> base (fst s) (fst t) \<and> stable k (fst s) \<and> connectState (snd s) = k \<and>
     tx_write (tx (snd s)) = Some w \<and> length (writebuf (tx (snd s))) = 512"

definition S' :: "SFPconnectstate \<Rightarrow> 'u sfp_state \<Rightarrow> 'v sfp_state \<Rightarrow> bool" where
  "S' k s t \<longleftrightarrow> S k s t \<and> writebufn (tx (snd s)) \<noteq> 0"

lemma S'D: "S' k s t \<Longrightarrow> S k s t"
  by (simp add: S'_def)

lemma S_upd:
  "S k (u, c) (v, c) \<Longrightarrow> connectState c' = connectState c \<Longrightarrow> tx_write (tx c') = tx_write (tx c) \<Longrightarrow>
    length (writebuf (tx c')) = length (writebuf (tx c)) \<Longrightarrow> S k (u, c') (v, c')"
  by (simp add: S_def)

lemma S_cases:
  assumes "S k s t"
  obtains u v c where "s = (u, c)" "t = (v, c)" "S k (u, c) (v, c)"
  using assms by (cases s; cases t) (auto simp: S_def)

lemma flush_sim:
  assumes "S' k s t"
  shows "rel_option (S k) (sfpFlushWriteBuffer E s) (sfpFlushWriteBuffer F t)"
proof -
  obtain u v c where s: "s = (u, c)" "t = (v, c)" "S k (u, c) (v, c)"
    using assms S'D by (blast elim: S_cases)
  have c: "tx_write (tx c) = Some w" "length (writebuf (tx c)) = 512" "writebufn (tx c) \<noteq> 0" "base u v" "stable (connectState c) u"
    using assms s by (auto simp: S'_def S_def)
  show ?thesis
  proof (cases "writebufn (tx c) \<le> 512")
    case True
    let ?o = "take (writebufn (tx c)) (writebuf (tx c))"
    have "?o \<noteq> []" "length ?o \<le> 512" using c True by auto
    then obtain u' v' where "call_write E w ?o (writeData (tx c)) (u, c) = Some (u', c)"
      "call_write F w ?o (writeData (tx c)) (v, c) = Some (v', c)" "base u' v'" "stable (connectState c) u'"
      using call c(4,5) by metis
    then show ?thesis using s c True by (simp add: sfpFlushWriteBuffer_def load_def S_def)
  next
    case False
    then show ?thesis using s c by (simp add: sfpFlushWriteBuffer_def load_def)
  qed
qed

lemma buffered_sim:
  assumes "S k s t"
  shows "rel_option (rel_ret (rel_ret (S' k))) (sfpBufferedWrite E b s) (sfpBufferedWrite F b t)"
proof -
  obtain u v c where s: "s = (u, c)" "t = (v, c)" "S k (u, c) (v, c)" using assms by (rule S_cases)
  have m1: "rel_option (S k) (if SFP_CONFIG_WRITEBUF_SIZE \<le> writebufn (tx c) then sfpFlushWriteBuffer E (u, c) else Some (u, c))
     (if SFP_CONFIG_WRITEBUF_SIZE \<le> writebufn (tx c) then sfpFlushWriteBuffer F (v, c) else Some (v, c))"
    using flush_sim [of k s t] assms s by (auto simp: S'_def SFP_CONFIG_WRITEBUF_SIZE_def)
  have m2: "rel_option (rel_ret (rel_ret (S' k)))
     (memcpy (writebuf (tx c')) (writebufn (tx c')) [b] \<bind>
        (\<lambda>wb. Some (0 :: int, 1 :: nat, u', upd_tx (\<lambda>t. t\<lparr>writebuf := wb, writebufn := writebufn t + 1\<rparr>) c')))
     (memcpy (writebuf (tx c')) (writebufn (tx c')) [b] \<bind>
        (\<lambda>wb. Some (0, 1, v', upd_tx (\<lambda>t. t\<lparr>writebuf := wb, writebufn := writebufn t + 1\<rparr>) c')))"
    if "S k (u', c') (v', c')" for u' v' c'
    using that by (auto simp: memcpy_def S'_def S_def)
  show ?thesis
    unfolding sfpBufferedWrite_def s snd_conv by (rule rel_bind [OF m1], erule S_cases) (simp only: prod.case m2)
qed

lemma buffered_sim': "S k s t \<Longrightarrow> rel_option (rel_ret (rel_ret (S k))) (sfpBufferedWrite E b s) (sfpBufferedWrite F b t)"
  using buffered_sim [of k s t b] by (rule option.rel_mono_strong) (auto simp: rel_prod_sel S'D)

lemma nocrc_sim: "S k s t \<Longrightarrow> rel_option (rel_ret (rel_ret (S' k))) (sfpWriteNoCRC E b s) (sfpWriteNoCRC F b t)"
  unfolding sfpWriteNoCRC_def
  apply (rule rel_bind3 [where A = "S k"], cases "isReservedOctet b")
    apply (simp only: if_True, rule rel_bind3 [OF buffered_sim'], assumption, simp)
   apply simp
  apply (simp only: prod.case, rule rel_bind3 [OF buffered_sim], assumption, simp)
  done

lemma write_sim: "S k s t \<Longrightarrow> rel_option (rel_ret (rel_ret (S' k))) (sfpWrite E b s) (sfpWrite F b t)"
  unfolding sfpWrite_def by (rule nocrc_sim) (auto simp: S_def)

lemma nocrc_sim': "S k s t \<Longrightarrow> rel_option (rel_ret (rel_ret (S k))) (sfpWriteNoCRC E b s) (sfpWriteNoCRC F b t)"
  using nocrc_sim [of k s t b] by (rule option.rel_mono_strong) (auto simp: rel_prod_sel S'D)

lemma write_sim': "S k s t \<Longrightarrow> rel_option (rel_ret (rel_ret (S k))) (sfpWrite E b s) (sfpWrite F b t)"
  using write_sim [of k s t b] by (rule option.rel_mono_strong) (auto simp: rel_prod_sel S'D)

lemma writes_sim: "S k s t \<Longrightarrow> rel_option (rel_ret (S k)) (sfpWrites E bs n s) (sfpWrites F bs n t)"
  by (induction bs arbitrary: n s t) (auto intro!: rel_bind3 write_sim')

lemma header_sim:
  assumes "S k s t"
  shows "rel_option (rel_ret (rel_ret (S k))) (sfpTransmitFrameWithHeader E hdr pkt s) (sfpTransmitFrameWithHeader F hdr pkt t)"
proof -
  let ?crc = "\<lambda>c. upd_tx (\<lambda>t. t\<lparr>tx_crc := SFP_CRC_PRESET\<rparr>) c"
  have s: "S k (fst s, ?crc (snd s)) (fst t, ?crc (snd t))" using assms by (auto simp: S_def)
  have p: "rel_option (rel_ret (S k))
     (case pkt of None \<Rightarrow> Some (n, s) | Some p \<Rightarrow> do { octs \<leftarrow> load (buf p) (len p); sfpWrites E octs n s })
     (case pkt of None \<Rightarrow> Some (n, t) | Some p \<Rightarrow> do { octs \<leftarrow> load (buf p) (len p); sfpWrites F octs n t })"
    if "S k s t" for n s t
    using that by (cases pkt) (auto intro!: rel_refl_bind writes_sim)
  have last: "rel_option (rel_ret (rel_ret (S k)))
     (sfpFlushWriteBuffer E s \<bind> (\<lambda>s. Some (0 :: int, n :: nat, s))) (sfpFlushWriteBuffer F t \<bind> (\<lambda>s. Some (0, n, s)))"
    if "S' k s t" for n s t using flush_sim [OF that] by (rule rel_bind) simp
  have crc: "S k s t \<Longrightarrow> tx_crc (tx (snd t)) = tx_crc (tx (snd s))" for s t by (simp add: S_def)
  show ?thesis
    unfolding sfpTransmitFrameWithHeader_def Let_def
    apply (rule rel_bind3 [OF buffered_sim' [OF s]], simp only: prod.case)
    apply (rule rel_bind3 [OF write_sim'], assumption, simp only: prod.case)
    apply (rule rel_bind2 [OF p], assumption, simp only: prod.case crc)
    apply (rule rel_bind3 [OF nocrc_sim'], assumption, simp only: prod.case)
    apply (rule rel_bind3 [OF nocrc_sim'], assumption, simp only: prod.case)
    apply (rule rel_bind3 [OF buffered_sim], assumption, simp only: prod.case)
    by (rule last)
qed

text \<open>Packets, the history and the control frames.\<close>

lemma void_header:
  "S k s t \<Longrightarrow> rel_option (S k) (sfpTransmitFrameWithHeader E hdr pkt s \<bind> (\<lambda>(r, n, s). Some s))
     (sfpTransmitFrameWithHeader F hdr pkt t \<bind> (\<lambda>(r, n, s). Some s))"
  by (rule rel_bind3 [OF header_sim]) simp_all

lemma control_sim:
  assumes "S k s t"
  shows "rel_option (S k) (sfpTransmitNAK E q s) (sfpTransmitNAK F q t)" "rel_option (S k) (sfpTransmitDIS E s) (sfpTransmitDIS F t)"
    "rel_option (S k) (sfpTransmitSYN0 E s) (sfpTransmitSYN0 F t)" "rel_option (S k) (sfpTransmitSYN1 E s) (sfpTransmitSYN1 F t)"
    "rel_option (S k) (sfpTransmitSYN2 E s) (sfpTransmitSYN2 F t)"
  unfolding sfpTransmitNAK_def sfpTransmitDIS_def sfpTransmitSYN0_def sfpTransmitSYN1_def sfpTransmitSYN2_def
  by (rule void_header [OF assms])+

lemma impl_sim:
  assumes "S k s t"
  shows "rel_option (rel_ret (rel_ret (S k))) (sfpTransmitFrameImpl E p rtx s) (sfpTransmitFrameImpl F p rtx t)"
proof -
  obtain u v c where s: "s = (u, c)" "t = (v, c)" "S k (u, c) (v, c)" using assms by (rule S_cases)
  let ?h = "upd_tx (\<lambda>t. t\<lparr>history := potRingbufferPushBack (history t) p\<rparr>) c"
  have h: "S k (u, ?h) (v, ?h)" using s(3) by (auto simp: S_def)
  have last: "rel_option (rel_ret (rel_ret (S k)))
      (sfpTransmitFrameWithHeader E hdr (Some p) s \<bind> (\<lambda>(ret, outlen, s). Some (ret, outlen, fst s, upd_tx (\<lambda>t. t\<lparr>tx_seq := nextSeq (tx_seq t)\<rparr>) (snd s))))
      (sfpTransmitFrameWithHeader F hdr (Some p) t \<bind> (\<lambda>(ret, outlen, s). Some (ret, outlen, fst s, upd_tx (\<lambda>t. t\<lparr>tx_seq := nextSeq (tx_seq t)\<rparr>) (snd s))))"
    if "S k s t" for hdr s t
    using header_sim [OF that] by (rule rel_bind3) (auto simp: S_def)
  show ?thesis
    using last [OF s(3)] last [OF h] by (cases rtx) (simp_all only: sfpTransmitFrameImpl_def s Let_def if_True if_False prod.case fst_conv snd_conv)
qed

lemma rtx_sim: "S k s t \<Longrightarrow> rel_option (S k) (sfpTransmitRTX E p s) (sfpTransmitRTX F p t)"
  unfolding sfpTransmitRTX_def by (rule rel_bind3 [OF impl_sim]) simp_all

lemma packet_sim: "S k s t \<Longrightarrow> rel_option (rel_ret (rel_ret (S k))) (sfpWritePacket E bs n s) (sfpWritePacket F bs n t)"
  unfolding sfpWritePacket_def sfpTransmitUSR_def by (intro rel_refl_bind impl_sim)

lemma history_sim: "S k s t \<Longrightarrow> rel_option (S k) (sfpTransmitHistory_loop E i n s) (sfpTransmitHistory_loop F i n t)"
proof (induction n arbitrary: i s t)
  case (Suc n)
  have "snd s = snd t" using Suc.prems by (simp add: S_def)
  then show ?case by (auto intro!: rel_bind [OF rtx_sim [OF Suc.prems]] Suc.IH)
qed simp

lemma fromseq_sim:
  assumes "S k s t"
  shows "rel_option (S k) (sfpTransmitHistoryFromSeq E q s) (sfpTransmitHistoryFromSeq F q t)"
proof -
  obtain u v c where s: "s = (u, c)" "t = (v, c)" "S k (u, c) (v, c)" using assms by (rule S_cases)
  have "S k (u, upd_tx (\<lambda>t. t\<lparr>history := h, tx_seq := q\<rparr>) c) (v, upd_tx (\<lambda>t. t\<lparr>history := h, tx_seq := q\<rparr>) c)" for h
    using s(3) by (auto simp: S_def)
  then show ?thesis unfolding sfpTransmitHistoryFromSeq_def sfpTransmitHistory_def Let_def s snd_conv fst_conv
    by (simp add: history_sim)
qed

text \<open>After the handlers of connection frames the connection state may be another one: the contexts are still equal.\<close>

definition same :: "'u sfp_state \<Rightarrow> 'v sfp_state \<Rightarrow> bool" where
  "same s t \<longleftrightarrow> snd s = snd t \<and> base (fst s) (fst t) \<and> tx_write (tx (snd s)) = Some w"

lemma S_same: "S k s t \<Longrightarrow> same s t"
  by (auto simp: S_def same_def)

lemma same_opt: "rel_option (S k) m n \<Longrightarrow> rel_option same m n"
  by (erule option.rel_mono_strong) (rule S_same)

lemma same_state: "S k s t \<Longrightarrow> same (fst s, (snd s)\<lparr>connectState := k'\<rparr>) (fst t, (snd t)\<lparr>connectState := k'\<rparr>)"
  by (auto simp: S_def same_def)

lemma then_state:
  "rel_option (S k) m n \<Longrightarrow>
    rel_option same (m \<bind> (\<lambda>(u, c). Some (u, c\<lparr>connectState := k'\<rparr>))) (n \<bind> (\<lambda>(u, c). Some (u, c\<lparr>connectState := k'\<rparr>)))"
  by (erule rel_bind) (auto simp: S_def same_def)

lemma clear_frame:
  assumes "sfpClearHistory c = Some c'"
  shows "\<exists>h. c' = upd_tx (\<lambda>t. t\<lparr>history := h\<rparr>) c"
proof (rule sfpClearHistory.raw_induct [where P = "\<lambda>c c'. \<exists>h. c' = upd_tx (\<lambda>t. t\<lparr>history := h\<rparr>) c", OF _ assms])
  fix f c c'
  assume IH: "\<And>c c'. f c = Some c' \<Longrightarrow> \<exists>h. c' = upd_tx (\<lambda>t. t\<lparr>history := h\<rparr>) c"
    and eq: "(if potRingbufferEmpty (history (tx c)) then Some c
      else f (upd_tx (\<lambda>t. t\<lparr>history := potRingbufferPopFront (history t)\<rparr>) c)) = Some c'"
  show "\<exists>h. c' = upd_tx (\<lambda>t. t\<lparr>history := h\<rparr>) c"
  proof (cases "potRingbufferEmpty (history (tx c))")
    case False
    then have "f (upd_tx (\<lambda>t. t\<lparr>history := potRingbufferPopFront (history t)\<rparr>) c) = Some c'" using eq by simp
    from IH [OF this] show ?thesis by auto
  qed (use eq in \<open>auto intro: exI [of _ "history (tx c)"]\<close>)
qed

lemma syn0_sim:
  assumes "S k s t"
  shows "rel_option same (sfpHandleSYN0 E s) (sfpHandleSYN0 F t)"
proof -
  obtain u v c where s: "s = (u, c)" "t = (v, c)" "S k (u, c) (v, c)" using assms by (rule S_cases)
  let ?c = "upd_tx (\<lambda>t. t\<lparr>tx_seq := SFP_INITIAL_SEQ\<rparr>) (upd_rx (\<lambda>r. r\<lparr>rx_seq := SFP_INITIAL_SEQ\<rparr>) (sfpResetReceiver c))"
  show ?thesis
  proof (cases "sfpClearHistory ?c")
    case None
    then show ?thesis by (simp add: sfpHandleSYN0_def s)
  next
    case (Some c')
    then obtain h where c': "c' = upd_tx (\<lambda>t. t\<lparr>history := h\<rparr>) ?c" using clear_frame by blast
    have "S k (u, c') (v, c')" using s(3) by (auto simp: S_def c' sfpResetReceiver_def)
    from then_state [OF control_sim(4) [OF this]] show ?thesis
      using Some by (simp add: sfpHandleSYN0_def s)
  qed
qed

lemma resend_sim:
  "S k s t \<Longrightarrow> rel_option (S k) (if tx_seq (tx (snd s)) \<noteq> SFP_INITIAL_SEQ then sfpTransmitHistoryFromSeq E q s else Some s)
     (if tx_seq (tx (snd t)) \<noteq> SFP_INITIAL_SEQ then sfpTransmitHistoryFromSeq F q t else Some t)"
  using fromseq_sim [of k s t q] by (auto simp: S_def)

lemma syn_sim:
  assumes "S k s t"
  shows "rel_option same (sfpHandleSYN E s) (sfpHandleSYN F t)"
proof -
  have c: "snd s = snd t" using assms by (simp add: S_def)
  have 1: "rel_option same (sfpHandleSYN1 E s) (sfpHandleSYN1 F t)"
    unfolding sfpHandleSYN1_def c
    by (auto intro!: same_opt [OF control_sim(2)] rel_bind [OF control_sim(5) [OF assms]] then_state [OF resend_sim] assms)
  have 2: "rel_option same (sfpHandleSYN2 E s) (sfpHandleSYN2 F t)"
    using control_sim(2,3) [OF assms, THEN same_opt] then_state [OF resend_sim [OF assms], of SFP_INITIAL_SEQ SFP_CONNECT_STATE_CONNECTED]
    by (cases "connectState (snd t)") (simp_all add: sfpHandleSYN2_def c split del: if_split)
  show ?thesis
    unfolding sfpHandleSYN_def Let_def c using 1 2 syn0_sim [OF assms] S_same [OF assms] assms
    by (auto simp: same_def S_def)
qed

lemma nak_sim:
  assumes "S k s t"
  shows "rel_option (S k) (sfpHandleNAK E s) (sfpHandleNAK F t)"
proof -
  have c: "snd s = snd t" using assms by (simp add: S_def)
  show ?thesis
    unfolding sfpHandleNAK_def Let_def c using control_sim [OF assms] fromseq_sim [OF assms] assms
    by (auto split: SFPconnectstate.split)
qed

text \<open>A frame that delivers nothing.\<close>

definition quiet :: "SFPcontext \<Rightarrow> bool" where
  "quiet c \<longleftrightarrow> \<not> (connectState c = SFP_CONNECT_STATE_CONNECTED \<and> len (packet (rx c)) \<ge> SFP_CRC_SIZE \<and> rx_crc (rx c) = SFP_CRC_GOOD \<and>
     (getFrameType (header (rx c)) = SFP_FRAME_USR \<or> getFrameType (header (rx c)) = SFP_FRAME_RTX) \<and>
     getFrameSeq (header (rx c)) = rx_seq (rx c))"

lemma frame_sim:
  assumes "S k s t" "quiet (snd s)"
  shows "rel_option (rel_ret same) (sfpHandleFrame E s) (sfpHandleFrame F t)"
proof -
  obtain u v c where s: "s = (u, c)" "t = (v, c)" "S k (u, c) (v, c)" using assms(1) by (rule S_cases)
  have ret: "rel_option same m n \<Longrightarrow> rel_option (rel_ret same) (m \<bind> (\<lambda>s. Some (r :: int, s))) (n \<bind> (\<lambda>s. Some (r, s)))" for m n r
    by (erule rel_bind) simp
  let ?c = "upd_rx (\<lambda>r. r\<lparr>packet := (packet r)\<lparr>len := len (packet r) - SFP_CRC_SIZE\<rparr>\<rparr>) c"
  have s': "S k (u, ?c) (v, ?c)" using s(3) by (auto simp: S_def)
  note nak = ret [OF same_opt [OF control_sim(1)]]
  show ?thesis
  proof (cases "len (packet (rx c)) < SFP_CRC_SIZE \<or> rx_crc (rx c) \<noteq> SFP_CRC_GOOD")
    case True
    then show ?thesis using nak [OF s(3)] nak [OF s'] by (auto simp: sfpHandleFrame_def s Let_def)
  next
    case False
    have usr: "rel_option (rel_ret same) (sfpHandleUSR E (u, ?c)) (sfpHandleUSR F (v, ?c))"
      if "getFrameType (header (rx c)) = SFP_FRAME_USR \<or> getFrameType (header (rx c)) = SFP_FRAME_RTX"
      using that assms(2) False ret [OF same_opt [OF control_sim(2) [OF s']]] ret [OF same_opt [OF control_sim(3) [OF s']]]
        ret [OF same_opt [OF control_sim(4) [OF s']]] nak [OF s'] S_same [OF s']
      by (cases "connectState c") (auto simp: sfpHandleUSR_def Let_def quiet_def s)
    show ?thesis
      using False usr ret [OF same_opt [OF nak_sim [OF s']]] ret [OF syn_sim [OF s']]
      by (cases "getFrameType (header (rx c))") (auto simp: sfpHandleFrame_def s Let_def)
  qed
qed

end

end
