(* ===== verification/Server_Lemmas.thy ===== *)
theory Server_Lemmas
  imports Server SFP_Sim
begin

text \<open>
  The server as a transport for the remote procedure calls: while the connection is up and fresh the callbacks of the
  framing protocol write to the port and change nothing else, so the interfaces \<open>sfp_sim\<close> and \<open>rpc_transport\<close> are the
  server's.
\<close>

section \<open>When a callback changes nothing\<close>

definition fresh_beat :: "('h, 'x) robot \<Rightarrow> bool" where
  "fresh_beat r \<longleftrightarrow> clock r - heartbeat (rpc r) \<le> 5000 \<and> clock r - timestamp (rpc r) \<le> 2147483647"

definition settled :: "SFPconnectstate \<Rightarrow> ('h, server_t) robot \<Rightarrow> bool" where
  "settled k r \<longleftrightarrow> (if server_state (periphery r) = serverStateConnected
     then k = SFP_CONNECT_STATE_CONNECTED \<and> fresh_beat r else k \<noteq> SFP_CONNECT_STATE_CONNECTED)"

lemma check_settled: "settled (connectState (snd s)) (fst s) \<Longrightarrow> serverCheckConnection s = s"
  by (cases "server_state (server_of s)")
    (auto simp: serverCheckConnection_def settled_def fresh_beat_def sfpIsConnected_def chTimeElapsedSince_def split: if_splits)

definition with_port :: "SerialDriver \<Rightarrow> ('h, server_t) robot \<Rightarrow> ('h, server_t) robot" where
  "with_port p r = r\<lparr>periphery := (periphery r)\<lparr>sd := Some p\<rparr>\<rparr>"

lemma with_port_simps [simp]:
  "sd (periphery (with_port p r)) = Some p" "with_port p (with_port p' r) = with_port p r" "rpc (with_port p r) = rpc r"
  "clock (with_port p r) = clock r" "server_state (periphery (with_port p r)) = server_state (periphery r)"
  "motors (with_port p r) = motors r" "user_params (with_port p r) = user_params r"
  "main_battery (with_port p r) = main_battery r" "backup_battery (with_port p r) = backup_battery r"
  by (simp_all add: with_port_def)

lemma settled_with_port [simp]: "settled k (with_port p r) = settled k r"
  by (simp add: settled_def fresh_beat_def)

text \<open>The robot \<open>r\<close> but for the output of its port; the log of the corresponding plain world is what the port sends.\<close>

definition port_base :: "('h, server_t) robot \<Rightarrow> octets \<Rightarrow> ('h, server_t) robot \<Rightarrow> sfp_log \<Rightarrow> bool" where
  "port_base r inp u v \<longleftrightarrow> (\<exists>p. u = with_port p r \<and> port_ok p \<and> sent p = wire v \<and> received p = inp)"

lemma settled_base: "port_base r inp u v \<Longrightarrow> settled k u = settled k r"
  by (auto simp: port_base_def)

section \<open>The host of a server\<close>

locale server_host = serial: serial_line "srv_serial env" for env :: "'h server_env"
begin

lemma write_loop:
  "port_ok p \<Longrightarrow> length octs < 2 ^ 32 \<Longrightarrow> \<exists>p'. serverWrite_loop (srv_serial env) octs k p = Some (k + length octs, p') \<and>
     port_ok p' \<and> sent p' = sent p @ octs \<and> iqueue p' = iqueue p"
proof (induction "length octs" arbitrary: octs k p rule: less_induct)
  case less
  show ?case
  proof (cases "octs = []")
    case True
    then show ?thesis using less.prems by (simp add: serverWrite_loop.simps)
  next
    case False
    let ?p = "at_sleep (srv_serial env) 2 p"
    have p: "port_ok ?p" "sent ?p = sent p" "iqueue ?p = iqueue p" using serial.sleep [OF less.prems(1)] by auto
    have "oq_inv (oqueue ?p)" "chQSizeI (oqueue ?p) = SERIAL_BUFFERS_SIZE" using p(1) by (simp_all add: port_ok_def)
    then have "\<not> chOQIsFullI (oqueue ?p)" using serial.progress [OF less.prems(1), of 2] oq_full by auto
    then obtain n p1 where n: "sdAsynchronousWrite (srv_serial env) octs (word_of_nat (length octs)) ?p = Some (n, p1)"
      "n \<le> length octs" "port_ok p1" "sent p1 = sent ?p @ take n octs" "iqueue p1 = iqueue ?p" "0 < n"
      using serial.async_write [OF p(1) False less.prems(2)] by auto
    have "length (drop n octs) < length octs" "length (drop n octs) < 2 ^ 32" using n(2,6) False less.prems(2) by auto
    from less.hyps [OF this(1) n(3) this(2), of "k + n"] show ?thesis
      using False n p by (subst serverWrite_loop.simps) auto
  qed
qed

lemma serverWrite_sends:
  assumes "port_base r inp u v" "settled (connectState c) u" "octs \<noteq> []" "length octs < 2 ^ 32"
  shows "\<exists>u'. serverWrite env octs (u, c) = Some (0, length octs, u', c) \<and> port_base r inp u' (log_send octs v)"
proof -
  obtain p where p: "u = with_port p r" "port_ok p" "sent p = wire v" "received p = inp"
    using assms(1) by (auto simp: port_base_def)
  obtain n p1 where n: "sdAsynchronousWrite (srv_serial env) octs (word_of_nat (length octs)) p = Some (n, p1)"
    "n \<le> length octs" "port_ok p1" "sent p1 = sent p @ take n octs" "iqueue p1 = iqueue p"
    using serial.async_write [OF p(2) assms(3,4)] by auto
  obtain p2 where p2: "serverWrite_loop (srv_serial env) (drop n octs) n p1 = Some (length octs, p2)" "port_ok p2"
    "sent p2 = sent p1 @ drop n octs" "iqueue p2 = iqueue p1"
    using write_loop [OF n(3), of "drop n octs" n] n(2) assms(4) less_imp_diff_less by auto
  have st: "settled (connectState c) (with_port p2 r)" using assms(2) p(1) by simp
  have "upd_server (\<lambda>v. v\<lparr>sd := Some p2\<rparr>) (u, c) = (with_port p2 r, c)"
    using p(1) by (simp add: upd_server_def with_port_def)
  then have "serverWrite env octs (u, c) = Some (0, length octs, with_port p2 r, c)"
    using n(1) p2(1) p(1) check_settled [of "(with_port p2 r, c)"] st by (simp add: serverWrite_def)
  moreover have "port_base r inp (with_port p2 r) (log_send octs v)"
    using p2 n p by (auto simp: port_base_def received_def)
  ultimately show ?thesis by blast
qed

lemma call_write:
  assumes "port_base r inp u v" "settled (connectState c) u" "octs \<noteq> []" "length octs \<le> 512"
  shows "\<exists>u' v'. call_serverWrite env SERVER_WRITE octs d (u, c) = Some (u', c) \<and>
    sfp_env.call_write log_env SERVER_WRITE octs d (v, c) = Some (v', c) \<and> port_base r inp u' v' \<and> settled (connectState c) u'"
proof -
  obtain u' where u': "serverWrite env octs (u, c) = Some (0, length octs, u', c)" "port_base r inp u' (log_send octs v)"
    using serverWrite_sends [OF assms(1-3)] assms(4) by auto
  then show ?thesis using settled_base [OF assms(1)] settled_base [OF u'(2)] assms(2)
    by (auto simp: call_serverWrite_def log_env_def)
qed

end

sublocale server_host \<subseteq> server_tx: sfp_sim "server_tx env" log_env "port_base r inp" settled SERVER_WRITE for r inp
  by unfold_locales (use call_write in \<open>force simp: server_tx_def\<close>)

sublocale server_host \<subseteq> server_io: sfp_sim "server_sfp env" log_env "port_base r inp" settled SERVER_WRITE for r inp
  by unfold_locales (use call_write in \<open>force simp: server_sfp_def\<close>)

section \<open>The server as a packet writer\<close>

definition server_live :: "'h server_st \<Rightarrow> bool" where
  "server_live s \<longleftrightarrow> server_state (server_of s) = serverStateConnected \<and> connectState (snd s) = SFP_CONNECT_STATE_CONNECTED \<and>
     fresh_beat (fst s) \<and> writePacket (rpc_of s) = Some SERVER_WRITE_PACKET \<and> tx_write (tx (snd s)) = Some SERVER_WRITE \<and>
     tx_inv (snd s) \<and> (\<exists>p. sd (server_of s) = Some p \<and> port_ok p)"

text \<open>A packet goes out as one data frame with the next sequence number, and is remembered for retransmission.\<close>

definition server_step :: "octets \<Rightarrow> server_t \<times> SFPcontext \<Rightarrow> server_t \<times> SFPcontext \<Rightarrow> bool" where
  "server_step octs v v' \<longleftrightarrow> (\<exists>p p'. sd (fst v) = Some p \<and> fst v' = (fst v)\<lparr>sd := Some p'\<rparr> \<and>
     sent p' = sent p @ frame (mkHeader (tx_seq (tx (snd v))) SFP_FRAME_USR) octs \<and> received p' = received p \<and> port_ok p' \<and>
     tx_seq (tx (snd v')) = nextSeq (tx_seq (tx (snd v))) \<and> hist (snd v') = keep_last 8 (hist (snd v) @ [octs]) \<and>
     rx (snd v') = rx (snd v) \<and> connectState (snd v') = connectState (snd v))"

lemma server_live_settled: "server_live s \<Longrightarrow> settled (connectState (snd s)) (fst s)"
  by (simp add: server_live_def settled_def)

lemma server_steps:
  "steps server_step os (x, c) (x', c') \<Longrightarrow> sd x = Some p \<Longrightarrow> port_ok p \<Longrightarrow>
   \<exists>p'. x' = x\<lparr>sd := Some p'\<rparr> \<and> port_ok p' \<and> sent p' = sent p @ data_frames SFP_FRAME_USR (tx_seq (tx c)) os \<and>
     received p' = received p \<and> tx_seq (tx c') = (nextSeq ^^ length os) (tx_seq (tx c)) \<and> rx c' = rx c \<and> connectState c' = connectState c"
proof (induction os arbitrary: x c p)
  case Nil
  then show ?case by (intro exI [of _ p]) simp
next
  case (Cons octs os)
  then obtain x1 c1 where 1: "server_step octs (x, c) (x1, c1)" "steps server_step os (x1, c1) (x', c')" by fastforce
  then obtain p1 where p1: "x1 = x\<lparr>sd := Some p1\<rparr>" "port_ok p1" "sent p1 = sent p @ frame (mkHeader (tx_seq (tx c)) SFP_FRAME_USR) octs"
    "received p1 = received p" "tx_seq (tx c1) = nextSeq (tx_seq (tx c))" "rx c1 = rx c" "connectState c1 = connectState c"
    using Cons.prems(2) by (auto simp: server_step_def)
  then have "sd x1 = Some p1" by simp
  from Cons.IH [OF 1(2) this p1(2)] p1 show ?case by (auto simp: funpow_swap1)
qed

context server_host
begin

lemma write_packet:
  assumes "server_live s" "length octs \<le> 254"
  shows "\<exists>k x c. serverWritePacket env octs (length octs) s = Some (0, k, (fst s)\<lparr>periphery := x\<rparr>, c) \<and>
    server_step octs (server_of s, snd s) (x, c) \<and> server_live ((fst s)\<lparr>periphery := x\<rparr>, c)"
proof -
  obtain r c where s: "s = (r, c)" by (cases s)
  obtain p where p: "sd (periphery r) = Some p" "port_ok p" using assms(1) by (auto simp: s server_live_def)
  have c: "tx_inv c" "tx_write (tx c) = Some SERVER_WRITE" "connectState c = SFP_CONNECT_STATE_CONNECTED"
    using assms(1) by (simp_all add: s server_live_def)
  let ?v = "\<lparr>wire = sent p, delivered = []\<rparr>" and ?f = "frame (mkHeader (tx_seq (tx c)) SFP_FRAME_USR) octs"
  have r: "with_port p r = r" using p(1) by (simp add: with_port_def)
  have "port_base r (received p) r ?v" using p r by (auto simp: port_base_def intro: exI [of _ p])
  moreover have "settled SFP_CONNECT_STATE_CONNECTED r" using server_live_settled [OF assms(1)] c(3) by (simp add: s)
  ultimately have S: "server_tx.S r (received p) SFP_CONNECT_STATE_CONNECTED (r, c) (?v, c)"
    using c by (simp add: server_tx.S_def tx_inv_def idle_def tx_ok_def)
  obtain c' where c': "sfpWritePacket log_env octs (length octs) (?v, c) = Some (0, length ?f, log_send ?f ?v, c')"
    "tx_inv c'" "tx_seq (tx c') = nextSeq (tx_seq (tx c))" "hist c' = keep_last 8 (hist c @ [octs])" "rx c' = rx c"
    "connectState c' = connectState c"
    using logged.write_packet [OF c(1), of octs ?v] assms(2) by auto
  obtain u' where u': "sfpWritePacket (server_tx env) octs (length octs) (r, c) = Some (0, length ?f, u', c')"
    "server_tx.S r (received p) SFP_CONNECT_STATE_CONNECTED (u', c') (log_send ?f ?v, c')"
    using server_tx.packet_sim [OF S, of octs "length octs"] c'(1)
    by (fastforce dest!: rel_SomeD simp: rel_prod_sel server_tx.S_def)
  then obtain p' where p': "u' = with_port p' r" "port_ok p'" "sent p' = sent p @ ?f" "received p' = received p"
    "tx_write (tx c') = Some SERVER_WRITE"
    by (auto simp: server_tx.S_def port_base_def)
  have "u' = r\<lparr>periphery := (periphery r)\<lparr>sd := Some p'\<rparr>\<rparr>" using p'(1) by (simp add: with_port_def)
  moreover have "server_live (u', c')"
    using assms(1) p' c' c by (simp add: s server_live_def fresh_beat_def)
  moreover have "server_step octs (periphery r, c) ((periphery r)\<lparr>sd := Some p'\<rparr>, c')"
    using p p' c' by (auto simp: server_step_def)
  ultimately show ?thesis using u'(1) by (auto simp: s serverWritePacket_def)
qed

lemma call_write_packet:
  assumes "server_live s" "n \<le> length b" "n \<le> 254"
  shows "\<exists>x c. call_writePacket (server_rpc env) SERVER_WRITE_PACKET b n s = Some ((fst s)\<lparr>periphery := x\<rparr>, c) \<and>
    server_step (take n b) (server_of s, snd s) (x, c) \<and> server_live ((fst s)\<lparr>periphery := x\<rparr>, c)"
proof -
  have "serverWritePacket env b n s = serverWritePacket env (take n b) (length (take n b)) s"
    using assms(2) by (simp add: serverWritePacket_def sfpWritePacket_def load_def min_def)
  moreover have "length (take n b) \<le> 254" using assms(3) by simp
  then obtain k x c where "serverWritePacket env (take n b) (length (take n b)) s = Some (0, k, (fst s)\<lparr>periphery := x\<rparr>, c)"
    "server_step (take n b) (server_of s, snd s) (x, c)" "server_live ((fst s)\<lparr>periphery := x\<rparr>, c)"
    using write_packet [OF assms(1)] by blast
  ultimately show ?thesis by (auto simp: server_rpc_def)
qed

end

sublocale server_host \<subseteq> transport: rpc_transport "server_rpc env" server_live server_step
proof
  fix s :: "('h, server_t, SFPcontext) rpc_state" and w n and b :: octets
  assume "server_live s" "writePacket (rpc_of s) = Some w" "n \<le> length b" "n \<le> 254"
  then show "\<exists>x c. call_writePacket (server_rpc env) w b n s = Some ((fst s)\<lparr>periphery := x\<rparr>, c) \<and>
      server_step (take n b) (server_of s, snd s) (x, c) \<and> server_live ((fst s)\<lparr>periphery := x\<rparr>, c)"
    using call_write_packet [of s n b] by (simp add: server_live_def)
qed (simp_all add: server_live_def fresh_beat_def upd_rpc_def)

section \<open>A host\<close>

text \<open>The robot's port, and nothing else going on: while the thread sleeps time passes and the port sends.\<close>

definition usart_host :: "'h flash_hw \<Rightarrow> 'h server_env" where
  "usart_host dev = \<lparr>srv_flash = dev, srv_serial = usart_env, create_thread = (\<lambda>_. 1),
     while_asleep = (\<lambda>ms s. ((fst s)\<lparr>clock := clock (fst s) + word_of_nat ms,
       periphery := (periphery (fst s))\<lparr>sd := map_option (at_sleep usart_env ms) (sd (periphery (fst s)))\<rparr>\<rparr>, snd s))\<rparr>"

interpretation usart_host: server_host "usart_host dev"
  using usart_line.serial_line_axioms by (simp add: server_host_def usart_host_def)

end
