(* ===== verification/Server_Properties.thy ===== *)
theory Server_Properties
  imports Server_Lemmas Rpc_Properties SFP_Properties
begin

text \<open>
  The server end to end: octets on the port in, octets on the port out. Requests are executed in order and answered in
  order, a peer connects with the handshake and is dropped when it falls silent.
\<close>

declare split_paired_Ex [simp del] split_paired_All [simp del]

section \<open>A connected server\<close>

definition server_ok :: "'h server_st \<Rightarrow> bool" where
  "server_ok s \<longleftrightarrow> server_live s \<and> scratch_ok s \<and> core_inv (core s)"

text \<open>Connected, between two frames, expecting the sequence number \<open>q\<close>.\<close>

definition server_up :: "SFPseq \<Rightarrow> 'h server_st \<Rightarrow> bool" where
  "server_up q s \<longleftrightarrow> server_ok s \<and> rx_ready q (snd s) \<and> deliver (rx (snd s)) = Some SERVER_READ"

text \<open>The state in which the message \<open>m\<close> reaches the remote procedure calls.\<close>

definition handed :: "SFPseq \<Rightarrow> message_any \<Rightarrow> 'h server_st \<Rightarrow> 'h server_st" where
  "handed q m s = upd_rpc (\<lambda>r. r\<lparr>in_msg := message_norm m\<rparr>)
     (fst s, upd_rx (\<lambda>r. r\<lparr>packet := (packet r)\<lparr>len := length (message_octets m)\<rparr>\<rparr>)
        (rx_frame (mkHeader q SFP_FRAME_USR) (message_octets m) (snd s)))"

lemma message_wf_norm: "message_wf m \<Longrightarrow> message_wf (message_norm m)"
  by (cases m) simp_all

lemma request_ok_norm: "request_ok r (message_norm m) = request_ok r m"
  by (cases m) simp_all

lemma handed_simps [simp]:
  "fst (handed q m s) = (fst s)\<lparr>rpc := (rpc_of s)\<lparr>in_msg := message_norm m\<rparr>\<rparr>" "tx (snd (handed q m s)) = tx (snd s)"
  "connectState (snd (handed q m s)) = connectState (snd s)"
  by (simp_all add: handed_def upd_rpc_def)

lemma hist_tx: "tx c' = tx c \<Longrightarrow> hist c' = hist c"
  by (simp add: hist_def)

lemma server_live_cong:
  "server_live s \<Longrightarrow> fst s' = fst s \<Longrightarrow> tx (snd s') = tx (snd s) \<Longrightarrow> connectState (snd s') = connectState (snd s) \<Longrightarrow> server_live s'"
  by (simp add: server_live_def tx_inv_def idle_def tx_ok_def)

lemma core_fst: "fst s' = fst s \<Longrightarrow> core s' = core s"
  by (simp add: core_def)

lemma server_ok_cong:
  assumes "server_ok s" "fst s' = fst s" "tx (snd s') = tx (snd s)" "connectState (snd s') = connectState (snd s)"
  shows "server_ok s'"
proof -
  have c: "core s' = core s" using assms(2) by (rule core_fst)
  have "server_live s'" using server_live_cong [of s s'] assms by (simp add: server_ok_def)
  then show ?thesis using assms(1,2) unfolding server_ok_def scratch_ok_def c by simp
qed

lemma server_ok_handed: "server_ok s \<Longrightarrow> server_ok (handed q m s)"
  by (simp add: server_ok_def server_live_def fresh_beat_def tx_inv_def idle_def tx_ok_def scratch_ok_def core_inv_def core_def)

lemma request_ok_handed: "request_ok (core (handed q m s)) m' = request_ok (core s) m'"
  by (cases m') (simp_all add: core_def)

text \<open>A frame whose handler calls \<open>serverRead\<close>, for any server that may reset the connection meanwhile.\<close>

lemma receive_message:
  assumes "rx_ready q (snd s)" "deliver (rx (snd s)) = Some SERVER_READ" "message_wf m" "message_getsizeof m \<le> 254"
  shows "sfpDeliverOctets (server_sfp env) (frame (mkHeader q SFP_FRAME_USR) (message_octets m)) s = do {
      s1 \<leftarrow> rpcRecv (server_rpc env) (message_norm m) (handed q m s);
      let s1 = serverCheckConnection s1;
      Some (fst s1, sfpResetReceiver (upd_rx (\<lambda>r. r\<lparr>rx_seq := nextSeq (rx_seq r)\<rparr>) (snd s1))) }"
proof -
  obtain r c where s: "s = (r, c)" by (cases s)
  let ?h = "mkHeader q SFP_FRAME_USR" and ?p = "message_octets m"
  let ?c = "upd_rx (\<lambda>r. r\<lparr>packet := (packet r)\<lparr>len := length ?p\<rparr>\<rparr>) (rx_frame ?h ?p c)"
  have len: "length ?p \<le> 254" using assms(3,4) by (simp add: length_message_octets)
  have q: "rx_fresh (rx c)" "rx_seq (rx c) = q" "unat q < 64" "connectState c = SFP_CONNECT_STATE_CONNECTED"
    "deliver (rx c) = Some SERVER_READ" using assms(1,2) by (simp_all add: rx_ready_def s)
  have read: "serverRead env ?p (r, ?c) = (rpcRecv (server_rpc env) (message_norm m) (handed q m s) \<bind> (\<lambda>s1. Some (serverCheckConnection s1)))"
    using deserialize_octets [OF assms(3), of "[]"] by (simp add: serverRead_def handed_def s)
  have "sfpHandleFrame (server_sfp env) (r, rx_frame ?h ?p c) = do {
      (u, c) \<leftarrow> serverRead env ?p (r, ?c); Some (1, u, upd_rx (\<lambda>r. r\<lparr>rx_seq := nextSeq (rx_seq r)\<rparr>) c) }"
    using q getFrameSeq_mkHeader [OF q(3)] getFrameType_mkHeader [OF q(3)] rx_frame_packet [OF q(1) len, of ?h]
    by (simp add: sfpHandleFrame_def SFP_CRC_SIZE_def sfpHandleUSR_def Let_def server_sfp_def)
  then show ?thesis
    using receive_frame [OF q(1) len, of "server_sfp env" ?h r] by (simp add: s read bind_assoc split_def Let_def)
qed

context server_host
begin

lemma ok_server: "transport.ok s = server_ok s"
  by (simp add: transport.ok_def server_ok_def)

lemma serve_request:
  assumes "server_up q s" "message_wf m" "message_getsizeof m \<le> 254" "request_ok (core s) m"
  shows "\<exists>s1 s' os. rpcRecv (server_rpc env) (message_norm m) (handed q m s) = Some s1 \<and> transport.sends os (handed q m s) s1 \<and>
    sfpDeliverOctets (server_sfp env) (frame (mkHeader q SFP_FRAME_USR) (message_octets m)) s = Some s' \<and>
    fst s' = fst s1 \<and> tx (snd s') = tx (snd s1) \<and> server_up (nextSeq q) s'"
proof -
  have up: "server_ok s" "rx_ready q (snd s)" "deliver (rx (snd s)) = Some SERVER_READ"
    using assms(1) by (simp_all add: server_up_def)
  have "transport.ok (handed q m s)" using server_ok_handed [OF up(1)] by (simp add: ok_server)
  then have "transport.fine (handed q m s) (rpcRecv (server_rpc env) (message_norm m) (handed q m s))"
    using assms(2,4) by (intro transport.fine_recv) (simp_all add: message_wf_norm request_ok_norm request_ok_handed)
  then obtain s1 os where s1: "rpcRecv (server_rpc env) (message_norm m) (handed q m s) = Some s1"
    "transport.sends os (handed q m s) s1" "core_inv (core s1)" by (auto simp: transport.fine_def)
  have live: "server_live s1" "scratch_ok s1" and st: "steps server_step os (server_of s, snd (handed q m s)) (server_of s1, snd s1)"
    using s1(2) by (simp_all add: transport.sends_def)
  obtain p where p: "sd (server_of s) = Some p" "port_ok p" using up(1) by (auto simp: server_ok_def server_live_def)
  have rx1: "rx (snd s1) = rx (snd (handed q m s))" "connectState (snd s1) = connectState (snd s)"
    using server_steps [OF st p] by auto
  let ?s' = "(fst s1, sfpResetReceiver (upd_rx (\<lambda>r. r\<lparr>rx_seq := nextSeq (rx_seq r)\<rparr>) (snd s1)))"
  have d: "sfpDeliverOctets (server_sfp env) (frame (mkHeader q SFP_FRAME_USR) (message_octets m)) s = Some ?s'"
    using receive_message [OF up(2,3) assms(2,3), of env] s1(1) check_settled [OF server_live_settled [OF live(1)]]
    by (simp add: Let_def)
  have "length (message_octets m) \<le> 254" using assms(2,3) by (simp add: length_message_octets)
  then have b: "length (buf (packet (rx (rx_frame (mkHeader q SFP_FRAME_USR) (message_octets m) (snd s))))) = 256"
    using length_rx_frame_buf up(2) by (simp add: rx_ready_def)
  have "rx_ready (nextSeq q) (snd ?s')"
    using up(2) rx1 b by (simp add: rx_ready_def nextSeq_range rx_fresh_reset handed_def upd_rpc_def)
  moreover have "deliver (rx (snd ?s')) = Some SERVER_READ"
    using up(3) rx1 by (simp add: handed_def upd_rpc_def)
  moreover have "server_ok ?s'"
    by (rule server_ok_cong [of s1]) (use live s1(3) in \<open>simp_all add: server_ok_def\<close>)
  ultimately have "server_up (nextSeq q) ?s'" by (simp add: server_up_def)
  then show ?thesis using s1(1,2) d by fastforce
qed

lemma data_frames_append:
  "data_frames t q (xs @ ys) = data_frames t q xs @ data_frames t ((nextSeq ^^ length xs) q) ys"
  by (induction xs arbitrary: q) (simp_all add: funpow_swap1)

lemma serve_requests:
  assumes "server_up q s" "\<forall>m\<in>set ms. served (Request m) \<and> message_getsizeof m \<le> 254" "sd (server_of s) = Some p"
  shows "\<exists>s' p' os. sfpDeliverOctets (server_sfp env) (data_frames SFP_FRAME_USR q (map message_octets ms)) s = Some s' \<and>
    server_up ((nextSeq ^^ length ms) q) s' \<and> sd (server_of s') = Some p' \<and>
    sent p' = sent p @ data_frames SFP_FRAME_USR (tx_seq (tx (snd s))) os \<and>
    tx_seq (tx (snd s')) = (nextSeq ^^ length os) (tx_seq (tx (snd s))) \<and> received p' = received p"
  using assms
proof (induction ms arbitrary: q s p)
  case Nil
  then show ?case by (intro exI [of _ s] exI [of _ p] exI [of _ "[]"]) simp
next
  case (Cons m ms)
  have m: "message_wf m" "message_getsizeof m \<le> 254" "request_ok (core s) m"
    using Cons.prems(2) by (cases m; auto)+
  obtain s1 s' os where s1: "transport.sends os (handed q m s) s1"
    "sfpDeliverOctets (server_sfp env) (frame (mkHeader q SFP_FRAME_USR) (message_octets m)) s = Some s'"
    "fst s' = fst s1" "tx (snd s') = tx (snd s1)" "server_up (nextSeq q) s'"
    using serve_request [OF Cons.prems(1) m] by blast
  have "port_ok p" using Cons.prems(1,3) by (auto simp: server_up_def server_ok_def server_live_def)
  moreover have "steps server_step os (server_of s, snd (handed q m s)) (server_of s', snd s1)"
    using s1(1,3) by (simp add: transport.sends_def)
  ultimately obtain p1 where p1: "sd (server_of s') = Some p1" "received p1 = received p"
    "sent p1 = sent p @ data_frames SFP_FRAME_USR (tx_seq (tx (snd s))) os"
    "tx_seq (tx (snd s')) = (nextSeq ^^ length os) (tx_seq (tx (snd s)))"
    using server_steps [of os "server_of s" "snd (handed q m s)" "server_of s'" "snd s1" p] Cons.prems(3) s1(4) by auto
  obtain s2 p2 os' where s2: "sfpDeliverOctets (server_sfp env) (data_frames SFP_FRAME_USR (nextSeq q) (map message_octets ms)) s' = Some s2"
    "server_up ((nextSeq ^^ length ms) (nextSeq q)) s2" "sd (server_of s2) = Some p2"
    "sent p2 = sent p1 @ data_frames SFP_FRAME_USR (tx_seq (tx (snd s'))) os'"
    "tx_seq (tx (snd s2)) = (nextSeq ^^ length os') (tx_seq (tx (snd s')))" "received p2 = received p1"
    using Cons.IH [OF s1(5) _ p1(1)] Cons.prems(2) by auto
  have "data_frames SFP_FRAME_USR (tx_seq (tx (snd s))) (os @ os') = data_frames SFP_FRAME_USR (tx_seq (tx (snd s))) os @
      data_frames SFP_FRAME_USR (tx_seq (tx (snd s'))) os'" unfolding p1(4) by (rule data_frames_append)
  then show ?case
    using s1(2) p1 s2
    by (intro exI [of _ s2] exI [of _ p2] exI [of _ "os @ os'"]) (simp add: sfpDeliverOctets_append funpow_swap1 funpow_add add.commute)
qed

end

context rpc_transport
begin

lemma recv_ping:
  assumes "ok s"
  shows "\<exists>s'. rpcRecv env (message_ping_frame k) s = Some s' \<and> sends [message_octets (message_pong_frame k)] s s' \<and>
    motors (fst s') = motors (fst s) \<and> heartbeat (rpc_of s') = clock (fst s) \<and> clock (fst s') = clock (fst s)"
proof -
  let ?m = "message_pong_frame k"
  let ?s = "upd_rpc (\<lambda>r. r\<lparr>seq_id := k, out_msg := ?m\<rparr>) s"
  have l: "live ?s" using assms by (intro live_upd_rpc) (simp_all add: ok_def)
  have sc: "scratch_ok ?s" using assms by (simp add: ok_def scratch_ok_def upd_rpc_def)
  obtain s1 where s1: "rpcSend env ?m ?s = Some (0, s1)" "sends [message_octets ?m] ?s s1" "core s1 = core ?s"
    using rpcSend_ok [OF l sc, of ?m] by (auto simp: message_pong_frame_def message_getsizeof_def)
  let ?s2 = "upd_rpc (\<lambda>r. r\<lparr>heartbeat := clock (fst s1)\<rparr>) s1"
  have "rpcRecv env (message_ping_frame k) s = Some ?s2"
    using s1(1) by (simp add: rpcRecv_def message_ping_frame_def rpcRecvPing_def Let_def void_def)
  moreover have "sends [message_octets ?m] s ?s2"
    using s1(2) live_beat [of s1] by (simp add: sends_def scratch_ok_def) (simp add: upd_rpc_def)
  ultimately show ?thesis using core_eqD(1,2) [OF s1(3)] by (simp add: upd_rpc_def)
qed

end

lemma recv_write_motors:
  assumes "unat n = length v" "even (length v)" "v \<noteq> []"
  shows "rpcRecv env (message_write_frame w MESSAGES_TOPIC_MOTOR MESSAGES_TOPIC_MOTOR_SUBTOPIC_ALL n v) s =
    Some (upd_rpc (\<lambda>r. r\<lparr>heartbeat := clock (fst s)\<rparr>) (upd_motors (write_motors v) s))"
proof -
  have n: "n \<noteq> 0" "n mod 2 = 0" "2 * unat (n div 2) = length v"
    using assms by (auto simp: unat_div unat_mod word_unat_eq_iff even_iff_mod_2_eq_zero)
  then show ?thesis
    by (simp add: rpcRecv_def message_write_frame_def rpcRecvWrite_def rpcRecvWriteMotor_def Let_def upd_motors_def)
qed

section \<open>Properties\<close>


text \<open>A server just connected, on the robot's port.\<close>

definition sample_server :: "stm32 server_st" where
  "sample_server =
     (\<lparr>rpc = sample_rpc\<lparr>writePacket := Some SERVER_WRITE_PACKET\<rparr>, clock = 100, motors = sample_motors, user_params = blank_flash,
        main_battery = 7200, backup_battery = 9000,
        periphery = \<lparr>sd = Some idle_port, server_state = serverStateConnected, serverThreadPointer = Some 1, serverThreadDeadTimer = 0\<rparr>\<rparr>,
      (sfpSetWriteCallback (Some SERVER_WRITE) SERVER_DATA (sfpSetDeliverCallback (Some SERVER_READ) SERVER_DATA
         (sfpInit raw_ctx)))\<lparr>connectState := SFP_CONNECT_STATE_CONNECTED\<rparr>)"

lemma sample_server_up: "server_up SFP_INITIAL_SEQ sample_server" "sd (server_of sample_server) = Some idle_port"
proof -
  let ?c = "sfpSetWriteCallback (Some SERVER_WRITE) SERVER_DATA (sfpSetDeliverCallback (Some SERVER_READ) SERVER_DATA (sfpInit raw_ctx))"
  have c: "fresh_link ?c" "deliver (rx ?c) = Some SERVER_READ" "tx_write (tx ?c) = Some SERVER_WRITE"
    using init_fresh [OF raw_memory] by blast+
  then have "rx_ready SFP_INITIAL_SEQ (?c\<lparr>connectState := SFP_CONNECT_STATE_CONNECTED\<rparr>)"
    by (intro fresh_link_ready) simp_all
  moreover have "tx_inv (?c\<lparr>connectState := SFP_CONNECT_STATE_CONNECTED\<rparr>)"
    using c(1) by (auto simp: fresh_link_def sfp_inv_def tx_inv_def idle_def tx_ok_def)
  ultimately show "server_up SFP_INITIAL_SEQ sample_server" using c idle_port_ok(1)
    by (simp add: server_up_def server_ok_def sample_server_def server_live_def fresh_beat_def scratch_ok_def core_inv_def sample_rpc_def
        sample_motors_def blank_flash_def)
qed (simp add: sample_server_def)


section \<open>Motors over the wire\<close>

context server_host
begin

lemma motors_then_ping:
  assumes "server_up q s" "sd (server_of s) = Some p" "unat n = length v" "even (length v)" "v \<noteq> []" "length v \<le> 248"
  shows "\<exists>s' p'. sfpDeliverOctets (server_sfp env) (data_frames SFP_FRAME_USR q
        [message_octets (message_write_frame w MESSAGES_TOPIC_MOTOR MESSAGES_TOPIC_MOTOR_SUBTOPIC_ALL n v),
         message_octets (message_ping_frame k)]) s = Some s' \<and>
    (\<forall>i\<in>{0..9}. vexMotorGet i (motors (fst s')) = commanded i v (vexMotorGet i (motors (fst s)))) \<and>
    sd (server_of s') = Some p' \<and>
    sent p' = sent p @ frame (mkHeader (tx_seq (tx (snd s))) SFP_FRAME_USR) (message_octets (message_pong_frame k)) \<and>
    heartbeat (rpc_of s') = clock (fst s') \<and> server_up (nextSeq (nextSeq q)) s'"
proof -
  let ?w = "message_write_frame w MESSAGES_TOPIC_MOTOR MESSAGES_TOPIC_MOTOR_SUBTOPIC_ALL n v" and ?k = "message_ping_frame k"
  have norm: "message_norm ?w = ?w" "message_norm ?k = ?k"
    using assms(3) by (simp_all add: message_write_frame_def message_ping_frame_def)
  have wf: "message_wf ?w" "message_getsizeof ?w \<le> 254" "message_wf ?k" "message_getsizeof ?k \<le> 254" "request_ok (core s) ?w"
    "request_ok r ?k" for r
    using assms(3,6) by (simp_all add: message_write_frame_def message_ping_frame_def message_getsizeof_def topic_defs)
  have wr: "rpcRecv (server_rpc env) (message_norm ?w) (handed q ?w s) =
      Some (upd_rpc (\<lambda>r. r\<lparr>heartbeat := clock (fst s)\<rparr>) (upd_motors (write_motors v) (handed q ?w s)))"
    unfolding norm using recv_write_motors [OF assms(3-5), of "server_rpc env" w "handed q ?w s"] by simp
  obtain s1 where s1: "sfpDeliverOctets (server_sfp env) (frame (mkHeader q SFP_FRAME_USR) (message_octets ?w)) s = Some s1"
    "fst s1 = fst (upd_rpc (\<lambda>r. r\<lparr>heartbeat := clock (fst s)\<rparr>) (upd_motors (write_motors v) (handed q ?w s)))"
    "tx (snd s1) = tx (snd (upd_rpc (\<lambda>r. r\<lparr>heartbeat := clock (fst s)\<rparr>) (upd_motors (write_motors v) (handed q ?w s))))"
    "server_up (nextSeq q) s1"
    using serve_request [OF assms(1) wf(1,2,5)] wr by (metis option.inject)
  have f1: "motors (fst s1) = write_motors v (motors (fst s))" "sd (server_of s1) = Some p" "tx (snd s1) = tx (snd s)"
    using s1(2,3) assms(2) by (simp_all add: upd_rpc_def upd_motors_def)
  have h: "transport.ok (handed (nextSeq q) ?k s1)"
    using s1(4) server_ok_handed [of s1 "nextSeq q" ?k] by (simp add: ok_server server_up_def)
  obtain t where t: "rpcRecv (server_rpc env) ?k (handed (nextSeq q) ?k s1) = Some t"
    "transport.sends [message_octets (message_pong_frame k)] (handed (nextSeq q) ?k s1) t"
    "motors (fst t) = motors (fst s1)" "heartbeat (rpc_of t) = clock (fst s1)" "clock (fst t) = clock (fst s1)"
    using transport.recv_ping [OF h, of k] by auto
  obtain s2 where s2: "sfpDeliverOctets (server_sfp env) (frame (mkHeader (nextSeq q) SFP_FRAME_USR) (message_octets ?k)) s1 = Some s2"
    "fst s2 = fst t" "tx (snd s2) = tx (snd t)" "server_up (nextSeq (nextSeq q)) s2"
    using serve_request [OF s1(4) wf(3,4,6)] t(1) norm(2) by (metis option.inject)
  have "port_ok p" using assms(1,2) by (auto simp: server_up_def server_ok_def server_live_def)
  then obtain p2 where p2: "sd (server_of s2) = Some p2" "sent p2 = sent p @
      frame (mkHeader (tx_seq (tx (snd s))) SFP_FRAME_USR) (message_octets (message_pong_frame k))"
    using server_steps [of "[message_octets (message_pong_frame k)]" "server_of s1" "snd (handed (nextSeq q) ?k s1)" "server_of t" "snd t" p]
      t(2) f1(2,3) s2(2) by (auto simp: transport.sends_def)
  have "length (vexMotors (motors (fst s))) = 10"
    using assms(1) by (simp add: server_up_def server_ok_def core_inv_def)
  then have m: "\<forall>i\<in>{0..9}. vexMotorGet i (motors (fst s2)) = commanded i v (vexMotorGet i (motors (fst s)))"
    using vexMotorGet_write_motors s2(2) t(3) f1(1) by auto
  have "heartbeat (rpc_of s2) = clock (fst s2)" using s2(2) t(4,5) by simp
  then show ?thesis using s1(1) s2 p2 m
    by (intro exI [of _ s2] exI [of _ p2]) (simp add: sfpDeliverOctets_append)
qed

end

text \<open>C17: Motors are commanded over the wire, and the command can be acknowledged: after the frames of a WRITE to all motors
  (any list of index and value pairs that fits a packet) and of a PING, the command of every port is the last value
  given for it, limited to -127, or the old one; exactly one packet has been written to the port, the PONG with the
  sequence id of the PING, in a frame with the next sequence number; and the heartbeat has been renewed.\<close>
theorem server_commands_motors:
  assumes "server_host env" "server_up q s" "sd (server_of s) = Some p" "unat n = length v" "even (length v)" "v \<noteq> []" "length v \<le> 248"
  shows "\<exists>s' p'. sfpDeliverOctets (server_sfp env) (data_frames SFP_FRAME_USR q
        [message_octets (message_write_frame w MESSAGES_TOPIC_MOTOR MESSAGES_TOPIC_MOTOR_SUBTOPIC_ALL n v),
         message_octets (message_ping_frame k)]) s = Some s' \<and>
    (\<forall>i\<in>{0..9}. vexMotorGet i (motors (fst s')) = commanded i v (vexMotorGet i (motors (fst s)))) \<and>
    sd (server_of s') = Some p' \<and>
    sent p' = sent p @ frame (mkHeader (tx_seq (tx (snd s))) SFP_FRAME_USR) (message_octets (message_pong_frame k)) \<and>
    heartbeat (rpc_of s') = clock (fst s') \<and> server_up (nextSeq (nextSeq q)) s'"
  using assms by (rule server_host.motors_then_ping)

theorem server_commands_motors_witness:
  "\<exists>s'. sfpDeliverOctets (server_sfp (usart_host stm32_hw)) (data_frames SFP_FRAME_USR SFP_INITIAL_SEQ
        [message_octets (message_write_frame 1 MESSAGES_TOPIC_MOTOR MESSAGES_TOPIC_MOTOR_SUBTOPIC_ALL 4 [3, 0x80, 3, 50]),
         message_octets (message_ping_frame 7)]) sample_server = Some s' \<and> vexMotorGet 3 (motors (fst s')) = 50"
proof -
  have v: "unat (4 :: u8) = length [3, 0x80, 3, 50 :: u8]" "even (length [3, 0x80, 3, 50 :: u8])" "[3, 0x80, 3, 50 :: u8] \<noteq> []"
    "length [3, 0x80, 3, 50 :: u8] \<le> 248" by simp_all
  have "commanded 3 [3, 0x80, 3, 50] c = 50" for c by (simp add: int8_of_def)
  with server_commands_motors [OF usart_host.server_host_axioms [of stm32_hw] sample_server_up v, of 1 7]
  show ?thesis by force
qed

section \<open>The thread\<close>

text \<open>The arrays of a server in memory, at the sizes they are declared with.\<close>

definition server_memory :: "'h server_st \<Rightarrow> bool" where
  "server_memory s \<longleftrightarrow> ctx_memory (snd s) \<and> scratch_ok s \<and> length (in_buf (rpc_of s)) = 256 \<and> length (motor (rpc_of s)) = 10 \<and>
     length (subs (rpc_of s)) = 10 \<and> length (vexMotors (motors (fst s))) = 10 \<and> length (data (params (user_params (fst s)))) = 32"

text \<open>A server that is not connected, its handshake being in state \<open>k\<close>.\<close>

definition server_down :: "SFPconnectstate \<Rightarrow> 'h server_st \<Rightarrow> bool" where
  "server_down k s \<longleftrightarrow> server_memory s \<and> server_state (server_of s) = serverStateDisconnected \<and> connectState (snd s) = k \<and>
     fresh_link (snd s) \<and> deliver (rx (snd s)) = Some SERVER_READ \<and> tx_write (tx (snd s)) = Some SERVER_WRITE \<and>
     writePacket (rpc_of s) = Some SERVER_WRITE_PACKET \<and> subs (rpc_of s) = replicate 10 no_sub \<and> ipv4 (rpc_of s) = replicate 4 0"

lemma reset_all: "length us = 10 \<Longrightarrow> map (\<lambda>u. no_sub) us = replicate 10 no_sub"
  by (simp add: map_replicate_const)

lemma fresh_link_memory: "fresh_link c \<Longrightarrow> ctx_memory c"
  by (simp add: fresh_link_def sfp_inv_def tx_inv_def idle_def tx_ok_def rx_inv_def ctx_memory_def hist_ok_def pot_inv_def)

lemma reset_down:
  assumes "server_memory s" "writePacket (rpc_of s) = Some SERVER_WRITE_PACKET"
  shows "server_down SFP_CONNECT_STATE_DISCONNECTED (serverReset s)"
proof -
  let ?c = "sfpSetWriteCallback (Some SERVER_WRITE) SERVER_DATA (sfpSetDeliverCallback (Some SERVER_READ) SERVER_DATA (sfpInit (snd s)))"
  have c: "fresh_link ?c" "connectState ?c = SFP_CONNECT_STATE_DISCONNECTED" "deliver (rx ?c) = Some SERVER_READ"
    "tx_write (tx ?c) = Some SERVER_WRITE"
    using init_fresh [of "snd s"] assms(1) by (simp_all add: server_memory_def)
  then show ?thesis using assms fresh_link_memory [OF c(1)]
    by (simp add: server_down_def serverReset_def Let_def)
      (simp add: server_memory_def upd_rpc_def upd_server_def scratch_ok_def reset_all)
qed

text \<open>What the thread has read is out of the port and in its buffer.\<close>

definition polled :: "SerialDriver \<Rightarrow> octets \<Rightarrow> 'h server_st \<Rightarrow> 'h server_st" where
  "polled p b s = upd_rpc (\<lambda>r. r\<lparr>in_buf := b\<rparr>) (upd_server (\<lambda>v. v\<lparr>sd := Some p\<rparr>)
     (upd_server (\<lambda>v. v\<lparr>serverThreadDeadTimer := clock (fst s)\<rparr>) s))"

lemma polled_simps [simp]:
  "snd (polled p b s) = snd s" "clock (fst (polled p b s)) = clock (fst s)" "motors (fst (polled p b s)) = motors (fst s)"
  "server_state (server_of (polled p b s)) = server_state (server_of s)" "sd (server_of (polled p b s)) = Some p"
  "rpc_of (polled p b s) = (rpc_of s)\<lparr>in_buf := b\<rparr>"
  by (simp_all add: polled_def upd_rpc_def upd_server_def)

lemma polled_memory [simp]: "length b = 256 \<Longrightarrow> server_memory s \<Longrightarrow> server_memory (polled p b s)"
  by (simp add: server_memory_def scratch_ok_def) (simp add: polled_def upd_rpc_def upd_server_def)

lemma polled_down: "length b = 256 \<Longrightarrow> server_down k s \<Longrightarrow> server_down k (polled p b s)"
  by (simp add: server_down_def)

context server_host
begin

lemma thread_step:
  assumes "sd (server_of s) = Some p" "port_ok p" "length (in_buf (rpc_of s)) = 256"
  shows "\<exists>p' b. serverThread_step env s = do {
      s1 \<leftarrow> sfpDeliverOctets (server_sfp env) (received p) (polled p' b s);
      let s1 = serverCheckConnection s1;
      s1 \<leftarrow> (if serverIsConnected s1 then rpcLoop (server_rpc env) s1 else Some s1);
      Some (while_asleep env 500 s1) } \<and>
    length b = 256 \<and> port_ok p' \<and> sent p' = sent p \<and> received p' = []"
proof -
  have l: "length (received p) \<le> 64"
    using assms(2) by (simp add: port_ok_def received_def iq_items_def iq_inv_def q_ok_def SERIAL_BUFFERS_SIZE_def)
  have n: "unat (word_of_nat SFP_CONFIG_MAX_PACKET_SIZE :: u32) = 256" "(word_of_nat SFP_CONFIG_MAX_PACKET_SIZE :: u32) \<noteq> 0"
    by (simp_all add: SFP_CONFIG_MAX_PACKET_SIZE_def)
  obtain p' where p': "sdAsynchronousRead (srv_serial env) (word_of_nat SFP_CONFIG_MAX_PACKET_SIZE) p = Some (received p, p')"
    "port_ok p'" "sent p' = sent p" "received p' = []"
    using serial.async_read [OF assms(2) n(2)] l n(1) by auto
  let ?b = "received p @ drop (length (received p)) (in_buf (rpc_of s))"
  have b: "memcpy (in_buf (rpc_of s)) 0 (received p) = Some ?b" "length ?b = 256"
    using assms(3) l by (simp_all add: memcpy_0)
  have "sd (server_of (upd_server (\<lambda>v. v\<lparr>serverThreadDeadTimer := clock (fst s)\<rparr>) s)) = Some p"
    "rpc_of (upd_server f s) = rpc_of s" for f
    using assms(1) by (simp_all add: upd_server_def)
  moreover have "upd_rpc (\<lambda>r. r\<lparr>in_buf := ?b\<rparr>) (upd_server (\<lambda>v. v\<lparr>sd := Some p'\<rparr>)
      (upd_server (\<lambda>v. v\<lparr>serverThreadDeadTimer := clock (fst s)\<rparr>) s)) = polled p' ?b s"
    by (simp add: polled_def upd_server_def)
  ultimately show ?thesis using p' b
    by (intro exI [of _ p'] exI [of _ ?b]) (simp add: serverThread_step_def Let_def)
qed

lemma syn_eq:
  assumes "rx_fresh (rx (snd s))" "q \<in> {SFP_SEQ_SYN0, SFP_SEQ_SYN1, SFP_SEQ_SYN2}"
  shows "sfpDeliverOctets e (syn_frame q) s =
    (sfpHandleSYN e (fst s, control_ctx (mkHeader q SFP_FRAME_SYN) (snd s)) \<bind> (\<lambda>s. Some (fst s, sfpResetReceiver (snd s))))"
proof -
  have "getFrameType (mkHeader q SFP_FRAME_SYN) = SFP_FRAME_SYN" using assms(2) getFrameSeq_syn by auto
  then show ?thesis using handle_syn_frame [OF assms(1), of e q "fst s"] by simp
qed

text \<open>Connection frames reach a server that is not connected as they reach a plain receiver.\<close>

lemma deliver_syn:
  assumes "server_io.S r inp k (r', c) (v, c)" "rx_fresh (rx c)" "q \<in> {SFP_SEQ_SYN0, SFP_SEQ_SYN1, SFP_SEQ_SYN2}"
  shows "rel_option (server_io.same r inp) (sfpDeliverOctets (server_sfp env) (syn_frame q) (r', c)) (sfpDeliverOctets log_env (syn_frame q) (v, c))"
proof -
  have h: "server_io.S r inp k (r', control_ctx (mkHeader q SFP_FRAME_SYN) c) (v, control_ctx (mkHeader q SFP_FRAME_SYN) c)"
    by (rule server_io.S_upd [OF assms(1)]) simp_all
  have e: "sfpDeliverOctets e (syn_frame q) (u, c) =
      (sfpHandleSYN e (u, control_ctx (mkHeader q SFP_FRAME_SYN) c) \<bind> (\<lambda>s. Some (fst s, sfpResetReceiver (snd s))))" for e u
    using syn_eq [of "(u, c)" q e] assms(2,3) by simp
  show ?thesis unfolding e by (rule rel_bind [OF server_io.syn_sim [OF h]]) (auto simp: server_io.same_def)
qed

lemma down_S:
  assumes "server_down k s" "k \<noteq> SFP_CONNECT_STATE_CONNECTED" "sd (server_of s) = Some p" "port_ok p"
  shows "server_io.S (fst s) (received p) k (fst s, snd s) (\<lparr>wire = sent p, delivered = []\<rparr>, snd s)"
proof -
  have "with_port p (fst s) = fst s" using assms(3) by (simp add: with_port_def)
  then have "port_base (fst s) (received p) (fst s) \<lparr>wire = sent p, delivered = []\<rparr>"
    using assms(4) by (auto simp: port_base_def intro: exI [of _ p])
  moreover have "length (writebuf (tx (snd s))) = 512" using assms(1) by (simp add: server_down_def server_memory_def ctx_memory_def)
  ultimately show ?thesis using assms(1,2) by (simp add: server_io.S_def server_down_def settled_def)
qed

lemma deliver_SYN0:
  assumes "server_down k s" "k \<noteq> SFP_CONNECT_STATE_CONNECTED" "sd (server_of s) = Some p" "port_ok p"
  shows "\<exists>p' c'. sfpDeliverOctets (server_sfp env) (syn_frame SFP_SEQ_SYN0) s = Some (with_port p' (fst s), c') \<and> port_ok p' \<and>
    sent p' = sent p @ syn_frame SFP_SEQ_SYN1 \<and> received p' = received p \<and>
    server_down SFP_CONNECT_STATE_SENT_SYN1 (with_port p' (fst s), c')"
proof -
  let ?v = "\<lparr>wire = sent p, delivered = []\<rparr>"
  have f: "sfp_inv (snd s)" "rx_fresh (rx (snd s))" using assms(1) by (simp_all add: server_down_def fresh_link_def)
  obtain c' where c': "sfpDeliverOctets log_env (syn_frame SFP_SEQ_SYN0) (?v, snd s) = Some (log_send (syn_frame SFP_SEQ_SYN1) ?v, c')"
    "fresh_link c'" "connectState c' = SFP_CONNECT_STATE_SENT_SYN1" "deliver (rx c') = deliver (rx (snd s))"
    using logged.receive_SYN0 [OF f, of ?v] by blast
  have "rel_option (server_io.same (fst s) (received p)) (sfpDeliverOctets (server_sfp env) (syn_frame SFP_SEQ_SYN0) (fst s, snd s))
     (sfpDeliverOctets log_env (syn_frame SFP_SEQ_SYN0) (?v, snd s))"
    by (rule deliver_syn [OF down_S [OF assms] f(2)]) simp
  then obtain u where u: "sfpDeliverOctets (server_sfp env) (syn_frame SFP_SEQ_SYN0) s = Some (u, c')"
    "port_base (fst s) (received p) u (log_send (syn_frame SFP_SEQ_SYN1) ?v)" "tx_write (tx c') = Some SERVER_WRITE"
    unfolding c'(1) by (auto dest!: rel_SomeD simp: server_io.same_def)
  then obtain p' where p': "u = with_port p' (fst s)" "port_ok p'" "sent p' = sent p @ syn_frame SFP_SEQ_SYN1" "received p' = received p"
    by (auto simp: port_base_def)
  then have "server_down SFP_CONNECT_STATE_SENT_SYN1 (with_port p' (fst s), c')"
    using assms(1) c'(2-4) u(3) fresh_link_memory [OF c'(2)] by (simp add: server_down_def server_memory_def scratch_ok_def)
  with u(1) p' show ?thesis by blast
qed

lemma deliver_SYN2:
  assumes "server_down SFP_CONNECT_STATE_SENT_SYN1 s" "sd (server_of s) = Some p" "port_ok p"
  shows "\<exists>c'. sfpDeliverOctets (server_sfp env) (syn_frame SFP_SEQ_SYN2) s = Some (fst s, c') \<and> fresh_link c' \<and>
    connectState c' = SFP_CONNECT_STATE_CONNECTED \<and> deliver (rx c') = Some SERVER_READ \<and> tx_write (tx c') = Some SERVER_WRITE"
proof -
  let ?c = "control_ctx (mkHeader SFP_SEQ_SYN2 SFP_FRAME_SYN) (snd s)"
  have f: "fresh_link (snd s)" "rx_fresh (rx (snd s))" "tx_seq (tx (snd s)) = SFP_INITIAL_SEQ"
    "connectState (snd s) = SFP_CONNECT_STATE_SENT_SYN1" using assms(1) by (simp_all add: server_down_def fresh_link_def)
  have "sfpHandleSYN (server_sfp env) (fst s, ?c) = Some (fst s, ?c\<lparr>connectState := SFP_CONNECT_STATE_CONNECTED\<rparr>)"
    using f by (simp add: sfpHandleSYN_def getFrameSeq_syn sfpHandleSYN2_def Let_def)
  then have "sfpDeliverOctets (server_sfp env) (syn_frame SFP_SEQ_SYN2) s =
      Some (fst s, sfpResetReceiver (?c\<lparr>connectState := SFP_CONNECT_STATE_CONNECTED\<rparr>))"
    using syn_eq [OF f(2), of SFP_SEQ_SYN2 "server_sfp env"] by simp
  moreover have "sfpResetReceiver (?c\<lparr>connectState := k\<rparr>) = (sfpResetReceiver ?c)\<lparr>connectState := k\<rparr>" for k
    by (simp add: sfpResetReceiver_def)
  ultimately show ?thesis using control_ctx_fresh [OF f(1)] assms(1) by (simp add: server_down_def)
qed

end

lemma check_connects:
  assumes "server_memory s" "length (ipv4 (rpc_of s)) = 4" "server_state (server_of s) = serverStateDisconnected"
    "writePacket (rpc_of s) = Some SERVER_WRITE_PACKET" "tx_write (tx (snd s)) = Some SERVER_WRITE" "tx_inv (snd s)"
    "rx_ready q (snd s)" "deliver (rx (snd s)) = Some SERVER_READ" "sd (server_of s) = Some p" "port_ok p"
  defines "t \<equiv> serverCheckConnection s"
  shows "server_up q t" "serverIsConnected t" "subs (rpc_of t) = replicate 10 no_sub" "sd (server_of t) = Some p" "snd t = snd s"
    "published (rpc_of t) = clock (fst t)" "sendstats (rpc_of t) = clock (fst t)" "serverCheckConnection t = t"
proof -
  have c: "connectState (snd s) = SFP_CONNECT_STATE_CONNECTED" using assms(7) by (simp add: rx_ready_def)
  have t: "t = upd_server (\<lambda>v. v\<lparr>server_state := serverStateConnected\<rparr>) (upd_rpc (\<lambda>r. r\<lparr>timestamp := clock (fst s),
      heartbeat := clock (fst s), published := clock (fst s), sendstats := clock (fst s), subs := map (\<lambda>u. no_sub) (subs r),
      cassette := 0xff, fp := NO_PARAM\<rparr>) s)"
    using assms(3) c by (simp add: t_def serverCheckConnection_def sfpIsConnected_def Let_def)
  show up: "server_up q t" using assms(1-10) c
    by (simp add: server_up_def server_ok_def server_live_def fresh_beat_def core_inv_def scratch_ok_def server_memory_def)
      (simp add: t upd_server_def upd_rpc_def)
  show "serverIsConnected t" "subs (rpc_of t) = replicate 10 no_sub" "sd (server_of t) = Some p" "snd t = snd s"
    "published (rpc_of t) = clock (fst t)" "sendstats (rpc_of t) = clock (fst t)"
    using assms(1,9) by (simp_all add: t upd_server_def upd_rpc_def serverIsConnected_def server_memory_def reset_all)
  show "serverCheckConnection t = t"
    using up by (intro check_settled server_live_settled) (simp add: server_up_def server_ok_def)
qed

lemma rpcLoop_idle: "published (rpc_of s) = clock (fst s) \<Longrightarrow> sendstats (rpc_of s) = clock (fst s) \<Longrightarrow> rpcLoop env s = Some s"
  by (simp add: rpcLoop_def chTimeElapsedSince_def RPC_PUB_TIMEOUT_def RPC_INFO_TIMEOUT_def)

lemma received_bound: "port_ok p \<Longrightarrow> length (received p) \<le> 64"
  by (simp add: port_ok_def received_def iq_items_def iq_inv_def q_ok_def SERIAL_BUFFERS_SIZE_def)

context server_host
begin

lemma handshake_begins:
  assumes "server_down k s" "k \<noteq> SFP_CONNECT_STATE_CONNECTED" "sd (server_of s) = Some p" "port_ok p" "received p = syn_frame SFP_SEQ_SYN0"
  shows "\<exists>t p'. serverThread_step env s = Some (while_asleep env 500 t) \<and> server_down SFP_CONNECT_STATE_SENT_SYN1 t \<and>
    sd (server_of t) = Some p' \<and> port_ok p' \<and> sent p' = sent p @ syn_frame SFP_SEQ_SYN1 \<and> received p' = []"
proof -
  have "length (in_buf (rpc_of s)) = 256" using assms(1) by (simp add: server_down_def server_memory_def)
  then obtain p1 b where st: "serverThread_step env s = do {
      s1 \<leftarrow> sfpDeliverOctets (server_sfp env) (received p) (polled p1 b s);
      let s1 = serverCheckConnection s1;
      s1 \<leftarrow> (if serverIsConnected s1 then rpcLoop (server_rpc env) s1 else Some s1);
      Some (while_asleep env 500 s1) }" "length b = 256" "port_ok p1" "sent p1 = sent p" "received p1 = []"
    using thread_step [OF assms(3,4)] by blast
  have d: "server_down k (polled p1 b s)" using polled_down [OF st(2) assms(1)] .
  obtain p' c' where 1: "sfpDeliverOctets (server_sfp env) (syn_frame SFP_SEQ_SYN0) (polled p1 b s) = Some (with_port p' (fst (polled p1 b s)), c')"
    "port_ok p'" "sent p' = sent p @ syn_frame SFP_SEQ_SYN1" "received p' = []"
    "server_down SFP_CONNECT_STATE_SENT_SYN1 (with_port p' (fst (polled p1 b s)), c')"
    using deliver_SYN0 [OF d assms(2) _ st(3)] st(4,5) by auto
  let ?t = "(with_port p' (fst (polled p1 b s)), c')"
  have n: "serverCheckConnection ?t = ?t" "\<not> serverIsConnected ?t"
    using 1(5) by (simp_all add: serverCheckConnection_def server_down_def sfpIsConnected_def serverIsConnected_def)
  show ?thesis
    by (rule exI [of _ ?t], rule exI [of _ p']) (simp add: st(1) assms(5) 1 n Let_def)
qed

lemma handshake_ends:
  assumes "server_down SFP_CONNECT_STATE_SENT_SYN1 s" "sd (server_of s) = Some p" "port_ok p" "received p = syn_frame SFP_SEQ_SYN2"
  shows "\<exists>t p'. serverThread_step env s = Some (while_asleep env 500 t) \<and> serverIsConnected t \<and> server_up SFP_INITIAL_SEQ t \<and>
    sd (server_of t) = Some p' \<and> sent p' = sent p \<and> tx_seq (tx (snd t)) = SFP_INITIAL_SEQ \<and> hist (snd t) = [] \<and>
    subs (rpc_of t) = replicate 10 no_sub"
proof -
  have "length (in_buf (rpc_of s)) = 256" using assms(1) by (simp add: server_down_def server_memory_def)
  then obtain p1 b where st: "serverThread_step env s = do {
      s1 \<leftarrow> sfpDeliverOctets (server_sfp env) (received p) (polled p1 b s);
      let s1 = serverCheckConnection s1;
      s1 \<leftarrow> (if serverIsConnected s1 then rpcLoop (server_rpc env) s1 else Some s1);
      Some (while_asleep env 500 s1) }" "length b = 256" "port_ok p1" "sent p1 = sent p" "received p1 = []"
    using thread_step [OF assms(2,3)] by blast
  have d: "server_down SFP_CONNECT_STATE_SENT_SYN1 (polled p1 b s)" using polled_down [OF st(2) assms(1)] .
  obtain c' where c': "sfpDeliverOctets (server_sfp env) (syn_frame SFP_SEQ_SYN2) (polled p1 b s) = Some (fst (polled p1 b s), c')"
    "fresh_link c'" "connectState c' = SFP_CONNECT_STATE_CONNECTED" "deliver (rx c') = Some SERVER_READ" "tx_write (tx c') = Some SERVER_WRITE"
    using deliver_SYN2 [OF d _ st(3)] by auto
  let ?s = "(fst (polled p1 b s), c')" let ?t = "serverCheckConnection ?s"
  have m: "server_memory ?s" using d fresh_link_memory [OF c'(2)] by (simp add: server_down_def server_memory_def scratch_ok_def)
  have l: "length (ipv4 (rpc_of ?s)) = 4" "server_state (server_of ?s) = serverStateDisconnected"
    "writePacket (rpc_of ?s) = Some SERVER_WRITE_PACKET" "tx_inv (snd ?s)" "rx_ready SFP_INITIAL_SEQ (snd ?s)" "sd (server_of ?s) = Some p1"
    using d c' fresh_link_ready [OF c'(2,3)] by (simp_all add: server_down_def fresh_link_def sfp_inv_def)
  note up = check_connects [OF m l(1-3) _ l(4,5) _ l(6) st(3), simplified snd_conv, OF c'(5,4)]
  have run: "rpcLoop (server_rpc env) ?t = Some ?t" using up(6,7) by (rule rpcLoop_idle)
  have "tx_seq (tx c') = SFP_INITIAL_SEQ" "hist c' = []" using c'(2) by (simp_all add: fresh_link_def)
  then show ?thesis
    by (intro exI [of _ ?t] exI [of _ p1]) (simp add: st(1,4) assms(4) c'(1) Let_def run up)
qed

end

lemma check_fields:
  assumes "server_state (server_of s) = serverStateDisconnected" "connectState (snd s) = SFP_CONNECT_STATE_CONNECTED"
    "length (subs (rpc_of s)) = 10"
  defines "t \<equiv> serverCheckConnection s"
  shows "serverIsConnected t" "subs (rpc_of t) = replicate 10 no_sub" "sd (server_of t) = sd (server_of s)" "snd t = snd s"
    "published (rpc_of t) = clock (fst t)" "sendstats (rpc_of t) = clock (fst t)" "settled SFP_CONNECT_STATE_CONNECTED (fst t)"
proof -
  have t: "t = upd_server (\<lambda>v. v\<lparr>server_state := serverStateConnected\<rparr>) (upd_rpc (\<lambda>r. r\<lparr>timestamp := clock (fst s),
      heartbeat := clock (fst s), published := clock (fst s), sendstats := clock (fst s), subs := map (\<lambda>u. no_sub) (subs r),
      cassette := 0xff, fp := NO_PARAM\<rparr>) s)"
    using assms(1,2) by (simp add: t_def serverCheckConnection_def sfpIsConnected_def Let_def)
  show "serverIsConnected t" "subs (rpc_of t) = replicate 10 no_sub" "sd (server_of t) = sd (server_of s)" "snd t = snd s"
    "published (rpc_of t) = clock (fst t)" "sendstats (rpc_of t) = clock (fst t)" "settled SFP_CONNECT_STATE_CONNECTED (fst t)"
    using assms(3) by (simp_all add: t upd_server_def upd_rpc_def serverIsConnected_def reset_all settled_def fresh_beat_def)
qed

lemma subscribe_first:
  assumes "subs (rpc_of s) = replicate 10 no_sub"
  shows "\<exists>u. rpcRecv env (message_subscribe_frame q t v) s =
    Some (upd_rpc (\<lambda>r. r\<lparr>heartbeat := clock (fst s)\<rparr>) (upd_sub 0 (\<lambda>_. u) s)) \<and> active u"
proof -
  have "rpcSubFree s = (10, Some 0)"
    using assms upt_conv_Cons [of 0 10] by (simp add: rpcSubFree_def Let_def sub_at_def no_sub_def RPC_SUB_MAX_def)
  then show ?thesis
    by (intro exI [of _ "\<lparr>active = True, sub_req_id = q, sub_topic = t, sub_subtopic = v\<rparr>"])
      (simp add: rpcRecv_def message_subscribe_frame_def rpcRecvSubscribe_def rpcSubFind_def Let_def upd_sub_def upd_rpc_def)
qed

context server_host
begin

lemma subscription_erased:
  assumes "server_down SFP_CONNECT_STATE_SENT_SYN1 s" "sd (server_of s) = Some p" "port_ok p"
    "received p = syn_frame SFP_SEQ_SYN2 @ frame (mkHeader SFP_INITIAL_SEQ SFP_FRAME_USR) (message_octets (message_subscribe_frame q t v))"
  shows "\<exists>s' p'. serverThread_step env s = Some (while_asleep env 500 s') \<and> serverIsConnected s' \<and>
    rx_seq (rx (snd s')) = nextSeq SFP_INITIAL_SEQ \<and> sd (server_of s') = Some p' \<and> sent p' = sent p \<and>
    (\<forall>u\<in>set (subs (rpc_of s')). \<not> active u)"
proof -
  let ?m = "message_subscribe_frame q t v"
  have "length (in_buf (rpc_of s)) = 256" using assms(1) by (simp add: server_down_def server_memory_def)
  then obtain p1 b where st: "serverThread_step env s = do {
      s1 \<leftarrow> sfpDeliverOctets (server_sfp env) (received p) (polled p1 b s);
      let s1 = serverCheckConnection s1;
      s1 \<leftarrow> (if serverIsConnected s1 then rpcLoop (server_rpc env) s1 else Some s1);
      Some (while_asleep env 500 s1) }" "length b = 256" "port_ok p1" "sent p1 = sent p"
    using thread_step [OF assms(2,3)] by blast
  have d: "server_down SFP_CONNECT_STATE_SENT_SYN1 (polled p1 b s)" using polled_down [OF st(2) assms(1)] .
  obtain c' where c': "sfpDeliverOctets (server_sfp env) (syn_frame SFP_SEQ_SYN2) (polled p1 b s) = Some (fst (polled p1 b s), c')"
    "fresh_link c'" "connectState c' = SFP_CONNECT_STATE_CONNECTED" "deliver (rx c') = Some SERVER_READ"
    using deliver_SYN2 [OF d _ st(3)] by auto
  let ?s = "(fst (polled p1 b s), c')" let ?h = "handed SFP_INITIAL_SEQ ?m ?s"
  have norm: "message_norm ?m = ?m" "message_wf ?m" "message_getsizeof ?m \<le> 254"
    by (simp_all add: message_subscribe_frame_def message_getsizeof_def)
  have h: "subs (rpc_of ?h) = replicate 10 no_sub" "server_state (server_of ?h) = serverStateDisconnected" "sd (server_of ?h) = Some p1"
    "connectState (snd ?h) = SFP_CONNECT_STATE_CONNECTED" "rx_seq (rx (snd ?h)) = SFP_INITIAL_SEQ"
    using d c'(2,3) by (simp_all add: server_down_def) (simp add: handed_def upd_rpc_def fresh_link_def)
  obtain u where u: "rpcRecv (server_rpc env) ?m ?h = Some (upd_rpc (\<lambda>r. r\<lparr>heartbeat := clock (fst ?h)\<rparr>) (upd_sub 0 (\<lambda>_. u) ?h))"
    using subscribe_first [OF h(1)] by blast
  let ?s1 = "upd_rpc (\<lambda>r. r\<lparr>heartbeat := clock (fst ?h)\<rparr>) (upd_sub 0 (\<lambda>_. u) ?h)"
  let ?t = "serverCheckConnection ?s1"
  have f: "server_state (server_of ?s1) = serverStateDisconnected" "connectState (snd ?s1) = SFP_CONNECT_STATE_CONNECTED"
    "length (subs (rpc_of ?s1)) = 10" "sd (server_of ?s1) = Some p1" "snd ?s1 = snd ?h"
    using h by (simp_all add: upd_sub_def) (simp_all add: upd_rpc_def)
  note t = check_fields [OF f(1-3), unfolded f(4,5)]
  let ?s2 = "(fst ?t, sfpResetReceiver (upd_rx (\<lambda>r. r\<lparr>rx_seq := nextSeq (rx_seq r)\<rparr>) (snd ?t)))"
  have "sfpDeliverOctets (server_sfp env) (received p) (polled p1 b s) = Some ?s2"
    using receive_message [of SFP_INITIAL_SEQ ?s ?m env] fresh_link_ready [OF c'(2,3)] c'(1,4) norm u
    by (simp add: assms(4) sfpDeliverOctets_append Let_def)
  moreover have "serverCheckConnection ?s2 = ?s2"
    using t(4,7) h(4) by (intro check_settled) simp
  moreover have "serverIsConnected ?s2" using t(1) by (simp add: serverIsConnected_def)
  moreover have "rpcLoop (server_rpc env) ?s2 = Some ?s2" using t(5,6) by (intro rpcLoop_idle) simp_all
  moreover have "rx_seq (rx (snd ?s2)) = nextSeq SFP_INITIAL_SEQ" using t(4) h(5) by simp
  ultimately show ?thesis using t(2,3)
    by (intro exI [of _ ?s2] exI [of _ p1]) (simp add: st(1,4) Let_def no_sub_def)
qed

text \<open>A peer that has been silent for more than five seconds is dropped.\<close>

lemma dropped:
  assumes "server_memory s" "server_state (server_of s) = serverStateConnected" "sd (server_of s) = Some p" "port_ok p" "received p = []"
    "writePacket (rpc_of s) = Some SERVER_WRITE_PACKET" "clock (fst s) - heartbeat (rpc_of s) > 5000"
  shows "\<exists>t p'. serverThread_step env s = Some (while_asleep env 500 t) \<and> server_down SFP_CONNECT_STATE_DISCONNECTED t \<and>
    sd (server_of t) = Some p' \<and> port_ok p' \<and> sent p' = sent p \<and> motors (fst t) = motors (fst s)"
proof -
  have "length (in_buf (rpc_of s)) = 256" using assms(1) by (simp add: server_memory_def)
  then obtain p1 b where st: "serverThread_step env s = do {
      s1 \<leftarrow> sfpDeliverOctets (server_sfp env) (received p) (polled p1 b s);
      let s1 = serverCheckConnection s1;
      s1 \<leftarrow> (if serverIsConnected s1 then rpcLoop (server_rpc env) s1 else Some s1);
      Some (while_asleep env 500 s1) }" "length b = 256" "port_ok p1" "sent p1 = sent p"
    using thread_step [OF assms(3,4)] by blast
  let ?t = "serverReset (polled p1 b s)"
  have c: "serverCheckConnection (polled p1 b s) = ?t"
    using assms(2,7) by (simp add: serverCheckConnection_def chTimeElapsedSince_def)
  have d: "server_down SFP_CONNECT_STATE_DISCONNECTED ?t"
    using assms(1,6) st(2) by (intro reset_down) simp_all
  then have "\<not> serverIsConnected ?t" by (simp add: server_down_def serverIsConnected_def)
  moreover have "sd (server_of ?t) = Some p1" "motors (fst ?t) = motors (fst s)"
    by (simp_all add: serverReset_def upd_server_def upd_rpc_def Let_def)
  ultimately show ?thesis using st d c assms(5)
    by (intro exI [of _ ?t] exI [of _ p1]) (simp add: Let_def)
qed

end

lemma setup_down:
  assumes "server_memory s"
  shows "\<exists>s0. serverInit (serverSetup (Some p) s) = Some s0 \<and> server_down SFP_CONNECT_STATE_DISCONNECTED s0 \<and>
    sd (server_of s0) = Some (sdStart p)"
proof -
  let ?s = "serverSetup (Some p) s"
  have m: "server_memory ?s" "writePacket (rpc_of ?s) = Some SERVER_WRITE_PACKET" "sd (server_of (serverReset ?s)) = Some p"
    using assms by (simp_all add: serverSetup_def upd_rpc_def upd_server_def server_memory_def scratch_ok_def serverReset_def Let_def)
  let ?init = "upd_server (\<lambda>v. v\<lparr>sd := Some (sdStart p)\<rparr>) (serverReset ?s)"
  have "server_down SFP_CONNECT_STATE_DISCONNECTED ?init"
    using reset_down [OF m(1,2)] by (simp add: server_down_def server_memory_def upd_server_def scratch_ok_def)
  moreover have "serverInit ?s = Some ?init" using m(3) by (simp add: serverInit_def Let_def)
  ultimately show ?thesis by (auto simp: upd_server_def)
qed

text \<open>C18: A peer connects: \<open>serverSetup\<close> and \<open>serverInit\<close> bring a server with any memory to rest, disconnected; the round of
  the thread that reads a SYN0 answers SYN1 and waits; the round that then reads a SYN2 leaves it connected, expecting
  the initial sequence number and about to send it, with an empty history, no subscription and a fresh heartbeat.\<close>
theorem server_connects:
  assumes "server_host env" "server_memory s" "sd (server_of s) = Some p" "port_ok p"
  shows "(\<exists>s0. serverInit (serverSetup (Some p) s) = Some s0 \<and> server_down SFP_CONNECT_STATE_DISCONNECTED s0 \<and>
      sd (server_of s0) = Some (sdStart p)) \<and>
    (server_down SFP_CONNECT_STATE_DISCONNECTED s \<and> received p = syn_frame SFP_SEQ_SYN0 \<longrightarrow>
      (\<exists>t p'. serverThread_step env s = Some (while_asleep env 500 t) \<and> server_down SFP_CONNECT_STATE_SENT_SYN1 t \<and>
        sd (server_of t) = Some p' \<and> port_ok p' \<and> sent p' = sent p @ syn_frame SFP_SEQ_SYN1 \<and> received p' = [])) \<and>
    (server_down SFP_CONNECT_STATE_SENT_SYN1 s \<and> received p = syn_frame SFP_SEQ_SYN2 \<longrightarrow>
      (\<exists>t p'. serverThread_step env s = Some (while_asleep env 500 t) \<and> serverIsConnected t \<and> server_up SFP_INITIAL_SEQ t \<and>
        sd (server_of t) = Some p' \<and> sent p' = sent p \<and> tx_seq (tx (snd t)) = SFP_INITIAL_SEQ \<and> hist (snd t) = [] \<and>
        subs (rpc_of t) = replicate 10 no_sub))"
  using setup_down [OF assms(2)] server_host.handshake_begins [OF assms(1) _ _ assms(3,4)]
    server_host.handshake_ends [OF assms(1) _ assms(3,4)] by blast

text \<open>A server between SYN1 and SYN2, its port holding the octets given.\<close>

definition port_with :: "octets \<Rightarrow> SerialDriver" where
  "port_with octs = idle_port\<lparr>iqueue := \<lparr>q_waiting = [], q_counter = length octs, q_buffer = octs @ replicate (64 - length octs) 0,
     q_wrptr = length octs mod 64, q_rdptr = 0\<rparr>\<rparr>"

lemma port_with:
  assumes "length octs \<le> 64"
  shows "port_ok (port_with octs)" "received (port_with octs) = octs" "sent (port_with octs) = []"
proof -
  show "port_ok (port_with octs)" "sent (port_with octs) = []"
    using assms idle_port_ok by (simp_all add: port_with_def port_ok_def iq_inv_def q_ok_def chQSizeI_def SERIAL_BUFFERS_SIZE_def sent_def)
  have "map (\<lambda>i. (octs @ replicate (64 - length octs) 0) ! (i mod 64)) [0..<length octs] = octs"
    using assms by (intro nth_equalityI) (auto simp: nth_append)
  then show "received (port_with octs) = octs"
    using assms by (simp add: port_with_def received_def iq_items_def q_items_def chQSizeI_def)
qed

definition waiting_server :: "octets \<Rightarrow> stm32 server_st" where
  "waiting_server octs = (let (r, c) = serverReset sample_server in
     (with_port (port_with octs) r, c\<lparr>connectState := SFP_CONNECT_STATE_SENT_SYN1\<rparr>))"

lemma sample_memory: "server_memory sample_server" "writePacket (rpc_of sample_server) = Some SERVER_WRITE_PACKET"
proof -
  have "fresh_link (snd sample_server)"
    using init_fresh [OF raw_memory] by (simp add: sample_server_def)
  then show "server_memory sample_server" "writePacket (rpc_of sample_server) = Some SERVER_WRITE_PACKET"
    using fresh_link_memory by (simp_all add: server_memory_def)
      (simp_all add: sample_server_def sample_rpc_def sample_motors_def blank_flash_def scratch_ok_def)
qed

lemma waiting_down:
  "server_down SFP_CONNECT_STATE_SENT_SYN1 (waiting_server octs)" "sd (server_of (waiting_server octs)) = Some (port_with octs)"
proof -
  have d: "server_down SFP_CONNECT_STATE_DISCONNECTED (serverReset sample_server)" using reset_down [OF sample_memory] .
  have w: "waiting_server octs = (with_port (port_with octs) (fst (serverReset sample_server)),
      (snd (serverReset sample_server))\<lparr>connectState := SFP_CONNECT_STATE_SENT_SYN1\<rparr>)" by (simp add: waiting_server_def split_def Let_def)
  show "server_down SFP_CONNECT_STATE_SENT_SYN1 (waiting_server octs)"
    using d unfolding w by (simp add: server_down_def server_memory_def ctx_memory_def scratch_ok_def)
  show "sd (server_of (waiting_server octs)) = Some (port_with octs)" unfolding w by simp
qed

lemma length_stuff: "length (stuff xs) \<le> 2 * length xs"
  by (induction xs) simp_all

lemma frame_lengths: "length (syn_frame SFP_SEQ_SYN2) \<le> 64"
  "length (syn_frame SFP_SEQ_SYN2 @ frame (mkHeader SFP_INITIAL_SEQ SFP_FRAME_USR) (message_octets (message_subscribe_frame 7 2 0xff))) \<le> 64"
  using length_stuff [of "mkHeader SFP_SEQ_SYN2 SFP_FRAME_SYN # crc_octets (crc_of [mkHeader SFP_SEQ_SYN2 SFP_FRAME_SYN])"]
    length_stuff [of "mkHeader SFP_INITIAL_SEQ SFP_FRAME_USR # message_octets (message_subscribe_frame 7 2 0xff) @
      crc_octets (crc_of (mkHeader SFP_INITIAL_SEQ SFP_FRAME_USR # message_octets (message_subscribe_frame 7 2 0xff)))"]
  by (simp_all add: frame_def crc_octets_def message_subscribe_frame_def del: stuff.simps)

theorem server_connects_witness:
  "\<exists>t. serverThread_step (usart_host stm32_hw) (waiting_server (syn_frame SFP_SEQ_SYN2)) =
     Some (while_asleep (usart_host stm32_hw) 500 t) \<and> serverIsConnected t \<and> server_up SFP_INITIAL_SEQ t"
proof -
  let ?s = "waiting_server (syn_frame SFP_SEQ_SYN2)"
  have "server_memory ?s" using waiting_down(1) by (simp add: server_down_def)
  from server_connects [OF usart_host.server_host_axioms [of stm32_hw] this waiting_down(2) port_with(1) [OF frame_lengths(1)]]
  show ?thesis using waiting_down(1) port_with(2) [OF frame_lengths(1)] by blast
qed

text \<open>A subscription sent right behind the last frame of the handshake is lost: when one round of the thread reads a SYN2
  and a SUBSCRIBE, the SUBSCRIBE is accepted (its sequence number is consumed, no error is sent), but only the check
  after it notices the connection, and clears the table it has just been entered in.\<close>
theorem server_drops_first_subscription:
  assumes "server_host env" "server_down SFP_CONNECT_STATE_SENT_SYN1 s" "sd (server_of s) = Some p" "port_ok p"
    "received p = syn_frame SFP_SEQ_SYN2 @ frame (mkHeader SFP_INITIAL_SEQ SFP_FRAME_USR) (message_octets (message_subscribe_frame q t v))"
  shows "\<exists>s' p'. serverThread_step env s = Some (while_asleep env 500 s') \<and> serverIsConnected s' \<and>
    rx_seq (rx (snd s')) = nextSeq SFP_INITIAL_SEQ \<and> sd (server_of s') = Some p' \<and> sent p' = sent p \<and>
    (\<forall>u\<in>set (subs (rpc_of s')). \<not> active u)"
  using assms by (rule server_host.subscription_erased)

theorem server_drops_first_subscription_witness:
  "\<exists>s'. serverThread_step (usart_host stm32_hw) (waiting_server (syn_frame SFP_SEQ_SYN2 @
       frame (mkHeader SFP_INITIAL_SEQ SFP_FRAME_USR) (message_octets (message_subscribe_frame 7 2 0xff)))) =
     Some (while_asleep (usart_host stm32_hw) 500 s') \<and> serverIsConnected s' \<and> (\<forall>u\<in>set (subs (rpc_of s')). \<not> active u)"
  using server_drops_first_subscription [OF usart_host.server_host_axioms [of stm32_hw] waiting_down port_with(1) [OF frame_lengths(2)]
    port_with(2) [OF frame_lengths(2)]] by blast

text \<open>C19: A peer silent for more than five seconds is dropped by the next round of the thread that reads nothing: the
  connection is back at rest, every subscription is gone, nothing is sent and the callbacks are in place for a new
  handshake. The motors keep the commands they have.\<close>
theorem server_drops_silent_peer:
  assumes "server_host env" "server_memory s" "serverIsConnected s" "sd (server_of s) = Some p" "port_ok p" "received p = []"
    "writePacket (rpc_of s) = Some SERVER_WRITE_PACKET" "clock (fst s) - heartbeat (rpc_of s) > 5000"
  shows "\<exists>t p'. serverThread_step env s = Some (while_asleep env 500 t) \<and> server_down SFP_CONNECT_STATE_DISCONNECTED t \<and>
    sd (server_of t) = Some p' \<and> port_ok p' \<and> sent p' = sent p \<and> motors (fst t) = motors (fst s)"
  using server_host.dropped [OF assms(1,2) _ assms(4-8)] assms(3) by (simp add: serverIsConnected_def)

theorem server_drops_silent_peer_witness:
  "\<exists>t. serverThread_step (usart_host stm32_hw) ((fst sample_server)\<lparr>clock := 6000\<rparr>, snd sample_server) =
     Some (while_asleep (usart_host stm32_hw) 500 t) \<and> server_down SFP_CONNECT_STATE_DISCONNECTED t"
proof -
  let ?s = "((fst sample_server)\<lparr>clock := 6000\<rparr>, snd sample_server)"
  have "server_memory ?s" "serverIsConnected ?s" "sd (server_of ?s) = Some idle_port" "writePacket (rpc_of ?s) = Some SERVER_WRITE_PACKET"
    "clock (fst ?s) - heartbeat (rpc_of ?s) > 5000"
    using sample_memory by (simp_all add: server_memory_def scratch_ok_def)
      (simp_all add: sample_server_def serverIsConnected_def sample_rpc_def)
  from server_drops_silent_peer [OF usart_host.server_host_axioms [of stm32_hw] this(1-3) idle_port_ok(1,2) this(4,5)]
  show ?thesis by blast
qed

end
