(* ===== verification/VexSpi.thy ===== *)
theory VexSpi
  imports VexMotor
begin

text \<open>
  The link to the master processor, \<open>src/convex/cortex/fw/vexspi.c\<close>, and what the program reads from it: the
  joysticks and the competition state, \<open>vexctl.c\<close>. The two packets of 32 octets are lists; the words received in
  one exchange are an argument. A plain \<open>char\<close> is unsigned on the target.
\<close>

section \<open>Data\<close>

datatype SpiData = SpiData (txdata: octets) (rxdata: octets) (rxdata_t: octets) (online: u16) (spi_errors: u32)

text \<open>The offsets of the named members in the two packets.\<close>

definition tx_state :: nat where "tx_state = 2"
definition tx_type :: nat where "tx_type = 5"
definition tx_motor :: nat where "tx_motor = 6"
definition tx_id :: nat where "tx_id = 31"
definition rx_status :: nat where "rx_status = 2"
definition rx_ctl :: nat where "rx_ctl = 3"
definition rx_batt1 :: nat where "rx_batt1 = 4"
definition rx_batt2 :: nat where "rx_batt2 = 5"
definition rx_js_1 :: nat where "rx_js_1 = 6"
definition rx_js_2 :: nat where "rx_js_2 = 18"

lemmas packet_offsets = tx_state_def tx_type_def tx_motor_def tx_id_def rx_status_def rx_ctl_def rx_batt1_def rx_batt2_def
  rx_js_1_def rx_js_2_def

record jsdata =
  js_Ch1 :: u8
  js_Ch2 :: u8
  js_Ch3 :: u8
  js_Ch4 :: u8
  acc_y :: u8
  acc_x :: u8
  acc_z :: u8
  btns0 :: u8
  btns1 :: u8

record spi_state =
  spi :: SpiData
  spiTeamName :: octets
  vexLocalCompState :: u16

definition tx_write :: "nat \<Rightarrow> u8 \<Rightarrow> SpiData \<Rightarrow> SpiData" where
  "tx_write i v d = SpiData ((txdata d)[i := v]) (rxdata d) (rxdata_t d) (online d) (spi_errors d)"

definition txInitData :: octets where
  "txInitData = [0x17, 0xC9, 0x02, 0x00, 0x00, 0x00, 0x7F, 0x7F, 0x7F, 0x7F, 0x7F, 0x7F, 0x7F, 0x7F,
     0, 0, 0, 0, 0, 0, 0, 0, 0, 0, 0, 0, 0, 0, 0, 0, 0x01, 0x00]"

section \<open>The link\<close>

definition vexSpiInit :: "spi_state \<Rightarrow> spi_state" where
  "vexSpiInit s = s\<lparr>spi := SpiData txInitData (rxdata (spi s)) (rxdata_t (spi s)) 0 (spi_errors (spi s))\<rparr>"

text \<open>Eight octets are taken from a string that ends with 0.\<close>

fun name_octets :: "nat \<Rightarrow> u8 \<Rightarrow> octets \<Rightarrow> octets" where
  "name_octets 0 fill name = []"
| "name_octets (Suc n) fill [] = fill # name_octets n fill []"
| "name_octets (Suc n) fill (c # cs) = (if c \<noteq> 0 then c # name_octets n fill cs else fill # name_octets n fill (c # cs))"

definition vexSpiTeamnameSet :: "octets \<Rightarrow> spi_state \<Rightarrow> spi_state" where
  "vexSpiTeamnameSet name s = s\<lparr>spiTeamName := name_octets 8 0 name @ drop 8 (spiTeamName s)\<rparr>"

definition vexSpiModeStandalone :: "spi_state \<Rightarrow> spi_state" where
  "vexSpiModeStandalone s = s\<lparr>spi := tx_write 3 0x01 (spi s)\<rparr>"

definition vexSpiGetOnlineStatus :: "spi_state \<Rightarrow> int" where
  "vexSpiGetOnlineStatus s = i16 (uint (online (spi s)))"

definition joystick_at :: "nat \<Rightarrow> octets \<Rightarrow> jsdata" where
  "joystick_at p rx = \<lparr>js_Ch1 = rx ! p, js_Ch2 = rx ! (p + 1), js_Ch3 = rx ! (p + 2), js_Ch4 = rx ! (p + 3),
     acc_y = rx ! (p + 4), acc_x = rx ! (p + 5), acc_z = rx ! (p + 6), btns0 = rx ! (p + 7), btns1 = rx ! (p + 8)\<rparr>"

definition vexSpiGetJoystickDataPtr :: "int \<Rightarrow> spi_state \<Rightarrow> jsdata" where
  "vexSpiGetJoystickDataPtr index s =
     (if index > 1 then joystick_at rx_js_2 (rxdata (spi s)) else joystick_at rx_js_1 (rxdata (spi s)))"

definition vexSpiGetControl :: "spi_state \<Rightarrow> u16" where
  "vexSpiGetControl s = ucast (rxdata (spi s) ! rx_ctl)"

definition SPI_BATTERY_SCALE :: u16 where "SPI_BATTERY_SCALE = 59"

definition vexSpiGetMainBattery :: "spi_state \<Rightarrow> u16" where
  "vexSpiGetMainBattery s = ucast (rxdata (spi s) ! rx_batt1) * SPI_BATTERY_SCALE"

definition vexSpiGetBackupBattery :: "spi_state \<Rightarrow> u16" where
  "vexSpiGetBackupBattery s = ucast (rxdata (spi s) ! rx_batt2) * SPI_BATTERY_SCALE"

definition vexSpiSetMotor :: "int \<Rightarrow> int \<Rightarrow> bool \<Rightarrow> spi_state \<Rightarrow> spi_state" where
  "vexSpiSetMotor index v rvsd s =
     (if index < 0 \<or> index > 7 then s
      else let m = (if v > 127 then 255 else if v < - 127 then 0 else word_of_int (v + 127)) :: u8
           in s\<lparr>spi := tx_write (tx_motor + nat index) (if \<not> rvsd then m else 255 - m) (spi s)\<rparr>)"

text \<open>The last part of \<open>vexSpiSend\<close>: what a received packet changes.\<close>

definition spi_receive :: "octets \<Rightarrow> spi_state \<Rightarrow> spi_state" where
  "spi_receive rx s =
     (let d = spi s;
          d = SpiData (txdata d) (rxdata d) rx (online d) (spi_errors d);
          d = tx_write tx_id (txdata d ! tx_id + 1) d
      in if rx ! 0 = 0x17 \<and> rx ! 1 = 0xC9 then
           (let d = SpiData (txdata d) rx rx (online d) (spi_errors d);
                status = rx ! rx_status;
                d = (if status AND 0x0F = 0x08 then SpiData (txdata d) rx rx 1 (spi_errors d) else d);
                d = (if (txdata d ! tx_state) AND 0x0E = 0x02 then
                       (let d = (if status AND 0x0F = 0x02 then tx_write tx_state 0x03 d else d);
                            d = (if status AND 0x0F = 0x03 then tx_write tx_type 0 (tx_write tx_state 0x08 d) else d)
                        in if status AND 0x0C \<noteq> 0x00 then tx_write tx_type 0 (tx_write tx_state 0x08 d) else d)
                     else d)
            in s\<lparr>spi := d\<rparr>)
         else s\<lparr>spi := SpiData (txdata d) (rxdata d) rx (online d) (spi_errors d + 1)\<rparr>)"

definition spi_team_name :: "spi_state \<Rightarrow> spi_state" where
  "spi_team_name s =
     (if txdata (spi s) ! tx_state = 0x03 then
        (let d = tx_write tx_type 0x55 (spi s)
         in s\<lparr>spi := SpiData (take tx_motor (txdata d) @ name_octets 8 0x20 (spiTeamName s) @ drop (tx_motor + 8) (txdata d))
                (rxdata d) (rxdata_t d) (online d) (spi_errors d)\<rparr>)
      else s)"

text \<open>One exchange: the packet sent, and the state after \<open>rx\<close> has been received.\<close>

definition vexSpiSend :: "octets \<Rightarrow> spi_state \<Rightarrow> octets \<times> spi_state" where
  "vexSpiSend rx s = (let s = spi_team_name s in (txdata (spi s), spi_receive rx s))"

section \<open>Competition state\<close>

definition kFlagCompetitionSwitch :: u16 where "kFlagCompetitionSwitch = 0x08"
definition kFlagAutonomousMode :: u16 where "kFlagAutonomousMode = 0x40"
definition kFlagDisabled :: u16 where "kFlagDisabled = 0x80"

lemmas flag_defs = kFlagCompetitionSwitch_def kFlagAutonomousMode_def kFlagDisabled_def

definition vexControllerCompetitionStateSet :: "u16 \<Rightarrow> u16 \<Rightarrow> spi_state \<Rightarrow> int \<times> spi_state" where
  "vexControllerCompetitionStateSet ctl m s =
     (if vexSpiGetControl s AND kFlagCompetitionSwitch = 0 then
        (1, s\<lparr>vexLocalCompState := (vexLocalCompState s AND NOT m) OR ((ctl AND m) AND (kFlagDisabled OR kFlagAutonomousMode))\<rparr>)
      else (0, s\<lparr>vexLocalCompState := 0\<rparr>))"

definition vexControllerCompetitonState :: "spi_state \<Rightarrow> u16 \<times> spi_state" where
  "vexControllerCompetitonState s =
     (let ctl = vexSpiGetControl s
      in if ctl AND kFlagCompetitionSwitch = 0 then (ctl OR vexLocalCompState s, s)
         else (ctl, s\<lparr>vexLocalCompState := 0\<rparr>))"

section \<open>Joysticks\<close>

datatype ctl_input = Ch1 | Ch2 | Ch3 | Ch4 | Btn8D | Btn8L | Btn8U | Btn8R | Btn7D | Btn7L | Btn7U | Btn7R | Btn5D | Btn5U
  | Btn6D | Btn6U | AcclX | AcclY | AcclZ | Btn5 | Btn6 | Btn7 | Btn8 | BtnAny

text \<open>A control of the first or of the second transmitter; an index of the C enumeration that names none reads 0.\<close>

datatype tCtlIndex = Xmtr1 ctl_input | Xmtr2 ctl_input

definition analog :: "u8 \<Rightarrow> int" where
  "analog c = (if c = 0xFF then 127 else uint c - 127)"

definition button :: "u8 \<Rightarrow> u8 \<Rightarrow> int" where
  "button b m = (if b AND m \<noteq> 0 then 1 else 0)"

fun js_get :: "jsdata \<Rightarrow> ctl_input \<Rightarrow> int" where
  "js_get js Ch1 = analog (js_Ch1 js)"
| "js_get js Ch2 = - analog (js_Ch2 js)"
| "js_get js Ch3 = - analog (js_Ch3 js)"
| "js_get js Ch4 = analog (js_Ch4 js)"
| "js_get js Btn8D = button (btns1 js) 0x01"
| "js_get js Btn8L = button (btns1 js) 0x02"
| "js_get js Btn8U = button (btns1 js) 0x04"
| "js_get js Btn8R = button (btns1 js) 0x08"
| "js_get js Btn7D = button (btns1 js) 0x10"
| "js_get js Btn7L = button (btns1 js) 0x20"
| "js_get js Btn7U = button (btns1 js) 0x40"
| "js_get js Btn7R = button (btns1 js) 0x80"
| "js_get js Btn5D = button (btns0 js) 0x01"
| "js_get js Btn5U = button (btns0 js) 0x02"
| "js_get js Btn6D = button (btns0 js) 0x04"
| "js_get js Btn6U = button (btns0 js) 0x08"
| "js_get js AcclX = uint (acc_x js) - 127"
| "js_get js AcclY = uint (acc_y js) - 127"
| "js_get js AcclZ = uint (acc_z js) - 127"
| "js_get js Btn5 = button (btns0 js) 0x03"
| "js_get js Btn6 = button (btns0 js) 0x0C"
| "js_get js Btn7 = button (btns1 js) 0xF0"
| "js_get js Btn8 = button (btns1 js) 0x0F"
| "js_get js BtnAny = (if btns0 js \<noteq> 0 \<or> btns1 js \<noteq> 0 then 1 else 0)"

fun vexControllerGet :: "tCtlIndex \<Rightarrow> spi_state \<Rightarrow> int" where
  "vexControllerGet (Xmtr1 c) s = js_get (vexSpiGetJoystickDataPtr 1 s) c"
| "vexControllerGet (Xmtr2 c) s = js_get (vexSpiGetJoystickDataPtr 2 s) c"

text \<open>
  Waiting for a release, at most 200 times 25 ms: \<open>states\<close> are the states at the 200 readings. The number of
  readings before the function returns.
\<close>

definition is_channel :: "ctl_input \<Rightarrow> bool" where
  "is_channel c \<longleftrightarrow> c = Ch1 \<or> c = Ch2 \<or> c = Ch3 \<or> c = Ch4"

fun vexControllerReleaseWait :: "ctl_input \<Rightarrow> spi_state list \<Rightarrow> nat" where
  "vexControllerReleaseWait c [] = 0"
| "vexControllerReleaseWait c (s # ss) =
     (if is_channel c then 0
      else if vexControllerGet (Xmtr1 c) s = 0 then 0
      else Suc (vexControllerReleaseWait c ss))"

section \<open>The system task\<close>

text \<open>One round of \<open>vexCortexSystemTask\<close>: the eight motors of the master processor, and one exchange.\<close>

definition vexCortexSystemTask_round :: "motor_state \<Rightarrow> octets \<Rightarrow> spi_state \<Rightarrow> octets \<times> spi_state" where
  "vexCortexSystemTask_round ms rx s =
     vexSpiSend rx (fold (\<lambda>m. vexSpiSetMotor m (vexMotorGet (m + 1) ms) (vexMotorDirectionGet (m + 1) ms)) [0..7] s)"


section \<open>Lemmas\<close>

lemma tx_write_sel [simp]: "txdata (tx_write i v d) = (txdata d)[i := v]" "rxdata (tx_write i v d) = rxdata d"
  "rxdata_t (tx_write i v d) = rxdata_t d" "online (tx_write i v d) = online d" "spi_errors (tx_write i v d) = spi_errors d"
  by (simp_all add: tx_write_def)

lemma length_name_octets [simp]: "length (name_octets n fill name) = n"
  by (induction n fill name rule: name_octets.induct) simp_all

text \<open>The octet that commands a motor.\<close>

definition motor_octet :: "int \<Rightarrow> bool \<Rightarrow> u8" where
  "motor_octet v rvsd = (if rvsd then word_of_int (128 - v) else word_of_int (v + 127))"

lemma set_motor_octet:
  assumes "0 \<le> i" "i < 8" "\<bar>v\<bar> \<le> 127"
  shows "vexSpiSetMotor i v r s = s\<lparr>spi := tx_write (tx_motor + nat i) (motor_octet v r) (spi s)\<rparr>"
proof -
  have "(255 :: u8) - word_of_int (v + 127) = word_of_int (128 - v)"
    by (simp flip: word_of_int_numeral add: of_int_diff [symmetric] of_int_add [symmetric] del: of_int_diff of_int_add of_int_numeral)
  then show ?thesis using assms by (simp add: vexSpiSetMotor_def motor_octet_def Let_def)
qed

lemma upto_8: "[0..7::int] = [0,1,2,3,4,5,6,7]"
  by (simp add: upto.simps)

definition motor_octets :: "motor_state \<Rightarrow> octets" where
  "motor_octets ms = map (\<lambda>i. motor_octet (vexMotorGet (int i + 1) ms) (vexMotorDirectionGet (int i + 1) ms)) [0..<8]"

lemma update_8:
  assumes "length xs = 32"
  shows "xs[6 := a0, 7 := a1, 8 := a2, 9 := a3, 10 := a4, 11 := a5, 12 := a6, 13 := a7]
    = take 6 xs @ [a0, a1, a2, a3, a4, a5, a6, a7] @ drop 14 xs"
proof (rule nth_equalityI)
  fix i assume "i < length (xs[6 := a0, 7 := a1, 8 := a2, 9 := a3, 10 := a4, 11 := a5, 12 := a6, 13 := a7])"
  then have i: "i < 32" using assms by simp
  show "xs[6 := a0, 7 := a1, 8 := a2, 9 := a3, 10 := a4, 11 := a5, 12 := a6, 13 := a7] ! i
    = (take 6 xs @ [a0, a1, a2, a3, a4, a5, a6, a7] @ drop 14 xs) ! i"
  proof (cases "i < 6 \<or> 14 \<le> i")
    case True
    then show ?thesis using assms i by (auto simp: nth_append)
  next
    case False
    then have "i = 6 \<or> i = 7 \<or> i = 8 \<or> i = 9 \<or> i = 10 \<or> i = 11 \<or> i = 12 \<or> i = 13" by arith
    then show ?thesis using assms by (elim disjE) (simp_all add: nth_append)
  qed
qed (use assms in simp)

definition with_motors :: "motor_state \<Rightarrow> spi_state \<Rightarrow> spi_state" where
  "with_motors ms s = fold (\<lambda>m. vexSpiSetMotor m (vexMotorGet (m + 1) ms) (vexMotorDirectionGet (m + 1) ms)) [0..7] s"

lemma with_motors:
  assumes "motors_ok (vexMotors ms)"
  shows "length (txdata (spi s)) = 32 \<Longrightarrow>
      txdata (spi (with_motors ms s)) = take 6 (txdata (spi s)) @ motor_octets ms @ drop 14 (txdata (spi s))"
    and "rxdata (spi (with_motors ms s)) = rxdata (spi s)" "online (spi (with_motors ms s)) = online (spi s)"
    "spiTeamName (with_motors ms s) = spiTeamName s" "vexLocalCompState (with_motors ms s) = vexLocalCompState s"
proof -
  have "\<bar>vexMotorGet i ms\<bar> \<le> 127" if "1 \<le> i" "i \<le> 8" for i using motors_ok_get [OF assms, of i] that by simp
  then have e: "with_motors ms s = s\<lparr>spi := fold (\<lambda>i. tx_write (6 + i) (motor_octet (vexMotorGet (int i + 1) ms)
      (vexMotorDirectionGet (int i + 1) ms))) [0..<8] (spi s)\<rparr>"
    by (simp add: with_motors_def upto_8 set_motor_octet tx_motor_def upt_rec)
  show "rxdata (spi (with_motors ms s)) = rxdata (spi s)" "online (spi (with_motors ms s)) = online (spi s)"
    "spiTeamName (with_motors ms s) = spiTeamName s" "vexLocalCompState (with_motors ms s) = vexLocalCompState s"
    unfolding e by (simp_all add: upt_rec)
  show "txdata (spi (with_motors ms s)) = take 6 (txdata (spi s)) @ motor_octets ms @ drop 14 (txdata (spi s))"
    if "length (txdata (spi s)) = 32"
    unfolding e motor_octets_def by (simp add: upt_rec update_8 [OF that])
qed

section \<open>The packets sent\<close>

definition tx_inv :: "u8 \<Rightarrow> spi_state \<Rightarrow> bool" where
  "tx_inv n s \<longleftrightarrow> (let t = txdata (spi s) in length t = 32 \<and> t ! 0 = 0x17 \<and> t ! 1 = 0xC9 \<and> t ! 31 = n \<and>
     (t ! 2 = 2 \<and> t ! 5 = 0 \<or> t ! 2 = 3 \<and> t ! 5 \<in> {0, 0x55} \<or> t ! 2 = 8 \<and> t ! 5 = 0))"

text \<open>What one packet carries: the team name while the master asks for it, the eight motors otherwise.\<close>

definition packet_ok :: "u8 \<Rightarrow> octets \<Rightarrow> motor_state \<Rightarrow> octets \<Rightarrow> bool" where
  "packet_ok n name ms p \<longleftrightarrow> length p = 32 \<and> p ! 0 = 0x17 \<and> p ! 1 = 0xC9 \<and> p ! 31 = n \<and>
     (if p ! 2 = 3 then p ! 5 = 0x55 \<and> take 8 (drop 6 p) = name_octets 8 0x20 name
      else p ! 2 \<in> {2, 8} \<and> p ! 5 = 0 \<and> take 8 (drop 6 p) = motor_octets ms)"

lemma length_motor_octets [simp]: "length (motor_octets ms) = 8"
  by (simp add: motor_octets_def)

lemma and_masks_8: "(2 :: u8) AND 0x0E = 0x02" "(3 :: u8) AND 0x0E = 0x02" "(8 :: u8) AND 0x0E = 0x08"
  by simp_all

lemma receive_inv:
  assumes "tx_inv n s" "txdata (spi s) ! 2 = 3 \<longrightarrow> txdata (spi s) ! 5 = 0x55"
  shows "tx_inv (n + 1) (spi_receive rx s) \<and> (txdata (spi s) ! 2 = 8 \<longrightarrow> txdata (spi (spi_receive rx s)) ! 2 = 8) \<and>
    spiTeamName (spi_receive rx s) = spiTeamName s"
  using assms by (auto simp: tx_inv_def spi_receive_def Let_def packet_offsets and_masks_8)

lemma motors_inv:
  assumes "tx_inv n s" "motors_ok (vexMotors ms)"
  shows "tx_inv n (with_motors ms s) \<and> txdata (spi (with_motors ms s)) ! 2 = txdata (spi s) ! 2 \<and>
    take 8 (drop 6 (txdata (spi (with_motors ms s)))) = motor_octets ms"
  using with_motors(1) [OF assms(2), of s] assms(1) by (simp add: tx_inv_def Let_def nth_append)

lemma team_name_inv:
  assumes "tx_inv n s" "take 8 (drop 6 (txdata (spi s))) = motor_octets ms"
  shows "tx_inv n (spi_team_name s) \<and> packet_ok n (spiTeamName s) ms (txdata (spi (spi_team_name s))) \<and>
    txdata (spi (spi_team_name s)) ! 2 = txdata (spi s) ! 2 \<and> spiTeamName (spi_team_name s) = spiTeamName s"
  using assms by (auto simp: tx_inv_def packet_ok_def spi_team_name_def Let_def packet_offsets nth_append)

lemma system_round:
  assumes "tx_inv n s" "motors_ok (vexMotors ms)"
  shows "let (p, t) = vexCortexSystemTask_round ms rx s in
     packet_ok n (spiTeamName s) ms p \<and> p ! 2 = txdata (spi s) ! 2 \<and> tx_inv (n + 1) t \<and>
     (p ! 2 = 8 \<longrightarrow> txdata (spi t) ! 2 = 8) \<and> spiTeamName t = spiTeamName s"
proof -
  let ?m = "with_motors ms s" let ?t = "spi_team_name ?m"
  have m: "tx_inv n ?m" "take 8 (drop 6 (txdata (spi ?m))) = motor_octets ms" "txdata (spi ?m) ! 2 = txdata (spi s) ! 2"
    using motors_inv [OF assms] by simp_all
  have t: "tx_inv n ?t" "packet_ok n (spiTeamName s) ms (txdata (spi ?t))" "txdata (spi ?t) ! 2 = txdata (spi s) ! 2"
    "spiTeamName ?t = spiTeamName s"
    using team_name_inv [OF m(1,2)] m(3) with_motors(4) [OF assms(2), of s] by simp_all
  have "txdata (spi ?t) ! 2 = 3 \<longrightarrow> txdata (spi ?t) ! 5 = 0x55" using t(2) by (simp add: packet_ok_def)
  from receive_inv [OF t(1) this, of rx] t(2-4) show ?thesis
    by (simp add: vexCortexSystemTask_round_def vexSpiSend_def Let_def with_motors_def)
qed

text \<open>Rounds of the system task: the motors at each, and what is received.\<close>

fun system_rounds :: "(motor_state \<times> octets) list \<Rightarrow> spi_state \<Rightarrow> octets list \<times> spi_state" where
  "system_rounds [] s = ([], s)"
| "system_rounds ((ms, rx) # rs) s =
     (let (p, t) = vexCortexSystemTask_round ms rx s; (ps, u) = system_rounds rs t in (p # ps, u))"

lemma system_rounds_inv:
  assumes "tx_inv n s" "\<forall>(ms, rx)\<in>set rs. motors_ok (vexMotors ms)"
  shows "length (fst (system_rounds rs s)) = length rs \<and>
    (\<forall>k<length rs. packet_ok (n + of_nat k) (spiTeamName s) (fst (rs ! k)) (fst (system_rounds rs s) ! k)) \<and>
    (txdata (spi s) ! 2 = 8 \<longrightarrow> (\<forall>k<length rs. fst (system_rounds rs s) ! k ! 2 = 8)) \<and>
    (\<forall>k j. k \<le> j \<and> j < length rs \<and> fst (system_rounds rs s) ! k ! 2 = 8 \<longrightarrow> fst (system_rounds rs s) ! j ! 2 = 8)"
  using assms
proof (induction rs arbitrary: n s)
  case (Cons r rs)
  obtain ms rx where r: "r = (ms, rx)" by (cases r)
  obtain p t where pt: "vexCortexSystemTask_round ms rx s = (p, t)" by (meson surj_pair)
  obtain ps u where ps: "system_rounds rs t = (ps, u)" by (meson surj_pair)
  have h: "packet_ok n (spiTeamName s) ms p" "p ! 2 = txdata (spi s) ! 2" "tx_inv (n + 1) t"
      "p ! 2 = 8 \<longrightarrow> txdata (spi t) ! 2 = 8" "spiTeamName t = spiTeamName s"
    using system_round [OF Cons.prems(1), of ms rx] Cons.prems(2) r pt by auto
  have ih: "length ps = length rs" "\<forall>k<length rs. packet_ok (n + 1 + of_nat k) (spiTeamName s) (fst (rs ! k)) (ps ! k)"
      "txdata (spi t) ! 2 = 8 \<longrightarrow> (\<forall>k<length rs. ps ! k ! 2 = 8)"
      "\<forall>k j. k \<le> j \<and> j < length rs \<and> ps ! k ! 2 = 8 \<longrightarrow> ps ! j ! 2 = 8"
    using Cons.IH [OF h(3)] Cons.prems(2) ps h(5) by auto
  have e: "fst (system_rounds (r # rs) s) = p # ps" using r pt ps by simp
  show ?case unfolding e
  proof (intro conjI allI impI)
    fix k assume "k < length (r # rs)"
    then show "packet_ok (n + of_nat k) (spiTeamName s) (fst ((r # rs) ! k)) ((p # ps) ! k)"
      using h(1) ih(2) r by (cases k) (auto simp: add.assoc)
  next
    fix k assume "txdata (spi s) ! 2 = 8" "k < length (r # rs)"
    then show "(p # ps) ! k ! 2 = 8" using h(2,4) ih(3) by (cases k) auto
  next
    fix k j assume "k \<le> j \<and> j < length (r # rs) \<and> (p # ps) ! k ! 2 = 8"
    then have a: "k \<le> j" "j < length (r # rs)" "(p # ps) ! k ! 2 = 8" by auto
    show "(p # ps) ! j ! 2 = 8"
    proof (cases k)
      case 0
      then have "p ! 2 = 8" using a(3) by simp
      then show ?thesis using h(4) ih(3) a(2) by (cases j) simp_all
    next
      case (Suc k')
      then obtain j' where "j = Suc j'" using a(1) by (cases j) auto
      then show ?thesis using Suc a ih(4) by (metis Suc_le_mono Suc_less_eq length_Cons nth_Cons_Suc)
    qed
  qed (use ih(1) in simp)
qed simp

text \<open>C24: Every packet the cortex sends to the master processor is well formed, whatever the master answers: the two header
  octets, a sequence number one higher than the last, and either, while the master asks for it, the team name with its
  type, or the eight motor commands with type 0, never one in place of the other; and from the first packet of normal
  transmission on (state 8), every packet carries the motors.\<close>

theorem spi_packets_wellformed:
  assumes "\<forall>(ms, rx)\<in>set rs. motors_ok (vexMotors ms)"
  shows "(let ps = fst (system_rounds rs (vexSpiInit s)) in
     length ps = length rs \<and>
     (\<forall>k<length rs. packet_ok (of_nat k) (spiTeamName s) (fst (rs ! k)) (ps ! k)) \<and>
     (\<forall>k j. k \<le> j \<and> j < length rs \<and> ps ! k ! 2 = 8 \<longrightarrow> take 8 (drop 6 (ps ! j)) = motor_octets (fst (rs ! j))))"
proof -
  have "tx_inv 0 (vexSpiInit s)" by (simp add: tx_inv_def vexSpiInit_def txInitData_def)
  from system_rounds_inv [OF this assms] show ?thesis
    by (auto simp: Let_def packet_ok_def vexSpiInit_def split: if_splits)
qed

section \<open>What is read\<close>

lemma receive_rx: "rxdata (spi (spi_receive rx s)) = (if rx ! 0 = 0x17 \<and> rx ! 1 = 0xC9 then rx else rxdata (spi s)) \<and>
    vexLocalCompState (spi_receive rx s) = vexLocalCompState s"
  by (simp add: spi_receive_def Let_def)

definition good_packet :: "octets \<Rightarrow> bool" where
  "good_packet rx \<longleftrightarrow> rx ! 0 = 0x17 \<and> rx ! 1 = 0xC9"

lemma round_rx:
  assumes "motors_ok (vexMotors ms)"
  shows "rxdata (spi (snd (vexCortexSystemTask_round ms rx s))) = (if good_packet rx then rx else rxdata (spi s))"
  using receive_rx [of rx "spi_team_name (with_motors ms s)"] with_motors(2) [OF assms, of s]
  by (simp add: vexCortexSystemTask_round_def vexSpiSend_def Let_def with_motors_def good_packet_def spi_team_name_def)

lemma rounds_rx:
  assumes "\<forall>(ms, rx)\<in>set rs. motors_ok (vexMotors ms)"
  shows "rxdata (spi (snd (system_rounds rs s))) = last (rxdata (spi s) # filter good_packet (map snd rs))"
  using assms
proof (induction rs arbitrary: s)
  case (Cons r rs)
  obtain ms rx where r: "r = (ms, rx)" by (cases r)
  obtain p t where pt: "vexCortexSystemTask_round ms rx s = (p, t)" by (meson surj_pair)
  have "rxdata (spi t) = (if good_packet rx then rx else rxdata (spi s))"
    using round_rx [of ms rx s] Cons.prems r pt by simp
  then show ?case using Cons.IH [of t] Cons.prems r pt by (auto simp: case_prod_unfold Let_def)
qed simp

lemma u8_bounds: "uint (c :: u8) \<le> 255" "0 \<le> uint (c :: u8)"
  using uint_lt2p [of c] by simp_all

lemma analog_range: "\<bar>analog c\<bar> \<le> 127"
proof (cases "c = 0xFF")
  case False
  have "uint c \<noteq> 255"
  proof
    assume "uint c = 255"
    then have "uint c = uint (0xFF :: u8)" by simp
    then show False using False by (simp only: word_uint_eq_iff)
  qed
  then have "uint c - 127 \<le> 127" "- (uint c - 127) \<le> 127" using u8_bounds [of c] by linarith+
  then show ?thesis using False by (simp only: analog_def abs_le_iff) simp
qed (simp add: analog_def)

lemma js_get_type: "(is_channel c \<longrightarrow> \<bar>js_get js c\<bar> \<le> 127) \<and>
    (c \<in> {AcclX, AcclY, AcclZ} \<longrightarrow> - 127 \<le> js_get js c \<and> js_get js c \<le> 128) \<and>
    (\<not> is_channel c \<and> c \<notin> {AcclX, AcclY, AcclZ} \<longrightarrow> js_get js c \<in> {0, 1})"
  using analog_range u8_bounds by (cases c) (simp_all add: is_channel_def button_def)

text \<open>C25: After any exchanges with the master processor, bad packets among them, the program reads the joysticks and the
  competition word of the last packet that had a valid header; an axis is between -127 and 127 with up and right
  positive, a tilt between -127 and 128, and a button 0 or 1.\<close>

theorem controller_reads_last_good_packet:
  assumes "\<forall>(ms, rx)\<in>set rs. motors_ok (vexMotors ms)"
  shows "(let u = snd (system_rounds rs s); rx = last (rxdata (spi s) # filter good_packet (map snd rs)) in
     vexSpiGetControl u = ucast (rx ! 3) \<and>
     vexControllerGet (Xmtr1 c) u = js_get (joystick_at 6 rx) c \<and> vexControllerGet (Xmtr2 c) u = js_get (joystick_at 18 rx) c \<and>
     (is_channel c \<longrightarrow> \<bar>vexControllerGet (Xmtr1 c) u\<bar> \<le> 127) \<and>
     (c \<in> {AcclX, AcclY, AcclZ} \<longrightarrow> - 127 \<le> vexControllerGet (Xmtr1 c) u \<and> vexControllerGet (Xmtr1 c) u \<le> 128) \<and>
     (\<not> is_channel c \<and> c \<notin> {AcclX, AcclY, AcclZ} \<longrightarrow> vexControllerGet (Xmtr1 c) u \<in> {0, 1}))"
  using rounds_rx [OF assms, of s] js_get_type
  by (simp add: Let_def vexSpiGetControl_def vexSpiGetJoystickDataPtr_def packet_offsets)

text \<open>A motor that is reversed and stopped is not sent the octet of a stopped motor, 0x7F as in \<open>txInitData\<close>.\<close>

lemma stopped_reversed_octet: "motor_octet 0 False = 0x7F \<and> motor_octet 0 True = 0x80 \<and>
    motor_octet v True = motor_octet (- v) False + 1"
  by (simp add: motor_octet_def)

section \<open>Witnesses\<close>

definition spi_memory :: spi_state where
  "spi_memory = \<lparr>spi = SpiData (replicate 32 0) (replicate 32 0) (replicate 32 0) 0 0,
     spiTeamName = [67, 79, 78, 86, 69, 88, 32, 32, 0, 0, 0, 0, 0, 0, 0, 0], vexLocalCompState = 0\<rparr>"

text \<open>The master asks for the configuration, acknowledges it, and goes on with a joystick pushed up.\<close>

definition master_packets :: "octets list" where
  "master_packets = [0x17 # 0xC9 # 0x02 # replicate 29 0, 0x17 # 0xC9 # 0x03 # replicate 29 0,
     0x17 # 0xC9 # 0x08 # 0 # 120 # 0 # 127 # 127 # 0 # 127 # replicate 22 0, replicate 32 0xFF]"

lemma motor_memory_ok: "motors_ok (vexMotors (vexMotorInit motor_memory))"
  using reachable_inv [OF motor_memory_reachable] by (simp add: motor_inv_def)

definition sample_rounds :: "(motor_state \<times> octets) list" where
  "sample_rounds = map (Pair (vexMotorInit motor_memory)) master_packets"

lemma sample_rounds_ok: "\<forall>(ms, rx)\<in>set sample_rounds. motors_ok (vexMotors ms)"
  using motor_memory_ok by (auto simp: sample_rounds_def)

lemma spi_packets_wellformed_witness:
  "(let ps = fst (system_rounds sample_rounds (vexSpiInit spi_memory)) in
     length ps = 4 \<and> packet_ok 3 (spiTeamName spi_memory) (vexMotorInit motor_memory) (ps ! 3))"
proof -
  have n: "length sample_rounds = 4" "fst (sample_rounds ! 3) = vexMotorInit motor_memory"
    by (simp_all add: sample_rounds_def master_packets_def)
  show ?thesis using spi_packets_wellformed [OF sample_rounds_ok, of spi_memory] n by (auto simp: Let_def dest!: spec [of _ 3])
qed

lemma controller_reads_last_good_packet_witness:
  "vexControllerGet (Xmtr1 Ch3) (snd (system_rounds sample_rounds (vexSpiInit spi_memory))) = 127"
  using controller_reads_last_good_packet [OF sample_rounds_ok, of "vexSpiInit spi_memory" Ch3]
  by (simp add: Let_def sample_rounds_def master_packets_def good_packet_def joystick_at_def analog_def del: system_rounds.simps)

end
