(* ===== verification/VexTask.thy ===== *)
theory VexTask
  imports VexSpi
begin

text \<open>
  The threads of the robot program: the events of the kernel, \<open>chevents.c\<close>, the table of user threads and the sleep in
  which they are stopped, \<open>src/convex/cortex/fw/vexcortex.c\<close>, and the table of tasks of \<open>opt/robotc_glue.c\<close>. A thread
  is the address of its working area, used again by the next thread created there. The event listeners are the
  members \<open>el\<close> of the twenty slots of the thread table, so a pointer to a listener is the number of its slot, and \<open>None\<close>
  is the event source itself, which ends the list.
\<close>

section \<open>Kernel\<close>

datatype thd_state = THD_STATE_READY | THD_STATE_WTOREVT | THD_STATE_WTANDEVT | THD_STATE_FINAL

type_synonym tid = nat

text \<open>\<open>in_sleep\<close> tells that the thread is inside the wait of \<open>vexSleep\<close>.\<close>

record thread =
  p_name :: string
  p_state :: thd_state
  p_terminate :: bool
  p_epending :: u32
  p_ewmask :: u32
  in_sleep :: bool

record EventListener =
  el_next :: "nat option"
  el_listener :: tid
  el_mask :: u32
  el_flags :: u32

record kernel =
  es_next :: "nat option"
  listeners :: "EventListener list"
  thread_at :: "tid \<Rightarrow> thread"

definition ALL_EVENTS :: u32 where "ALL_EVENTS = - 1"

definition on_thread :: "tid \<Rightarrow> (thread \<Rightarrow> thread) \<Rightarrow> kernel \<Rightarrow> kernel" where
  "on_thread t f k = k\<lparr>thread_at := (thread_at k)(t := f (thread_at k t))\<rparr>"

definition on_listener :: "nat \<Rightarrow> (EventListener \<Rightarrow> EventListener) \<Rightarrow> kernel \<Rightarrow> kernel" where
  "on_listener i f k = k\<lparr>listeners := (listeners k)[i := f (listeners k ! i)]\<rparr>"

definition chThdCreate :: "tid \<Rightarrow> kernel \<Rightarrow> kernel" where
  "chThdCreate t = on_thread t (\<lambda>th. th\<lparr>p_name := [], p_state := THD_STATE_READY, p_terminate := False, p_epending := 0,
     in_sleep := False\<rparr>)"

definition chThdTerminate :: "tid \<Rightarrow> kernel \<Rightarrow> kernel" where
  "chThdTerminate t = on_thread t (\<lambda>th. th\<lparr>p_terminate := True\<rparr>)"

definition chThdExit :: "tid \<Rightarrow> kernel \<Rightarrow> kernel" where
  "chThdExit t = on_thread t (\<lambda>th. th\<lparr>p_state := THD_STATE_FINAL\<rparr>)"

definition chRegSetThreadName :: "tid \<Rightarrow> string \<Rightarrow> kernel \<Rightarrow> kernel" where
  "chRegSetThreadName self name = on_thread self (\<lambda>th. th\<lparr>p_name := name\<rparr>)"

definition chEvtRegisterMask :: "tid \<Rightarrow> nat \<Rightarrow> u32 \<Rightarrow> kernel \<Rightarrow> kernel" where
  "chEvtRegisterMask self i m k =
     (on_listener i (\<lambda>e. e\<lparr>el_next := es_next k, el_listener := self, el_mask := m, el_flags := 0\<rparr>) k)\<lparr>es_next := Some i\<rparr>"

text \<open>The member \<open>el_next\<close> of a listener or of the source, for a pointer of either kind.\<close>

definition next_of :: "kernel \<Rightarrow> nat option \<Rightarrow> nat option" where
  "next_of k p = (case p of None \<Rightarrow> es_next k | Some i \<Rightarrow> el_next (listeners k ! i))"

definition set_next :: "nat option \<Rightarrow> nat option \<Rightarrow> kernel \<Rightarrow> kernel" where
  "set_next p q k = (case p of None \<Rightarrow> k\<lparr>es_next := q\<rparr> | Some i \<Rightarrow> on_listener i (\<lambda>e. e\<lparr>el_next := q\<rparr>) k)"

partial_function (option) unregister_loop :: "nat \<Rightarrow> nat option \<Rightarrow> kernel \<Rightarrow> kernel option" where
  "unregister_loop i p k =
     (case next_of k p of
        None \<Rightarrow> Some k
      | Some j \<Rightarrow> if j = i then Some (set_next p (el_next (listeners k ! i)) k) else unregister_loop i (Some j) k)"

definition chEvtUnregister :: "nat \<Rightarrow> kernel \<Rightarrow> kernel option" where
  "chEvtUnregister i k = unregister_loop i None k"

definition chEvtSignalI :: "tid \<Rightarrow> u32 \<Rightarrow> kernel \<Rightarrow> kernel" where
  "chEvtSignalI t m = on_thread t (\<lambda>th.
     let th = th\<lparr>p_epending := p_epending th OR m\<rparr>
     in if p_state th = THD_STATE_WTOREVT \<and> p_epending th AND p_ewmask th \<noteq> 0
           \<or> p_state th = THD_STATE_WTANDEVT \<and> p_epending th AND p_ewmask th = p_ewmask th
        then th\<lparr>p_state := THD_STATE_READY\<rparr> else th)"

partial_function (option) broadcast_loop :: "u32 \<Rightarrow> nat option \<Rightarrow> kernel \<Rightarrow> kernel option" where
  "broadcast_loop flags p k =
     (case p of
        None \<Rightarrow> Some k
      | Some i \<Rightarrow>
          let k = on_listener i (\<lambda>e. e\<lparr>el_flags := el_flags e OR flags\<rparr>) k;
              k = chEvtSignalI (el_listener (listeners k ! i)) (el_mask (listeners k ! i)) k
          in broadcast_loop flags (el_next (listeners k ! i)) k)"

definition chEvtBroadcastFlagsI :: "u32 \<Rightarrow> kernel \<Rightarrow> kernel option" where
  "chEvtBroadcastFlagsI flags k = broadcast_loop flags (es_next k) k"

definition chEvtIsListeningI :: "kernel \<Rightarrow> bool" where
  "chEvtIsListeningI k \<longleftrightarrow> es_next k \<noteq> None"

text \<open>\<open>chEvtWaitAnyTimeout\<close> up to the switch to another thread, and what follows when the thread runs again. The first
  part returns the events when some are pending.\<close>

definition wait_any_begin :: "tid \<Rightarrow> u32 \<Rightarrow> kernel \<Rightarrow> u32 option \<times> kernel" where
  "wait_any_begin self m k =
     (let ev = p_epending (thread_at k self) AND m
      in if ev = 0 then (None, on_thread self (\<lambda>th. th\<lparr>p_ewmask := m, p_state := THD_STATE_WTOREVT\<rparr>) k)
         else (Some ev, on_thread self (\<lambda>th. th\<lparr>p_epending := p_epending th AND NOT ev\<rparr>) k))"

definition wait_any_end :: "bool \<Rightarrow> tid \<Rightarrow> u32 \<Rightarrow> kernel \<Rightarrow> u32 \<times> kernel" where
  "wait_any_end timeout self m k =
     (if timeout then (0, on_thread self (\<lambda>th. th\<lparr>p_state := THD_STATE_READY\<rparr>) k)
      else let ev = p_epending (thread_at k self) AND m
           in (ev, on_thread self (\<lambda>th. th\<lparr>p_epending := p_epending th AND NOT ev\<rparr>) k))"

section \<open>User threads\<close>

definition MAX_THREAD :: nat where "MAX_THREAD = 20"
definition RC_TASKS :: nat where "RC_TASKS = 10"

record vexThread =
  tp :: "tid option"
  persistent :: bool

record rcTask =
  pf :: "string option"
  rc_tp :: "tid option"

record cortex =
  kern :: kernel
  myThreads :: "vexThread list"
  vexKillAll :: bool
  rcTasks :: "rcTask list"

definition on_slot :: "nat \<Rightarrow> (vexThread \<Rightarrow> vexThread) \<Rightarrow> 'a cortex_scheme \<Rightarrow> 'a cortex_scheme" where
  "on_slot i f c = c\<lparr>myThreads := (myThreads c)[i := f (myThreads c ! i)]\<rparr>"

text \<open>The first slot that holds the pointer, as all loops over the table look for one.\<close>

definition find_slot :: "tid option \<Rightarrow> 'a cortex_scheme \<Rightarrow> nat option" where
  "find_slot t c = find (\<lambda>i. tp (myThreads c ! i) = t) [0..<MAX_THREAD]"

definition vexTaskRegisterPersistant :: "tid \<Rightarrow> string \<Rightarrow> bool \<Rightarrow> 'a cortex_scheme \<Rightarrow> 'a cortex_scheme" where
  "vexTaskRegisterPersistant self name p c =
     (let c = c\<lparr>kern := chRegSetThreadName self name (kern c)\<rparr>
      in case find_slot (Some self) c of
           Some i \<Rightarrow> on_slot i (\<lambda>s. s\<lparr>persistent := p\<rparr>) c
         | None \<Rightarrow>
             (case find_slot None c of
                None \<Rightarrow> c
              | Some i \<Rightarrow> let c = on_slot i (\<lambda>s. s\<lparr>tp := Some self, persistent := p\<rparr>) c
                           in c\<lparr>kern := chEvtRegisterMask self i 1 (kern c)\<rparr>))"

definition vexTaskRegister :: "tid \<Rightarrow> string \<Rightarrow> 'a cortex_scheme \<Rightarrow> 'a cortex_scheme" where
  "vexTaskRegister self name c = vexTaskRegisterPersistant self name False c"

definition vexTaskIsRegistered :: "tid option \<Rightarrow> 'a cortex_scheme \<Rightarrow> bool" where
  "vexTaskIsRegistered t c \<longleftrightarrow> find_slot t c \<noteq> None"

definition vexTaskPersistentGet :: "tid option \<Rightarrow> 'a cortex_scheme \<Rightarrow> bool" where
  "vexTaskPersistentGet t c = (case find_slot t c of None \<Rightarrow> False | Some i \<Rightarrow> persistent (myThreads c ! i))"

definition vexTaskPersistentSet :: "tid option \<Rightarrow> bool \<Rightarrow> 'a cortex_scheme \<Rightarrow> 'a cortex_scheme" where
  "vexTaskPersistentSet t p c = (case find_slot t c of None \<Rightarrow> c | Some i \<Rightarrow> on_slot i (\<lambda>s. s\<lparr>persistent := p\<rparr>) c)"

definition vexTaskEmergencyStop :: "'a cortex_scheme \<Rightarrow> 'a cortex_scheme" where
  "vexTaskEmergencyStop c = c\<lparr>myThreads := map (\<lambda>s. s\<lparr>persistent := False\<rparr>) (myThreads c), vexKillAll := True\<rparr>"

definition CleanupTask :: "tid option \<Rightarrow> 'a cortex_scheme \<Rightarrow> 'a cortex_scheme" where
  "CleanupTask t c = c\<lparr>rcTasks := map (\<lambda>r. if rc_tp r = t then r\<lparr>rc_tp := None, pf := None\<rparr> else r) (rcTasks c)\<rparr>"

text \<open>\<open>vexSleep\<close> after its wait has returned the events \<open>ev\<close>. A thread that is to end leaves in here.\<close>

definition vexSleep_rest :: "tid \<Rightarrow> u32 \<Rightarrow> 'a cortex_scheme \<Rightarrow> 'a cortex_scheme option" where
  "vexSleep_rest self ev c =
     (let terminate = p_terminate (thread_at (kern c) self);
          c = c\<lparr>kern := on_thread self (\<lambda>th. th\<lparr>in_sleep := False\<rparr>) (kern c)\<rparr>
      in if ev \<noteq> 0 \<or> terminate then
           (case find_slot (Some self) c of
              None \<Rightarrow> Some (c\<lparr>kern := chThdExit self (kern c)\<rparr>)
            | Some i \<Rightarrow>
                if persistent (myThreads c ! i) \<and> \<not> terminate then Some c
                else do {
                  k \<leftarrow> chEvtUnregister i (kern c);
                  let c = CleanupTask (tp (myThreads c ! i)) (c\<lparr>kern := k\<rparr>);
                  let c = (if terminate then on_slot i (\<lambda>s. s\<lparr>tp := None\<rparr>) c else c);
                  Some (c\<lparr>kern := chThdExit self (kern c)\<rparr>)
                })
         else Some c)"

text \<open>A call of \<open>vexSleep\<close> until it waits or is over, and its end when the thread runs again.\<close>

definition vexSleep :: "tid \<Rightarrow> 'a cortex_scheme \<Rightarrow> 'a cortex_scheme option" where
  "vexSleep self c =
     (let c = c\<lparr>kern := on_thread self (\<lambda>th. th\<lparr>in_sleep := True\<rparr>) (kern c)\<rparr>
      in case wait_any_begin self ALL_EVENTS (kern c) of
           (None, k) \<Rightarrow> Some (c\<lparr>kern := k\<rparr>)
         | (Some ev, k) \<Rightarrow> vexSleep_rest self ev (c\<lparr>kern := k\<rparr>))"

definition vexSleep_wake :: "bool \<Rightarrow> tid \<Rightarrow> 'a cortex_scheme \<Rightarrow> 'a cortex_scheme option" where
  "vexSleep_wake timeout self c =
     (case wait_any_end timeout self ALL_EVENTS (kern c) of (ev, k) \<Rightarrow> vexSleep_rest self ev (c\<lparr>kern := k\<rparr>))"

section \<open>ROBOTC tasks\<close>

text \<open>\<open>heap\<close> is the working area the allocation returns, \<open>None\<close> when the memory is exhausted. A function is named.\<close>

definition StartTaskWithPriority :: "tid option \<Rightarrow> string \<Rightarrow> 'a cortex_scheme \<Rightarrow> tid option \<times> 'a cortex_scheme" where
  "StartTaskWithPriority heap f c =
     (if Some f \<in> pf ` set (rcTasks c) then (None, c)
      else if None \<notin> pf ` set (rcTasks c) then (None, c)
      else case heap of
        None \<Rightarrow> (None, c)
      | Some t \<Rightarrow>
          (let c = c\<lparr>kern := chThdCreate t (kern c)\<rparr>
           in case find (\<lambda>i. rc_tp (rcTasks c ! i) = None) [0..<RC_TASKS] of
                None \<Rightarrow> (Some t, c)
              | Some i \<Rightarrow> (Some t, c\<lparr>rcTasks := (rcTasks c)[i := \<lparr>pf = Some f, rc_tp = Some t\<rparr>]\<rparr>)))"

section \<open>Monitor\<close>

text \<open>
  Where the monitor thread is between two of its sleeps: polling the competition state, waiting for the end of a
  period with the given flags, about to broadcast the end of it, waiting for the user thread, waiting for the
  thread of a slot, and stopped for good.
\<close>

datatype monitor_pc = Polling | In_Period u16 | Ending | Wait_User | Reaping nat | Killed

record cortex_sys = cortex +
  monitor :: monitor_pc
  outputs_of :: motor_state

text \<open>The area of the user thread, \<open>waVexUserTask\<close>, and the other areas.\<close>

definition user_thread :: tid where "user_thread = 0"

text \<open>The start of the monitor thread; the listeners keep what they hold.\<close>

definition monitor_start :: "'a cortex_scheme \<Rightarrow> 'a cortex_scheme" where
  "monitor_start c = c\<lparr>kern := (kern c)\<lparr>es_next := None\<rparr>,
     myThreads := map (\<lambda>s. s\<lparr>tp := None, persistent := False\<rparr>) (myThreads c)\<rparr>"

definition monitor_broadcast :: "'a cortex_scheme \<Rightarrow> 'a cortex_scheme option" where
  "monitor_broadcast c =
     (if chEvtIsListeningI (kern c) then do { k \<leftarrow> chEvtBroadcastFlagsI 0 (kern c); Some (c\<lparr>kern := k\<rparr>) } else Some c)"

definition is_final :: "tid \<Rightarrow> 'a cortex_scheme \<Rightarrow> bool" where
  "is_final t c \<longleftrightarrow> p_state (thread_at (kern c) t) = THD_STATE_FINAL"

text \<open>
  What the monitor does from one of its waits to the next. The competition state is read twice when it polls, and
  may have changed in between; a wait for a thread that has not ended is continued.
\<close>

definition vexCortexMonitorTask_step :: "u16 \<Rightarrow> u16 \<Rightarrow> cortex_sys \<Rightarrow> cortex_sys option" where
  "vexCortexMonitorTask_step cs cs' c =
     (case monitor c of
        Polling \<Rightarrow>
          Some (if cs AND kFlagDisabled \<noteq> kFlagDisabled then
            (let c = c\<lparr>kern := chThdCreate user_thread (kern c)\<rparr>
             in c\<lparr>monitor := In_Period (if cs' AND kFlagAutonomousMode \<noteq> kFlagAutonomousMode then 0 else kFlagAutonomousMode)\<rparr>)
          else c)
      | In_Period state \<Rightarrow>
          Some (if cs AND (kFlagDisabled OR kFlagAutonomousMode) = state \<and> \<not> vexKillAll c then c else c\<lparr>monitor := Ending\<rparr>)
      | Ending \<Rightarrow> do { c \<leftarrow> monitor_broadcast c; Some (c\<lparr>monitor := Wait_User\<rparr>) }
      | Wait_User \<Rightarrow>
          Some (if is_final user_thread c then c\<lparr>outputs_of := vexMotorStopAll (outputs_of c), monitor := Reaping 0\<rparr> else c)
      | Reaping i \<Rightarrow>
          Some (if i < MAX_THREAD then
            (case tp (myThreads c ! i) of
               Some t \<Rightarrow>
                 if \<not> persistent (myThreads c ! i) then
                   if is_final t c then (on_slot i (\<lambda>s. s\<lparr>tp := None\<rparr>) c)\<lparr>monitor := Reaping (i + 1)\<rparr> else c
                 else c\<lparr>monitor := Reaping (i + 1)\<rparr>
             | None \<Rightarrow> c\<lparr>monitor := Reaping (i + 1)\<rparr>)
          else c\<lparr>monitor := if vexKillAll c then Killed else Polling\<rparr>)
      | Killed \<Rightarrow> Some c)"

section \<open>Histories\<close>

text \<open>
  What can happen between two switches of the processor: a thread is created in a free area, registers, calls
  \<open>vexSleep\<close>, is woken in it by an event or by the end of its time, or returns from its function; a thread is asked
  to terminate, all tasks are stopped, or the monitor goes on.
\<close>

datatype task_event = Create tid | Register tid string bool | Sleep tid | Wake tid | Timeout tid | Return tid | Terminate tid
  | Emergency | Monitor u16 u16

definition registered :: "tid \<Rightarrow> 'a cortex_scheme \<Rightarrow> bool" where
  "registered t c \<longleftrightarrow> (\<exists>s\<in>set (myThreads c). tp s = Some t)"

definition runs :: "tid \<Rightarrow> 'a cortex_scheme \<Rightarrow> bool" where
  "runs t c \<longleftrightarrow> p_state (thread_at (kern c) t) = THD_STATE_READY \<and> \<not> in_sleep (thread_at (kern c) t)"

text \<open>
  When it can happen. An area is used again only when its last thread has ended and no slot names it any more, and the
  user thread is created by the monitor only and does not register as persistent, as in this program.
\<close>

fun task_enabled :: "task_event \<Rightarrow> cortex_sys \<Rightarrow> bool" where
  "task_enabled (Create t) c \<longleftrightarrow> t \<noteq> user_thread \<and> is_final t c \<and> \<not> registered t c"
| "task_enabled (Register t name p) c \<longleftrightarrow> runs t c \<and> (t = user_thread \<longrightarrow> \<not> p)"
| "task_enabled (Sleep t) c \<longleftrightarrow> runs t c"
| "task_enabled (Wake t) c \<longleftrightarrow> p_state (thread_at (kern c) t) = THD_STATE_READY \<and> in_sleep (thread_at (kern c) t)"
| "task_enabled (Timeout t) c \<longleftrightarrow> p_state (thread_at (kern c) t) = THD_STATE_WTOREVT"
| "task_enabled (Return t) c \<longleftrightarrow> runs t c"
| "task_enabled (Terminate t) c \<longleftrightarrow> \<not> is_final t c"
| "task_enabled Emergency c \<longleftrightarrow> True"
| "task_enabled (Monitor cs cs') c \<longleftrightarrow> True"

fun task_exec :: "task_event \<Rightarrow> cortex_sys \<Rightarrow> cortex_sys option" where
  "task_exec (Create t) c = Some (c\<lparr>kern := chThdCreate t (kern c)\<rparr>)"
| "task_exec (Register t name p) c = Some (vexTaskRegisterPersistant t name p c)"
| "task_exec (Sleep t) c = vexSleep t c"
| "task_exec (Wake t) c = vexSleep_wake False t c"
| "task_exec (Timeout t) c = vexSleep_wake True t c"
| "task_exec (Return t) c = Some (c\<lparr>kern := chThdExit t (kern c)\<rparr>)"
| "task_exec (Terminate t) c = Some (c\<lparr>kern := chThdTerminate t (kern c)\<rparr>)"
| "task_exec Emergency c = Some (vexTaskEmergencyStop c)"
| "task_exec (Monitor cs cs') c = vexCortexMonitorTask_step cs cs' c"

fun task_run :: "task_event list \<Rightarrow> cortex_sys \<Rightarrow> cortex_sys option" where
  "task_run [] c = Some c"
| "task_run (e # es) c = (if task_enabled e c then do { c \<leftarrow> task_exec e c; task_run es c } else None)"

end
