(* ===== verification/VexEncoder.thy ===== *)
theory VexEncoder
  imports VexMotor
begin

text \<open>
  The quadrature encoders of ConVEX, \<open>src/convex/cortex/fw/vexencoder.c\<close>: two interrupt service routines that
  count the edges of the two inputs, and the reading of a position relative to an offset, which the motor
  driver uses through callbacks. The level of a pad is a parameter; the pads of a digital pin are those of
  the table \<open>vexioDefinition\<close>, a parameter too. A count is a 32-bit integer that wraps.
\<close>

section \<open>Data\<close>

definition kVexQuadEncoder_Num :: int where "kVexQuadEncoder_Num = 5"

definition kVexDigital_12 :: nat where "kVexDigital_12 = 11"

type_synonym pad = "nat \<times> int"

record vexQuadEncoder_t =
  count :: int
  offset :: int
  enc_state :: int
  pa :: nat
  pb :: nat
  pa_pad :: pad
  pb_pad :: pad

type_synonym encoders = "vexQuadEncoder_t list"

text \<open>The calls into the hardware layers that adding and starting an encoder makes.\<close>

datatype enc_call =
    DigitalModeInput nat
  | ExtBothEdges pad nat
  | ExtChannelEnable int
  | ExtChannelDisable int

definition enc_update :: "nat \<Rightarrow> (vexQuadEncoder_t \<Rightarrow> vexQuadEncoder_t) \<Rightarrow> encoders \<Rightarrow> encoders" where
  "enc_update c f es = es[c := f (es ! c)]"

section \<open>Interrupts\<close>

definition vexEncoderIrqServiceA :: "(pad \<Rightarrow> bool) \<Rightarrow> vexQuadEncoder_t \<Rightarrow> vexQuadEncoder_t" where
  "vexEncoderIrqServiceA level enc =
     (let a = level (pa_pad enc); b = level (pb_pad enc)
      in if a \<noteq> b then enc\<lparr>count := i32 (count enc - 1)\<rparr> else enc\<lparr>count := i32 (count enc + 1)\<rparr>)"

definition vexEncoderIrqServiceB :: "(pad \<Rightarrow> bool) \<Rightarrow> vexQuadEncoder_t \<Rightarrow> vexQuadEncoder_t" where
  "vexEncoderIrqServiceB level enc =
     (let a = level (pa_pad enc); b = level (pb_pad enc)
      in if a \<noteq> b then enc\<lparr>count := i32 (count enc + 1)\<rparr> else enc\<lparr>count := i32 (count enc - 1)\<rparr>)"

text \<open>The ten interrupt callbacks differ in the encoder and the routine they call.\<close>

definition vqe_cb_a :: "nat \<Rightarrow> (pad \<Rightarrow> bool) \<Rightarrow> encoders \<Rightarrow> encoders" where
  "vqe_cb_a c level es = enc_update c (vexEncoderIrqServiceA level) es"

definition vqe_cb_b :: "nat \<Rightarrow> (pad \<Rightarrow> bool) \<Rightarrow> encoders \<Rightarrow> encoders" where
  "vqe_cb_b c level es = enc_update c (vexEncoderIrqServiceB level) es"

section \<open>Setup\<close>

definition vexEncoderInit :: "encoders \<Rightarrow> encoders" where
  "vexEncoderInit es =
     fold (\<lambda>c. enc_update c (\<lambda>e. e\<lparr>enc_state := 0, count := 0, offset := 0\<rparr>)) [0..<nat kVexQuadEncoder_Num] es"

text \<open>The callback registered with the external interrupt is told by its number, \<open>2 c\<close> or \<open>2 c + 1\<close>.\<close>

definition vexEncoderAdd :: "(nat \<Rightarrow> pad) \<Rightarrow> nat \<Rightarrow> nat \<Rightarrow> nat \<Rightarrow> encoders \<Rightarrow> enc_call list \<times> encoders" where
  "vexEncoderAdd vexioDefinition channel a b es =
     (if int channel \<ge> kVexQuadEncoder_Num then ([], es)
      else if a > kVexDigital_12 then ([], es)
      else if b > kVexDigital_12 then ([], es)
      else ([DigitalModeInput a, ExtBothEdges (vexioDefinition a) (2 * channel),
             DigitalModeInput b, ExtBothEdges (vexioDefinition b) (2 * channel + 1)],
            enc_update channel (\<lambda>e. e\<lparr>count := 0, offset := 0, pa := a, pa_pad := vexioDefinition a,
              pb := b, pb_pad := vexioDefinition b, enc_state := 1\<rparr>) es))"

text \<open>A channel outside the array is not checked for here.\<close>

definition vexEncoderStart :: "nat \<Rightarrow> encoders \<Rightarrow> enc_call list option" where
  "vexEncoderStart channel es =
     (if channel < length es then
        Some (if enc_state (es ! channel) = 1
              then [ExtChannelEnable (snd (pa_pad (es ! channel))), ExtChannelEnable (snd (pb_pad (es ! channel)))]
              else [])
      else None)"

definition vexEncoderStop :: "nat \<Rightarrow> encoders \<Rightarrow> enc_call list option" where
  "vexEncoderStop channel es =
     (if channel < length es then
        Some (if enc_state (es ! channel) = 1
              then [ExtChannelDisable (snd (pa_pad (es ! channel))), ExtChannelDisable (snd (pb_pad (es ! channel)))]
              else [])
      else None)"

fun start_channels :: "nat list \<Rightarrow> encoders \<Rightarrow> enc_call list option" where
  "start_channels [] es = Some []"
| "start_channels (c # cs) es = do { x \<leftarrow> vexEncoderStart c es; y \<leftarrow> start_channels cs es; Some (x @ y) }"

definition vexEncoderStartAll :: "encoders \<Rightarrow> enc_call list option" where
  "vexEncoderStartAll es = start_channels [0..<nat kVexQuadEncoder_Num] es"

section \<open>Positions\<close>

definition vexEncoderGet :: "int \<Rightarrow> encoders \<Rightarrow> int" where
  "vexEncoderGet channel es =
     (if channel < 0 \<or> channel \<ge> kVexQuadEncoder_Num then 0
      else i32 (count (es ! nat channel) - offset (es ! nat channel)))"

definition vexEncoderSet :: "int \<Rightarrow> int \<Rightarrow> encoders \<Rightarrow> encoders" where
  "vexEncoderSet channel v es =
     (if channel < 0 \<or> channel \<ge> kVexQuadEncoder_Num then es
      else enc_update (nat channel) (\<lambda>e. e\<lparr>offset := i32 (count e - v)\<rparr>) es)"

text \<open>Unlike the two functions above, the identifier is read without a check for negative channels.\<close>

definition vexEncoderGetId :: "int \<Rightarrow> encoders \<Rightarrow> int option" where
  "vexEncoderGetId channel es =
     (if channel \<ge> kVexQuadEncoder_Num then Some (- 1)
      else if 0 \<le> channel \<and> nat channel < length es then Some (int (pa (es ! nat channel)))
      else None)"

section \<open>Lemmas\<close>

lemma i32_cong: "i32 (i32 x + y) = i32 (x + y)" "i32 (x + i32 y) = i32 (x + y)"
  "i32 (i32 x - y) = i32 (x - y)" "i32 (x - i32 y) = i32 (x - y)"
  unfolding i32_def by (metis signed_take_bit_add signed_take_bit_diff signed_take_bit_signed_take_bit min.idem)+

lemma i32_i32 [simp]: "i32 (i32 x) = i32 x"
  using i32_cong(1) [of x 0] by simp

section \<open>Interface: a position sensor\<close>

text \<open>
  What the motor driver needs from the pair of callbacks of a port: a position that was set is the position
  read next.
\<close>

locale position_sensor =
  fixes ok :: "'w \<Rightarrow> bool"
    and env :: "'w position_env"
    and cb_get cb_set :: nat
    and p :: int
  assumes set_get: "ok w \<Longrightarrow> - 2147483648 \<le> v \<Longrightarrow> v \<le> 2147483647 \<Longrightarrow>
      position_get env cb_get p (position_set env cb_set p v w) = v"
    and set_ok: "ok w \<Longrightarrow> ok (position_set env cb_set p v w)"
begin

text \<open>The two conversions of the motor driver, for each type of motor and each direction.\<close>

lemma motor_set_get:
  assumes "ok w" "- 2147483648 < v" "v \<le> 2147483647" "0 \<le> i" "i < 10"
    and "motorPositionGet (motor_at s i) = Some cb_get" "motorPositionSet (motor_at s i) = Some cb_set"
    and "port (motor_at s i) = p"
  shows "\<exists>w'. vexMotorPositionSet env i v s w = Some w' \<and> ok w' \<and> vexMotorPositionGet env i s w' = Some (- v)"
  using assms set_get [of w v] set_get [of w "- v"] set_ok [of w]
  by (cases "motor_type (motor_at s i) = kVexMotor269"; cases "reversed (motor_at s i)")
    (auto simp: vexMotorPositionSet_def vexMotorPositionGet_def motor_index_defs neg32_def)

end

text \<open>The encoders as such a sensor: callback 1 is \<open>vexEncoderGet\<close>, 2 is \<open>vexEncoderSet\<close>, 3 \<open>vexEncoderGetId\<close>.\<close>

definition encoder_env :: "encoders position_env" where
  "encoder_env = \<lparr>position_get = (\<lambda>cb p es. if cb = 1 then vexEncoderGet p es else 0),
                  position_set = (\<lambda>cb p v es. if cb = 2 then vexEncoderSet p v es else es),
                  encoder_id = (\<lambda>cb p es. case vexEncoderGetId p es of Some i \<Rightarrow> i | None \<Rightarrow> 0)\<rparr>"

lemma encoder_set_get:
  assumes "length es = 5" "0 \<le> c" "c < 5" "- 2147483648 \<le> v" "v \<le> 2147483647"
  shows "vexEncoderGet c (vexEncoderSet c v es) = v"
  using assms
  by (simp add: vexEncoderGet_def vexEncoderSet_def kVexQuadEncoder_Num_def enc_update_def nat_less_iff i32_cong i32_id)

interpretation encoder3: position_sensor "\<lambda>es. length es = 5" encoder_env 1 2 3
  by unfold_locales
    (simp_all add: encoder_env_def encoder_set_get, simp add: vexEncoderSet_def enc_update_def)

section \<open>A turning shaft\<close>

text \<open>
  The two levels of an encoder at a shaft position counted in quarter periods: a Gray code. Between \<open>x\<close> and
  \<open>x + 1\<close> input A changes when \<open>x\<close> is even and input B when it is odd, and the interrupt of that input is served
  with the levels after the change.
\<close>

definition level_a :: "int \<Rightarrow> bool" where
  "level_a x \<longleftrightarrow> x mod 4 = 1 \<or> x mod 4 = 2"

definition level_b :: "int \<Rightarrow> bool" where
  "level_b x \<longleftrightarrow> x mod 4 = 2 \<or> x mod 4 = 3"

definition levels :: "vexQuadEncoder_t \<Rightarrow> int \<Rightarrow> pad \<Rightarrow> bool" where
  "levels e x q = (if q = pa_pad e then level_a x else level_b x)"

definition quarter_turn :: "nat \<Rightarrow> bool \<Rightarrow> int \<times> encoders \<Rightarrow> int \<times> encoders" where
  "quarter_turn c forward s =
     (let x = fst s; es = snd s;
          x' = (if forward then x + 1 else x - 1);
          edge_a = even (if forward then x else x');
          l = levels (es ! c) x'
      in (x', if edge_a then vqe_cb_a c l es else vqe_cb_b c l es))"

lemma quarter_turn_count:
  assumes "c < length es" "pa_pad (es ! c) \<noteq> pb_pad (es ! c)"
  shows "quarter_turn c f (x, es) =
    (let d = (if f then 1 else - 1) in (x + d, es[c := (es ! c)\<lparr>count := i32 (count (es ! c) - d)\<rparr>]))"
proof -
  have m: "x mod 4 = 0 \<or> x mod 4 = 1 \<or> x mod 4 = 2 \<or> x mod 4 = 3" by presburger
  have "level_a (x + 1) \<noteq> level_b (x + 1) \<longleftrightarrow> even x" "level_a (x - 1) = level_b (x - 1) \<longleftrightarrow> odd (x - 1) = False"
    unfolding level_a_def level_b_def by presburger+
  then show ?thesis using assms
    by (auto simp: quarter_turn_def Let_def vqe_cb_a_def vqe_cb_b_def enc_update_def levels_def
      vexEncoderIrqServiceA_def vexEncoderIrqServiceB_def)
qed

definition turned :: "bool list \<Rightarrow> int" where
  "turned fs = (\<Sum>f\<leftarrow>fs. if f then 1 else - 1)"

lemma turns_count:
  assumes "c < length es" "pa_pad (es ! c) \<noteq> pb_pad (es ! c)" "i32 (count (es ! c)) = count (es ! c)"
  shows "fold (quarter_turn c) fs (x, es)
    = (x + turned fs, es[c := (es ! c)\<lparr>count := i32 (count (es ! c) - turned fs)\<rparr>])"
  using assms
proof (induction fs arbitrary: x es)
  case Nil
  then show ?case by (simp add: turned_def)
next
  case (Cons f fs)
  let ?d = "if f then 1 else - 1 :: int"
  let ?es = "es[c := (es ! c)\<lparr>count := i32 (count (es ! c) - ?d)\<rparr>]"
  have "quarter_turn c f (x, es) = (x + ?d, ?es)"
    using quarter_turn_count [OF Cons.prems(1,2)] by (simp add: Let_def)
  moreover have "fold (quarter_turn c) fs (x + ?d, ?es)
    = (x + ?d + turned fs, ?es[c := (?es ! c)\<lparr>count := i32 (count (?es ! c) - turned fs)\<rparr>])"
    by (rule Cons.IH) (use Cons.prems in simp_all)
  moreover have "turned (f # fs) = ?d + turned fs" by (simp add: turned_def)
  ultimately show ?case using Cons.prems(1) by (simp add: i32_cong diff_diff_eq)
qed

section \<open>Properties\<close>

definition sample_encoders :: encoders where
  "sample_encoders = snd (vexEncoderAdd (\<lambda>pin. (4, 14 - int pin)) 3 0 1 (vexEncoderInit
     (replicate 5 \<lparr>count = 7, offset = 9, enc_state = 2, pa = 0, pb = 0, pa_pad = (0, 0), pb_pad = (0, 0)\<rparr>)))"

lemma length_updates: "length (fold (\<lambda>c. enc_update c f) cs es) = length es"
  by (induction cs arbitrary: es) (simp_all add: enc_update_def)

lemma sample_encoders: "length sample_encoders = 5" "pa_pad (sample_encoders ! 3) \<noteq> pb_pad (sample_encoders ! 3)"
  "count (sample_encoders ! 3) = 0"
  by (simp_all add: sample_encoders_def vexEncoderAdd_def vexEncoderInit_def kVexQuadEncoder_Num_def
    kVexDigital_12_def length_updates, simp_all add: enc_update_def length_updates)

text \<open>C11: The encoder counts every edge: however the shaft turns, any sequence of quarter periods forward and
  backward, served by the two interrupt routines one edge at a time, the position \<open>vexEncoderGet\<close> reports changes
  by exactly the net number of quarter periods, negated (the count falls when input A leads), modulo the 32-bit
  wrap; and no other encoder is touched.\<close>

theorem encoder_tracks_shaft:
  assumes "length es = 5" "0 \<le> c" "c < 5" "pa_pad (es ! nat c) \<noteq> pb_pad (es ! nat c)"
    and "i32 (count (es ! nat c)) = count (es ! nat c)"
  shows "let (x', es') = fold (quarter_turn (nat c)) fs (x, es) in
     vexEncoderGet c es' = i32 (vexEncoderGet c es - (x' - x)) \<and> x' - x = turned fs \<and>
     (\<forall>d. d \<noteq> c \<longrightarrow> vexEncoderGet d es' = vexEncoderGet d es)"
proof -
  have "nat c < length es" using assms(1-3) by (simp add: nat_less_iff)
  then show ?thesis
    using turns_count [OF _ assms(4,5), of fs x] assms(1-3)
    by (auto simp: vexEncoderGet_def kVexQuadEncoder_Num_def i32_cong nth_list_update nat_eq_iff2 algebra_simps)
qed

lemma encoder_tracks_shaft_witness:
  "let (x', es') = fold (quarter_turn 3) [True, True, False, True] (10, sample_encoders) in
     vexEncoderGet 3 es' = i32 (vexEncoderGet 3 sample_encoders - (x' - 10)) \<and> x' - 10 = turned [True, True, False, True] \<and>
     (\<forall>d. d \<noteq> 3 \<longrightarrow> vexEncoderGet d es' = vexEncoderGet d sample_encoders)"
  using encoder_tracks_shaft [of sample_encoders 3 "[True, True, False, True]" 10] sample_encoders
  by (simp add: i32_id)

text \<open>Setting the position of a motor that has an encoder and reading it back gives the negated value, for every
  motor type and direction: \<open>vexMotorPositionSet\<close> negates for a motor that is not reversed where
  \<open>vexMotorPositionGet\<close> negates for one that is.\<close>

theorem motor_position_set_get_negates:
  assumes "length es = 5" "- 2147483648 < v" "v \<le> 2147483647" "0 \<le> i" "i < 10"
    and "motorPositionGet (motor_at s i) = Some 1" "motorPositionSet (motor_at s i) = Some 2" "port (motor_at s i) = 3"
  shows "\<exists>es'. vexMotorPositionSet encoder_env i v s es = Some es' \<and>
     vexMotorPositionGet encoder_env i s es' = Some (- v)"
  using encoder3.motor_set_get [OF assms] by blast

lemma motor_position_set_get_negates_witness:
  "\<exists>es'. vexMotorPositionSet encoder_env 4 100 (vexMotorPositionSetCallback 4 (Some 2) 3
       (vexMotorPositionGetCallback 4 (Some 1) 3 (vexMotorInit motor_memory))) sample_encoders = Some es' \<and>
     vexMotorPositionGet encoder_env 4 (vexMotorPositionSetCallback 4 (Some 2) 3
       (vexMotorPositionGetCallback 4 (Some 1) 3 (vexMotorInit motor_memory))) es' = Some (- 100)"
proof -
  have len: "length (vexMotors (vexMotorInit motor_memory)) = 10"
    using reachable_inv [OF motor_memory_reachable] by (simp add: motor_inv_def motors_ok_def)
  show ?thesis
    by (rule motor_position_set_get_negates [OF sample_encoders(1)])
      (use len in \<open>simp_all add: vexMotorPositionSetCallback_def vexMotorPositionGetCallback_def motor_index_defs motor_update_def\<close>)
qed

end
