(* ===== verification/VexDigital.thy ===== *)
theory VexDigital
  imports VexEncoder
begin

text \<open>
  The digital pins of ConVEX, \<open>src/convex/cortex/fw/vexdigital.c\<close>, and the table of external interrupts,
  \<open>vexext.c\<close>, on the VEX board. A pad is a GPIO port (A is 0) and a bit. The hardware is the output latch and
  the mode of each pad, the configuration of the sixteen interrupt channels and which of them are enabled;
  the level of an input is an argument of what reads it. A pin is an \<open>int\<close>, because \<open>kVexDigital_None\<close> is -1
  and no function checks for it; an access outside the table is \<open>None\<close>.
\<close>

section \<open>Data\<close>

datatype tVexDigitalMode = kVexDigitalInput | kVexDigitalOutput

datatype tVexDigitalState = kVexDigitalLow | kVexDigitalHigh

definition kVexDigital_None :: int where "kVexDigital_None = - 1"
definition kVexDigital_4 :: int where "kVexDigital_4 = 3"
definition kVexDigital_10 :: int where "kVexDigital_10 = 9"
definition kVexDigital_Num :: int where "kVexDigital_Num = 12"

lemmas pin_index_defs = kVexDigital_12_def kVexDigital_4_def kVexDigital_10_def kVexDigital_Num_def

definition GPIOC :: nat where "GPIOC = 2"
definition GPIOD :: nat where "GPIOD = 3"
definition GPIOE :: nat where "GPIOE = 4"

lemmas gpio_defs = GPIOC_def GPIOD_def GPIOE_def

record ioDef =
  io_pad :: pad
  io_mode :: tVexDigitalMode
  intrCount :: int

text \<open>The ports and pads of \<open>board.h\<close>, in the order of the table.\<close>

definition digio_pads :: "pad list" where
  "digio_pads = [(GPIOE, 9), (GPIOE, 11), (GPIOC, 6), (GPIOC, 7), (GPIOE, 13), (GPIOE, 14),
                 (GPIOE, 8), (GPIOE, 10), (GPIOE, 12), (GPIOE, 7), (GPIOD, 0), (GPIOD, 1)]"

definition vexioDefinition :: "ioDef list" where
  "vexioDefinition = map (\<lambda>q. \<lparr>io_pad = q, io_mode = kVexDigitalInput, intrCount = - 1\<rparr>) digio_pads"

datatype iomode_t = PAL_MODE_INPUT_PULLUP | PAL_MODE_OUTPUT_PUSHPULL

text \<open>The callbacks the program registers with an interrupt channel.\<close>

datatype extcallback_t = Vi_cb | Vqe_cb nat | Vs_echo_cb

record ext_channel =
  ch_mode :: u32
  ch_cb :: "extcallback_t option"

definition EXT_CH_MODE_EDGES_MASK :: u32 where "EXT_CH_MODE_EDGES_MASK = 3"
definition EXT_CH_MODE_DISABLED :: u32 where "EXT_CH_MODE_DISABLED = 0"
definition EXT_CH_MODE_BOTH_EDGES :: u32 where "EXT_CH_MODE_BOTH_EDGES = 3"
definition EXT_MODE_GPIO_MASK :: u32 where "EXT_MODE_GPIO_MASK = 0xF0"
definition EXT_MODE_GPIOC :: u32 where "EXT_MODE_GPIOC = 0x20"
definition EXT_MODE_GPIOD :: u32 where "EXT_MODE_GPIOD = 0x30"
definition EXT_MODE_GPIOE :: u32 where "EXT_MODE_GPIOE = 0x40"

lemmas ext_mode_defs = EXT_CH_MODE_EDGES_MASK_def EXT_CH_MODE_DISABLED_def EXT_CH_MODE_BOTH_EDGES_def
  EXT_MODE_GPIO_MASK_def EXT_MODE_GPIOC_def EXT_MODE_GPIOD_def EXT_MODE_GPIOE_def

definition vexExtCfg :: "ext_channel list" where
  "vexExtCfg = map (\<lambda>m. \<lparr>ch_mode = EXT_CH_MODE_DISABLED OR m, ch_cb = None\<rparr>)
     [EXT_MODE_GPIOD, EXT_MODE_GPIOD, 0, 0, 0, 0, EXT_MODE_GPIOC, EXT_MODE_GPIOC, EXT_MODE_GPIOE, EXT_MODE_GPIOE,
      EXT_MODE_GPIOE, EXT_MODE_GPIOE, EXT_MODE_GPIOE, EXT_MODE_GPIOE, EXT_MODE_GPIOE, 0]"

record digital_state =
  ios :: "ioDef list"
  channels :: "ext_channel list"
  latch :: "pad \<Rightarrow> bool"
  pad_mode :: "pad \<Rightarrow> iomode_t option"
  ch_enabled :: "int \<Rightarrow> bool"

definition digital_reset :: digital_state where
  "digital_reset = \<lparr>ios = vexioDefinition, channels = vexExtCfg, latch = (\<lambda>_. False), pad_mode = (\<lambda>_. None),
                    ch_enabled = (\<lambda>_. False)\<rparr>"

definition io_update :: "int \<Rightarrow> (ioDef \<Rightarrow> ioDef) \<Rightarrow> digital_state \<Rightarrow> digital_state" where
  "io_update pin f s = s\<lparr>ios := (ios s)[nat pin := f (ios s ! nat pin)]\<rparr>"

definition pin_ok :: "int \<Rightarrow> digital_state \<Rightarrow> bool" where
  "pin_ok pin s \<longleftrightarrow> 0 \<le> pin \<and> pin < int (length (ios s))"

section \<open>The port driver\<close>

definition palSetPad :: "pad \<Rightarrow> digital_state \<Rightarrow> digital_state" where
  "palSetPad q s = s\<lparr>latch := (latch s)(q := True)\<rparr>"

definition palClearPad :: "pad \<Rightarrow> digital_state \<Rightarrow> digital_state" where
  "palClearPad q s = s\<lparr>latch := (latch s)(q := False)\<rparr>"

text \<open>The latch selects the pull-up of an input.\<close>

definition palSetPadMode :: "pad \<Rightarrow> iomode_t \<Rightarrow> digital_state \<Rightarrow> digital_state" where
  "palSetPadMode q m s =
     (let s = (if m = PAL_MODE_INPUT_PULLUP then palSetPad q s else s)
      in s\<lparr>pad_mode := (pad_mode s)(q := Some m)\<rparr>)"

section \<open>Pins\<close>

definition vexDigitalModeSet :: "int \<Rightarrow> tVexDigitalMode \<Rightarrow> digital_state \<Rightarrow> digital_state option" where
  "vexDigitalModeSet pin m s =
     (if pin > int kVexDigital_12 then Some s
      else if \<not> pin_ok pin s then None
      else let s = io_update pin (\<lambda>io. io\<lparr>io_mode := m\<rparr>) s; q = io_pad (ios s ! nat pin)
           in Some (case m of
                kVexDigitalInput \<Rightarrow> palSetPadMode q PAL_MODE_INPUT_PULLUP s
              | kVexDigitalOutput \<Rightarrow> palSetPadMode q PAL_MODE_OUTPUT_PUSHPULL s))"

text \<open>The mode of a pin above the last is -1, returned as a mode.\<close>

definition vexDigitalModeGet :: "int \<Rightarrow> digital_state \<Rightarrow> int option" where
  "vexDigitalModeGet pin s =
     (if pin > int kVexDigital_12 then Some (- 1)
      else if \<not> pin_ok pin s then None
      else Some (case io_mode (ios s ! nat pin) of kVexDigitalInput \<Rightarrow> 0 | kVexDigitalOutput \<Rightarrow> 1))"

definition vexDigitalPinSet :: "int \<Rightarrow> tVexDigitalState \<Rightarrow> digital_state \<Rightarrow> digital_state option" where
  "vexDigitalPinSet pin st s =
     (if pin > int kVexDigital_12 then Some s
      else if \<not> pin_ok pin s then None
      else Some (if st = kVexDigitalLow then palClearPad (io_pad (ios s ! nat pin)) s
                 else palSetPad (io_pad (ios s ! nat pin)) s))"

definition vexDigitalPinGet :: "(pad \<Rightarrow> bool) \<Rightarrow> int \<Rightarrow> digital_state \<Rightarrow> tVexDigitalState option" where
  "vexDigitalPinGet level pin s =
     (if pin > int kVexDigital_12 then Some kVexDigitalLow
      else if \<not> pin_ok pin s then None
      else Some (if level (io_pad (ios s ! nat pin)) then kVexDigitalHigh else kVexDigitalLow))"

section \<open>Interrupts\<close>

definition vexExtSet :: "nat \<Rightarrow> int \<Rightarrow> u32 \<Rightarrow> extcallback_t \<Rightarrow> digital_state \<Rightarrow> digital_state option" where
  "vexExtSet p channel m cb s =
     (if 0 \<le> channel \<and> channel < int (length (channels s)) then
        (let c = channels s ! nat channel;
             c = c\<lparr>ch_mode := (ch_mode c AND EXT_MODE_GPIO_MASK) OR m, ch_cb := Some cb\<rparr>;
             c = (if channel = 7 then
                    (let c = (if p = GPIOE then c\<lparr>ch_mode := (ch_mode c AND NOT EXT_MODE_GPIO_MASK) OR EXT_MODE_GPIOE\<rparr> else c)
                     in if p = GPIOC then c\<lparr>ch_mode := (ch_mode c AND NOT EXT_MODE_GPIO_MASK) OR EXT_MODE_GPIOC\<rparr> else c)
                  else c)
         in Some (s\<lparr>channels := (channels s)[nat channel := c]\<rparr>))
      else None)"

text \<open>The callback counts for the first pin of the channel that has a counter.\<close>

fun vi_cb_loop :: "int \<Rightarrow> ioDef list \<Rightarrow> ioDef list" where
  "vi_cb_loop channel [] = []"
| "vi_cb_loop channel (io # rest) =
     (if snd (io_pad io) = i16 channel then
        (if intrCount io \<ge> 0 then io\<lparr>intrCount := i32 (intrCount io + 1)\<rparr> # rest
         else io # vi_cb_loop channel rest)
      else io # vi_cb_loop channel rest)"

definition vi_cb :: "int \<Rightarrow> digital_state \<Rightarrow> digital_state" where
  "vi_cb channel s = s\<lparr>ios := vi_cb_loop channel (ios s)\<rparr>"

definition vexDigitalIntrSet :: "int \<Rightarrow> digital_state \<Rightarrow> digital_state option" where
  "vexDigitalIntrSet pin s = do {
     s \<leftarrow> vexDigitalModeSet pin kVexDigitalInput s;
     if \<not> pin_ok pin s then None
     else do {
       let q = io_pad (ios s ! nat pin);
       s \<leftarrow> vexExtSet (fst q) (snd q) EXT_CH_MODE_BOTH_EDGES Vi_cb s;
       let s = (if snd q = 7 then
                  (let s = (if pin = kVexDigital_4 then io_update kVexDigital_10 (\<lambda>io. io\<lparr>intrCount := - 1\<rparr>) s else s)
                   in if pin = kVexDigital_10 then io_update kVexDigital_4 (\<lambda>io. io\<lparr>intrCount := - 1\<rparr>) s else s)
                else s);
       Some (io_update pin (\<lambda>io. io\<lparr>intrCount := 0\<rparr>) s)
     }
   }"

definition extChannelEnable :: "int \<Rightarrow> digital_state \<Rightarrow> digital_state" where
  "extChannelEnable channel s = s\<lparr>ch_enabled := (ch_enabled s)(channel := True)\<rparr>"

definition extChannelDisable :: "int \<Rightarrow> digital_state \<Rightarrow> digital_state" where
  "extChannelDisable channel s = s\<lparr>ch_enabled := (ch_enabled s)(channel := False)\<rparr>"

definition vexDigitalIntrRun :: "digital_state \<Rightarrow> digital_state" where
  "vexDigitalIntrRun s =
     fold (\<lambda>io s. if intrCount io = 0 then extChannelEnable (snd (io_pad io)) s else s) (ios s) s"

definition vexDigitalIntrCountGet :: "int \<Rightarrow> digital_state \<Rightarrow> int option" where
  "vexDigitalIntrCountGet pin s =
     (if pin > int kVexDigital_12 then Some 0
      else if \<not> pin_ok pin s then None
      else Some (intrCount (ios s ! nat pin)))"

text \<open>
  The interrupt controller: an edge on a pad reaches the callback of its channel when the channel is enabled
  for edges and is connected to the port of the pad.
\<close>

definition ext_port :: "ext_channel \<Rightarrow> nat" where
  "ext_port c = unat (drop_bit 4 (ch_mode c AND EXT_MODE_GPIO_MASK))"

definition ext_fires :: "pad \<Rightarrow> digital_state \<Rightarrow> extcallback_t option" where
  "ext_fires q s =
     (let c = channels s ! nat (snd q)
      in if ch_enabled s (snd q) \<and> ch_mode c AND EXT_CH_MODE_EDGES_MASK \<noteq> EXT_CH_MODE_DISABLED \<and> ext_port c = fst q
         then ch_cb c else None)"

definition pin_edge :: "pad \<Rightarrow> digital_state \<Rightarrow> digital_state" where
  "pin_edge q s = (if ext_fires q s = Some Vi_cb then vi_cb (snd q) s else s)"

section \<open>Lemmas\<close>

lemma pads_16: "p < 12 \<Longrightarrow> 0 \<le> snd (digio_pads ! p) \<and> nat (snd (digio_pads ! p)) < 16"
proof -
  have "list_all (\<lambda>q. 0 \<le> snd q \<and> nat (snd q) < 16) digio_pads" "length digio_pads = 12" by code_simp+
  then show "p < 12 \<Longrightarrow> ?thesis" by (simp add: list_all_length)
qed

lemma pads_ports: "p < 12 \<Longrightarrow> fst (digio_pads ! p) \<in> {GPIOC, GPIOD, GPIOE} \<and> (snd (digio_pads ! p) = 7 \<longrightarrow> fst (digio_pads ! p) \<noteq> GPIOD)"
proof -
  have "list_all (\<lambda>q. fst q \<in> {GPIOC, GPIOD, GPIOE} \<and> (snd q = 7 \<longrightarrow> fst q \<noteq> GPIOD)) digio_pads" "length digio_pads = 12"
    by code_simp+
  then show "p < 12 \<Longrightarrow> ?thesis" unfolding list_all_length by metis
qed

lemma pads_shared: "p < 12 \<Longrightarrow> q < 12 \<Longrightarrow> snd (digio_pads ! p) = snd (digio_pads ! q) \<Longrightarrow> p = q \<or> {p, q} = {3, 9}"
proof -
  have "list_all (\<lambda>p. list_all (\<lambda>q. snd (digio_pads ! p) = snd (digio_pads ! q) \<longrightarrow> p = q \<or> {p, q} = {3, 9}) [0..<12]) [0..<12]"
    by code_simp
  then show "p < 12 \<Longrightarrow> q < 12 \<Longrightarrow> snd (digio_pads ! p) = snd (digio_pads ! q) \<Longrightarrow> ?thesis"
    unfolding list_all_iff by auto
qed

definition port_mode :: "nat \<Rightarrow> u32" where
  "port_mode p = of_nat p * 16 + EXT_CH_MODE_BOTH_EDGES"

text \<open>What the selection of each channel can be: its port, except for channel 7, which two ports share.\<close>

definition chan_ok :: "digital_state \<Rightarrow> bool" where
  "chan_ok s \<longleftrightarrow> length (channels s) = 16 \<and>
     (\<forall>p<12. snd (digio_pads ! p) \<noteq> 7 \<longrightarrow>
        ch_mode (channels s ! nat (snd (digio_pads ! p))) AND EXT_MODE_GPIO_MASK = of_nat (fst (digio_pads ! p)) * 16)"

definition digital_inv :: "digital_state \<Rightarrow> bool" where
  "digital_inv s \<longleftrightarrow> map io_pad (ios s) = digio_pads \<and> chan_ok s \<and>
     (\<forall>p<12. intrCount (ios s ! p) \<ge> 0 \<longrightarrow>
        ch_mode (channels s ! nat (snd (digio_pads ! p))) = port_mode (fst (digio_pads ! p)) \<and>
        ch_cb (channels s ! nat (snd (digio_pads ! p))) = Some Vi_cb)"

lemma inv_ios: "digital_inv s \<Longrightarrow> length (ios s) = 12 \<and> (\<forall>p<12. io_pad (ios s ! p) = digio_pads ! p)"
proof -
  assume "digital_inv s"
  then have m: "map io_pad (ios s) = digio_pads" by (simp add: digital_inv_def)
  have "length digio_pads = 12" by (simp add: digio_pads_def)
  with m have l: "length (ios s) = 12" by (metis length_map)
  show ?thesis using l m by (metis nth_map)
qed

lemma port_mode_mask: "g \<in> {GPIOC, GPIOD, GPIOE} \<Longrightarrow> (of_nat g * 16 OR EXT_CH_MODE_BOTH_EDGES :: u32) = port_mode g"
  "g \<in> {GPIOC, GPIOD, GPIOE} \<Longrightarrow> port_mode g AND EXT_MODE_GPIO_MASK = of_nat g * 16"
  by (auto simp: port_mode_def ext_mode_defs gpio_defs)

lemma mask_clear: "((((m :: u32) AND EXT_MODE_GPIO_MASK) OR EXT_CH_MODE_BOTH_EDGES) AND NOT EXT_MODE_GPIO_MASK) = EXT_CH_MODE_BOTH_EDGES"
proof -
  have "(m AND EXT_MODE_GPIO_MASK) AND NOT EXT_MODE_GPIO_MASK = 0"
    by (rule bit_word_eqI) (auto simp: bit_simps)
  moreover have "EXT_CH_MODE_BOTH_EDGES AND NOT EXT_MODE_GPIO_MASK = EXT_CH_MODE_BOTH_EDGES"
    by (simp add: ext_mode_defs)
  ultimately show ?thesis by (simp add: bit.conj_disj_distrib2)
qed

text \<open>Setting an interrupt on a pad of the board connects its channel to its port.\<close>

lemma vexExtSet_pad:
  assumes "chan_ok s" "p < 12"
  shows "\<exists>c. vexExtSet (fst (digio_pads ! p)) (snd (digio_pads ! p)) EXT_CH_MODE_BOTH_EDGES Vi_cb s
      = Some (s\<lparr>channels := (channels s)[nat (snd (digio_pads ! p)) := c]\<rparr>)
    \<and> ch_mode c = port_mode (fst (digio_pads ! p)) \<and> ch_cb c = Some Vi_cb"
proof -
  let ?g = "fst (digio_pads ! p)" let ?c = "snd (digio_pads ! p)"
  have b: "0 \<le> ?c" "nat ?c < 16" "length (channels s) = 16"
    using pads_16 [OF assms(2)] assms(1) by (auto simp: chan_ok_def)
  then have bound: "0 \<le> ?c \<and> ?c < int (length (channels s))" by linarith
  show ?thesis
  proof (cases "?c = 7")
    case True
    with pads_ports [OF assms(2)] have "?g = GPIOC \<or> ?g = GPIOE" by auto
    then show ?thesis
    proof
      assume g: "?g = GPIOC"
      show ?thesis using bound True unfolding vexExtSet_def g Let_def
        by (simp add: mask_clear, simp add: port_mode_def ext_mode_defs gpio_defs)
          (rule exI, rule conjI, rule refl, simp)
    next
      assume g: "?g = GPIOE"
      show ?thesis using bound True unfolding vexExtSet_def g Let_def
        by (simp add: mask_clear gpio_defs, simp add: port_mode_def ext_mode_defs)
          (rule exI, rule conjI, rule refl, simp)
    qed
  next
    case False
    with assms have "ch_mode (channels s ! nat ?c) AND EXT_MODE_GPIO_MASK = of_nat ?g * 16"
      by (simp add: chan_ok_def)
    then show ?thesis using bound False pads_ports [OF assms(2)] port_mode_mask(1) [of ?g]
      by (simp add: vexExtSet_def Let_def) (rule exI, rule conjI, rule refl, simp)
  qed
qed

lemma io_pad_update: "map io_pad (ios (io_update p f s)) = map io_pad (ios s)" if "\<And>io. io_pad (f io) = io_pad io"
proof (cases "nat p < length (ios s)")
  case True
  then show ?thesis using that by (simp add: io_update_def map_update) (metis list_update_id nth_map)
qed (simp add: io_update_def list_update_beyond)

lemma chan_ok_update:
  assumes "chan_ok s" "p < 12" "ch_mode c = port_mode (fst (digio_pads ! p))"
  shows "chan_ok (s\<lparr>channels := (channels s)[nat (snd (digio_pads ! p)) := c]\<rparr>)"
proof -
  have "ch_mode ((channels s)[nat (snd (digio_pads ! p)) := c] ! nat (snd (digio_pads ! q))) AND EXT_MODE_GPIO_MASK
      = of_nat (fst (digio_pads ! q)) * 16" if q: "q < 12" "snd (digio_pads ! q) \<noteq> 7" for q
  proof (cases "snd (digio_pads ! p) = snd (digio_pads ! q)")
    case True
    then have "p = q \<or> {p, q} = {3, 9}" using pads_shared assms(2) q by blast
    moreover have "snd (digio_pads ! 3) = 7" "snd (digio_pads ! 9) = 7" by code_simp+
    ultimately have "p = q" using q True by (auto simp: doubleton_eq_iff)
    then show ?thesis using assms pads_16 [OF q(1)] pads_ports [OF q(1)] port_mode_mask(2) [of "fst (digio_pads ! q)"]
      by (auto simp: chan_ok_def)
  next
    case False
    then have "nat (snd (digio_pads ! p)) \<noteq> nat (snd (digio_pads ! q))"
      using pads_16 [OF assms(2)] pads_16 [OF q(1)] by (simp add: nat_eq_iff)
    then show ?thesis using assms q by (simp add: chan_ok_def)
  qed
  then show ?thesis using assms(1) by (simp add: chan_ok_def)
qed


lemma inv_update:
  assumes "digital_inv s" "p < 12" "ch_mode c = port_mode (fst (digio_pads ! p))" "ch_cb c = Some Vi_cb"
    and "map io_pad (ios t) = digio_pads" "channels t = (channels s)[nat (snd (digio_pads ! p)) := c]"
    and counts: "\<And>q. q < 12 \<Longrightarrow> intrCount (ios t ! q) \<ge> 0 \<Longrightarrow> q = p \<or> ({p, q} \<noteq> {3, 9} \<and> intrCount (ios s ! q) \<ge> 0)"
  shows "digital_inv t"
proof -
  have ok: "chan_ok s" "length (channels s) = 16" using assms(1) by (simp_all add: digital_inv_def chan_ok_def)
  have "chan_ok t" using chan_ok_update [OF ok(1) assms(2,3)] assms(6) by (simp add: chan_ok_def)
  moreover have "ch_mode (channels t ! nat (snd (digio_pads ! q))) = port_mode (fst (digio_pads ! q)) \<and>
      ch_cb (channels t ! nat (snd (digio_pads ! q))) = Some Vi_cb"
    if q: "q < 12" "intrCount (ios t ! q) \<ge> 0" for q
  proof (cases "q = p")
    case True
    then show ?thesis using assms pads_16 [OF q(1)] ok by simp
  next
    case False
    with counts [OF q] have d: "{p, q} \<noteq> {3, 9}" "intrCount (ios s ! q) \<ge> 0" by auto
    then have "snd (digio_pads ! p) \<noteq> snd (digio_pads ! q)" using pads_shared [OF assms(2) q(1)] False by auto
    then have "nat (snd (digio_pads ! p)) \<noteq> nat (snd (digio_pads ! q))"
      using pads_16 [OF assms(2)] pads_16 [OF q(1)] by (simp add: nat_eq_iff)
    then show ?thesis using assms(1,6) q d by (simp add: digital_inv_def)
  qed
  ultimately show ?thesis using assms(5) by (simp add: digital_inv_def)
qed

lemma pin_ok_inv: "digital_inv s \<Longrightarrow> pin_ok p s \<longleftrightarrow> 0 \<le> p \<and> p < 12"
  using inv_ios [of s] by (simp add: pin_ok_def)

lemma ModeSet_frame:
  assumes "digital_inv s" "0 \<le> p" "p < 12"
  shows "\<exists>t. vexDigitalModeSet p m s = Some t \<and> channels t = channels s \<and> ch_enabled t = ch_enabled s \<and>
     map io_pad (ios t) = digio_pads \<and> (\<forall>q<12. intrCount (ios t ! q) = intrCount (ios s ! q)) \<and> digital_inv t"
proof -
  let ?u = "io_update p (\<lambda>io. io\<lparr>io_mode := m\<rparr>) s"
  have l: "length (ios s) = 12" using inv_ios [OF assms(1)] by simp
  have pads: "map io_pad (ios ?u) = digio_pads"
    using assms(1) io_pad_update [of "\<lambda>io. io\<lparr>io_mode := m\<rparr>" p s] by (simp add: digital_inv_def)
  have counts: "\<forall>q<12. intrCount (ios ?u ! q) = intrCount (ios s ! q)"
    using l assms(2,3) by (simp add: io_update_def nth_list_update)
  obtain t where t: "vexDigitalModeSet p m s = Some t" "ios t = ios ?u" "channels t = channels s" "ch_enabled t = ch_enabled s"
    using assms pin_ok_inv [OF assms(1)]
    by (cases m) (simp_all add: vexDigitalModeSet_def pin_index_defs Let_def palSetPadMode_def palSetPad_def io_update_def)
  moreover have "digital_inv t"
    using assms(1) pads counts t by (simp add: digital_inv_def chan_ok_def)
  ultimately show ?thesis using pads counts by simp
qed

lemma IntrSet_inv:
  assumes "digital_inv s" "0 \<le> p" "p < 12"
  shows "\<exists>t. vexDigitalIntrSet p s = Some t \<and> digital_inv t \<and> intrCount (ios t ! nat p) = 0"
proof -
  obtain u where u: "vexDigitalModeSet p kVexDigitalInput s = Some u" "digital_inv u"
    using ModeSet_frame [OF assms] by blast
  have p: "nat p < 12" using assms by simp
  have l: "length (ios u) = 12" and pads: "io_pad (ios u ! nat p) = digio_pads ! nat p"
    using inv_ios [OF u(2)] p by auto
  obtain c where c: "vexExtSet (fst (digio_pads ! nat p)) (snd (digio_pads ! nat p)) EXT_CH_MODE_BOTH_EDGES Vi_cb u
      = Some (u\<lparr>channels := (channels u)[nat (snd (digio_pads ! nat p)) := c]\<rparr>)"
      "ch_mode c = port_mode (fst (digio_pads ! nat p))" "ch_cb c = Some Vi_cb"
    using vexExtSet_pad [OF _ p] u(2) by (auto simp: digital_inv_def)
  let ?v = "u\<lparr>channels := (channels u)[nat (snd (digio_pads ! nat p)) := c]\<rparr>"
  let ?w = "if snd (digio_pads ! nat p) = 7 then
              (let s = (if p = kVexDigital_4 then io_update kVexDigital_10 (\<lambda>io. io\<lparr>intrCount := - 1\<rparr>) ?v else ?v)
               in if p = kVexDigital_10 then io_update kVexDigital_4 (\<lambda>io. io\<lparr>intrCount := - 1\<rparr>) s else s)
            else ?v"
  let ?t = "io_update p (\<lambda>io. io\<lparr>intrCount := 0\<rparr>) ?w"
  have e: "vexDigitalIntrSet p s = Some ?t"
    using u(1) pin_ok_inv [OF u(2)] assms(2,3) pads c(1) by (simp add: vexDigitalIntrSet_def Let_def)
  have shared: "snd (digio_pads ! nat p) = 7 \<longleftrightarrow> p = 3 \<or> p = 9"
  proof -
    have "list_all (\<lambda>p. snd (digio_pads ! p) = 7 \<longleftrightarrow> p = 3 \<or> p = 9) [0..<12]" by code_simp
    then have "snd (digio_pads ! nat p) = 7 \<longleftrightarrow> nat p = 3 \<or> nat p = 9" using p by (simp add: list_all_iff)
    then show ?thesis using assms(2) by auto
  qed
  have pads_w: "map io_pad (ios ?w) = digio_pads" "channels ?w = (channels u)[nat (snd (digio_pads ! nat p)) := c]"
    using u(2) by (simp_all add: Let_def io_pad_update digital_inv_def) (simp_all add: io_update_def)
  have w: "length (ios ?w) = 12" using l by (simp add: Let_def io_update_def)
  have "digital_inv ?t"
  proof (rule inv_update [OF u(2) p c(2,3)])
    show "map io_pad (ios ?t) = digio_pads" using pads_w by (simp add: io_pad_update)
    show "channels ?t = (channels u)[nat (snd (digio_pads ! nat p)) := c]" using pads_w by (simp add: io_update_def)
  next
    fix q :: nat assume q: "q < 12" "intrCount (ios ?t ! q) \<ge> 0"
    show "q = nat p \<or> {nat p, q} \<noteq> {3, 9} \<and> 0 \<le> intrCount (ios u ! q)"
    proof (cases "q = nat p")
      case False
      then have "intrCount (ios ?w ! q) \<ge> 0" using q by (simp add: io_update_def)
      then show ?thesis using False l q(1) shared assms(2)
        by (auto simp: io_update_def Let_def pin_index_defs nth_list_update doubleton_eq_iff split: if_splits)
    qed simp
  qed
  moreover have "intrCount (ios ?t ! nat p) = 0" using w p by (simp add: io_update_def)
  ultimately show ?thesis using e by blast
qed


lemma IntrRun_frame: "ios (vexDigitalIntrRun s) = ios s \<and> channels (vexDigitalIntrRun s) = channels s"
proof -
  have "ios (fold (\<lambda>io s. if intrCount io = 0 then extChannelEnable (snd (io_pad io)) s else s) xs s) = ios s \<and>
    channels (fold (\<lambda>io s. if intrCount io = 0 then extChannelEnable (snd (io_pad io)) s else s) xs s) = channels s" for xs
    by (induction xs arbitrary: s) (simp_all add: extChannelEnable_def)
  then show ?thesis by (simp add: vexDigitalIntrRun_def)
qed

lemma vi_cb_loop_at:
  assumes "p < length xs" "snd (io_pad (xs ! p)) = i16 ch" "intrCount (xs ! p) \<ge> 0"
    and "\<forall>q<p. snd (io_pad (xs ! q)) = i16 ch \<longrightarrow> intrCount (xs ! q) < 0"
  shows "vi_cb_loop ch xs = xs[p := (xs ! p)\<lparr>intrCount := i32 (intrCount (xs ! p) + 1)\<rparr>]"
  using assms
proof (induction xs arbitrary: p)
  case (Cons x xs)
  show ?case
  proof (cases p)
    case 0
    then show ?thesis using Cons.prems by simp
  next
    case (Suc r)
    have "vi_cb_loop ch xs = xs[r := (xs ! r)\<lparr>intrCount := i32 (intrCount (xs ! r) + 1)\<rparr>]"
      by (rule Cons.IH) (use Cons.prems Suc in auto)
    moreover have "snd (io_pad x) = i16 ch \<longrightarrow> intrCount x < 0" using Cons.prems(4) Suc by force
    ultimately show ?thesis using Suc by auto
  qed
qed simp

lemma vi_cb_loop_none:
  assumes "\<forall>q<length xs. snd (io_pad (xs ! q)) = i16 ch \<longrightarrow> intrCount (xs ! q) < 0"
  shows "vi_cb_loop ch xs = xs"
  using assms
proof (induction xs)
  case (Cons x xs)
  have "vi_cb_loop ch xs = xs" by (rule Cons.IH) (use Cons.prems in auto)
  moreover have "snd (io_pad x) = i16 ch \<longrightarrow> intrCount x < 0" using Cons.prems by force
  ultimately show ?case by auto
qed simp

lemma pad_i16: "p < 12 \<Longrightarrow> i16 (snd (digio_pads ! p)) = snd (digio_pads ! p)"
  using pads_16 [of p] by (intro i16_id) auto

lemma port_mode_ext: "g \<in> {GPIOC, GPIOD, GPIOE} \<Longrightarrow> ch_mode c = port_mode g \<Longrightarrow>
    ext_port c = g \<and> ch_mode c AND EXT_CH_MODE_EDGES_MASK \<noteq> EXT_CH_MODE_DISABLED"
  by (auto simp: ext_port_def port_mode_def ext_mode_defs gpio_defs drop_bit_eq_div)

lemma pads_distinct: "p < 12 \<Longrightarrow> q < 12 \<Longrightarrow> digio_pads ! p = digio_pads ! q \<Longrightarrow> p = q"
  using nth_eq_iff_index_eq [of digio_pads p q] by (simp add: digio_pads_def gpio_defs)

text \<open>A counter that is live owns its channel: the channel is connected to the pin's port and to no other counter.\<close>

lemma live_unique:
  assumes "digital_inv s" "p < 12" "q < 12" "intrCount (ios s ! p) \<ge> 0" "intrCount (ios s ! q) \<ge> 0"
    and "snd (digio_pads ! p) = snd (digio_pads ! q)"
  shows "p = q"
proof -
  have "ch_mode (channels s ! nat (snd (digio_pads ! p))) = port_mode (fst (digio_pads ! p))"
    and "ch_mode (channels s ! nat (snd (digio_pads ! q))) = port_mode (fst (digio_pads ! q))"
    using assms(1-5) by (simp_all add: digital_inv_def)
  then have "port_mode (fst (digio_pads ! p)) = port_mode (fst (digio_pads ! q))" using assms(6) by simp
  then have "fst (digio_pads ! p) = fst (digio_pads ! q)"
    using pads_ports [OF assms(2)] pads_ports [OF assms(3)] by (auto simp: port_mode_def gpio_defs ext_mode_defs)
  then show ?thesis using assms(6) pads_distinct [OF assms(2,3)] by (simp add: prod_eq_iff)
qed

lemma edge_effect:
  assumes "digital_inv s" "p < 12"
  shows "pin_edge (digio_pads ! p) s =
    (if intrCount (ios s ! p) \<ge> 0 \<and> ch_enabled s (snd (digio_pads ! p))
     then io_update (int p) (\<lambda>io. io\<lparr>intrCount := i32 (intrCount io + 1)\<rparr>) s else s)"
proof -
  have l: "length (ios s) = 12" "\<And>q. q < 12 \<Longrightarrow> io_pad (ios s ! q) = digio_pads ! q"
    using inv_ios [OF assms(1)] by auto
  let ?c = "snd (digio_pads ! p)"
  show ?thesis
  proof (cases "intrCount (ios s ! p) \<ge> 0")
    case True
    have "ext_fires (digio_pads ! p) s = (if ch_enabled s ?c then Some Vi_cb else None)"
    proof -
      have live: "ch_mode (channels s ! nat ?c) = port_mode (fst (digio_pads ! p))" "ch_cb (channels s ! nat ?c) = Some Vi_cb"
        using assms True by (simp_all add: digital_inv_def)
      show ?thesis using port_mode_ext [OF _ live(1)] pads_ports [OF assms(2)] live(2)
        by (simp add: ext_fires_def Let_def)
    qed
    moreover have "vi_cb_loop ?c (ios s) = (ios s)[p := (ios s ! p)\<lparr>intrCount := i32 (intrCount (ios s ! p) + 1)\<rparr>]"
    proof (rule vi_cb_loop_at)
      show "\<forall>q<p. snd (io_pad (ios s ! q)) = i16 ?c \<longrightarrow> intrCount (ios s ! q) < 0"
      proof (intro allI impI)
        fix q assume q: "q < p" "snd (io_pad (ios s ! q)) = i16 ?c"
        then have "snd (digio_pads ! p) = snd (digio_pads ! q)" using assms(2) l(2) [of q] pad_i16 by simp
        then show "intrCount (ios s ! q) < 0"
          using live_unique [OF assms(1,2), of q] q(1) assms(2) True by force
      qed
    qed (use assms l True pad_i16 in simp_all)
    ultimately show ?thesis using True by (simp add: pin_edge_def vi_cb_def io_update_def)
  next
    case False
    have "ext_fires (digio_pads ! p) s = Some Vi_cb \<Longrightarrow> vi_cb_loop ?c (ios s) = ios s"
    proof (rule vi_cb_loop_none, intro allI impI, rule ccontr)
      fix q assume fire: "ext_fires (digio_pads ! p) s = Some Vi_cb"
        and q: "q < length (ios s)" "snd (io_pad (ios s ! q)) = i16 ?c" "\<not> intrCount (ios s ! q) < 0"
      then have same: "snd (digio_pads ! q) = ?c" and q12: "q < 12" using assms(2) l pad_i16 by simp_all
      have "ch_mode (channels s ! nat ?c) = port_mode (fst (digio_pads ! q))"
      proof -
        have "\<forall>p<12. intrCount (ios s ! p) \<ge> 0 \<longrightarrow>
            ch_mode (channels s ! nat (snd (digio_pads ! p))) = port_mode (fst (digio_pads ! p))"
          using assms(1) unfolding digital_inv_def by blast
        with q(3) q12 have "ch_mode (channels s ! nat (snd (digio_pads ! q))) = port_mode (fst (digio_pads ! q))"
          by (meson not_less)
        with same show ?thesis by simp
      qed
      then have "ext_port (channels s ! nat ?c) = fst (digio_pads ! q)"
        using port_mode_ext pads_ports [OF q12] by blast
      moreover have "ext_port (channels s ! nat ?c) = fst (digio_pads ! p)"
        using fire by (simp add: ext_fires_def Let_def split: if_splits)
      ultimately have "fst (digio_pads ! p) = fst (digio_pads ! q)" by simp
      with same have "digio_pads ! p = digio_pads ! q" by (metis prod_eqI)
      then have "p = q" by (rule pads_distinct [OF assms(2) q12])
      then show False using False q(3) by simp
    qed
    then show ?thesis using False by (simp add: pin_edge_def vi_cb_def)
  qed
qed

lemma inv_counts:
  assumes "digital_inv s" "p < 12" "intrCount (ios s ! p) \<ge> 0"
  shows "digital_inv (io_update (int p) (\<lambda>io. io\<lparr>intrCount := n\<rparr>) s)"
proof -
  have "map io_pad (ios (io_update (int p) (\<lambda>io. io\<lparr>intrCount := n\<rparr>) s)) = digio_pads"
    using assms(1) by (simp add: io_pad_update digital_inv_def)
  then show ?thesis using assms inv_ios [OF assms(1)]
    by (auto simp: digital_inv_def chan_ok_def io_update_def nth_list_update)
qed

lemma edge_inv: "digital_inv s \<Longrightarrow> p < 12 \<Longrightarrow> digital_inv (pin_edge (digio_pads ! p) s)"
  using edge_effect [of s p] inv_counts [of s p "i32 (intrCount (ios s ! p) + 1)"]
  by (simp add: io_update_def)


text \<open>What the program does with the pins, and what happens at them.\<close>

inductive digital_step :: "digital_state \<Rightarrow> digital_state \<Rightarrow> bool" where
  intr_set: "0 \<le> p \<Longrightarrow> p < 12 \<Longrightarrow> vexDigitalIntrSet p s = Some t \<Longrightarrow> digital_step s t"
| mode_set: "0 \<le> p \<Longrightarrow> p < 12 \<Longrightarrow> vexDigitalModeSet p m s = Some t \<Longrightarrow> digital_step s t"
| pin_set: "0 \<le> p \<Longrightarrow> p < 12 \<Longrightarrow> vexDigitalPinSet p v s = Some t \<Longrightarrow> digital_step s t"
| intr_run: "digital_step s (vexDigitalIntrRun s)"
| edge: "q \<in> set digio_pads \<Longrightarrow> digital_step s (pin_edge q s)"

inductive_cases digital_stepE: "digital_step s t"

lemma digital_reset_inv: "digital_inv digital_reset"
proof -
  have "map io_pad vexioDefinition = digio_pads" by (simp add: vexioDefinition_def comp_def)
  moreover have "list_all (\<lambda>io. intrCount io < 0) vexioDefinition" "length vexioDefinition = 12" by code_simp+
  then have "\<forall>p<12. intrCount (vexioDefinition ! p) < 0" by (simp add: list_all_length)
  moreover have "length vexExtCfg = 16" by code_simp
  moreover have "list_all (\<lambda>q. snd q \<noteq> 7 \<longrightarrow> ch_mode (vexExtCfg ! nat (snd q)) AND EXT_MODE_GPIO_MASK = of_nat (fst q) * 16) digio_pads"
    "length digio_pads = 12" by code_simp+
  then have "\<forall>p<12. snd (digio_pads ! p) \<noteq> 7 \<longrightarrow>
      ch_mode (vexExtCfg ! nat (snd (digio_pads ! p))) AND EXT_MODE_GPIO_MASK = of_nat (fst (digio_pads ! p)) * 16"
    by (simp add: list_all_length)
  ultimately show ?thesis by (auto simp: digital_inv_def chan_ok_def digital_reset_def not_le)
qed

lemma digital_step_inv: "digital_step s t \<Longrightarrow> digital_inv s \<Longrightarrow> digital_inv t"
proof (induction rule: digital_step.induct)
  case (intr_set p s t)
  then show ?case using IntrSet_inv [of s p] by auto
next
  case (mode_set p m s t)
  then show ?case using ModeSet_frame [of s p m] by auto
next
  case (pin_set p v s t)
  then have "ios t = ios s \<and> channels t = channels s" using pin_ok_inv [of s p]
    by (auto simp: vexDigitalPinSet_def palSetPad_def palClearPad_def split: if_splits)
  then show ?case using pin_set.prems by (simp add: digital_inv_def chan_ok_def)
next
  case (intr_run s)
  then show ?case using IntrRun_frame [of s] by (simp add: digital_inv_def chan_ok_def)
next
  case (edge q s)
  moreover have "length digio_pads = 12" by (simp add: digio_pads_def)
  ultimately obtain p where "p < 12" "q = digio_pads ! p" by (metis in_set_conv_nth)
  then show ?case using edge_inv edge.prems by simp
qed

lemma digital_reachable_inv: "digital_step\<^sup>*\<^sup>* digital_reset s \<Longrightarrow> digital_inv s"
  by (induction rule: rtranclp_induct) (auto intro: digital_reset_inv digital_step_inv)



definition sample_digital :: digital_state where
  "sample_digital = vexDigitalIntrRun (the (vexDigitalIntrSet 9 (the (vexDigitalIntrSet 3 digital_reset))))"

lemma sample_digital_reachable: "digital_step\<^sup>*\<^sup>* digital_reset sample_digital"
proof -
  have set3: "vexDigitalIntrSet 3 digital_reset = Some (the (vexDigitalIntrSet 3 digital_reset))"
    using IntrSet_inv [OF digital_reset_inv, of 3] by auto
  then have r1: "digital_step\<^sup>*\<^sup>* digital_reset (the (vexDigitalIntrSet 3 digital_reset))"
    by (intro r_into_rtranclp intr_set [of 3]) simp_all
  have "vexDigitalIntrSet 9 (the (vexDigitalIntrSet 3 digital_reset)) =
      Some (the (vexDigitalIntrSet 9 (the (vexDigitalIntrSet 3 digital_reset))))"
    using IntrSet_inv [OF digital_reachable_inv [OF r1], of 9] by auto
  then have "digital_step (the (vexDigitalIntrSet 3 digital_reset)) (the (vexDigitalIntrSet 9 (the (vexDigitalIntrSet 3 digital_reset))))"
    by (intro intr_set [of 9]) simp_all
  with r1 show ?thesis unfolding sample_digital_def
    by (meson intr_run rtranclp.rtrancl_into_rtrancl)
qed

lemma sample_digital_values:
  "map intrCount (ios sample_digital) = [-1, -1, -1, -1, -1, -1, -1, -1, -1, 0, -1, -1]"
  "io_pad (ios sample_digital ! 9) = (GPIOE, 7)" "ch_enabled sample_digital 7" "vexDigitalIntrCountGet 3 sample_digital = Some (- 1)"
  by code_simp+


end
