(* ===== verification/SmartMotor.thy ===== *)
theory SmartMotor
  imports Complex_Main VexDigital
begin

text \<open>
  The smart motor library of ConVEX, \<open>src/convex/cortex/opt/smartmotor.c\<close>: commands that reach the motors
  through a slew rate task, and a monitoring task that estimates speed, current and temperature of every motor
  and limits its command. A \<open>float\<close> is an exact rational: rounding is not modelled, and a division by zero or a
  conversion that does not fit an \<open>int\<close> is \<open>None\<close>. The two approximations of \<open>fastmath.c\<close>, which reinterpret the bits
  of a \<open>float\<close>, are arguments. A pointer to a motor or a bank is its index; \<open>None\<close> is NULL.
\<close>

section \<open>Data\<close>

definition SMLIB_TOTAL_NUM_CONTROL_BANKS :: int where "SMLIB_TOTAL_NUM_CONTROL_BANKS = 3"
definition SMLIB_TOTAL_NUM_BANK_MOTORS :: nat where "SMLIB_TOTAL_NUM_BANK_MOTORS = 5"
definition SMLIB_CORTEX_PORT_0 :: nat where "SMLIB_CORTEX_PORT_0 = 0"
definition SMLIB_CORTEX_PORT_1 :: nat where "SMLIB_CORTEX_PORT_1 = 1"
definition SMLIB_PWREXP_PORT_0 :: nat where "SMLIB_PWREXP_PORT_0 = 2"

lemmas bank_consts = SMLIB_TOTAL_NUM_CONTROL_BANKS_def SMLIB_TOTAL_NUM_BANK_MOTORS_def
  SMLIB_CORTEX_PORT_0_def SMLIB_CORTEX_PORT_1_def SMLIB_PWREXP_PORT_0_def

definition SMLIB_MOTOR_MAX_CMD :: int where "SMLIB_MOTOR_MAX_CMD = 127"
definition SMLIB_MOTOR_MIN_CMD :: int where "SMLIB_MOTOR_MIN_CMD = - 127"
definition SMLIB_MOTOR_DEFAULT_SLEW_RATE :: int where "SMLIB_MOTOR_DEFAULT_SLEW_RATE = 10"
definition SMLIB_MOTOR_DEADBAND :: int where "SMLIB_MOTOR_DEADBAND = 10"
definition SMLIB_MOTOR_MAX_CMD_UNDEFINED :: int where "SMLIB_MOTOR_MAX_CMD_UNDEFINED = 255"

lemmas cmd_consts = SMLIB_MOTOR_MAX_CMD_def SMLIB_MOTOR_MIN_CMD_def SMLIB_MOTOR_DEFAULT_SLEW_RATE_def
  SMLIB_MOTOR_DEADBAND_def SMLIB_MOTOR_MAX_CMD_UNDEFINED_def

definition SMLIB_R_SYS :: rat where "SMLIB_R_SYS = 3 / 10"
definition SMLIB_PWM_FREQ :: rat where "SMLIB_PWM_FREQ = 1150"
definition SMLIB_V_DIODE :: rat where "SMLIB_V_DIODE = 75 / 100"
definition SMLIB_I_FREE_393 :: rat where "SMLIB_I_FREE_393 = 2 / 10"
definition SMLIB_I_STALL_393 :: rat where "SMLIB_I_STALL_393 = 48 / 10"
definition SMLIB_RPM_FREE_393 :: rat where "SMLIB_RPM_FREE_393 = 110"
definition SMLIB_R_393 :: rat where "SMLIB_R_393 = 72 / 10 / SMLIB_I_STALL_393"
definition SMLIB_L_393 :: rat where "SMLIB_L_393 = 650 / 1000000"
definition SMLIB_Ke_393 :: rat where
  "SMLIB_Ke_393 = 72 / 10 * (1 - SMLIB_I_FREE_393 / SMLIB_I_STALL_393) / SMLIB_RPM_FREE_393"
definition SMLIB_I_SAFE393 :: rat where "SMLIB_I_SAFE393 = 90 / 100"
definition SMLIB_I_FREE_269 :: rat where "SMLIB_I_FREE_269 = 18 / 100"
definition SMLIB_I_STALL_269 :: rat where "SMLIB_I_STALL_269 = 288 / 100"
definition SMLIB_RPM_FREE_269 :: rat where "SMLIB_RPM_FREE_269 = 120"
definition SMLIB_R_269 :: rat where "SMLIB_R_269 = 72 / 10 / SMLIB_I_STALL_269"
definition SMLIB_L_269 :: rat where "SMLIB_L_269 = 650 / 1000000"
definition SMLIB_Ke_269 :: rat where
  "SMLIB_Ke_269 = 72 / 10 * (1 - SMLIB_I_FREE_269 / SMLIB_I_STALL_269) / SMLIB_RPM_FREE_269"
definition SMLIB_I_SAFE269 :: rat where "SMLIB_I_SAFE269 = 75 / 100"
definition SMLIB_I_SAFECORTEX :: rat where "SMLIB_I_SAFECORTEX = 3"
definition SMLIB_TPR_269 :: rat where "SMLIB_TPR_269 = 240448 / 1000"
definition SMLIB_TPR_393R :: rat where "SMLIB_TPR_393R = 261333 / 1000"
definition SMLIB_TPR_393S :: rat where "SMLIB_TPR_393S = 392"
definition SMLIB_TPR_393T :: rat where "SMLIB_TPR_393T = 6272 / 10"
definition SMLIB_TPR_QUAD :: rat where "SMLIB_TPR_QUAD = 360"
definition SMLIB_TEMP_AMBIENT :: rat where "SMLIB_TEMP_AMBIENT = (72 - 32) * 5 / 9"
definition SMLIB_TEMP_TRIP :: rat where "SMLIB_TEMP_TRIP = 100"
definition SMLIB_TEMP_HYST :: rat where "SMLIB_TEMP_HYST = 10"
definition SMLIB_TEMP_REF :: rat where "SMLIB_TEMP_REF = 25"

text \<open>The constants of the three kinds of PTC: hold current, time to trip; the safety factor is the same.\<close>

definition ptc_c1 :: "rat \<Rightarrow> rat" where
  "ptc_c1 i_hold = (SMLIB_TEMP_TRIP - SMLIB_TEMP_REF) / (i_hold * i_hold)"

definition ptc_c2 :: "rat \<Rightarrow> rat" where
  "ptc_c2 t_trip = 1 / ((5 / 10 * t_trip * 5 * 5) * 1000)"

definition SMLIB_C1_CORTEX :: rat where "SMLIB_C1_CORTEX = ptc_c1 3"
definition SMLIB_C2_CORTEX :: rat where "SMLIB_C2_CORTEX = ptc_c2 (17 / 10)"
definition SMLIB_C1_393 :: rat where "SMLIB_C1_393 = ptc_c1 1"
definition SMLIB_C2_393 :: rat where "SMLIB_C2_393 = ptc_c2 (71 / 10)"
definition SMLIB_C1_269 :: rat where "SMLIB_C1_269 = ptc_c1 (75 / 100)"
definition SMLIB_C2_269 :: rat where "SMLIB_C2_269 = ptc_c2 2"

definition ENCODER_ID_SENSOR :: int where "ENCODER_ID_SENSOR = 0x800"

record smartMotor =
  sm_port :: int
  eport :: int
  sm_type :: tVexMotorType
  delayTimeMs :: int
  bank :: "nat option"
  motor_cmd :: int
  motor_req :: int
  motor_slew :: int
  limit_tripped :: bool
  limit_cmd :: int
  limit_current :: rat
  sm_encoder_id :: int
  ticks_per_rev :: rat
  enc :: int
  oldenc :: int
  delta :: rat
  rpm :: rat
  i_free :: rat
  i_stall :: rat
  r_motor :: rat
  l_motor :: rat
  ke_motor :: rat
  rpm_free :: rat
  v_bemf_max :: rat
  current_a :: rat
  filtered_current :: rat
  peak_current :: rat
  safe_current :: rat
  target_current :: rat
  temperature :: rat
  t_const_1 :: rat
  t_const_2 :: rat
  t_ambient :: rat
  ptc_tripped :: bool
  lastPgmTime :: int

record smartController =
  bank_motors :: "nat option list"
  bank_current :: rat
  bank_peak_current :: rat
  bank_safe_current :: rat
  bank_temperature :: rat
  bank_t_const_1 :: rat
  bank_t_const_2 :: rat
  bank_t_ambient :: rat
  bank_ptc_tripped :: bool
  statusLed :: int
  statusPort :: int

record smart_state =
  sMotors :: "smartMotor list"
  sPorts :: "smartController list"
  PtcLimitEnabled :: bool
  CurrentLimitEnabled :: bool

definition sm_update :: "int \<Rightarrow> (smartMotor \<Rightarrow> smartMotor) \<Rightarrow> smart_state \<Rightarrow> smart_state" where
  "sm_update index f s = s\<lparr>sMotors := (sMotors s)[nat index := f (sMotors s ! nat index)]\<rparr>"

definition controller_update :: "nat \<Rightarrow> (smartController \<Rightarrow> smartController) \<Rightarrow> smart_state \<Rightarrow> smart_state" where
  "controller_update b f s = s\<lparr>sPorts := (sPorts s)[b := f (sPorts s ! b)]\<rparr>"

definition no_motor :: "int \<Rightarrow> bool" where
  "no_motor index \<longleftrightarrow> index < 0 \<or> index \<ge> kVexMotorNum"

definition no_bank :: "int \<Rightarrow> bool" where
  "no_bank index \<longleftrightarrow> index < 0 \<or> index \<ge> SMLIB_TOTAL_NUM_CONTROL_BANKS"

section \<open>Arithmetic\<close>

definition fdiv :: "rat \<Rightarrow> rat \<Rightarrow> rat option" where
  "fdiv a b = (if b = 0 then None else Some (a / b))"

text \<open>The conversion of a \<open>float\<close> to \<open>int\<close> truncates towards zero.\<close>

definition float_to_int :: "rat \<Rightarrow> int option" where
  "float_to_int x =
     (let n = (if x \<ge> 0 then floor x else ceiling x)
      in if - 2147483648 \<le> n \<and> n \<le> 2147483647 then Some n else None)"

definition sub32 :: "int \<Rightarrow> int \<Rightarrow> int option" where
  "sub32 a b = (if - 2147483648 \<le> a - b \<and> a - b \<le> 2147483647 then Some (a - b) else None)"

section \<open>Access\<close>

definition SmartMotorGetPtr :: "int \<Rightarrow> int option" where
  "SmartMotorGetPtr index = (if no_motor index then None else Some index)"

text \<open>The bound checked here is the number of motors, not of banks.\<close>

definition SmartMotorControllerGetPtr :: "int \<Rightarrow> int option" where
  "SmartMotorControllerGetPtr index = (if no_motor index then None else Some index)"

definition SmartMotorGetSpeed :: "int \<Rightarrow> smart_state \<Rightarrow> rat" where
  "SmartMotorGetSpeed index s = (if no_motor index then 0 else rpm (sMotors s ! nat index))"

definition SmartMotorGetCurrent :: "int \<Rightarrow> int \<Rightarrow> smart_state \<Rightarrow> rat" where
  "SmartMotorGetCurrent index sgnd s =
     (if no_motor index then 0
      else if sgnd \<noteq> 0 then current_a (sMotors s ! nat index) else \<bar>current_a (sMotors s ! nat index)\<bar>)"

definition SmartMotorGetTemperature :: "int \<Rightarrow> smart_state \<Rightarrow> rat" where
  "SmartMotorGetTemperature index s = (if no_motor index then 0 else temperature (sMotors s ! nat index))"

definition SmartMotorGetLimitCmd :: "int \<Rightarrow> smart_state \<Rightarrow> int" where
  "SmartMotorGetLimitCmd index s = (if no_motor index then 0 else limit_cmd (sMotors s ! nat index))"

definition SmartMotorSetLimitCurent :: "int \<Rightarrow> rat \<Rightarrow> smart_state \<Rightarrow> smart_state" where
  "SmartMotorSetLimitCurent index a s =
     (if no_motor index then s else sm_update index (\<lambda>m. m\<lparr>limit_current := a\<rparr>) s)"

definition SmartMotorSetFreeRpm :: "int \<Rightarrow> int \<Rightarrow> smart_state \<Rightarrow> smart_state option" where
  "SmartMotorSetFreeRpm index max_rpm s =
     (if no_motor index then Some s
      else do {
        let m = (sMotors s ! nat index)\<lparr>rpm_free := of_int max_rpm\<rparr>;
        ratio \<leftarrow> fdiv (i_free m) (i_stall m);
        ke \<leftarrow> fdiv (72 / 10 * (1 - ratio)) (rpm_free m);
        let m = m\<lparr>ke_motor := ke\<rparr>;
        Some (sm_update index (\<lambda>_. m\<lparr>v_bemf_max := ke_motor m * rpm_free m\<rparr>) s)
      })"

text \<open>The rate is kept in a \<open>short\<close>.\<close>

definition SmartMotorSetSlewRate :: "int \<Rightarrow> int \<Rightarrow> smart_state \<Rightarrow> smart_state" where
  "SmartMotorSetSlewRate index slew_rate s =
     (if no_motor index then s
      else if slew_rate \<le> 0 then s
      else sm_update index (\<lambda>m. m\<lparr>motor_slew := i16 slew_rate\<rparr>) s)"

definition SmartMotorGetControllerCurrent :: "int \<Rightarrow> smart_state \<Rightarrow> rat" where
  "SmartMotorGetControllerCurrent index s = (if no_bank index then 0 else bank_current (sPorts s ! nat index))"

definition SmartMotorGetControllerTemperature :: "int \<Rightarrow> smart_state \<Rightarrow> rat" where
  "SmartMotorGetControllerTemperature index s = (if no_bank index then 0 else bank_temperature (sPorts s ! nat index))"

definition SmartMotorSetControllerStatusLed :: "int \<Rightarrow> int \<Rightarrow> smart_state \<Rightarrow> smart_state" where
  "SmartMotorSetControllerStatusLed index pin s =
     (if no_bank index then s
      else if pin < 0 \<or> pin > int kVexDigital_12 then s
      else controller_update (nat index) (\<lambda>b. b\<lparr>statusLed := pin\<rparr>) s)"

definition SmartMotorSetPowerExpanderStatusPort :: "int \<Rightarrow> smart_state \<Rightarrow> smart_state" where
  "SmartMotorSetPowerExpanderStatusPort p s =
     (if p < 0 \<or> p > 7 then s else controller_update SMLIB_PWREXP_PORT_0 (\<lambda>b. b\<lparr>statusPort := p\<rparr>) s)"

definition SmartMotorPtcMonitorEnable :: "smart_state \<Rightarrow> smart_state" where
  "SmartMotorPtcMonitorEnable s = s\<lparr>CurrentLimitEnabled := False, PtcLimitEnabled := True\<rparr>"

definition SmartMotorPtcMonitorDisable :: "smart_state \<Rightarrow> smart_state" where
  "SmartMotorPtcMonitorDisable s = s\<lparr>PtcLimitEnabled := False\<rparr>"

definition SmartMotorCurrentMonitorEnable :: "smart_state \<Rightarrow> smart_state" where
  "SmartMotorCurrentMonitorEnable s = s\<lparr>PtcLimitEnabled := False, CurrentLimitEnabled := True\<rparr>"

definition SmartMotorCurrentMonitorDisable :: "smart_state \<Rightarrow> smart_state" where
  "SmartMotorCurrentMonitorDisable s = s\<lparr>CurrentLimitEnabled := False\<rparr>"

section \<open>Commands\<close>

definition SetMotor :: "int \<Rightarrow> int \<Rightarrow> bool \<Rightarrow> smart_state \<times> motor_state \<Rightarrow> smart_state \<times> motor_state" where
  "SetMotor index v immediate s =
     (if no_motor index then s
      else let cmd = (if v > SMLIB_MOTOR_MAX_CMD then SMLIB_MOTOR_MAX_CMD
                      else if v < SMLIB_MOTOR_MIN_CMD then SMLIB_MOTOR_MIN_CMD
                      else if \<bar>v\<bar> \<ge> SMLIB_MOTOR_DEADBAND then v else 0)
           in (sm_update index (\<lambda>m. m\<lparr>motor_cmd := cmd\<rparr>) (fst s),
               if immediate then vexMotorSet index v (snd s) else snd s))"

section \<open>Setup\<close>

text \<open>What the library reads from the rest of the system; \<open>'w\<close> is the state of the encoders.\<close>

record 'w smart_env =
  positions :: "'w position_env"
  main_battery :: "'w \<Rightarrow> int"
  time_now :: "'w \<Rightarrow> int"
  adc_get :: "int \<Rightarrow> 'w \<Rightarrow> int"
  fastexp :: "rat \<Rightarrow> rat"
  fastlog :: "rat \<Rightarrow> rat"

definition clear_bank :: "smartController \<Rightarrow> smartController" where
  "clear_bank b = b\<lparr>bank_motors := replicate SMLIB_TOTAL_NUM_BANK_MOTORS None,
     bank_t_const_1 := SMLIB_C1_CORTEX, bank_t_const_2 := SMLIB_C2_CORTEX, bank_t_ambient := SMLIB_TEMP_AMBIENT,
     bank_temperature := SMLIB_TEMP_AMBIENT, bank_current := 0, bank_peak_current := 0,
     bank_safe_current := SMLIB_I_SAFECORTEX, statusLed := kVexDigital_None, statusPort := - 1\<rparr>"

definition motor_constants :: "smartMotor \<Rightarrow> smartMotor" where
  "motor_constants m =
     (case sm_type m of
        kVexMotor393T \<Rightarrow> m\<lparr>i_free := SMLIB_I_FREE_393, i_stall := SMLIB_I_STALL_393, r_motor := SMLIB_R_393,
          l_motor := SMLIB_L_393, ke_motor := SMLIB_Ke_393, rpm_free := SMLIB_RPM_FREE_393,
          ticks_per_rev := SMLIB_TPR_393T, safe_current := SMLIB_I_SAFE393, t_const_1 := SMLIB_C1_393, t_const_2 := SMLIB_C2_393\<rparr>
      | kVexMotor393S \<Rightarrow> m\<lparr>i_free := SMLIB_I_FREE_393, i_stall := SMLIB_I_STALL_393, r_motor := SMLIB_R_393,
          l_motor := SMLIB_L_393, ke_motor := SMLIB_Ke_393 / (16 / 10), rpm_free := SMLIB_RPM_FREE_393 * (16 / 10),
          ticks_per_rev := SMLIB_TPR_393S, safe_current := SMLIB_I_SAFE393, t_const_1 := SMLIB_C1_393, t_const_2 := SMLIB_C2_393\<rparr>
      | kVexMotor393R \<Rightarrow> m\<lparr>i_free := SMLIB_I_FREE_393, i_stall := SMLIB_I_STALL_393, r_motor := SMLIB_R_393,
          l_motor := SMLIB_L_393, ke_motor := SMLIB_Ke_393 / (24 / 10), rpm_free := SMLIB_RPM_FREE_393 * (24 / 10),
          ticks_per_rev := SMLIB_TPR_393R, safe_current := SMLIB_I_SAFE393, t_const_1 := SMLIB_C1_393, t_const_2 := SMLIB_C2_393\<rparr>
      | kVexMotor269 \<Rightarrow> m\<lparr>i_free := SMLIB_I_FREE_269, i_stall := SMLIB_I_STALL_269, r_motor := SMLIB_R_269,
          l_motor := SMLIB_L_269, ke_motor := SMLIB_Ke_269, rpm_free := SMLIB_RPM_FREE_269,
          ticks_per_rev := SMLIB_TPR_269, safe_current := SMLIB_I_SAFE269, t_const_1 := SMLIB_C1_269, t_const_2 := SMLIB_C2_269\<rparr>
      | _ \<Rightarrow> m\<lparr>sm_type := kVexMotorUndefined\<rparr>)"

definition motor_encoder :: "'w position_env \<Rightarrow> motor_state \<Rightarrow> 'w \<Rightarrow> smartMotor \<Rightarrow> smartMotor option" where
  "motor_encoder env ms w m =
     (if sm_encoder_id m < 0 then Some (m\<lparr>ticks_per_rev := - 1, enc := 0, oldenc := 0\<rparr>)
      else do {
        let m = (if sm_encoder_id m < 20 then m\<lparr>ticks_per_rev := SMLIB_TPR_QUAD\<rparr> else m);
        p \<leftarrow> vexMotorPositionGet env (eport m) ms w;
        Some (m\<lparr>enc := p, oldenc := p\<rparr>)
      })"

definition bank_of :: "int \<Rightarrow> nat" where
  "bank_of i = (if nat i < SMLIB_TOTAL_NUM_BANK_MOTORS then SMLIB_CORTEX_PORT_0 else SMLIB_CORTEX_PORT_1)"

definition bank_slot :: "int \<Rightarrow> nat" where
  "bank_slot i = (if nat i < SMLIB_TOTAL_NUM_BANK_MOTORS then nat i else nat i - SMLIB_TOTAL_NUM_BANK_MOTORS)"

definition init_motor :: "'w position_env \<Rightarrow> motor_state \<Rightarrow> 'w \<Rightarrow> int \<Rightarrow> smart_state \<Rightarrow> smart_state option" where
  "init_motor env ms w i s = do {
     let m = (sMotors s ! nat i)\<lparr>sm_port := i, eport := i, sm_type := vexMotorTypeGet i ms\<rparr>;
     let m = motor_constants m;
     m \<leftarrow> motor_encoder env ms w m;
     let m = m\<lparr>t_ambient := SMLIB_TEMP_AMBIENT, temperature := SMLIB_TEMP_AMBIENT, target_current := safe_current m,
               limit_current := safe_current m, peak_current := 0, limit_tripped := False, ptc_tripped := False,
               limit_cmd := SMLIB_MOTOR_MAX_CMD_UNDEFINED, v_bemf_max := ke_motor m * rpm_free m,
               bank := Some (bank_of i), lastPgmTime := - 1\<rparr>;
     let s = sm_update i (\<lambda>_. m) s;
     Some (if sm_type m \<noteq> kVexMotorUndefined
           then controller_update (bank_of i) (\<lambda>b. b\<lparr>bank_motors := (bank_motors b)[bank_slot i := Some (nat i)]\<rparr>) s else s)
   }"

fun init_motors :: "'w position_env \<Rightarrow> motor_state \<Rightarrow> 'w \<Rightarrow> int list \<Rightarrow> smart_state \<Rightarrow> smart_state option" where
  "init_motors env ms w [] s = Some s"
| "init_motors env ms w (i # is) s = do { s \<leftarrow> init_motor env ms w i s; init_motors env ms w is s }"

definition SmartMotorsInit :: "'w position_env \<Rightarrow> motor_state \<Rightarrow> 'w \<Rightarrow> smart_state \<Rightarrow> smart_state option" where
  "SmartMotorsInit env ms w s =
     (let s = s\<lparr>sPorts := map clear_bank (sPorts s)\<rparr>;
          s = fold (\<lambda>i. sm_update i (\<lambda>m. m\<lparr>sm_encoder_id := i16 (vexMotorEncoderIdGet env i ms w)\<rparr>)) [0..kVexMotorNum - 1] s
      in init_motors env ms w [0..kVexMotorNum - 1] s)"

definition SmartMotorLinkMotors :: "int \<Rightarrow> int \<Rightarrow> smart_state \<Rightarrow> smart_state" where
  "SmartMotorLinkMotors master slave s =
     (if no_motor master then s
      else if no_motor slave then s
      else let m = sMotors s ! nat master
           in if sm_encoder_id m = - 1 then s
              else sm_update slave (\<lambda>v. v\<lparr>eport := sm_port m, ticks_per_rev := ticks_per_rev m,
                     sm_encoder_id := sm_encoder_id m, enc := enc m, oldenc := oldenc m\<rparr>) s)"

definition SmartMotorsSetEncoderGearing :: "int \<Rightarrow> rat \<Rightarrow> smart_state \<Rightarrow> smart_state" where
  "SmartMotorsSetEncoderGearing index ratio s =
     (if no_motor index then s
      else if sm_encoder_id (sMotors s ! nat index) \<ge> 0 \<and> sm_encoder_id (sMotors s ! nat index) < 20
      then sm_update index (\<lambda>m. m\<lparr>ticks_per_rev := ticks_per_rev m * ratio\<rparr>) s else s)"

text \<open>The loop of \<open>_SmartMotorsAddPowerExtender\<close>; \<open>p\<close> counts the motors moved.\<close>

definition extender_step :: "int list \<Rightarrow> int \<Rightarrow> nat \<times> smart_state \<Rightarrow> nat \<times> smart_state" where
  "extender_step ports i ps =
     (let (p, s) = ps; m = sMotors s ! nat i
      in if sm_type m \<noteq> kVexMotorUndefined \<and> sm_port m > kVexMotor_1 \<and> sm_port m < kVexMotor_10 \<and> i \<in> set ports
         then (let s = controller_update SMLIB_PWREXP_PORT_0 (\<lambda>b. b\<lparr>bank_motors := (bank_motors b)[p := Some (nat i)]\<rparr>) s;
                   s = sm_update i (\<lambda>m. m\<lparr>bank := Some SMLIB_PWREXP_PORT_0\<rparr>) s
               in (Suc p, controller_update (bank_of i) (\<lambda>b. b\<lparr>bank_motors := (bank_motors b)[bank_slot i := None]\<rparr>) s))
         else (p, s))"

definition SmartMotorsAddPowerExtender :: "int \<Rightarrow> int \<Rightarrow> int \<Rightarrow> int \<Rightarrow> smart_state \<Rightarrow> smart_state" where
  "SmartMotorsAddPowerExtender p0 p1 p2 p3 s =
     snd (fold (extender_step [p0, p1, p2, p3]) [0..kVexMotorNum - 1] (0, s))"

definition SmartMotorSetRpmSensor :: "int \<Rightarrow> int \<Rightarrow> rat \<Rightarrow> bool \<Rightarrow> smart_state \<Rightarrow> smart_state" where
  "SmartMotorSetRpmSensor index p ticks rvsd s =
     (if no_motor index then s
      else if p \<ge> 0 \<and> p \<le> 7 then
        sm_update index (\<lambda>m. m\<lparr>sm_encoder_id := ENCODER_ID_SENSOR + p, ticks_per_rev := if rvsd then - ticks else ticks\<rparr>) s
      else s)"

section \<open>Speed, current and temperature\<close>

text \<open>The common end of the two measurements.\<close>

definition measure_rpm :: "int \<Rightarrow> int \<Rightarrow> smartMotor \<Rightarrow> smartMotor option" where
  "measure_rpm position deltaTime m = do {
     d \<leftarrow> sub32 position (oldenc m);
     rate \<leftarrow> fdiv 1000 (of_int deltaTime);
     r \<leftarrow> fdiv (rate * of_int d * 60) (ticks_per_rev m);
     Some (m\<lparr>enc := position, delta := of_int d, oldenc := position, rpm := r\<rparr>)
   }"

definition SmartMotorSpeed :: "'w position_env \<Rightarrow> motor_state \<Rightarrow> 'w \<Rightarrow> int \<Rightarrow> smartMotor \<Rightarrow> smartMotor option" where
  "SmartMotorSpeed env ms w deltaTime m = do {
     p \<leftarrow> vexMotorPositionGet env (eport m) ms w;
     measure_rpm p deltaTime m
   }"

definition spd_table :: "int list" where
  "spd_table = [0, 26, 58, 77, 85, 92, 95, 98, 100, 100]"

definition SmartMotorSimulateSpeed :: "motor_state \<Rightarrow> smartMotor \<Rightarrow> smartMotor option" where
  "SmartMotorSimulateSpeed ms m =
     (let cmd = vexMotorGet (sm_port m) ms;
          index = drop_bit 4 \<bar>cmd\<bar>
      in if nat (index + 1) < length spd_table then
           (let f = of_int (\<bar>cmd\<bar> - push_bit 4 index) / 16;
                scale = rpm_free m / 100 * (90 / 100);
                speed = of_int (spd_table ! nat index)
                        + of_int (spd_table ! nat (index + 1) - spd_table ! nat index) * f
            in Some (m\<lparr>rpm := of_int (sgn cmd) * (speed * scale)\<rparr>))
         else None)"

definition SmartMotorSensorSpeed :: "(int \<Rightarrow> int) \<Rightarrow> int \<Rightarrow> smartMotor \<Rightarrow> smartMotor option" where
  "SmartMotorSensorSpeed adc deltaTime m =
     (let p = sm_encoder_id m - ENCODER_ID_SENSOR
      in if p < 0 \<or> p > 7 then Some m else measure_rpm (adc p) deltaTime m)"

definition SmartMotorCurrent ::
    "(rat \<Rightarrow> rat) \<Rightarrow> (rat \<Rightarrow> rat) \<Rightarrow> motor_state \<Rightarrow> rat \<Rightarrow> smartMotor \<Rightarrow> smartMotor option" where
  "SmartMotorCurrent fexp flog ms v_battery m = do {
     let cmd = vexMotorGet (sm_port m) ms;
     let cmd = (if sm_port m > kVexMotor_1 \<and> sm_port m < kVexMotor_10 then cdiv (cmd * 128) 90 else cmd);
     let cmd = (if \<bar>cmd\<bar> > 127 then sgn cmd * 127 else cmd);
     let dir = (if \<bar>cmd\<bar> > 10 then of_int (sgn cmd) else sgn (rpm m));
     let duty_on = of_int \<bar>cmd\<bar> / 127;
     lamda \<leftarrow> fdiv (r_motor m) (SMLIB_PWM_FREQ * l_motor m);
     let c1 = fexp (- lamda * duty_on);
     let c2 = fexp (- lamda * (1 - duty_on));
     let v_bemf = ke_motor m * rpm m;
     let v_bemf = (if \<bar>v_bemf\<bar> > v_bemf_max m then sgn v_bemf * v_bemf_max m else v_bemf);
     i_ss_on \<leftarrow> fdiv (v_battery * dir - v_bemf) (r_motor m + SMLIB_R_SYS);
     off \<leftarrow> fdiv (SMLIB_V_DIODE * dir + v_bemf) (r_motor m);
     let i_ss_off = - off;
     i_0 \<leftarrow> fdiv (i_ss_on * (1 - c1) * c2 + i_ss_off * (1 - c2)) (1 - c1 * c2);
     duty_off \<leftarrow> (if i_0 * dir < 0 then do {
                    let i_max = i_ss_on * (1 - c1);
                    q \<leftarrow> fdiv (- i_ss_off) (i_max - i_ss_off);
                    fdiv (- flog q) lamda
                  }
                  else Some (1 - duty_on));
     let i_bar = i_ss_on * duty_on + i_ss_off * duty_off;
     Some (m\<lparr>current_a := i_bar, filtered_current := filtered_current m * (8 / 10) + i_bar * (2 / 10),
             peak_current := if \<bar>i_bar\<bar> > peak_current m then \<bar>i_bar\<bar> else peak_current m\<rparr>)
   }"

definition SmartMotorControllerCurrent :: "smartMotor list \<Rightarrow> smartController \<Rightarrow> smartController" where
  "SmartMotorControllerCurrent ms b =
     (let i = (\<Sum>p\<leftarrow>bank_motors b. case p of None \<Rightarrow> 0
                 | Some k \<Rightarrow> if sm_type (ms ! k) \<noteq> kVexMotorUndefined then \<bar>current_a (ms ! k)\<bar> else 0)
      in b\<lparr>bank_current := i, bank_peak_current := if i > bank_peak_current b then i else bank_peak_current b\<rparr>)"

definition SmartMotorSafeCommand :: "motor_state \<Rightarrow> rat \<Rightarrow> smartMotor \<Rightarrow> int option" where
  "SmartMotorSafeCommand ms v_battery m = do {
     let cmd = vexMotorGet (sm_port m) ms;
     cmd \<leftarrow> (if cmd \<ge> 0 then do {
               cmd \<leftarrow> (if rpm m \<ge> 0 then do {
                         x \<leftarrow> fdiv (of_int SMLIB_MOTOR_MAX_CMD *
                                (rpm m * ke_motor m + target_current m * (r_motor m + SMLIB_R_SYS) + SMLIB_V_DIODE))
                              (v_battery + SMLIB_V_DIODE);
                         float_to_int x
                       }
                       else Some SMLIB_MOTOR_MAX_CMD);
               Some (if cmd > SMLIB_MOTOR_MAX_CMD then SMLIB_MOTOR_MAX_CMD else cmd)
             }
             else do {
               cmd \<leftarrow> (if rpm m \<le> 0 then do {
                         x \<leftarrow> fdiv (of_int SMLIB_MOTOR_MAX_CMD *
                                (rpm m * ke_motor m - target_current m * (r_motor m + SMLIB_R_SYS) - SMLIB_V_DIODE))
                              (v_battery + SMLIB_V_DIODE);
                         float_to_int x
                       }
                       else Some SMLIB_MOTOR_MIN_CMD);
               Some (if cmd < SMLIB_MOTOR_MIN_CMD then SMLIB_MOTOR_MIN_CMD else cmd)
             });
     let cmd = (if target_current m = 0 then 0 else cmd);
     Some (if sm_port m > kVexMotor_1 \<and> sm_port m < kVexMotor_10 then cdiv (cmd * 90) 128 else cmd)
   }"

definition SmartMotorTemperature :: "int \<Rightarrow> smartMotor \<Rightarrow> smartMotor" where
  "SmartMotorTemperature deltaTime m =
     (let rate = t_const_2 m * (current_a m * current_a m * t_const_1 m - (temperature m - t_ambient m))
      in m\<lparr>temperature := temperature m + rate * of_int deltaTime\<rparr>)"

definition SmartMotorControllerTemperature :: "int \<Rightarrow> smartController \<Rightarrow> smartController" where
  "SmartMotorControllerTemperature deltaTime b =
     (let rate = bank_t_const_2 b * (bank_current b * bank_current b * bank_t_const_1 b - (bank_temperature b - bank_t_ambient b))
      in b\<lparr>bank_temperature := bank_temperature b + rate * of_int deltaTime\<rparr>)"

section \<open>Limits\<close>

text \<open>The temperature switch of a motor and of a bank, with its hysteresis.\<close>

definition ptc_switch :: "bool \<Rightarrow> rat \<Rightarrow> bool" where
  "ptc_switch tripped temp =
     (if \<not> tripped then (if temp > SMLIB_TEMP_TRIP then True else tripped)
      else (if temp < SMLIB_TEMP_TRIP - SMLIB_TEMP_HYST then False else tripped))"

definition SmartMotorMonitorPtc :: "motor_state \<Rightarrow> smartController list \<Rightarrow> rat \<Rightarrow> smartMotor \<Rightarrow> smartMotor option" where
  "SmartMotorMonitorPtc ms banks v_battery m =
     (let m = m\<lparr>ptc_tripped := ptc_switch (ptc_tripped m) (temperature m)\<rparr>
      in if (case bank m of None \<Rightarrow> False | Some b \<Rightarrow> bank_ptc_tripped (banks ! b)) then Some m
         else if ptc_tripped m then do {
           let m = m\<lparr>target_current := safe_current m\<rparr>;
           cmd \<leftarrow> SmartMotorSafeCommand ms v_battery m;
           Some (m\<lparr>limit_cmd := i16 cmd\<rparr>)
         }
         else Some (m\<lparr>limit_cmd := SMLIB_MOTOR_MAX_CMD_UNDEFINED\<rparr>))"

definition active_motors :: "smartMotor list \<Rightarrow> smartController \<Rightarrow> int" where
  "active_motors ms b =
     (let n = (\<Sum>p\<leftarrow>bank_motors b. case p of None \<Rightarrow> 0 | Some k \<Rightarrow> if \<bar>current_a (ms ! k)\<bar> > 1 / 10 then 1 else 0)
      in if n = 0 then 1 else n)"

text \<open>Each motor of a tripped bank gets its share of the safe current.\<close>

fun share_current :: "motor_state \<Rightarrow> rat \<Rightarrow> rat \<Rightarrow> nat option list \<Rightarrow> smart_state \<Rightarrow> smart_state option" where
  "share_current ms v_battery share [] s = Some s"
| "share_current ms v_battery share (None # ps) s = share_current ms v_battery share ps s"
| "share_current ms v_battery share (Some k # ps) s = do {
     let m = sMotors s ! k;
     let m = m\<lparr>target_current := if ptc_tripped m \<and> safe_current m < share then safe_current m else share\<rparr>;
     cmd \<leftarrow> SmartMotorSafeCommand ms v_battery m;
     share_current ms v_battery share ps (sm_update (int k) (\<lambda>_. m\<lparr>limit_cmd := i16 cmd\<rparr>) s)
   }"

definition SmartMotorControllerMonitorPtc :: "motor_state \<Rightarrow> rat \<Rightarrow> nat \<Rightarrow> smart_state \<Rightarrow> smart_state option" where
  "SmartMotorControllerMonitorPtc ms v_battery j s =
     (let s = controller_update j (\<lambda>b. b\<lparr>bank_ptc_tripped := ptc_switch (bank_ptc_tripped b) (bank_temperature b)\<rparr>) s;
          b = sPorts s ! j
      in if bank_ptc_tripped b
         then share_current ms v_battery (bank_safe_current b / of_int (active_motors (sMotors s) b)) (bank_motors b) s
         else Some s)"

definition SmartMotorMonitorCurrent :: "motor_state \<Rightarrow> rat \<Rightarrow> smartMotor \<Rightarrow> smartMotor option" where
  "SmartMotorMonitorCurrent ms v_battery m =
     (let m = m\<lparr>target_current := limit_current m\<rparr>;
          m = m\<lparr>limit_tripped :=
                (if \<not> limit_tripped m then (if \<bar>filtered_current m\<bar> > target_current m then True else limit_tripped m)
                 else (if \<bar>filtered_current m\<bar> < target_current m * (9 / 10) then False else limit_tripped m))\<rparr>
      in if limit_tripped m then do {
           cmd \<leftarrow> SmartMotorSafeCommand ms v_battery m;
           Some (m\<lparr>limit_cmd := i16 cmd\<rparr>)
         }
         else Some (m\<lparr>limit_cmd := SMLIB_MOTOR_MAX_CMD_UNDEFINED\<rparr>))"

text \<open>The LED is on when its pin is low.\<close>

definition SmartMotorControllerSetLed :: "smartMotor list \<Rightarrow> smartController \<Rightarrow> digital_state \<Rightarrow> digital_state option" where
  "SmartMotorControllerSetLed ms b d =
     (if statusLed b < 0 then Some d
      else let status = of_bool (bank_ptc_tripped b) + (\<Sum>p\<leftarrow>bank_motors b. case p of None \<Rightarrow> 0
                 | Some k \<Rightarrow> of_bool (ptc_tripped (ms ! k)) + of_bool (limit_tripped (ms ! k)))
           in if status \<noteq> (0 :: int) then vexDigitalPinSet (statusLed b) kVexDigitalLow d else Some d)"

section \<open>The monitoring task\<close>

text \<open>What the task does with one motor.\<close>

definition monitor_motor ::
    "'w smart_env \<Rightarrow> motor_state \<Rightarrow> 'w \<Rightarrow> smart_state \<Rightarrow> rat \<Rightarrow> int \<Rightarrow> smartMotor \<Rightarrow> smartMotor option" where
  "monitor_motor env ms w s v_battery dt m =
     (if sm_type m \<noteq> kVexMotorUndefined then do {
        m \<leftarrow> (if sm_encoder_id m \<ge> 0 then
               (if sm_encoder_id m < ENCODER_ID_SENSOR then SmartMotorSpeed (positions env) ms w dt m
                else SmartMotorSensorSpeed (\<lambda>p. adc_get env p w) dt m)
             else SmartMotorSimulateSpeed ms m);
        m \<leftarrow> SmartMotorCurrent (fastexp env) (fastlog env) ms v_battery m;
        let m = SmartMotorTemperature dt m;
        m \<leftarrow> (if PtcLimitEnabled s then SmartMotorMonitorPtc ms (sPorts s) v_battery m else Some m);
        (if CurrentLimitEnabled s then SmartMotorMonitorCurrent ms v_battery m else Some m)
      }
      else Some m)"

text \<open>The two loops over the banks, after the tenth motor.\<close>

fun monitor_banks :: "motor_state \<Rightarrow> rat \<Rightarrow> int \<Rightarrow> nat list \<Rightarrow> smart_state \<times> digital_state \<Rightarrow> (smart_state \<times> digital_state) option" where
  "monitor_banks ms v_battery dt [] sd = Some sd"
| "monitor_banks ms v_battery dt (j # js) sd = do {
     let (s, d) = sd;
     let s = controller_update j (SmartMotorControllerCurrent (sMotors s)) s;
     let s = controller_update j (SmartMotorControllerTemperature dt) s;
     s \<leftarrow> (if PtcLimitEnabled s then SmartMotorControllerMonitorPtc ms v_battery j s else Some s);
     d \<leftarrow> (if statusLed (sPorts s ! j) \<ge> 0 then vexDigitalPinSet (statusLed (sPorts s ! j)) kVexDigitalHigh d else Some d);
     monitor_banks ms v_battery dt js (s, d)
   }"

fun monitor_leds :: "nat list \<Rightarrow> smart_state \<Rightarrow> digital_state \<Rightarrow> digital_state option" where
  "monitor_leds [] s d = Some d"
| "monitor_leds (j # js) s d = do {
     d \<leftarrow> (if statusLed (sPorts s ! j) \<ge> 0 then SmartMotorControllerSetLed (sMotors s) (sPorts s ! j) d else Some d);
     monitor_leds js s d
   }"

definition monitor_expander :: "(int \<Rightarrow> int) \<Rightarrow> smart_state \<Rightarrow> smart_state" where
  "monitor_expander adc s =
     (let b = sPorts s ! SMLIB_PWREXP_PORT_0
      in if statusPort b \<ge> 0 \<and> (of_int (adc (statusPort b)) / 270 :: rat) < 3
         then controller_update SMLIB_PWREXP_PORT_0 (\<lambda>b. b\<lparr>bank_temperature := 110, bank_safe_current := 0\<rparr>) s
         else s)"

text \<open>One round of \<open>SmartMotorTask\<close>; the first component of the state is \<open>nextMotor\<close>.\<close>

definition SmartMotorTask_round ::
    "'w smart_env \<Rightarrow> motor_state \<Rightarrow> 'w \<Rightarrow> nat \<times> smart_state \<times> digital_state \<Rightarrow> (nat \<times> smart_state \<times> digital_state) option" where
  "SmartMotorTask_round env ms w st = do {
     let (nextMotor, s, d) = st;
     let v_battery = of_int (main_battery env w) / 1000;
     let m = sMotors s ! nextMotor;
     let dt = i32 (time_now env w - lastPgmTime m);
     let m = m\<lparr>lastPgmTime := i32 (time_now env w), delayTimeMs := i16 dt\<rparr>;
     m \<leftarrow> monitor_motor env ms w s v_battery dt m;
     let s = sm_update (int nextMotor) (\<lambda>_. m) s;
     let nextMotor = nextMotor + 1;
     if int nextMotor = kVexMotorNum then do {
       (s, d) \<leftarrow> monitor_banks ms v_battery dt [0..<nat SMLIB_TOTAL_NUM_CONTROL_BANKS] (s, d);
       d \<leftarrow> monitor_leds [0..<nat SMLIB_TOTAL_NUM_CONTROL_BANKS] s d;
       Some (0, monitor_expander (\<lambda>p. adc_get env p w) s, d)
     }
     else Some (nextMotor, s, d)
   }"

section \<open>The slew rate task\<close>

definition SlewRateTask_init :: "smart_state \<Rightarrow> smart_state" where
  "SlewRateTask_init s =
     fold (\<lambda>i. sm_update i (\<lambda>m. m\<lparr>motor_req := 0, motor_cmd := 0, motor_slew := SMLIB_MOTOR_DEFAULT_SLEW_RATE\<rparr>))
       [0..kVexMotorNum - 1] s"

text \<open>The command that is asked for, with the limit.\<close>

definition requested :: "smart_state \<Rightarrow> smartMotor \<Rightarrow> int" where
  "requested s m =
     (if (PtcLimitEnabled s \<or> CurrentLimitEnabled s) \<and> limit_cmd m \<noteq> SMLIB_MOTOR_MAX_CMD_UNDEFINED then
        (if \<bar>motor_cmd m\<bar> > \<bar>limit_cmd m\<bar> then
           (if sgn (motor_cmd m) = sgn (limit_cmd m) then limit_cmd m else motor_cmd m)
         else motor_cmd m)
      else motor_cmd m)"

text \<open>One step towards it.\<close>

definition slew_step :: "int \<Rightarrow> int \<Rightarrow> int \<Rightarrow> int" where
  "slew_step slew req tmp =
     (let tmp = (if req > tmp then (let tmp = tmp + slew in if tmp > req then req else tmp) else tmp)
      in if req < tmp then (let tmp = tmp - slew in if tmp < req then req else tmp) else tmp)"

definition slew_motor :: "int \<Rightarrow> smart_state \<times> motor_state \<Rightarrow> smart_state \<times> motor_state" where
  "slew_motor i st =
     (let (s, ms) = st;
          tmp = vexMotorGet (sm_port (sMotors s ! nat i)) ms;
          s = sm_update i (\<lambda>m. m\<lparr>motor_req := requested s m\<rparr>) s;
          m = sMotors s ! nat i
      in (s, if tmp \<noteq> motor_req m then vexMotorSet (sm_port m) (slew_step (motor_slew m) (motor_req m) tmp) ms else ms))"

definition SlewRateTask_round :: "smart_state \<times> motor_state \<Rightarrow> smart_state \<times> motor_state" where
  "SlewRateTask_round st = fold slew_motor [0..kVexMotorNum - 1] st"

end
