(* ===== verification/SmartMotor_Properties.thy ===== *)
theory SmartMotor_Properties
  imports SmartMotor
begin

text \<open>
  What the smart motor library achieves: the slew rate task brings every motor to its requested command along a
  straight ramp; the temperature and current switches; and what a limit of zero does.
\<close>

section \<open>Ramps\<close>

text \<open>The reference: after \<open>n\<close> rounds the value has moved \<open>n\<close> times the rate towards the request, and stops there.\<close>

definition ramp :: "int \<Rightarrow> int \<Rightarrow> int \<Rightarrow> nat \<Rightarrow> int" where
  "ramp v req slew n = (if v \<le> req then min req (v + int n * slew) else max req (v - int n * slew))"

lemma ramp_0 [simp]: "ramp v req slew 0 = v"
  by (simp add: ramp_def)

lemma slew_step_ramp: "0 < slew \<Longrightarrow> slew_step slew req v = ramp v req slew 1"
  by (auto simp: slew_step_def ramp_def Let_def min_def max_def)

lemma ramp_step: "0 < slew \<Longrightarrow> slew_step slew req (ramp v req slew n) = ramp v req slew (Suc n)"
proof -
  assume s: "0 < slew"
  have "int (Suc n) * slew = int n * slew + slew" "0 \<le> int n * slew" using s by (simp_all add: distrib_right)
  then show ?thesis using s by (simp add: slew_step_def ramp_def Let_def min_def max_def split: if_splits)
qed

lemma ramp_range: "0 < slew \<Longrightarrow> \<bar>v\<bar> \<le> 127 \<Longrightarrow> \<bar>req\<bar> \<le> 127 \<Longrightarrow> \<bar>ramp v req slew n\<bar> \<le> 127"
  by (simp add: ramp_def min_def max_def abs_le_iff) (smt (verit) mult_nonneg_nonneg of_nat_0_le_iff)

lemma ramp_reaches: "0 < slew \<Longrightarrow> \<bar>v\<bar> \<le> 127 \<Longrightarrow> \<bar>req\<bar> \<le> 127 \<Longrightarrow> 254 \<le> int n * slew \<Longrightarrow> ramp v req slew n = req"
  by (simp add: ramp_def min_def max_def abs_le_iff)

section \<open>One round of the slew rate task\<close>

definition smart_ok :: "smart_state \<Rightarrow> bool" where
  "smart_ok s \<longleftrightarrow> length (sMotors s) = 10 \<and>
     (\<forall>i<10. sm_port (sMotors s ! i) = int i \<and> 0 < motor_slew (sMotors s ! i) \<and> \<bar>motor_cmd (sMotors s ! i)\<bar> \<le> 127)"

definition forget_req :: "smart_state \<Rightarrow> smart_state" where
  "forget_req s = s\<lparr>sMotors := map (\<lambda>m. m\<lparr>motor_req := 0\<rparr>) (sMotors s)\<rparr>"

lemma forget_req_nth:
  assumes "forget_req s = forget_req t" "i < length (sMotors s)"
  shows "length (sMotors s) = length (sMotors t)" "(sMotors s ! i)\<lparr>motor_req := 0\<rparr> = (sMotors t ! i)\<lparr>motor_req := 0\<rparr>"
    "PtcLimitEnabled s = PtcLimitEnabled t" "CurrentLimitEnabled s = CurrentLimitEnabled t"
proof -
  have m: "map (\<lambda>m. m\<lparr>motor_req := 0\<rparr>) (sMotors s) = map (\<lambda>m. m\<lparr>motor_req := 0\<rparr>) (sMotors t)"
    "PtcLimitEnabled s = PtcLimitEnabled t" "CurrentLimitEnabled s = CurrentLimitEnabled t"
    using assms(1) unfolding forget_req_def by (metis smart_state.select_convs smart_state.surjective smart_state.update_convs)+
  then show "length (sMotors s) = length (sMotors t)" by (metis length_map)
  with m(1) assms(2) show "(sMotors s ! i)\<lparr>motor_req := 0\<rparr> = (sMotors t ! i)\<lparr>motor_req := 0\<rparr>" by (metis nth_map)
  show "PtcLimitEnabled s = PtcLimitEnabled t" "CurrentLimitEnabled s = CurrentLimitEnabled t" using m by auto
qed

lemma forget_req_motor:
  assumes "forget_req s = forget_req t" "i < length (sMotors s)"
  shows "sm_port (sMotors s ! i) = sm_port (sMotors t ! i)" "motor_slew (sMotors s ! i) = motor_slew (sMotors t ! i)"
    "motor_cmd (sMotors s ! i) = motor_cmd (sMotors t ! i)" "limit_cmd (sMotors s ! i) = limit_cmd (sMotors t ! i)"
    "requested s (sMotors s ! i) = requested t (sMotors t ! i)"
proof -
  have e: "(sMotors s ! i)\<lparr>motor_req := 0\<rparr> = (sMotors t ! i)\<lparr>motor_req := 0\<rparr>" by (rule forget_req_nth(2) [OF assms])
  show f: "sm_port (sMotors s ! i) = sm_port (sMotors t ! i)" "motor_slew (sMotors s ! i) = motor_slew (sMotors t ! i)"
    "motor_cmd (sMotors s ! i) = motor_cmd (sMotors t ! i)" "limit_cmd (sMotors s ! i) = limit_cmd (sMotors t ! i)"
    using arg_cong [OF e, of sm_port] arg_cong [OF e, of motor_slew] arg_cong [OF e, of motor_cmd] arg_cong [OF e, of limit_cmd]
    by simp_all
  show "requested s (sMotors s ! i) = requested t (sMotors t ! i)"
    using f forget_req_nth(3,4) [OF assms] by (simp add: requested_def)
qed

lemma smart_ok_forget: "smart_ok s \<Longrightarrow> forget_req s = forget_req t \<Longrightarrow> smart_ok t"
  using forget_req_nth(1) [of s t 0] forget_req_motor [of s t] by (simp add: smart_ok_def)

lemma requested_range: "smart_ok s \<Longrightarrow> i < 10 \<Longrightarrow> \<bar>requested s (sMotors s ! i)\<bar> \<le> 127"
  by (auto simp: smart_ok_def requested_def)

lemma motor_get_set:
  assumes "length (vexMotors ms) = 10" "0 \<le> i" "i < 10" "0 \<le> j" "j < 10" "\<bar>v\<bar> \<le> 127"
  shows "vexMotorGet j (vexMotorSet i v ms) = (if j = i then v else vexMotorGet j ms)"
  using assms by (auto simp: vexMotorGet_def vexMotorSet_def motor_index_defs motor_update_def nth_list_update nat_eq_iff)

lemma motor_set_same:
  assumes "length (vexMotors ms) = 10" "0 \<le> i" "i < 10" "\<bar>vexMotorGet i ms\<bar> \<le> 127"
  shows "vexMotorSet i (vexMotorGet i ms) ms = ms"
proof -
  have "(vexMotors ms ! nat i)\<lparr>motor_value := motor_value (vexMotors ms ! nat i)\<rparr> = vexMotors ms ! nat i" by simp
  then show ?thesis using assms
    by (simp add: vexMotorGet_def vexMotorSet_def motor_index_defs motor_update_def)
qed

lemma slew_motor_effect:
  assumes "smart_ok s" "motors_ok (vexMotors ms)" "0 \<le> i" "i < 10"
  shows "let m = sMotors s ! nat i; st = slew_motor i (s, ms) in
     forget_req (fst st) = forget_req s \<and> motor_req (sMotors (fst st) ! nat i) = requested s m \<and>
     snd st = vexMotorSet i (ramp (vexMotorGet i ms) (requested s m) (motor_slew m) 1) ms"
proof -
  let ?m = "sMotors s ! nat i" let ?r = "requested s ?m" let ?v = "vexMotorGet i ms"
  let ?s = "sm_update i (\<lambda>m. m\<lparr>motor_req := ?r\<rparr>) s"
  have l: "length (sMotors s) = 10" "sm_port ?m = i" "0 < motor_slew ?m"
    using assms(1,3,4) by (auto simp: smart_ok_def)
  have f: "forget_req ?s = forget_req s"
    using l(1) assms(3,4) by (simp add: forget_req_def sm_update_def map_update list_update_same_conv)
  have m: "sMotors ?s ! nat i = ?m\<lparr>motor_req := ?r\<rparr>" using l(1) assms(3,4) by (simp add: sm_update_def)
  have req: "sm_update i (\<lambda>m. m\<lparr>motor_req := requested s m\<rparr>) s = ?s" by (simp add: sm_update_def)
  have "slew_motor i (s, ms) = (?s, if ?v \<noteq> ?r then vexMotorSet i (slew_step (motor_slew ?m) ?r ?v) ms else ms)"
    unfolding slew_motor_def prod.case Let_def req m using l by simp
  moreover have "(if ?v \<noteq> ?r then vexMotorSet i (slew_step (motor_slew ?m) ?r ?v) ms else ms)
      = vexMotorSet i (ramp ?v ?r (motor_slew ?m) 1) ms"
    using slew_step_ramp [OF l(3)] motor_set_same [of ms i] motors_ok_get [OF assms(2-4)] assms(2-4) l(3)
    by (auto simp: ramp_def motors_ok_def)
  ultimately show ?thesis using f m by (simp add: Let_def)
qed

lemma round_effect:
  assumes "smart_ok s" "motors_ok (vexMotors ms)" "set is \<subseteq> {0..9}" "distinct is"
  shows "let st = fold slew_motor is (s, ms) in
     forget_req (fst st) = forget_req s \<and> motors_ok (vexMotors (snd st)) \<and>
     (\<forall>j. 0 \<le> j \<and> j < 10 \<longrightarrow> vexMotorGet j (snd st) =
        (if j \<in> set is then ramp (vexMotorGet j ms) (requested s (sMotors s ! nat j)) (motor_slew (sMotors s ! nat j)) 1
         else vexMotorGet j ms))"
  using assms
proof (induction "is" arbitrary: s ms)
  case (Cons i "is")
  let ?m = "sMotors s ! nat i"
  have i: "0 \<le> i" "i < 10" using Cons.prems(3) by auto
  obtain t ms' where st: "slew_motor i (s, ms) = (t, ms')" by (meson surj_pair)
  have e: "forget_req t = forget_req s" "ms' = vexMotorSet i (ramp (vexMotorGet i ms) (requested s ?m) (motor_slew ?m) 1) ms"
    using slew_motor_effect [OF Cons.prems(1,2) i] st by (simp_all add: Let_def)
  have r: "\<bar>ramp (vexMotorGet i ms) (requested s ?m) (motor_slew ?m) 1\<bar> \<le> 127"
    using ramp_range requested_range [OF Cons.prems(1), of "nat i"] motors_ok_get [OF Cons.prems(2) i] Cons.prems(1) i
    by (simp add: smart_ok_def)
  have l: "length (vexMotors ms) = 10" using Cons.prems(2) by (simp add: motors_ok_def)
  have ok: "smart_ok t" "motors_ok (vexMotors ms')"
    using smart_ok_forget [OF Cons.prems(1) e(1) [symmetric]] set_table(2) [OF Cons.prems(2)] e(2) by simp_all
  have get: "vexMotorGet j ms' = (if j = i then ramp (vexMotorGet i ms) (requested s ?m) (motor_slew ?m) 1 else vexMotorGet j ms)"
    if "0 \<le> j" "j < 10" for j
    using motor_get_set [OF l i that r] e(2) by simp
  have same: "requested t (sMotors t ! nat j) = requested s (sMotors s ! nat j)"
      "motor_slew (sMotors t ! nat j) = motor_slew (sMotors s ! nat j)" if "0 \<le> j" "j < 10" for j
    using forget_req_motor(2,5) [OF e(1), of "nat j"] ok(1) that by (simp_all add: smart_ok_def)
  have "let st = fold slew_motor is (t, ms') in
     forget_req (fst st) = forget_req t \<and> motors_ok (vexMotors (snd st)) \<and>
     (\<forall>j. 0 \<le> j \<and> j < 10 \<longrightarrow> vexMotorGet j (snd st) =
        (if j \<in> set is then ramp (vexMotorGet j ms') (requested t (sMotors t ! nat j)) (motor_slew (sMotors t ! nat j)) 1
         else vexMotorGet j ms'))"
    by (rule Cons.IH) (use ok Cons.prems(3,4) in auto)
  then show ?case using st e(1) get same Cons.prems(4) by (auto simp: Let_def)
qed simp

lemma slew_round:
  assumes "smart_ok s" "motors_ok (vexMotors ms)"
  shows "forget_req (fst (SlewRateTask_round (s, ms))) = forget_req s" "motors_ok (vexMotors (snd (SlewRateTask_round (s, ms))))"
    "0 \<le> j \<Longrightarrow> j < 10 \<Longrightarrow> vexMotorGet j (snd (SlewRateTask_round (s, ms))) =
       ramp (vexMotorGet j ms) (requested s (sMotors s ! nat j)) (motor_slew (sMotors s ! nat j)) 1"
proof -
  have d: "set [0..kVexMotorNum - 1] \<subseteq> {0..9}" "distinct [0..kVexMotorNum - 1]" by (simp_all add: motor_index_defs)
  have "j \<in> set [0..kVexMotorNum - 1]" if "0 \<le> j" "j < 10" using that by (simp add: motor_index_defs)
  then show "forget_req (fst (SlewRateTask_round (s, ms))) = forget_req s" "motors_ok (vexMotors (snd (SlewRateTask_round (s, ms))))"
    "0 \<le> j \<Longrightarrow> j < 10 \<Longrightarrow> vexMotorGet j (snd (SlewRateTask_round (s, ms))) =
       ramp (vexMotorGet j ms) (requested s (sMotors s ! nat j)) (motor_slew (sMotors s ! nat j)) 1"
    using round_effect [OF assms d] by (simp_all add: SlewRateTask_round_def Let_def)
qed

lemma slew_rounds:
  assumes "smart_ok s" "motors_ok (vexMotors ms)"
  shows "forget_req (fst ((SlewRateTask_round ^^ n) (s, ms))) = forget_req s \<and>
    motors_ok (vexMotors (snd ((SlewRateTask_round ^^ n) (s, ms)))) \<and>
    (\<forall>j. 0 \<le> j \<and> j < 10 \<longrightarrow> vexMotorGet j (snd ((SlewRateTask_round ^^ n) (s, ms)))
      = ramp (vexMotorGet j ms) (requested s (sMotors s ! nat j)) (motor_slew (sMotors s ! nat j)) n)"
proof (induction n)
  case 0
  then show ?case using assms by simp
next
  case (Suc n)
  obtain t ms' where st: "(SlewRateTask_round ^^ n) (s, ms) = (t, ms')" by (meson surj_pair)
  have e: "forget_req t = forget_req s" "motors_ok (vexMotors ms')" using Suc.IH st by auto
  have ok: "smart_ok t" by (rule smart_ok_forget [OF assms(1) e(1) [symmetric]])
  have "vexMotorGet j (snd (SlewRateTask_round (t, ms')))
      = ramp (vexMotorGet j ms) (requested s (sMotors s ! nat j)) (motor_slew (sMotors s ! nat j)) (Suc n)"
    if j: "0 \<le> j" "j < 10" for j
  proof -
    let ?m = "sMotors s ! nat j"
    have p: "0 < motor_slew ?m" using assms(1) j by (simp add: smart_ok_def)
    have same: "requested t (sMotors t ! nat j) = requested s ?m" "motor_slew (sMotors t ! nat j) = motor_slew ?m"
      using forget_req_motor(2,5) [OF e(1), of "nat j"] ok j by (simp_all add: smart_ok_def)
    have "vexMotorGet j ms' = ramp (vexMotorGet j ms) (requested s ?m) (motor_slew ?m) n" using Suc.IH st j by simp
    then show ?thesis using slew_round(3) [OF ok e(2) j] same ramp_step [OF p, of "requested s ?m"] slew_step_ramp [OF p] by simp
  qed
  then show ?case using slew_round(1,2) [OF ok e(2)] e(1) st by simp
qed

text \<open>C23: While the commands stay the same, the slew rate task drives every motor along the ramp from its present value
  to its requested command, all ten at once and each at its own rate: after \<open>n\<close> rounds it has moved exactly \<open>n\<close> times
  its rate, or reached the request; so no round changes a motor by more than its rate, no motor overshoots, and every
  motor holds its request after 254 divided by its rate rounds, for the default rate 26 rounds of 15 ms.\<close>

theorem slew_rate_ramps:
  assumes "smart_ok s" "motors_ok (vexMotors ms)" "0 \<le> j" "j < 10"
  shows "(let v = vexMotorGet j ms; req = requested s (sMotors s ! nat j); slew = motor_slew (sMotors s ! nat j);
          v' = (\<lambda>n. vexMotorGet j (snd ((SlewRateTask_round ^^ n) (s, ms))))
      in v' n = (if v \<le> req then min req (v + int n * slew) else max req (v - int n * slew)) \<and>
         \<bar>v' (Suc n) - v' n\<bar> \<le> slew \<and> (254 \<le> int n * slew \<longrightarrow> v' n = req))"
proof -
  let ?m = "sMotors s ! nat j"
  have p: "0 < motor_slew ?m" and r: "\<bar>requested s ?m\<bar> \<le> 127" and v: "\<bar>vexMotorGet j ms\<bar> \<le> 127"
    using assms requested_range [OF assms(1), of "nat j"] motors_ok_get [OF assms(2-4)] by (simp_all add: smart_ok_def)
  have run: "vexMotorGet j (snd ((SlewRateTask_round ^^ k) (s, ms))) = ramp (vexMotorGet j ms) (requested s ?m) (motor_slew ?m) k" for k
    using slew_rounds [OF assms(1,2)] assms(3,4) by blast
  have "\<bar>ramp (vexMotorGet j ms) (requested s ?m) (motor_slew ?m) (Suc n) - ramp (vexMotorGet j ms) (requested s ?m) (motor_slew ?m) n\<bar>
      \<le> motor_slew ?m"
    using p by (subst ramp_step [OF p, symmetric]) (auto simp: slew_step_def Let_def)
  moreover have "254 \<le> int n * motor_slew ?m \<longrightarrow> ramp (vexMotorGet j ms) (requested s ?m) (motor_slew ?m) n = requested s ?m"
    using ramp_reaches [OF p v r] by blast
  ultimately show ?thesis unfolding Let_def run by (simp add: ramp_def)
qed

section \<open>A limit of zero\<close>

lemma safe_command_zero: "target_current m = 0 \<Longrightarrow> SmartMotorSafeCommand ms v m = Some c \<Longrightarrow> c = 0"
  by (auto simp: SmartMotorSafeCommand_def cdiv_def split: Option.bind_splits if_splits)

lemma share_nothing:
  assumes "share_current ms v 0 ps s = Some t" "\<forall>k. Some k \<in> set ps \<longrightarrow> k < length (sMotors s)"
    and "\<forall>k<length (sMotors s). safe_current (sMotors s ! k) \<ge> 0"
  shows "length (sMotors t) = length (sMotors s) \<and> PtcLimitEnabled t = PtcLimitEnabled s \<and>
    (\<forall>k<length (sMotors s). motor_cmd (sMotors t ! k) = motor_cmd (sMotors s ! k) \<and>
      (Some k \<in> set ps \<or> limit_cmd (sMotors s ! k) = 0 \<longrightarrow> limit_cmd (sMotors t ! k) = 0))"
  using assms
proof (induction ps arbitrary: s)
  case (Cons p ps)
  show ?case
  proof (cases p)
    case None
    then show ?thesis using Cons by simp
  next
    case (Some k)
    let ?m = "(sMotors s ! k)\<lparr>target_current := 0\<rparr>"
    have k: "k < length (sMotors s)" "safe_current (sMotors s ! k) \<ge> 0" using Cons.prems(2,3) Some by auto
    then have e: "(if ptc_tripped (sMotors s ! k) \<and> safe_current (sMotors s ! k) < 0 then safe_current (sMotors s ! k) else 0) = 0"
      by simp
    obtain c where c: "SmartMotorSafeCommand ms v ?m = Some c"
        "share_current ms v 0 ps (sm_update (int k) (\<lambda>_. ?m\<lparr>limit_cmd := i16 c\<rparr>) s) = Some t"
      using Cons.prems(1) e Some by (auto simp: Let_def split: Option.bind_splits)
    have c0: "i16 c = 0" using safe_command_zero [OF _ c(1)] by (simp add: i16_id)
    let ?s = "sm_update (int k) (\<lambda>_. ?m\<lparr>limit_cmd := i16 c\<rparr>) s"
    have nth: "sMotors ?s ! j = (if j = k then ?m\<lparr>limit_cmd := 0\<rparr> else sMotors s ! j)" if "j < length (sMotors s)" for j
      using that k c0 by (simp add: sm_update_def nth_list_update)
    have l: "length (sMotors ?s) = length (sMotors s)" "PtcLimitEnabled ?s = PtcLimitEnabled s" by (simp_all add: sm_update_def)
    have "length (sMotors t) = length (sMotors ?s) \<and> PtcLimitEnabled t = PtcLimitEnabled ?s \<and>
      (\<forall>k<length (sMotors ?s). motor_cmd (sMotors t ! k) = motor_cmd (sMotors ?s ! k) \<and>
        (Some k \<in> set ps \<or> limit_cmd (sMotors ?s ! k) = 0 \<longrightarrow> limit_cmd (sMotors t ! k) = 0))"
      by (rule Cons.IH [OF c(2)]) (use Cons.prems(2,3) l nth k in simp_all)
    then show ?thesis using l nth k Some by simp
  qed
qed simp

text \<open>A power expander that reports a voltage below 3 volts is treated as tripped, its safe current is set to 0 and the
  motors on it are limited to the command 0; but the slew rate task ignores a limit of 0, because its sign differs from
  that of every command it could limit: each of these motors is still driven with its full command.\<close>

theorem tripped_expander_not_limited:
  assumes "smart_ok s" "PtcLimitEnabled s" "length (sPorts s) = 3" "\<forall>k<10. safe_current (sMotors s ! k) \<ge> 0"
    and "statusPort (sPorts s ! 2) \<ge> 0" "adc (statusPort (sPorts s ! 2)) < 810"
    and "\<forall>k. Some k \<in> set (bank_motors (sPorts s ! 2)) \<longrightarrow> k < 10"
    and "SmartMotorControllerMonitorPtc ms v 2 (monitor_expander adc s) = Some t"
  shows "\<forall>k. Some k \<in> set (bank_motors (sPorts s ! 2)) \<longrightarrow>
     limit_cmd (sMotors t ! k) = 0 \<and> requested t (sMotors t ! k) = motor_cmd (sMotors s ! k)"
proof (intro allI impI)
  fix k assume k: "Some k \<in> set (bank_motors (sPorts s ! 2))"
  let ?b = "sPorts s ! 2"
  let ?c = "?b\<lparr>bank_temperature := 110, bank_safe_current := 0\<rparr>"
  let ?s = "controller_update 2 (\<lambda>b. b\<lparr>bank_ptc_tripped := True\<rparr>) (controller_update 2 (\<lambda>_. ?c) s)"
  have l: "length (sMotors s) = 10" using assms(1) by (simp add: smart_ok_def)
  have "(of_int (adc (statusPort ?b)) / 270 :: rat) < 3" using assms(6) by (simp add: divide_less_eq)
  then have e: "monitor_expander adc s = controller_update 2 (\<lambda>_. ?c) s"
    using assms(5) by (simp add: monitor_expander_def bank_consts Let_def controller_update_def)
  have sw: "ptc_switch (bank_ptc_tripped ?b) 110 = True" by (simp add: ptc_switch_def SMLIB_TEMP_TRIP_def SMLIB_TEMP_HYST_def)
  have "SmartMotorControllerMonitorPtc ms v 2 (monitor_expander adc s) = share_current ms v 0 (bank_motors ?b) ?s"
    unfolding e using assms(3) sw by (simp add: SmartMotorControllerMonitorPtc_def Let_def controller_update_def)
  then have "share_current ms v 0 (bank_motors ?b) ?s = Some t" using assms(8) by simp
  from share_nothing [OF this] have "motor_cmd (sMotors t ! k) = motor_cmd (sMotors s ! k) \<and> limit_cmd (sMotors t ! k) = 0"
    using assms(4,7) k l by (simp add: controller_update_def)
  then show "limit_cmd (sMotors t ! k) = 0 \<and> requested t (sMotors t ! k) = motor_cmd (sMotors s ! k)"
    by (simp add: requested_def cmd_consts sgn_0_0)
qed

section \<open>The temperature switch\<close>

text \<open>The reference: the last temperature outside the band between 90 and 100 degrees decides.\<close>

definition tripped_after :: "bool \<Rightarrow> rat list \<Rightarrow> bool" where
  "tripped_after init temps =
     (case filter (\<lambda>t. t > 100 \<or> t < 90) (rev temps) of [] \<Rightarrow> init | t # _ \<Rightarrow> t > 100)"

fun monitor_temps :: "motor_state \<Rightarrow> smartController list \<Rightarrow> rat \<Rightarrow> rat list \<Rightarrow> smartMotor \<Rightarrow> smartMotor option" where
  "monitor_temps ms banks v [] m = Some m"
| "monitor_temps ms banks v (t # ts) m = do {
     m \<leftarrow> SmartMotorMonitorPtc ms banks v (m\<lparr>temperature := t\<rparr>);
     monitor_temps ms banks v ts m
   }"

lemma monitor_temps_snoc: "monitor_temps ms banks v (ts @ [t]) m
    = Option.bind (monitor_temps ms banks v ts m) (\<lambda>m. SmartMotorMonitorPtc ms banks v (m\<lparr>temperature := t\<rparr>))"
  by (induction ts arbitrary: m) (simp_all split: Option.bind_splits)

lemma monitor_ptc_switch: "SmartMotorMonitorPtc ms banks v m = Some m' \<Longrightarrow>
    ptc_tripped m' = ptc_switch (ptc_tripped m) (temperature m) \<and> bank m' = bank m \<and>
    ((case bank m of None \<Rightarrow> False | Some b \<Rightarrow> bank_ptc_tripped (banks ! b)) \<or> ptc_tripped m' \<or> limit_cmd m' = SMLIB_MOTOR_MAX_CMD_UNDEFINED)"
  by (auto simp: SmartMotorMonitorPtc_def Let_def split: if_splits Option.bind_splits option.splits)

text \<open>A motor counts as tripped exactly when the last temperature outside the band from 90 to 100 degrees was above
  100, whatever the temperatures before it; and a motor that is not tripped, in a bank that is not, has no limit.\<close>

theorem ptc_hysteresis:
  assumes "monitor_temps ms banks v temps m = Some m'"
  shows "ptc_tripped m' = tripped_after (ptc_tripped m) temps \<and>
    (temps \<noteq> [] \<and> \<not> ptc_tripped m' \<and> (\<forall>b. bank m = Some b \<longrightarrow> \<not> bank_ptc_tripped (banks ! b))
      \<longrightarrow> limit_cmd m' = SMLIB_MOTOR_MAX_CMD_UNDEFINED)"
proof -
  have "ptc_tripped m' = tripped_after (ptc_tripped m) temps \<and> bank m' = bank m \<and>
    (temps \<noteq> [] \<and> \<not> ptc_tripped m' \<and> (\<forall>b. bank m = Some b \<longrightarrow> \<not> bank_ptc_tripped (banks ! b))
      \<longrightarrow> limit_cmd m' = SMLIB_MOTOR_MAX_CMD_UNDEFINED)"
    using assms
  proof (induction temps arbitrary: m' rule: rev_induct)
    case Nil
    then show ?case by (simp add: tripped_after_def)
  next
    case (snoc t ts)
    obtain u where u: "monitor_temps ms banks v ts m = Some u" "SmartMotorMonitorPtc ms banks v (u\<lparr>temperature := t\<rparr>) = Some m'"
      using snoc.prems by (auto simp: monitor_temps_snoc split: Option.bind_splits)
    have "ptc_switch (tripped_after (ptc_tripped m) ts) t = tripped_after (ptc_tripped m) (ts @ [t])"
      by (auto simp: tripped_after_def ptc_switch_def SMLIB_TEMP_TRIP_def SMLIB_TEMP_HYST_def)
    then show ?case using monitor_ptc_switch [OF u(2)] snoc.IH [OF u(1)] by (auto split: option.splits)
  qed
  then show ?thesis by blast
qed


section \<open>Witnesses\<close>

text \<open>The memory before the program runs is zero; a robot whose ten motors are 393s without encoders.\<close>

definition zero_motor :: smartMotor where
  "zero_motor = \<lparr>sm_port = 0, eport = 0, sm_type = kVexMotorUndefined, delayTimeMs = 0, bank = None, motor_cmd = 0, motor_req = 0,
     motor_slew = 0, limit_tripped = False, limit_cmd = 0, limit_current = 0, sm_encoder_id = 0, ticks_per_rev = 0, enc = 0,
     oldenc = 0, delta = 0, rpm = 0, i_free = 0, i_stall = 0, r_motor = 0, l_motor = 0, ke_motor = 0, rpm_free = 0, v_bemf_max = 0,
     current_a = 0, filtered_current = 0, peak_current = 0, safe_current = 0, target_current = 0, temperature = 0, t_const_1 = 0,
     t_const_2 = 0, t_ambient = 0, ptc_tripped = False, lastPgmTime = 0\<rparr>"

definition zero_bank :: smartController where
  "zero_bank = \<lparr>bank_motors = replicate 5 None, bank_current = 0, bank_peak_current = 0, bank_safe_current = 0,
     bank_temperature = 0, bank_t_const_1 = 0, bank_t_const_2 = 0, bank_t_ambient = 0, bank_ptc_tripped = False,
     statusLed = 0, statusPort = 0\<rparr>"

definition smart_memory :: smart_state where
  "smart_memory = \<lparr>sMotors = replicate 10 zero_motor, sPorts = replicate 3 zero_bank, PtcLimitEnabled = False, CurrentLimitEnabled = False\<rparr>"

definition sample_motors :: motor_state where
  "sample_motors = vexMotorInit motor_memory"

definition sample_smart :: smart_state where
  "sample_smart = SmartMotorsAddPowerExtender 5 6 (- 1) (- 1) (SmartMotorSetPowerExpanderStatusPort 0 (SmartMotorPtcMonitorEnable
     (SlewRateTask_init (the (SmartMotorsInit encoder_env (fold (\<lambda>i. vexMotorTypeSet i kVexMotor393T) [0..9] sample_motors) [] smart_memory)))))"

definition commanded :: smart_state where
  "commanded = fst (SetMotor 5 100 False (sample_smart, sample_motors))"

lemma commanded_values:
  "map sm_port (sMotors commanded) = [0,1,2,3,4,5,6,7,8,9]"
  "map motor_slew (sMotors commanded) = [10,10,10,10,10,10,10,10,10,10]"
  "map motor_cmd (sMotors commanded) = [0,0,0,0,0,100,0,0,0,0]"
  "map limit_cmd (sMotors commanded) = [255,255,255,255,255,255,255,255,255,255]"
  "map bank_motors (sPorts commanded) = [[Some 0, Some 1, Some 2, Some 3, Some 4], [None, None, Some 7, Some 8, Some 9],
     [Some 5, Some 6, None, None, None]]"
  "map statusPort (sPorts commanded) = [- 1, - 1, 0]"
  "PtcLimitEnabled commanded"
  by code_simp+

lemma commanded_safe: "list_all (\<lambda>m. safe_current m \<ge> 0) (sMotors commanded)"
  by code_simp

lemma list10: "map f xs = [a0,a1,a2,a3,a4,a5,a6,a7,a8,a9] \<Longrightarrow>
    length xs = 10 \<and> f (xs ! 0) = a0 \<and> f (xs ! 1) = a1 \<and> f (xs ! 2) = a2 \<and> f (xs ! 3) = a3 \<and> f (xs ! 4) = a4 \<and>
    f (xs ! 5) = a5 \<and> f (xs ! 6) = a6 \<and> f (xs ! 7) = a7 \<and> f (xs ! 8) = a8 \<and> f (xs ! 9) = a9"
  by (auto simp: map_eq_Cons_conv)

lemma less_10: "(\<forall>i<10. P i) \<longleftrightarrow> P 0 \<and> P 1 \<and> P 2 \<and> P 3 \<and> P 4 \<and> P 5 \<and> P 6 \<and> P 7 \<and> P 8 \<and> P (9 :: nat)"
  by (simp add: eval_nat_numeral All_less_Suc conj_ac)

lemma commanded_ok: "smart_ok commanded"
  using commanded_values(1-3) [THEN list10] by (simp add: smart_ok_def less_10)

lemma sample_motors_ok: "motors_ok (vexMotors sample_motors)"
  unfolding sample_motors_def using reachable_inv [OF motor_memory_reachable] by (simp add: motor_inv_def)

lemma sample_motors_stopped: "vexMotorGet 5 sample_motors = 0"
  by code_simp

lemma slew_rate_ramps_witness:
  "vexMotorGet 5 (snd ((SlewRateTask_round ^^ 3) (commanded, sample_motors))) = 30 \<and>
   vexMotorGet 5 (snd ((SlewRateTask_round ^^ 26) (commanded, sample_motors))) = 100"
proof -
  have "requested commanded (sMotors commanded ! nat 5) = 100" "motor_slew (sMotors commanded ! nat 5) = 10"
    using commanded_values(2,3,4) [THEN list10] by (simp_all add: requested_def cmd_consts)
  then show ?thesis
    using slew_rate_ramps [OF commanded_ok sample_motors_ok, of 5 3] slew_rate_ramps [OF commanded_ok sample_motors_ok, of 5 26]
      sample_motors_stopped by (simp add: Let_def)
qed

lemma tripped_expander_not_limited_witness:
  "\<exists>t. SmartMotorControllerMonitorPtc sample_motors 7 2 (monitor_expander (\<lambda>_. 0) commanded) = Some t \<and>
     limit_cmd (sMotors t ! 5) = 0 \<and> requested t (sMotors t ! 5) = 100"
proof -
  have "SmartMotorControllerMonitorPtc sample_motors 7 2 (monitor_expander (\<lambda>_. 0) commanded) \<noteq> None" by code_simp
  then obtain t where t: "SmartMotorControllerMonitorPtc sample_motors 7 2 (monitor_expander (\<lambda>_. 0) commanded) = Some t" by blast
  have b: "length (sPorts commanded) = 3" "bank_motors (sPorts commanded ! 2) = [Some 5, Some 6, None, None, None]"
      "statusPort (sPorts commanded ! 2) = 0"
    using commanded_values(5,6) by (auto simp: map_eq_Cons_conv)
  have safe: "\<forall>k<10. safe_current (sMotors commanded ! k) \<ge> 0"
    using commanded_safe commanded_values(3) [THEN list10] by (simp add: list_all_length)
  have c: "motor_cmd (sMotors commanded ! 5) = 100" using commanded_values(3) [THEN list10] by simp
  have "\<forall>k. Some k \<in> set (bank_motors (sPorts commanded ! 2)) \<longrightarrow>
      limit_cmd (sMotors t ! k) = 0 \<and> requested t (sMotors t ! k) = motor_cmd (sMotors commanded ! k)"
    by (rule tripped_expander_not_limited [OF commanded_ok commanded_values(7) b(1) safe _ _ _ t]) (use b in auto)
  then show ?thesis using t b(2) c by simp
qed

lemma ptc_hysteresis_witness:
  "\<exists>m. monitor_temps sample_motors (sPorts commanded) 7 [50, 101, 95, 89, 99] (sMotors commanded ! 0) = Some m \<and> \<not> ptc_tripped m \<and>
     limit_cmd m = 255"
proof -
  have "monitor_temps sample_motors (sPorts commanded) 7 [50, 101, 95, 89, 99] (sMotors commanded ! 0) \<noteq> None" by code_simp
  then obtain m where m: "monitor_temps sample_motors (sPorts commanded) 7 [50, 101, 95, 89, 99] (sMotors commanded ! 0) = Some m" by blast
  have "bank (sMotors commanded ! 0) = Some 0" "\<not> bank_ptc_tripped (sPorts commanded ! 0)" by code_simp+
  then show ?thesis using m ptc_hysteresis [OF m] by (simp add: tripped_after_def cmd_consts)
qed

end
