(* ===== verification/VexTask_Properties.thy ===== *)
theory VexTask_Properties
  imports VexTask SmartMotor_Properties
begin

text \<open>
  The event listeners of the registered threads form a list that ends, as long as no registered thread returns from its
  function: then every operation on the table returns and the end of a period stops the threads that are to stop. A
  registered thread that returns leaves its listener in the list; when its slot is used again the list becomes a cycle.
\<close>

section \<open>Linked lists\<close>

text \<open>The nodes from \<open>p\<close> up to \<open>q\<close>, over the list of the successors.\<close>

fun path :: "nat option list \<Rightarrow> nat option \<Rightarrow> nat list \<Rightarrow> nat option \<Rightarrow> bool" where
  "path ns p [] q \<longleftrightarrow> p = q"
| "path ns p (x # xs) q \<longleftrightarrow> p = Some x \<and> x < length ns \<and> path ns (ns ! x) xs q"

lemma path_append: "path ns p (xs @ ys) q \<longleftrightarrow> (\<exists>r. path ns p xs r \<and> path ns r ys q)"
  by (induction xs arbitrary: p) auto

lemma path_update: "i \<notin> set xs \<Longrightarrow> path (ns[i := v]) p xs q \<longleftrightarrow> path ns p xs q"
  by (induction xs arbitrary: p) auto

lemma path_bound: "path ns p xs q \<Longrightarrow> set xs \<subseteq> {..<length ns}"
  by (induction xs arbitrary: p) auto

section \<open>Kernel\<close>

definition links :: "kernel \<Rightarrow> nat option list" where
  "links k = map el_next (listeners k)"

definition owners :: "kernel \<Rightarrow> (tid \<times> u32) list" where
  "owners k = map (\<lambda>e. (el_listener e, el_mask e)) (listeners k)"

lemma length_links [simp]: "length (links k) = length (listeners k)" "length (owners k) = length (listeners k)"
  by (simp_all add: links_def owners_def)

lemma on_thread_simps [simp]: "es_next (on_thread t f k) = es_next k" "listeners (on_thread t f k) = listeners k"
  "thread_at (on_thread t f k) = (thread_at k)(t := f (thread_at k t))" "links (on_thread t f k) = links k" "owners (on_thread t f k) = owners k"
  by (simp_all add: on_thread_def links_def owners_def)

lemma on_listener_simps [simp]: "es_next (on_listener i f k) = es_next k" "thread_at (on_listener i f k) = thread_at k"
  "length (listeners (on_listener i f k)) = length (listeners k)"
  "links (on_listener i f k) = (links k)[i := el_next (f (listeners k ! i))]"
  "owners (on_listener i f k) = (owners k)[i := (el_listener (f (listeners k ! i)), el_mask (f (listeners k ! i)))]"
  by (simp_all add: on_listener_def links_def owners_def map_update)

lemma on_listener_keeps:
  "el_next (f (listeners k ! i)) = el_next (listeners k ! i) \<Longrightarrow> links (on_listener i f k) = links k"
  "el_listener (f (listeners k ! i)) = el_listener (listeners k ! i) \<Longrightarrow> el_mask (f (listeners k ! i)) = el_mask (listeners k ! i) \<Longrightarrow>
   owners (on_listener i f k) = owners k"
  by (cases "i < length (listeners k)"; simp add: links_def owners_def on_listener_def map_update list_update_same_conv list_update_beyond)+

lemma es_next_simps [simp]: "links (k\<lparr>es_next := p\<rparr>) = links k" "owners (k\<lparr>es_next := p\<rparr>) = owners k"
  by (simp_all add: links_def owners_def)

lemma register_thread_at [simp]: "thread_at (chEvtRegisterMask t i m k) = thread_at k"
  by (simp add: chEvtRegisterMask_def)

lemma next_of_links: "p = Some i \<Longrightarrow> i < length (listeners k) \<Longrightarrow> next_of k p = links k ! i"
  by (simp add: next_of_def links_def)

lemma next_of_None [simp]: "next_of k None = es_next k"
  by (simp add: next_of_def)

text \<open>The search for a listener of the list finds its predecessor.\<close>

lemma unregister_loop_finds:
  assumes "path (links k) (next_of k p) ws None" "i \<in> set ws"
  shows "\<exists>q ys zs. unregister_loop i p k = Some (set_next q (links k ! i) k) \<and> ws = ys @ i # zs \<and>
     (q = p \<and> ys = [] \<or> (\<exists>us j. ys = us @ [j] \<and> q = Some j))"
  using assms
proof (induction ws arbitrary: p)
  case (Cons x ws)
  have x: "next_of k p = Some x" "x < length (listeners k)" "path (links k) (links k ! x) ws None" using Cons.prems(1) by auto
  have l: "el_next (listeners k ! x) = links k ! x" using x(2) by (simp add: links_def)
  show ?case
  proof (cases "x = i")
    case True
    then have "unregister_loop i p k = Some (set_next p (links k ! i) k)" using x l by (subst unregister_loop.simps) simp
    then show ?thesis using True by (intro exI [of _ p] exI [of _ "[]"] exI [of _ ws]) simp
  next
    case False
    have n: "next_of k (Some x) = links k ! x" using x(2) by (simp add: next_of_links)
    obtain q ys zs where r: "unregister_loop i (Some x) k = Some (set_next q (links k ! i) k)" "ws = ys @ i # zs"
      "q = Some x \<and> ys = [] \<or> (\<exists>us j. ys = us @ [j] \<and> q = Some j)"
      using Cons.IH [of "Some x"] x(3) Cons.prems(2) False n by (metis set_ConsD)
    have "unregister_loop i p k = Some (set_next q (links k ! i) k)" using r(1) x(1) False by (subst unregister_loop.simps) simp
    moreover have "x # ws = (x # ys) @ i # zs" "\<exists>us j. x # ys = us @ [j] \<and> q = Some j"
      using r(2,3) by (auto simp: append_eq_Cons_conv)
    ultimately show ?thesis by blast
  qed
qed simp

lemma unregister_loop_misses: "path (links k) (next_of k p) ws None \<Longrightarrow> i \<notin> set ws \<Longrightarrow> unregister_loop i p k = Some k"
proof (induction ws arbitrary: p)
  case Nil
  then show ?case by (subst unregister_loop.simps) simp
next
  case (Cons x ws)
  then have "next_of k (Some x) = links k ! x" by (simp add: next_of_links)
  then show ?case using Cons by (subst unregister_loop.simps) auto
qed

text \<open>What an operation of the kernel on the listeners leaves alone.\<close>

definition kernel_frame :: "kernel \<Rightarrow> kernel \<Rightarrow> bool" where
  "kernel_frame k k' \<longleftrightarrow> length (listeners k') = length (listeners k) \<and> owners k' = owners k"

lemma unregister_path:
  assumes "path (links k) (es_next k) xs None" "distinct xs"
  shows "\<exists>k'. chEvtUnregister i k = Some k' \<and> path (links k') (es_next k') (remove1 i xs) None \<and> kernel_frame k k' \<and> thread_at k' = thread_at k"
proof (cases "i \<in> set xs")
  case False
  then show ?thesis using unregister_loop_misses [of k None xs i] assms
    by (simp add: chEvtUnregister_def kernel_frame_def remove1_idem)
next
  case True
  obtain q ys zs where r: "unregister_loop i None k = Some (set_next q (links k ! i) k)" "xs = ys @ i # zs"
    "q = None \<and> ys = [] \<or> (\<exists>us j. ys = us @ [j] \<and> q = Some j)"
    using unregister_loop_finds [of k None xs i] assms(1) True unfolding next_of_None by blast
  let ?k = "set_next q (links k ! i) k"
  have rm: "remove1 i xs = ys @ zs" using r(2) assms(2) by (simp add: remove1_append)
  have "path (links ?k) (es_next ?k) (ys @ zs) None \<and> kernel_frame k ?k \<and> thread_at ?k = thread_at k"
  proof (cases "ys = []")
    case True
    then show ?thesis using r assms by (auto simp: set_next_def kernel_frame_def owners_def)
  next
    case False
    then obtain us j where j: "ys = us @ [j]" "q = Some j" using r(3) by auto
    have p: "path (links k) (es_next k) us (Some j)" "j < length (listeners k)" "path (links k) (links k ! i) zs None"
      using assms(1) r(2) j(1) by (auto simp: path_append)
    have d: "j \<notin> set us" "j \<notin> set zs" using assms(2) r(2) j(1) by auto
    have "path (links ?k) (es_next ?k) (us @ [j] @ zs) None"
      unfolding path_append using p d j(2) by (auto simp: set_next_def path_update)
    moreover have "owners ?k = owners k" using j(2) by (simp add: set_next_def on_listener_keeps del: on_listener_simps(4,5))
    ultimately show ?thesis using j by (simp add: kernel_frame_def set_next_def)
  qed
  then show ?thesis using r(1) rm by (auto simp: chEvtUnregister_def)
qed

section \<open>Broadcast\<close>

definition signalled :: "thread \<Rightarrow> thread" where
  "signalled th = (let th = th\<lparr>p_epending := p_epending th OR 1\<rparr>
     in if p_state th = THD_STATE_WTOREVT \<and> p_epending th AND p_ewmask th \<noteq> 0
           \<or> p_state th = THD_STATE_WTANDEVT \<and> p_epending th AND p_ewmask th = p_ewmask th
        then th\<lparr>p_state := THD_STATE_READY\<rparr> else th)"

lemma signal_simps: "chEvtSignalI t 1 k = on_thread t signalled k"
  by (simp add: chEvtSignalI_def signalled_def fun_eq_iff)

lemma or_1_idem: "(w OR 1) OR 1 = w OR (1 :: u32)"
  by (simp add: or.assoc)

lemma signalled_twice [simp]: "signalled (signalled th) = signalled th"
  by (cases th) (simp add: signalled_def Let_def or_1_idem)

lemma broadcast_path:
  assumes "path (links k) p xs None" "\<forall>i\<in>set xs. snd (owners k ! i) = 1"
  shows "\<exists>k'. broadcast_loop flags p k = Some k' \<and> es_next k' = es_next k \<and> links k' = links k \<and> kernel_frame k k' \<and>
     (\<forall>t. thread_at k' t = (if t \<in> (\<lambda>i. fst (owners k ! i)) ` set xs then signalled (thread_at k t) else thread_at k t))"
  using assms
proof (induction xs arbitrary: p k)
  case Nil
  then show ?case by (subst broadcast_loop.simps) (simp add: kernel_frame_def)
next
  case (Cons x xs)
  let ?k1 = "on_listener x (\<lambda>e. e\<lparr>el_flags := el_flags e OR flags\<rparr>) k"
  let ?t = "fst (owners k ! x)"
  let ?k2 = "on_thread ?t signalled ?k1"
  have x: "p = Some x" "x < length (listeners k)" "path (links k) (links k ! x) xs None" using Cons.prems(1) by auto
  have o: "el_listener (listeners ?k1 ! x) = ?t" "el_mask (listeners ?k1 ! x) = 1" "el_next (listeners ?k1 ! x) = links k ! x"
    using x(2) Cons.prems(2) by (simp_all add: on_listener_def owners_def links_def)
  have k2: "links ?k2 = links k" "owners ?k2 = owners k" "es_next ?k2 = es_next k" "length (listeners ?k2) = length (listeners k)"
    by (simp_all add: on_listener_keeps del: on_listener_simps(4,5))
  have step: "broadcast_loop flags p k = broadcast_loop flags (links k ! x) ?k2"
    using x(1) by (subst broadcast_loop.simps) (simp add: Let_def o signal_simps)
  obtain k' where k': "broadcast_loop flags (links k ! x) ?k2 = Some k'" "es_next k' = es_next ?k2" "links k' = links ?k2" "kernel_frame ?k2 k'"
    "\<forall>t. thread_at k' t = (if t \<in> (\<lambda>i. fst (owners ?k2 ! i)) ` set xs then signalled (thread_at ?k2 t) else thread_at ?k2 t)"
    using Cons.IH [of ?k2 "links k ! x"] x(3) Cons.prems(2) k2(1,2) by auto
  have "\<forall>t. thread_at k' t = (if t \<in> (\<lambda>i. fst (owners k ! i)) ` set (x # xs) then signalled (thread_at k t) else thread_at k t)"
    using k'(5) unfolding k2(2) by auto
  then show ?case using k' k2 step unfolding kernel_frame_def by auto
qed

section \<open>The table\<close>

abbreviation final :: "thread \<Rightarrow> bool" where
  "final th \<equiv> p_state th = THD_STATE_FINAL"

definition slots :: "'a cortex_scheme \<Rightarrow> tid option list" where
  "slots c = map tp (myThreads c)"

text \<open>The slots of the threads that have not ended.\<close>

definition live :: "tid option list \<Rightarrow> kernel \<Rightarrow> nat set" where
  "live sl k = {i. i < length sl \<and> (\<exists>t. sl ! i = Some t \<and> \<not> final (thread_at k t))}"

definition table_ok :: "tid option list \<Rightarrow> kernel \<Rightarrow> bool" where
  "table_ok sl k \<longleftrightarrow> length sl = MAX_THREAD \<and> length (listeners k) = MAX_THREAD \<and>
     (\<exists>xs. path (links k) (es_next k) xs None \<and> distinct xs \<and> set xs = live sl k) \<and>
     (\<forall>i\<in>live sl k. \<forall>t. sl ! i = Some t \<longrightarrow> owners k ! i = (t, 1)) \<and>
     (\<forall>i j t. i < MAX_THREAD \<and> j < MAX_THREAD \<and> sl ! i = Some t \<and> sl ! j = Some t \<longrightarrow> i = j)"

lemma live_cong: "(\<And>t. Some t \<in> set sl \<Longrightarrow> final (thread_at k' t) = final (thread_at k t)) \<Longrightarrow> live sl k' = live sl k"
  unfolding live_def by (metis (lifting) nth_mem)

text \<open>Nothing matters but the list and which threads of the table have ended.\<close>

lemma table_ok_cong:
  assumes "table_ok sl k" "links k' = links k" "es_next k' = es_next k" "kernel_frame k k'"
    "\<And>t. Some t \<in> set sl \<Longrightarrow> final (thread_at k' t) = final (thread_at k t)"
  shows "table_ok sl k'"
  using assms(1-4) live_cong [OF assms(5)] by (simp add: table_ok_def kernel_frame_def)

lemma table_ok_thread:
  "table_ok sl k \<Longrightarrow> (Some t \<in> set sl \<Longrightarrow> final (f (thread_at k t)) = final (thread_at k t)) \<Longrightarrow> table_ok sl (on_thread t f k)"
  by (erule table_ok_cong) (auto simp: kernel_frame_def)

lemma final_signalled [simp]: "final (signalled th) = final th"
  by (simp add: signalled_def Let_def)

lemma table_ok_broadcast:
  assumes "table_ok sl k"
  shows "\<exists>k'. chEvtBroadcastFlagsI flags k = Some k' \<and> table_ok sl k' \<and>
     (\<forall>t. thread_at k' t = (if Some t \<in> set sl \<and> \<not> final (thread_at k t) then signalled (thread_at k t) else thread_at k t))"
proof -
  obtain xs where xs: "path (links k) (es_next k) xs None" "set xs = live sl k" and o: "\<forall>i\<in>live sl k. \<forall>t. sl ! i = Some t \<longrightarrow> owners k ! i = (t, 1)"
    using assms by (auto simp: table_ok_def)
  have m: "\<forall>i\<in>set xs. snd (owners k ! i) = 1" using o xs(2) by (fastforce simp: live_def)
  have t: "t \<in> (\<lambda>i. fst (owners k ! i)) ` set xs \<longleftrightarrow> Some t \<in> set sl \<and> \<not> final (thread_at k t)" for t
  proof
    assume "t \<in> (\<lambda>i. fst (owners k ! i)) ` set xs"
    then obtain i u where i: "i \<in> live sl k" "t = fst (owners k ! i)" "sl ! i = Some u" "\<not> final (thread_at k u)" "i < length sl"
      using xs(2) by (auto simp: live_def)
    then have "u = t" using o by auto
    then show "Some t \<in> set sl \<and> \<not> final (thread_at k t)" using i by (metis nth_mem)
  next
    assume "Some t \<in> set sl \<and> \<not> final (thread_at k t)"
    then obtain i where i: "i < length sl" "sl ! i = Some t" "\<not> final (thread_at k t)" by (metis in_set_conv_nth)
    then have "i \<in> live sl k" by (auto simp: live_def)
    then show "t \<in> (\<lambda>i. fst (owners k ! i)) ` set xs" using o i(2) xs(2) by force
  qed
  obtain k' where k': "broadcast_loop flags (es_next k) k = Some k'" "es_next k' = es_next k" "links k' = links k" "kernel_frame k k'"
    "\<forall>t. thread_at k' t = (if t \<in> (\<lambda>i. fst (owners k ! i)) ` set xs then signalled (thread_at k t) else thread_at k t)"
    using broadcast_path [OF xs(1) m] by blast
  have "table_ok sl k'" by (rule table_ok_cong [OF assms k'(3,2,4)]) (simp add: k'(5))
  then show ?thesis using k'(1,5) unfolding t by (auto simp: chEvtBroadcastFlagsI_def)
qed

lemma table_ok_register:
  assumes "table_ok sl k" "i < MAX_THREAD" "sl ! i = None" "Some t \<notin> set sl" "\<not> final (thread_at k t)"
  shows "table_ok (sl[i := Some t]) (chEvtRegisterMask t i 1 k)"
proof -
  let ?k = "chEvtRegisterMask t i 1 k" let ?sl = "sl[i := Some t]"
  have l: "length sl = MAX_THREAD" "length (listeners k) = MAX_THREAD" using assms(1) by (simp_all add: table_ok_def)
  obtain xs where xs: "path (links k) (es_next k) xs None" "distinct xs" "set xs = live sl k" using assms(1) by (auto simp: table_ok_def)
  have k: "links ?k = (links k)[i := es_next k]" "es_next ?k = Some i" "owners ?k = (owners k)[i := (t, 1)]"
    "length (listeners ?k) = MAX_THREAD" "thread_at ?k = thread_at k"
    using l by (simp_all add: chEvtRegisterMask_def)
  have i: "i \<notin> live sl k" using assms(3) by (simp add: live_def)
  have lv: "live ?sl ?k = insert i (live sl k)" using l assms(2,3,5) k(5) by (auto simp: live_def nth_list_update)
  have p: "path (links ?k) (es_next ?k) (i # xs) None" unfolding k using xs i l assms(2) by (simp add: path_update)
  have d: "distinct (i # xs)" "set (i # xs) = live ?sl ?k" using xs i lv by auto
  have o: "\<forall>j\<in>live ?sl ?k. \<forall>u. ?sl ! j = Some u \<longrightarrow> owners ?k ! j = (u, 1)"
    unfolding lv k using assms(1,2) l i by (auto simp: table_ok_def nth_list_update)
  have "\<forall>a b u. a < MAX_THREAD \<and> b < MAX_THREAD \<and> ?sl ! a = Some u \<and> ?sl ! b = Some u \<longrightarrow> a = b"
    using assms(1,2,4) l by (auto simp: table_ok_def nth_list_update split: if_splits) (metis nth_mem)+
  then show ?thesis unfolding table_ok_def using p d o l k(4) by (metis length_list_update)
qed

lemma table_ok_unregister:
  assumes "table_ok sl k" "i < MAX_THREAD" "sl ! i = Some t"
  shows "\<exists>k'. chEvtUnregister i k = Some k' \<and> table_ok sl (chThdExit t k') \<and> thread_at k' = thread_at k"
proof -
  have l: "length sl = MAX_THREAD" "length (listeners k) = MAX_THREAD" using assms(1) by (simp_all add: table_ok_def)
  obtain xs where xs: "path (links k) (es_next k) xs None" "distinct xs" "set xs = live sl k" using assms(1) by (auto simp: table_ok_def)
  obtain k' where k': "chEvtUnregister i k = Some k'" "path (links k') (es_next k') (remove1 i xs) None" "kernel_frame k k'" "thread_at k' = thread_at k"
    using unregister_path [OF xs(1,2)] by blast
  have u: "\<forall>a b u. a < MAX_THREAD \<and> b < MAX_THREAD \<and> sl ! a = Some u \<and> sl ! b = Some u \<longrightarrow> a = b" using assms(1) by (simp add: table_ok_def)
  have "live sl (chThdExit t k') = live sl k - {i}"
  proof -
    have "x = i" if "x < MAX_THREAD" "sl ! x = Some t" for x using u that assms(2,3) by blast
    moreover have "final (thread_at (chThdExit t k') v) \<longleftrightarrow> v = t \<or> final (thread_at k v)" for v using k'(4) by (simp add: chThdExit_def)
    ultimately show ?thesis using l assms(3) by (fastforce simp: live_def)
  qed
  then have "set (remove1 i xs) = live sl (chThdExit t k')" using xs by simp
  then have "table_ok sl (chThdExit t k')"
    using assms(1) k'(2,3) xs(2) \<open>live sl (chThdExit t k') = live sl k - {i}\<close>
    by (auto simp: table_ok_def chThdExit_def kernel_frame_def intro!: exI [of _ "remove1 i xs"])
  then show ?thesis using k' by blast
qed

lemma table_ok_clear:
  assumes "table_ok sl k" "sl ! i = Some t" "i < MAX_THREAD" "final (thread_at k t)"
  shows "table_ok (sl[i := None]) k"
proof -
  have l: "length sl = MAX_THREAD" using assms(1) by (simp add: table_ok_def)
  have lv: "live (sl[i := None]) k = live sl k" using assms(2-4) l by (auto simp: live_def nth_list_update split: if_splits)
  have e: "sl ! j = Some u" if "sl[i := None] ! j = Some u" for j u
    using that l assms(3) by (simp add: nth_list_update split: if_splits)
  show ?thesis using assms(1) e unfolding table_ok_def lv length_list_update by blast
qed

section \<open>Operations on the table\<close>

lemma slots_simps [simp]: "slots (c\<lparr>kern := k\<rparr>) = slots c" "length (slots c) = length (myThreads c)"
  by (simp_all add: slots_def)

lemma slots_nth: "i < length (myThreads c) \<Longrightarrow> slots c ! i = tp (myThreads c ! i)"
  by (simp add: slots_def)

lemma registered_slots: "registered t c \<longleftrightarrow> Some t \<in> set (slots c)"
  by (force simp: registered_def slots_def)

lemma table_length: "table_ok (slots c) k \<Longrightarrow> length (myThreads c) = MAX_THREAD"
  by (simp add: table_ok_def)

lemma find_slot_Some:
  "length (myThreads c) = MAX_THREAD \<Longrightarrow> find_slot t c = Some i \<Longrightarrow> i < MAX_THREAD \<and> slots c ! i = t \<and> (\<forall>j<i. slots c ! j \<noteq> t)"
  by (auto simp: find_slot_def find_Some_iff slots_def)

lemma find_slot_None: "length (myThreads c) = MAX_THREAD \<Longrightarrow> find_slot t c = None \<longleftrightarrow> t \<notin> set (slots c)"
  by (force simp: find_slot_def find_None_iff slots_def in_set_conv_nth)

lemma find_slot_holds:
  "table_ok (slots c) k \<Longrightarrow> i < MAX_THREAD \<Longrightarrow> slots c ! i = Some t \<Longrightarrow> find_slot (Some t) c = Some i"
proof -
  assume c: "table_ok (slots c) k" and i: "i < MAX_THREAD" "slots c ! i = Some t"
  have l: "length (myThreads c) = MAX_THREAD" by (rule table_length [OF c])
  then have "find_slot (Some t) c \<noteq> None" using i find_slot_None [OF l] by (metis nth_mem slots_simps(2))
  then obtain j where j: "find_slot (Some t) c = Some j" by auto
  then have "j = i" using find_slot_Some [OF l j] c i unfolding table_ok_def by blast
  then show ?thesis using j by simp
qed

text \<open>Whether a thread leaves in \<open>vexSleep\<close>.\<close>

definition stops_on :: "u32 \<Rightarrow> tid \<Rightarrow> 'a cortex_scheme \<Rightarrow> bool" where
  "stops_on ev t c \<longleftrightarrow> (ev \<noteq> 0 \<or> p_terminate (thread_at (kern c) t)) \<and>
     (p_terminate (thread_at (kern c) t) \<or> \<not> vexTaskPersistentGet (Some t) c)"

definition cleared :: "tid \<Rightarrow> vexThread list \<Rightarrow> vexThread list" where
  "cleared t ms = map (\<lambda>s. if tp s = Some t then s\<lparr>tp := None\<rparr> else s) ms"

lemma sleep_rest_effect:
  assumes "table_ok (slots c) (kern c)" "\<not> final (thread_at (kern c) t)"
  shows "\<exists>k rs. vexSleep_rest t ev c = Some (c\<lparr>kern := k, myThreads := if stops_on ev t c \<and> p_terminate (thread_at (kern c) t)
          then cleared t (myThreads c) else myThreads c, rcTasks := rs\<rparr>) \<and>
     table_ok (map tp (if stops_on ev t c \<and> p_terminate (thread_at (kern c) t) then cleared t (myThreads c) else myThreads c)) k \<and>
     thread_at k = (thread_at (kern c))(t := (thread_at (kern c) t)\<lparr>in_sleep := False,
       p_state := if stops_on ev t c then THD_STATE_FINAL else p_state (thread_at (kern c) t)\<rparr>)"
proof -
  let ?k = "on_thread t (\<lambda>th. th\<lparr>in_sleep := False\<rparr>) (kern c)" let ?th = "thread_at (kern c) t"
  let ?c = "c\<lparr>kern := ?k\<rparr>"
  have l: "length (myThreads c) = MAX_THREAD" by (rule table_length [OF assms(1)])
  have k: "table_ok (slots c) ?k" by (rule table_ok_thread [OF assms(1)]) simp
  have same: "c\<lparr>kern := k, myThreads := myThreads c, rcTasks := rcTasks c\<rparr> = c\<lparr>kern := k\<rparr>" for k by simp
  have fs: "find_slot u ?c = find_slot u c" for u by (simp add: find_slot_def)
  show ?thesis
  proof (cases "ev \<noteq> 0 \<or> p_terminate ?th")
    case False
    then have "vexSleep_rest t ev c = Some ?c" "\<not> stops_on ev t c" by (simp_all add: vexSleep_rest_def Let_def stops_on_def)
    then show ?thesis using k by (intro exI [of _ ?k] exI [of _ "rcTasks c"]) (simp add: slots_def fun_eq_iff)
  next
    case go: True
    show ?thesis
    proof (cases "find_slot (Some t) c")
      case None
      then have n: "Some t \<notin> set (slots c)" using find_slot_None [OF l] by blast
      have s: "stops_on ev t c" using None go by (simp add: stops_on_def vexTaskPersistentGet_def)
      have cl: "cleared t (myThreads c) = myThreads c" using n by (force simp: cleared_def slots_def intro!: map_idI)
      have x: "table_ok (slots c) (chThdExit t ?k)" unfolding chThdExit_def by (rule table_ok_thread [OF k]) (use n in simp)
      have "vexSleep_rest t ev c = Some (?c\<lparr>kern := chThdExit t ?k\<rparr>)"
        using go None by (simp add: vexSleep_rest_def Let_def fs)
      then show ?thesis using s x cl
        by (intro exI [of _ "chThdExit t ?k"] exI [of _ "rcTasks c"]) (simp add: slots_def chThdExit_def fun_eq_iff)
    next
      case (Some i)
      then have i: "i < MAX_THREAD" "slots c ! i = Some t" "tp (myThreads c ! i) = Some t"
        using find_slot_Some [OF l Some] l slots_nth [of i c] by simp_all
      show ?thesis
      proof (cases "persistent (myThreads c ! i) \<and> \<not> p_terminate ?th")
        case True
        then have "vexSleep_rest t ev c = Some ?c" "\<not> stops_on ev t c"
          using go Some by (simp_all add: vexSleep_rest_def Let_def fs stops_on_def vexTaskPersistentGet_def)
        then show ?thesis using k by (intro exI [of _ ?k] exI [of _ "rcTasks c"]) (simp add: slots_def fun_eq_iff)
      next
        case False
        have s: "stops_on ev t c" using go Some False by (auto simp: stops_on_def vexTaskPersistentGet_def)
        obtain k' where k': "chEvtUnregister i ?k = Some k'" "table_ok (slots c) (chThdExit t k')" "thread_at k' = thread_at ?k"
          using table_ok_unregister [OF k i(1,2)] by blast
        let ?rs = "rcTasks (CleanupTask (Some t) c)"
        have u: "j = i" if "j < MAX_THREAD" "slots c ! j = Some t" for j using assms(1) i that unfolding table_ok_def by blast
        have cl: "(myThreads c)[i := (myThreads c ! i)\<lparr>tp := None\<rparr>] = cleared t (myThreads c)"
        proof (rule nth_equalityI)
          fix j assume "j < length ((myThreads c)[i := (myThreads c ! i)\<lparr>tp := None\<rparr>])"
          then have j: "j < MAX_THREAD" using l by simp
          then have "tp (myThreads c ! j) = Some t \<longleftrightarrow> j = i" using u i(3) l slots_nth [of j c] by metis
          then show "(myThreads c)[i := (myThreads c ! i)\<lparr>tp := None\<rparr>] ! j = cleared t (myThreads c) ! j"
            using j l by (simp add: cleared_def)
        qed (simp add: cleared_def)
        have cl': "map tp (cleared t (myThreads c)) = (slots c)[i := None]"
          unfolding cl [symmetric] slots_def by (simp add: map_update)
        have fin: "final (thread_at (chThdExit t k') t)" by (simp add: chThdExit_def)
        have th: "thread_at (chThdExit t k') = (thread_at (kern c))(t := ?th\<lparr>in_sleep := False, p_state := THD_STATE_FINAL\<rparr>)"
          using k'(3) by (simp add: chThdExit_def fun_eq_iff)
        have r: "vexSleep_rest t ev c = Some (c\<lparr>kern := chThdExit t k', myThreads := if p_terminate ?th
            then cleared t (myThreads c) else myThreads c, rcTasks := ?rs\<rparr>)"
          using go Some False k'(1) i(3) by (auto simp: vexSleep_rest_def Let_def fs CleanupTask_def on_slot_def cl)
        show ?thesis
        proof (cases "p_terminate ?th")
          case True
          then show ?thesis using r s th table_ok_clear [OF k'(2) i(2,1) fin] cl'
            by (intro exI [of _ "chThdExit t k'"] exI [of _ ?rs]) simp
        next
          case False
          then show ?thesis using r s th k'(2) by (intro exI [of _ "chThdExit t k'"] exI [of _ ?rs]) (simp add: slots_def)
        qed
      qed
    qed
  qed
qed

section \<open>Invariant\<close>

definition threads_ok :: "kernel \<Rightarrow> bool" where
  "threads_ok k \<longleftrightarrow> (\<forall>t. p_state (thread_at k t) \<noteq> THD_STATE_WTANDEVT \<and>
     (p_state (thread_at k t) = THD_STATE_WTOREVT \<longrightarrow> in_sleep (thread_at k t) \<and> p_ewmask (thread_at k t) = ALL_EVENTS))"

definition monitor_ok :: "cortex_sys \<Rightarrow> bool" where
  "monitor_ok c \<longleftrightarrow>
     (monitor c \<in> {Polling, Killed} \<longrightarrow> is_final user_thread c \<and> Some user_thread \<notin> set (slots c)) \<and>
     (\<forall>i. monitor c = Reaping i \<longrightarrow> is_final user_thread c \<and> (\<forall>j < i. j < MAX_THREAD \<longrightarrow> slots c ! j \<noteq> Some user_thread)) \<and>
     (\<forall>s \<in> set (myThreads c). tp s = Some user_thread \<longrightarrow> \<not> persistent s)"

definition sys_ok :: "cortex_sys \<Rightarrow> bool" where
  "sys_ok c \<longleftrightarrow> table_ok (slots c) (kern c) \<and> threads_ok (kern c) \<and> monitor_ok c"

text \<open>Histories in which no registered thread returns.\<close>

inductive orderly :: "cortex_sys \<Rightarrow> bool" where
  start: "length (myThreads c) = MAX_THREAD \<Longrightarrow> length (listeners (kern c)) = MAX_THREAD \<Longrightarrow> (\<And>t. is_final t c) \<Longrightarrow> monitor c = Polling \<Longrightarrow>
    orderly (monitor_start c)"
| step: "orderly c \<Longrightarrow> task_enabled e c \<Longrightarrow> (\<And>t. e = Return t \<Longrightarrow> \<not> registered t c) \<Longrightarrow> task_exec e c = Some c' \<Longrightarrow> orderly c'"

lemma threads_ok_update:
  "threads_ok k \<Longrightarrow> thread_at k' = (thread_at k)(t := th) \<Longrightarrow> p_state th \<noteq> THD_STATE_WTANDEVT \<Longrightarrow>
   (p_state th = THD_STATE_WTOREVT \<Longrightarrow> in_sleep th \<and> p_ewmask th = ALL_EVENTS) \<Longrightarrow> threads_ok k'"
  by (auto simp: threads_ok_def)

lemma monitor_ok_thread:
  assumes "monitor_ok c" "monitor c' = monitor c" "myThreads c' = myThreads c" "is_final user_thread c \<Longrightarrow> is_final user_thread c'"
  shows "monitor_ok c'"
  using assms by (simp add: monitor_ok_def slots_def)

lemma set_cleared: "s \<in> set (cleared t ms) \<Longrightarrow> tp s = Some u \<Longrightarrow> s \<in> set ms \<and> u \<noteq> t"
  by (auto simp: cleared_def split: if_splits)

lemma cleared_nth: "j < length ms \<Longrightarrow> tp (cleared t ms ! j) = Some u \<Longrightarrow> tp (ms ! j) = Some u"
  by (auto simp: cleared_def split: if_splits)

lemma sleep_rest_ok:
  fixes c :: cortex_sys
  assumes "table_ok (slots c) (kern c)" "threads_ok (kern c)" "monitor_ok c" "p_state (thread_at (kern c) t) = THD_STATE_READY"
  shows "\<exists>c'. vexSleep_rest t ev c = Some c' \<and> sys_ok c'"
proof -
  let ?ms = "if stops_on ev t c \<and> p_terminate (thread_at (kern c) t) then cleared t (myThreads c) else myThreads c"
  obtain k rs where r: "vexSleep_rest t ev c = Some (c\<lparr>kern := k, myThreads := ?ms, rcTasks := rs\<rparr>)" "table_ok (map tp ?ms) k"
    "thread_at k = (thread_at (kern c))(t := (thread_at (kern c) t)\<lparr>in_sleep := False,
       p_state := if stops_on ev t c then THD_STATE_FINAL else p_state (thread_at (kern c) t)\<rparr>)"
    using sleep_rest_effect [OF assms(1), of t ev] assms(4) by auto
  let ?c = "c\<lparr>kern := k, myThreads := ?ms, rcTasks := rs\<rparr>"
  have l: "length (myThreads c) = MAX_THREAD" by (rule table_length [OF assms(1)])
  have th: "threads_ok k" by (rule threads_ok_update [OF assms(2) r(3)]) (use assms(4) in \<open>auto split: if_splits\<close>)
  have f: "is_final user_thread c \<Longrightarrow> is_final user_thread ?c" using r(3) assms(4) by (simp add: is_final_def)
  have sub: "s \<in> set ?ms \<Longrightarrow> tp s = Some u \<Longrightarrow> s \<in> set (myThreads c)" for s u using set_cleared by (auto split: if_splits)
  have nth: "j < MAX_THREAD \<Longrightarrow> slots ?c ! j = Some u \<Longrightarrow> slots c ! j = Some u" for j u
    using l cleared_nth [of j "myThreads c" t u] by (auto simp: slots_def cleared_def split: if_splits)
  have "Some user_thread \<notin> set (slots c) \<Longrightarrow> Some user_thread \<notin> set (slots ?c)"
    using sub by (force simp: slots_def)
  then have "monitor_ok ?c" using assms(3) f sub nth unfolding monitor_ok_def by fastforce
  then show ?thesis using r th by (auto simp: sys_ok_def slots_def)
qed

lemma exec_ok_sleep:
  assumes "sys_ok c" "runs t c"
  shows "\<exists>c'. vexSleep t c = Some c' \<and> sys_ok c'"
proof -
  have ok: "table_ok (slots c) (kern c)" "threads_ok (kern c)" "monitor_ok c" using assms(1) by (simp_all add: sys_ok_def)
  have rt: "p_state (thread_at (kern c) t) = THD_STATE_READY" using assms(2) by (simp add: runs_def)
  let ?ev = "p_epending (thread_at (kern c) t) AND ALL_EVENTS"
  let ?k0 = "on_thread t (\<lambda>th. th\<lparr>in_sleep := True\<rparr>) (kern c)"
  show ?thesis
  proof (cases "?ev = 0")
    case True
    let ?k = "on_thread t (\<lambda>th. th\<lparr>p_ewmask := ALL_EVENTS, p_state := THD_STATE_WTOREVT\<rparr>) ?k0"
    have "vexSleep t c = Some (c\<lparr>kern := ?k\<rparr>)" using True by (simp add: vexSleep_def wait_any_begin_def Let_def)
    moreover have "table_ok (slots c) ?k" by (rule table_ok_thread [OF table_ok_thread [OF ok(1)]]) (simp_all add: rt)
    moreover have "threads_ok ?k" using ok(2) by (simp add: threads_ok_def)
    moreover have "monitor_ok (c\<lparr>kern := ?k\<rparr>)" by (rule monitor_ok_thread [OF ok(3)]) (use rt in \<open>auto simp: is_final_def\<close>)
    ultimately show ?thesis by (auto simp: sys_ok_def)
  next
    case False
    let ?k = "on_thread t (\<lambda>th. th\<lparr>p_epending := p_epending th AND NOT ?ev\<rparr>) ?k0"
    have e: "vexSleep t c = vexSleep_rest t ?ev (c\<lparr>kern := ?k\<rparr>)" using False by (simp add: vexSleep_def wait_any_begin_def Let_def)
    have "table_ok (slots (c\<lparr>kern := ?k\<rparr>)) (kern (c\<lparr>kern := ?k\<rparr>))" using table_ok_thread [OF table_ok_thread [OF ok(1)]] by simp
    moreover have "threads_ok ?k" using ok(2) rt by (simp add: threads_ok_def)
    moreover have "monitor_ok (c\<lparr>kern := ?k\<rparr>)" by (rule monitor_ok_thread [OF ok(3)]) (use rt in \<open>auto simp: is_final_def\<close>)
    ultimately show ?thesis unfolding e by (intro sleep_rest_ok) (simp_all add: rt)
  qed
qed

lemma exec_ok_wake:
  assumes "sys_ok c" "p_state (thread_at (kern c) t) = (if timeout then THD_STATE_WTOREVT else THD_STATE_READY)"
  shows "\<exists>c'. vexSleep_wake timeout t c = Some c' \<and> sys_ok c'"
proof -
  have ok: "table_ok (slots c) (kern c)" "threads_ok (kern c)" "monitor_ok c" using assms(1) by (simp_all add: sys_ok_def)
  obtain ev k where w: "wait_any_end timeout t ALL_EVENTS (kern c) = (ev, k)" by (meson surj_pair)
  obtain f where k: "k = on_thread t f (kern c)" "p_state (f (thread_at (kern c) t)) = THD_STATE_READY"
    using w assms(2) by (auto simp: wait_any_end_def Let_def split: if_splits)
  have nf: "\<not> final (thread_at (kern c) t)" using assms(2) by (auto split: if_splits)
  have "table_ok (slots c) k" unfolding k(1) by (rule table_ok_thread [OF ok(1)]) (use nf k(2) in simp)
  moreover have "threads_ok k" using ok(2) k by (simp add: threads_ok_def)
  moreover have "monitor_ok (c\<lparr>kern := k\<rparr>)" by (rule monitor_ok_thread [OF ok(3)]) (use nf k in \<open>auto simp: is_final_def\<close>)
  ultimately have "\<exists>c'. vexSleep_rest t ev (c\<lparr>kern := k\<rparr>) = Some c' \<and> sys_ok c'" by (intro sleep_rest_ok) (simp_all add: k)
  then show ?thesis by (simp add: vexSleep_wake_def w)
qed

lemma exec_ok_register:
  assumes "sys_ok c" "runs t c" "t = user_thread \<longrightarrow> \<not> p"
  shows "sys_ok (vexTaskRegisterPersistant t name p c)"
proof -
  let ?k = "chRegSetThreadName t name (kern c)" let ?c = "c\<lparr>kern := ?k\<rparr>"
  have ok: "table_ok (slots c) ?k" "threads_ok ?k" "monitor_ok ?c"
    using assms(1) monitor_ok_thread [of c ?c] unfolding chRegSetThreadName_def
    by (auto simp: sys_ok_def threads_ok_def is_final_def intro!: table_ok_thread)
  have l: "length (myThreads c) = MAX_THREAD" by (rule table_length [OF ok(1)])
  have rt: "\<not> final (thread_at ?k t)" "\<not> final (thread_at (kern c) t)" using assms(2) by (simp_all add: runs_def chRegSetThreadName_def)
  have fs: "find_slot u ?c = find_slot u c" for u by (simp add: find_slot_def)
  show ?thesis
  proof (cases "find_slot (Some t) c")
    case (Some i)
    then have i: "i < MAX_THREAD" "tp (myThreads c ! i) = Some t"
      using find_slot_Some [OF l Some] l slots_nth [of i c] by simp_all
    let ?c' = "on_slot i (\<lambda>s. s\<lparr>persistent := p\<rparr>) ?c"
    have e: "vexTaskRegisterPersistant t name p c = ?c'" by (simp add: vexTaskRegisterPersistant_def Let_def fs Some)
    have s: "slots ?c' = slots c" using i l by (simp add: on_slot_def slots_def map_update list_update_same_conv)
    have "monitor_ok ?c'"
    proof -
      have m: "myThreads ?c' = (myThreads c)[i := (myThreads c ! i)\<lparr>persistent := p\<rparr>]" by (simp add: on_slot_def)
      have "\<not> persistent x" if "x \<in> set (myThreads ?c')" "tp x = Some user_thread" for x
        using that assms(3) ok(3) i(2) set_update_subset_insert [of "myThreads c" i] unfolding m monitor_ok_def by fastforce
      then show ?thesis using ok(3) unfolding monitor_ok_def s slots_simps by (simp add: on_slot_def is_final_def)
    qed
    then show ?thesis unfolding e sys_ok_def s using ok(1,2) by (simp add: on_slot_def)
  next
    case None
    then have n: "Some t \<notin> set (slots c)" using find_slot_None [OF l] by blast
    show ?thesis
    proof (cases "find_slot None c")
      case None
      then show ?thesis using ok \<open>find_slot (Some t) c = None\<close> by (simp add: vexTaskRegisterPersistant_def Let_def fs sys_ok_def)
    next
      case (Some i)
      then have i: "i < MAX_THREAD" "slots c ! i = None" using find_slot_Some [OF l Some] by simp_all
      let ?c' = "(on_slot i (\<lambda>s. s\<lparr>tp := Some t, persistent := p\<rparr>) ?c)\<lparr>kern := chEvtRegisterMask t i 1 ?k\<rparr>"
      have e: "vexTaskRegisterPersistant t name p c = ?c'"
        using None by (simp add: vexTaskRegisterPersistant_def Let_def fs Some on_slot_def)
      have s: "slots ?c' = (slots c)[i := Some t]" by (simp add: on_slot_def slots_def map_update)
      have th: "thread_at (chEvtRegisterMask t i 1 ?k) = thread_at ?k" by (simp add: chEvtRegisterMask_def)
      have "table_ok (slots ?c') (kern ?c')" unfolding s using table_ok_register [OF ok(1) i n rt(1)] by simp
      moreover have "threads_ok (kern ?c')" using ok(2) th by (simp add: threads_ok_def)
      moreover have "monitor_ok ?c'"
      proof -
        have u: "\<not> is_final user_thread c" if "t = user_thread" using rt(2) that by (simp add: is_final_def)
        have f: "is_final user_thread ?c' = is_final user_thread c" by (simp add: is_final_def th chRegSetThreadName_def)
        have g: "is_final user_thread ?c = is_final user_thread c" by (simp add: is_final_def chRegSetThreadName_def)
        have m: "monitor ?c' = monitor c" "myThreads ?c' = (myThreads c)[i := (myThreads c ! i)\<lparr>tp := Some t, persistent := p\<rparr>]"
          by (simp_all add: on_slot_def)
        have "\<not> persistent x" if "x \<in> set (myThreads ?c')" "tp x = Some user_thread" for x
          using that assms(3) ok(3) set_update_subset_insert [of "myThreads c" i] unfolding m monitor_ok_def by fastforce
        moreover have "Some user_thread \<notin> set ((slots c)[i := Some t])" if "Some user_thread \<notin> set (slots c)" "t \<noteq> user_thread"
          using that set_update_subset_insert [of "slots c" i "Some t"] by auto
        ultimately show ?thesis
          using ok(3) u s unfolding monitor_ok_def f m g slots_simps by (auto simp: nth_list_update l i(1))
      qed
      ultimately show ?thesis unfolding e sys_ok_def by blast
    qed
  qed
qed

lemma exec_ok_monitor:
  assumes "sys_ok c"
  shows "\<exists>c'. vexCortexMonitorTask_step cs cs' c = Some c' \<and> sys_ok c'"
proof -
  have ok: "table_ok (slots c) (kern c)" "threads_ok (kern c)" "monitor_ok c" using assms(1) by (simp_all add: sys_ok_def)
  have l: "length (myThreads c) = MAX_THREAD" by (rule table_length [OF ok(1)])
  have same: "monitor c' = m \<Longrightarrow> myThreads c' = myThreads c \<Longrightarrow> slots c' = slots c" for c' :: cortex_sys and m by (simp add: slots_def)
  show ?thesis
  proof (cases "monitor c")
    case Polling
    then have u: "Some user_thread \<notin> set (slots c)" "is_final user_thread c" using ok(3) by (simp_all add: monitor_ok_def)
    let ?k = "chThdCreate user_thread (kern c)"
    have "table_ok (slots c) ?k" "threads_ok ?k"
      using ok(1,2) u unfolding chThdCreate_def by (auto simp: threads_ok_def intro!: table_ok_thread)
    then have "sys_ok (c\<lparr>kern := ?k, monitor := In_Period m\<rparr>)" for m
      using ok(3) by (simp add: sys_ok_def slots_def monitor_ok_def)
    then show ?thesis using Polling assms by (simp add: vexCortexMonitorTask_step_def Let_def)
  next
    case (In_Period m)
    have "sys_ok (c\<lparr>monitor := Ending\<rparr>)" using ok by (simp add: sys_ok_def slots_def monitor_ok_def)
    then show ?thesis using In_Period assms by (simp add: vexCortexMonitorTask_step_def)
  next
    case Ending
    obtain k where k: "chEvtBroadcastFlagsI 0 (kern c) = Some k" "table_ok (slots c) k"
      "\<forall>t. thread_at k t = (if Some t \<in> set (slots c) \<and> \<not> final (thread_at (kern c) t) then signalled (thread_at (kern c) t) else thread_at (kern c) t)"
      using table_ok_broadcast [OF ok(1)] by blast
    have "threads_ok k" using ok(2) k(3) by (auto simp: threads_ok_def signalled_def Let_def)
    then have "sys_ok (c\<lparr>kern := k, monitor := Wait_User\<rparr>)" "sys_ok (c\<lparr>monitor := Wait_User\<rparr>)"
      using ok k(2) by (simp_all add: sys_ok_def slots_def monitor_ok_def)
    then show ?thesis using Ending k(1) by (simp add: vexCortexMonitorTask_step_def monitor_broadcast_def)
  next
    case Wait_User
    have "is_final user_thread c \<Longrightarrow> sys_ok (c\<lparr>outputs_of := ms, monitor := Reaping 0\<rparr>)" for ms
      using ok by (simp add: sys_ok_def slots_def monitor_ok_def is_final_def)
    then show ?thesis using Wait_User assms by (simp add: vexCortexMonitorTask_step_def)
  next
    case (Reaping i)
    then have u: "is_final user_thread c" "\<forall>j < i. j < MAX_THREAD \<longrightarrow> slots c ! j \<noteq> Some user_thread"
      and np: "\<forall>s \<in> set (myThreads c). tp s = Some user_thread \<longrightarrow> \<not> persistent s" using ok(3) by (simp_all add: monitor_ok_def)
    show ?thesis
    proof (cases "i < MAX_THREAD")
      case False
      then have "Some user_thread \<notin> set (slots c)" using u(2) l by (auto simp: in_set_conv_nth)
      then have "sys_ok (c\<lparr>monitor := m\<rparr>)" if "m \<in> {Polling, Killed}" for m
        using that ok u(1) np by (auto simp: sys_ok_def slots_def monitor_ok_def is_final_def)
      then show ?thesis using Reaping False by (simp add: vexCortexMonitorTask_step_def)
    next
      case True
      have go: "sys_ok (c\<lparr>monitor := Reaping (i + 1)\<rparr>)" if "slots c ! i \<noteq> Some user_thread"
        using that ok u np by (auto simp: sys_ok_def slots_def monitor_ok_def is_final_def less_Suc_eq)
      have tp_i: "slots c ! i = tp (myThreads c ! i)" using True l by (simp add: slots_nth)
      show ?thesis
      proof (cases "tp (myThreads c ! i)")
        case None
        then show ?thesis using go tp_i Reaping True by (simp add: vexCortexMonitorTask_step_def)
      next
        case (Some t)
        let ?c = "(on_slot i (\<lambda>s. s\<lparr>tp := None\<rparr>) c)\<lparr>monitor := Reaping (i + 1)\<rparr>"
        have s: "slots ?c = (slots c)[i := None]" by (simp add: on_slot_def slots_def map_update)
        have "sys_ok ?c" if "is_final t c"
        proof -
          have "table_ok (slots ?c) (kern ?c)"
            unfolding s using table_ok_clear [OF ok(1), of i t] that Some tp_i True by (simp add: is_final_def on_slot_def)
          moreover have "monitor_ok ?c"
            using u np True l set_update_subset_insert [of "myThreads c" i] unfolding monitor_ok_def s
            by (fastforce simp: on_slot_def is_final_def nth_list_update less_Suc_eq)
          ultimately show ?thesis using ok(2) by (simp add: sys_ok_def on_slot_def)
        qed
        moreover have "slots c ! i \<noteq> Some user_thread" if "persistent (myThreads c ! i)"
          using np that True l tp_i by (metis nth_mem)
        ultimately show ?thesis using Some go Reaping True assms by (auto simp: vexCortexMonitorTask_step_def)
      qed
    qed
  next
    case Killed
    then show ?thesis using assms by (simp add: vexCortexMonitorTask_step_def)
  qed
qed

text \<open>Every enabled step returns, and keeps the invariant unless it is the return of a registered thread.\<close>

lemma exec_ok:
  assumes "sys_ok c" "task_enabled e c"
  shows "\<exists>c'. task_exec e c = Some c' \<and> ((\<forall>t. e = Return t \<longrightarrow> \<not> registered t c) \<longrightarrow> sys_ok c')"
proof -
  have ok: "table_ok (slots c) (kern c)" "threads_ok (kern c)" "monitor_ok c" using assms(1) by (simp_all add: sys_ok_def)
  show ?thesis
  proof (cases e)
    case (Create t)
    then have "t \<noteq> user_thread" "Some t \<notin> set (slots c)" using assms(2) by (simp_all add: registered_slots)
    moreover from this have "monitor_ok (c\<lparr>kern := chThdCreate t (kern c)\<rparr>)"
      by (intro monitor_ok_thread [OF ok(3)]) (auto simp: is_final_def chThdCreate_def)
    ultimately show ?thesis using ok Create by (auto simp: sys_ok_def chThdCreate_def threads_ok_def intro!: table_ok_thread)
  next
    case (Register t name p)
    then show ?thesis using exec_ok_register [OF assms(1)] assms(2) by simp
  next
    case (Sleep t)
    then show ?thesis using exec_ok_sleep [OF assms(1)] assms(2) by auto
  next
    case (Wake t)
    then show ?thesis using exec_ok_wake [OF assms(1), of t False] assms(2) by auto
  next
    case (Timeout t)
    then show ?thesis using exec_ok_wake [OF assms(1), of t True] assms(2) by auto
  next
    case (Return t)
    have "sys_ok (c\<lparr>kern := chThdExit t (kern c)\<rparr>)" if "\<not> registered t c"
    proof -
      have "monitor_ok (c\<lparr>kern := chThdExit t (kern c)\<rparr>)"
        by (rule monitor_ok_thread [OF ok(3)]) (auto simp: is_final_def chThdExit_def)
      then show ?thesis using ok that by (auto simp: sys_ok_def chThdExit_def threads_ok_def registered_slots intro!: table_ok_thread)
    qed
    then show ?thesis using Return by simp
  next
    case (Terminate t)
    have "monitor_ok (c\<lparr>kern := chThdTerminate t (kern c)\<rparr>)"
      by (rule monitor_ok_thread [OF ok(3)]) (auto simp: is_final_def chThdTerminate_def)
    then show ?thesis using ok Terminate by (auto simp: sys_ok_def chThdTerminate_def threads_ok_def intro!: table_ok_thread)
  next
    case Emergency
    have s: "slots (vexTaskEmergencyStop c) = slots c" by (simp add: slots_def vexTaskEmergencyStop_def)
    have "monitor_ok (vexTaskEmergencyStop c)" using ok(3) unfolding monitor_ok_def s by (auto simp: vexTaskEmergencyStop_def is_final_def)
    moreover have "kern (vexTaskEmergencyStop c) = kern c" by (simp add: vexTaskEmergencyStop_def)
    ultimately show ?thesis using ok Emergency unfolding sys_ok_def by (simp add: s)
  next
    case (Monitor cs cs')
    then show ?thesis using exec_ok_monitor [OF assms(1)] by auto
  qed
qed

lemma orderly_ok: "orderly c \<Longrightarrow> sys_ok c"
proof (induction rule: orderly.induct)
  case (start c)
  have s: "slots (monitor_start c) = replicate MAX_THREAD None"
    using start(1) by (auto simp: slots_def monitor_start_def intro!: replicate_eqI)
  have k: "kern (monitor_start c) = (kern c)\<lparr>es_next := None\<rparr>" "monitor (monitor_start c) = Polling" using start by (simp_all add: monitor_start_def)
  have "live (replicate MAX_THREAD None) k = {}" for k by (auto simp: live_def)
  then have "table_ok (slots (monitor_start c)) (kern (monitor_start c))"
    unfolding s k table_ok_def using start(2) by (auto intro!: exI [of _ "[]"])
  moreover have "threads_ok (kern (monitor_start c))" using start(3) by (simp add: threads_ok_def k is_final_def)
  moreover have "monitor_ok (monitor_start c)"
    using start(3) unfolding monitor_ok_def s k(2) by (auto simp: is_final_def monitor_start_def)
  ultimately show ?case by (simp add: sys_ok_def)
next
  case (step c e c')
  then show ?case using exec_ok [OF step.IH step.hyps(2)] by auto
qed

text \<open>C30: Nothing hangs as long as no registered thread returns from its function: in every history of thread creation,
  registration, sleeping, waking, stopping and monitor steps in which the threads that are registered end only in
  \<open>vexSleep\<close>, the listeners form a list that ends and holds exactly the slots of the registered threads that have not
  ended, each once, and whatever step is enabled next, its loops over the list end.\<close>

theorem tasks_never_hang:
  assumes "orderly c" "task_enabled e c"
  shows "(\<exists>c'. task_exec e c = Some c') \<and>
    (\<exists>xs. path (map el_next (listeners (kern c))) (es_next (kern c)) xs None \<and> distinct xs \<and>
       set xs = {i. i < MAX_THREAD \<and> (\<exists>t. tp (myThreads c ! i) = Some t \<and> \<not> is_final t c)})"
proof -
  have ok: "sys_ok c" by (rule orderly_ok [OF assms(1)])
  then have t: "table_ok (slots c) (kern c)" by (simp add: sys_ok_def)
  have "live (slots c) (kern c) = {i. i < MAX_THREAD \<and> (\<exists>t. tp (myThreads c ! i) = Some t \<and> \<not> is_final t c)}"
    using table_length [OF t] by (auto simp: live_def is_final_def slots_nth)
  then show ?thesis using exec_ok [OF ok assms(2)] t unfolding table_ok_def links_def by auto
qed

section \<open>The end of a period\<close>

definition to_stop :: "'a cortex_scheme \<Rightarrow> tid set" where
  "to_stop c = {t. \<not> is_final t c \<and> (\<exists>s\<in>set (myThreads c). tp s = Some t \<and> \<not> persistent s)}"

text \<open>Signalled and not persistent: the thread leaves in its next or present sleep.\<close>

definition doomed :: "tid \<Rightarrow> 'a cortex_scheme \<Rightarrow> bool" where
  "doomed t c \<longleftrightarrow> p_state (thread_at (kern c) t) = THD_STATE_READY \<and> p_epending (thread_at (kern c) t) \<noteq> 0 \<and>
     (\<exists>s\<in>set (myThreads c). tp s = Some t \<and> \<not> persistent s)"

definition leave :: "tid \<Rightarrow> 'a cortex_scheme \<Rightarrow> task_event" where
  "leave t c = (if in_sleep (thread_at (kern c) t) then Wake t else Sleep t)"

definition frame :: "tid set \<Rightarrow> cortex_sys \<Rightarrow> cortex_sys \<Rightarrow> bool" where
  "frame T c c' \<longleftrightarrow> sys_ok c' \<and> monitor c' = monitor c \<and> vexKillAll c' = vexKillAll c \<and> outputs_of c' = outputs_of c \<and>
     (\<forall>u. u \<notin> T \<longrightarrow> thread_at (kern c') u = thread_at (kern c) u) \<and>
     (\<forall>s\<in>set (myThreads c'). \<forall>u. tp s = Some u \<longrightarrow> s \<in> set (myThreads c)) \<and>
     (\<forall>s\<in>set (myThreads c). \<forall>u. tp s = Some u \<and> u \<notin> T \<longrightarrow> s \<in> set (myThreads c'))"

lemma frame_trans: "frame S c c1 \<Longrightarrow> frame T c1 c2 \<Longrightarrow> frame (S \<union> T) c c2"
proof -
  assume a: "frame S c c1" and b: "frame T c1 c2"
  have "thread_at (kern c2) u = thread_at (kern c) u" if "u \<notin> S \<union> T" for u using that a b by (simp add: frame_def)
  moreover have "s \<in> set (myThreads c)" if "s \<in> set (myThreads c2)" "tp s = Some u" for s u using that a b unfolding frame_def by blast
  moreover have "s \<in> set (myThreads c2)" if "s \<in> set (myThreads c)" "tp s = Some u" "u \<notin> S \<union> T" for s u
    using that a b unfolding frame_def by blast
  ultimately show ?thesis using a b unfolding frame_def by metis
qed

lemma persistent_get:
  "table_ok (slots c) k \<Longrightarrow> s \<in> set (myThreads c) \<Longrightarrow> tp s = Some t \<Longrightarrow> vexTaskPersistentGet (Some t) c = persistent s"
proof -
  assume c: "table_ok (slots c) k" "s \<in> set (myThreads c)" "tp s = Some t"
  obtain i where i: "i < MAX_THREAD" "s = myThreads c ! i" using c(2) table_length [OF c(1)] by (auto simp: in_set_conv_nth)
  then have "find_slot (Some t) c = Some i" using c find_slot_holds [OF c(1) i(1)] table_length [OF c(1)] by (simp add: slots_nth)
  then show ?thesis using i by (simp add: vexTaskPersistentGet_def)
qed

lemma rest_stops:
  fixes c :: cortex_sys
  assumes "sys_ok c" "p_state (thread_at (kern c) t) = THD_STATE_READY" "ev \<noteq> 0" "s \<in> set (myThreads c)" "tp s = Some t" "\<not> persistent s"
  shows "\<exists>c'. vexSleep_rest t ev c = Some c' \<and> is_final t c' \<and> frame {t} c c'"
proof -
  have ok: "table_ok (slots c) (kern c)" "threads_ok (kern c)" "monitor_ok c" using assms(1) by (simp_all add: sys_ok_def)
  have st: "stops_on ev t c" using assms(3,6) persistent_get [OF ok(1) assms(4,5)] by (simp add: stops_on_def)
  let ?ms = "if stops_on ev t c \<and> p_terminate (thread_at (kern c) t) then cleared t (myThreads c) else myThreads c"
  obtain k rs where r: "vexSleep_rest t ev c = Some (c\<lparr>kern := k, myThreads := ?ms, rcTasks := rs\<rparr>)"
    "thread_at k = (thread_at (kern c))(t := (thread_at (kern c) t)\<lparr>in_sleep := False,
       p_state := if stops_on ev t c then THD_STATE_FINAL else p_state (thread_at (kern c) t)\<rparr>)"
    using sleep_rest_effect [OF ok(1), of t ev] assms(2) by auto
  have "sys_ok (c\<lparr>kern := k, myThreads := ?ms, rcTasks := rs\<rparr>)" using sleep_rest_ok [OF ok assms(2), of ev] r(1) by simp
  moreover have "s \<in> set ?ms" if "s \<in> set (myThreads c)" "tp s = Some u" "u \<noteq> t" for s u
    using that by (force simp: cleared_def)
  moreover have "s \<in> set (myThreads c)" if "s \<in> set ?ms" "tp s = Some u" for s u
    using that set_cleared by (auto split: if_splits)
  ultimately show ?thesis using r st by (auto simp: frame_def is_final_def)
qed

lemma leave_stops:
  fixes c :: cortex_sys
  assumes "sys_ok c" "doomed t c"
  shows "task_enabled (leave t c) c \<and> (\<exists>c'. task_exec (leave t c) c = Some c' \<and> is_final t c' \<and> frame {t} c c')"
proof -
  have ok: "table_ok (slots c) (kern c)" "threads_ok (kern c)" "monitor_ok c" using assms(1) by (simp_all add: sys_ok_def)
  let ?ev = "p_epending (thread_at (kern c) t)"
  obtain s where s: "s \<in> set (myThreads c)" "tp s = Some t" "\<not> persistent s" and ev: "?ev \<noteq> 0"
    and rd: "p_state (thread_at (kern c) t) = THD_STATE_READY" using assms(2) by (auto simp: doomed_def)
  have a: "?ev AND ALL_EVENTS = ?ev" by (simp add: ALL_EVENTS_def)
  define f :: "thread \<Rightarrow> thread" where "f = (\<lambda>th. th\<lparr>p_epending := p_epending th AND NOT ?ev\<rparr>) \<circ> (\<lambda>th. if in_sleep (thread_at (kern c) t) then th else th\<lparr>in_sleep := True\<rparr>)"
  let ?c = "c\<lparr>kern := on_thread t f (kern c)\<rparr>"
  have f: "p_state (f (thread_at (kern c) t)) = THD_STATE_READY" using rd by (simp add: f_def)
  have "table_ok (slots c) (on_thread t f (kern c))" by (rule table_ok_thread [OF ok(1)]) (simp add: f rd)
  moreover have "threads_ok (on_thread t f (kern c))" using ok(2) f by (simp add: threads_ok_def)
  moreover have "monitor_ok ?c" by (rule monitor_ok_thread [OF ok(3)]) (use rd in \<open>auto simp: is_final_def\<close>)
  ultimately have "sys_ok ?c" by (simp add: sys_ok_def)
  then obtain c' where c': "vexSleep_rest t ?ev ?c = Some c'" "is_final t c'" "frame {t} ?c c'"
    using rest_stops [of ?c t ?ev s] s ev f by auto
  have "task_exec (leave t c) c = vexSleep_rest t ?ev ?c"
  proof (cases "in_sleep (thread_at (kern c) t)")
    case True
    then show ?thesis by (simp add: leave_def vexSleep_wake_def wait_any_end_def Let_def a f_def comp_def)
  next
    case False
    have tt: "on_thread t g (on_thread t h k) = on_thread t (\<lambda>th. g (h th)) k" for g h k by (simp add: on_thread_def)
    then show ?thesis using False ev by (simp add: leave_def vexSleep_def wait_any_begin_def Let_def a f_def comp_def tt)
  qed
  moreover have "frame {t} c c'" using c'(3) by (simp add: frame_def)
  moreover have "task_enabled (leave t c) c" using rd by (simp add: leave_def runs_def)
  ultimately show ?thesis using c' by auto
qed

lemma leave_all:
  "sys_ok c \<Longrightarrow> distinct ts \<Longrightarrow> (\<And>t. t \<in> set ts \<Longrightarrow> doomed t c) \<Longrightarrow>
   \<exists>c'. task_run (map (\<lambda>t. leave t c) ts) c = Some c' \<and> (\<forall>t\<in>set ts. is_final t c') \<and> frame (set ts) c c'"
proof (induction ts arbitrary: c)
  case Nil
  then show ?case by (simp add: frame_def)
next
  case (Cons t ts)
  obtain c1 where c1: "task_enabled (leave t c) c" "task_exec (leave t c) c = Some c1" "is_final t c1" "frame {t} c c1"
    using leave_stops [OF Cons.prems(1), of t] Cons.prems(3) by auto
  have th: "thread_at (kern c1) u = thread_at (kern c) u" if "u \<noteq> t" for u using c1(4) that by (simp add: frame_def)
  have d: "doomed u c1" if "u \<in> set ts" for u
    using Cons.prems(2) Cons.prems(3) [of u] c1(4) that th [of u] unfolding doomed_def frame_def by auto
  have e: "map (\<lambda>u. leave u c) ts = map (\<lambda>u. leave u c1) ts" unfolding leave_def using Cons.prems(2) th by (intro map_cong refl) (metis distinct.simps(2))
  obtain c' where c': "task_run (map (\<lambda>t. leave t c1) ts) c1 = Some c'" "\<forall>t\<in>set ts. is_final t c'" "frame (set ts) c1 c'"
    using Cons.IH [of c1] Cons.prems(2) d c1(4) by (auto simp: frame_def)
  have "frame (set (t # ts)) c c'" using frame_trans [OF c1(4) c'(3)] by simp
  moreover have "is_final t c'" using c1(3) c'(3) Cons.prems(2) by (simp add: frame_def is_final_def)
  ultimately show ?case unfolding list.map e task_run.simps using c1(1,2) c'(1,2) by auto
qed

lemma reap_all:
  assumes "monitor c = Reaping i" "i \<le> MAX_THREAD" "length (myThreads c) = MAX_THREAD" "\<not> vexKillAll c"
    "\<And>s t. s \<in> set (myThreads c) \<Longrightarrow> tp s = Some t \<Longrightarrow> persistent s \<or> is_final t c"
    "\<forall>j<i. tp (myThreads c ! j) \<noteq> None \<longrightarrow> persistent (myThreads c ! j)"
  shows "\<exists>c'. task_run (replicate (Suc (MAX_THREAD - i)) (Monitor cs cs')) c = Some c' \<and> monitor c' = Polling \<and> kern c' = kern c \<and>
     outputs_of c' = outputs_of c \<and> (\<forall>s\<in>set (myThreads c'). tp s \<noteq> None \<longrightarrow> persistent s) \<and>
     (\<forall>s\<in>set (myThreads c). persistent s \<longrightarrow> s \<in> set (myThreads c'))"
  using assms
proof (induction "MAX_THREAD - i" arbitrary: i c)
  case 0
  then have "i = MAX_THREAD" by simp
  then show ?case using 0 by (auto simp: vexCortexMonitorTask_step_def in_set_conv_nth)
next
  case (Suc n)
  let ?s = "myThreads c ! i"
  have i: "i < MAX_THREAD" "?s \<in> set (myThreads c)" using Suc.hyps(2) Suc.prems(3) by auto
  define clear where "clear \<longleftrightarrow> tp ?s \<noteq> None \<and> \<not> persistent ?s"
  let ?c = "c\<lparr>myThreads := if clear then (myThreads c)[i := ?s\<lparr>tp := None\<rparr>] else myThreads c, monitor := Reaping (i + 1)\<rparr>"
  have e: "vexCortexMonitorTask_step cs cs' c = Some ?c"
    using i Suc.prems(1,5) by (auto simp: vexCortexMonitorTask_step_def clear_def on_slot_def split: option.split)
  have sub: "s \<in> set (myThreads c)" if "s \<in> set (myThreads ?c)" "tp s = Some t" for s t
    using that set_update_subset_insert [of "myThreads c" i] by (fastforce split: if_splits)
  have per: "s \<in> set (myThreads ?c)" if "s \<in> set (myThreads c)" "persistent s" for s
  proof -
    obtain j where j: "j < MAX_THREAD" "s = myThreads c ! j" using \<open>s \<in> _\<close> Suc.prems(3) by (auto simp: in_set_conv_nth)
    then have "myThreads ?c ! j = s" using that(2) by (cases "j = i") (auto simp: clear_def)
    moreover have "length (myThreads ?c) = MAX_THREAD" using Suc.prems(3) by simp
    ultimately show ?thesis using j(1) nth_mem by metis
  qed
  have n1: "n = MAX_THREAD - (i + 1)" using Suc.hyps(2) by simp
  have l: "monitor ?c = Reaping (i + 1)" "i + 1 \<le> MAX_THREAD" "length (myThreads ?c) = MAX_THREAD" "\<not> vexKillAll ?c"
    using i(1) Suc.prems(3,4) by simp_all
  have j: "\<forall>j<i + 1. tp (myThreads ?c ! j) \<noteq> None \<longrightarrow> persistent (myThreads ?c ! j)"
    using Suc.prems(3,6) i(1) by (auto simp: clear_def less_Suc_eq)
  have f: "persistent s \<or> is_final t ?c" if "s \<in> set (myThreads ?c)" "tp s = Some t" for s t
    using Suc.prems(5) [OF sub [OF that] that(2)] by (simp add: is_final_def)
  obtain c' where c': "task_run (replicate (Suc (MAX_THREAD - (i + 1))) (Monitor cs cs')) ?c = Some c'" "monitor c' = Polling" "kern c' = kern ?c"
     "outputs_of c' = outputs_of ?c" "\<forall>s\<in>set (myThreads c'). tp s \<noteq> None \<longrightarrow> persistent s"
     "\<forall>s\<in>set (myThreads ?c). persistent s \<longrightarrow> s \<in> set (myThreads c')"
    using Suc.hyps(1) [OF n1 l f j] by blast
  have n: "Suc (MAX_THREAD - i) = Suc (Suc (MAX_THREAD - (i + 1)))" using i(1) by simp
  show ?case unfolding n replicate_Suc [of "Suc (MAX_THREAD - (i + 1))"] using c' per e by (auto simp del: replicate.simps)
qed


section \<open>A registered thread that returns\<close>

text \<open>The list from the source stays within \<open>S\<close> and never ends.\<close>

definition trapped :: "nat set \<Rightarrow> kernel \<Rightarrow> bool" where
  "trapped S k \<longleftrightarrow> es_next k \<in> Some ` S \<and> (\<forall>j\<in>S. j < length (listeners k) \<and> links k ! j \<in> Some ` S)"

lemma broadcast_trapped:
  assumes "broadcast_loop flags p k = Some k'" "p \<in> Some ` S" "\<forall>j\<in>S. j < length (listeners k) \<and> links k ! j \<in> Some ` S"
  shows False
proof -
  have "p \<in> Some ` S \<longrightarrow> (\<forall>j\<in>S. j < length (listeners k) \<and> links k ! j \<in> Some ` S) \<longrightarrow> False"
  proof (rule broadcast_loop.raw_induct [OF _ assms(1)], intro impI)
    fix f :: "u32 \<Rightarrow> nat option \<Rightarrow> kernel \<Rightarrow> kernel option" and flags p k y
    assume IH: "\<And>flags p k y. f flags p k = Some y \<Longrightarrow> p \<in> Some ` S \<longrightarrow> (\<forall>j\<in>S. j < length (listeners k) \<and> links k ! j \<in> Some ` S) \<longrightarrow> False"
      and step: "(case p of None \<Rightarrow> Some k | Some i \<Rightarrow> let k = on_listener i (\<lambda>e. e\<lparr>el_flags := el_flags e OR flags\<rparr>) k;
          k = chEvtSignalI (el_listener (listeners k ! i)) (el_mask (listeners k ! i)) k in f flags (el_next (listeners k ! i)) k) = Some y"
      and p: "p \<in> Some ` S" and S: "\<forall>j\<in>S. j < length (listeners k) \<and> links k ! j \<in> Some ` S"
    obtain i where i: "p = Some i" "i \<in> S" using p by auto
    let ?k1 = "on_listener i (\<lambda>e. e\<lparr>el_flags := el_flags e OR flags\<rparr>) k"
    let ?k2 = "chEvtSignalI (el_listener (listeners ?k1 ! i)) (el_mask (listeners ?k1 ! i)) ?k1"
    have k2: "links ?k2 = links k" "length (listeners ?k2) = length (listeners k)"
      by (simp_all add: chEvtSignalI_def on_listener_keeps del: on_listener_simps(4))
    have n: "el_next (listeners ?k2 ! i) = links k ! i"
    proof -
      have "links ?k2 ! i = el_next (listeners ?k2 ! i)" unfolding links_def by (rule nth_map) (use S i(2) k2(2) in simp)
      then show ?thesis by (simp only: k2(1))
    qed
    have r: "f flags (el_next (listeners ?k2 ! i)) ?k2 = Some y" using step i(1) by (simp add: Let_def)
    show False using IH [OF r] S i(2) n k2 by simp
  qed
  then show False using assms(2,3) by blast
qed

lemma trapped_hangs: "trapped S k \<Longrightarrow> chEvtBroadcastFlagsI flags k = None"
  using broadcast_trapped [of flags "es_next k" k] unfolding chEvtBroadcastFlagsI_def trapped_def by (metis not_None_eq)

lemma trapped_register:
  "trapped S k \<Longrightarrow> i < length (listeners k) \<Longrightarrow> trapped (insert i S) (chEvtRegisterMask t i m k)"
  by (auto simp: trapped_def chEvtRegisterMask_def nth_list_update)

text \<open>Registering a listener that is in the list already closes the list to a cycle.\<close>

lemma register_again:
  assumes "path (links k) (es_next k) xs None" "i \<in> set xs"
  shows "\<exists>S. trapped S (chEvtRegisterMask t i m k)"
proof -
  obtain ys zs where xs: "xs = ys @ i # zs" "i \<notin> set ys" using split_list_first [OF assms(2)] by blast
  have p: "path (links k) (es_next k) ys (Some i)" "i < length (listeners k)" using assms(1) xs by (auto simp: path_append)
  have "path ns q ws (Some i) \<Longrightarrow> \<forall>j\<in>set ws. j < length ns \<and> ns ! j \<in> Some ` insert i (set ws)" for ns q ws
  proof (induction ws arbitrary: q)
    case (Cons w ws)
    then have "ns ! w \<in> Some ` insert i (set ws)" by (cases ws) auto
    then show ?case using Cons by auto
  qed simp
  from this [OF p(1)] have s: "\<forall>j\<in>set ys. j < length (listeners k) \<and> links k ! j \<in> Some ` insert i (set ys)" by simp
  have h: "es_next k \<in> Some ` insert i (set ys)" using p(1) by (cases ys) auto
  have "links (chEvtRegisterMask t i m k) = (links k)[i := es_next k]" by (simp add: chEvtRegisterMask_def)
  then have "trapped (insert i (set ys)) (chEvtRegisterMask t i m k)"
    using s h p(2) xs(2) by (auto simp: trapped_def chEvtRegisterMask_def nth_list_update)
  then show ?thesis by blast
qed

lemma trapped_task_register:
  fixes c :: cortex_sys
  assumes "trapped S (kern c)" "length (listeners (kern c)) = MAX_THREAD" "length (myThreads c) = MAX_THREAD"
  shows "\<exists>S. trapped S (kern (vexTaskRegisterPersistant t name p c))"
    "length (listeners (kern (vexTaskRegisterPersistant t name p c))) = MAX_THREAD"
    "length (myThreads (vexTaskRegisterPersistant t name p c)) = MAX_THREAD"
proof -
  let ?k = "chRegSetThreadName t name (kern c)" let ?c = "c\<lparr>kern := ?k\<rparr>"
  have k: "trapped S ?k" "length (listeners ?k) = MAX_THREAD" using assms by (simp_all add: chRegSetThreadName_def trapped_def)
  have "length (myThreads ?c) = MAX_THREAD" using assms(3) by simp
  note fs = find_slot_Some [OF this, of None]
  show "\<exists>S. trapped S (kern (vexTaskRegisterPersistant t name p c))"
    using k trapped_register [OF k(1)] fs
    by (simp add: vexTaskRegisterPersistant_def Let_def on_slot_def split: option.split) blast
  show "length (listeners (kern (vexTaskRegisterPersistant t name p c))) = MAX_THREAD"
    "length (myThreads (vexTaskRegisterPersistant t name p c)) = MAX_THREAD"
    using k(2) assms(3) by (auto simp: vexTaskRegisterPersistant_def Let_def on_slot_def chEvtRegisterMask_def split: option.split)
qed

text \<open>A registered thread that returns from its function makes the monitor hang with the kernel locked at the end of a later
  period. Let a thread that is registered in a slot with no free slot before it return, as the thread of the autonomous
  period does; the monitor then clears the slot. The next thread that registers, as that of the driver
  period does, gets the slot, and its listener, which is still in the list, is linked in again; whatever other threads
  register after it, the broadcast at the end of the period never returns.\<close>

theorem returned_task_hangs_monitor:
  assumes "orderly c" "runs t c" "i < MAX_THREAD" "tp (myThreads c ! i) = Some t" "\<not> persistent (myThreads c ! i)"
    "\<forall>j<i. tp (myThreads c ! j) \<noteq> None"
    "task_exec (Return t) c = Some c1" "vexCortexMonitorTask_step cs cs' (c1\<lparr>monitor := Reaping i\<rparr>) = Some c2" "\<not> registered u c2"
  shows "vexCortexMonitorTask_step cs cs'
    ((fold (\<lambda>(v, n, q). vexTaskRegisterPersistant v n q) later (vexTaskRegisterPersistant u name p c2))\<lparr>monitor := Ending\<rparr>) = None"
proof -
  have t: "table_ok (slots c) (kern c)" using orderly_ok [OF assms(1)] by (simp add: sys_ok_def)
  have l: "length (myThreads c) = MAX_THREAD" "length (listeners (kern c)) = MAX_THREAD" using t by (simp_all add: table_ok_def)
  obtain xs where xs: "path (links (kern c)) (es_next (kern c)) xs None" "set xs = live (slots c) (kern c)" using t by (auto simp: table_ok_def)
  have i: "i \<in> set xs" using xs(2) assms(2-4) l(1) by (auto simp: live_def slots_nth runs_def)
  have c2: "c2 = (on_slot i (\<lambda>s. s\<lparr>tp := None\<rparr>) c1)\<lparr>monitor := Reaping (i + 1)\<rparr>" and c1: "c1 = c\<lparr>kern := chThdExit t (kern c)\<rparr>"
    using assms(3-5,7,8) by (auto simp: vexCortexMonitorTask_step_def is_final_def chThdExit_def on_slot_def)
  have k2: "kern c2 = chThdExit t (kern c)" "myThreads c2 = (myThreads c)[i := (myThreads c ! i)\<lparr>tp := None\<rparr>]"
    by (simp_all add: c2 c1 on_slot_def)
  have s2: "slots c2 ! j \<noteq> None" if "j < i" for j using that assms(3,6) l(1) k2(2) by (simp add: slots_def)
  have l2: "length (myThreads c2) = MAX_THREAD" "slots c2 ! i = None" using assms(3) l(1) k2(2) by (simp_all add: slots_def)
  then have "find_slot None c2 \<noteq> None" using assms(3) find_slot_None [OF l2(1)] by (metis nth_mem slots_simps(2))
  then have free: "find_slot None c2 = Some i" using find_slot_Some [OF l2(1)] l2(2) s2 by (metis linorder_neqE_nat not_None_eq)
  have new: "find_slot (Some u) c2 = None" using assms(9) find_slot_None [OF l2(1)] by (simp add: registered_slots)
  let ?k = "chRegSetThreadName u name (kern c2)"
  let ?c = "vexTaskRegisterPersistant u name p c2"
  have "find_slot v (c2\<lparr>kern := k\<rparr>) = find_slot v c2" for v k by (simp add: find_slot_def)
  then have r: "kern ?c = chEvtRegisterMask u i 1 ?k" "length (myThreads ?c) = MAX_THREAD"
    using free new l2(1) by (simp_all add: vexTaskRegisterPersistant_def Let_def on_slot_def)
  have "path (links ?k) (es_next ?k) xs None" "length (listeners ?k) = MAX_THREAD"
    using xs(1) l(2) by (simp_all add: k2 chRegSetThreadName_def chThdExit_def)
  then have tr: "\<exists>S. trapped S (kern ?c)" "length (listeners (kern ?c)) = MAX_THREAD"
    using register_again [OF _ i] unfolding r by (simp_all add: chEvtRegisterMask_def)
  have "\<exists>S. trapped S (kern (fold (\<lambda>(v, n, q). vexTaskRegisterPersistant v n q) later c))"
    if "\<exists>S. trapped S (kern c)" "length (listeners (kern c)) = MAX_THREAD" "length (myThreads c) = MAX_THREAD" for c :: cortex_sys
    using that
  proof (induction later arbitrary: c)
    case (Cons r later)
    obtain v n q where "r = (v, n, q)" by (cases r)
    then show ?case using Cons.IH [of "vexTaskRegisterPersistant v n q c"] Cons.prems trapped_task_register [of _ c v n q] by auto
  qed simp
  from this [OF tr r(2)] obtain S where S: "trapped S (kern (fold (\<lambda>(v, n, q). vexTaskRegisterPersistant v n q) later ?c))" by blast
  then have "es_next (kern (fold (\<lambda>(v, n, q). vexTaskRegisterPersistant v n q) later ?c)) \<noteq> None" by (auto simp: trapped_def)
  then show ?thesis using trapped_hangs [OF S]
    by (simp add: vexCortexMonitorTask_step_def monitor_broadcast_def chEvtIsListeningI_def)
qed

section \<open>The motors after the end of a period\<close>

lemma stop_all_get:
  assumes "motors_ok (vexMotors ms)" "0 \<le> j" "j < 10"
  shows "vexMotorGet j (vexMotorStopAll ms) = 0"
proof -
  have len: "length (vexMotors (fold (\<lambda>i. vexMotorSet i 0) js ms)) = length (vexMotors ms)" for js ms
    by (induction js arbitrary: ms) (simp_all add: vexMotorSet_def motor_update_def)
  have st: "vexMotorGet i (vexMotorSet k 0 ms) = (if i = k then 0 else vexMotorGet i ms)"
    if "length (vexMotors ms) = 10" "0 \<le> i" "i < 10" "0 \<le> k" "k < 10" for i k and ms :: motor_state
    using motor_get_set [OF that(1), of k i 0] that by auto
  have "vexMotorGet j (fold (\<lambda>i. vexMotorSet i 0) js ms) = (if j \<in> set js then 0 else vexMotorGet j ms)"
    if "set js \<subseteq> {0..9}" "length (vexMotors ms) = 10" for js ms
    using that
  proof (induction js arbitrary: ms)
    case (Cons i js)
    have "length (vexMotors (vexMotorSet i 0 ms)) = 10" using len [of "[i]" ms] Cons.prems(2) by simp
    then show ?case using Cons st [of ms j i] assms(2,3) by auto
  qed simp
  then show ?thesis
    using assms by (simp add: vexMotorStopAll_def motors_ok_def kVexMotor_1_def kVexMotorNum_def)
qed

text \<open>Stopping all motors at the end of a period does not last: the monitor's step sets every motor to zero, but the slew
  rate task is persistent and keeps the commands, and after at most 254 divided by the slew rate of its rounds each motor
  runs again at the last speed requested for it, while the robot is disabled.\<close>

theorem stopped_motors_run_again:
  assumes "monitor c = Wait_User" "is_final user_thread c" "vexCortexMonitorTask_step cs cs' c = Some c'"
    "smart_ok s" "motors_ok (vexMotors (outputs_of c))" "0 \<le> j" "j < 10" "254 \<le> int n * motor_slew (sMotors s ! nat j)"
  shows "vexMotorGet j (outputs_of c') = 0 \<and>
    vexMotorGet j (snd ((SlewRateTask_round ^^ n) (s, outputs_of c'))) = requested s (sMotors s ! nat j)"
proof -
  let ?m = "sMotors s ! nat j"
  have o: "outputs_of c' = vexMotorStopAll (outputs_of c)" using assms(1-3) by (auto simp: vexCortexMonitorTask_step_def)
  have ok: "motors_ok (vexMotors (outputs_of c'))" unfolding o using stop_table assms(5) by blast
  have z: "vexMotorGet j (outputs_of c') = 0" unfolding o by (rule stop_all_get [OF assms(5-7)])
  have r: "0 < motor_slew ?m" "\<bar>requested s ?m\<bar> \<le> 127" "\<bar>vexMotorGet j (outputs_of c')\<bar> \<le> 127"
    using assms(4,6,7) requested_range [OF assms(4), of "nat j"] z by (simp_all add: smart_ok_def)
  have "vexMotorGet j (snd ((SlewRateTask_round ^^ n) (s, outputs_of c'))) = ramp (vexMotorGet j (outputs_of c')) (requested s ?m) (motor_slew ?m) n"
    using slew_rounds [OF assms(4) ok] assms(6,7) by blast
  also have "\<dots> = requested s ?m" by (rule ramp_reaches [OF r(1,3,2) assms(8)])
  finally show ?thesis using z by simp
qed

section \<open>A history\<close>

text \<open>The slew rate task is running when the autonomous period begins; its thread registers and starts another.\<close>

definition fresh_cortex :: cortex_sys where
  "fresh_cortex =
     \<lparr>kern = \<lparr>es_next = None, listeners = replicate MAX_THREAD \<lparr>el_next = None, el_listener = 0, el_mask = 0, el_flags = 0\<rparr>,
        thread_at = (\<lambda>_. \<lparr>p_name = [], p_state = THD_STATE_FINAL, p_terminate = False, p_epending = 0, p_ewmask = 0, in_sleep = False\<rparr>)\<rparr>,
      myThreads = replicate MAX_THREAD \<lparr>tp = None, persistent = False\<rparr>, vexKillAll = False,
      rcTasks = replicate RC_TASKS \<lparr>pf = None, rc_tp = None\<rparr>, monitor = Polling, outputs_of = motor_memory\<rparr>"

definition autonomous_begins :: "task_event list" where
  "autonomous_begins = [Create 1, Register 1 ''slewMotor'' True, Sleep 1, Monitor 0x40 0x40, Register 0 ''auton'' False,
     Create 2, Register 2 ''arm'' False, Sleep 2]"

definition in_autonomous :: cortex_sys where
  "in_autonomous = the (task_run autonomous_begins (monitor_start fresh_cortex))"

definition at_the_end :: cortex_sys where
  "at_the_end = the (task_run (autonomous_begins @ [Monitor 0x80 0x80]) (monitor_start fresh_cortex))"

lemma orderly_run: "orderly c \<Longrightarrow> task_run es c = Some c' \<Longrightarrow> \<forall>t. Return t \<notin> set es \<Longrightarrow> orderly c'"
proof (induction es arbitrary: c)
  case (Cons e es)
  then obtain c1 where c1: "task_enabled e c" "task_exec e c = Some c1" "task_run es c1 = Some c'"
    by (auto split: if_splits Option.bind_splits)
  have "orderly c1" by (rule orderly.step [OF Cons.prems(1) c1(1) _ c1(2)]) (use Cons.prems(3) in auto)
  then show ?case using Cons.IH c1(3) Cons.prems(3) by simp
qed simp

lemma fresh_orderly: "orderly (monitor_start fresh_cortex)"
  by (rule orderly.start) (simp_all add: fresh_cortex_def is_final_def)

lemma samples_run: "task_run autonomous_begins (monitor_start fresh_cortex) \<noteq> None"
  "task_run (autonomous_begins @ [Monitor 0x80 0x80]) (monitor_start fresh_cortex) \<noteq> None"
  unfolding Option.is_none_def [symmetric] by code_simp+

lemma samples_orderly: "orderly in_autonomous" "orderly at_the_end"
  using samples_run orderly_run [OF fresh_orderly, of autonomous_begins]
    orderly_run [OF fresh_orderly, of "autonomous_begins @ [Monitor 0x80 0x80]"]
  by (auto simp: in_autonomous_def at_the_end_def autonomous_begins_def simp del: task_run.simps)

lemma at_the_end_values: "monitor at_the_end = Ending" "\<not> vexKillAll at_the_end" "task_enabled (Monitor 0x80 0x80) at_the_end"
  "\<not> is_final 0 at_the_end" "\<not> is_final 2 at_the_end"
  "map (\<lambda>s. (tp s, persistent s)) (myThreads at_the_end) =
     [(Some 1, True), (Some 0, False), (Some 2, False)] @ replicate 17 (None, False)"
  by code_simp+

lemma at_the_end_stops: "to_stop at_the_end = {0, 2}"
proof -
  have "t \<in> to_stop at_the_end \<longleftrightarrow> \<not> is_final t at_the_end \<and> (Some t, False) \<in> set (map (\<lambda>s. (tp s, persistent s)) (myThreads at_the_end))" for t
    by (force simp: to_stop_def)
  then show ?thesis unfolding at_the_end_values(6) using at_the_end_values(4,5) by auto
qed

lemma tasks_never_hang_witness: "\<exists>c'. task_exec (Monitor 0x80 0x80) at_the_end = Some c'"
  using tasks_never_hang [OF samples_orderly(2) at_the_end_values(3)] by blast


definition returned :: cortex_sys where
  "returned = in_autonomous\<lparr>kern := chThdExit 0 (kern in_autonomous)\<rparr>"

definition slot_cleared :: cortex_sys where
  "slot_cleared = the (vexCortexMonitorTask_step 0x80 0x80 (returned\<lparr>monitor := Reaping 1\<rparr>))"

lemma in_autonomous_values: "runs 0 in_autonomous" "(1 :: nat) < MAX_THREAD" "tp (myThreads in_autonomous ! 1) = Some 0"
  "\<not> persistent (myThreads in_autonomous ! 1)" "tp (myThreads in_autonomous ! 0) \<noteq> None"
  "Some 0 \<notin> set (slots slot_cleared)" "vexCortexMonitorTask_step 0x80 0x80 (returned\<lparr>monitor := Reaping 1\<rparr>) \<noteq> None"
  unfolding Option.is_none_def [symmetric] by code_simp+

lemma returned_task_hangs_monitor_witness:
  "vexCortexMonitorTask_step 0x80 0x80 ((fold (\<lambda>(v, n, q). vexTaskRegisterPersistant v n q) [(2, ''arm'', False)]
     (vexTaskRegisterPersistant 0 ''operator'' False slot_cleared))\<lparr>monitor := Ending\<rparr>) = None"
proof -
  have j: "\<forall>j<1. tp (myThreads in_autonomous ! j) \<noteq> None" using in_autonomous_values(5) by (simp del: not_None_eq)
  have r: "task_exec (Return 0) in_autonomous = Some returned" by (simp add: returned_def)
  have s: "vexCortexMonitorTask_step 0x80 0x80 (returned\<lparr>monitor := Reaping 1\<rparr>) = Some slot_cleared"
    using in_autonomous_values(7) by (simp add: slot_cleared_def option.collapse)
  have n: "\<not> registered 0 slot_cleared" using in_autonomous_values(6) by (simp add: registered_slots)
  show ?thesis by (rule returned_task_hangs_monitor [OF samples_orderly(1) in_autonomous_values(1-4) j r s n])
qed

lemma stopped_motors_run_again_witness:
  "\<exists>c'. vexCortexMonitorTask_step 0x80 0x80 (fresh_cortex\<lparr>monitor := Wait_User, outputs_of := sample_motors\<rparr>) = Some c' \<and>
     vexMotorGet 5 (outputs_of c') = 0 \<and> vexMotorGet 5 (snd ((SlewRateTask_round ^^ 26) (commanded, outputs_of c'))) = 100"
proof -
  let ?c = "fresh_cortex\<lparr>monitor := Wait_User, outputs_of := sample_motors\<rparr>"
  have f: "is_final user_thread ?c" by (simp add: fresh_cortex_def is_final_def)
  then obtain c' where c': "vexCortexMonitorTask_step 0x80 0x80 ?c = Some c'" by (simp add: vexCortexMonitorTask_step_def)
  have m: "requested commanded (sMotors commanded ! nat 5) = 100" "motor_slew (sMotors commanded ! nat 5) = 10"
    using commanded_values(2,3,4) [THEN list10] by (simp_all add: requested_def cmd_consts)
  show ?thesis
    using stopped_motors_run_again [OF _ f c' commanded_ok, of 5 26] sample_motors_ok c' m by simp
qed

end
