(* ===== verification/VexIme.thy ===== *)
theory VexIme
  imports VexEncoder
begin

text \<open>
  The integrated motor encoders of ConVEX, \<open>src/convex/cortex/fw/vexime.c\<close>: up to eight encoders chained on one I2C bus,
  which a thread finds, gives addresses and polls. Below it the I2C driver of the HAL, \<open>os/hal/src/i2c.c\<close>, with its state
  and error mask; the registers and interrupts below that driver and the wire are a parameter, \<open>i2c_lld\<close>, on a state of
  its own. The bus mutex is left out, as this thread alone uses the bus, and so are the checks of the HAL, which the
  build turns off. An enumeration without negative members is taken as an unsigned integer.
\<close>

section \<open>The I2C driver\<close>

datatype i2cstate_t = I2C_UNINIT | I2C_STOP | I2C_READY | I2C_ACTIVE_TX | I2C_ACTIVE_RX | I2C_LOCKED

definition RDY_OK :: int where "RDY_OK = 0"
definition RDY_TIMEOUT :: int where "RDY_TIMEOUT = - 1"
definition RDY_RESET :: int where "RDY_RESET = - 2"

definition I2CD_NO_ERROR :: u32 where "I2CD_NO_ERROR = 0x00"
definition I2CD_BUS_ERROR :: u32 where "I2CD_BUS_ERROR = 0x01"
definition I2CD_ARBITRATION_LOST :: u32 where "I2CD_ARBITRATION_LOST = 0x02"
definition I2CD_ACK_FAILURE :: u32 where "I2CD_ACK_FAILURE = 0x04"
definition I2CD_TIMEOUT :: u32 where "I2CD_TIMEOUT = 0x20"

text \<open>
  The low level driver: a transfer gives the message the thread is woken with, the octets stored in the receive buffer,
  the error flags that were set and the state of the wire; time passes on the wire while the thread sleeps.
\<close>

record 'w i2c_lld =
  i2c_lld_start :: "'w \<Rightarrow> 'w"
  i2c_lld_stop :: "'w \<Rightarrow> 'w"
  i2c_lld_transmit :: "u8 \<Rightarrow> octets \<Rightarrow> nat \<Rightarrow> 'w \<Rightarrow> int \<times> octets \<times> u32 \<times> 'w"
  i2c_lld_time :: "nat \<Rightarrow> 'w \<Rightarrow> 'w"

record 'w I2CDriver =
  i2c_state :: i2cstate_t
  i2c_errors :: u32
  wire :: 'w

definition i2cStart :: "'w i2c_lld \<Rightarrow> 'w I2CDriver \<Rightarrow> 'w I2CDriver" where
  "i2cStart lld d = d\<lparr>wire := i2c_lld_start lld (wire d), i2c_state := I2C_READY\<rparr>"

definition i2cStop :: "'w i2c_lld \<Rightarrow> 'w I2CDriver \<Rightarrow> 'w I2CDriver" where
  "i2cStop lld d = d\<lparr>wire := i2c_lld_stop lld (wire d), i2c_state := I2C_STOP\<rparr>"

definition i2cGetErrors :: "'w I2CDriver \<Rightarrow> u32" where
  "i2cGetErrors d = i2c_errors d"

definition i2cMasterTransmitTimeout ::
  "'w i2c_lld \<Rightarrow> u8 \<Rightarrow> octets \<Rightarrow> nat \<Rightarrow> 'w I2CDriver \<Rightarrow> int \<times> octets \<times> 'w I2CDriver" where
  "i2cMasterTransmitTimeout lld addr txbuf rxbytes d =
     (case i2c_lld_transmit lld addr txbuf rxbytes (wire d) of
        (rdymsg, rx, flags, w) \<Rightarrow>
          (rdymsg, rx, d\<lparr>i2c_errors := flags, wire := w,
             i2c_state := (if rdymsg = RDY_TIMEOUT then I2C_LOCKED else I2C_READY)\<rparr>))"

section \<open>Data of the encoders\<close>

definition kImeTotal :: nat where "kImeTotal = 8"
definition IME_MAX :: nat where "IME_MAX = kImeTotal"
definition kImeChannel_8 :: u32 where "kImeChannel_8 = 7"

definition DEFAULT_DEVICE :: u8 where "DEFAULT_DEVICE = 0x60"
definition IME_START_ADDRESS :: u16 where "IME_START_ADDRESS = 0x20"
definition IME_VERSION_ADDR :: u8 where "IME_VERSION_ADDR = 0x00"
definition IME_VENDOR_ADDR :: u8 where "IME_VENDOR_ADDR = 0x08"
definition IME_DEVICEID_ADDR :: u8 where "IME_DEVICEID_ADDR = 0x10"
definition IME_STATUS_ADDR :: u8 where "IME_STATUS_ADDR = 0x20"
definition IME_DATA_ADDR :: u8 where "IME_DATA_ADDR = 0x40"
definition IME_SCRATCHR_ADDR :: u8 where "IME_SCRATCHR_ADDR = 0x60"
definition IME_SCRATCHW_ADDR :: u8 where "IME_SCRATCHW_ADDR = 0xA0"
definition IME_CLEAR_COUNTERS :: u8 where "IME_CLEAR_COUNTERS = 0x4A"
definition IME_DISABLE_TERM :: u8 where "IME_DISABLE_TERM = 0x4B"
definition IME_ENABLE_TERM :: u8 where "IME_ENABLE_TERM = 0x4C"
definition IME_SETDEV_REG :: u8 where "IME_SETDEV_REG = 0x4D"
definition IME_RESET_REG :: u8 where "IME_RESET_REG = 0x4E"
definition IME_BUF_LEN :: nat where "IME_BUF_LEN = 16"
definition ACTION_POLL :: u16 where "ACTION_POLL = 0"
definition ACTION_RENEGOTIATE :: u16 where "ACTION_RENEGOTIATE = 1"
definition IME_COUNT_RESET :: int where "IME_COUNT_RESET = 0x7F000000"
definition IME_269 :: u8 where "IME_269 = 0"
definition IME_393T :: u8 where "IME_393T = 1"
definition IME_393S :: u8 where "IME_393S = 2"
definition IME_393R :: u8 where "IME_393R = 3"
definition IME_UND :: u8 where "IME_UND = 16"

lemmas ime_consts = kImeTotal_def IME_MAX_def DEFAULT_DEVICE_def IME_START_ADDRESS_def IME_VERSION_ADDR_def IME_VENDOR_ADDR_def
  IME_DEVICEID_ADDR_def IME_DATA_ADDR_def IME_CLEAR_COUNTERS_def IME_DISABLE_TERM_def IME_ENABLE_TERM_def IME_SETDEV_REG_def
  IME_RESET_REG_def ACTION_POLL_def ACTION_RENEGOTIATE_def RDY_OK_def RDY_TIMEOUT_def RDY_RESET_def I2CD_NO_ERROR_def
  I2CD_ACK_FAILURE_def I2CD_BUS_ERROR_def I2CD_ARBITRATION_LOST_def I2CD_TIMEOUT_def

record imeData =
  address :: u8
  ime_type :: u8
  valid :: u16
  motor_index :: u16
  version :: octets
  vendor :: octets
  deviceid :: octets
  enc_data :: octets
  ime_count :: int
  ime_offset :: int
  velocity :: int
  delta_count :: int
  rpm :: int
  old_count :: int
  rpm_constant :: int
  data_polls :: u32
  data_errors :: u32

record 'w vexImeData =
  i2cp :: "'w I2CDriver"
  ime_num :: int
  nextAddress :: u16
  error_lockup :: u16
  error_ack :: u16
  error_bus :: u16
  error_arb :: u16
  error_tim :: u16
  error_seq :: u16
  action :: u16
  ime_debug :: u16
  imes :: "imeData list"
  last_errors :: u32

definition ime_update :: "nat \<Rightarrow> (imeData \<Rightarrow> imeData) \<Rightarrow> 'w vexImeData \<Rightarrow> 'w vexImeData" where
  "ime_update i f s = s\<lparr>imes := (imes s)[i := f (imes s ! i)]\<rparr>"

definition chThdSleepMilliseconds :: "'w i2c_lld \<Rightarrow> nat \<Rightarrow> 'w vexImeData \<Rightarrow> 'w vexImeData" where
  "chThdSleepMilliseconds lld ms s = s\<lparr>i2cp := (i2cp s)\<lparr>wire := i2c_lld_time lld ms (wire (i2cp s))\<rparr>\<rparr>"

section \<open>Channels\<close>

definition no_channel :: "int \<Rightarrow> bool" where
  "no_channel channel \<longleftrightarrow> word_of_int channel > kImeChannel_8"

lemma channel_ok [simp]: "0 \<le> channel \<Longrightarrow> channel < 8 \<Longrightarrow> \<not> no_channel channel"
  by (simp add: no_channel_def kImeChannel_8_def word_less_alt uint_word_of_int)

definition vexImeGetCount :: "int \<Rightarrow> 'w vexImeData \<Rightarrow> int" where
  "vexImeGetCount channel s =
     (if no_channel channel then 0
      else let e = imes s ! nat channel in if valid e \<noteq> 0 then i32 (ime_count e - ime_offset e) else 0)"

definition vexImeSetCount :: "int \<Rightarrow> int \<Rightarrow> 'w vexImeData \<Rightarrow> 'w vexImeData" where
  "vexImeSetCount channel v s =
     (if no_channel channel then s
      else if valid (imes s ! nat channel) \<noteq> 0
      then ime_update (nat channel) (\<lambda>e. e\<lparr>ime_offset := i32 (ime_count e - v)\<rparr>) s else s)"

definition vexImeGetId :: "int \<Rightarrow> 'w vexImeData \<Rightarrow> int" where
  "vexImeGetId channel s = (if no_channel channel then - 1 else uint (address (imes s ! nat channel)))"

definition vexImeGetPtr :: "int \<Rightarrow> 'w vexImeData \<Rightarrow> nat option" where
  "vexImeGetPtr channel s = (if no_channel channel then None else Some (nat channel))"

definition vexImeGetChannelMax :: "'w vexImeData \<Rightarrow> int" where
  "vexImeGetChannelMax s = ime_num s"

definition vexImeSetType :: "int \<Rightarrow> tVexMotorType \<Rightarrow> 'w vexImeData \<Rightarrow> 'w vexImeData" where
  "vexImeSetType channel ty s =
     (if (word_of_int channel :: u32) \<ge> of_nat kImeTotal then s
      else ime_update (nat channel) (\<lambda>e. e\<lparr>ime_type :=
        (case ty of kVexMotor269 \<Rightarrow> IME_269 | kVexMotor393T \<Rightarrow> IME_393T | kVexMotor393S \<Rightarrow> IME_393S
         | kVexMotor393R \<Rightarrow> IME_393R | _ \<Rightarrow> IME_UND)\<rparr>) s)"

definition vexImeSetMotor :: "int \<Rightarrow> int \<Rightarrow> 'w vexImeData \<Rightarrow> 'w vexImeData" where
  "vexImeSetMotor channel motor s =
     (if (word_of_int channel :: u32) \<ge> of_nat kImeTotal then s
      else if motor > kVexMotor_10 then s
      else ime_update (nat channel) (\<lambda>e. e\<lparr>motor_index := word_of_int motor\<rparr>) s)"

fun motor_count :: "int \<Rightarrow> nat list \<Rightarrow> 'w vexImeData \<Rightarrow> int" where
  "motor_count motor [] s = 0"
| "motor_count motor (c # cs) s =
     (if uint (motor_index (imes s ! c)) = motor then vexImeGetCount (int c) s else motor_count motor cs s)"

definition vexImeMotorGetCount :: "int \<Rightarrow> 'w vexImeData \<Rightarrow> int" where
  "vexImeMotorGetCount motor s = (if motor > kVexMotor_10 then 0 else motor_count motor [0..<kImeTotal] s)"

section \<open>Commands on the bus\<close>

definition bump :: "bool \<Rightarrow> u16 \<Rightarrow> u16" where
  "bump b n = (if b then n + 1 else n)"

definition vexIMEHandleErrors :: "'w i2c_lld \<Rightarrow> int \<Rightarrow> u32 \<Rightarrow> 'w vexImeData \<Rightarrow> 'w vexImeData" where
  "vexIMEHandleErrors lld status errors s =
     (let s = (if status = RDY_TIMEOUT then
                 (let s = s\<lparr>error_lockup := error_lockup s + 1, i2cp := i2cStop lld (i2cp s)\<rparr>;
                      s = chThdSleepMilliseconds lld 100 s
                  in s\<lparr>i2cp := i2cStart lld (i2cp s), action := ACTION_RENEGOTIATE\<rparr>)
               else s);
          s = (if errors \<noteq> I2CD_NO_ERROR then
                 (let s = s\<lparr>error_seq := error_seq s + 1\<rparr>
                  in if error_seq s = 5 then s\<lparr>action := ACTION_RENEGOTIATE\<rparr> else s)
               else s)
      in s\<lparr>error_ack := bump (errors AND I2CD_ACK_FAILURE \<noteq> 0) (error_ack s),
           error_arb := bump (errors AND I2CD_ARBITRATION_LOST \<noteq> 0) (error_arb s),
           error_bus := bump (errors AND I2CD_BUS_ERROR \<noteq> 0) (error_bus s),
           error_tim := bump (errors AND I2CD_TIMEOUT \<noteq> 0) (error_tim s)\<rparr>)"

text \<open>A transfer to a device, the address shifted to its seven bits, and the common body of the commands.\<close>

definition ime_transmit :: "'w i2c_lld \<Rightarrow> u8 \<Rightarrow> octets \<Rightarrow> nat \<Rightarrow> 'w vexImeData \<Rightarrow> int \<times> octets \<times> 'w vexImeData" where
  "ime_transmit lld device tx n s =
     (case i2cMasterTransmitTimeout lld (drop_bit 1 device) tx n (i2cp s) of
        (status, rx, d) \<Rightarrow> (status, rx, s\<lparr>i2cp := d\<rparr>))"

definition ime_command :: "'w i2c_lld \<Rightarrow> u8 \<Rightarrow> octets \<Rightarrow> nat \<Rightarrow> 'w vexImeData \<Rightarrow> int \<times> octets \<times> 'w vexImeData" where
  "ime_command lld device tx n s =
     (case ime_transmit lld device tx n s of
        (status, rx, s) \<Rightarrow>
          (status, rx,
           if status \<noteq> RDY_OK then
             (let e = i2cGetErrors (i2cp s) in vexIMEHandleErrors lld status e (s\<lparr>last_errors := e\<rparr>))
           else s))"

text \<open>The octets received replace the first ones of the buffer.\<close>

definition ime_read :: "'w i2c_lld \<Rightarrow> u8 \<Rightarrow> u8 \<Rightarrow> nat \<Rightarrow> octets \<Rightarrow> 'w vexImeData \<Rightarrow> int \<times> octets \<times> 'w vexImeData" where
  "ime_read lld device reg n buf s =
     (case ime_command lld device [reg] n s of (status, rx, s) \<Rightarrow> (status, rx @ drop (length rx) buf, s))"

definition vexIMEGetVersion :: "'w i2c_lld \<Rightarrow> u8 \<Rightarrow> octets \<Rightarrow> 'w vexImeData \<Rightarrow> int \<times> octets \<times> 'w vexImeData" where
  "vexIMEGetVersion lld device buf s = ime_read lld device IME_VERSION_ADDR 8 buf s"

definition vexIMEGetVendor :: "'w i2c_lld \<Rightarrow> u8 \<Rightarrow> octets \<Rightarrow> 'w vexImeData \<Rightarrow> int \<times> octets \<times> 'w vexImeData" where
  "vexIMEGetVendor lld device buf s = ime_read lld device IME_VENDOR_ADDR 8 buf s"

definition vexIMEGetDeviceId :: "'w i2c_lld \<Rightarrow> u8 \<Rightarrow> octets \<Rightarrow> 'w vexImeData \<Rightarrow> int \<times> octets \<times> 'w vexImeData" where
  "vexIMEGetDeviceId lld device buf s = ime_read lld device IME_DEVICEID_ADDR 8 buf s"

definition vexIMEGetStatus :: "'w i2c_lld \<Rightarrow> u8 \<Rightarrow> octets \<Rightarrow> 'w vexImeData \<Rightarrow> int \<times> octets \<times> 'w vexImeData" where
  "vexIMEGetStatus lld device buf s = ime_read lld device IME_STATUS_ADDR 4 buf s"

definition vexIMEGetData :: "'w i2c_lld \<Rightarrow> u8 \<Rightarrow> octets \<Rightarrow> 'w vexImeData \<Rightarrow> int \<times> octets \<times> 'w vexImeData" where
  "vexIMEGetData lld device buf s = ime_read lld device IME_DATA_ADDR 8 buf s"

definition vexIMEGetScratchpad ::
  "'w i2c_lld \<Rightarrow> u8 \<Rightarrow> octets \<Rightarrow> u8 \<Rightarrow> u8 \<Rightarrow> 'w vexImeData \<Rightarrow> int \<times> octets \<times> 'w vexImeData" where
  "vexIMEGetScratchpad lld device buf off len s = ime_read lld device (IME_SCRATCHR_ADDR + off) (unat len) buf s"

text \<open>The buffer on the heap has 64 octets; the length is not checked. A full heap gives no transfer and no error.\<close>

definition vexIMESetScratchpad ::
  "'w i2c_lld \<Rightarrow> bool \<Rightarrow> u8 \<Rightarrow> octets \<Rightarrow> u8 \<Rightarrow> u8 \<Rightarrow> 'w vexImeData \<Rightarrow> (int \<times> 'w vexImeData) option" where
  "vexIMESetScratchpad lld heap device buf off len s =
     (if heap then
        (if unat len \<le> length buf \<and> unat len < 64 then
           (case ime_command lld device ((IME_SCRATCHW_ADDR + off) # take (unat len) buf) 0 s of (status, rx, s) \<Rightarrow> Some (status, s))
         else None)
      else Some (RDY_OK, s))"

definition vexIMEClearCounters :: "'w i2c_lld \<Rightarrow> u8 \<Rightarrow> 'w vexImeData \<Rightarrow> int \<times> 'w vexImeData" where
  "vexIMEClearCounters lld device s = (case ime_command lld device [IME_CLEAR_COUNTERS] 0 s of (status, rx, s) \<Rightarrow> (status, s))"

definition vexIMEDisableTermination :: "'w i2c_lld \<Rightarrow> u8 \<Rightarrow> 'w vexImeData \<Rightarrow> int \<times> 'w vexImeData" where
  "vexIMEDisableTermination lld device s = (case ime_command lld device [IME_DISABLE_TERM] 0 s of (status, rx, s) \<Rightarrow> (status, s))"

definition vexIMEEnableTermination :: "'w i2c_lld \<Rightarrow> u8 \<Rightarrow> 'w vexImeData \<Rightarrow> int \<times> 'w vexImeData" where
  "vexIMEEnableTermination lld device s = (case ime_command lld device [IME_ENABLE_TERM] 0 s of (status, rx, s) \<Rightarrow> (status, s))"

text \<open>The new address is stored even when the device did not answer.\<close>

definition vexIMESetAddr :: "'w i2c_lld \<Rightarrow> u8 \<Rightarrow> u8 \<Rightarrow> 'w vexImeData \<Rightarrow> int \<times> u8 \<times> 'w vexImeData" where
  "vexIMESetAddr lld device newDevice s =
     (case ime_command lld device [IME_SETDEV_REG, newDevice] 0 s of (status, rx, s) \<Rightarrow> (status, newDevice, s))"

definition vexIMEResetAll :: "'w i2c_lld \<Rightarrow> 'w vexImeData \<Rightarrow> int \<times> 'w vexImeData" where
  "vexIMEResetAll lld s =
     (case ime_transmit lld 0 [IME_RESET_REG, 0xCA, 0x03] 0 s of (status, rx, s) \<Rightarrow> (status, chThdSleepMilliseconds lld 100 s))"

section \<open>Finding the encoders\<close>

definition vexIMEDataInit :: "imeData \<Rightarrow> imeData" where
  "vexIMEDataInit e = e\<lparr>address := DEFAULT_DEVICE, valid := 0,
     version := replicate IME_BUF_LEN 0, vendor := replicate IME_BUF_LEN 0, deviceid := replicate IME_BUF_LEN 0,
     enc_data := replicate IME_BUF_LEN 0,
     ime_count := 0, ime_offset := 0, old_count := IME_COUNT_RESET, velocity := 0\<rparr>"

definition rpm_of_type :: "u8 \<Rightarrow> int" where
  "rpm_of_type ty = (if ty = IME_269 then cdiv 30056 4 else if ty = IME_393T then cdiv 78400 4
     else if ty = IME_393S then cdiv 49000 4 else if ty = IME_393R then cdiv 32668 4 else cdiv 39200 4)"

text \<open>What is done with an encoder that has answered, up to the end of the loop's body.\<close>

definition name_encoder :: "'w i2c_lld \<Rightarrow> nat \<Rightarrow> 'w vexImeData \<Rightarrow> 'w vexImeData" where
  "name_encoder lld i s =
     (let s = s\<lparr>ime_num := i16 (ime_num s + 1)\<rparr>;
          (st, a, s) = vexIMESetAddr lld (address (imes s ! i)) (ucast (nextAddress s)) s;
          s = ime_update i (\<lambda>e. e\<lparr>address := a\<rparr>) s;
          s = s\<lparr>nextAddress := nextAddress s + 2\<rparr>
      in chThdSleepMilliseconds lld 1 s)"

definition read_information :: "'w i2c_lld \<Rightarrow> nat \<Rightarrow> 'w vexImeData \<Rightarrow> 'w vexImeData" where
  "read_information lld i s =
     (let (st, b, s) = vexIMEGetVersion lld (address (imes s ! i)) (version (imes s ! i)) s;
          s = ime_update i (\<lambda>e. e\<lparr>version := b\<rparr>) s;
          (st, b, s) = vexIMEGetVendor lld (address (imes s ! i)) (vendor (imes s ! i)) s;
          s = ime_update i (\<lambda>e. e\<lparr>vendor := b\<rparr>) s;
          (st, b, s) = vexIMEGetDeviceId lld (address (imes s ! i)) (deviceid (imes s ! i)) s
      in ime_update i (\<lambda>e. e\<lparr>deviceid := b\<rparr>) s)"

definition make_valid :: "'w i2c_lld \<Rightarrow> nat \<Rightarrow> 'w vexImeData \<Rightarrow> 'w vexImeData" where
  "make_valid lld i s =
     (let (st, s) = vexIMEClearCounters lld (address (imes s ! i)) s;
          s = ime_update i (\<lambda>e. e\<lparr>rpm_constant := rpm_of_type (ime_type e), valid := 1\<rparr>) s;
          (st, s) = vexIMEDisableTermination lld (address (imes s ! i)) s
      in chThdSleepMilliseconds lld 1 s)"

definition new_encoder :: "'w i2c_lld \<Rightarrow> nat \<Rightarrow> 'w vexImeData \<Rightarrow> 'w vexImeData" where
  "new_encoder lld i s = make_valid lld i (read_information lld i (name_encoder lld i s))"

text \<open>The loop over the slots, with the number of slots left.\<close>

fun find_loop :: "'w i2c_lld \<Rightarrow> nat \<Rightarrow> nat \<Rightarrow> 'w vexImeData \<Rightarrow> 'w vexImeData" where
  "find_loop lld 0 i s = s"
| "find_loop lld (Suc k) i s =
     (let s = ime_update i vexIMEDataInit s;
          (st, s) = vexIMEEnableTermination lld (address (imes s ! i)) s
      in if st = RDY_OK then find_loop lld k (Suc i) (new_encoder lld i s)
         else ime_update i (\<lambda>e. e\<lparr>address := 0\<rparr>) s)"

definition disable_all :: "'w i2c_lld \<Rightarrow> 'w vexImeData \<Rightarrow> 'w vexImeData" where
  "disable_all lld s = ((\<lambda>s. chThdSleepMilliseconds lld 3 (snd (vexIMEDisableTermination lld 0 s))) ^^ (IME_MAX + 2)) s"

definition vexIMEFindEncoders :: "'w i2c_lld \<Rightarrow> 'w vexImeData \<Rightarrow> int \<times> 'w vexImeData" where
  "vexIMEFindEncoders lld s =
     (let s = disable_all lld s;
          (st, s) = vexIMEResetAll lld s;
          s = s\<lparr>ime_num := 0, error_seq := 0, nextAddress := IME_START_ADDRESS, action := ACTION_POLL\<rparr>;
          s = find_loop lld IME_MAX 0 s;
          s = (if ime_num s > 0 then snd (vexIMEEnableTermination lld (address (imes s ! nat (ime_num s - 1))) s) else s)
      in (ime_num s, s))"

section \<open>Polling\<close>

text \<open>\<open>long\<close> has 32 bits; the two halves of the counter are sent low word first, each high octet first.\<close>

definition enc_count :: "octets \<Rightarrow> int" where
  "enc_count b = sint (push_bit 8 (ucast (b ! 0)) OR ucast (b ! 1) OR push_bit 24 (ucast (b ! 2)) OR push_bit 16 (ucast (b ! 3)) :: u32)"

definition enc_velocity :: "octets \<Rightarrow> int" where
  "enc_velocity b = uint (b ! 4) * 256 + uint (b ! 5)"

text \<open>A division by zero is undefined.\<close>

definition ime_rpm :: "imeData \<Rightarrow> int option" where
  "ime_rpm e =
     (if velocity e \<noteq> 0 then
        (let d = i32 (velocity e * rpm_constant e) in if d = 0 then None else Some (cdiv (15625 * cdiv 60000 4) d))
      else Some 0)"

definition ime_decode :: "imeData \<Rightarrow> imeData option" where
  "ime_decode e =
     (let e = e\<lparr>ime_count := enc_count (enc_data e), velocity := enc_velocity (enc_data e)\<rparr>
      in do {
        e \<leftarrow> (if old_count e \<noteq> IME_COUNT_RESET then do {
                r \<leftarrow> ime_rpm e;
                Some (e\<lparr>delta_count := i32 (ime_count e - old_count e), rpm := r\<rparr>) }
              else Some e);
        Some (e\<lparr>old_count := ime_count e\<rparr>) })"

text \<open>The encoder is named by its index; NULL is \<open>None\<close>.\<close>

definition vexIMEUpdateCounts :: "'w i2c_lld \<Rightarrow> nat option \<Rightarrow> 'w vexImeData \<Rightarrow> (int \<times> 'w vexImeData) option" where
  "vexIMEUpdateCounts lld ime s =
     (case ime of
        None \<Rightarrow> Some (0, s)
      | Some i \<Rightarrow>
          (let s = ime_update i (\<lambda>e. e\<lparr>data_polls := data_polls e + 1\<rparr>) s;
               (status, b, s) = vexIMEGetData lld (address (imes s ! i)) (enc_data (imes s ! i)) s;
               s = ime_update i (\<lambda>e. e\<lparr>enc_data := b\<rparr>) s
           in if status = RDY_OK then do {
                e \<leftarrow> ime_decode (imes s ! i);
                Some (status, ime_update i (\<lambda>_. e) s) }
              else Some (status, ime_update i (\<lambda>e. e\<lparr>data_errors := data_errors e + 1\<rparr>) s)))"

fun poll_loop :: "'w i2c_lld \<Rightarrow> nat list \<Rightarrow> 'w vexImeData \<Rightarrow> 'w vexImeData option" where
  "poll_loop lld [] s = Some s"
| "poll_loop lld (i # is) s = do {
     (status, s) \<leftarrow> vexIMEUpdateCounts lld (Some i) s;
     let s = (if status = RDY_OK then s\<lparr>error_seq := 0\<rparr> else s);
     poll_loop lld is (chThdSleepMilliseconds lld 1 s) }"

text \<open>One turn of the thread's loop; the debug output is left out.\<close>

definition vexImeTask_round :: "'w i2c_lld \<Rightarrow> 'w vexImeData \<Rightarrow> 'w vexImeData option" where
  "vexImeTask_round lld s =
     (let s = (if action s = ACTION_RENEGOTIATE then snd (vexIMEFindEncoders lld s) else s)
      in if ime_num s > 0 then poll_loop lld [0..<nat (ime_num s)] s
         else Some (chThdSleepMilliseconds lld 10 (s\<lparr>action := ACTION_RENEGOTIATE\<rparr>)))"

definition vexImeTask_start :: "'w vexImeData \<Rightarrow> 'w vexImeData" where
  "vexImeTask_start s = s\<lparr>action := ACTION_RENEGOTIATE\<rparr>"

definition vexImeInit :: "'w i2c_lld \<Rightarrow> 'w vexImeData \<Rightarrow> 'w vexImeData" where
  "vexImeInit lld s =
     vexImeTask_start (s\<lparr>i2cp := i2cStart lld (i2cp s), error_ack := 0, error_arb := 0, error_bus := 0, ime_debug := 0,
       imes := map (\<lambda>e. e\<lparr>address := 0, data_polls := 0, data_errors := 0, motor_index := - 1\<rparr>) (imes s)\<rparr>)"

section \<open>A channel as a position sensor\<close>

text \<open>The pair of functions meets the interface of the motor driver on every channel that is valid.\<close>

definition ime_env :: "'w vexImeData position_env" where
  "ime_env = \<lparr>position_get = (\<lambda>cb p s. if cb = 1 then vexImeGetCount p s else 0),
              position_set = (\<lambda>cb p v s. if cb = 2 then vexImeSetCount p v s else s),
              encoder_id = (\<lambda>cb p s. vexImeGetId p s)\<rparr>"

lemma ime_set_get:
  assumes "length (imes s) = 8" "0 \<le> c" "c < 8" "valid (imes s ! nat c) \<noteq> 0" "- 2147483648 \<le> v" "v \<le> 2147483647"
  shows "vexImeGetCount c (vexImeSetCount c v s) = v"
  using assms by (simp add: vexImeGetCount_def vexImeSetCount_def Let_def ime_update_def i32_cong i32_id nat_less_iff)

interpretation ime3: position_sensor "\<lambda>s. length (imes s) = 8 \<and> valid (imes s ! 3) \<noteq> 0" ime_env 1 2 3
  by unfold_locales
    (auto simp: ime_env_def ime_set_get, auto simp: vexImeSetCount_def ime_update_def nth_list_update)

end
