(* ===== verification/VexIme_Properties.thy ===== *)
theory VexIme_Properties
  imports VexIme
begin

text \<open>
  The encoders find their addresses and are polled. The encoders on the bus are hardware: what the driver relies on is
  stated as \<open>chain_bus\<close> over the devices on the wire, in the order of the chain, and over the counter each of them holds.
  A device whose termination is on cuts the bus behind it; a command reaches every device of its address up to there, the
  general call every device.
\<close>

section \<open>The chain\<close>

record ime_device =
  dev_addr :: u8
  dev_term :: bool
  dev_rest :: bool
  dev_regs :: "u8 \<Rightarrow> octets"

definition heard :: "ime_device list \<Rightarrow> u8 \<Rightarrow> nat \<Rightarrow> bool" where
  "heard ds a j \<longleftrightarrow> j < length ds \<and> (\<forall>i<j. \<not> dev_term (ds ! i)) \<and> (a = 0 \<or> dev_addr (ds ! j) = a)"

text \<open>After a reset a device has the default address, and its termination is as at power on.\<close>

definition obey :: "octets \<Rightarrow> ime_device \<Rightarrow> ime_device" where
  "obey tx d =
     (if tx = [0x4B] then d\<lparr>dev_term := False\<rparr> else if tx = [0x4C] then d\<lparr>dev_term := True\<rparr>
      else if tx ! 0 = 0x4D then d\<lparr>dev_addr := drop_bit 1 (tx ! 1)\<rparr>
      else if tx ! 0 = 0x4E then d\<lparr>dev_addr := 0x30, dev_term := dev_rest d\<rparr> else d)"

definition told :: "ime_device list \<Rightarrow> u8 \<Rightarrow> octets \<Rightarrow> ime_device list" where
  "told ds a tx = map (\<lambda>j. if heard ds a j then obey tx (ds ! j) else ds ! j) [0..<length ds]"

definition ime_commands :: "octets set" where
  "ime_commands = {[0x4A], [0x4B], [0x4C], [0x4E, 0xCA, 0x03]} \<union> {[0x4D, x] |x. True}"

definition chain_bus :: "'w i2c_lld \<Rightarrow> ('w \<Rightarrow> ime_device list) \<Rightarrow> ('w \<Rightarrow> nat \<Rightarrow> octets) \<Rightarrow> bool" where
  "chain_bus lld devs counter \<longleftrightarrow>
     (\<forall>w ms. devs (i2c_lld_time lld ms w) = devs w) \<and>
     (\<forall>w a tx. tx \<in> ime_commands \<longrightarrow> (\<exists>j. heard (devs w) a j) \<longrightarrow>
        (\<exists>w'. i2c_lld_transmit lld a tx 0 w = (RDY_OK, [], 0, w') \<and> devs w' = told (devs w) a tx)) \<and>
     (\<forall>w a reg j. (\<forall>i. heard (devs w) a i \<longleftrightarrow> i = j) \<longrightarrow>
        (\<exists>w' rx. i2c_lld_transmit lld a [reg] 8 w = (RDY_OK, rx, 0, w') \<and> devs w' = devs w \<and> length rx = 8 \<and>
           (reg = 0x40 \<longrightarrow> rx = counter w j) \<and> (reg \<in> {0, 8, 0x10} \<longrightarrow> rx = dev_regs (devs w ! j) reg))) \<and>
     (\<forall>w a tx n. (\<forall>j. \<not> heard (devs w) a j) \<longrightarrow>
        (\<exists>w'. i2c_lld_transmit lld a tx n w = (RDY_RESET, [], I2CD_ACK_FAILURE, w') \<and> devs w' = devs w))"

lemma chain_laws:
  assumes "chain_bus lld devs counter"
  shows chain_time: "devs (i2c_lld_time lld ms w) = devs w"
    and chain_command: "tx \<in> ime_commands \<Longrightarrow> heard (devs w) a k \<Longrightarrow>
        \<exists>w'. i2c_lld_transmit lld a tx 0 w = (RDY_OK, [], 0, w') \<and> devs w' = told (devs w) a tx"
    and chain_read: "\<forall>i. heard (devs w) a i \<longleftrightarrow> i = j \<Longrightarrow>
        \<exists>w' rx. i2c_lld_transmit lld a [reg] 8 w = (RDY_OK, rx, 0, w') \<and> devs w' = devs w \<and> length rx = 8 \<and>
           (reg = 0x40 \<longrightarrow> rx = counter w j) \<and> (reg \<in> {0, 8, 0x10} \<longrightarrow> rx = dev_regs (devs w ! j) reg)"
    and chain_silent: "\<forall>j. \<not> heard (devs w) a j \<Longrightarrow>
        \<exists>w'. i2c_lld_transmit lld a tx n w = (RDY_RESET, [], I2CD_ACK_FAILURE, w') \<and> devs w' = devs w"
proof -
  note l = assms [unfolded chain_bus_def]
  show "devs (i2c_lld_time lld ms w) = devs w" by (rule l [THEN conjunct1, rule_format])
  show "\<exists>w'. i2c_lld_transmit lld a tx 0 w = (RDY_OK, [], 0, w') \<and> devs w' = told (devs w) a tx"
    if "tx \<in> ime_commands" "heard (devs w) a k"
    by (rule l [THEN conjunct2, THEN conjunct1, rule_format, OF that(1) exI, OF that(2)])
  show "\<exists>w' rx. i2c_lld_transmit lld a [reg] 8 w = (RDY_OK, rx, 0, w') \<and> devs w' = devs w \<and> length rx = 8 \<and>
           (reg = 0x40 \<longrightarrow> rx = counter w j) \<and> (reg \<in> {0, 8, 0x10} \<longrightarrow> rx = dev_regs (devs w ! j) reg)"
    if "\<forall>i. heard (devs w) a i \<longleftrightarrow> i = j"
    using that by (rule l [THEN conjunct2, THEN conjunct2, THEN conjunct1, THEN spec, THEN spec, THEN spec, THEN spec, THEN mp])
  show "\<exists>w'. i2c_lld_transmit lld a tx n w = (RDY_RESET, [], I2CD_ACK_FAILURE, w') \<and> devs w' = devs w"
    if "\<forall>j. \<not> heard (devs w) a j"
    using that by (rule l [THEN conjunct2, THEN conjunct2, THEN conjunct2, THEN spec, THEN spec, THEN spec, THEN spec, THEN mp])
qed

lemma length_told [simp]: "length (told ds a tx) = length ds"
  by (simp add: told_def)

lemma nth_told [simp]: "j < length ds \<Longrightarrow> told ds a tx ! j = (if heard ds a j then obey tx (ds ! j) else ds ! j)"
  by (simp add: told_def)

lemma regs_obey [simp]: "dev_regs (obey tx d) = dev_regs d"
  by (simp add: obey_def)

lemma regs_told [simp]: "map dev_regs (told ds a tx) = map dev_regs ds"
  by (rule nth_equalityI) auto

section \<open>Commands\<close>

abbreviation on_wire :: "('w \<Rightarrow> ime_device list) \<Rightarrow> 'w vexImeData \<Rightarrow> ime_device list" where
  "on_wire devs s \<equiv> devs (wire (i2cp s))"

text \<open>What a command that meets no answer changes.\<close>

definition nack :: "'w vexImeData \<Rightarrow> 'w vexImeData" where
  "nack s = s\<lparr>error_seq := error_seq s + 1, error_ack := error_ack s + 1,
     action := (if error_seq s + 1 = 5 then ACTION_RENEGOTIATE else action s), last_errors := I2CD_ACK_FAILURE\<rparr>"

lemma command_heard:
  assumes "chain_bus lld devs counter" "tx \<in> ime_commands" "heard (on_wire devs s) (drop_bit 1 a) j"
  shows "\<exists>d. ime_command lld a tx 0 s = (RDY_OK, [], s\<lparr>i2cp := d\<rparr>) \<and> devs (wire d) = told (on_wire devs s) (drop_bit 1 a) tx"
proof -
  obtain w' where "i2c_lld_transmit lld (drop_bit 1 a) tx 0 (wire (i2cp s)) = (RDY_OK, [], 0, w')"
    "devs w' = told (on_wire devs s) (drop_bit 1 a) tx"
    using chain_command [OF assms] by blast
  then show ?thesis
    by (intro exI [of _ "(i2cp s)\<lparr>i2c_errors := 0, wire := w', i2c_state := I2C_READY\<rparr>"])
      (simp add: ime_command_def ime_transmit_def i2cMasterTransmitTimeout_def RDY_OK_def RDY_TIMEOUT_def)
qed

lemma command_unheard:
  assumes "chain_bus lld devs counter" "\<forall>j. \<not> heard (on_wire devs s) (drop_bit 1 a) j"
  shows "\<exists>d. ime_command lld a tx n s = (RDY_RESET, [], nack (s\<lparr>i2cp := d\<rparr>)) \<and> devs (wire d) = on_wire devs s"
proof -
  obtain w' where "i2c_lld_transmit lld (drop_bit 1 a) tx n (wire (i2cp s)) = (RDY_RESET, [], I2CD_ACK_FAILURE, w')"
    "devs w' = on_wire devs s"
    using chain_silent [OF assms] by blast
  then show ?thesis
    by (intro exI [of _ "(i2cp s)\<lparr>i2c_errors := I2CD_ACK_FAILURE, wire := w', i2c_state := I2C_READY\<rparr>"])
      (simp add: ime_command_def ime_transmit_def i2cMasterTransmitTimeout_def vexIMEHandleErrors_def i2cGetErrors_def
        bump_def nack_def ime_consts Let_def)
qed

lemma read_heard:
  assumes "chain_bus lld devs counter" "\<forall>i. heard (on_wire devs s) (drop_bit 1 a) i \<longleftrightarrow> i = j"
  shows "\<exists>d rx. ime_read lld a reg 8 buf s = (RDY_OK, rx @ drop 8 buf, s\<lparr>i2cp := d\<rparr>) \<and> devs (wire d) = on_wire devs s \<and>
     length rx = 8 \<and> (reg = 0x40 \<longrightarrow> rx = counter (wire (i2cp s)) j) \<and>
     (reg \<in> {0, 8, 0x10} \<longrightarrow> rx = dev_regs (on_wire devs s ! j) reg)"
proof -
  obtain w' rx where "i2c_lld_transmit lld (drop_bit 1 a) [reg] 8 (wire (i2cp s)) = (RDY_OK, rx, 0, w')"
    "devs w' = on_wire devs s" "length rx = 8" "reg = 0x40 \<longrightarrow> rx = counter (wire (i2cp s)) j"
    "reg \<in> {0, 8, 0x10} \<longrightarrow> rx = dev_regs (on_wire devs s ! j) reg"
    using chain_read [OF assms] by blast
  then show ?thesis
    by (intro exI [of _ "(i2cp s)\<lparr>i2c_errors := 0, wire := w', i2c_state := I2C_READY\<rparr>"] exI [of _ rx])
      (simp add: ime_read_def ime_command_def ime_transmit_def i2cMasterTransmitTimeout_def RDY_OK_def RDY_TIMEOUT_def)
qed

lemma sleep_wire [simp]:
  assumes "chain_bus lld devs counter"
  shows "on_wire devs (chThdSleepMilliseconds lld ms s) = on_wire devs s"
  by (simp add: chThdSleepMilliseconds_def chain_time [OF assms])

lemma sleep_fields [simp]:
  "imes (chThdSleepMilliseconds lld ms s) = imes s" "ime_num (chThdSleepMilliseconds lld ms s) = ime_num s"
  "nextAddress (chThdSleepMilliseconds lld ms s) = nextAddress s" "action (chThdSleepMilliseconds lld ms s) = action s"
  "error_seq (chThdSleepMilliseconds lld ms s) = error_seq s"
  by (simp_all add: chThdSleepMilliseconds_def)

lemma update_fields [simp]:
  "i2cp (ime_update i f s) = i2cp s" "ime_num (ime_update i f s) = ime_num s" "nextAddress (ime_update i f s) = nextAddress s"
  "action (ime_update i f s) = action s" "error_seq (ime_update i f s) = error_seq s"
  "imes (ime_update i f s) = (imes s)[i := f (imes s ! i)]"
  by (simp_all add: ime_update_def)

lemma nack_fields [simp]:
  "i2cp (nack s) = i2cp s" "ime_num (nack s) = ime_num s" "nextAddress (nack s) = nextAddress s" "imes (nack s) = imes s"
  "error_seq (nack s) = error_seq s + 1"
  "action (nack s) = (if error_seq s + 1 = 5 then ACTION_RENEGOTIATE else action s)"
  by (simp_all add: nack_def)

section \<open>Finding the encoders\<close>

text \<open>Every general call switches off the terminations up to and including the first that is on.\<close>

lemma disable_once:
  assumes "chain_bus lld devs counter" "\<forall>j<k. j < length (on_wire devs s) \<longrightarrow> \<not> dev_term (on_wire devs s ! j)"
  shows "let s' = chThdSleepMilliseconds lld 3 (snd (vexIMEDisableTermination lld 0 s)) in
    imes s' = imes s \<and> length (on_wire devs s') = length (on_wire devs s) \<and>
    map dev_regs (on_wire devs s') = map dev_regs (on_wire devs s) \<and>
    (\<forall>j<Suc k. j < length (on_wire devs s) \<longrightarrow> \<not> dev_term (on_wire devs s' ! j))"
proof (cases "on_wire devs s = []")
  case True
  then have "\<forall>j. \<not> heard (on_wire devs s) (drop_bit 1 0) j" by (simp add: heard_def)
  from command_unheard [OF assms(1) this, of "[IME_DISABLE_TERM]" 0] show ?thesis
    using True assms(1) by (auto simp: vexIMEDisableTermination_def Let_def)
next
  case False
  then have "heard (on_wire devs s) (drop_bit 1 0) 0" by (simp add: heard_def)
  from command_heard [OF assms(1) _ this, of "[IME_DISABLE_TERM]"]
  obtain d where d: "ime_command lld 0 [IME_DISABLE_TERM] 0 s = (RDY_OK, [], s\<lparr>i2cp := d\<rparr>)"
    "devs (wire d) = told (on_wire devs s) 0 [0x4B]"
    by (auto simp: ime_commands_def IME_DISABLE_TERM_def)
  have "\<not> dev_term (told (on_wire devs s) 0 [0x4B] ! j)" if "j < Suc k" "j < length (on_wire devs s)" for j
  proof -
    have "heard (on_wire devs s) 0 j" using assms(2) that by (auto simp: heard_def)
    then show ?thesis using that by (simp add: obey_def)
  qed
  then show ?thesis using d assms(1) by (simp add: vexIMEDisableTermination_def Let_def)
qed

lemma disable_many:
  assumes "chain_bus lld devs counter"
  shows "let s' = ((\<lambda>s. chThdSleepMilliseconds lld 3 (snd (vexIMEDisableTermination lld 0 s))) ^^ k) s in
    imes s' = imes s \<and> length (on_wire devs s') = length (on_wire devs s) \<and>
    map dev_regs (on_wire devs s') = map dev_regs (on_wire devs s) \<and>
    (\<forall>j<k. j < length (on_wire devs s) \<longrightarrow> \<not> dev_term (on_wire devs s' ! j))"
proof (induction k)
  case (Suc k)
  then show ?case using disable_once [OF assms, of k "((\<lambda>s. chThdSleepMilliseconds lld 3 (snd (vexIMEDisableTermination lld 0 s))) ^^ k) s"]
    by (simp add: Let_def)
qed (simp add: Let_def)

text \<open>After the reset every device of a chain of up to ten has the default address.\<close>

lemma all_reset:
  assumes "chain_bus lld devs counter" "length (on_wire devs s) \<le> 10"
  shows "let s' = snd (vexIMEResetAll lld (disable_all lld s)) in
    imes s' = imes s \<and> length (on_wire devs s') = length (on_wire devs s) \<and>
    map dev_regs (on_wire devs s') = map dev_regs (on_wire devs s) \<and> (\<forall>d\<in>set (on_wire devs s'). dev_addr d = 0x30)"
proof -
  define t where "t = disable_all lld s"
  have t: "imes t = imes s" "length (on_wire devs t) = length (on_wire devs s)"
    "map dev_regs (on_wire devs t) = map dev_regs (on_wire devs s)"
    "\<forall>j<length (on_wire devs t). \<not> dev_term (on_wire devs t ! j)"
    using disable_many [OF assms(1), of 10 s] assms(2) by (simp_all add: Let_def t_def disable_all_def IME_MAX_def kImeTotal_def)
  show ?thesis
  proof (cases "on_wire devs t = []")
    case True
    then have "\<forall>j. \<not> heard (on_wire devs t) 0 j" by (simp add: heard_def)
    then obtain w' where "i2c_lld_transmit lld 0 [IME_RESET_REG, 0xCA, 0x03] 0 (wire (i2cp t)) = (RDY_RESET, [], I2CD_ACK_FAILURE, w')"
      "devs w' = on_wire devs t" using chain_silent [OF assms(1)] by blast
    then show ?thesis using t True assms(1)
      by (simp add: Let_def vexIMEResetAll_def ime_transmit_def i2cMasterTransmitTimeout_def flip: t_def)
  next
    case False
    then have "heard (on_wire devs t) 0 0" by (simp add: heard_def)
    moreover have "[IME_RESET_REG, 0xCA, 0x03] \<in> ime_commands" by (simp add: ime_commands_def IME_RESET_REG_def)
    ultimately obtain w' where w': "i2c_lld_transmit lld 0 [IME_RESET_REG, 0xCA, 0x03] 0 (wire (i2cp t)) = (RDY_OK, [], 0, w')"
      "devs w' = told (on_wire devs t) 0 [IME_RESET_REG, 0xCA, 0x03]" using chain_command [OF assms(1)] by blast
    have "dev_addr (told (on_wire devs t) 0 [IME_RESET_REG, 0xCA, 0x03] ! j) = 0x30" if "j < length (on_wire devs t)" for j
      using t(4) that by (auto simp: heard_def obey_def IME_RESET_REG_def)
    then have "\<forall>d\<in>set (told (on_wire devs t) 0 [IME_RESET_REG, 0xCA, 0x03]). dev_addr d = 0x30"
      by (metis in_set_conv_nth length_told)
    then show ?thesis using t w' assms(1)
      by (simp add: Let_def vexIMEResetAll_def ime_transmit_def i2cMasterTransmitTimeout_def flip: t_def)
  qed
qed

text \<open>The invariant of the search: the encoders found so far have their addresses, and all others the default address.\<close>

definition named :: "ime_device list \<Rightarrow> nat \<Rightarrow> bool" where
  "named ds i \<longleftrightarrow> i \<le> length ds \<and> (\<forall>j<i. dev_addr (ds ! j) = 0x10 + of_nat j \<and> \<not> dev_term (ds ! j)) \<and>
     (\<forall>j. i \<le> j \<longrightarrow> j < length ds \<longrightarrow> dev_addr (ds ! j) = 0x30)"

definition found :: "(u8 \<Rightarrow> octets) list \<Rightarrow> nat \<Rightarrow> imeData \<Rightarrow> bool" where
  "found rgs j e \<longleftrightarrow> address e = 0x20 + 2 * of_nat j \<and> valid e = 1 \<and> ime_count e = 0 \<and> ime_offset e = 0 \<and>
     take 8 (version e) = (rgs ! j) 0 \<and> take 8 (vendor e) = (rgs ! j) 8 \<and> take 8 (deviceid e) = (rgs ! j) 0x10 \<and>
     0 < rpm_constant e \<and> rpm_constant e \<le> 19600"

definition searching :: "imeData list \<Rightarrow> (u8 \<Rightarrow> octets) list \<Rightarrow> ime_device list \<Rightarrow> nat \<Rightarrow> 'w vexImeData \<Rightarrow> bool" where
  "searching old rgs ds i s \<longleftrightarrow> ime_num s = int i \<and> nextAddress s = 0x20 + 2 * of_nat i \<and> action s = ACTION_POLL \<and>
     error_seq s = 0 \<and> length (imes s) = 8 \<and> (\<forall>j<i. found rgs j (imes s ! j)) \<and>
     (\<forall>j. i \<le> j \<longrightarrow> imes s ! j = old ! j) \<and> map dev_regs ds = rgs \<and> named ds i"

lemma small_address:
  assumes "i < 8"
  shows "drop_bit 1 (0x20 + 2 * of_nat i :: u8) = 0x10 + of_nat i" "(0x10 + of_nat i :: u8) \<noteq> 0x30"
    "ucast (0x20 + 2 * of_nat i :: u16) = (0x20 + 2 * of_nat i :: u8)"
    "(0x10 + of_nat i :: u8) \<noteq> 0"
proof -
  have "\<forall>i\<in>set [0..<8]. drop_bit 1 (0x20 + 2 * of_nat i :: u8) = 0x10 + of_nat i \<and> (0x10 + of_nat i :: u8) \<noteq> 0x30 \<and>
    ucast (0x20 + 2 * of_nat i :: u16) = (0x20 + 2 * of_nat i :: u8) \<and> (0x10 + of_nat i :: u8) \<noteq> 0"
    by code_simp
  then show "drop_bit 1 (0x20 + 2 * of_nat i :: u8) = 0x10 + of_nat i" "(0x10 + of_nat i :: u8) \<noteq> 0x30"
    "ucast (0x20 + 2 * of_nat i :: u16) = (0x20 + 2 * of_nat i :: u8)" "(0x10 + of_nat i :: u8) \<noteq> 0"
    using assms by auto
qed

lemma distinct_address: 
  assumes "i < 8" "j < 8"
  shows "(0x10 + of_nat i :: u8) = 0x10 + of_nat j \<longleftrightarrow> i = j"
proof -
  have "\<forall>i\<in>set [0..<8]. \<forall>j\<in>set [0..<8]. (0x10 + of_nat i :: u8) = 0x10 + of_nat j \<longleftrightarrow> i = j" by code_simp
  then show ?thesis using assms by auto
qed

lemma rpm_of_type_bounds: "0 < rpm_of_type ty \<and> rpm_of_type ty \<le> 19600"
  by (simp add: rpm_of_type_def cdiv_def)

text \<open>With the termination of device \<open>i\<close> on, it alone is addressed by the default address and then by its own.\<close>

lemma terminated_heard:
  assumes "named ds i" "i < length ds" "i < 8"
  defines "ds1 \<equiv> told ds 0x30 [0x4C]"
  defines "ds2 \<equiv> told ds1 0x30 [0x4D, 0x20 + 2 * of_nat i]"
  defines "ds3 \<equiv> told ds2 (0x10 + of_nat i) [0x4B]"
  shows "heard ds 0x30 i" "\<forall>j. heard ds1 0x30 j \<longleftrightarrow> j = i" "\<forall>j. heard ds2 (0x10 + of_nat i) j \<longleftrightarrow> j = i"
    "named ds3 (Suc i)"
proof -
  have n: "\<forall>j<i. dev_addr (ds ! j) = 0x10 + of_nat j \<and> \<not> dev_term (ds ! j)"
    "\<forall>j. i \<le> j \<longrightarrow> j < length ds \<longrightarrow> dev_addr (ds ! j) = 0x30"
    using assms(1) by (auto simp: named_def)
  have h: "heard ds 0x30 j \<longleftrightarrow> i \<le> j \<and> j < length ds \<and> (\<forall>k<j. \<not> dev_term (ds ! k))" for j
    using n small_address(2) assms(3) by (cases "j < i") (auto simp: heard_def)
  show hi: "heard ds 0x30 i" using h n assms(2) by simp
  have l: "length ds1 = length ds" "length ds2 = length ds" "length ds3 = length ds" by (simp_all add: ds1_def ds2_def ds3_def)
  have d1: "ds1 ! j = (if heard ds 0x30 j then (ds ! j)\<lparr>dev_term := True\<rparr> else ds ! j)" if "j < length ds" for j
    using that by (simp add: ds1_def obey_def)
  have term1: "dev_term (ds1 ! i)" using d1 [OF assms(2)] hi by simp
  have low1: "ds1 ! j = ds ! j" if "j < i" for j using d1 [of j] h that assms(2) by simp
  have high1: "dev_addr (ds1 ! j) = 0x30" if "i \<le> j" "j < length ds" for j using d1 [of j] n that by simp
  show h1: "\<forall>j. heard ds1 0x30 j \<longleftrightarrow> j = i"
  proof (intro allI iffI)
    fix j assume j: "heard ds1 0x30 j"
    show "j = i"
    proof (rule ccontr)
      assume "j \<noteq> i"
      then consider "j < i" | "i < j" by linarith
      then show False
        by cases (use j n low1 small_address(2) assms(3) term1 in \<open>auto simp: heard_def\<close>)
    qed
  next
    fix j assume "j = i"
    then show "heard ds1 0x30 j" using low1 n high1 assms(2) l by (simp add: heard_def)
  qed
  have d2: "ds2 ! j = (if j = i then (ds1 ! j)\<lparr>dev_addr := 0x10 + of_nat i\<rparr> else ds1 ! j)" if "j < length ds" for j
    using that l h1 small_address(1) [OF assms(3)] by (simp add: ds2_def obey_def)
  show h2: "\<forall>j. heard ds2 (0x10 + of_nat i) j \<longleftrightarrow> j = i"
  proof (intro allI iffI)
    fix j assume j: "heard ds2 (0x10 + of_nat i) j"
    have a: "dev_addr (ds2 ! j) = 0x10 + of_nat i" "j < length ds"
      using j l small_address(4) [OF assms(3)] by (auto simp: heard_def)
    show "j = i"
    proof (rule ccontr)
      assume ne: "j \<noteq> i"
      then consider "j < i" | "i < j" by linarith
      then show False
      proof cases
        case 1
        then have "0x10 + of_nat j = (0x10 + of_nat i :: u8)" using a d2 [of j] low1 n ne by simp
        then show False using distinct_address [of j i] 1 assms(3) by simp
      next
        case 2
        then show False using a d2 [of j] high1 [of j] ne small_address(2) [OF assms(3)] by simp
      qed
    qed
  next
    fix j assume "j = i"
    then show "heard ds2 (0x10 + of_nat i) j" using d2 low1 n assms(2) l by (simp add: heard_def)
  qed
  have d3: "ds3 ! j = (if j = i then (ds2 ! j)\<lparr>dev_term := False\<rparr> else ds2 ! j)" if "j < length ds" for j
    using that l h2 by (simp add: ds3_def obey_def)
  show "named ds3 (Suc i)"
    using assms(2) l d3 d2 low1 n high1 by (auto simp: named_def less_Suc_eq)
qed

lemma read_found:
  assumes "chain_bus lld devs counter" "\<forall>j. heard (on_wire devs s) (0x10 + of_nat i) j \<longleftrightarrow> j = i" "i < 8"
    and "reg \<in> {0, 8, 0x10}" "rgs = map dev_regs (on_wire devs s)"
  shows "\<exists>d. ime_read lld (0x20 + 2 * of_nat i) reg 8 buf s = (RDY_OK, (rgs ! i) reg @ drop 8 buf, s\<lparr>i2cp := d\<rparr>) \<and>
     devs (wire d) = on_wire devs s \<and> length ((rgs ! i) reg) = 8"
proof -
  have "i < length (on_wire devs s)" using assms(2) by (auto simp: heard_def)
  then have "rgs ! i = dev_regs (on_wire devs s ! i)" using assms(5) by simp
  then show ?thesis using read_heard [OF assms(1), of s "0x20 + 2 * of_nat i" i reg buf] assms(2,4) small_address(1) [OF assms(3)] by auto
qed

lemma new_encoder_found:
  assumes bus: "chain_bus lld devs counter"
    and "searching old rgs (on_wire devs s) i s" "i < length (on_wire devs s)" "i < 8"
  shows "\<exists>t. vexIMEEnableTermination lld DEFAULT_DEVICE (ime_update i vexIMEDataInit s) = (RDY_OK, t) \<and>
    searching old rgs (on_wire devs (new_encoder lld i t)) (Suc i) (new_encoder lld i t)"
proof -
  define ds where "ds = on_wire devs s"
  define e where "e = vexIMEDataInit (imes s ! i)"
  have inv: "ime_num s = int i" "nextAddress s = 0x20 + 2 * of_nat i" "action s = ACTION_POLL" "error_seq s = 0" "length (imes s) = 8"
    "\<forall>j<i. found rgs j (imes s ! j)" "\<forall>j. i \<le> j \<longrightarrow> imes s ! j = old ! j" "map dev_regs ds = rgs" "named ds i"
    using assms(2) by (auto simp: searching_def ds_def)
  note addr = small_address [OF assms(4)]
  have dflt: "drop_bit 1 DEFAULT_DEVICE = (0x30 :: u8)" by (simp add: DEFAULT_DEVICE_def)
  have li: "i < length (imes s)" using inv assms(4) by simp
  have il: "i < length ds" using assms(3) by (simp add: ds_def)
  define s0 where "s0 = ime_update i vexIMEDataInit s"
  have s0: "on_wire devs s0 = ds" by (simp add: s0_def ds_def)
  obtain d1 where d1: "ime_command lld DEFAULT_DEVICE [0x4C] 0 s0 = (RDY_OK, [], s0\<lparr>i2cp := d1\<rparr>)" "devs (wire d1) = told ds 0x30 [0x4C]"
    using command_heard [OF bus, of "[0x4C]" s0 DEFAULT_DEVICE i] terminated_heard(1) [OF inv(9) il assms(4)] s0 dflt
    by (auto simp: ime_commands_def)
  define t where "t = s0\<lparr>i2cp := d1\<rparr>"
  define t1 where "t1 = t\<lparr>ime_num := i16 (ime_num t + 1)\<rparr>"
  have t1: "on_wire devs t1 = told ds 0x30 [0x4C]" "address (imes t1 ! i) = DEFAULT_DEVICE" "nextAddress t1 = 0x20 + 2 * of_nat i"
    using d1(2) inv assms(4) by (simp_all add: t1_def t_def s0_def vexIMEDataInit_def)
  obtain d2 where d2: "ime_command lld DEFAULT_DEVICE [0x4D, 0x20 + 2 * of_nat i] 0 t1 = (RDY_OK, [], t1\<lparr>i2cp := d2\<rparr>)"
      "devs (wire d2) = told (told ds 0x30 [0x4C]) 0x30 [0x4D, 0x20 + 2 * of_nat i]"
    using command_heard [OF bus, of "[0x4D, 0x20 + 2 * of_nat i]" t1 DEFAULT_DEVICE i] terminated_heard(2) [OF inv(9) il assms(4)] t1 dflt
    by (auto simp: ime_commands_def)
  define t2 where "t2 = chThdSleepMilliseconds lld 1 ((ime_update i (\<lambda>e. e\<lparr>address := 0x20 + 2 * of_nat i\<rparr>) (t1\<lparr>i2cp := d2\<rparr>))
      \<lparr>nextAddress := 0x20 + 2 * of_nat i + 2\<rparr>)"
  have e2: "imes t2 = (imes s)[i := e\<lparr>address := 0x20 + 2 * of_nat i\<rparr>]"
    using inv assms(4) by (simp add: t2_def t1_def t_def s0_def e_def)
  have w2: "on_wire devs t2 = devs (wire d2)" using bus by (simp add: t2_def)
  have h2: "\<forall>j. heard (devs (wire d2)) (0x10 + of_nat i) j \<longleftrightarrow> j = i"
    using terminated_heard(3) [OF inv(9) il assms(4)] d2(2) by simp
  have r2: "rgs = map dev_regs (devs (wire d2))" using d2(2) inv(8) by simp
  obtain d3 where d3: "vexIMEGetVersion lld (0x20 + 2 * of_nat i) (version e) t2
      = (RDY_OK, (rgs ! i) 0 @ drop 8 (version e), t2\<lparr>i2cp := d3\<rparr>)" "devs (wire d3) = devs (wire d2)" "length ((rgs ! i) 0) = 8"
    using read_found [where s = t2 and reg = 0 and rgs = rgs, OF bus _ assms(4)] w2 h2 r2 by (auto simp: vexIMEGetVersion_def IME_VERSION_ADDR_def)
  define t3 where "t3 = ime_update i (\<lambda>x. x\<lparr>version := (rgs ! i) 0 @ drop 8 (version e)\<rparr>) (t2\<lparr>i2cp := d3\<rparr>)"
  have e3: "imes t3 = (imes s)[i := e\<lparr>address := 0x20 + 2 * of_nat i, version := (rgs ! i) 0 @ drop 8 (version e)\<rparr>]"
    using e2 li by (simp add: t3_def)
  obtain d4 where d4: "vexIMEGetVendor lld (0x20 + 2 * of_nat i) (vendor e) t3
      = (RDY_OK, (rgs ! i) 8 @ drop 8 (vendor e), t3\<lparr>i2cp := d4\<rparr>)" "devs (wire d4) = devs (wire d2)" "length ((rgs ! i) 8) = 8"
    using read_found [where s = t3 and reg = 8 and rgs = rgs, OF bus _ assms(4)] d3(2) h2 r2 by (auto simp: vexIMEGetVendor_def IME_VENDOR_ADDR_def t3_def)
  define t4 where "t4 = ime_update i (\<lambda>x. x\<lparr>vendor := (rgs ! i) 8 @ drop 8 (vendor e)\<rparr>) (t3\<lparr>i2cp := d4\<rparr>)"
  have e4: "imes t4 = (imes s)[i := e\<lparr>address := 0x20 + 2 * of_nat i, version := (rgs ! i) 0 @ drop 8 (version e),
      vendor := (rgs ! i) 8 @ drop 8 (vendor e)\<rparr>]" using e3 li by (simp add: t4_def)
  obtain d5 where d5: "vexIMEGetDeviceId lld (0x20 + 2 * of_nat i) (deviceid e) t4
      = (RDY_OK, (rgs ! i) 0x10 @ drop 8 (deviceid e), t4\<lparr>i2cp := d5\<rparr>)" "devs (wire d5) = devs (wire d2)" "length ((rgs ! i) 0x10) = 8"
    using read_found [where s = t4 and reg = "0x10" and rgs = rgs, OF bus _ assms(4)] d4(2) h2 r2 by (auto simp: vexIMEGetDeviceId_def IME_DEVICEID_ADDR_def t4_def)
  define t5 where "t5 = ime_update i (\<lambda>x. x\<lparr>deviceid := (rgs ! i) 0x10 @ drop 8 (deviceid e)\<rparr>) (t4\<lparr>i2cp := d5\<rparr>)"
  define e' where "e' = e\<lparr>address := 0x20 + 2 * of_nat i, version := (rgs ! i) 0 @ drop 8 (version e),
      vendor := (rgs ! i) 8 @ drop 8 (vendor e), deviceid := (rgs ! i) 0x10 @ drop 8 (deviceid e)\<rparr>"
  have e5: "imes t5 = (imes s)[i := e']" using e4 li by (simp add: t5_def e'_def)
  have ae: "address e' = 0x20 + 2 * of_nat i" by (simp add: e'_def)
  obtain d6 where d6: "vexIMEClearCounters lld (0x20 + 2 * of_nat i) t5 = (RDY_OK, t5\<lparr>i2cp := d6\<rparr>)"
      "devs (wire d6) = told (devs (wire d2)) (0x10 + of_nat i) [0x4A]"
    using command_heard [OF bus, of "[0x4A]" t5 "0x20 + 2 * of_nat i" i] d5(2) h2 addr(1)
    by (auto simp: ime_commands_def vexIMEClearCounters_def IME_CLEAR_COUNTERS_def t5_def)
  have w6: "devs (wire d6) = devs (wire d2)" unfolding d6(2) by (rule nth_equalityI) (simp_all add: obey_def)
  define t6 where "t6 = ime_update i (\<lambda>e. e\<lparr>rpm_constant := rpm_of_type (ime_type e), valid := 1\<rparr>) (t5\<lparr>i2cp := d6\<rparr>)"
  have e6: "imes t6 = (imes s)[i := e'\<lparr>rpm_constant := rpm_of_type (ime_type e'), valid := 1\<rparr>]"
    using e5 li by (simp add: t6_def)
  obtain d7 where d7: "vexIMEDisableTermination lld (0x20 + 2 * of_nat i) t6 = (RDY_OK, t6\<lparr>i2cp := d7\<rparr>)"
      "devs (wire d7) = told (devs (wire d2)) (0x10 + of_nat i) [0x4B]"
    using command_heard [OF bus, of "[0x4B]" t6 "0x20 + 2 * of_nat i" i] w6 h2 addr(1)
    by (auto simp: ime_commands_def vexIMEDisableTermination_def IME_DISABLE_TERM_def t6_def)
  define r where "r = chThdSleepMilliseconds lld 1 (t6\<lparr>i2cp := d7\<rparr>)"
  have a: "ucast (nextAddress t1) = (0x20 + 2 * of_nat i :: u8)" using t1(3) addr(3) by simp
  have n2: "name_encoder lld i t = t2"
    unfolding name_encoder_def Let_def t1_def [symmetric] t1(2) a vexIMESetAddr_def IME_SETDEV_REG_def d2(1)
    using t1(3) by (simp add: t2_def)
  have n5: "read_information lld i t2 = t5"
    using d3(1) d4(1) d5(1) e2 li
    by (simp add: read_information_def Let_def t3_def [symmetric] t4_def [symmetric] t5_def [symmetric] e3 e4)
  have n7: "make_valid lld i t5 = r"
    using d6(1) d7(1) e5 li by (simp add: ae make_valid_def Let_def t6_def [symmetric] r_def e6)
  have wr: "on_wire devs r = told (devs (wire d2)) (0x10 + of_nat i) [0x4B]" using d7(2) bus by (simp add: r_def)
  have named: "named (on_wire devs r) (Suc i)" "map dev_regs (on_wire devs r) = rgs"
    using terminated_heard(4) [OF inv(9) il assms(4)] wr d2(2) r2 by simp_all
  have er: "imes r = (imes s)[i := e'\<lparr>rpm_constant := rpm_of_type (ime_type e'), valid := 1\<rparr>]" using e6 by (simp add: r_def)
  have "found rgs i (e'\<lparr>rpm_constant := rpm_of_type (ime_type e'), valid := 1\<rparr>)"
    using d3(3) d4(3) d5(3) rpm_of_type_bounds [of "ime_type e'"] by (simp add: found_def e'_def e_def vexIMEDataInit_def)
  then have "searching old rgs (on_wire devs r) (Suc i) r"
    using inv named er assms(4)
    by (auto simp: searching_def r_def t6_def t5_def t4_def t3_def t2_def t1_def t_def s0_def less_Suc_eq nth_list_update i16_id)
  moreover have "vexIMEEnableTermination lld DEFAULT_DEVICE s0 = (RDY_OK, t)"
    using d1(1) by (simp add: vexIMEEnableTermination_def IME_ENABLE_TERM_def t_def)
  ultimately show ?thesis using n2 n5 n7 by (auto simp: new_encoder_def s0_def)
qed

lemma find_loop_finds:
  assumes bus: "chain_bus lld devs counter"
  shows "searching old rgs (on_wire devs s) i s \<Longrightarrow> k + i = 8 \<Longrightarrow>
    (let t = find_loop lld k i s; m = min (length rgs) 8
     in ime_num t = int m \<and> length (imes t) = 8 \<and> action t = ACTION_POLL \<and> (\<forall>j<m. found rgs j (imes t ! j)) \<and>
        (m < 8 \<longrightarrow> valid (imes t ! m) = 0) \<and> (\<forall>c. m < c \<longrightarrow> c < 8 \<longrightarrow> imes t ! c = old ! c) \<and>
        map dev_regs (on_wire devs t) = rgs \<and> named (on_wire devs t) m)"
proof (induction k arbitrary: i s)
  case 0
  then have "length rgs = length (on_wire devs s)" "i = 8" by (auto simp: searching_def)
  then show ?case using 0 by (auto simp: searching_def named_def Let_def)
next
  case (Suc k)
  have i: "i < 8" using Suc.prems by simp
  have n: "length rgs = length (on_wire devs s)" "i \<le> length (on_wire devs s)" "length (imes s) = 8"
    using Suc.prems(1) by (auto simp: searching_def named_def)
  have adr: "address (imes (ime_update i vexIMEDataInit s) ! i) = DEFAULT_DEVICE" using n(3) i by (simp add: vexIMEDataInit_def)
  show ?case
  proof (cases "i < length (on_wire devs s)")
    case True
    then obtain t where t: "vexIMEEnableTermination lld DEFAULT_DEVICE (ime_update i vexIMEDataInit s) = (RDY_OK, t)"
      "searching old rgs (on_wire devs (new_encoder lld i t)) (Suc i) (new_encoder lld i t)"
      using new_encoder_found [OF bus Suc.prems(1) _ i] by blast
    have "find_loop lld (Suc k) i s = find_loop lld k (Suc i) (new_encoder lld i t)" using t(1) adr by (simp add: Let_def)
    then show ?thesis using Suc.IH [OF t(2)] Suc.prems(2) by simp
  next
    case False
    then have m: "i = length rgs" using n by simp
    have quiet: "\<forall>j. \<not> heard (on_wire devs (ime_update i vexIMEDataInit s)) (drop_bit 1 DEFAULT_DEVICE) j"
    proof
      fix j
      have "\<not> heard (on_wire devs s) 0x30 j"
        using Suc.prems(1) m n(1) small_address(2) [of j] i by (auto simp: heard_def searching_def named_def)
      then show "\<not> heard (on_wire devs (ime_update i vexIMEDataInit s)) (drop_bit 1 DEFAULT_DEVICE) j"
        by (simp add: DEFAULT_DEVICE_def)
    qed
    obtain d where d: "ime_command lld DEFAULT_DEVICE [IME_ENABLE_TERM] 0 (ime_update i vexIMEDataInit s)
        = (RDY_RESET, [], nack ((ime_update i vexIMEDataInit s)\<lparr>i2cp := d\<rparr>))" "devs (wire d) = on_wire devs s"
      using command_unheard [OF bus quiet, of "[IME_ENABLE_TERM]" 0] by auto
    have "find_loop lld (Suc k) i s = ime_update i (\<lambda>e. e\<lparr>address := 0\<rparr>) (nack ((ime_update i vexIMEDataInit s)\<lparr>i2cp := d\<rparr>))"
      using d(1) adr by (simp add: Let_def vexIMEEnableTermination_def RDY_RESET_def RDY_OK_def)
    then show ?thesis using Suc.prems(1) d(2) m i
      by (auto simp: Let_def searching_def nth_list_update vexIMEDataInit_def min_def)
  qed
qed

text \<open>
  The state after the search: \<open>m\<close> encoders have channels and addresses in the order of the chain, and the bus ends at the
  last of them.
\<close>

definition enumerated :: "('w \<Rightarrow> ime_device list) \<Rightarrow> nat \<Rightarrow> 'w vexImeData \<Rightarrow> bool" where
  "enumerated devs m s \<longleftrightarrow> ime_num s = int m \<and> m \<le> 8 \<and> m \<le> length (on_wire devs s) \<and> length (imes s) = 8 \<and>
     (\<forall>j<m. address (imes s ! j) = 0x20 + 2 * of_nat j \<and> valid (imes s ! j) = 1 \<and>
        0 < rpm_constant (imes s ! j) \<and> rpm_constant (imes s ! j) \<le> 19600 \<and>
        dev_addr (on_wire devs s ! j) = 0x10 + of_nat j \<and> (dev_term (on_wire devs s ! j) \<longleftrightarrow> Suc j = m))"

lemma find_encoders:
  assumes bus: "chain_bus lld devs counter" and n: "length (on_wire devs s) \<le> 10" and l: "length (imes s) = 8"
  shows "\<exists>t. vexIMEFindEncoders lld s = (int (min (length (on_wire devs s)) 8), t) \<and>
     enumerated devs (min (length (on_wire devs s)) 8) t \<and> action t = ACTION_POLL \<and>
     (\<forall>j<min (length (on_wire devs s)) 8. found (map dev_regs (on_wire devs s)) j (imes t ! j)) \<and>
     (length (on_wire devs s) < 8 \<longrightarrow> valid (imes t ! length (on_wire devs s)) = 0) \<and>
     (\<forall>c. length (on_wire devs s) < c \<longrightarrow> c < 8 \<longrightarrow> imes t ! c = imes s ! c)"
proof -
  define rgs where "rgs = map dev_regs (on_wire devs s)"
  define m where "m = min (length rgs) 8"
  obtain st r where r: "vexIMEResetAll lld (disable_all lld s) = (st, r)" by force
  have r': "imes r = imes s" "map dev_regs (on_wire devs r) = rgs" "\<forall>d\<in>set (on_wire devs r). dev_addr d = 0x30"
    using all_reset [OF bus n] r by (simp_all add: Let_def rgs_def)
  define s0 where "s0 = r\<lparr>ime_num := 0, error_seq := 0, nextAddress := IME_START_ADDRESS, action := ACTION_POLL\<rparr>"
  have "searching (imes s) rgs (on_wire devs s0) 0 s0"
    using r' l by (auto simp: searching_def s0_def IME_START_ADDRESS_def named_def)
  from find_loop_finds [OF bus this, of 8]
  obtain t where t: "t = find_loop lld 8 0 s0" "ime_num t = int m" "length (imes t) = 8" "action t = ACTION_POLL"
    "\<forall>j<m. found rgs j (imes t ! j)" "m < 8 \<longrightarrow> valid (imes t ! m) = 0" "\<forall>c. m < c \<longrightarrow> c < 8 \<longrightarrow> imes t ! c = imes s ! c"
    "map dev_regs (on_wire devs t) = rgs" "named (on_wire devs t) m"
    by (auto simp: Let_def m_def)
  have len: "length (on_wire devs t) = length rgs" using t(8) by (metis length_map)
  have "\<exists>u. vexIMEFindEncoders lld s = (int m, u) \<and> enumerated devs m u \<and> action u = ACTION_POLL \<and> imes u = imes t"
  proof (cases "m = 0")
    case True
    have "vexIMEFindEncoders lld s = (int m, t)"
      using r t(1,2) True by (simp add: vexIMEFindEncoders_def Let_def s0_def IME_MAX_def kImeTotal_def)
    then show ?thesis using t True by (auto simp: enumerated_def)
  next
    case False
    define k where "k = m - 1"
    have m8: "m \<le> 8" "m \<le> length rgs" by (simp_all add: m_def)
    have k: "m = Suc k" "k < 8" "k < length (on_wire devs t)" using False len m8 by (simp_all add: k_def)
    have adr: "address (imes t ! k) = 0x20 + 2 * of_nat k" using t(5) k by (auto simp: found_def)
    have h: "heard (on_wire devs t) (drop_bit 1 (0x20 + 2 * of_nat k)) j \<longleftrightarrow> j = k" if "j \<le> k" for j
      using t(9) k that small_address [OF k(2)] distinct_address [of j k] by (auto simp: heard_def named_def)
    obtain d where d: "ime_command lld (0x20 + 2 * of_nat k) [0x4C] 0 t = (RDY_OK, [], t\<lparr>i2cp := d\<rparr>)"
      "devs (wire d) = told (on_wire devs t) (drop_bit 1 (0x20 + 2 * of_nat k)) [0x4C]"
      using command_heard [OF bus, of "[0x4C]" t "0x20 + 2 * of_nat k" k] h [of k] by (auto simp: ime_commands_def)
    have "vexIMEFindEncoders lld s = (int m, t\<lparr>i2cp := d\<rparr>)"
      using r t(1,2) k adr d(1)
      by (simp add: vexIMEFindEncoders_def Let_def s0_def IME_MAX_def kImeTotal_def vexIMEEnableTermination_def IME_ENABLE_TERM_def)
    moreover have "enumerated devs m (t\<lparr>i2cp := d\<rparr>)"
      unfolding enumerated_def
    proof (intro conjI allI impI)
      fix j assume j: "j < m"
      then have jk: "j \<le> k" "j < length (on_wire devs t)" using k by simp_all
      show "dev_term (on_wire devs (t\<lparr>i2cp := d\<rparr>) ! j) \<longleftrightarrow> Suc j = m"
        using jk h [OF jk(1)] t(9) k d(2) by (auto simp: obey_def named_def)
      show "dev_addr (on_wire devs (t\<lparr>i2cp := d\<rparr>) ! j) = 0x10 + of_nat j"
        using jk t(9) k d(2) by (auto simp: obey_def named_def)
    qed (use t k d(2) in \<open>auto simp: found_def m_def\<close>)
    ultimately show ?thesis using t(4) by auto
  qed
  then show ?thesis using t(5-7) unfolding m_def rgs_def by (auto simp: min_def split: if_splits)
qed

section \<open>Polling\<close>

lemma decode_total:
  assumes "0 < rpm_constant e" "rpm_constant e \<le> 19600"
  shows "\<exists>e'. ime_decode e = Some e' \<and> ime_count e' = enc_count (enc_data e) \<and> ime_offset e' = ime_offset e \<and>
     valid e' = valid e \<and> address e' = address e \<and> rpm_constant e' = rpm_constant e"
proof -
  define v where "v = enc_velocity (enc_data e)"
  have b: "uint (enc_data e ! 4) < 256" "uint (enc_data e ! 5) < 256" "0 \<le> uint (enc_data e ! 4)" "0 \<le> uint (enc_data e ! 5)"
    using uint_lt2p [of "enc_data e ! 4"] uint_lt2p [of "enc_data e ! 5"] by simp_all
  then have v: "0 \<le> v" "v \<le> 65535" by (simp_all add: v_def enc_velocity_def)
  have "v * rpm_constant e \<le> 65535 * 19600" using v assms by (intro mult_mono) simp_all
  moreover have "0 < v * rpm_constant e" if "v \<noteq> 0" using v that assms by simp
  ultimately have "i32 (v * rpm_constant e) \<noteq> 0" if "v \<noteq> 0" using that assms(1) by (simp add: i32_id)
  then show ?thesis by (auto simp: ime_decode_def ime_rpm_def Let_def simp flip: v_def)
qed

definition readings :: "imeData \<Rightarrow> int \<times> int \<times> u16" where
  "readings e = (ime_count e, ime_offset e, valid e)"

lemma count_readings:
  "0 \<le> c \<Longrightarrow> c < 8 \<Longrightarrow> vexImeGetCount c s = (case readings (imes s ! nat c) of (n, off, v) \<Rightarrow> if v \<noteq> 0 then i32 (n - off) else 0)"
  by (simp add: vexImeGetCount_def readings_def no_channel_def kImeChannel_8_def word_less_alt uint_word_of_int Let_def)

text \<open>The first \<open>j\<close> of \<open>m\<close> channels have an encoder that answers, the rest have none.\<close>

definition polling :: "('w \<Rightarrow> ime_device list) \<Rightarrow> nat \<Rightarrow> nat \<Rightarrow> 'w vexImeData \<Rightarrow> bool" where
  "polling devs j m s \<longleftrightarrow> ime_num s = int m \<and> j \<le> m \<and> m \<le> 8 \<and> length (imes s) = 8 \<and>
     (\<forall>k<m. address (imes s ! k) = 0x20 + 2 * of_nat k \<and> 0 < rpm_constant (imes s ! k) \<and> rpm_constant (imes s ! k) \<le> 19600) \<and>
     (\<forall>k<j. \<forall>i. heard (on_wire devs s) (0x10 + of_nat k) i \<longleftrightarrow> i = k) \<and>
     (\<forall>k i. j \<le> k \<longrightarrow> k < m \<longrightarrow> \<not> heard (on_wire devs s) (0x10 + of_nat k) i)"

lemma update_answered:
  assumes bus: "chain_bus lld devs counter" and "polling devs j m s" "k < j"
  shows "\<exists>t. vexIMEUpdateCounts lld (Some k) s = Some (RDY_OK, t) \<and> polling devs j m t \<and> on_wire devs t = on_wire devs s \<and>
     error_seq t = error_seq s \<and> action t = action s \<and> (\<forall>c. c \<noteq> k \<longrightarrow> imes t ! c = imes s ! c) \<and>
     readings (imes t ! k) = (enc_count (counter (wire (i2cp s)) k), ime_offset (imes s ! k), valid (imes s ! k))"
proof -
  have p: "k < 8" "length (imes s) = 8" "address (imes s ! k) = 0x20 + 2 * of_nat k"
    "0 < rpm_constant (imes s ! k)" "rpm_constant (imes s ! k) \<le> 19600"
    "\<forall>i. heard (on_wire devs s) (0x10 + of_nat k) i \<longleftrightarrow> i = k"
    using assms(2,3) by (auto simp: polling_def)
  define s0 where "s0 = ime_update k (\<lambda>e. e\<lparr>data_polls := data_polls e + 1\<rparr>) s"
  have h: "\<forall>i. heard (on_wire devs s0) (drop_bit 1 (0x20 + 2 * of_nat k)) i \<longleftrightarrow> i = k"
    using p(6) small_address(1) [OF p(1)] by (simp add: s0_def)
  obtain d rx where d: "vexIMEGetData lld (0x20 + 2 * of_nat k) (enc_data (imes s ! k)) s0
      = (RDY_OK, rx @ drop 8 (enc_data (imes s ! k)), s0\<lparr>i2cp := d\<rparr>)"
    "devs (wire d) = on_wire devs s" "length rx = 8" "rx = counter (wire (i2cp s)) k"
    using read_heard [OF bus h, of "0x40" "enc_data (imes s ! k)"] by (auto simp: vexIMEGetData_def IME_DATA_ADDR_def s0_def)
  define e where "e = (imes s ! k)\<lparr>data_polls := data_polls (imes s ! k) + 1, enc_data := rx @ drop 8 (enc_data (imes s ! k))\<rparr>"
  obtain e' where e': "ime_decode e = Some e'" "ime_count e' = enc_count (enc_data e)" "ime_offset e' = ime_offset e"
     "valid e' = valid e" "address e' = address e" "rpm_constant e' = rpm_constant e"
    using decode_total [of e] p(4,5) by (auto simp: e_def)
  have c: "enc_count (enc_data e) = enc_count (counter (wire (i2cp s)) k)"
    using d(3,4) by (simp add: e_def enc_count_def nth_append)
  define t where "t = ime_update k (\<lambda>_. e') (ime_update k (\<lambda>x. x\<lparr>enc_data := rx @ drop 8 (enc_data (imes s ! k))\<rparr>) (s0\<lparr>i2cp := d\<rparr>))"
  have "vexIMEUpdateCounts lld (Some k) s = Some (RDY_OK, t)"
    using d(1) p(1-3) e'(1) by (simp add: vexIMEUpdateCounts_def Let_def t_def e_def flip: s0_def) (simp add: s0_def)
  moreover have "imes t = (imes s)[k := e']" by (simp add: t_def s0_def)
  ultimately show ?thesis
    using assms(2) p d(2) e' c
    by (intro exI [of _ t]) (auto simp: polling_def t_def s0_def e_def nth_list_update readings_def)
qed

lemma update_silent:
  assumes bus: "chain_bus lld devs counter" and "polling devs j m s" "j \<le> k" "k < m"
  shows "\<exists>t. vexIMEUpdateCounts lld (Some k) s = Some (RDY_RESET, t) \<and> polling devs j m t \<and> on_wire devs t = on_wire devs s \<and>
     error_seq t = error_seq s + 1 \<and> action t = (if error_seq s + 1 = 5 then ACTION_RENEGOTIATE else action s) \<and>
     (\<forall>c. readings (imes t ! c) = readings (imes s ! c))"
proof -
  have p: "k < 8" "length (imes s) = 8" "address (imes s ! k) = 0x20 + 2 * of_nat k"
    "\<forall>i. \<not> heard (on_wire devs s) (0x10 + of_nat k) i"
    using assms(2-4) by (auto simp: polling_def)
  define s0 where "s0 = ime_update k (\<lambda>e. e\<lparr>data_polls := data_polls e + 1\<rparr>) s"
  have h: "\<forall>i. \<not> heard (on_wire devs s0) (drop_bit 1 (0x20 + 2 * of_nat k)) i"
    using p(4) small_address(1) [OF p(1)] by (simp add: s0_def)
  obtain d where d: "vexIMEGetData lld (0x20 + 2 * of_nat k) (enc_data (imes s ! k)) s0
      = (RDY_RESET, enc_data (imes s ! k), nack (s0\<lparr>i2cp := d\<rparr>))" "devs (wire d) = on_wire devs s"
    using command_unheard [OF bus h, of "[0x40]" 8] by (auto simp: vexIMEGetData_def ime_read_def IME_DATA_ADDR_def s0_def)
  define t where "t = ime_update k (\<lambda>x. x\<lparr>data_errors := data_errors x + 1\<rparr>)
      (ime_update k (\<lambda>x. x\<lparr>enc_data := enc_data (imes s ! k)\<rparr>) (nack (s0\<lparr>i2cp := d\<rparr>)))"
  have "vexIMEUpdateCounts lld (Some k) s = Some (RDY_RESET, t)"
    using d(1) p(1-3) by (simp add: vexIMEUpdateCounts_def Let_def t_def RDY_OK_def RDY_RESET_def flip: s0_def) (simp add: s0_def)
  moreover have "readings (imes t ! c) = readings (imes s ! c)" for c
    using p(1,2) by (cases "c = k") (simp_all add: readings_def t_def s0_def)
  ultimately show ?thesis
    using assms(2) p d(2) by (intro exI [of _ t]) (auto simp: polling_def t_def s0_def nth_list_update)
qed

lemma poll_append: "poll_loop lld (xs @ [x]) s = Option.bind (poll_loop lld xs s) (poll_loop lld [x])"
  by (induction xs arbitrary: s) (simp_all split: Option.bind_split prod.splits)

lemma polling_sleep [simp]:
  "chain_bus lld devs counter \<Longrightarrow> polling devs j m (chThdSleepMilliseconds lld ms s) = polling devs j m s"
  by (simp add: polling_def)

lemma polling_reset [simp]: "polling devs j m (s\<lparr>error_seq := v\<rparr>) = polling devs j m s"
  by (simp add: polling_def)

text \<open>
  As long as the first channel answers and at most four are lost, polling never sees five errors in a row; the channels
  that answer get the count their encoder has when its turn comes, the others keep theirs.
\<close>

lemma poll_prefix:
  assumes bus: "chain_bus lld devs counter" and "polling devs j m s" "0 < j" "m \<le> j + 4" "action s = ACTION_POLL"
  shows "k \<le> m \<Longrightarrow> \<exists>t. poll_loop lld [0..<k] s = Some t \<and> polling devs j m t \<and> on_wire devs t = on_wire devs s \<and>
     action t = ACTION_POLL \<and> (k \<noteq> 0 \<longrightarrow> error_seq t = of_nat (k - j)) \<and>
     (\<forall>c<min k j. \<exists>u. poll_loop lld [0..<c] s = Some u \<and>
        readings (imes t ! c) = (enc_count (counter (wire (i2cp u)) c), ime_offset (imes s ! c), valid (imes s ! c))) \<and>
     (\<forall>c. min k j \<le> c \<longrightarrow> readings (imes t ! c) = readings (imes s ! c))"
proof (induction k)
  case 0
  then show ?case using assms by simp
next
  case (Suc k)
  then obtain t where t: "poll_loop lld [0..<k] s = Some t" "polling devs j m t" "on_wire devs t = on_wire devs s"
    "action t = ACTION_POLL" "k \<noteq> 0 \<longrightarrow> error_seq t = of_nat (k - j)"
    "\<forall>c<min k j. \<exists>u. poll_loop lld [0..<c] s = Some u \<and>
        readings (imes t ! c) = (enc_count (counter (wire (i2cp u)) c), ime_offset (imes s ! c), valid (imes s ! c))"
    "\<forall>c. min k j \<le> c \<longrightarrow> readings (imes t ! c) = readings (imes s ! c)" by auto
  have step: "poll_loop lld [0..<Suc k] s = poll_loop lld [k] t" using t(1) poll_append [of lld "[0..<k]" k s] by simp
  show ?case
  proof (cases "k < j")
    case True
    then obtain t' where t': "vexIMEUpdateCounts lld (Some k) t = Some (RDY_OK, t')" "polling devs j m t'"
      "on_wire devs t' = on_wire devs t" "error_seq t' = error_seq t" "action t' = action t" "\<forall>c. c \<noteq> k \<longrightarrow> imes t' ! c = imes t ! c"
      "readings (imes t' ! k) = (enc_count (counter (wire (i2cp t)) k), ime_offset (imes t ! k), valid (imes t ! k))"
      using update_answered [OF bus t(2)] by blast
    define u where "u = chThdSleepMilliseconds lld 1 (t'\<lparr>error_seq := 0\<rparr>)"
    have u: "poll_loop lld [0..<Suc k] s = Some u" using step t'(1) by (simp add: u_def)
    have "readings (imes t ! k) = readings (imes s ! k)" using t(7) by simp
    then have "readings (imes u ! k) = (enc_count (counter (wire (i2cp t)) k), ime_offset (imes s ! k), valid (imes s ! k))"
      using t'(7) by (simp add: u_def readings_def)
    moreover have "readings (imes u ! c) = readings (imes t ! c)" if "c \<noteq> k" for c using t'(6) that by (simp add: u_def)
    ultimately have "\<forall>c<min (Suc k) j. \<exists>u'. poll_loop lld [0..<c] s = Some u' \<and>
        readings (imes u ! c) = (enc_count (counter (wire (i2cp u')) c), ime_offset (imes s ! c), valid (imes s ! c))"
      "\<forall>c. min (Suc k) j \<le> c \<longrightarrow> readings (imes u ! c) = readings (imes s ! c)"
      using t(1,6,7) True by (auto simp: less_Suc_eq)
    moreover have "polling devs j m u \<and> on_wire devs u = on_wire devs s \<and> action u = ACTION_POLL \<and> error_seq u = of_nat (Suc k - j)"
      using t(3,4) t'(2,3,5) True bus by (simp add: u_def)
    ultimately show ?thesis using u by blast
  next
    case False
    then obtain t' where t': "vexIMEUpdateCounts lld (Some k) t = Some (RDY_RESET, t')" "polling devs j m t'"
      "on_wire devs t' = on_wire devs t" "error_seq t' = error_seq t + 1"
      "action t' = (if error_seq t + 1 = 5 then ACTION_RENEGOTIATE else action t)"
      "\<forall>c. readings (imes t' ! c) = readings (imes t ! c)"
      using update_silent [OF bus t(2), of k] Suc.prems by (auto simp: not_less Suc_le_eq)
    define u where "u = chThdSleepMilliseconds lld 1 t'"
    have u: "poll_loop lld [0..<Suc k] s = Some u" using step t'(1) by (simp add: u_def RDY_RESET_def RDY_OK_def)
    have e: "error_seq t = of_nat (k - j)" using t(5) False assms(3) by simp
    have "k - j \<in> {0, 1, 2, 3}" using False Suc.prems assms(4) by auto
    then have "error_seq t + 1 \<noteq> 5" using e by auto
    moreover have "Suc k - j = Suc (k - j)" using False by simp
    ultimately have "polling devs j m u \<and> on_wire devs u = on_wire devs s \<and> action u = ACTION_POLL \<and> error_seq u = of_nat (Suc k - j)"
      using t(3,4) t'(2-5) e bus by (simp add: u_def)
    moreover have "min (Suc k) j = min k j" using False by simp
    ultimately show ?thesis using u t(6,7) t'(6) by (auto simp: u_def)
  qed
qed

section \<open>Properties\<close>

text \<open>C32: The search finds the encoders of a chain of up to ten: the first eight get the addresses 0x20, 0x22 and so on in
  the order of the chain, whatever addresses and terminations they had, their channels are valid with a count of zero and
  carry the identification of their encoder, and only the last has its termination on. The next channel becomes invalid,
  but the channels above it keep the count they had before.\<close>

theorem encoders_get_addresses:
  assumes "chain_bus lld devs counter" "length (devs (wire (i2cp s))) \<le> 10" "length (imes s) = 8"
  shows "(let n = length (devs (wire (i2cp s))); m = min n 8; (r, t) = vexIMEFindEncoders lld s; ds = devs (wire (i2cp t))
     in r = int m \<and> vexImeGetChannelMax t = int m \<and> action t = ACTION_POLL \<and> enumerated devs m t \<and>
        (\<forall>c<m. vexImeGetId (int c) t = 0x20 + 2 * int c \<and> vexImeGetCount (int c) t = 0 \<and>
           take 8 (deviceid (imes t ! c)) = dev_regs (devs (wire (i2cp s)) ! c) IME_DEVICEID_ADDR) \<and>
        (n < 8 \<longrightarrow> vexImeGetCount (int n) t = 0) \<and>
        (\<forall>c. n < c \<longrightarrow> c < 8 \<longrightarrow> vexImeGetCount (int c) t = vexImeGetCount (int c) s))"
proof -
  define n where "n = length (on_wire devs s)"
  obtain t where t: "vexIMEFindEncoders lld s = (int (min n 8), t)" "enumerated devs (min n 8) t" "action t = ACTION_POLL"
    "\<forall>j<min n 8. found (map dev_regs (on_wire devs s)) j (imes t ! j)" "n < 8 \<longrightarrow> valid (imes t ! n) = 0"
    "\<forall>c. n < c \<longrightarrow> c < 8 \<longrightarrow> imes t ! c = imes s ! c"
    using find_encoders [OF assms] unfolding n_def by blast
  have id: "uint (0x20 + 2 * of_nat c :: u8) = 0x20 + 2 * int c" if "c < 8" for c
  proof -
    have "\<forall>c\<in>set [0..<8]. uint (0x20 + 2 * of_nat c :: u8) = 0x20 + 2 * int c" by code_simp
    then show ?thesis using that by simp
  qed
  have ch: "\<not> no_channel (int c)" if "c < 8" for c
    using that by (simp add: no_channel_def kImeChannel_8_def word_less_nat_alt unat_of_nat)
  have "vexImeGetId (int c) t = 0x20 + 2 * int c \<and> vexImeGetCount (int c) t = 0 \<and>
      take 8 (deviceid (imes t ! c)) = dev_regs (on_wire devs s ! c) IME_DEVICEID_ADDR" if c: "c < min n 8" for c
    using t(4) c ch [of c] id [of c]
    by (auto simp: vexImeGetId_def vexImeGetCount_def found_def IME_DEVICEID_ADDR_def i32_id Let_def n_def)
  moreover have "n < 8 \<longrightarrow> vexImeGetCount (int n) t = 0" using t(5) by (simp add: vexImeGetCount_def Let_def)
  moreover have "\<forall>c. n < c \<longrightarrow> c < 8 \<longrightarrow> vexImeGetCount (int c) t = vexImeGetCount (int c) s"
    using t(6) by (simp add: vexImeGetCount_def Let_def)
  ultimately show ?thesis using t(1-3) by (auto simp: Let_def n_def vexImeGetChannelMax_def enumerated_def)
qed

lemma wired_heard:
  assumes "k < j" "j \<le> 8" "j \<le> length ds" "\<forall>k<j. dev_addr (ds ! k) = 0x10 + of_nat k"
    and "\<forall>k<j. Suc k < j \<longrightarrow> \<not> dev_term (ds ! k)"
    and "dev_term (ds ! (j - 1)) \<or> (\<forall>i. j \<le> i \<longrightarrow> i < length ds \<longrightarrow> dev_addr (ds ! i) \<noteq> 0x10 + of_nat k)"
  shows "heard ds (0x10 + of_nat k) i \<longleftrightarrow> i = k"
proof
  assume h: "heard ds (0x10 + of_nat k) i"
  have k8: "k < 8" using assms(1,2) by simp
  have hi: "i < length ds" "\<forall>l<i. \<not> dev_term (ds ! l)" "dev_addr (ds ! i) = 0x10 + of_nat k"
    using h small_address(4) [OF k8] by (auto simp: heard_def)
  show "i = k"
  proof (cases "i < j")
    case True
    then have "(0x10 + of_nat i :: u8) = 0x10 + of_nat k" using hi(3) assms(4) by simp
    then show ?thesis using distinct_address [of i k] True assms(2) k8 by simp
  next
    case False
    then show ?thesis using assms(1,6) hi by auto
  qed
next
  assume "i = k"
  then show "heard ds (0x10 + of_nat k) i" using assms(1-5) by (auto simp: heard_def)
qed

lemma enumerated_polling:
  assumes "enumerated devs m s" "0 < m"
  shows "polling devs m m s"
  unfolding polling_def
proof (intro conjI allI impI)
  fix k i assume k: "k < m"
  show "heard (on_wire devs s) (0x10 + of_nat k) i \<longleftrightarrow> i = k"
    using assms k by (intro wired_heard) (auto simp: enumerated_def)
qed (use assms in \<open>auto simp: enumerated_def\<close>)

text \<open>C33: After the search a turn of the thread polls every encoder on its own: it always returns, meets no error, stays in
  polling, and afterwards each channel's position is the counter of its encoder at the moment it was polled, as a 32 bit
  number, less the offset that was set.\<close>

theorem channels_follow_encoders:
  assumes "chain_bus lld devs counter" "enumerated devs m s" "0 < m" "action s = ACTION_POLL"
  shows "\<exists>t. vexImeTask_round lld s = Some t \<and> enumerated devs m t \<and> action t = ACTION_POLL \<and> error_seq t = 0 \<and>
     (\<forall>c<m. \<exists>u. poll_loop lld [0..<c] s = Some u \<and>
        vexImeGetCount (int c) t = i32 (enc_count (counter (wire (i2cp u)) c) - ime_offset (imes s ! c)))"
proof -
  have m: "m \<le> 8" "ime_num s = int m" "\<forall>c<m. valid (imes s ! c) = 1" using assms(2) by (auto simp: enumerated_def)
  have round: "vexImeTask_round lld s = poll_loop lld [0..<m] s"
    using assms(3,4) m by (simp add: vexImeTask_round_def ACTION_POLL_def ACTION_RENEGOTIATE_def)
  obtain t where t: "poll_loop lld [0..<m] s = Some t" "polling devs m m t" "on_wire devs t = on_wire devs s"
    "action t = ACTION_POLL" "m \<noteq> 0 \<longrightarrow> error_seq t = of_nat (m - m)"
    "\<forall>c<min m m. \<exists>u. poll_loop lld [0..<c] s = Some u \<and>
        readings (imes t ! c) = (enc_count (counter (wire (i2cp u)) c), ime_offset (imes s ! c), valid (imes s ! c))"
    using poll_prefix [OF assms(1) enumerated_polling [OF assms(2,3)] assms(3) _ assms(4), of m] by auto
  have "valid (imes t ! c) = 1" if c: "c < m" for c using t(6) m(3) c by (auto simp: readings_def)
  then have "enumerated devs m t" using t(2,3) assms(2) by (auto simp: enumerated_def polling_def)
  moreover have "\<exists>u. poll_loop lld [0..<c] s = Some u \<and>
        vexImeGetCount (int c) t = i32 (enc_count (counter (wire (i2cp u)) c) - ime_offset (imes s ! c))" if c: "c < m" for c
  proof -
    obtain u where "poll_loop lld [0..<c] s = Some u"
      "readings (imes t ! c) = (enc_count (counter (wire (i2cp u)) c), ime_offset (imes s ! c), valid (imes s ! c))"
      using t(6) c by auto
    then show ?thesis using count_readings [of "int c" t] m(1,3) c by simp
  qed
  ultimately show ?thesis using round t(1,4,5) assms(3) by auto
qed

text \<open>
  A chain that was cut behind its first \<open>j\<close> encoders: those still have their addresses and no termination, and what else is
  on the bus (nothing, or encoders that were plugged in again and have the default address) has none of the addresses
  that were given.
\<close>

definition unplugged :: "('w \<Rightarrow> ime_device list) \<Rightarrow> nat \<Rightarrow> nat \<Rightarrow> 'w vexImeData \<Rightarrow> bool" where
  "unplugged devs j m s \<longleftrightarrow> ime_num s = int m \<and> m \<le> 8 \<and> j < m \<and> length (imes s) = 8 \<and>
     (\<forall>k<m. address (imes s ! k) = 0x20 + 2 * of_nat k \<and> 0 < rpm_constant (imes s ! k) \<and> rpm_constant (imes s ! k) \<le> 19600) \<and>
     j \<le> length (on_wire devs s) \<and> (\<forall>k<j. dev_addr (on_wire devs s ! k) = 0x10 + of_nat k \<and> \<not> dev_term (on_wire devs s ! k)) \<and>
     (\<forall>i k. j \<le> i \<longrightarrow> i < length (on_wire devs s) \<longrightarrow> k < m \<longrightarrow> dev_addr (on_wire devs s ! i) \<noteq> 0x10 + of_nat k)"

lemma unplugged_polling:
  assumes "unplugged devs j m s"
  shows "polling devs j m s"
  unfolding polling_def
proof (intro conjI allI impI)
  fix k i assume k: "k < j"
  show "heard (on_wire devs s) (0x10 + of_nat k) i \<longleftrightarrow> i = k"
    using assms k by (intro wired_heard) (auto simp: unplugged_def)
next
  fix k i assume k: "j \<le> k" "k < m"
  have u: "m \<le> 8" "\<forall>k<j. dev_addr (on_wire devs s ! k) = 0x10 + of_nat k"
    "\<forall>i k. j \<le> i \<longrightarrow> i < length (on_wire devs s) \<longrightarrow> k < m \<longrightarrow> dev_addr (on_wire devs s ! i) \<noteq> 0x10 + of_nat k"
    using assms by (auto simp: unplugged_def)
  show "\<not> heard (on_wire devs s) (0x10 + of_nat k) i"
    using u k small_address(4) [of k] distinct_address [of i k] by (cases "i < j") (auto simp: heard_def)
qed (use assms in \<open>auto simp: unplugged_def\<close>)

text \<open>C34: When up to four encoders at the end of the chain are lost while one before them still answers, the errors never
  reach five in a row: after any number of turns the thread has not searched again, an encoder that was plugged in again
  is not found, and the lost channels keep their last position.\<close>

theorem unplugged_encoder_is_not_found:
  assumes "chain_bus lld devs counter" "unplugged devs j m s" "0 < j" "m \<le> j + 4" "action s = ACTION_POLL"
  shows "\<exists>t. ((\<lambda>r. Option.bind r (vexImeTask_round lld)) ^^ rounds) (Some s) = Some t \<and> action t = ACTION_POLL \<and>
     devs (wire (i2cp t)) = devs (wire (i2cp s)) \<and> vexImeGetChannelMax t = int m \<and>
     (\<forall>c. int j \<le> c \<and> c < int m \<longrightarrow> vexImeGetCount c t = vexImeGetCount c s)"
proof -
  have "\<exists>t. ((\<lambda>r. Option.bind r (vexImeTask_round lld)) ^^ rounds) (Some s) = Some t \<and> action t = ACTION_POLL \<and>
     on_wire devs t = on_wire devs s \<and> polling devs j m t \<and> (\<forall>c. j \<le> c \<longrightarrow> readings (imes t ! c) = readings (imes s ! c))"
  proof (induction rounds)
    case 0
    then show ?case using assms(5) unplugged_polling [OF assms(2)] by simp
  next
    case (Suc r)
    then obtain t where t: "((\<lambda>r. Option.bind r (vexImeTask_round lld)) ^^ r) (Some s) = Some t" "action t = ACTION_POLL"
      "on_wire devs t = on_wire devs s" "polling devs j m t" "\<forall>c. j \<le> c \<longrightarrow> readings (imes t ! c) = readings (imes s ! c)" by auto
    have m: "j < m" "ime_num t = int m" using assms(2) t(4) by (auto simp: unplugged_def polling_def)
    have "vexImeTask_round lld t = poll_loop lld [0..<m] t"
      using t(2) m by (simp add: vexImeTask_round_def ACTION_POLL_def ACTION_RENEGOTIATE_def)
    then show ?case using poll_prefix [OF assms(1) t(4) assms(3,4) t(2), of m] t m by auto
  qed
  then obtain t where t: "((\<lambda>r. Option.bind r (vexImeTask_round lld)) ^^ rounds) (Some s) = Some t" "action t = ACTION_POLL"
     "on_wire devs t = on_wire devs s" "polling devs j m t" "\<forall>c. j \<le> c \<longrightarrow> readings (imes t ! c) = readings (imes s ! c)" by blast
  have "vexImeGetCount c t = vexImeGetCount c s" if "int j \<le> c" "c < int m" for c
    using that t(5) assms(2) count_readings [of c t] count_readings [of c s] by (simp add: unplugged_def le_nat_iff)
  then show ?thesis using t by (auto simp: polling_def vexImeGetChannelMax_def)
qed

section \<open>A chain\<close>

text \<open>A bus that behaves so, with identification octets that name their register and counters that stand at 258.\<close>

definition dev_of :: "u8 \<times> bool \<times> bool \<Rightarrow> ime_device" where
  "dev_of x = (case x of (a, t, r) \<Rightarrow> \<lparr>dev_addr = a, dev_term = t, dev_rest = r, dev_regs = (\<lambda>reg. replicate 8 reg)\<rparr>)"

definition chain_devs :: "(u8 \<times> bool \<times> bool) list \<Rightarrow> ime_device list" where
  "chain_devs w = map dev_of w"

definition chain_counter :: "(u8 \<times> bool \<times> bool) list \<Rightarrow> nat \<Rightarrow> octets" where
  "chain_counter w j = [1, 2, 0, 0, 0, 5, 0, 0]"

definition chain_lld :: "(u8 \<times> bool \<times> bool) list i2c_lld" where
  "chain_lld = \<lparr>i2c_lld_start = (\<lambda>w. w), i2c_lld_stop = (\<lambda>w. w),
     i2c_lld_transmit = (\<lambda>a tx n w.
       if list_ex (heard (chain_devs w) a) [0..<length w] then
         (if n = 0 then (RDY_OK, [], 0, map (\<lambda>d. (dev_addr d, dev_term d, dev_rest d)) (told (chain_devs w) a tx))
          else (RDY_OK, if hd tx = 0x40 then chain_counter w 0 else replicate 8 (hd tx), 0, w))
       else (RDY_RESET, [], I2CD_ACK_FAILURE, w)),
     i2c_lld_time = (\<lambda>ms w. w)\<rparr>"

lemma chain_ok: "chain_bus chain_lld chain_devs chain_counter"
proof -
  have lt: "j < length w" if "heard (chain_devs w) a j" for w a j using that by (simp add: heard_def chain_devs_def)
  have ex: "list_ex (heard (chain_devs w) a) [0..<length w] \<longleftrightarrow> (\<exists>j. heard (chain_devs w) a j)" for w a
    by (auto simp: list_ex_iff dest: lt intro!: bexI)
  have conv: "chain_devs (map (\<lambda>d. (dev_addr d, dev_term d, dev_rest d)) (told (chain_devs w) a tx)) = told (chain_devs w) a tx" for w a tx
    by (rule nth_equalityI) (auto simp: chain_devs_def dev_of_def obey_def split: prod.splits)
  have reg: "replicate 8 reg = dev_regs (chain_devs w ! j) reg" if "\<forall>i. heard (chain_devs w) a i = (i = j)" for w a j reg
    using that lt [of w a j] by (auto simp: chain_devs_def dev_of_def split: prod.splits)
  show ?thesis unfolding chain_bus_def
    by (auto simp: chain_lld_def ex conv chain_counter_def intro: reg)
qed

definition sample_ime :: "(u8 \<times> bool \<times> bool) list \<Rightarrow> int \<Rightarrow> (u8 \<times> bool \<times> bool) list vexImeData" where
  "sample_ime w n = \<lparr>i2cp = \<lparr>i2c_state = I2C_READY, i2c_errors = 0, wire = w\<rparr>, ime_num = n, nextAddress = 0, error_lockup = 0,
     error_ack = 0, error_bus = 0, error_arb = 0, error_tim = 0, error_seq = 0, action = ACTION_POLL, ime_debug = 0,
     imes = map (\<lambda>k. \<lparr>address = 0x20 + 2 * of_nat k, ime_type = IME_393S, valid = 1, motor_index = - 1, version = replicate 16 0,
       vendor = replicate 16 0, deviceid = replicate 16 0, enc_data = replicate 16 0, ime_count = 7, ime_offset = 0, velocity = 0,
       delta_count = 0, rpm = 0, old_count = 7, rpm_constant = 12250, data_polls = 0, data_errors = 0\<rparr>) [0..<8],
     last_errors = 0\<rparr>"

lemma sample_imes: "length (imes (sample_ime w n)) = 8" "wire (i2cp (sample_ime w n)) = w" "ime_num (sample_ime w n) = n"
  "action (sample_ime w n) = ACTION_POLL"
  by (simp_all add: sample_ime_def)

lemma sample_encoder:
  "k < 8 \<Longrightarrow> address (imes (sample_ime w n) ! k) = 0x20 + 2 * of_nat k \<and> rpm_constant (imes (sample_ime w n) ! k) = 12250 \<and>
     valid (imes (sample_ime w n) ! k) = 1 \<and> readings (imes (sample_ime w n) ! k) = (7, 0, 1)"
  by (simp add: sample_ime_def readings_def)

text \<open>Two encoders with left-over addresses and one at the default address, where there were four.\<close>

theorem encoders_get_addresses_witness:
  "(let s = sample_ime [(0x11, True, True), (0x10, False, True), (0x30, True, True)] 4; t = snd (vexIMEFindEncoders chain_lld s)
    in vexImeGetChannelMax t = 3 \<and> vexImeGetId 2 t = 0x24 \<and> vexImeGetCount 3 t = 0 \<and> vexImeGetCount 4 t = 7)"
proof -
  define s where "s = sample_ime [(0x11, True, True), (0x10, False, True), (0x30, True, True)] 4"
  have n: "length (chain_devs (wire (i2cp s))) = 3" by (simp add: s_def sample_imes chain_devs_def)
  have c: "vexImeGetCount 4 s = 7"
    using count_readings [of 4 s] sample_encoder [of 4] by (simp add: s_def i32_id)
  obtain r t where t: "vexIMEFindEncoders chain_lld s = (r, t)" by force
  note p = encoders_get_addresses [OF chain_ok, of s, unfolded n t Let_def]
  have "\<forall>c<(3::nat). vexImeGetId (int c) t = 0x20 + 2 * int c" "vexImeGetChannelMax t = 3" "vexImeGetCount (int 3) t = 0"
    "vexImeGetCount (int 4) t = vexImeGetCount (int 4) s"
    using p by (auto simp: s_def sample_imes)
  moreover from this(1) have "vexImeGetId (int 2) t = 0x20 + 2 * int 2" by (rule allE [of _ 2]) simp
  ultimately show ?thesis using t c by (simp add: Let_def flip: s_def)
qed

theorem channels_follow_encoders_witness:
  "\<exists>t. vexImeTask_round chain_lld (sample_ime [(0x10, False, True), (0x11, True, True)] 2) = Some t \<and> vexImeGetCount 1 t = 258"
proof -
  define s where "s = sample_ime [(0x10, False, True), (0x11, True, True)] 2"
  have "enumerated chain_devs 2 s"
    using sample_encoder by (auto simp: enumerated_def s_def sample_imes chain_devs_def dev_of_def less_2_cases_iff)
  from channels_follow_encoders [OF chain_ok this]
  obtain t where t: "vexImeTask_round chain_lld s = Some t"
    "\<forall>c<2. \<exists>u. poll_loop chain_lld [0..<c] s = Some u \<and>
        vexImeGetCount (int c) t = i32 (enc_count (chain_counter (wire (i2cp u)) c) - ime_offset (imes s ! c))"
    by (auto simp: s_def sample_imes)
  have "ime_offset (imes s ! 1) = 0" by (simp add: s_def sample_ime_def)
  moreover have "enc_count (chain_counter w 1) = 258" for w unfolding chain_counter_def by code_simp
  ultimately have "vexImeGetCount (int 1) t = 258" using t(2) [rule_format, of 1] by (auto simp: i32_id)
  then show ?thesis using t(1) by (simp add: s_def)
qed

text \<open>The second of two encoders was plugged in again; it waits at the default address.\<close>

theorem unplugged_encoder_is_not_found_witness:
  "\<exists>t. ((\<lambda>r. Option.bind r (vexImeTask_round chain_lld)) ^^ 1000) (Some (sample_ime [(0x10, False, True), (0x30, True, True)] 2)) = Some t \<and>
     vexImeGetCount 1 t = 7 \<and> action t = ACTION_POLL"
proof -
  define s where "s = sample_ime [(0x10, False, True), (0x30, True, True)] 2"
  have "unplugged chain_devs 1 2 s"
    using sample_encoder by (auto simp: unplugged_def s_def sample_imes chain_devs_def dev_of_def less_2_cases_iff)
  from unplugged_encoder_is_not_found [OF chain_ok this, of 1000]
  obtain t where "((\<lambda>r. Option.bind r (vexImeTask_round chain_lld)) ^^ 1000) (Some s) = Some t"
    "vexImeGetCount 1 t = vexImeGetCount 1 s" "action t = ACTION_POLL"
    by (auto simp: s_def sample_imes)
  moreover have "vexImeGetCount 1 s = 7" using count_readings [of 1 s] sample_encoder [of 1] by (simp add: s_def i32_id)
  ultimately show ?thesis by (auto simp: s_def)
qed

end
