(* ===== verification/VexSonar.thy ===== *)
theory VexSonar
  imports VexDigital
begin

text \<open>
  The ultrasonic sensors of ConVEX, \<open>src/convex/cortex/fw/vexsonar.c\<close>, with the one-shot timer they use
  (\<open>ChibiOS_2.6.2/os/hal/src/gpt.c\<close> and \<open>gpt_lld.c\<close> of the platform). A polling task pings the sensors one after
  the other; the timer interrupt ends the trigger pulse and bounds the wait, and the interrupt of the echo pin
  takes the two time stamps. One tick of the timer is a microsecond, and its interrupt is served before the next.
\<close>

section \<open>The timer\<close>

datatype gptstate_t = GPT_STOP | GPT_READY | GPT_CONTINUOUS | GPT_ONESHOT

record gpt_driver =
  gpt_state :: gptstate_t
  CNT :: nat
  ARR :: nat
  CEN :: bool

definition gpt_lld_start_timer :: "nat \<Rightarrow> gpt_driver \<Rightarrow> gpt_driver" where
  "gpt_lld_start_timer interval g = g\<lparr>ARR := interval - 1, CNT := 0, CEN := True\<rparr>"

definition gpt_lld_stop_timer :: "gpt_driver \<Rightarrow> gpt_driver" where
  "gpt_lld_stop_timer g = g\<lparr>CEN := False\<rparr>"

definition gptStart :: "gpt_driver \<Rightarrow> gpt_driver" where
  "gptStart g = (if gpt_state g = GPT_STOP then g\<lparr>CNT := 0\<rparr> else g)\<lparr>CEN := False, gpt_state := GPT_READY\<rparr>"

definition gptStartOneShotI :: "nat \<Rightarrow> gpt_driver \<Rightarrow> gpt_driver" where
  "gptStartOneShotI interval g = gpt_lld_start_timer interval (g\<lparr>gpt_state := GPT_ONESHOT\<rparr>)"

definition gptStartOneShot :: "nat \<Rightarrow> gpt_driver \<Rightarrow> gpt_driver" where
  "gptStartOneShot interval g = gptStartOneShotI interval g"

text \<open>What the interrupt handler does before it calls the callback.\<close>

definition gpt_lld_serve_interrupt :: "gpt_driver \<Rightarrow> gpt_driver" where
  "gpt_lld_serve_interrupt g =
     (if gpt_state g = GPT_ONESHOT then gpt_lld_stop_timer (g\<lparr>gpt_state := GPT_READY\<rparr>) else g)"

section \<open>Data\<close>

definition kVexSonar_Num :: nat where "kVexSonar_Num = 5"

definition SONAR_ENABLED :: u16 where "SONAR_ENABLED = 1"
definition SONAR_INSTALLED :: u16 where "SONAR_INSTALLED = 2"
definition SONAR_TIMEOUT :: nat where "SONAR_TIMEOUT = 40000"

lemmas sonar_consts = kVexSonar_Num_def SONAR_ENABLED_def SONAR_INSTALLED_def SONAR_TIMEOUT_def

datatype tVexSonnarState = kSonarStatePing | kSonarStateWait | kSonarStateDone | kSonarStateError

record vexSonar_t =
  time_r :: u16
  time_f :: u16
  sonar_time :: int
  distance_cm :: int
  distance_inch :: int
  sonar_flags :: u16
  sonar_pa :: int
  sonar_pb :: int
  sonar_pa_pad :: pad
  sonar_pb_pad :: pad

record sonar_state =
  vexSonars :: "vexSonar_t list"
  nextSonar :: nat
  nextState :: tVexSonnarState
  sonarGpt :: gpt_driver
  vexSonarThread :: bool
  pins :: digital_state

abbreviation current :: "sonar_state \<Rightarrow> vexSonar_t" where
  "current s \<equiv> vexSonars s ! nextSonar s"

definition sonar_update :: "nat \<Rightarrow> (vexSonar_t \<Rightarrow> vexSonar_t) \<Rightarrow> sonar_state \<Rightarrow> sonar_state" where
  "sonar_update c f s = s\<lparr>vexSonars := (vexSonars s)[c := f (vexSonars s ! c)]\<rparr>"

definition sonar_ready :: "vexSonar_t \<Rightarrow> bool" where
  "sonar_ready v \<longleftrightarrow> sonar_flags v = (SONAR_INSTALLED OR SONAR_ENABLED)"

section \<open>Interrupts\<close>

definition vs_gpt_cb :: "sonar_state \<Rightarrow> sonar_state option" where
  "vs_gpt_cb s =
     (if nextState s = kSonarStatePing then do {
        let s = s\<lparr>nextState := kSonarStateWait\<rparr>;
        d \<leftarrow> vexDigitalPinSet (sonar_pa (current s)) kVexDigitalLow (pins s);
        Some (s\<lparr>pins := d, sonarGpt := gptStartOneShotI SONAR_TIMEOUT (sonarGpt s)\<rparr>)
      }
      else if nextState s = kSonarStateWait then
        Some ((sonar_update (nextSonar s) (\<lambda>v. v\<lparr>time_r := 0, time_f := of_nat SONAR_TIMEOUT\<rparr>) s)
              \<lparr>nextState := kSonarStateError\<rparr>)
      else Some s)"

text \<open>Both edges of any echo pin come here; the pin read is that of the sensor whose turn it is.\<close>

definition vs_echo_cb :: "(pad \<Rightarrow> bool) \<Rightarrow> sonar_state \<Rightarrow> sonar_state" where
  "vs_echo_cb level s =
     (if level (sonar_pb_pad (current s)) then
        sonar_update (nextSonar s) (\<lambda>v. v\<lparr>time_r := of_nat (CNT (sonarGpt s))\<rparr>) s
      else
        (sonar_update (nextSonar s) (\<lambda>v. v\<lparr>time_f := of_nat (CNT (sonarGpt s))\<rparr>) s)\<lparr>nextState := kSonarStateDone\<rparr>)"

text \<open>The hardware: the counter overflows into 0 and raises the interrupt.\<close>

definition gpt_tick :: "sonar_state \<Rightarrow> sonar_state option" where
  "gpt_tick s =
     (let g = sonarGpt s
      in if \<not> CEN g then Some s
         else if CNT g = ARR g then vs_gpt_cb (s\<lparr>sonarGpt := gpt_lld_serve_interrupt (g\<lparr>CNT := 0\<rparr>)\<rparr>)
         else Some (s\<lparr>sonarGpt := g\<lparr>CNT := Suc (CNT g)\<rparr>\<rparr>))"

datatype sonar_event = Tick | Echo "pad \<Rightarrow> bool"

fun sonar_events :: "sonar_event list \<Rightarrow> sonar_state \<Rightarrow> sonar_state option" where
  "sonar_events [] s = Some s"
| "sonar_events (Tick # es) s = do { s \<leftarrow> gpt_tick s; sonar_events es s }"
| "sonar_events (Echo level # es) s = sonar_events es (vs_echo_cb level s)"

section \<open>Operations\<close>

definition vexSonarAdd :: "nat \<Rightarrow> int \<Rightarrow> int \<Rightarrow> sonar_state \<Rightarrow> sonar_state option" where
  "vexSonarAdd channel a b s =
     (if channel \<ge> kVexSonar_Num then Some s
      else if a > int kVexDigital_12 then Some s
      else if b > int kVexDigital_12 then Some s
      else do {
        d \<leftarrow> vexDigitalModeSet a kVexDigitalOutput (pins s);
        let s = sonar_update channel (\<lambda>v. v\<lparr>sonar_pa := a, sonar_pa_pad := io_pad (ios d ! nat a)\<rparr>) s;
        d \<leftarrow> vexDigitalModeSet b kVexDigitalInput d;
        let q = io_pad (ios d ! nat b);
        let s = sonar_update channel (\<lambda>v. v\<lparr>sonar_pb := b, sonar_pb_pad := q\<rparr>) s;
        d \<leftarrow> vexExtSet (fst q) (snd q) EXT_CH_MODE_BOTH_EDGES Vs_echo_cb d;
        Some ((sonar_update channel (\<lambda>v. v\<lparr>sonar_flags := SONAR_INSTALLED OR SONAR_ENABLED\<rparr>) s)\<lparr>pins := d\<rparr>)
      })"

definition vexSonarStart :: "nat \<Rightarrow> sonar_state \<Rightarrow> sonar_state option" where
  "vexSonarStart channel s =
     (if channel < length (vexSonars s) then
        Some (if sonar_flags (vexSonars s ! channel) AND SONAR_ENABLED \<noteq> 0
              then s\<lparr>pins := extChannelEnable (snd (sonar_pb_pad (vexSonars s ! channel))) (pins s)\<rparr> else s)
      else None)"

definition vexSonarStop :: "nat \<Rightarrow> sonar_state \<Rightarrow> sonar_state option" where
  "vexSonarStop channel s =
     (if channel < length (vexSonars s) then
        Some (if sonar_flags (vexSonars s ! channel) AND SONAR_ENABLED \<noteq> 0
              then s\<lparr>pins := extChannelDisable (snd (sonar_pb_pad (vexSonars s ! channel))) (pins s)\<rparr> else s)
      else None)"

fun start_sonars :: "nat list \<Rightarrow> sonar_state \<Rightarrow> sonar_state option" where
  "start_sonars [] s = Some s"
| "start_sonars (c # cs) s = do { s \<leftarrow> vexSonarStart c s; start_sonars cs s }"

definition vexSonarStartAll :: "sonar_state \<Rightarrow> sonar_state option" where
  "vexSonarStartAll s = start_sonars [0..<kVexSonar_Num] s"

text \<open>The task starts its timer when it begins to run.\<close>

definition vexSonarRun :: "sonar_state \<Rightarrow> sonar_state" where
  "vexSonarRun s =
     (if vexSonarThread s then s
      else if \<exists>v\<in>set (take kVexSonar_Num (vexSonars s)). sonar_flags v AND SONAR_INSTALLED \<noteq> 0
           then s\<lparr>vexSonarThread := True\<rparr> else s)"

definition vexSonarPing :: "nat \<Rightarrow> sonar_state \<Rightarrow> sonar_state option" where
  "vexSonarPing channel s =
     (if sonar_ready (vexSonars s ! channel) then do {
        d \<leftarrow> vexDigitalPinSet (sonar_pa (vexSonars s ! channel)) kVexDigitalHigh (pins s);
        Some (s\<lparr>pins := d, nextState := kSonarStatePing, sonarGpt := gptStartOneShot 10 (sonarGpt s)\<rparr>)
      }
      else Some s)"

definition vexSonarGetCm :: "nat \<Rightarrow> sonar_state \<Rightarrow> int" where
  "vexSonarGetCm channel s =
     (if sonar_flags (vexSonars s ! channel) AND SONAR_INSTALLED \<noteq> 0 then distance_cm (vexSonars s ! channel) else - 1)"

definition vexSonarGetInch :: "nat \<Rightarrow> sonar_state \<Rightarrow> int" where
  "vexSonarGetInch channel s =
     (if sonar_flags (vexSonars s ! channel) AND SONAR_INSTALLED \<noteq> 0 then distance_inch (vexSonars s ! channel) else - 1)"

section \<open>The polling task\<close>

definition echo_distance :: "vexSonar_t \<Rightarrow> vexSonar_t" where
  "echo_distance v =
     (let t = uint (time_f v) - uint (time_r v);
          t = (if t > 35000 then - 1 else t);
          v = v\<lparr>sonar_time := t\<rparr>
      in if t \<noteq> - 1 then v\<lparr>distance_cm := i16 (cdiv t 58), distance_inch := i16 (cdiv t 148)\<rparr>
         else v\<lparr>distance_cm := - 1, distance_inch := - 1\<rparr>)"

text \<open>The search for the next sensor looks at each of the five once.\<close>

fun find_next :: "nat \<Rightarrow> vexSonar_t list \<Rightarrow> nat \<Rightarrow> nat" where
  "find_next 0 vs n = n"
| "find_next (Suc k) vs n =
     (let n = (if Suc n = kVexSonar_Num then 0 else Suc n)
      in if sonar_ready (vs ! n) then n else find_next k vs n)"

definition sonar_finish :: "sonar_state \<Rightarrow> sonar_state" where
  "sonar_finish s =
     (let s = sonar_update (nextSonar s) echo_distance s
      in s\<lparr>nextSonar := find_next kVexSonar_Num (vexSonars s) (nextSonar s)\<rparr>)"

definition VexSonarTask_start :: "sonar_state \<Rightarrow> sonar_state" where
  "VexSonarTask_start s = s\<lparr>sonarGpt := gptStart (sonarGpt s)\<rparr>"

text \<open>One round of the task; \<open>events\<close> is what happens while it sleeps.\<close>

definition VexSonarTask_round :: "sonar_event list \<Rightarrow> sonar_state \<Rightarrow> sonar_state option" where
  "VexSonarTask_round events s =
     (if sonar_ready (current s) then do {
        s \<leftarrow> vexSonarPing (nextSonar s) s;
        s \<leftarrow> sonar_events events s;
        Some (sonar_finish s)
      }
      else sonar_events events s)"

fun VexSonarTask :: "sonar_event list list \<Rightarrow> sonar_state \<Rightarrow> sonar_state option" where
  "VexSonarTask [] s = Some s"
| "VexSonarTask (events # rest) s = do { s \<leftarrow> VexSonarTask_round events s; VexSonarTask rest s }"


section \<open>Lemmas\<close>

declare split_paired_Ex [simp del] split_paired_All [simp del]

lemma events_append: "sonar_events (xs @ ys) s = Option.bind (sonar_events xs s) (sonar_events ys)"
proof (induction xs arbitrary: s)
  case (Cons x xs)
  then show ?case by (cases x) (simp_all split: Option.bind_splits)
qed simp

lemma ticks_run:
  assumes "CEN (sonarGpt s)" "CNT (sonarGpt s) + n \<le> ARR (sonarGpt s)"
  shows "sonar_events (replicate n Tick) s = Some (s\<lparr>sonarGpt := (sonarGpt s)\<lparr>CNT := CNT (sonarGpt s) + n\<rparr>\<rparr>)"
  using assms
proof (induction n arbitrary: s)
  case (Suc n)
  let ?s = "s\<lparr>sonarGpt := (sonarGpt s)\<lparr>CNT := Suc (CNT (sonarGpt s))\<rparr>\<rparr>"
  have "gpt_tick s = Some ?s" using Suc.prems by (simp add: gpt_tick_def Let_def)
  moreover have "sonar_events (replicate n Tick) ?s = Some (?s\<lparr>sonarGpt := (sonarGpt ?s)\<lparr>CNT := CNT (sonarGpt ?s) + n\<rparr>\<rparr>)"
    by (rule Suc.IH) (use Suc.prems in simp_all)
  ultimately show ?case by simp
qed simp

lemma ticks_stopped: "\<not> CEN (sonarGpt s) \<Longrightarrow> sonar_events (replicate n Tick) s = Some s"
  by (induction n) (simp_all add: gpt_tick_def Let_def)

text \<open>The one-shot timer runs out after \<open>ARR + 1\<close> ticks, and its callback runs.\<close>

lemma ticks_expire:
  assumes "CEN (sonarGpt s)" "CNT (sonarGpt s) + n = Suc (ARR (sonarGpt s))" "0 < n" "gpt_state (sonarGpt s) = GPT_ONESHOT"
  shows "sonar_events (replicate n Tick) s
     = vs_gpt_cb (s\<lparr>sonarGpt := (sonarGpt s)\<lparr>CNT := 0, gpt_state := GPT_READY, CEN := False\<rparr>\<rparr>)"
proof -
  obtain m where m: "n = Suc m" using assms(3) by (cases n) auto
  have "replicate n Tick = replicate m Tick @ [Tick]" unfolding m by (simp add: replicate_append_same)
  moreover have "sonar_events (replicate m Tick) s
      = Some (s\<lparr>sonarGpt := (sonarGpt s)\<lparr>CNT := ARR (sonarGpt s)\<rparr>\<rparr>)"
    using ticks_run [of s m] assms m by simp
  ultimately show ?thesis using assms
    by (auto simp: events_append gpt_tick_def Let_def gpt_lld_serve_interrupt_def gpt_lld_stop_timer_def split: Option.bind_splits)
qed

text \<open>The two phases of a slot: waiting with a running timer, and past the timeout.\<close>

definition waiting :: "nat \<Rightarrow> tVexSonnarState \<Rightarrow> sonar_state \<Rightarrow> sonar_state" where
  "waiting k st s = s\<lparr>nextState := st, sonarGpt := \<lparr>gpt_state = GPT_ONESHOT, CNT = k, ARR = 39999, CEN = True\<rparr>\<rparr>"

definition expired :: "tVexSonnarState \<Rightarrow> sonar_state \<Rightarrow> sonar_state" where
  "expired st s = s\<lparr>nextState := st, sonarGpt := \<lparr>gpt_state = GPT_READY, CNT = 0, ARR = 39999, CEN = False\<rparr>\<rparr>"

lemma ticks_waiting:
  assumes "k + n < 40000"
  shows "sonar_events (replicate n Tick) (waiting k st s) = Some (waiting (k + n) st s)"
  using ticks_run [of "waiting k st s" n] assms by (simp add: waiting_def)

lemma ticks_timeout:
  assumes "k < 40000" "40000 \<le> k + n"
  shows "sonar_events (replicate n Tick) (waiting k kSonarStateWait s)
     = Some (expired kSonarStateError (sonar_update (nextSonar s) (\<lambda>v. v\<lparr>time_r := 0, time_f := of_nat SONAR_TIMEOUT\<rparr>) s))"
proof -
  obtain m where m: "n = (40000 - k) + m" using assms by (metis add.commute le_add_diff_inverse2 le_diff_conv)
  have "sonar_events (replicate (40000 - k) Tick) (waiting k kSonarStateWait s)
     = Some (expired kSonarStateError (sonar_update (nextSonar s) (\<lambda>v. v\<lparr>time_r := 0, time_f := of_nat SONAR_TIMEOUT\<rparr>) s))"
    (is "_ = Some ?e")
    using ticks_expire [of "waiting k kSonarStateWait s" "40000 - k"] assms(1)
    by (simp add: waiting_def expired_def vs_gpt_cb_def sonar_update_def)
  moreover have "sonar_events (replicate m Tick) ?e = Some ?e" by (rule ticks_stopped) (simp add: expired_def)
  ultimately show ?thesis unfolding m replicate_add by (simp add: events_append)
qed

lemma ticks_done:
  assumes "k < 40000"
  shows "sonar_events (replicate n Tick) (waiting k kSonarStateDone s)
     = Some (if k + n < 40000 then waiting (k + n) kSonarStateDone s else expired kSonarStateDone s)"
proof (cases "k + n < 40000")
  case True
  then show ?thesis by (simp add: ticks_waiting)
next
  case False
  then obtain m where m: "n = (40000 - k) + m" using assms by (metis add.commute le_add_diff_inverse2 le_diff_conv not_less)
  have "sonar_events (replicate (40000 - k) Tick) (waiting k kSonarStateDone s) = Some (expired kSonarStateDone s)"
    using ticks_expire [of "waiting k kSonarStateDone s" "40000 - k"] assms
    by (simp add: waiting_def expired_def vs_gpt_cb_def)
  moreover have "sonar_events (replicate m Tick) (expired kSonarStateDone s) = Some (expired kSonarStateDone s)"
    by (rule ticks_stopped) (simp add: expired_def)
  ultimately show ?thesis using False unfolding m replicate_add by (simp add: events_append)
qed


lemma ping_ticks:
  assumes "sonar_ready (current s)" "pin_ok (sonar_pa (current s)) (pins s)" "sonar_pa (current s) \<le> int kVexDigital_12"
    and "10 \<le> a"
  shows "\<exists>d. Option.bind (vexSonarPing (nextSonar s) s) (sonar_events (replicate a Tick))
     = (if a < 40010 then Some (waiting (a - 10) kSonarStateWait (s\<lparr>pins := d\<rparr>))
        else Some (expired kSonarStateError (sonar_update (nextSonar s)
          (\<lambda>v. v\<lparr>time_r := 0, time_f := of_nat SONAR_TIMEOUT\<rparr>) (s\<lparr>pins := d\<rparr>))))"
proof -
  let ?q = "io_pad (ios (pins s) ! nat (sonar_pa (current s)))"
  let ?d = "palClearPad ?q (palSetPad ?q (pins s))"
  let ?s = "s\<lparr>pins := palSetPad ?q (pins s), nextState := kSonarStatePing, sonarGpt := gptStartOneShot 10 (sonarGpt s)\<rparr>"
  have a: "replicate a (Tick) = replicate 10 Tick @ replicate (a - 10) Tick"
    using assms(4) by (metis le_add_diff_inverse replicate_add)
  have "vexSonarPing (nextSonar s) s = Some ?s"
    using assms by (simp add: vexSonarPing_def vexDigitalPinSet_def)
  moreover have "sonar_events (replicate 10 Tick) ?s = Some (waiting 0 kSonarStateWait (s\<lparr>pins := ?d\<rparr>))"
    using ticks_expire [of ?s 10] assms(2,3)
    by (simp add: gptStartOneShot_def gptStartOneShotI_def gpt_lld_start_timer_def vs_gpt_cb_def Let_def
      vexDigitalPinSet_def pin_ok_def palSetPad_def waiting_def sonar_consts)
  ultimately have e: "Option.bind (vexSonarPing (nextSonar s) s) (sonar_events (replicate a Tick))
      = sonar_events (replicate (a - 10) Tick) (waiting 0 kSonarStateWait (s\<lparr>pins := ?d\<rparr>))"
    unfolding a by (simp add: events_append)
  show ?thesis
  proof (cases "a < 40010")
    case True
    then show ?thesis using e ticks_waiting [of 0 "a - 10" kSonarStateWait "s\<lparr>pins := ?d\<rparr>"] assms(4) by auto
  next
    case False
    then show ?thesis using e ticks_timeout [of 0 "a - 10" "s\<lparr>pins := ?d\<rparr>"] by auto
  qed
qed


lemma echo_up:
  assumes "level (sonar_pb_pad (current s))"
  shows "vs_echo_cb level (waiting k st s) = waiting k st (sonar_update (nextSonar s) (\<lambda>v. v\<lparr>time_r := of_nat k\<rparr>) s)"
  using assms by (simp add: vs_echo_cb_def waiting_def sonar_update_def)

lemma echo_down:
  assumes "\<not> level (sonar_pb_pad (current s))"
  shows "vs_echo_cb level (waiting k st s)
      = waiting k kSonarStateDone (sonar_update (nextSonar s) (\<lambda>v. v\<lparr>time_f := of_nat k\<rparr>) s)"
    and "vs_echo_cb level (expired st s)
      = expired kSonarStateDone (sonar_update (nextSonar s) (\<lambda>v. v\<lparr>time_f := 0\<rparr>) s)"
  using assms by (simp_all add: vs_echo_cb_def waiting_def expired_def sonar_update_def)

lemma core_sonar:
  "vexSonars (waiting k st s) = vexSonars s" "nextSonar (waiting k st s) = nextSonar s"
  "vexSonars (expired st s) = vexSonars s" "nextSonar (expired st s) = nextSonar s"
  "nextSonar (sonar_update c f s) = nextSonar s" "vexSonars (sonar_update c f s) = (vexSonars s)[c := f (vexSonars s ! c)]"
  by (simp_all add: waiting_def expired_def sonar_update_def)

text \<open>What the sensor of the slot reports when the slot ends with the given time stamps.\<close>

lemma finish_reports:
  assumes "nextSonar s = c" "c < length (vexSonars s)" "sonar_flags (vexSonars s ! c) AND SONAR_INSTALLED \<noteq> 0"
    and "uint (time_f (vexSonars s ! c)) - uint (time_r (vexSonars s ! c)) = int b"
  shows "vexSonarGetCm c (sonar_finish s) = (if b \<le> 35000 then int (b div 58) else - 1)"
    and "vexSonarGetInch c (sonar_finish s) = (if b \<le> 35000 then int (b div 148) else - 1)"
    and "k \<noteq> c \<Longrightarrow> vexSonars (sonar_finish s) ! k = vexSonars s ! k"
proof -
  have "b div 58 \<le> 32767" "b div 148 \<le> 32767" if "b \<le> 35000" using that by auto
  then have i: "i16 (cdiv (int b) 58) = int (b div 58)" "i16 (cdiv (int b) 148) = int (b div 148)" if "b \<le> 35000"
    using that by (auto simp: cdiv_def i16_id zdiv_int sgn_if)
  show "vexSonarGetCm c (sonar_finish s) = (if b \<le> 35000 then int (b div 58) else - 1)"
    "vexSonarGetInch c (sonar_finish s) = (if b \<le> 35000 then int (b div 148) else - 1)"
    "k \<noteq> c \<Longrightarrow> vexSonars (sonar_finish s) ! k = vexSonars s ! k"
    using assms i by (auto simp: vexSonarGetCm_def vexSonarGetInch_def sonar_finish_def sonar_update_def echo_distance_def Let_def)
qed

text \<open>The rest of a slot, from the rising edge on.\<close>

lemma pulse_events:
  assumes "nextSonar s = c" "c < length (vexSonars s)" "\<not> down (sonar_pb_pad (vexSonars s ! c))" "k < 40000"
    and "time_r (vexSonars s ! c) = of_nat k"
  shows "\<exists>fin v. sonar_events (replicate b Tick @ [Echo down] @ replicate d Tick) (waiting k kSonarStateWait s) = Some fin \<and>
      vexSonars fin = (vexSonars s)[c := v] \<and> nextSonar fin = c \<and> sonar_flags v = sonar_flags (vexSonars s ! c) \<and>
      uint (time_f v) - uint (time_r v) = int (if k + b < 40000 then b else 0)"
proof (cases "k + b < 40000")
  case True
  let ?v = "(vexSonars s ! c)\<lparr>time_f := of_nat (k + b)\<rparr>"
  let ?s = "sonar_update c (\<lambda>v. v\<lparr>time_f := of_nat (k + b)\<rparr>) s"
  have u16: "uint (of_nat m :: u16) = int m" if "m < 65536" for m
    using that by (simp add: uint_nat take_bit_nat_eq_self unat_of_nat)
  have "sonar_events (replicate b Tick @ [Echo down] @ replicate d Tick) (waiting k kSonarStateWait s)
      = sonar_events (replicate d Tick) (waiting (k + b) kSonarStateDone ?s)"
    using ticks_waiting [OF True, of kSonarStateWait s] echo_down(1) [of down s "k + b" kSonarStateWait] assms(1,3)
    by (simp add: events_append)
  moreover obtain fin where "sonar_events (replicate d Tick) (waiting (k + b) kSonarStateDone ?s) = Some fin"
      "vexSonars fin = (vexSonars s)[c := ?v]" "nextSonar fin = c"
    using ticks_done [OF True, of d ?s] assms(1) by (cases "k + b + d < 40000") (simp_all add: core_sonar)
  moreover have "uint (time_f ?v) - uint (time_r ?v) = int b"
    using True assms(4,5) u16 [of k] u16 [of "k + b"] by simp
  ultimately show ?thesis using True by (intro exI [of _ fin] exI [of _ ?v]) simp
next
  case False
  let ?v = "(vexSonars s ! c)\<lparr>time_r := 0, time_f := 0\<rparr>"
  let ?e = "sonar_update c (\<lambda>v. v\<lparr>time_r := 0, time_f := of_nat SONAR_TIMEOUT\<rparr>) s"
  let ?s = "sonar_update c (\<lambda>v. v\<lparr>time_f := 0\<rparr>) ?e"
  have "sonar_events (replicate b Tick @ [Echo down] @ replicate d Tick) (waiting k kSonarStateWait s)
      = sonar_events (replicate d Tick) (expired kSonarStateDone ?s)"
    using ticks_timeout [OF assms(4), of b s] False echo_down(2) [of down ?e kSonarStateError] assms(1,2,3)
    by (simp add: events_append core_sonar)
  also have "\<dots> = Some (expired kSonarStateDone ?s)" by (rule ticks_stopped) (simp add: expired_def)
  finally show ?thesis using False assms(1,2)
    by (intro exI [of _ "expired kSonarStateDone ?s"] exI [of _ ?v]) (simp add: core_sonar)
qed



section \<open>Whose turn it is\<close>

definition sonar_inv :: "sonar_state \<Rightarrow> bool" where
  "sonar_inv s \<longleftrightarrow> length (vexSonars s) = 5 \<and> nextSonar s < 5 \<and> length (ios (pins s)) = 12 \<and>
     (\<forall>c<5. 0 \<le> sonar_pa (vexSonars s ! c) \<and> sonar_pa (vexSonars s ! c) < 12)"

definition same_turns :: "sonar_state \<Rightarrow> sonar_state \<Rightarrow> bool" where
  "same_turns s t \<longleftrightarrow> sonar_inv t \<and> map sonar_flags (vexSonars t) = map sonar_flags (vexSonars s)"

lemma same_turnsI: "sonar_inv s \<Longrightarrow> vexSonars t = (vexSonars s)[c := v] \<Longrightarrow> nextSonar t < 5 \<Longrightarrow> length (ios (pins t)) = 12 \<Longrightarrow>
    sonar_flags v = sonar_flags (vexSonars s ! c) \<Longrightarrow> sonar_pa v = sonar_pa (vexSonars s ! c) \<Longrightarrow> same_turns s t"
proof -
  assume a: "sonar_inv s" "vexSonars t = (vexSonars s)[c := v]" "nextSonar t < 5" "length (ios (pins t)) = 12"
    "sonar_flags v = sonar_flags (vexSonars s ! c)" "sonar_pa v = sonar_pa (vexSonars s ! c)"
  have "map sonar_flags (vexSonars t) = (map sonar_flags (vexSonars s))[c := sonar_flags (vexSonars s ! c)]"
    by (simp only: a map_update)
  also have "\<dots> = map sonar_flags (vexSonars s)"
    by (cases "c < length (vexSonars s)") (simp_all add: list_update_same_conv list_update_beyond)
  finally show ?thesis using a(1,3,4,6) unfolding same_turns_def sonar_inv_def a(2)
    by (cases "c < 5") (auto simp: nth_list_update list_update_beyond)
qed

lemma same_turns_refl: "sonar_inv s \<Longrightarrow> same_turns s s"
  by (simp add: same_turns_def)

lemma same_turns_trans: "same_turns s t \<Longrightarrow> same_turns t u \<Longrightarrow> same_turns s u"
  by (simp add: same_turns_def)

lemma PinSet_inv: "sonar_inv s \<Longrightarrow> \<exists>d. vexDigitalPinSet (sonar_pa (current s)) v (pins s) = Some d \<and> length (ios d) = 12"
  by (auto simp: sonar_inv_def vexDigitalPinSet_def pin_ok_def palSetPad_def palClearPad_def)

lemma tick_turns:
  assumes "sonar_inv s"
  shows "\<exists>t. gpt_tick s = Some t \<and> same_turns s t \<and> nextSonar t = nextSonar s"
proof -
  have upd: "same_turns s t" if "vexSonars t = vexSonars s" "nextSonar t = nextSonar s" "length (ios (pins t)) = 12" for t
    using same_turnsI [OF assms, of t 0 "vexSonars s ! 0"] that assms by (simp add: sonar_inv_def)
  have "\<exists>t. vs_gpt_cb (s\<lparr>sonarGpt := g\<rparr>) = Some t \<and> same_turns s t \<and> nextSonar t = nextSonar s" for g
  proof (cases "nextState s")
    case kSonarStatePing
    then show ?thesis using PinSet_inv [OF assms, of kVexDigitalLow] upd by (auto simp: vs_gpt_cb_def Let_def)
  next
    case kSonarStateWait
    then show ?thesis using assms
      by (auto simp: vs_gpt_cb_def sonar_update_def sonar_inv_def intro!: same_turnsI [OF assms])
  qed (use upd assms in \<open>simp_all add: vs_gpt_cb_def sonar_inv_def\<close>)
  then show ?thesis using upd assms by (simp add: gpt_tick_def Let_def sonar_inv_def)
qed

lemma events_turns: "sonar_inv s \<Longrightarrow> \<exists>t. sonar_events es s = Some t \<and> same_turns s t \<and> nextSonar t = nextSonar s"
proof (induction es arbitrary: s)
  case Nil
  then show ?case by (simp add: same_turns_refl)
next
  case (Cons e es)
  obtain u where u: "sonar_events (e # es) s = sonar_events es u" "same_turns s u" "nextSonar u = nextSonar s"
  proof (cases e)
    case Tick
    then show ?thesis using tick_turns [OF Cons.prems] that by auto
  next
    case (Echo level)
    have "same_turns s (vs_echo_cb level s)" using Cons.prems
      by (auto simp: vs_echo_cb_def sonar_update_def sonar_inv_def intro!: same_turnsI [OF Cons.prems])
    moreover have "nextSonar (vs_echo_cb level s) = nextSonar s" by (simp add: vs_echo_cb_def sonar_update_def)
    ultimately show ?thesis using that Echo by simp
  qed
  then have "sonar_inv u" by (simp add: same_turns_def)
  then show ?case using Cons.IH [of u] u same_turns_trans by fastforce
qed

definition next_turn :: "vexSonar_t list \<Rightarrow> nat \<Rightarrow> nat" where
  "next_turn vs n = (if sonar_ready (vs ! n) then find_next 5 vs n else n)"

lemma find_next_less: "n < 5 \<Longrightarrow> find_next k vs n < 5"
  by (induction k arbitrary: n) (simp_all add: Let_def sonar_consts)

lemma find_next_cong: "length vs = 5 \<Longrightarrow> map sonar_flags vs = map sonar_flags ws \<Longrightarrow> n < 5 \<Longrightarrow> find_next k vs n = find_next k ws n"
proof (induction k arbitrary: n)
  case (Suc k)
  have "length ws = 5" using Suc.prems by (metis length_map)
  then have "sonar_ready (vs ! i) = sonar_ready (ws ! i)" if "i < 5" for i
    using Suc.prems that nth_map [of i vs sonar_flags] nth_map [of i ws sonar_flags] by (simp add: sonar_ready_def)
  then show ?case using Suc by (simp add: Let_def sonar_consts)
qed simp

lemma round_turns:
  assumes "sonar_inv s"
  shows "\<exists>t. VexSonarTask_round es s = Some t \<and> same_turns s t \<and> nextSonar t = next_turn (vexSonars s) (nextSonar s)"
proof (cases "sonar_ready (current s)")
  case False
  then show ?thesis using events_turns [OF assms] by (simp add: VexSonarTask_round_def next_turn_def)
next
  case True
  obtain p where p: "vexSonarPing (nextSonar s) s = Some p" "same_turns s p" "nextSonar p = nextSonar s"
    using PinSet_inv [OF assms, of kVexDigitalHigh] True same_turnsI [OF assms, of _ 0 "vexSonars s ! 0"] assms
    by (auto simp: vexSonarPing_def sonar_inv_def)
  obtain u where u: "sonar_events es p = Some u" "same_turns p u" "nextSonar u = nextSonar p"
    using events_turns [of p] p(2) by (auto simp: same_turns_def)
  let ?v = "sonar_update (nextSonar u) echo_distance u"
  have v: "same_turns u ?v" using u(2)
    by (intro same_turnsI [of u _ "nextSonar u" "echo_distance (current u)"])
       (auto simp: same_turns_def sonar_inv_def sonar_update_def echo_distance_def Let_def)
  have "same_turns s ?v" using p(2) u(2) v same_turns_trans by blast
  then have f: "find_next 5 (vexSonars ?v) (nextSonar s) = find_next 5 (vexSonars s) (nextSonar s)"
    using assms by (intro find_next_cong) (auto simp: same_turns_def sonar_inv_def)
  have "sonar_finish u = ?v\<lparr>nextSonar := find_next 5 (vexSonars s) (nextSonar s)\<rparr>"
    using f u(3) p(3) by (simp add: sonar_finish_def Let_def core_sonar sonar_consts)
  moreover have "same_turns s (?v\<lparr>nextSonar := find_next 5 (vexSonars s) (nextSonar s)\<rparr>)"
    using \<open>same_turns s ?v\<close> find_next_less [of "nextSonar s"] assms by (simp add: same_turns_def sonar_inv_def)
  ultimately show ?thesis using True p(1) u(1) by (simp add: VexSonarTask_round_def next_turn_def)
qed


fun turn_after :: "vexSonar_t list \<Rightarrow> nat \<Rightarrow> nat \<Rightarrow> nat" where
  "turn_after vs n 0 = n"
| "turn_after vs n (Suc i) = next_turn vs (turn_after vs n i)"

lemma rounds_snoc: "VexSonarTask (rs @ [r]) s = Option.bind (VexSonarTask rs s) (VexSonarTask_round r)"
  by (induction rs arbitrary: s) (simp_all split: Option.bind_splits)

lemma rounds_turns:
  assumes "sonar_inv s"
  shows "\<exists>t. VexSonarTask rs s = Some t \<and> same_turns s t \<and> nextSonar t = turn_after (vexSonars s) (nextSonar s) (length rs)"
proof (induction rs rule: rev_induct)
  case Nil
  then show ?case using assms by (simp add: same_turns_refl)
next
  case (snoc r rs)
  then obtain t where t: "VexSonarTask rs s = Some t" "same_turns s t"
      "nextSonar t = turn_after (vexSonars s) (nextSonar s) (length rs)" by blast
  have inv: "sonar_inv t" using t(2) by (simp add: same_turns_def)
  obtain u where u: "VexSonarTask_round r t = Some u" "same_turns t u" "nextSonar u = next_turn (vexSonars t) (nextSonar t)"
    using round_turns [OF inv] by blast
  have "next_turn (vexSonars t) (nextSonar t) = next_turn (vexSonars s) (nextSonar t)"
  proof -
    have l: "length (vexSonars t) = 5" "length (vexSonars s) = 5" "nextSonar t < 5" and f: "map sonar_flags (vexSonars t) = map sonar_flags (vexSonars s)"
      using inv assms t(2) by (simp_all add: same_turns_def sonar_inv_def)
    have "sonar_ready (vexSonars t ! nextSonar t) = sonar_ready (vexSonars s ! nextSonar t)"
      using l nth_map [of "nextSonar t" "vexSonars t" sonar_flags] nth_map [of "nextSonar t" "vexSonars s" sonar_flags] f
      by (simp add: sonar_ready_def)
    then show ?thesis using find_next_cong [OF l(1) f l(3)] by (simp add: next_turn_def)
  qed
  then show ?case using t u same_turns_trans by (auto simp: rounds_snoc)
qed

text \<open>
  From a sensor that is ready, the search visits every one that is ready, in at most four more rounds: the
  number of steps it is ahead falls in each round.
\<close>

definition ahead :: "nat \<Rightarrow> nat \<Rightarrow> nat" where
  "ahead n c = (c + 5 - n) mod 5"

lemma ahead_less: "ahead n c < 5"
  by (simp add: ahead_def)

lemma ahead_0: "n < 5 \<Longrightarrow> c < 5 \<Longrightarrow> ahead n c = 0 \<longleftrightarrow> n = c"
  by (cases "n \<le> c") (auto simp: ahead_def mod_if)

lemma ahead_Suc: "n < 5 \<Longrightarrow> c < 5 \<Longrightarrow> n \<noteq> c \<Longrightarrow> Suc (ahead (if Suc n = 5 then 0 else Suc n) c) = ahead n c"
  by (cases "n \<le> c") (auto simp: ahead_def mod_if)

lemma find_next_ahead:
  assumes "n < 5" "c < 5" "n \<noteq> c" "sonar_ready (vs ! c)" "ahead n c \<le> k"
  shows "ahead (find_next k vs n) c < ahead n c \<and> sonar_ready (vs ! find_next k vs n)"
  using assms
proof (induction k arbitrary: n)
  case 0
  then show ?case using ahead_0 [of n c] by simp
next
  case (Suc k)
  let ?n = "if Suc n = 5 then 0 else Suc n"
  have a: "Suc (ahead ?n c) = ahead n c" by (rule ahead_Suc) (use Suc.prems in simp_all)
  have f: "find_next (Suc k) vs n = (if sonar_ready (vs ! ?n) then ?n else find_next k vs ?n)"
    by (simp add: Let_def kVexSonar_Num_def)
  show ?case
  proof (cases "sonar_ready (vs ! ?n)")
    case True
    then show ?thesis using a f by simp
  next
    case False
    then have "?n \<noteq> c" using Suc.prems(4) by metis
    moreover have "?n < 5" using Suc.prems(1) by simp
    ultimately have "ahead (find_next k vs ?n) c < ahead ?n c \<and> sonar_ready (vs ! find_next k vs ?n)"
      using Suc.IH [of ?n] Suc.prems(2,4,5) a by linarith
    then show ?thesis using a f False by simp
  qed
qed

lemma next_ready:
  assumes "n < 5" "c < 5" "sonar_ready (vs ! n)" "sonar_ready (vs ! c)"
  shows "\<exists>i<5. turn_after vs n i = c"
proof -
  have "\<exists>i. i \<le> ahead n c \<and> turn_after vs n i = c"
    using assms(1,3)
  proof (induction "ahead n c" arbitrary: n rule: less_induct)
    case less
    show ?case
    proof (cases "n = c")
      case True
      then show ?thesis by (intro exI [of _ 0]) simp
    next
      case False
      let ?m = "next_turn vs n"
      have m: "ahead ?m c < ahead n c" "sonar_ready (vs ! ?m)" "?m < 5"
        using find_next_ahead [OF less.prems(1) assms(2) False assms(4), of 5] ahead_less [of n c] less.prems
          find_next_less [of n 5 vs] by (simp_all add: next_turn_def)
      then obtain i where "i \<le> ahead ?m c" "turn_after vs ?m i = c" using less.hyps by blast
      moreover have "turn_after vs n (Suc i) = turn_after vs ?m i" by (induction i) simp_all
      ultimately show ?thesis using m(1) by (intro exI [of _ "Suc i"]) simp
    qed
  qed
  then obtain i where "i \<le> ahead n c" "turn_after vs n i = c" by blast
  moreover have "i < 5" using \<open>i \<le> ahead n c\<close> ahead_less [of n c] by simp
  ultimately show ?thesis by blast
qed

text \<open>C22: The polling task never fails, and it serves the sensors in turn: as long as the sensor whose turn it is first is
  installed, every installed sensor gets its turn within any five rounds, whatever happens meanwhile. When that first
  sensor, which is the one of channel 1, is not installed, the task waits for it forever: no other sensor ever gets a
  turn.\<close>

theorem sonar_turns:
  assumes "sonar_inv s" "5 \<le> length rounds"
  shows "(\<exists>t. VexSonarTask rounds s = Some t) \<and>
    (if sonar_ready (current s)
     then \<forall>c<5. sonar_ready (vexSonars s ! c) \<longrightarrow>
       (\<exists>i<5. \<exists>t. VexSonarTask (take i rounds) s = Some t \<and> nextSonar t = c)
     else \<forall>i. \<exists>t. VexSonarTask (take i rounds) s = Some t \<and> nextSonar t = nextSonar s)"
proof -
  have run: "\<exists>t. VexSonarTask rs s = Some t \<and> nextSonar t = turn_after (vexSonars s) (nextSonar s) (length rs)" for rs
    using rounds_turns [OF assms(1)] by blast
  have stuck: "turn_after (vexSonars s) (nextSonar s) i = nextSonar s" if "\<not> sonar_ready (current s)" for i
    using that by (induction i) (simp_all add: next_turn_def)
  have "\<exists>i<5. \<exists>t. VexSonarTask (take i rounds) s = Some t \<and> nextSonar t = c"
    if c: "sonar_ready (current s)" "c < 5" "sonar_ready (vexSonars s ! c)" for c
  proof -
    obtain i where i: "i < 5" "turn_after (vexSonars s) (nextSonar s) i = c"
      using next_ready [of "nextSonar s" c "vexSonars s"] c assms(1) by (auto simp: sonar_inv_def)
    then have "length (take i rounds) = i" using assms(2) by simp
    then show ?thesis using run [of "take i rounds"] i by metis
  qed
  moreover have "\<exists>t. VexSonarTask (take i rounds) s = Some t \<and> nextSonar t = nextSonar s" if "\<not> sonar_ready (current s)" for i
    using run [of "take i rounds"] stuck [OF that] by auto
  ultimately show ?thesis using run [of rounds] by auto
qed

section \<open>Witnesses\<close>

definition sonar_reset :: sonar_state where
  "sonar_reset = \<lparr>vexSonars = replicate 5 \<lparr>time_r = 0, time_f = 0, sonar_time = 0, distance_cm = 0, distance_inch = 0,
       sonar_flags = 0, sonar_pa = 0, sonar_pb = 0, sonar_pa_pad = (0, 0), sonar_pb_pad = (0, 0)\<rparr>,
     nextSonar = 0, nextState = kSonarStatePing, sonarGpt = \<lparr>gpt_state = GPT_READY, CNT = 0, ARR = 0, CEN = False\<rparr>,
     vexSonarThread = False, pins = digital_reset\<rparr>"

text \<open>One sensor on channel 1 with pins 5 and 6, one on channel 4 with pins 7 and 8.\<close>

definition sample_sonars :: sonar_state where
  "sample_sonars = the (vexSonarAdd 3 6 7 (the (vexSonarAdd 0 4 5 sonar_reset)))"

lemma sample_sonars: "vexSonars sample_sonars = [\<lparr>time_r = 0, time_f = 0, sonar_time = 0, distance_cm = 0, distance_inch = 0,
       sonar_flags = 3, sonar_pa = 4, sonar_pb = 5, sonar_pa_pad = (4, 13), sonar_pb_pad = (4, 14)\<rparr>,
     vexSonars sonar_reset ! 1, vexSonars sonar_reset ! 2,
     \<lparr>time_r = 0, time_f = 0, sonar_time = 0, distance_cm = 0, distance_inch = 0,
       sonar_flags = 3, sonar_pa = 6, sonar_pb = 7, sonar_pa_pad = (4, 8), sonar_pb_pad = (4, 10)\<rparr>,
     vexSonars sonar_reset ! 4]"
  "nextSonar sample_sonars = 0" "length (ios (pins sample_sonars)) = 12"
  by code_simp+

lemma sample_sonars_inv: "sonar_inv sample_sonars"
  unfolding sonar_inv_def sample_sonars by (simp add: All_less_Suc eval_nat_numeral sonar_reset_def)

lemma sonar_turns_witness:
  "\<exists>i<5. \<exists>t. VexSonarTask (take i (replicate 5 (replicate 50000 Tick))) sample_sonars = Some t \<and> nextSonar t = 3"
  using sonar_turns [OF sample_sonars_inv, of "replicate 5 (replicate 50000 Tick)"]
  by (auto simp: sample_sonars sonar_ready_def sonar_consts)


end
