(* ===== verification/VexConfig.thy ===== *)
theory VexConfig
  imports VexSonar VexIme
begin

text \<open>
  The configuration of the ports, \<open>src/convex/cortex/fw/vexconfig.c\<close>, and the functions that read and write any sensor by
  one number, \<open>src/convex/cortex/fw/vexsensor.c\<close>. They work on the state of all port drivers together; the digital pins
  are those of the sonar driver. A configuration is the list of its entries; what is read or written outside an array is
  \<open>None\<close>.
\<close>

section \<open>Data\<close>

datatype tVexSensorType = kVexSensorNone | kVexSensorDigitalInput | kVexSensorDigitalOutput | kVexSensorQuadEncoder
  | kVexSensorSonarCm | kVexSensorSonarInch | kVexSensorIME | kVexSensorPotentiometer | kVexSensorInterrupt

datatype tVexDigitalConfig = kVexConfigInput | kVexConfigOutput | kVexConfigQuadEnc1 | kVexConfigQuadEnc2 | kVexConfigSonarOut
  | kVexConfigSonarIn | kVexConfigInterrupt

record vexDigiCfg =
  cfg_pin :: int
  cfg_type :: tVexSensorType
  cfg_cfg :: tVexDigitalConfig
  cfg_chan :: u16

record vexMotorCfg =
  mcfg_port :: int
  mcfg_mtype :: tVexMotorType
  mcfg_reversed :: bool
  mcfg_stype :: tVexSensorType
  mcfg_channel :: int

record 'w ports =
  samples_buf :: "u16 list"
  vexQuadEncoders :: encoders
  sonars :: sonar_state
  vexImes :: "'w vexImeData"
  motors :: motor_state
  vexDefConfig :: "vexDigiCfg list"

abbreviation dig :: "'w ports \<Rightarrow> digital_state" where
  "dig p \<equiv> pins (sonars p)"

definition set_dig :: "digital_state \<Rightarrow> 'w ports \<Rightarrow> 'w ports" where
  "set_dig d p = p\<lparr>sonars := (sonars p)\<lparr>pins := d\<rparr>\<rparr>"

definition default_config :: "vexDigiCfg list" where
  "default_config =
     map (\<lambda>i. \<lparr>cfg_pin = i, cfg_type = kVexSensorDigitalInput, cfg_cfg = kVexConfigInput, cfg_chan = 0\<rparr>) [0..11]"

section \<open>Digital ports\<close>

text \<open>The calls of the encoder driver into the drivers of the pins and of the external interrupts.\<close>

fun run_calls :: "enc_call list \<Rightarrow> digital_state \<Rightarrow> digital_state option" where
  "run_calls [] d = Some d"
| "run_calls (c # cs) d = do {
     d \<leftarrow> (case c of
            DigitalModeInput pin \<Rightarrow> vexDigitalModeSet (int pin) kVexDigitalInput d
          | ExtBothEdges q cb \<Rightarrow> vexExtSet (fst q) (snd q) EXT_CH_MODE_BOTH_EDGES (Vqe_cb cb) d
          | ExtChannelEnable ch \<Rightarrow> Some (extChannelEnable ch d)
          | ExtChannelDisable ch \<Rightarrow> Some (extChannelDisable ch d));
     run_calls cs d
   }"

text \<open>Both drivers use a pin as an index after checks that let negative pins pass.\<close>

definition bad_pins :: "nat \<Rightarrow> nat \<Rightarrow> int \<Rightarrow> int \<Rightarrow> bool" where
  "bad_pins n channel a b \<longleftrightarrow>
     channel < n \<and> a \<le> int kVexDigital_12 \<and> b \<le> int kVexDigital_12 \<and> (a < 0 \<or> b < 0)"

definition add_encoder :: "nat \<Rightarrow> int \<Rightarrow> int \<Rightarrow> 'w ports \<Rightarrow> 'w ports option" where
  "add_encoder channel a b p =
     (if bad_pins (nat kVexQuadEncoder_Num) channel a b then None
      else case vexEncoderAdd (\<lambda>q. io_pad (ios (dig p) ! q)) channel (nat a) (nat b) (vexQuadEncoders p) of
        (calls, es) \<Rightarrow> do { d \<leftarrow> run_calls calls (dig p); Some (set_dig d (p\<lparr>vexQuadEncoders := es\<rparr>)) })"

definition add_sonar :: "nat \<Rightarrow> int \<Rightarrow> int \<Rightarrow> 'w ports \<Rightarrow> 'w ports option" where
  "add_sonar channel a b p =
     (if bad_pins kVexSonar_Num channel a b then None
      else do { s \<leftarrow> vexSonarAdd channel a b (sonars p); Some (p\<lparr>sonars := s\<rparr>) })"

text \<open>The search for the other pin of a sensor: the inner loop.\<close>

fun add_pairs :: "(nat \<Rightarrow> int \<Rightarrow> int \<Rightarrow> 'w ports \<Rightarrow> 'w ports option) \<Rightarrow> tVexDigitalConfig \<Rightarrow> vexDigiCfg \<Rightarrow> vexDigiCfg list \<Rightarrow>
    'w ports \<Rightarrow> 'w ports option" where
  "add_pairs add other e [] p = Some p"
| "add_pairs add other e (e2 # es) p = do {
     p \<leftarrow> (if cfg_cfg e2 = other \<and> cfg_chan e = cfg_chan e2 then add (unat (cfg_chan e)) (cfg_pin e) (cfg_pin e2) p else Some p);
     add_pairs add other e es p
   }"

definition on_pins :: "(digital_state \<Rightarrow> digital_state option) \<Rightarrow> 'w ports \<Rightarrow> 'w ports option" where
  "on_pins f p = do { d \<leftarrow> f (dig p); Some (set_dig d p) }"

definition save_config :: "vexDigiCfg \<Rightarrow> 'w ports \<Rightarrow> 'w ports option" where
  "save_config e p =
     (if 0 \<le> cfg_pin e \<and> nat (cfg_pin e) < length (vexDefConfig p) then
        Some (p\<lparr>vexDefConfig := (vexDefConfig p)[nat (cfg_pin e) := (vexDefConfig p ! nat (cfg_pin e))
          \<lparr>cfg_type := cfg_type e, cfg_cfg := cfg_cfg e, cfg_chan := cfg_chan e\<rparr>]\<rparr>)
      else None)"

definition configure_pin :: "vexDigiCfg list \<Rightarrow> vexDigiCfg \<Rightarrow> 'w ports \<Rightarrow> 'w ports option" where
  "configure_pin es e p = do {
     p \<leftarrow> (case cfg_cfg e of
            kVexConfigInput \<Rightarrow> on_pins (vexDigitalModeSet (cfg_pin e) kVexDigitalInput) p
          | kVexConfigOutput \<Rightarrow> on_pins (vexDigitalModeSet (cfg_pin e) kVexDigitalOutput) p
          | kVexConfigQuadEnc1 \<Rightarrow> add_pairs add_encoder kVexConfigQuadEnc2 e es p
          | kVexConfigSonarOut \<Rightarrow> add_pairs add_sonar kVexConfigSonarIn e es p
          | kVexConfigInterrupt \<Rightarrow> on_pins (vexDigitalIntrSet (cfg_pin e)) p
          | _ \<Rightarrow> Some p);
     save_config e p
   }"

text \<open>The outer loop. Without a configuration it runs over the table that it also stores the entries in.\<close>

fun configure_loop :: "vexDigiCfg list option \<Rightarrow> nat \<Rightarrow> nat list \<Rightarrow> 'w ports \<Rightarrow> 'w ports option" where
  "configure_loop cfg len [] p = Some p"
| "configure_loop cfg len (i # is) p = do {
     let es = (case cfg of None \<Rightarrow> vexDefConfig p | Some es \<Rightarrow> es);
     p \<leftarrow> (if len \<le> length es then configure_pin (take len es) (es ! i) p else None);
     configure_loop cfg len is p
   }"

definition vexDigitalConfigure :: "vexDigiCfg list option \<Rightarrow> int \<Rightarrow> 'w ports \<Rightarrow> 'w ports option" where
  "vexDigitalConfigure cfg cfg_num p =
     (let len = (case cfg of None \<Rightarrow> length (vexDefConfig p) | Some es \<Rightarrow> nat cfg_num)
      in configure_loop cfg len [0..<len] p)"

text \<open>A pin above the last has no sensor; a negative one is an index outside the table.\<close>

definition config_of :: "(vexDigiCfg \<Rightarrow> 'a) \<Rightarrow> 'a \<Rightarrow> int \<Rightarrow> 'w ports \<Rightarrow> 'a option" where
  "config_of f none pin p =
     (if pin > int kVexDigital_12 then Some none
      else if 0 \<le> pin \<and> nat pin < length (vexDefConfig p) then Some (f (vexDefConfig p ! nat pin)) else None)"

definition vexDigitalTypeGet :: "int \<Rightarrow> 'w ports \<Rightarrow> tVexSensorType option" where
  "vexDigitalTypeGet = config_of cfg_type kVexSensorNone"

text \<open>The name of a pin above the last is a null pointer.\<close>

definition type_name :: "vexDigiCfg \<Rightarrow> string" where
  "type_name e =
     (case cfg_type e of
        kVexSensorDigitalInput \<Rightarrow> ''Input''
      | kVexSensorDigitalOutput \<Rightarrow> ''Output''
      | kVexSensorInterrupt \<Rightarrow> ''Intrpt''
      | kVexSensorQuadEncoder \<Rightarrow> if cfg_cfg e = kVexConfigQuadEnc1 then ''Encoder'' else ''''
      | kVexSensorSonarCm \<Rightarrow> if cfg_cfg e = kVexConfigSonarOut then ''SonarCm'' else ''''
      | kVexSensorSonarInch \<Rightarrow> if cfg_cfg e = kVexConfigSonarOut then ''SonarIn'' else ''''
      | _ \<Rightarrow> ''Undefined'')"

definition vexDigitalTypeGetName :: "int \<Rightarrow> 'w ports \<Rightarrow> string option option" where
  "vexDigitalTypeGetName = config_of (\<lambda>e. Some (type_name e)) None"

definition vexDigitalChannelGet :: "int \<Rightarrow> 'w ports \<Rightarrow> u16 option" where
  "vexDigitalChannelGet = config_of cfg_chan 0"

definition config_number :: "tVexDigitalConfig \<Rightarrow> u16" where
  "config_number c =
     (case c of kVexConfigInput \<Rightarrow> 0 | kVexConfigOutput \<Rightarrow> 1 | kVexConfigQuadEnc1 \<Rightarrow> 10 | kVexConfigQuadEnc2 \<Rightarrow> 11
      | kVexConfigSonarOut \<Rightarrow> 12 | kVexConfigSonarIn \<Rightarrow> 13 | kVexConfigInterrupt \<Rightarrow> 14)"

definition vexDigitalCfgGet :: "int \<Rightarrow> 'w ports \<Rightarrow> u16 option" where
  "vexDigitalCfgGet = config_of (\<lambda>e. config_number (cfg_cfg e)) 0"

section \<open>Motors\<close>

text \<open>The callbacks by number: 1 to 3 are those of the encoders, 4 to 6 those of the integrated encoders.\<close>

definition configure_motor :: "vexMotorCfg \<Rightarrow> 'w ports \<Rightarrow> 'w ports" where
  "configure_motor m p =
     (let p = p\<lparr>motors := vexMotorDirectionSet (mcfg_port m) (mcfg_reversed m) (vexMotorTypeSet (mcfg_port m) (mcfg_mtype m) (motors p))\<rparr>;
          link = (\<lambda>cb. vexMotorEncoderIdCallback (mcfg_port m) (Some (cb + 2)) (mcfg_channel m) \<circ>
                       vexMotorPositionSetCallback (mcfg_port m) (Some (cb + 1)) (mcfg_channel m) \<circ>
                       vexMotorPositionGetCallback (mcfg_port m) (Some cb) (mcfg_channel m))
      in case mcfg_stype m of
           kVexSensorIME \<Rightarrow>
             p\<lparr>vexImes := vexImeSetType (mcfg_channel m) (mcfg_mtype m) (vexImeSetMotor (mcfg_channel m) (mcfg_port m) (vexImes p)),
               motors := link 4 (motors p)\<rparr>
         | kVexSensorQuadEncoder \<Rightarrow> p\<lparr>motors := link 1 (motors p)\<rparr>
         | _ \<Rightarrow> p)"

definition vexMotorConfigure :: "vexMotorCfg list option \<Rightarrow> int \<Rightarrow> 'w ports \<Rightarrow> 'w ports option" where
  "vexMotorConfigure cfg cfg_num p =
     (case cfg of
        None \<Rightarrow> Some p
      | Some ms \<Rightarrow> if nat cfg_num \<le> length ms then Some (fold configure_motor (take (nat cfg_num) ms) p) else None)"

section \<open>Sensors\<close>

definition kVexSensorAnalog_1 :: int where "kVexSensorAnalog_1 = 0"
definition kVexSensorAnalog_8 :: int where "kVexSensorAnalog_8 = 7"
definition kVexSensorDigital_1 :: int where "kVexSensorDigital_1 = 8"
definition kVexSensorDigital_12 :: int where "kVexSensorDigital_12 = 19"
definition kVexSensorIme_1 :: int where "kVexSensorIme_1 = 20"
definition kVexSensorIme_8 :: int where "kVexSensorIme_8 = 27"

lemmas sensor_consts = kVexSensorAnalog_1_def kVexSensorAnalog_8_def kVexSensorDigital_1_def kVexSensorDigital_12_def
  kVexSensorIme_1_def kVexSensorIme_8_def

definition vexAdcGet :: "int \<Rightarrow> u16 list \<Rightarrow> int" where
  "vexAdcGet index samples = (if index < 0 \<or> index > 7 then - 1 else i16 (uint (samples ! nat index)))"

definition vexSensorIsAnalog :: "int \<Rightarrow> bool" where
  "vexSensorIsAnalog sensor \<longleftrightarrow> sensor \<ge> kVexSensorAnalog_1 \<and> sensor \<le> kVexSensorAnalog_8"

text \<open>The channel of a sonar is not checked by its driver.\<close>

definition sonar_value :: "(nat \<Rightarrow> sonar_state \<Rightarrow> int) \<Rightarrow> int \<Rightarrow> 'w ports \<Rightarrow> int option" where
  "sonar_value get channel p = (if 0 \<le> channel \<and> nat channel < length (vexSonars (sonars p)) then Some (get (nat channel) (sonars p)) else None)"

definition vexSensorValueGet :: "(pad \<Rightarrow> bool) \<Rightarrow> int \<Rightarrow> 'w ports \<Rightarrow> int option" where
  "vexSensorValueGet level sensor p =
     (if sensor \<le> kVexSensorAnalog_8 then Some (vexAdcGet (i16 sensor) (samples_buf p))
      else if sensor \<le> kVexSensorDigital_12 then do {
        let pin = sensor - kVexSensorDigital_1;
        ty \<leftarrow> vexDigitalTypeGet pin p;
        ch \<leftarrow> vexDigitalChannelGet pin p;
        let chan = i16 (uint ch);
        let pin_value = map_option (\<lambda>v. if v = kVexDigitalLow then 0 else 1) (vexDigitalPinGet level pin (dig p));
        case ty of
          kVexSensorDigitalInput \<Rightarrow> pin_value
        | kVexSensorDigitalOutput \<Rightarrow> pin_value
        | kVexSensorInterrupt \<Rightarrow> pin_value
        | kVexSensorQuadEncoder \<Rightarrow> Some (vexEncoderGet chan (vexQuadEncoders p))
        | kVexSensorSonarCm \<Rightarrow> sonar_value vexSonarGetCm chan p
        | kVexSensorSonarInch \<Rightarrow> sonar_value vexSonarGetInch chan p
        | _ \<Rightarrow> Some 0
      }
      else if sensor \<le> kVexSensorIme_8 then Some (vexImeGetCount (sensor - kVexSensorIme_1) (vexImes p))
      else Some 0)"

definition vexSensorValueSet :: "int \<Rightarrow> int \<Rightarrow> 'w ports \<Rightarrow> 'w ports option" where
  "vexSensorValueSet sensor v p =
     (if sensor \<le> kVexSensorAnalog_8 then Some p
      else if sensor \<le> kVexSensorDigital_12 then do {
        let pin = sensor - kVexSensorDigital_1;
        ty \<leftarrow> vexDigitalTypeGet pin p;
        ch \<leftarrow> vexDigitalChannelGet pin p;
        case ty of
          kVexSensorDigitalOutput \<Rightarrow>
            on_pins (vexDigitalPinSet pin (if v = 0 then kVexDigitalLow else kVexDigitalHigh)) p
        | kVexSensorQuadEncoder \<Rightarrow> Some (p\<lparr>vexQuadEncoders := vexEncoderSet (i16 (uint ch)) v (vexQuadEncoders p)\<rparr>)
        | _ \<Rightarrow> Some p
      }
      else if sensor \<le> kVexSensorIme_8 then Some (p\<lparr>vexImes := vexImeSetCount (sensor - kVexSensorIme_1) v (vexImes p)\<rparr>)
      else Some p)"

section \<open>Positions of the configured motors\<close>

text \<open>The callbacks on the state of all ports; a channel of either kind is a position sensor for the motor driver.\<close>

definition ports_env :: "'w ports position_env" where
  "ports_env = \<lparr>
     position_get = (\<lambda>cb c p. if cb = 1 then vexEncoderGet c (vexQuadEncoders p) else if cb = 4 then vexImeGetCount c (vexImes p) else 0),
     position_set = (\<lambda>cb c v p. if cb = 2 then p\<lparr>vexQuadEncoders := vexEncoderSet c v (vexQuadEncoders p)\<rparr>
                                else if cb = 5 then p\<lparr>vexImes := vexImeSetCount c v (vexImes p)\<rparr> else p),
     encoder_id = (\<lambda>cb c p. if cb = 3 then (case vexEncoderGetId c (vexQuadEncoders p) of Some i \<Rightarrow> i | None \<Rightarrow> 0)
                            else if cb = 6 then vexImeGetId c (vexImes p) else 0)\<rparr>"

interpretation quad_port: position_sensor "\<lambda>p. length (vexQuadEncoders p) = 5" ports_env 1 2 3
  by unfold_locales
    (simp_all add: ports_env_def encoder_set_get, simp add: vexEncoderSet_def enc_update_def)

interpretation ime_port: position_sensor "\<lambda>p. length (imes (vexImes p)) = 8 \<and> valid (imes (vexImes p) ! 3) \<noteq> 0" ports_env 4 5 3
  by unfold_locales
    (auto simp: ports_env_def ime_set_get, auto simp: vexImeSetCount_def ime_update_def nth_list_update)

end
