(* ===== verification/VexConfig_Properties.thy ===== *)
theory VexConfig_Properties
  imports VexConfig
begin

text \<open>
  What a configuration does: every pin gets the mode of its entry, the encoders and sonars whose two pins are both there are
  installed, and the entries read back.
\<close>

section \<open>Pins\<close>

definition pad_of :: "int \<Rightarrow> pad" where
  "pad_of pin = digio_pads ! nat pin"

definition dig_ok :: "digital_state \<Rightarrow> bool" where
  "dig_ok d \<longleftrightarrow> map io_pad (ios d) = digio_pads \<and> length (channels d) = 16"

definition iomode :: "tVexDigitalMode \<Rightarrow> iomode_t" where
  "iomode m = (case m of kVexDigitalInput \<Rightarrow> PAL_MODE_INPUT_PULLUP | kVexDigitalOutput \<Rightarrow> PAL_MODE_OUTPUT_PUSHPULL)"

lemma dig_ok_ios: "dig_ok d \<Longrightarrow> length (ios d) = 12 \<and> (\<forall>p<12. io_pad (ios d ! p) = digio_pads ! p)"
proof -
  assume "dig_ok d"
  then have m: "map io_pad (ios d) = digio_pads" by (simp add: dig_ok_def)
  have "length digio_pads = 12" by (simp add: digio_pads_def)
  with m have l: "length (ios d) = 12" by (metis length_map)
  show ?thesis using l m by (metis nth_map)
qed

lemma pad_inj: "0 \<le> a \<Longrightarrow> a < 12 \<Longrightarrow> 0 \<le> b \<Longrightarrow> b < 12 \<Longrightarrow> pad_of a = pad_of b \<longleftrightarrow> a = b"
proof -
  have d: "distinct digio_pads" "length digio_pads = 12" by code_simp+
  show "0 \<le> a \<Longrightarrow> a < 12 \<Longrightarrow> 0 \<le> b \<Longrightarrow> b < 12 \<Longrightarrow> ?thesis"
    using nth_eq_iff_index_eq [OF d(1), of "nat a" "nat b"] d(2) by (simp add: pad_of_def nat_less_iff eq_nat_nat_iff)
qed

lemma mode_set_effect:
  assumes "dig_ok d" "0 \<le> pin" "pin < 12"
  shows "\<exists>d'. vexDigitalModeSet pin m d = Some d' \<and> dig_ok d' \<and> pad_mode d' = (pad_mode d)(pad_of pin \<mapsto> iomode m)"
proof -
  let ?f = "\<lambda>io. io\<lparr>io_mode := m\<rparr>"
  have io: "map io_pad (ios (io_update pin ?f d)) = digio_pads" using assms(1) by (subst io_pad_update) (simp_all add: dig_ok_def)
  then have "io_pad (ios (io_update pin ?f d) ! nat pin) = pad_of pin" "length (ios (io_update pin ?f d)) = 12"
    using assms dig_ok_ios [OF assms(1)] by (simp_all add: pad_of_def io_update_def nat_less_iff)
  moreover have "pin_ok pin d" "\<not> pin > int kVexDigital_12" using assms dig_ok_ios [OF assms(1)] by (auto simp: pin_ok_def kVexDigital_12_def)
  ultimately show ?thesis using io assms(1)
    by (cases m) (auto simp: vexDigitalModeSet_def Let_def palSetPadMode_def palSetPad_def dig_ok_def iomode_def io_update_def)
qed

lemma ext_set_effect:
  assumes "dig_ok d" "0 \<le> pin" "pin < 12"
  shows "\<exists>d'. vexExtSet (fst (pad_of pin)) (snd (pad_of pin)) m cb d = Some d' \<and> dig_ok d' \<and> pad_mode d' = pad_mode d \<and> ios d' = ios d"
proof -
  have "0 \<le> snd (pad_of pin)" "nat (snd (pad_of pin)) < 16" using pads_16 [of "nat pin"] assms by (auto simp: pad_of_def)
  then have "0 \<le> snd (pad_of pin) \<and> snd (pad_of pin) < 16" by linarith
  then show ?thesis using assms(1) by (auto simp: vexExtSet_def dig_ok_def Let_def)
qed

lemma io_update_ok [simp]: "dig_ok (io_update p (\<lambda>io. io\<lparr>intrCount := k\<rparr>) d) = dig_ok d" "pad_mode (io_update p f d) = pad_mode d"
  by (simp_all add: dig_ok_def io_pad_update, simp_all add: io_update_def)

lemma intr_set_effect:
  assumes "dig_ok d" "0 \<le> pin" "pin < 12"
  shows "\<exists>d'. vexDigitalIntrSet pin d = Some d' \<and> dig_ok d' \<and> pad_mode d' = (pad_mode d)(pad_of pin \<mapsto> PAL_MODE_INPUT_PULLUP)"
proof -
  obtain d1 where d1: "vexDigitalModeSet pin kVexDigitalInput d = Some d1" "dig_ok d1"
      "pad_mode d1 = (pad_mode d)(pad_of pin \<mapsto> PAL_MODE_INPUT_PULLUP)"
    using mode_set_effect [OF assms, of kVexDigitalInput] by (auto simp: iomode_def)
  obtain d2 where d2: "vexExtSet (fst (pad_of pin)) (snd (pad_of pin)) EXT_CH_MODE_BOTH_EDGES Vi_cb d1 = Some d2" "dig_ok d2"
      "pad_mode d2 = pad_mode d1"
    using ext_set_effect [OF d1(2) assms(2,3)] by blast
  have "pin_ok pin d1" "io_pad (ios d1 ! nat pin) = pad_of pin"
    using dig_ok_ios [OF d1(2)] assms by (auto simp: pin_ok_def pad_of_def nat_less_iff)
  then show ?thesis using d1 d2 by (auto simp: vexDigitalIntrSet_def Let_def)
qed

section \<open>Interface: a driver of sensors with two pins\<close>

definition ports_ok :: "'w ports \<Rightarrow> bool" where
  "ports_ok p \<longleftrightarrow> dig_ok (dig p) \<and> length (vexDefConfig p) = 12 \<and> length (vexQuadEncoders p) = 5 \<and> length (vexSonars (sonars p)) = 5"

definition enc_installed :: "'w ports \<Rightarrow> nat set" where
  "enc_installed p = {c. c < 5 \<and> enc_state (vexQuadEncoders p ! c) = 1}"

definition sonar_installed :: "'w ports \<Rightarrow> nat set" where
  "sonar_installed p = {c. c < 5 \<and> sonar_flags (vexSonars (sonars p) ! c) = (SONAR_INSTALLED OR SONAR_ENABLED)}"

type_synonym writes = "(pad \<times> iomode_t) list"

definition apply_writes :: "writes \<Rightarrow> (pad \<Rightarrow> iomode_t option) \<Rightarrow> (pad \<Rightarrow> iomode_t option)" where
  "apply_writes ws f = fold (\<lambda>(q, m) f. f(q \<mapsto> m)) ws f"

lemma apply_writes_simps [simp]: "apply_writes [] f = f" "apply_writes ((q, m) # ws) f = apply_writes ws (f(q \<mapsto> m))"
  "apply_writes (ws @ vs) f = apply_writes vs (apply_writes ws f)"
  by (simp_all add: apply_writes_def)

lemma apply_writes_same:
  "\<forall>m'. (q, m') \<in> set ws \<longrightarrow> m' = m \<Longrightarrow> apply_writes ws f q = (if (q, m) \<in> set ws then Some m else f q)"
proof (induction ws arbitrary: f)
  case (Cons w ws)
  obtain r k where w: "w = (r, k)" by (cases w)
  have p: "\<forall>m'. (q, m') \<in> set ws \<longrightarrow> m' = m" using Cons.prems by (meson list.set_intros(2))
  have k: "q = r \<longrightarrow> k = m" using Cons.prems w by (meson list.set_intros(1))
  have h: "apply_writes ws (f(r \<mapsto> k)) q = (if (q, m) \<in> set ws then Some m else (f(r \<mapsto> k)) q)" by (rule Cons.IH [OF p])
  have "apply_writes (w # ws) f q = (if (q, m) \<in> set ws then Some m else (f(r \<mapsto> k)) q)" unfolding w apply_writes_simps by (rule h)
  also have "\<dots> = (if (q, m) \<in> set (w # ws) then Some m else f q)" using k by (cases "q = r") (simp_all add: w)
  finally show ?case .
qed simp

text \<open>The pairs of an entry in a configuration, and the writes of the pins of each of them.\<close>

definition partners :: "tVexDigitalConfig \<Rightarrow> vexDigiCfg \<Rightarrow> vexDigiCfg list \<Rightarrow> vexDigiCfg list" where
  "partners other e es = filter (\<lambda>e2. cfg_cfg e2 = other \<and> cfg_chan e = cfg_chan e2 \<and> unat (cfg_chan e) < 5) es"

definition pair_writes :: "iomode_t \<Rightarrow> iomode_t \<Rightarrow> tVexDigitalConfig \<Rightarrow> vexDigiCfg \<Rightarrow> vexDigiCfg list \<Rightarrow> writes" where
  "pair_writes m1 m2 other e es = concat (map (\<lambda>e2. [(pad_of (cfg_pin e), m1), (pad_of (cfg_pin e2), m2)]) (partners other e es))"

definition pins_ok :: "vexDigiCfg list \<Rightarrow> bool" where
  "pins_ok es \<longleftrightarrow> (\<forall>e\<in>set es. 0 \<le> cfg_pin e \<and> cfg_pin e < 12)"

locale pair_driver =
  fixes add :: "nat \<Rightarrow> int \<Rightarrow> int \<Rightarrow> 'w ports \<Rightarrow> 'w ports option"
    and m1 m2 :: iomode_t
    and mine others :: "'w ports \<Rightarrow> nat set"
  assumes add_ok: "ports_ok p \<Longrightarrow> 0 \<le> a \<Longrightarrow> a < 12 \<Longrightarrow> 0 \<le> b \<Longrightarrow> b < 12 \<Longrightarrow> channel < 5 \<Longrightarrow>
      \<exists>q. add channel a b p = Some q \<and> ports_ok q \<and> pad_mode (dig q) = (pad_mode (dig p))(pad_of a \<mapsto> m1, pad_of b \<mapsto> m2) \<and>
        vexDefConfig q = vexDefConfig p \<and> mine q = insert channel (mine p) \<and> others q = others p \<and> motors q = motors p"
    and add_none: "0 \<le> a \<Longrightarrow> 0 \<le> b \<Longrightarrow> \<not> channel < 5 \<Longrightarrow> add channel a b p = Some p"
begin

lemma pairs_effect:
  "ports_ok p \<Longrightarrow> 0 \<le> cfg_pin e \<Longrightarrow> cfg_pin e < 12 \<Longrightarrow> pins_ok es \<Longrightarrow>
    \<exists>q. add_pairs add other e es p = Some q \<and> ports_ok q \<and>
      pad_mode (dig q) = apply_writes (pair_writes m1 m2 other e es) (pad_mode (dig p)) \<and> vexDefConfig q = vexDefConfig p \<and>
      mine q = mine p \<union> (if partners other e es = [] then {} else {unat (cfg_chan e)}) \<and> others q = others p \<and> motors q = motors p"
proof (induction es arbitrary: p)
  case Nil
  then show ?case by (simp add: pair_writes_def partners_def)
next
  case (Cons e2 es)
  have e2: "0 \<le> cfg_pin e2" "cfg_pin e2 < 12" and es: "pins_ok es" using Cons.prems(4) by (auto simp: pins_ok_def)
  show ?case
  proof (cases "cfg_cfg e2 = other \<and> cfg_chan e = cfg_chan e2 \<and> unat (cfg_chan e) < 5")
    case True
    then obtain q where q: "add (unat (cfg_chan e)) (cfg_pin e) (cfg_pin e2) p = Some q" "ports_ok q"
        "pad_mode (dig q) = (pad_mode (dig p))(pad_of (cfg_pin e) \<mapsto> m1, pad_of (cfg_pin e2) \<mapsto> m2)"
        "vexDefConfig q = vexDefConfig p" "mine q = insert (unat (cfg_chan e)) (mine p)" "others q = others p" "motors q = motors p"
      using add_ok [OF Cons.prems(1-3) e2] by blast
    from Cons.IH [OF q(2) Cons.prems(2,3) es] obtain r where
      "add_pairs add other e es q = Some r" "ports_ok r" "pad_mode (dig r) = apply_writes (pair_writes m1 m2 other e es) (pad_mode (dig q))"
      "vexDefConfig r = vexDefConfig q" "mine r = mine q \<union> (if partners other e es = [] then {} else {unat (cfg_chan e)})"
      "others r = others q" "motors r = motors q" by blast
    then show ?thesis using True q by (auto simp: pair_writes_def partners_def)
  next
    case False
    then have "partners other e (e2 # es) = partners other e es" by (auto simp: partners_def)
    moreover have "add_pairs add other e (e2 # es) p = add_pairs add other e es p"
      using False add_none [OF Cons.prems(2) e2(1)] by (cases "cfg_cfg e2 = other \<and> cfg_chan e = cfg_chan e2") auto
    ultimately show ?thesis using Cons.IH [OF Cons.prems(1-3) es] by (simp add: pair_writes_def)
  qed
qed

end

lemma run_calls_append: "run_calls (cs @ ds) d = do { d \<leftarrow> run_calls cs d; run_calls ds d }"
  by (induction cs arbitrary: d) (simp_all split: Option.bind_split)

text \<open>The two calls of one input of an encoder.\<close>

lemma run_input:
  assumes "dig_ok d" "0 \<le> a" "a < 12"
  shows "\<exists>d'. run_calls [DigitalModeInput (nat a), ExtBothEdges (pad_of a) cb] d = Some d' \<and> dig_ok d' \<and>
    pad_mode d' = (pad_mode d)(pad_of a \<mapsto> PAL_MODE_INPUT_PULLUP)"
proof -
  obtain d1 where d1: "vexDigitalModeSet a kVexDigitalInput d = Some d1" "dig_ok d1"
      "pad_mode d1 = (pad_mode d)(pad_of a \<mapsto> PAL_MODE_INPUT_PULLUP)"
    using mode_set_effect [OF assms, of kVexDigitalInput] by (auto simp: iomode_def)
  obtain d2 where "vexExtSet (fst (pad_of a)) (snd (pad_of a)) EXT_CH_MODE_BOTH_EDGES (Vqe_cb cb) d1 = Some d2" "dig_ok d2"
      "pad_mode d2 = pad_mode d1"
    using ext_set_effect [OF d1(2) assms(2,3)] by blast
  then show ?thesis using d1 assms(2) by simp
qed

lemma set_dig_simps [simp]: "dig (set_dig d p) = d" "vexDefConfig (set_dig d p) = vexDefConfig p" "motors (set_dig d p) = motors p"
  "vexQuadEncoders (set_dig d p) = vexQuadEncoders p" "vexSonars (sonars (set_dig d p)) = vexSonars (sonars p)"
  "enc_installed (set_dig d p) = enc_installed p" "sonar_installed (set_dig d p) = sonar_installed p"
  by (simp_all add: set_dig_def enc_installed_def sonar_installed_def)

interpretation encoder_pair: pair_driver add_encoder PAL_MODE_INPUT_PULLUP PAL_MODE_INPUT_PULLUP enc_installed sonar_installed
proof
  fix p :: "'w ports" and a b :: int and channel :: nat
  assume p: "ports_ok p" and ab: "0 \<le> a" "a < 12" "0 \<le> b" "b < 12" and ch: "channel < 5"
  have d: "dig_ok (dig p)" using p by (simp add: ports_ok_def)
  then have pads: "io_pad (ios (dig p) ! nat a) = pad_of a" "io_pad (ios (dig p) ! nat b) = pad_of b"
    using dig_ok_ios ab by (auto simp: pad_of_def nat_less_iff)
  obtain d1 where d1: "run_calls [DigitalModeInput (nat a), ExtBothEdges (pad_of a) (2 * channel)] (dig p) = Some d1" "dig_ok d1"
      "pad_mode d1 = (pad_mode (dig p))(pad_of a \<mapsto> PAL_MODE_INPUT_PULLUP)"
    using run_input [OF d ab(1,2)] by blast
  obtain d2 where d2: "run_calls [DigitalModeInput (nat b), ExtBothEdges (pad_of b) (2 * channel + 1)] d1 = Some d2" "dig_ok d2"
      "pad_mode d2 = (pad_mode d1)(pad_of b \<mapsto> PAL_MODE_INPUT_PULLUP)"
    using run_input [OF d1(2) ab(3,4)] by blast
  let ?e = "\<lambda>e. e\<lparr>count := 0, offset := 0, pa := nat a, pa_pad := pad_of a, pb := nat b, pb_pad := pad_of b, enc_state := 1\<rparr>"
  have add: "vexEncoderAdd (\<lambda>q. io_pad (ios (dig p) ! q)) channel (nat a) (nat b) (vexQuadEncoders p) =
      ([DigitalModeInput (nat a), ExtBothEdges (pad_of a) (2 * channel)] @ [DigitalModeInput (nat b), ExtBothEdges (pad_of b) (2 * channel + 1)],
       enc_update channel ?e (vexQuadEncoders p))"
    using ab ch by (simp add: vexEncoderAdd_def kVexQuadEncoder_Num_def kVexDigital_12_def pads not_less nat_le_iff)
  have "add_encoder channel a b p = Some (set_dig d2 (p\<lparr>vexQuadEncoders := enc_update channel ?e (vexQuadEncoders p)\<rparr>))"
    using ab d1(1) d2(1) unfolding add_encoder_def add prod.case run_calls_append by (simp add: bad_pins_def)
  moreover have "enc_installed (p\<lparr>vexQuadEncoders := enc_update channel ?e (vexQuadEncoders p)\<rparr>) = insert channel (enc_installed p)"
    using p ch by (auto simp: enc_installed_def enc_update_def nth_list_update ports_ok_def)
  ultimately show "\<exists>q. add_encoder channel a b p = Some q \<and> ports_ok q \<and>
      pad_mode (dig q) = (pad_mode (dig p))(pad_of a \<mapsto> PAL_MODE_INPUT_PULLUP, pad_of b \<mapsto> PAL_MODE_INPUT_PULLUP) \<and>
      vexDefConfig q = vexDefConfig p \<and> enc_installed q = insert channel (enc_installed p) \<and> sonar_installed q = sonar_installed p \<and>
      motors q = motors p"
    using d1(3) d2 p by (auto simp: ports_ok_def enc_update_def sonar_installed_def)
next
  fix p :: "'w ports" and a b :: int and channel :: nat
  assume "0 \<le> a" "0 \<le> b" "\<not> channel < 5"
  then show "add_encoder channel a b p = Some p"
    by (simp add: add_encoder_def bad_pins_def vexEncoderAdd_def kVexQuadEncoder_Num_def set_dig_def)
qed

lemma sonar_update_frame [simp]: "pins (sonar_update c f s) = pins s" "length (vexSonars (sonar_update c f s)) = length (vexSonars s)"
  by (simp_all add: sonar_update_def)

interpretation sonar_pair: pair_driver add_sonar PAL_MODE_OUTPUT_PUSHPULL PAL_MODE_INPUT_PULLUP sonar_installed enc_installed
proof
  fix p :: "'w ports" and a b :: int and channel :: nat
  assume p: "ports_ok p" and ab: "0 \<le> a" "a < 12" "0 \<le> b" "b < 12" and ch: "channel < 5"
  have d: "dig_ok (dig p)" using p by (simp add: ports_ok_def)
  obtain d1 where d1: "vexDigitalModeSet a kVexDigitalOutput (dig p) = Some d1" "dig_ok d1"
      "pad_mode d1 = (pad_mode (dig p))(pad_of a \<mapsto> PAL_MODE_OUTPUT_PUSHPULL)"
    using mode_set_effect [OF d ab(1,2), of kVexDigitalOutput] by (auto simp: iomode_def)
  obtain d2 where d2: "vexDigitalModeSet b kVexDigitalInput d1 = Some d2" "dig_ok d2"
      "pad_mode d2 = (pad_mode d1)(pad_of b \<mapsto> PAL_MODE_INPUT_PULLUP)"
    using mode_set_effect [OF d1(2) ab(3,4), of kVexDigitalInput] by (auto simp: iomode_def)
  have q: "io_pad (ios d2 ! nat b) = pad_of b" using dig_ok_ios [OF d2(2)] ab by (auto simp: pad_of_def nat_less_iff)
  obtain d3 where d3: "vexExtSet (fst (pad_of b)) (snd (pad_of b)) EXT_CH_MODE_BOTH_EDGES Vs_echo_cb d2 = Some d3" "dig_ok d3"
      "pad_mode d3 = pad_mode d2"
    using ext_set_effect [OF d2(2) ab(3,4)] by blast
  define s where "s = sonar_update channel (\<lambda>v. v\<lparr>sonar_flags := SONAR_INSTALLED OR SONAR_ENABLED\<rparr>)
    (sonar_update channel (\<lambda>v. v\<lparr>sonar_pb := b, sonar_pb_pad := pad_of b\<rparr>)
      (sonar_update channel (\<lambda>v. v\<lparr>sonar_pa := a, sonar_pa_pad := io_pad (ios d1 ! nat a)\<rparr>) (sonars p)))"
  have r: "add_sonar channel a b p = Some (p\<lparr>sonars := s\<lparr>pins := d3\<rparr>\<rparr>)"
    using ab ch d1(1) d2(1) d3(1) q
    by (simp add: add_sonar_def bad_pins_def vexSonarAdd_def kVexSonar_Num_def kVexDigital_12_def Let_def s_def)
  have "vexSonars s ! channel = (vexSonars s ! channel)\<lparr>sonar_flags := SONAR_INSTALLED OR SONAR_ENABLED\<rparr>"
    "\<And>c. c \<noteq> channel \<Longrightarrow> vexSonars s ! c = vexSonars (sonars p) ! c" "length (vexSonars s) = 5"
    using p ch by (auto simp: s_def sonar_update_def ports_ok_def)
  moreover from this(1) have "sonar_flags (vexSonars s ! channel) = SONAR_INSTALLED OR SONAR_ENABLED"
    by (metis vexSonar_t.select_convs(6) vexSonar_t.surjective vexSonar_t.update_convs(6))
  ultimately have "sonar_installed (p\<lparr>sonars := s\<lparr>pins := d3\<rparr>\<rparr>) = insert channel (sonar_installed p)"
    using ch by (auto simp: sonar_installed_def) metis+
  then show "\<exists>q. add_sonar channel a b p = Some q \<and> ports_ok q \<and>
      pad_mode (dig q) = (pad_mode (dig p))(pad_of a \<mapsto> PAL_MODE_OUTPUT_PUSHPULL, pad_of b \<mapsto> PAL_MODE_INPUT_PULLUP) \<and>
      vexDefConfig q = vexDefConfig p \<and> sonar_installed q = insert channel (sonar_installed p) \<and> enc_installed q = enc_installed p \<and>
      motors q = motors p"
    using r d1(3) d2(3) d3 p by (auto simp: ports_ok_def enc_installed_def s_def)
next
  fix p :: "'w ports" and a b :: int and channel :: nat
  assume "0 \<le> a" "0 \<le> b" "\<not> channel < 5"
  then show "add_sonar channel a b p = Some p" by (simp add: add_sonar_def bad_pins_def vexSonarAdd_def kVexSonar_Num_def)
qed

section \<open>The whole configuration\<close>

definition config_writes :: "vexDigiCfg list \<Rightarrow> vexDigiCfg \<Rightarrow> writes" where
  "config_writes es e =
     (case cfg_cfg e of
        kVexConfigInput \<Rightarrow> [(pad_of (cfg_pin e), PAL_MODE_INPUT_PULLUP)]
      | kVexConfigOutput \<Rightarrow> [(pad_of (cfg_pin e), PAL_MODE_OUTPUT_PUSHPULL)]
      | kVexConfigInterrupt \<Rightarrow> [(pad_of (cfg_pin e), PAL_MODE_INPUT_PULLUP)]
      | kVexConfigQuadEnc1 \<Rightarrow> pair_writes PAL_MODE_INPUT_PULLUP PAL_MODE_INPUT_PULLUP kVexConfigQuadEnc2 e es
      | kVexConfigSonarOut \<Rightarrow> pair_writes PAL_MODE_OUTPUT_PUSHPULL PAL_MODE_INPUT_PULLUP kVexConfigSonarIn e es
      | _ \<Rightarrow> [])"

definition pair_channels :: "tVexDigitalConfig \<Rightarrow> tVexDigitalConfig \<Rightarrow> vexDigiCfg list \<Rightarrow> vexDigiCfg \<Rightarrow> nat set" where
  "pair_channels k1 k2 es e = (if cfg_cfg e = k1 \<and> partners k2 e es \<noteq> [] then {unat (cfg_chan e)} else {})"

definition saved :: "vexDigiCfg \<Rightarrow> vexDigiCfg list \<Rightarrow> bool" where
  "saved e d \<longleftrightarrow> cfg_type (d ! nat (cfg_pin e)) = cfg_type e \<and> cfg_cfg (d ! nat (cfg_pin e)) = cfg_cfg e \<and>
     cfg_chan (d ! nat (cfg_pin e)) = cfg_chan e"

lemma on_pins_effect:
  assumes "f (dig p) = Some d" "dig_ok d" "ports_ok p"
  shows "\<exists>q. on_pins f p = Some q \<and> ports_ok q \<and> dig q = d \<and> vexDefConfig q = vexDefConfig p \<and> enc_installed q = enc_installed p \<and>
    sonar_installed q = sonar_installed p \<and> motors q = motors p"
  using assms by (auto simp: on_pins_def ports_ok_def)

lemma configure_sensor_effect:
  assumes "ports_ok p" "pins_ok es" "e \<in> set es"
  shows "\<exists>q. (case cfg_cfg e of
            kVexConfigInput \<Rightarrow> on_pins (vexDigitalModeSet (cfg_pin e) kVexDigitalInput) p
          | kVexConfigOutput \<Rightarrow> on_pins (vexDigitalModeSet (cfg_pin e) kVexDigitalOutput) p
          | kVexConfigQuadEnc1 \<Rightarrow> add_pairs add_encoder kVexConfigQuadEnc2 e es p
          | kVexConfigSonarOut \<Rightarrow> add_pairs add_sonar kVexConfigSonarIn e es p
          | kVexConfigInterrupt \<Rightarrow> on_pins (vexDigitalIntrSet (cfg_pin e)) p
          | _ \<Rightarrow> Some p) = Some q \<and> ports_ok q \<and>
    pad_mode (dig q) = apply_writes (config_writes es e) (pad_mode (dig p)) \<and> vexDefConfig q = vexDefConfig p \<and>
    enc_installed q = enc_installed p \<union> pair_channels kVexConfigQuadEnc1 kVexConfigQuadEnc2 es e \<and>
    sonar_installed q = sonar_installed p \<union> pair_channels kVexConfigSonarOut kVexConfigSonarIn es e \<and> motors q = motors p"
proof -
  have pin: "0 \<le> cfg_pin e" "cfg_pin e < 12" using assms(2,3) by (auto simp: pins_ok_def)
  have d: "dig_ok (dig p)" using assms(1) by (simp add: ports_ok_def)
  note defs = config_writes_def pair_channels_def iomode_def
  show ?thesis
  proof (cases "cfg_cfg e")
    case kVexConfigInput
    obtain d' where "vexDigitalModeSet (cfg_pin e) kVexDigitalInput (dig p) = Some d'" "dig_ok d'"
      "pad_mode d' = (pad_mode (dig p))(pad_of (cfg_pin e) \<mapsto> iomode kVexDigitalInput)" using mode_set_effect [OF d pin] by blast
    then show ?thesis using on_pins_effect [of "vexDigitalModeSet (cfg_pin e) kVexDigitalInput" p d'] assms(1) kVexConfigInput by (auto simp: defs)
  next
    case kVexConfigOutput
    obtain d' where "vexDigitalModeSet (cfg_pin e) kVexDigitalOutput (dig p) = Some d'" "dig_ok d'"
      "pad_mode d' = (pad_mode (dig p))(pad_of (cfg_pin e) \<mapsto> iomode kVexDigitalOutput)" using mode_set_effect [OF d pin] by blast
    then show ?thesis using on_pins_effect [of "vexDigitalModeSet (cfg_pin e) kVexDigitalOutput" p d'] assms(1) kVexConfigOutput by (auto simp: defs)
  next
    case kVexConfigInterrupt
    obtain d' where "vexDigitalIntrSet (cfg_pin e) (dig p) = Some d'" "dig_ok d'"
      "pad_mode d' = (pad_mode (dig p))(pad_of (cfg_pin e) \<mapsto> PAL_MODE_INPUT_PULLUP)" using intr_set_effect [OF d pin] by blast
    then show ?thesis using on_pins_effect [of "vexDigitalIntrSet (cfg_pin e)" p d'] assms(1) kVexConfigInterrupt by (auto simp: defs)
  next
    case kVexConfigQuadEnc1
    then show ?thesis using encoder_pair.pairs_effect [OF assms(1) pin assms(2), of kVexConfigQuadEnc2] by (auto simp: defs)
  next
    case kVexConfigSonarOut
    then show ?thesis using sonar_pair.pairs_effect [OF assms(1) pin assms(2), of kVexConfigSonarIn] by (auto simp: defs)
  qed (use assms(1) in \<open>simp_all add: defs\<close>)
qed

lemma save_effect:
  assumes "ports_ok p" "0 \<le> cfg_pin e" "cfg_pin e < 12"
  shows "\<exists>q. save_config e p = Some q \<and> ports_ok q \<and> dig q = dig p \<and> saved e (vexDefConfig q) \<and>
    (\<forall>i. i \<noteq> nat (cfg_pin e) \<longrightarrow> vexDefConfig q ! i = vexDefConfig p ! i) \<and> enc_installed q = enc_installed p \<and>
    sonar_installed q = sonar_installed p \<and> motors q = motors p"
  using assms by (auto simp: save_config_def ports_ok_def saved_def enc_installed_def sonar_installed_def nat_less_iff)

lemma configure_pin_effect:
  assumes "ports_ok p" "pins_ok es" "e \<in> set es"
  shows "\<exists>q. configure_pin es e p = Some q \<and> ports_ok q \<and> pad_mode (dig q) = apply_writes (config_writes es e) (pad_mode (dig p)) \<and>
    saved e (vexDefConfig q) \<and> (\<forall>i. i \<noteq> nat (cfg_pin e) \<longrightarrow> vexDefConfig q ! i = vexDefConfig p ! i) \<and>
    enc_installed q = enc_installed p \<union> pair_channels kVexConfigQuadEnc1 kVexConfigQuadEnc2 es e \<and>
    sonar_installed q = sonar_installed p \<union> pair_channels kVexConfigSonarOut kVexConfigSonarIn es e \<and> motors q = motors p"
proof -
  have pin: "0 \<le> cfg_pin e" "cfg_pin e < 12" using assms(2,3) by (auto simp: pins_ok_def)
  from configure_sensor_effect [OF assms] obtain r where r: "ports_ok r"
    "pad_mode (dig r) = apply_writes (config_writes es e) (pad_mode (dig p))" "vexDefConfig r = vexDefConfig p"
    "enc_installed r = enc_installed p \<union> pair_channels kVexConfigQuadEnc1 kVexConfigQuadEnc2 es e"
    "sonar_installed r = sonar_installed p \<union> pair_channels kVexConfigSonarOut kVexConfigSonarIn es e" "motors r = motors p"
    "configure_pin es e p = save_config e r"
    unfolding configure_pin_def by (elim exE conjE) simp
  from save_effect [OF r(1) pin] show ?thesis using r(2-7) by auto
qed

lemma configure_loop_effect:
  "ports_ok p \<Longrightarrow> pins_ok es \<Longrightarrow> \<forall>i\<in>set is. i < length es \<Longrightarrow> distinct (map (\<lambda>i. cfg_pin (es ! i)) is) \<Longrightarrow>
    \<exists>q. configure_loop (Some es) (length es) is p = Some q \<and> ports_ok q \<and>
      pad_mode (dig q) = apply_writes (concat (map (\<lambda>i. config_writes es (es ! i)) is)) (pad_mode (dig p)) \<and>
      (\<forall>i\<in>set is. saved (es ! i) (vexDefConfig q)) \<and>
      (\<forall>k. k \<notin> (\<lambda>i. nat (cfg_pin (es ! i))) ` set is \<longrightarrow> vexDefConfig q ! k = vexDefConfig p ! k) \<and>
      enc_installed q = enc_installed p \<union> (\<Union>i\<in>set is. pair_channels kVexConfigQuadEnc1 kVexConfigQuadEnc2 es (es ! i)) \<and>
      sonar_installed q = sonar_installed p \<union> (\<Union>i\<in>set is. pair_channels kVexConfigSonarOut kVexConfigSonarIn es (es ! i)) \<and>
      motors q = motors p"
proof (induction "is" arbitrary: p)
  case Nil
  then show ?case by simp
next
  case (Cons i "is")
  have i: "es ! i \<in> set es" using Cons.prems(3) by simp
  obtain q where q: "configure_pin es (es ! i) p = Some q" "ports_ok q"
    "pad_mode (dig q) = apply_writes (config_writes es (es ! i)) (pad_mode (dig p))" "saved (es ! i) (vexDefConfig q)"
    "\<And>k. k \<noteq> nat (cfg_pin (es ! i)) \<Longrightarrow> vexDefConfig q ! k = vexDefConfig p ! k"
    "enc_installed q = enc_installed p \<union> pair_channels kVexConfigQuadEnc1 kVexConfigQuadEnc2 es (es ! i)"
    "sonar_installed q = sonar_installed p \<union> pair_channels kVexConfigSonarOut kVexConfigSonarIn es (es ! i)" "motors q = motors p"
    using configure_pin_effect [OF Cons.prems(1,2) i] by blast
  have rest: "\<forall>i\<in>set is. i < length es" "distinct (map (\<lambda>i. cfg_pin (es ! i)) is)" using Cons.prems(3,4) by simp_all
  obtain r where r: "configure_loop (Some es) (length es) is q = Some r" "ports_ok r"
    "pad_mode (dig r) = apply_writes (concat (map (\<lambda>i. config_writes es (es ! i)) is)) (pad_mode (dig q))"
    "\<forall>i\<in>set is. saved (es ! i) (vexDefConfig r)"
    "\<And>k. k \<notin> (\<lambda>i. nat (cfg_pin (es ! i))) ` set is \<Longrightarrow> vexDefConfig r ! k = vexDefConfig q ! k"
    "enc_installed r = enc_installed q \<union> (\<Union>i\<in>set is. pair_channels kVexConfigQuadEnc1 kVexConfigQuadEnc2 es (es ! i))"
    "sonar_installed r = sonar_installed q \<union> (\<Union>i\<in>set is. pair_channels kVexConfigSonarOut kVexConfigSonarIn es (es ! i))"
    "motors r = motors q"
    using Cons.IH [OF q(2) Cons.prems(2) rest] by blast
  have "nat (cfg_pin (es ! i)) \<notin> (\<lambda>i. nat (cfg_pin (es ! i))) ` set is"
  proof
    assume "nat (cfg_pin (es ! i)) \<in> (\<lambda>i. nat (cfg_pin (es ! i))) ` set is"
    then obtain j where j: "j \<in> set is" "nat (cfg_pin (es ! i)) = nat (cfg_pin (es ! j))" by auto
    have "0 \<le> cfg_pin (es ! i)" "0 \<le> cfg_pin (es ! j)" using Cons.prems(2,3) j(1) by (auto simp: pins_ok_def)
    then have "cfg_pin (es ! i) = cfg_pin (es ! j)" using j(2) by linarith
    then show False using Cons.prems(4) j(1) by auto
  qed
  then have "saved (es ! i) (vexDefConfig r)" using r(5) q(4) by (simp add: saved_def)
  then show ?case using q r by (auto simp: Un_assoc)
qed

text \<open>The mode an entry gives its pin, if any: a pin of a pair needs the other.\<close>

definition has_partner :: "tVexDigitalConfig \<Rightarrow> vexDigiCfg list \<Rightarrow> vexDigiCfg \<Rightarrow> bool" where
  "has_partner other es e \<longleftrightarrow> unat (cfg_chan e) < 5 \<and> (\<exists>e2\<in>set es. cfg_cfg e2 = other \<and> cfg_chan e2 = cfg_chan e)"

definition pin_effect :: "vexDigiCfg list \<Rightarrow> vexDigiCfg \<Rightarrow> iomode_t option" where
  "pin_effect es e =
     (case cfg_cfg e of
        kVexConfigInput \<Rightarrow> Some PAL_MODE_INPUT_PULLUP
      | kVexConfigOutput \<Rightarrow> Some PAL_MODE_OUTPUT_PUSHPULL
      | kVexConfigInterrupt \<Rightarrow> Some PAL_MODE_INPUT_PULLUP
      | kVexConfigQuadEnc1 \<Rightarrow> if has_partner kVexConfigQuadEnc2 es e then Some PAL_MODE_INPUT_PULLUP else None
      | kVexConfigQuadEnc2 \<Rightarrow> if has_partner kVexConfigQuadEnc1 es e then Some PAL_MODE_INPUT_PULLUP else None
      | kVexConfigSonarOut \<Rightarrow> if has_partner kVexConfigSonarIn es e then Some PAL_MODE_OUTPUT_PUSHPULL else None
      | kVexConfigSonarIn \<Rightarrow> if has_partner kVexConfigSonarOut es e then Some PAL_MODE_INPUT_PULLUP else None)"

lemma pair_write:
  "w \<in> set (pair_writes m1 m2 other e es) \<longleftrightarrow> (\<exists>e2\<in>set es. cfg_cfg e2 = other \<and> cfg_chan e = cfg_chan e2 \<and> unat (cfg_chan e) < 5 \<and>
     (w = (pad_of (cfg_pin e), m1) \<or> w = (pad_of (cfg_pin e2), m2)))"
  by (auto simp: pair_writes_def partners_def)

lemma write_sound:
  assumes "pins_ok es" "distinct (map cfg_pin es)" "e \<in> set es" "e1 \<in> set es" "(pad_of (cfg_pin e), m) \<in> set (config_writes es e1)"
  shows "pin_effect es e = Some m"
proof -
  have same: "pad_of (cfg_pin e) = pad_of (cfg_pin e2) \<longleftrightarrow> e = e2" if "e2 \<in> set es" for e2
    using that assms(1-3) pad_inj [of "cfg_pin e" "cfg_pin e2"] by (auto simp: pins_ok_def distinct_map dest: inj_onD)
  show ?thesis
    using assms(4,5)
    by (cases "cfg_cfg e1") (auto simp: config_writes_def pair_write pin_effect_def has_partner_def same)
qed

lemma write_complete:
  assumes "e \<in> set es" "pin_effect es e = Some m"
  shows "\<exists>e1\<in>set es. (pad_of (cfg_pin e), m) \<in> set (config_writes es e1)"
proof (cases "cfg_cfg e = kVexConfigQuadEnc2 \<or> cfg_cfg e = kVexConfigSonarIn")
  case True
  then obtain e1 where e1: "e1 \<in> set es" "cfg_chan e1 = cfg_chan e" "unat (cfg_chan e) < 5"
    "cfg_cfg e = kVexConfigQuadEnc2 \<and> cfg_cfg e1 = kVexConfigQuadEnc1 \<or> cfg_cfg e = kVexConfigSonarIn \<and> cfg_cfg e1 = kVexConfigSonarOut"
    "m = PAL_MODE_INPUT_PULLUP"
    using assms(2) by (auto simp: pin_effect_def has_partner_def split: if_splits)
  then have "(pad_of (cfg_pin e), m) \<in> set (config_writes es e1)"
    using assms(1) by (auto simp: config_writes_def pair_write intro!: bexI [of _ e])
  then show ?thesis using e1(1) by blast
next
  case False
  have "(pad_of (cfg_pin e), m) \<in> set (config_writes es e)"
    using assms False by (cases "cfg_cfg e") (auto simp: config_writes_def pair_write pin_effect_def has_partner_def split: if_splits)
  then show ?thesis using assms(1) by blast
qed

lemma config_mode:
  assumes "pins_ok es" "distinct (map cfg_pin es)" "e \<in> set es"
  shows "apply_writes (concat (map (config_writes es) es)) f (pad_of (cfg_pin e)) =
    (case pin_effect es e of Some m \<Rightarrow> Some m | None \<Rightarrow> f (pad_of (cfg_pin e)))"
proof -
  let ?W = "concat (map (config_writes es) es)"
  have s: "(pad_of (cfg_pin e), m) \<in> set ?W \<longleftrightarrow> pin_effect es e = Some m" for m
    using write_sound [OF assms(1-3)] write_complete [OF assms(3), of m] by auto
  show ?thesis
  proof (cases "pin_effect es e")
    case None
    then show ?thesis using apply_writes_same [of "pad_of (cfg_pin e)" ?W PAL_MODE_INPUT_PULLUP f] s by (metis option.simps(3,4))
  next
    case (Some m)
    then show ?thesis using apply_writes_same [of "pad_of (cfg_pin e)" ?W m f] s by (metis option.inject option.simps(5))
  qed
qed

text \<open>The channels whose two pins are in the configuration.\<close>

definition paired :: "tVexDigitalConfig \<Rightarrow> tVexDigitalConfig \<Rightarrow> vexDigiCfg list \<Rightarrow> nat set" where
  "paired k1 k2 es = {unat (cfg_chan e) | e. e \<in> set es \<and> cfg_cfg e = k1 \<and> has_partner k2 es e}"

lemma partners_iff: "partners k2 e es \<noteq> [] \<longleftrightarrow> has_partner k2 es e"
  by (auto simp: partners_def filter_empty_conv has_partner_def) metis

lemma pair_channels_paired: "(\<Union>e\<in>set es. pair_channels k1 k2 es e) = paired k1 k2 es"
  by (auto simp: pair_channels_def paired_def partners_iff split: if_splits)

definition sound_config :: "vexDigiCfg list \<Rightarrow> bool" where
  "sound_config es \<longleftrightarrow> pins_ok es \<and> distinct (map cfg_pin es)"

lemma configure_effect:
  assumes "ports_ok p" "sound_config es"
  shows "\<exists>q. vexDigitalConfigure (Some es) (int (length es)) p = Some q \<and> ports_ok q \<and>
    (\<forall>e\<in>set es. saved e (vexDefConfig q) \<and>
       pad_mode (dig q) (pad_of (cfg_pin e)) = (case pin_effect es e of Some m \<Rightarrow> Some m | None \<Rightarrow> pad_mode (dig p) (pad_of (cfg_pin e)))) \<and>
    enc_installed q = enc_installed p \<union> paired kVexConfigQuadEnc1 kVexConfigQuadEnc2 es \<and>
    sonar_installed q = sonar_installed p \<union> paired kVexConfigSonarOut kVexConfigSonarIn es \<and> motors q = motors p"
proof -
  have es: "pins_ok es" "distinct (map cfg_pin es)" using assms(2) by (simp_all add: sound_config_def)
  have n: "map (\<lambda>i. g (es ! i)) [0..<length es] = map g es" for g :: "vexDigiCfg \<Rightarrow> 'b" by (rule nth_equalityI) simp_all
  have u: "(\<Union>i\<in>set [0..<length es]. g (es ! i)) = (\<Union>e\<in>set es. g e)" for g :: "vexDigiCfg \<Rightarrow> nat set"
    by (auto simp: set_conv_nth)
  have b: "(\<forall>i\<in>set [0..<length es]. saved (es ! i) d) \<longleftrightarrow> (\<forall>e\<in>set es. saved e d)" for d by (auto simp: set_conv_nth)
  show ?thesis
    using configure_loop_effect [OF assms(1) es(1), of "[0..<length es]"] es(2) config_mode [OF es]
    unfolding n u b pair_channels_paired by (auto simp: vexDigitalConfigure_def)
qed

text \<open>C38: A configuration takes effect: with different pins of the board, in any order, configuring them never leaves the
  tables, afterwards type, channel and kind of every pin read back as configured, every input, output and interrupt has its
  mode, the two pins of an encoder or sonar have theirs exactly when the other pin of the channel is there too, and the
  encoders and sonars with both pins are installed, and no others.\<close>

theorem configuration_takes_effect:
  assumes "ports_ok p" "sound_config es"
  shows "\<exists>q. vexDigitalConfigure (Some es) (int (length es)) p = Some q \<and> ports_ok q \<and>
    (\<forall>e\<in>set es. vexDigitalTypeGet (cfg_pin e) q = Some (cfg_type e) \<and> vexDigitalChannelGet (cfg_pin e) q = Some (cfg_chan e) \<and>
       vexDigitalCfgGet (cfg_pin e) q = Some (config_number (cfg_cfg e)) \<and>
       pad_mode (dig q) (pad_of (cfg_pin e)) = (case pin_effect es e of Some m \<Rightarrow> Some m | None \<Rightarrow> pad_mode (dig p) (pad_of (cfg_pin e)))) \<and>
    enc_installed q = enc_installed p \<union> paired kVexConfigQuadEnc1 kVexConfigQuadEnc2 es \<and>
    sonar_installed q = sonar_installed p \<union> paired kVexConfigSonarOut kVexConfigSonarIn es"
proof -
  obtain q where q: "vexDigitalConfigure (Some es) (int (length es)) p = Some q" "ports_ok q"
    "\<forall>e\<in>set es. saved e (vexDefConfig q) \<and>
       pad_mode (dig q) (pad_of (cfg_pin e)) = (case pin_effect es e of Some m \<Rightarrow> Some m | None \<Rightarrow> pad_mode (dig p) (pad_of (cfg_pin e)))"
    "enc_installed q = enc_installed p \<union> paired kVexConfigQuadEnc1 kVexConfigQuadEnc2 es"
    "sonar_installed q = sonar_installed p \<union> paired kVexConfigSonarOut kVexConfigSonarIn es"
    using configure_effect [OF assms] by blast
  have "vexDigitalTypeGet (cfg_pin e) q = Some (cfg_type e) \<and> vexDigitalChannelGet (cfg_pin e) q = Some (cfg_chan e) \<and>
       vexDigitalCfgGet (cfg_pin e) q = Some (config_number (cfg_cfg e))" if "e \<in> set es" for e
    using that q(2,3) assms(2)
    by (auto simp: vexDigitalTypeGet_def vexDigitalChannelGet_def vexDigitalCfgGet_def config_of_def saved_def ports_ok_def
        sound_config_def pins_ok_def kVexDigital_12_def nat_less_iff)
  then show ?thesis using q by auto
qed

section \<open>A configuration of seven pins\<close>

definition ime_reset :: "unit vexImeData" where
  "ime_reset = \<lparr>i2cp = \<lparr>i2c_state = I2C_READY, i2c_errors = 0, wire = ()\<rparr>, ime_num = 0, nextAddress = 0, error_lockup = 0, error_ack = 0,
     error_bus = 0, error_arb = 0, error_tim = 0, error_seq = 0, action = 0, ime_debug = 0,
     imes = replicate 8 \<lparr>address = 0, ime_type = 0, valid = 0, motor_index = 0, version = replicate 8 0, vendor = replicate 8 0,
       deviceid = replicate 8 0, enc_data = replicate 16 0, ime_count = 0, ime_offset = 0, velocity = 0, delta_count = 0, rpm = 0,
       old_count = 0, rpm_constant = 0, data_polls = 0, data_errors = 0\<rparr>, last_errors = 0\<rparr>"

definition ports_reset :: "unit ports" where
  "ports_reset = \<lparr>samples_buf = replicate 8 0,
     vexQuadEncoders = replicate 5 \<lparr>count = 0, offset = 0, enc_state = 0, pa = 0, pb = 0, pa_pad = (0, 0), pb_pad = (0, 0)\<rparr>,
     sonars = sonar_reset, vexImes = ime_reset, motors = motor_memory, vexDefConfig = default_config\<rparr>"

lemma reset_ok: "dig_ok digital_reset" "ports_ok ports_reset"
proof -
  have l: "length vexExtCfg = 16" "map io_pad vexioDefinition = digio_pads" by code_simp+
  then show d: "dig_ok digital_reset" by (simp add: dig_ok_def digital_reset_def)
  have "length default_config = 12" by code_simp
  then show "ports_ok ports_reset" using d by (simp add: ports_ok_def ports_reset_def sonar_reset_def)
qed

lemma reset_installed: "enc_installed ports_reset = {}" "sonar_installed ports_reset = {}"
  by (auto simp: enc_installed_def sonar_installed_def ports_reset_def sonar_reset_def sonar_consts)

text \<open>An output, an encoder, a sonar, one pin of an encoder alone and an interrupt.\<close>

definition sample_config :: "vexDigiCfg list" where
  "sample_config = map (\<lambda>(pin, t, c, ch). \<lparr>cfg_pin = pin, cfg_type = t, cfg_cfg = c, cfg_chan = ch\<rparr>)
     [(0, kVexSensorDigitalOutput, kVexConfigOutput, 0), (3, kVexSensorQuadEncoder, kVexConfigQuadEnc2, 1),
      (2, kVexSensorQuadEncoder, kVexConfigQuadEnc1, 1), (4, kVexSensorSonarCm, kVexConfigSonarOut, 0),
      (5, kVexSensorSonarCm, kVexConfigSonarIn, 0), (6, kVexSensorQuadEncoder, kVexConfigQuadEnc2, 4),
      (11, kVexSensorInterrupt, kVexConfigInterrupt, 0)]"

lemma sample_config: "sound_config sample_config"
  "map (\<lambda>e. (cfg_pin e, cfg_type e, pin_effect sample_config e)) sample_config =
     [(0, kVexSensorDigitalOutput, Some PAL_MODE_OUTPUT_PUSHPULL), (3, kVexSensorQuadEncoder, Some PAL_MODE_INPUT_PULLUP),
      (2, kVexSensorQuadEncoder, Some PAL_MODE_INPUT_PULLUP), (4, kVexSensorSonarCm, Some PAL_MODE_OUTPUT_PUSHPULL),
      (5, kVexSensorSonarCm, Some PAL_MODE_INPUT_PULLUP), (6, kVexSensorQuadEncoder, None),
      (11, kVexSensorInterrupt, Some PAL_MODE_INPUT_PULLUP)]" (is ?effects)
  "paired kVexConfigQuadEnc1 kVexConfigQuadEnc2 sample_config = {1}" "paired kVexConfigSonarOut kVexConfigSonarIn sample_config = {0}"
proof -
  have "list_all (\<lambda>e. 0 \<le> cfg_pin e \<and> cfg_pin e < 12) sample_config" "distinct (map cfg_pin sample_config)" by code_simp+
  then show "sound_config sample_config" by (simp add: sound_config_def pins_ok_def list_all_iff)
  show ?effects by code_simp
  have "map (\<lambda>e. unat (cfg_chan e)) (filter (\<lambda>e. cfg_cfg e = kVexConfigQuadEnc1 \<and> has_partner kVexConfigQuadEnc2 sample_config e) sample_config) = [1]"
    "map (\<lambda>e. unat (cfg_chan e)) (filter (\<lambda>e. cfg_cfg e = kVexConfigSonarOut \<and> has_partner kVexConfigSonarIn sample_config e) sample_config) = [0]"
    by code_simp+
  moreover have "paired k1 k2 es = set (map (\<lambda>e. unat (cfg_chan e)) (filter (\<lambda>e. cfg_cfg e = k1 \<and> has_partner k2 es e) es))" for k1 k2 es
    by (auto simp: paired_def)
  ultimately show "paired kVexConfigQuadEnc1 kVexConfigQuadEnc2 sample_config = {1}" "paired kVexConfigSonarOut kVexConfigSonarIn sample_config = {0}"
    by (simp_all only: list.set)
qed

lemma configuration_takes_effect_witness:
  "\<exists>q. vexDigitalConfigure (Some sample_config) 7 ports_reset = Some q \<and> vexDigitalTypeGet 3 q = Some kVexSensorQuadEncoder \<and>
     pad_mode (dig q) (pad_of 4) = Some PAL_MODE_OUTPUT_PUSHPULL \<and> pad_mode (dig q) (pad_of 6) = None \<and>
     enc_installed q = {1} \<and> sonar_installed q = {0}"
proof -
  have n: "length sample_config = 7" "pad_mode (dig ports_reset) = (\<lambda>_. None)"
    by (simp_all add: sample_config_def ports_reset_def sonar_reset_def digital_reset_def)
  have opt: "(case x of None \<Rightarrow> None | Some m \<Rightarrow> Some m) = x" for x :: "iomode_t option" by (cases x) simp_all
  obtain q where q: "vexDigitalConfigure (Some sample_config) 7 ports_reset = Some q"
    "\<forall>e\<in>set sample_config. vexDigitalTypeGet (cfg_pin e) q = Some (cfg_type e) \<and> pad_mode (dig q) (pad_of (cfg_pin e)) = pin_effect sample_config e"
    "enc_installed q = {1}" "sonar_installed q = {0}"
    using configuration_takes_effect [OF reset_ok(2) sample_config(1)]
    unfolding n opt reset_installed sample_config(3,4) Un_empty_left by (simp only: of_nat_numeral) blast
  have "vexDigitalTypeGet 3 q = Some kVexSensorQuadEncoder" "pad_mode (dig q) (pad_of 4) = Some PAL_MODE_OUTPUT_PUSHPULL"
    "pad_mode (dig q) (pad_of 6) = None"
    using q(2) sample_config(2) by (simp_all add: sample_config_def)
  then show ?thesis using q by blast
qed

end
