(* ===== verification/Subsystems.thy ===== *)
theory Subsystems
  imports SmartMotor_Properties VexSpi
begin

text \<open>
  The six subsystems of the robot, \<open>arm.c\<close>, \<open>drive.c\<close>, \<open>flipper.c\<close>, \<open>intake.c\<close>, \<open>lift.c\<close> and \<open>setter.c\<close> of
  \<open>src/src\<close>. Each has motors, a flag \<open>locked\<close> that gives the joysticks control of them, and a thread that
  every 25 ms turns the joysticks into motor commands; one round of a thread is a function of the joysticks,
  which are taken to stand still during it. Creating the threads is not modelled.
\<close>

section \<open>Speed tables\<close>

definition armSpeedTable :: "int list" where
  "armSpeedTable = [
     0, 0, 0, 0, 0, 0, 0, 0, 0, 0, 0, 21, 21, 21, 22, 22, 22, 23, 24, 24, 25, 25, 25, 25, 26, 27, 27, 28, 28, 28, 28, 29,
     30, 30, 30, 31, 31, 32, 32, 32, 33, 33, 34, 34, 35, 35, 35, 36, 36, 37, 37, 37, 37, 38, 38, 39, 39, 39, 40, 40, 41, 41, 42, 42,
     43, 44, 44, 45, 45, 46, 46, 47, 47, 48, 48, 49, 50, 50, 51, 52, 52, 53, 54, 55, 56, 57, 57, 58, 59, 60, 61, 62, 63, 64, 65, 66,
     67, 67, 68, 70, 71, 72, 72, 73, 74, 76, 77, 78, 79, 79, 80, 81, 83, 84, 84, 86, 86, 87, 87, 88, 88, 89, 89, 90, 90, 127, 127, 127]"

definition driveSpeedTable :: "int list" where
  "driveSpeedTable = [
     0, 0, 0, 0, 0, 0, 0, 0, 0, 0, 0, 21, 21, 21, 22, 22, 22, 23, 24, 24, 25, 25, 25, 25, 26, 27, 27, 28, 28, 28, 28, 29,
     30, 30, 30, 31, 31, 32, 32, 32, 33, 33, 34, 34, 35, 35, 35, 36, 36, 37, 37, 37, 37, 38, 38, 39, 39, 39, 40, 40, 41, 41, 42, 42,
     43, 44, 44, 45, 45, 46, 46, 47, 47, 48, 48, 49, 50, 50, 51, 52, 52, 53, 54, 55, 56, 57, 57, 58, 59, 60, 61, 62, 63, 64, 65, 66,
     67, 67, 68, 70, 71, 72, 72, 73, 74, 76, 77, 78, 79, 79, 80, 81, 83, 84, 84, 86, 86, 87, 87, 88, 88, 89, 89, 90, 90, 127, 127, 127]"

definition flipperSpeedTable :: "int list" where
  "flipperSpeedTable = [
     0, 0, 0, 0, 0, 0, 0, 0, 0, 0, 0, 21, 21, 21, 22, 22, 22, 23, 24, 24, 25, 25, 25, 25, 26, 27, 27, 28, 28, 28, 28, 29,
     30, 30, 30, 31, 31, 32, 32, 32, 33, 33, 34, 34, 35, 35, 35, 36, 36, 37, 37, 37, 37, 38, 38, 39, 39, 39, 40, 40, 41, 41, 42, 42,
     43, 44, 44, 45, 45, 46, 46, 47, 47, 48, 48, 49, 50, 50, 51, 52, 52, 53, 54, 55, 56, 57, 57, 58, 59, 60, 61, 62, 63, 64, 65, 66,
     67, 67, 68, 70, 71, 72, 72, 73, 74, 76, 77, 78, 79, 79, 80, 81, 83, 84, 84, 86, 86, 87, 87, 88, 88, 89, 89, 90, 90, 127, 127, 127]"

definition intakeSpeedTable :: "int list" where
  "intakeSpeedTable = [
     0, 0, 0, 0, 0, 0, 0, 0, 0, 0, 0, 21, 21, 21, 22, 22, 22, 23, 24, 24, 25, 25, 25, 25, 26, 27, 27, 28, 28, 28, 28, 29,
     30, 30, 30, 31, 31, 32, 32, 32, 33, 33, 34, 34, 35, 35, 35, 36, 36, 37, 37, 37, 37, 38, 38, 39, 39, 39, 40, 40, 41, 41, 42, 42,
     43, 44, 44, 45, 45, 46, 46, 47, 47, 48, 48, 49, 50, 50, 51, 52, 52, 53, 54, 55, 56, 57, 57, 58, 59, 60, 61, 62, 63, 64, 65, 66,
     67, 67, 68, 70, 71, 72, 72, 73, 74, 76, 77, 78, 79, 79, 80, 81, 83, 84, 84, 86, 86, 87, 87, 88, 88, 89, 89, 90, 90, 127, 127, 127]"

definition liftSpeedTable :: "int list" where
  "liftSpeedTable = [
     0, 0, 0, 0, 0, 0, 0, 0, 0, 0, 0, 21, 21, 21, 22, 22, 22, 23, 24, 24, 25, 25, 25, 25, 26, 27, 27, 28, 28, 28, 28, 29,
     30, 30, 30, 31, 31, 32, 32, 32, 33, 33, 34, 34, 35, 35, 35, 36, 36, 37, 37, 37, 37, 38, 38, 39, 39, 39, 40, 40, 41, 41, 42, 42,
     43, 44, 44, 45, 45, 46, 46, 47, 47, 48, 48, 49, 50, 50, 51, 52, 52, 53, 54, 55, 56, 57, 57, 58, 59, 60, 61, 62, 63, 64, 65, 66,
     67, 67, 68, 70, 71, 72, 72, 73, 74, 76, 77, 78, 79, 79, 80, 81, 83, 84, 84, 86, 86, 87, 87, 88, 88, 89, 89, 90, 90, 127, 127, 127]"

definition setterSpeedTable :: "int list" where
  "setterSpeedTable = [
     0, 0, 0, 0, 0, 0, 0, 0, 0, 0, 0, 21, 21, 21, 22, 22, 22, 23, 24, 24, 25, 25, 25, 25, 26, 27, 27, 28, 28, 28, 28, 29,
     30, 30, 30, 31, 31, 32, 32, 32, 33, 33, 34, 34, 35, 35, 35, 36, 36, 37, 37, 37, 37, 38, 38, 39, 39, 39, 40, 40, 41, 41, 42, 42,
     43, 44, 44, 45, 45, 46, 46, 47, 47, 48, 48, 49, 50, 50, 51, 52, 52, 53, 54, 55, 56, 57, 57, 58, 59, 60, 61, 62, 63, 64, 65, 66,
     67, 67, 68, 70, 71, 72, 72, 73, 74, 76, 77, 78, 79, 79, 80, 81, 83, 84, 84, 86, 86, 87, 87, 88, 88, 89, 89, 90, 90, 127, 127, 127]"

text \<open>The product of an \<open>int\<close> and an \<open>unsigned int\<close> is unsigned; it is returned as an \<open>int\<close>.\<close>

definition table_speed :: "int list \<Rightarrow> int \<Rightarrow> int" where
  "table_speed table speed =
     i32 (((of_bool (speed > 0) - of_bool (speed < 0)) * table ! nat \<bar>speed\<bar>) mod 2 ^ 32)"

definition armSpeed :: "int \<Rightarrow> int" where
  "armSpeed speed =
     (let speed = (if speed > 127 then 127 else if speed < - 127 then - 127 else speed)
      in table_speed armSpeedTable speed)"

definition driveSpeed :: "int \<Rightarrow> int" where
  "driveSpeed speed =
     (let speed = (if speed > 127 then 127 else if speed < - 127 then - 127 else speed)
      in table_speed driveSpeedTable speed)"

definition flipperSpeed :: "int \<Rightarrow> int" where
  "flipperSpeed speed =
     (let speed = (if speed > 127 then 127 else if speed < - 127 then - 127 else speed)
      in table_speed flipperSpeedTable speed)"

definition intakeSpeed :: "int \<Rightarrow> int" where
  "intakeSpeed speed =
     (let speed = (if speed > 127 then 127 else if speed < - 127 then - 127 else speed)
      in table_speed intakeSpeedTable speed)"

definition liftSpeed :: "int \<Rightarrow> int" where
  "liftSpeed speed =
     (let speed = (if speed > 127 then 127 else if speed < - 127 then - 127 else speed)
      in table_speed liftSpeedTable speed)"

definition setterSpeed :: "int \<Rightarrow> int" where
  "setterSpeed speed =
     (let speed = (if speed > 50 then 50 else if speed < - 50 then - 50 else speed)
      in table_speed setterSpeedTable speed)"

definition limitSpeed :: "int \<Rightarrow> int \<Rightarrow> int" where
  "limitSpeed speed limit = (if \<bar>speed\<bar> \<le> limit then 0 else speed)"

section \<open>State\<close>

record arm_t =
  arm_motor :: int
  arm_locked :: bool

record drive_t =
  northeast :: int
  northwest :: int
  southeast :: int
  southwest :: int
  drive_locked :: bool

record flipper_t =
  flipper_motor :: int
  flipper_locked :: bool

record intake_t =
  intake_motor :: int
  intake_locked :: bool

record lift_t =
  lift_motor :: int
  lift_limit :: int
  lift_locked :: bool

record setter_t =
  setter_motor :: int
  setter_locked :: bool

record robot_sys =
  arm :: arm_t
  drive :: drive_t
  flipper :: flipper_t
  intake :: intake_t
  lift :: lift_t
  setter :: setter_t
  outputs :: "smart_state \<times> motor_state"
  digital :: digital_state

definition command :: "int \<Rightarrow> int \<Rightarrow> bool \<Rightarrow> robot_sys \<Rightarrow> robot_sys" where
  "command index v immediate r = r\<lparr>outputs := SetMotor index v immediate (outputs r)\<rparr>"

section \<open>Arm\<close>

text \<open>Unlike the others, \<open>armSetup\<close> leaves the flag alone.\<close>

definition armSetup :: "int \<Rightarrow> robot_sys \<Rightarrow> robot_sys" where
  "armSetup motor r = r\<lparr>arm := (arm r)\<lparr>arm_motor := motor\<rparr>\<rparr>"

definition armInit :: "robot_sys \<Rightarrow> robot_sys" where
  "armInit r = r"

definition armMove :: "int \<Rightarrow> bool \<Rightarrow> robot_sys \<Rightarrow> robot_sys" where
  "armMove cmd immediate r = command (arm_motor (arm r)) (i16 cmd) immediate r"

definition armLock :: "robot_sys \<Rightarrow> robot_sys" where
  "armLock r = r\<lparr>arm := (arm r)\<lparr>arm_locked := True\<rparr>\<rparr>"

definition armUnlock :: "robot_sys \<Rightarrow> robot_sys" where
  "armUnlock r = r\<lparr>arm := (arm r)\<lparr>arm_locked := False\<rparr>\<rparr>"

definition armThread :: "spi_state \<Rightarrow> robot_sys \<Rightarrow> robot_sys" where
  "armThread js r =
     (if arm_locked (arm r) then
        (let ctl = (\<lambda>c. vexControllerGet c js);
             (buttonIn, buttonOut) =
               (if ctl (Xmtr2 Btn5U) \<noteq> 0 then (ctl (Xmtr2 Btn8R) \<noteq> 0, ctl (Xmtr2 Btn8D) \<noteq> 0) else (ctl (Xmtr1 Btn8R) \<noteq> 0, ctl (Xmtr1 Btn8D) \<noteq> 0));
             cmd = (if buttonIn then 127 else if buttonOut then - 127 else 0);
             cmd = i16 (armSpeed cmd)
         in armMove cmd False r)
      else r)"

section \<open>Flipper\<close>

definition flipperSetup :: "int \<Rightarrow> robot_sys \<Rightarrow> robot_sys" where
  "flipperSetup motor r = r\<lparr>flipper := (flipper r)\<lparr>flipper_motor := motor, flipper_locked := True\<rparr>\<rparr>"

definition flipperInit :: "robot_sys \<Rightarrow> robot_sys" where
  "flipperInit r = r"

definition flipperMove :: "int \<Rightarrow> bool \<Rightarrow> robot_sys \<Rightarrow> robot_sys" where
  "flipperMove cmd immediate r = command (flipper_motor (flipper r)) (i16 cmd) immediate r"

definition flipperLock :: "robot_sys \<Rightarrow> robot_sys" where
  "flipperLock r = r\<lparr>flipper := (flipper r)\<lparr>flipper_locked := True\<rparr>\<rparr>"

definition flipperUnlock :: "robot_sys \<Rightarrow> robot_sys" where
  "flipperUnlock r = r\<lparr>flipper := (flipper r)\<lparr>flipper_locked := False\<rparr>\<rparr>"

definition flipperThread :: "spi_state \<Rightarrow> robot_sys \<Rightarrow> robot_sys" where
  "flipperThread js r =
     (if flipper_locked (flipper r) then
        (let ctl = (\<lambda>c. vexControllerGet c js);
             (buttonIn, buttonOut) =
               (if ctl (Xmtr2 Btn5U) \<noteq> 0 then (ctl (Xmtr2 Btn8D) \<noteq> 0, ctl (Xmtr2 Btn8L) \<noteq> 0) else (ctl (Xmtr1 Btn8D) \<noteq> 0, ctl (Xmtr1 Btn8L) \<noteq> 0));
             cmd = (if buttonIn then 127 else if buttonOut then - 127 else 0);
             cmd = i16 (flipperSpeed cmd)
         in flipperMove cmd False r)
      else r)"

section \<open>Intake\<close>

definition intakeSetup :: "int \<Rightarrow> robot_sys \<Rightarrow> robot_sys" where
  "intakeSetup motor r = r\<lparr>intake := (intake r)\<lparr>intake_motor := motor, intake_locked := True\<rparr>\<rparr>"

definition intakeInit :: "robot_sys \<Rightarrow> robot_sys" where
  "intakeInit r = r"

definition intakeMove :: "int \<Rightarrow> bool \<Rightarrow> robot_sys \<Rightarrow> robot_sys" where
  "intakeMove cmd immediate r = command (intake_motor (intake r)) (i16 cmd) immediate r"

definition intakeLock :: "robot_sys \<Rightarrow> robot_sys" where
  "intakeLock r = r\<lparr>intake := (intake r)\<lparr>intake_locked := True\<rparr>\<rparr>"

definition intakeUnlock :: "robot_sys \<Rightarrow> robot_sys" where
  "intakeUnlock r = r\<lparr>intake := (intake r)\<lparr>intake_locked := False\<rparr>\<rparr>"

definition intakeThread :: "spi_state \<Rightarrow> robot_sys \<Rightarrow> robot_sys" where
  "intakeThread js r =
     (if intake_locked (intake r) then
        (let ctl = (\<lambda>c. vexControllerGet c js);
             (buttonIn, buttonOut) =
               (if ctl (Xmtr2 Btn5U) \<noteq> 0 then (ctl (Xmtr2 Btn6U) \<noteq> 0, ctl (Xmtr2 Btn6D) \<noteq> 0) else (ctl (Xmtr1 Btn6U) \<noteq> 0, ctl (Xmtr1 Btn6D) \<noteq> 0));
             cmd = (if buttonIn then 127 else if buttonOut then - 127 else 0);
             cmd = i16 (intakeSpeed cmd)
         in intakeMove cmd False r)
      else r)"

section \<open>Setter\<close>

definition setterSetup :: "int \<Rightarrow> robot_sys \<Rightarrow> robot_sys" where
  "setterSetup motor r = r\<lparr>setter := (setter r)\<lparr>setter_motor := motor, setter_locked := True\<rparr>\<rparr>"

definition setterInit :: "robot_sys \<Rightarrow> robot_sys" where
  "setterInit r = r"

definition setterMove :: "int \<Rightarrow> bool \<Rightarrow> robot_sys \<Rightarrow> robot_sys" where
  "setterMove cmd immediate r = command (setter_motor (setter r)) (i16 cmd) immediate r"

definition setterLock :: "robot_sys \<Rightarrow> robot_sys" where
  "setterLock r = r\<lparr>setter := (setter r)\<lparr>setter_locked := True\<rparr>\<rparr>"

definition setterUnlock :: "robot_sys \<Rightarrow> robot_sys" where
  "setterUnlock r = r\<lparr>setter := (setter r)\<lparr>setter_locked := False\<rparr>\<rparr>"

definition setterThread :: "spi_state \<Rightarrow> robot_sys \<Rightarrow> robot_sys" where
  "setterThread js r =
     (if setter_locked (setter r) then
        (let cmd = (if vexControllerGet (Xmtr2 Btn7R) js = 0 then vexControllerGet (Xmtr2 Ch2) js else 20);
             cmd = i16 (setterSpeed (limitSpeed cmd 20))
         in setterMove cmd True r)
      else r)"

section \<open>Lift\<close>

definition liftSetup :: "int \<Rightarrow> int \<Rightarrow> robot_sys \<Rightarrow> robot_sys" where
  "liftSetup motor limit r = r\<lparr>lift := (lift r)\<lparr>lift_motor := motor, lift_limit := limit, lift_locked := True\<rparr>\<rparr>"

definition liftInit :: "robot_sys \<Rightarrow> robot_sys" where
  "liftInit r = r"

definition liftMove :: "int \<Rightarrow> bool \<Rightarrow> robot_sys \<Rightarrow> robot_sys" where
  "liftMove cmd immediate r = command (lift_motor (lift r)) (i16 cmd) immediate r"

definition liftLock :: "robot_sys \<Rightarrow> robot_sys" where
  "liftLock r = r\<lparr>lift := (lift r)\<lparr>lift_locked := True\<rparr>\<rparr>"

definition liftUnlock :: "robot_sys \<Rightarrow> robot_sys" where
  "liftUnlock r = r\<lparr>lift := (lift r)\<lparr>lift_locked := False\<rparr>\<rparr>"

text \<open>The limit switch is read from its pin; at the limit the thread sleeps another 25 ms before it commands.\<close>

definition liftThread :: "(pad \<Rightarrow> bool) \<Rightarrow> spi_state \<Rightarrow> robot_sys \<Rightarrow> robot_sys option" where
  "liftThread level js r =
     (if lift_locked (lift r) then do {
        let buttonHold = vexControllerGet (Xmtr2 Btn7D) js \<noteq> 0;
        let buttonOff = vexControllerGet (Xmtr2 Btn7U) js \<noteq> 0;
        (cmd, immediate) \<leftarrow>
          (if buttonOff then Some (0, True)
           else if buttonHold then Some (127, True)
           else do {
             st \<leftarrow> vexDigitalPinGet level (lift_limit (lift r)) (digital r);
             Some (if st = kVexDigitalLow then (15, True) else (127, False))
           });
        Some (liftMove (i16 (liftSpeed cmd)) immediate r)
      }
      else Some r)"

section \<open>Drive\<close>

definition driveSetup :: "int \<Rightarrow> int \<Rightarrow> int \<Rightarrow> int \<Rightarrow> robot_sys \<Rightarrow> robot_sys" where
  "driveSetup ne nw se sw r =
     r\<lparr>drive := (drive r)\<lparr>northeast := ne, northwest := nw, southeast := se, southwest := sw, drive_locked := True\<rparr>\<rparr>"

definition driveInit :: "robot_sys \<Rightarrow> robot_sys" where
  "driveInit r = r"

definition driveMove :: "int \<Rightarrow> int \<Rightarrow> bool \<Rightarrow> robot_sys \<Rightarrow> robot_sys" where
  "driveMove x y immediate r =
     (let x = i16 x; y = i16 y;
          r = command (northeast (drive r)) (driveSpeed (y - x)) immediate r;
          r = command (northwest (drive r)) (driveSpeed (y + x)) immediate r;
          r = command (southeast (drive r)) (driveSpeed (y - x)) immediate r
      in command (southwest (drive r)) (driveSpeed (y + x)) immediate r)"

definition driveLock :: "robot_sys \<Rightarrow> robot_sys" where
  "driveLock r = r\<lparr>drive := (drive r)\<lparr>drive_locked := True\<rparr>\<rparr>"

definition driveUnlock :: "robot_sys \<Rightarrow> robot_sys" where
  "driveUnlock r = r\<lparr>drive := (drive r)\<lparr>drive_locked := False\<rparr>\<rparr>"

definition half_speed :: "int \<Rightarrow> int" where
  "half_speed v = (if \<bar>v\<bar> > 64 then (if v \<ge> 0 then 1 else - 1) * 64 else v)"

definition driveThread :: "spi_state \<Rightarrow> robot_sys \<Rightarrow> robot_sys" where
  "driveThread js r =
     (if drive_locked (drive r) then
        (let x = i16 (vexControllerGet (Xmtr1 Ch4) js);
             y = i16 (vexControllerGet (Xmtr1 Ch3) js);
             (x, y) = (if vexControllerGet (Xmtr1 Btn5U) js \<noteq> 0 then (half_speed x, half_speed y) else (x, y))
         in driveMove (i16 (driveSpeed x)) (i16 (driveSpeed y)) True r)
      else r)"

section \<open>The speed curve\<close>

text \<open>The reference: odd, and on positive speeds the table.\<close>

definition speed_curve :: "int \<Rightarrow> int" where
  "speed_curve x = sgn x * armSpeedTable ! nat (min \<bar>x\<bar> 127)"

lemma table_facts: "length armSpeedTable = 128" "sorted armSpeedTable" "\<forall>t\<in>set armSpeedTable. 0 \<le> t \<and> t \<le> 127"
  "driveSpeedTable = armSpeedTable" "flipperSpeedTable = armSpeedTable" "intakeSpeedTable = armSpeedTable"
  "liftSpeedTable = armSpeedTable" "setterSpeedTable = armSpeedTable"
proof -
  show "driveSpeedTable = armSpeedTable" "flipperSpeedTable = armSpeedTable" "intakeSpeedTable = armSpeedTable"
    "liftSpeedTable = armSpeedTable" "setterSpeedTable = armSpeedTable"
    by (simp_all only: armSpeedTable_def driveSpeedTable_def flipperSpeedTable_def intakeSpeedTable_def liftSpeedTable_def
      setterSpeedTable_def)
  show "length armSpeedTable = 128" "sorted armSpeedTable" by code_simp+
  have "list_all (\<lambda>t. 0 \<le> t \<and> t \<le> 127) armSpeedTable" by code_simp
  then show "\<forall>t\<in>set armSpeedTable. 0 \<le> t \<and> t \<le> 127" by (simp only: list_all_iff)
qed

lemma table_range: "0 \<le> armSpeedTable ! nat (min \<bar>x\<bar> 127)" "armSpeedTable ! nat (min \<bar>x\<bar> 127) \<le> 127"
proof -
  have "nat (min \<bar>x\<bar> 127) < length armSpeedTable" using table_facts(1) by (simp add: nat_less_iff)
  then have "armSpeedTable ! nat (min \<bar>x\<bar> 127) \<in> set armSpeedTable" by (rule nth_mem)
  then show "0 \<le> armSpeedTable ! nat (min \<bar>x\<bar> 127)" "armSpeedTable ! nat (min \<bar>x\<bar> 127) \<le> 127"
    using table_facts(3) by auto
qed

lemma i32_product: "\<bar>s\<bar> \<le> 127 \<Longrightarrow> i32 (s mod 2 ^ 32) = s"
proof -
  assume s: "\<bar>s\<bar> \<le> 127"
  have "(s mod 4294967296 + 2147483648) mod 4294967296 = (s + 2147483648) mod 4294967296" by (rule mod_add_left_eq)
  also have "\<dots> = s + 2147483648" using s by (intro mod_pos_pos_trivial) auto
  finally show ?thesis unfolding i32_def by (simp add: signed_take_bit_eq_take_bit_shift take_bit_eq_mod)
qed

lemma speed_curve_range: "\<bar>speed_curve x\<bar> \<le> 127"
  using table_range [of x] by (auto simp: speed_curve_def sgn_if)

lemma table_speed_curve: "\<bar>x\<bar> \<le> 127 \<Longrightarrow> table_speed armSpeedTable x = speed_curve x"
proof -
  assume x: "\<bar>x\<bar> \<le> 127"
  then have m: "min \<bar>x\<bar> 127 = \<bar>x\<bar>" by simp
  have "of_bool (x > 0) - of_bool (x < 0) = sgn x" by (simp add: sgn_if)
  then have "table_speed armSpeedTable x = i32 ((sgn x * armSpeedTable ! nat \<bar>x\<bar>) mod 2 ^ 32)"
    by (simp add: table_speed_def)
  also have "\<dots> = sgn x * armSpeedTable ! nat \<bar>x\<bar>"
    by (rule i32_product) (use table_range [of x] m in \<open>auto simp: sgn_if\<close>)
  finally show ?thesis using m by (simp add: speed_curve_def)
qed

lemma curve_clamp: "speed_curve (if x > 127 then 127 else if x < - 127 then - 127 else x) = speed_curve x"
  by (auto simp: speed_curve_def sgn_if)

lemma speeds_curve: "armSpeed x = speed_curve x" "driveSpeed x = speed_curve x" "flipperSpeed x = speed_curve x"
  "intakeSpeed x = speed_curve x" "liftSpeed x = speed_curve x" "setterSpeed x = speed_curve (max (- 50) (min 50 x))"
proof -
  have e: "table_speed armSpeedTable (if x > 127 then 127 else if x < - 127 then - 127 else x) = speed_curve x"
    using table_speed_curve [of "if x > 127 then 127 else if x < - 127 then - 127 else x"] curve_clamp [of x] by (simp split: if_splits)
  then show "armSpeed x = speed_curve x" "driveSpeed x = speed_curve x" "flipperSpeed x = speed_curve x"
    "intakeSpeed x = speed_curve x" "liftSpeed x = speed_curve x"
    by (simp_all only: armSpeed_def driveSpeed_def flipperSpeed_def intakeSpeed_def liftSpeed_def table_facts Let_def)
  have "(if x > 50 then 50 else if x < - 50 then - 50 else x) = max (- 50) (min 50 x)" by auto
  moreover have "\<bar>max (- 50) (min 50 x)\<bar> \<le> 127" by auto
  ultimately show "setterSpeed x = speed_curve (max (- 50) (min 50 x))"
    unfolding setterSpeed_def table_facts(8) Let_def by (simp only: table_speed_curve)
qed

lemma curve_odd: "speed_curve (- x) = - speed_curve x"
  by (simp add: speed_curve_def sgn_minus)

lemma curve_nonneg: "0 \<le> x \<Longrightarrow> 0 \<le> speed_curve x"
  using table_range(1) [of x] by (simp add: speed_curve_def sgn_if)

lemma curve_mono_pos: "0 \<le> x \<Longrightarrow> x \<le> y \<Longrightarrow> speed_curve x \<le> speed_curve y"
proof -
  assume xy: "0 \<le> x" "x \<le> y"
  have "armSpeedTable ! nat (min \<bar>x\<bar> 127) \<le> armSpeedTable ! nat (min \<bar>y\<bar> 127)"
    by (rule sorted_nth_mono [OF table_facts(2)]) (use xy table_facts(1) in \<open>auto simp: nat_less_iff min_def\<close>)
  then show ?thesis using xy curve_nonneg [of y] by (auto simp: speed_curve_def sgn_if)
qed

lemma curve_mono: "x \<le> y \<Longrightarrow> speed_curve x \<le> speed_curve y"
proof -
  assume xy: "x \<le> y"
  show ?thesis
  proof (cases "0 \<le> x")
    case True
    then show ?thesis using curve_mono_pos xy by blast
  next
    case False
    then have n: "speed_curve x \<le> 0" using curve_nonneg [of "- x"] curve_odd [of x] by simp
    show ?thesis
    proof (cases "0 \<le> y")
      case True
      then show ?thesis using n curve_nonneg [of y] by simp
    next
      case False
      then show ?thesis using curve_mono_pos [of "- y" "- x"] xy curve_odd [of x] curve_odd [of y] by simp
    qed
  qed
qed

lemma curve_dead_zone: "\<bar>x\<bar> \<le> 10 \<Longrightarrow> speed_curve x = 0"
proof -
  assume x: "\<bar>x\<bar> \<le> 10"
  have "list_all (\<lambda>k. armSpeedTable ! k = 0) [0..<11]" by code_simp
  moreover have "nat (min \<bar>x\<bar> 127) < 11" using x by (simp add: nat_less_iff)
  ultimately have "armSpeedTable ! nat (min \<bar>x\<bar> 127) = 0" by (simp add: list_all_iff)
  then show ?thesis by (simp add: speed_curve_def)
qed

text \<open>The six speed curves are one: the five of the arm, drive, flipper, intake and lift agree everywhere with the
  reference curve and the setter's with the reference limited to half a stick; the reference is odd and monotone, is 0
  for a stick within 10 of the centre, and stays within a motor command whatever it is given.\<close>

theorem speed_curves_agree:
  "armSpeed x = speed_curve x \<and> driveSpeed x = speed_curve x \<and> flipperSpeed x = speed_curve x \<and>
   intakeSpeed x = speed_curve x \<and> liftSpeed x = speed_curve x \<and> setterSpeed x = speed_curve (max (- 50) (min 50 x)) \<and>
   speed_curve (- x) = - speed_curve x \<and> speed_curve (min x y) \<le> speed_curve (max x y) \<and>
   speed_curve (max (- 10) (min 10 x)) = 0 \<and> \<bar>speed_curve x\<bar> \<le> 127"
proof -
  have "\<bar>max (- 10) (min 10 x)\<bar> \<le> 10" by auto
  then show ?thesis using speeds_curve [of x] curve_odd curve_mono [of "min x y" "max x y"] curve_dead_zone speed_curve_range
    by simp
qed


section \<open>What a command changes\<close>

definition outputs_ok :: "robot_sys \<Rightarrow> bool" where
  "outputs_ok r \<longleftrightarrow> length (sMotors (fst (outputs r))) = 10 \<and> length (vexMotors (snd (outputs r))) = 10"

definition cmd_of :: "robot_sys \<Rightarrow> int \<Rightarrow> int" where
  "cmd_of r i = motor_cmd (sMotors (fst (outputs r)) ! nat i)"

definition value_of :: "robot_sys \<Rightarrow> int \<Rightarrow> int" where
  "value_of r i = vexMotorGet i (snd (outputs r))"

lemma command_frame [simp]: "arm (command i v b r) = arm r" "drive (command i v b r) = drive r" "flipper (command i v b r) = flipper r"
  "intake (command i v b r) = intake r" "lift (command i v b r) = lift r" "setter (command i v b r) = setter r"
  "digital (command i v b r) = digital r"
  by (simp_all add: command_def)

lemma command_ok [simp]: "outputs_ok (command i v b r) = outputs_ok r"
  by (auto simp: outputs_ok_def command_def SetMotor_def sm_update_def Let_def vexMotorSet_def motor_update_def)

text \<open>A speed of the curve is 0 or outside the dead band, so the motor gets it as it is.\<close>

definition motor_speed :: "int \<Rightarrow> bool" where
  "motor_speed v \<longleftrightarrow> \<bar>v\<bar> \<le> 127 \<and> (v = 0 \<or> 10 \<le> \<bar>v\<bar>)"

lemma motor_speed_curve: "motor_speed (speed_curve x)"
proof -
  have "list_all (\<lambda>t. t = 0 \<or> 10 \<le> t) armSpeedTable" by code_simp
  moreover have "nat (min \<bar>x\<bar> 127) < length armSpeedTable" using table_facts(1) by (simp add: nat_less_iff)
  ultimately have "armSpeedTable ! nat (min \<bar>x\<bar> 127) = 0 \<or> 10 \<le> armSpeedTable ! nat (min \<bar>x\<bar> 127)"
    by (simp add: list_all_length)
  then show ?thesis using table_range [of x] by (auto simp: motor_speed_def speed_curve_def sgn_if)
qed

lemma command_effect:
  assumes "outputs_ok r" "0 \<le> i" "i < 10" "motor_speed v" "0 \<le> j" "j < 10"
  shows "cmd_of (command i v b r) j = (if j = i then v else cmd_of r j)"
    and "value_of (command i v b r) j = (if j = i \<and> b then v else value_of r j)"
proof -
  have l: "length (sMotors (fst (outputs r))) = 10" "length (vexMotors (snd (outputs r))) = 10"
    using assms(1) by (simp_all add: outputs_ok_def)
  show "cmd_of (command i v b r) j = (if j = i then v else cmd_of r j)"
    using assms l by (auto simp: cmd_of_def command_def SetMotor_def no_motor_def motor_index_defs sm_update_def Let_def
      nth_list_update cmd_consts motor_speed_def nat_eq_iff)
  show "value_of (command i v b r) j = (if j = i \<and> b then v else value_of r j)"
    using assms motor_get_set [OF l(2) assms(2,3,5,6), of v]
    by (auto simp: value_of_def command_def SetMotor_def no_motor_def motor_index_defs Let_def motor_speed_def)
qed

section \<open>Interface: a subsystem\<close>

text \<open>
  What the program relies on when it hands a subsystem over: while its flag is off its thread does nothing, the
  thread never touches a flag, and the two operations set the flag of their subsystem and nothing else.
\<close>

locale subsystem =
  fixes thread :: "(pad \<Rightarrow> bool) \<Rightarrow> spi_state \<Rightarrow> robot_sys \<Rightarrow> robot_sys option"
    and lock unlock :: "robot_sys \<Rightarrow> robot_sys"
    and locked :: "robot_sys \<Rightarrow> bool"
  assumes unlocked_idle: "\<not> locked r \<Longrightarrow> thread level js r = Some r"
    and thread_flag: "thread level js r = Some r' \<Longrightarrow> locked r' = locked r"
    and lock_flag: "locked (lock r)"
    and unlock_flag: "\<not> locked (unlock r)"
    and lock_outputs: "outputs (lock r) = outputs r" "outputs (unlock r) = outputs r"
begin

fun rounds :: "((pad \<Rightarrow> bool) \<times> spi_state) list \<Rightarrow> robot_sys \<Rightarrow> robot_sys option" where
  "rounds [] r = Some r"
| "rounds ((level, js) # es) r = do { r \<leftarrow> thread level js r; rounds es r }"

lemma unlocked_rounds: "\<not> locked r \<Longrightarrow> rounds es r = Some r"
  by (induction es) (auto simp: unlocked_idle)

lemma rounds_flag: "rounds es r = Some r' \<Longrightarrow> locked r' = locked r"
proof (induction es arbitrary: r)
  case (Cons e es)
  obtain level js where e: "e = (level, js)" by (cases e)
  then obtain r1 where "thread level js r = Some r1" "rounds es r1 = Some r'"
    using Cons.prems by (auto split: Option.bind_splits)
  then show ?case using Cons.IH thread_flag by auto
qed simp

lemma unlock_rounds: "rounds es (unlock r) = Some (unlock r)"
  by (rule unlocked_rounds [OF unlock_flag])

end

lemma move_frame: "arm (armMove v b r) = arm r" "flipper (flipperMove v b r) = flipper r" "intake (intakeMove v b r) = intake r"
  "lift (liftMove v b r) = lift r" "setter (setterMove v b r) = setter r" "drive (driveMove x y b r) = drive r"
  by (simp_all add: armMove_def flipperMove_def intakeMove_def liftMove_def setterMove_def driveMove_def Let_def)

interpretation arm: subsystem "\<lambda>_ js r. Some (armThread js r)" armLock armUnlock "\<lambda>r. arm_locked (arm r)"
  by unfold_locales (auto simp: armThread_def armLock_def armUnlock_def Let_def move_frame)

interpretation flipper: subsystem "\<lambda>_ js r. Some (flipperThread js r)" flipperLock flipperUnlock "\<lambda>r. flipper_locked (flipper r)"
  by unfold_locales (auto simp: flipperThread_def flipperLock_def flipperUnlock_def Let_def move_frame)

interpretation intake: subsystem "\<lambda>_ js r. Some (intakeThread js r)" intakeLock intakeUnlock "\<lambda>r. intake_locked (intake r)"
  by unfold_locales (auto simp: intakeThread_def intakeLock_def intakeUnlock_def Let_def move_frame)

interpretation setter: subsystem "\<lambda>_ js r. Some (setterThread js r)" setterLock setterUnlock "\<lambda>r. setter_locked (setter r)"
  by unfold_locales (auto simp: setterThread_def setterLock_def setterUnlock_def Let_def move_frame)

interpretation drive: subsystem "\<lambda>_ js r. Some (driveThread js r)" driveLock driveUnlock "\<lambda>r. drive_locked (drive r)"
  by unfold_locales (auto simp: driveThread_def driveLock_def driveUnlock_def Let_def move_frame split: prod.splits)

interpretation lift: subsystem liftThread liftLock liftUnlock "\<lambda>r. lift_locked (lift r)"
  by unfold_locales
    (auto simp: liftThread_def liftLock_def liftUnlock_def Let_def move_frame split: Option.bind_splits if_splits)

section \<open>What the joysticks command\<close>

lemma ctl_range: "\<bar>vexControllerGet (Xmtr1 c) js\<bar> \<le> 127" "\<bar>vexControllerGet (Xmtr2 c) js\<bar> \<le> 127" if "is_channel c"
  using js_get_type [of c] that by auto

lemma i16_small: "\<bar>x\<bar> \<le> 127 \<Longrightarrow> i16 x = x"
  by (rule i16_id) auto

text \<open>The drive gives two motors the one speed and two the other.\<close>

definition drive_ok :: "robot_sys \<Rightarrow> bool" where
  "drive_ok r \<longleftrightarrow> (let d = drive r in distinct [northeast d, northwest d, southeast d, southwest d] \<and>
     set [northeast d, northwest d, southeast d, southwest d] \<subseteq> {0..9})"

lemma driveMove_effect:
  assumes "outputs_ok r" "drive_ok r" "\<bar>x\<bar> \<le> 127" "\<bar>y\<bar> \<le> 127" "0 \<le> i" "i < 10"
  shows "cmd_of (driveMove x y b r) i =
      (if i \<in> {northeast (drive r), southeast (drive r)} then speed_curve (y - x)
       else if i \<in> {northwest (drive r), southwest (drive r)} then speed_curve (y + x) else cmd_of r i)"
    and "value_of (driveMove x y b r) i =
      (if b \<and> i \<in> {northeast (drive r), southeast (drive r)} then speed_curve (y - x)
       else if b \<and> i \<in> {northwest (drive r), southwest (drive r)} then speed_curve (y + x) else value_of r i)"
    and "outputs_ok (driveMove x y b r)"
proof -
  have m: "0 \<le> northeast (drive r)" "northeast (drive r) < 10" "0 \<le> northwest (drive r)" "northwest (drive r) < 10"
    "0 \<le> southeast (drive r)" "southeast (drive r) < 10" "0 \<le> southwest (drive r)" "southwest (drive r) < 10"
    "northeast (drive r) \<noteq> northwest (drive r)" "northeast (drive r) \<noteq> southwest (drive r)"
    "southeast (drive r) \<noteq> northwest (drive r)" "southeast (drive r) \<noteq> southwest (drive r)"
    using assms(2) by (auto simp: drive_ok_def Let_def)
  define ne nw se sw where d: "ne = northeast (drive r)" "nw = northwest (drive r)" "se = southeast (drive r)" "sw = southwest (drive r)"
  define r1 where "r1 = command ne (speed_curve (y - x)) b r"
  define r2 where "r2 = command nw (speed_curve (y + x)) b r1"
  define r3 where "r3 = command se (speed_curve (y - x)) b r2"
  define r4 where "r4 = command sw (speed_curve (y + x)) b r3"
  have e: "driveMove x y b r = r4"
    using assms(3,4) by (simp add: driveMove_def i16_small speeds_curve Let_def r1_def r2_def r3_def r4_def d)
  have ok: "outputs_ok r1" "outputs_ok r2" "outputs_ok r3" "outputs_ok r4"
    using assms(1) by (simp_all add: r1_def r2_def r3_def r4_def)
  note m = m [folded d]
  have c1: "cmd_of r1 i = (if i = ne then speed_curve (y - x) else cmd_of r i)"
    "value_of r1 i = (if i = ne \<and> b then speed_curve (y - x) else value_of r i)"
    unfolding r1_def by (rule command_effect [OF assms(1) m(1,2) motor_speed_curve assms(5,6)])+
  have c2: "cmd_of r2 i = (if i = nw then speed_curve (y + x) else cmd_of r1 i)"
    "value_of r2 i = (if i = nw \<and> b then speed_curve (y + x) else value_of r1 i)"
    unfolding r2_def by (rule command_effect [OF ok(1) m(3,4) motor_speed_curve assms(5,6)])+
  have c3: "cmd_of r3 i = (if i = se then speed_curve (y - x) else cmd_of r2 i)"
    "value_of r3 i = (if i = se \<and> b then speed_curve (y - x) else value_of r2 i)"
    unfolding r3_def by (rule command_effect [OF ok(2) m(5,6) motor_speed_curve assms(5,6)])+
  have c4: "cmd_of r4 i = (if i = sw then speed_curve (y + x) else cmd_of r3 i)"
    "value_of r4 i = (if i = sw \<and> b then speed_curve (y + x) else value_of r3 i)"
    unfolding r4_def by (rule command_effect [OF ok(3) m(7,8) motor_speed_curve assms(5,6)])+
  have "cmd_of r4 i = (if i \<in> {ne, se} then speed_curve (y - x) else if i \<in> {nw, sw} then speed_curve (y + x) else cmd_of r i)"
    unfolding c1 c2 c3 c4 using m(9-12) by auto
  then show "cmd_of (driveMove x y b r) i =
      (if i \<in> {northeast (drive r), southeast (drive r)} then speed_curve (y - x)
       else if i \<in> {northwest (drive r), southwest (drive r)} then speed_curve (y + x) else cmd_of r i)"
    by (simp only: e d)
  have "value_of r4 i = (if b \<and> i \<in> {ne, se} then speed_curve (y - x)
      else if b \<and> i \<in> {nw, sw} then speed_curve (y + x) else value_of r i)"
    unfolding c1 c2 c3 c4 insert_iff empty_iff using m(9-12) by (cases b; cases "i = sw"; cases "i = se"; cases "i = nw"; cases "i = ne"; simp)
  then show "value_of (driveMove x y b r) i =
      (if b \<and> i \<in> {northeast (drive r), southeast (drive r)} then speed_curve (y - x)
       else if b \<and> i \<in> {northwest (drive r), southwest (drive r)} then speed_curve (y + x) else value_of r i)"
    by (simp only: e d)
  show "outputs_ok (driveMove x y b r)" using ok e by simp
qed

lemma half_speed: "\<bar>v\<bar> \<le> 127 \<Longrightarrow> half_speed v = max (- 64) (min 64 v)"
  by (auto simp: half_speed_def)


text \<open>The hold command of the setter, 20 while button 7R is pressed, lies in the dead zone of \<open>limitSpeed\<close>.\<close>

lemma setter_hold_stops:
  assumes "setter_locked (setter r)" "vexControllerGet (Xmtr2 Btn7R) js \<noteq> 0"
  shows "setterThread js r = setterMove 0 True r"
proof -
  have "setterSpeed 0 = 0" by code_simp
  then show ?thesis using assms by (simp add: setterThread_def limitSpeed_def Let_def i16_small)
qed

section \<open>Witnesses\<close>

definition sample_subsystems :: robot_sys where
  "sample_subsystems = driveSetup 1 8 7 0 \<lparr>arm = \<lparr>arm_motor = 2, arm_locked = False\<rparr>,
     drive = \<lparr>northeast = 0, northwest = 0, southeast = 0, southwest = 0, drive_locked = False\<rparr>,
     flipper = \<lparr>flipper_motor = 3, flipper_locked = False\<rparr>, intake = \<lparr>intake_motor = 6, intake_locked = False\<rparr>,
     lift = \<lparr>lift_motor = 5, lift_limit = 2, lift_locked = False\<rparr>, setter = \<lparr>setter_motor = 4, setter_locked = False\<rparr>,
     outputs = (commanded, sample_motors), digital = digital_reset\<rparr>"

lemma sample_subsystems_ok: "outputs_ok sample_subsystems" "drive_ok sample_subsystems" "drive_locked (drive sample_subsystems)"
    "set [northeast (drive sample_subsystems), southeast (drive sample_subsystems)] = {1, 7}"
  using commanded_values(1) [THEN list10] sample_motors_ok
  by (auto simp: sample_subsystems_def driveSetup_def outputs_ok_def drive_ok_def Let_def motors_ok_def)

definition stick_forward :: spi_state where
  "stick_forward = spi_receive (master_packets ! 2) spi_memory"

lemma stick_forward_values: "vexControllerGet (Xmtr1 Ch3) stick_forward = 127" "vexControllerGet (Xmtr1 Ch4) stick_forward = 0"
    "vexControllerGet (Xmtr1 Btn5U) stick_forward = 0"
  unfolding stick_forward_def by code_simp+


end
