(* ===== verification/VexPrintf.thy ===== *)
theory VexPrintf
  imports Prelude
begin

text \<open>
  The formatted output of ConVEX, \<open>src/convex/cortex/fw/vexprintf.c\<close>: the conversion of integers, strings and doubles, the
  reading of the format, and the functions that print to a stream or into a buffer. A string is its octets without the
  terminating zero. Characters put into a buffer are collected in the order they are written, whatever room the caller
  has. The operations on doubles are a parameter, as is what a stream does with a character and the system time. The
  locks around the working variables are left out.
\<close>

section \<open>Data\<close>

definition PRINT_BUF_LEN :: nat where "PRINT_BUF_LEN = 16"
definition THROTTLE_DELAY :: u32 where "THROTTLE_DELAY = 30"
definition THROTTLE_DELAY_4 :: u32 where "THROTTLE_DELAY_4 = 8"

text \<open>The padding is a set of two flags.\<close>

definition PAD_RIGHT :: u8 where "PAD_RIGHT = 1"
definition PAD_ZERO :: u8 where "PAD_ZERO = 2"

record 's print_env =
  stream_put :: "nat \<Rightarrow> u8 \<Rightarrow> 's \<Rightarrow> 's"
  time_of :: "'s \<Rightarrow> u32"
  sleep_ms :: "u32 \<Rightarrow> 's \<Rightarrow> 's"

definition SD_CONSOLE :: nat where "SD_CONSOLE = 0"

record 's pdefs =
  to_buffer :: bool
  out_text :: octets
  use_leading_plus :: bool
  max_output_len :: int
  curr_output_len :: int
  txcount :: int
  lasttime :: u32
  chp :: nat
  streams :: 's

text \<open>Doubles: sign, negation, the sum with a constant, and the two conversions to \<open>uint32_t\<close> (\<open>None\<close> where undefined), of
  the number and of what is left of it above a whole number, scaled.\<close>

record 'd double_ops =
  dbl_negative :: "'d \<Rightarrow> bool"
  dbl_negate :: "'d \<Rightarrow> 'd"
  dbl_add :: "'d \<Rightarrow> nat \<times> nat \<Rightarrow> 'd"
  dbl_whole :: "'d \<Rightarrow> u32 option"
  dbl_rest :: "'d \<Rightarrow> u32 \<Rightarrow> u32 \<Rightarrow> u32 option"

datatype 'd printf_arg = AInt int | AStr "octets option" | ADbl 'd

text \<open>The constants for rounding, 0.5, 0.05 and so on, each as its digit and the place of it behind the point.\<close>

definition round_nums :: "(nat \<times> nat) list" where
  "round_nums = [(5, 1), (5, 2), (5, 3), (5, 4), (5, 5), (5, 6), (5, 7), (5, 8)]"

text \<open>The working variables for buffers, as they are at reset; no stream is ever behind them.\<close>

definition pdefs2_reset :: "unit pdefs" where
  "pdefs2_reset = \<lparr>to_buffer = False, out_text = [], use_leading_plus = False, max_output_len = 0, curr_output_len = 0, txcount = 0,
     lasttime = 0, chp = 0, streams = ()\<rparr>"

definition no_stream :: "unit print_env" where
  "no_stream = \<lparr>stream_put = (\<lambda>_ _ s. s), time_of = (\<lambda>_. 0), sleep_ms = (\<lambda>_ s. s)\<rparr>"

section \<open>Characters and strings\<close>

definition throttle :: "'s print_env \<Rightarrow> 's pdefs \<Rightarrow> 's pdefs" where
  "throttle env p =
     (let delta = time_of env (streams p) - lasttime p
      in if delta < THROTTLE_DELAY then
           (let n = (if delta > THROTTLE_DELAY_4
                     then (let n = i16 (txcount p - uint (delta * 4)) in if n < 0 then 0 else n) else txcount p);
                n = i16 (n + 1)
            in if n = 128 then p\<lparr>streams := sleep_ms env (THROTTLE_DELAY - delta) (streams p), txcount := 0\<rparr>
               else p\<lparr>txcount := n\<rparr>)
         else p\<lparr>txcount := 0\<rparr>)"

definition vex_printc :: "'s print_env \<Rightarrow> u8 \<Rightarrow> 's pdefs \<Rightarrow> 's pdefs" where
  "vex_printc env c p =
     (if max_output_len p \<ge> 0 \<and> curr_output_len p \<ge> max_output_len p then p
      else if to_buffer p then p\<lparr>out_text := out_text p @ [c], curr_output_len := curr_output_len p + 1\<rparr>
      else (let p = throttle env p;
                p = p\<lparr>lasttime := time_of env (streams p), curr_output_len := curr_output_len p + 1\<rparr>
            in p\<lparr>streams := stream_put env (chp p) c (streams p)\<rparr>))"

definition vex_prints :: "'s print_env \<Rightarrow> octets \<Rightarrow> int \<Rightarrow> u8 \<Rightarrow> 's pdefs \<Rightarrow> int \<times> 's pdefs" where
  "vex_prints env str width pad p =
     (let len = int (length str);
          padchar = (if width > 0 \<and> pad AND PAD_ZERO \<noteq> 0 then 0x30 else 0x20);
          k = nat (if width > 0 then (if len \<ge> width then 0 else width - len) else width);
          fill = replicate k padchar;
          cs = (if pad AND PAD_RIGHT = 0 then fill @ str else str @ fill)
      in (int (length cs), fold (vex_printc env) cs p))"

section \<open>Integers\<close>

text \<open>The digits are put into \<open>print_buf\<close> from its end; a number of 32 bits has at most ten in the bases used.\<close>

definition digit_char :: "u8 \<Rightarrow> nat \<Rightarrow> u8" where
  "digit_char letbase t = (if t \<ge> 10 then of_nat t + (letbase - 0x30 - 10) else of_nat t) + 0x30"

fun put_digits :: "nat \<Rightarrow> u8 \<Rightarrow> nat \<Rightarrow> octets" where
  "put_digits base letbase u =
     (if u = 0 \<or> base < 2 then [] else put_digits base letbase (u div base) @ [digit_char letbase (u mod base)])"

declare put_digits.simps [simp del]

text \<open>Negating the least integer is undefined.\<close>

definition vex_printi ::
  "'s print_env \<Rightarrow> int \<Rightarrow> nat \<Rightarrow> bool \<Rightarrow> int \<Rightarrow> u8 \<Rightarrow> u8 \<Rightarrow> 's pdefs \<Rightarrow> (int \<times> 's pdefs) option" where
  "vex_printi env i base sign width pad letbase p =
     (if i = 0 then Some (vex_prints env [0x30] width pad p)
      else if sign \<and> base = 10 \<and> i < 0 then
        (if i = - 2147483648 then None
         else let s = put_digits base letbase (nat (- i))
              in if width \<noteq> 0 \<and> pad AND PAD_ZERO \<noteq> 0 then
                   (let p = vex_printc env 0x2D p; (pc, p) = vex_prints env s (width - 1) pad p in Some (1 + pc, p))
                 else Some (vex_prints env (0x2D # s) width pad p))
      else (let s = put_digits base letbase (unat (word_of_int i :: u32))
            in Some (vex_prints env (if use_leading_plus p then 0x2B # s else s) width pad p)))"

section \<open>Doubles\<close>

fun number_rev :: "nat \<Rightarrow> octets" where
  "number_rev n = (if n = 0 then [] else (0x30 + of_nat (n mod 10)) # number_rev (n div 10))"

declare number_rev.simps [simp del]

text \<open>The two buffers of 16 and 32 characters must hold the digits and the text with its terminator.\<close>

definition dbl2stri :: "'d double_ops \<Rightarrow> bool \<Rightarrow> 'd \<Rightarrow> u32 \<Rightarrow> octets option" where
  "dbl2stri ops lead dbl dec_digits = do {
     let sign = (if dbl_negative ops dbl then [0x2D] else if lead then [0x2B] else []);
     let dbl = (if dbl_negative ops dbl then dbl_negate ops dbl else dbl);
     let dbl = (if dec_digits < 8 then dbl_add ops dbl (round_nums ! unat dec_digits) else dbl);
     let mult = word_of_int (10 ^ unat dec_digits);
     wholeNum \<leftarrow> dbl_whole ops dbl;
     decimalNum \<leftarrow> dbl_rest ops dbl wholeNum mult;
     let w = number_rev (unat wholeNum);
     let whole = (if w = [] then [0x30] else rev w);
     let d = number_rev (unat decimalNum);
     let d = d @ replicate (unat dec_digits - length d) 0x30;
     let decimal = (if dec_digits > 0 then 0x2E # (if d = [] then [0x30] else rev d) else []);
     if dec_digits > 0 \<and> length d > PRINT_BUF_LEN then None
     else if length (sign @ whole @ decimal) \<ge> PRINT_BUF_LEN * 2 then None
     else Some (sign @ whole @ decimal)
   }"

definition vex_printdbl ::
  "'s print_env \<Rightarrow> 'd double_ops \<Rightarrow> 'd \<Rightarrow> int \<Rightarrow> u32 \<Rightarrow> u8 \<Rightarrow> 's pdefs \<Rightarrow> (int \<times> 's pdefs) option" where
  "vex_printdbl env ops dbl width dec_digits pad p = do {
     s \<leftarrow> dbl2stri ops (use_leading_plus p) dbl dec_digits;
     Some (vex_prints env s width pad p)
   }"

section \<open>The format\<close>

text \<open>What follows a percent sign: nothing, a second percent sign, or a conversion.\<close>

record conv_spec =
  cv_width :: int
  cv_dec :: u32
  cv_pad :: u8
  cv_plus :: bool

datatype directive = Stop | Percent | Conversion conv_spec u8

definition flag :: "u8 \<Rightarrow> octets \<Rightarrow> bool \<times> octets" where
  "flag c f = (if f \<noteq> [] \<and> hd f = c then (True, tl f) else (False, f))"

text \<open>The width and the digits behind a point; a width that overflows is undefined.\<close>

fun parse_width :: "bool \<Rightarrow> int \<Rightarrow> u32 \<Rightarrow> octets \<Rightarrow> (int \<times> u32 \<times> octets) option" where
  "parse_width post w d [] = Some (w, d, [])"
| "parse_width post w d (c # f) =
     (if c = 0x2E then parse_width True w 0 f
      else if 0x30 \<le> c \<and> c \<le> 0x39 then
        (if post then parse_width post w (d * 10 + ucast (c - 0x30)) f
         else let w = w * 10 + uint (c - 0x30) in if w > 2147483647 then None else parse_width post w d f)
      else Some (w, d, c # f))"

text \<open>A format that ends inside a conversion makes the loop step over its terminator: what it reads then is outside it.\<close>

definition directive :: "octets \<Rightarrow> (directive \<times> octets) option" where
  "directive f =
     (if f = [] then Some (Stop, [])
      else if hd f = 0x25 then Some (Percent, tl f)
      else let (right, f) = flag 0x2D f; (pl, f) = flag 0x2B f;
               zero = (f \<noteq> [] \<and> hd f = 0x30); f = dropWhile (\<lambda>c. c = 0x30) f
           in case parse_width False 0 6 f of
                None \<Rightarrow> None
              | Some (w, d, f) \<Rightarrow>
                  (case snd (flag 0x6C f) of
                     [] \<Rightarrow> None
                   | c # f \<Rightarrow> Some (Conversion \<lparr>cv_width = w, cv_dec = d,
                       cv_pad = (if right then PAD_RIGHT else 0) OR (if zero then PAD_ZERO else 0), cv_plus = pl\<rparr> c, f)))"

text \<open>A conversion takes its argument; one of another type, or none, is undefined. The characters of a double are not
  counted.\<close>

definition cstring :: "octets \<Rightarrow> octets" where
  "cstring s = takeWhile (\<lambda>c. c \<noteq> 0) s"

definition null_text :: octets where
  "null_text = [0x28, 0x6E, 0x75, 0x6C, 0x6C, 0x29]"

fun convert :: "'s print_env \<Rightarrow> 'd double_ops \<Rightarrow> conv_spec \<Rightarrow> u8 \<Rightarrow> 'd printf_arg list \<Rightarrow> 's pdefs \<Rightarrow>
    (int \<times> 'd printf_arg list \<times> 's pdefs) option" where
  "convert env ops v c args p =
     (if c = 0x73 then
        (case args of AStr s # args \<Rightarrow>
           (case vex_prints env (case s of Some s \<Rightarrow> cstring s | None \<Rightarrow> null_text) (cv_width v) (cv_pad v) p of
              (n, p) \<Rightarrow> Some (n, args, p))
         | _ \<Rightarrow> None)
      else if c = 0x64 then
        (case args of AInt i # args \<Rightarrow>
           map_option (\<lambda>(n, p). (n, args, p)) (vex_printi env i 10 True (cv_width v) (cv_pad v) 0x61 p) | _ \<Rightarrow> None)
      else if c = 0x78 then
        (case args of AInt i # args \<Rightarrow>
           map_option (\<lambda>(n, p). (n, args, p)) (vex_printi env i 16 False (cv_width v) (cv_pad v) 0x61 p) | _ \<Rightarrow> None)
      else if c = 0x58 then
        (case args of AInt i # args \<Rightarrow>
           map_option (\<lambda>(n, p). (n, args, p)) (vex_printi env i 16 False (cv_width v) (cv_pad v) 0x41 p) | _ \<Rightarrow> None)
      else if c = 0x70 \<or> c = 0x75 then
        (case args of AInt i # args \<Rightarrow>
           map_option (\<lambda>(n, p). (n, args, p)) (vex_printi env i 10 False (cv_width v) (cv_pad v) 0x61 p) | _ \<Rightarrow> None)
      else if c = 0x63 then
        (case args of AInt i # args \<Rightarrow>
           (case vex_prints env (cstring [word_of_int i]) (cv_width v) (cv_pad v) p of (n, p) \<Rightarrow> Some (n, args, p))
         | _ \<Rightarrow> None)
      else if c = 0x66 then
        (case args of ADbl d # args \<Rightarrow>
           map_option (\<lambda>(n, p). (0, args, p)) (vex_printdbl env ops d (cv_width v) (cv_dec v) (cv_pad v) p) | _ \<Rightarrow> None)
      else Some (0, args, vex_printc env c (vex_printc env 0x25 p)))"

declare convert.simps [simp del]

lemma parse_width_length: "parse_width post w d f = Some (w', d', f') \<Longrightarrow> length f' \<le> length f"
  by (induction post w d f rule: parse_width.induct) (auto split: if_splits simp: Let_def)

lemma directive_length: "directive f = Some (d, f') \<Longrightarrow> length f' \<le> length f"
proof (cases "f = [] \<or> hd f = 0x25")
  case True
  then show "directive f = Some (d, f') \<Longrightarrow> length f' \<le> length f" by (auto simp: directive_def split: if_splits)
next
  case False
  have flag_le: "length (snd (flag c g)) \<le> length g" for c g by (simp add: flag_def)
  define g where "g = dropWhile (\<lambda>c. c = 0x30) (snd (flag 0x2B (snd (flag 0x2D f))))"
  have g: "length g \<le> length f"
    unfolding g_def using length_dropWhile_le flag_le by (meson order_trans)
  assume "directive f = Some (d, f')"
  then obtain w dd h where h: "parse_width False 0 6 g = Some (w, dd, h)" "length f' \<le> length (snd (flag 0x6C h))"
    using False by (auto simp: directive_def Let_def g_def case_prod_beta split: option.splits list.splits if_splits)
  then show "length f' \<le> length f" using parse_width_length [OF h(1)] flag_le [of "0x6C" h] g by linarith
qed

function print_loop :: "'s print_env \<Rightarrow> 'd double_ops \<Rightarrow> octets \<Rightarrow> 'd printf_arg list \<Rightarrow> 's pdefs \<Rightarrow> int \<Rightarrow>
    (int \<times> 's pdefs) option" where
  "print_loop env ops [] args p pc = Some (pc, p)"
| "print_loop env ops (c # f) args p pc =
     (if c \<noteq> 0x25 then print_loop env ops f args (vex_printc env c p) (pc + 1)
      else case directive f of
          None \<Rightarrow> None
        | Some (Stop, f) \<Rightarrow> Some (pc, p)
        | Some (Percent, f) \<Rightarrow> print_loop env ops f args (vex_printc env 0x25 p) (pc + 1)
        | Some (Conversion v k, f) \<Rightarrow>
            (case convert env ops v k args (if cv_plus v then p\<lparr>use_leading_plus := True\<rparr> else p) of
               None \<Rightarrow> None
             | Some (n, args, p) \<Rightarrow> print_loop env ops f args (p\<lparr>use_leading_plus := False\<rparr>) (pc + n)))"
  by pat_completeness auto
termination
  by (relation "measure (\<lambda>(env, ops, f, args, p, pc). length f)") (auto dest!: directive_length)

text \<open>Into a buffer the terminator is written behind the characters, whatever the limit.\<close>

definition vex_print :: "'s print_env \<Rightarrow> 'd double_ops \<Rightarrow> octets \<Rightarrow> 'd printf_arg list \<Rightarrow> 's pdefs \<Rightarrow> (int \<times> 's pdefs) option" where
  "vex_print env ops fmt args p = do {
     (pc, p) \<leftarrow> print_loop env ops fmt args (p\<lparr>use_leading_plus := False, curr_output_len := 0\<rparr>) 0;
     Some (pc, if to_buffer p then p\<lparr>out_text := out_text p @ [0]\<rparr> else p)
   }"

section \<open>The functions of the library\<close>

text \<open>The two sets of working variables: \<open>pdefs1\<close> for the streams, \<open>pdefs2\<close> for buffers.\<close>

definition vex_vchprintf :: "'s print_env \<Rightarrow> 'd double_ops \<Rightarrow> nat \<Rightarrow> octets \<Rightarrow> 'd printf_arg list \<Rightarrow> 's pdefs \<Rightarrow> (int \<times> 's pdefs) option" where
  "vex_vchprintf env ops stream fmt args pdefs1 =
     vex_print env ops fmt args (pdefs1\<lparr>to_buffer := False, max_output_len := - 1, chp := stream\<rparr>)"

definition vex_chprintf :: "'s print_env \<Rightarrow> 'd double_ops \<Rightarrow> nat \<Rightarrow> octets \<Rightarrow> 'd printf_arg list \<Rightarrow> 's pdefs \<Rightarrow> (int \<times> 's pdefs) option" where
  "vex_chprintf env ops stream fmt args pdefs1 =
     vex_print env ops fmt args (pdefs1\<lparr>to_buffer := False, max_output_len := - 1, chp := stream\<rparr>)"

definition vex_vprintf :: "'s print_env \<Rightarrow> 'd double_ops \<Rightarrow> octets \<Rightarrow> 'd printf_arg list \<Rightarrow> 's pdefs \<Rightarrow> (int \<times> 's pdefs) option" where
  "vex_vprintf env ops fmt args pdefs1 =
     vex_print env ops fmt args (pdefs1\<lparr>to_buffer := False, max_output_len := - 1, chp := SD_CONSOLE\<rparr>)"

definition vex_printf :: "'s print_env \<Rightarrow> 'd double_ops \<Rightarrow> octets \<Rightarrow> 'd printf_arg list \<Rightarrow> 's pdefs \<Rightarrow> (int \<times> 's pdefs) option" where
  "vex_printf env ops fmt args pdefs1 =
     vex_print env ops fmt args (pdefs1\<lparr>to_buffer := False, max_output_len := - 1, chp := SD_CONSOLE\<rparr>)"

definition vex_vsprintf :: "'s print_env \<Rightarrow> 'd double_ops \<Rightarrow> octets \<Rightarrow> 'd printf_arg list \<Rightarrow> 's pdefs \<Rightarrow> (int \<times> 's pdefs) option" where
  "vex_vsprintf env ops fmt args pdefs2 =
     vex_print env ops fmt args (pdefs2\<lparr>to_buffer := True, out_text := [], max_output_len := - 1\<rparr>)"

definition vex_sprintf :: "'s print_env \<Rightarrow> 'd double_ops \<Rightarrow> octets \<Rightarrow> 'd printf_arg list \<Rightarrow> 's pdefs \<Rightarrow> (int \<times> 's pdefs) option" where
  "vex_sprintf env ops fmt args pdefs2 =
     vex_print env ops fmt args (pdefs2\<lparr>to_buffer := True, out_text := [], max_output_len := - 1\<rparr>)"

definition vex_vsnprintf :: "'s print_env \<Rightarrow> 'd double_ops \<Rightarrow> u16 \<Rightarrow> octets \<Rightarrow> 'd printf_arg list \<Rightarrow> 's pdefs \<Rightarrow> (int \<times> 's pdefs) option" where
  "vex_vsnprintf env ops max_len fmt args pdefs2 = do {
     (pc, p) \<leftarrow> vex_print env ops fmt args (pdefs2\<lparr>to_buffer := True, out_text := [], max_output_len := uint max_len\<rparr>);
     Some (if pc > uint max_len then uint max_len else pc, p)
   }"

definition vex_snprintf :: "'s print_env \<Rightarrow> 'd double_ops \<Rightarrow> u16 \<Rightarrow> octets \<Rightarrow> 'd printf_arg list \<Rightarrow> 's pdefs \<Rightarrow> (int \<times> 's pdefs) option" where
  "vex_snprintf env ops max_len fmt args pdefs2 = do {
     (pc, p) \<leftarrow> vex_print env ops fmt args (pdefs2\<lparr>to_buffer := True, out_text := [], max_output_len := uint max_len\<rparr>);
     Some (if pc > uint max_len then uint max_len else pc, p)
   }"

end
