(* ===== verification/VexLcd.thy ===== *)
theory VexLcd
  imports SerialPort VexPrintf
begin

text \<open>
  The driver of the LCD displays, \<open>src/convex/cortex/fw/vexlcd.c\<close>: two displays, each on a serial port of its own,
  which a thread sends the two lines of text and from which it takes the state of the buttons. A display's port is part
  of its data (\<open>None\<close> is NULL, whose use is outside the defined part of the language). Plain \<open>char\<close> is unsigned.
\<close>

section \<open>Data\<close>

definition LCD_DISPLAYS :: nat where "LCD_DISPLAYS = 2"
definition VEX_LCD_BACKLIGHT :: u8 where "VEX_LCD_BACKLIGHT = 1"
definition VEX_LCD_LINE_1 :: int where "VEX_LCD_LINE_1 = 0"
definition VEX_LCD_LINE_2 :: int where "VEX_LCD_LINE_2 = 1"
definition LCD_BUF_MAX :: nat where "LCD_BUF_MAX = 32"
definition TIME_INFINITE :: u32 where "TIME_INFINITE = - 1"

definition kLcdButtonNone :: u8 where "kLcdButtonNone = 0"
definition kLcdButtonLeft :: u8 where "kLcdButtonLeft = 1"
definition kLcdButtonRight :: u8 where "kLcdButtonRight = 4"

record LcdData =
  sdp :: "SerialDriver option"
  lcd_enabled :: bool
  lcd_flags :: u8
  lcd_buttons :: u8
  line1 :: octets
  line2 :: octets
  lcd_txbuf :: octets
  lcd_rxbuf :: octets

definition vexLcdData :: "LcdData list" where
  "vexLcdData = replicate LCD_DISPLAYS \<lparr>sdp = None, lcd_enabled = False, lcd_flags = VEX_LCD_BACKLIGHT, lcd_buttons = 0,
     line1 = replicate 20 0, line2 = replicate 20 0, lcd_txbuf = replicate 32 0, lcd_rxbuf = replicate 16 0\<rparr>"

definition no_display :: "int \<Rightarrow> bool" where
  "no_display display \<longleftrightarrow> display < 0 \<or> display \<ge> int LCD_DISPLAYS"

definition display_update :: "int \<Rightarrow> (LcdData \<Rightarrow> LcdData) \<Rightarrow> LcdData list \<Rightarrow> LcdData list" where
  "display_update display f ds = ds[nat display := f (ds ! nat display)]"

section \<open>Text\<close>

text \<open>A string is its octets without the terminating zero.\<close>

definition strncpy :: "octets \<Rightarrow> nat \<Rightarrow> octets \<Rightarrow> nat \<Rightarrow> octets" where
  "strncpy dst off src n = take off dst @ take n (src @ replicate n 0) @ drop (off + n) dst"

definition vexLcdSet :: "int \<Rightarrow> int \<Rightarrow> octets \<Rightarrow> LcdData list \<Rightarrow> LcdData list" where
  "vexLcdSet display ln buf ds =
     (if no_display display then ds
      else display_update display (\<lambda>d. if ln = 0 then d\<lparr>line1 := strncpy (line1 d) 0 buf 16\<rparr>
                                   else d\<lparr>line2 := strncpy (line2 d) 0 buf 16\<rparr>) ds)"

definition vexLcdSetAt :: "int \<Rightarrow> int \<Rightarrow> int \<Rightarrow> octets \<Rightarrow> LcdData list \<Rightarrow> LcdData list" where
  "vexLcdSetAt display ln col buf ds =
     (if no_display display then ds
      else if col < 0 \<or> col > 15 then ds
      else display_update display (\<lambda>d. if ln = 0 then d\<lparr>line1 := strncpy (line1 d) (nat col) buf (16 - nat col)\<rparr>
                                   else d\<lparr>line2 := strncpy (line2 d) (nat col) buf (16 - nat col)\<rparr>) ds)"

text \<open>The text is formatted into a buffer of 32 characters; a terminator behind it is outside the buffer.\<close>

definition lcd_format :: "'d double_ops \<Rightarrow> octets \<Rightarrow> 'd printf_arg list \<Rightarrow> octets option" where
  "lcd_format ops fmt args = do {
     (n, p) \<leftarrow> vex_vsnprintf no_stream ops (of_nat LCD_BUF_MAX) fmt args pdefs2_reset;
     if length (out_text p) \<le> LCD_BUF_MAX then Some (butlast (out_text p)) else None
   }"

definition vexLcdPrintf :: "'d double_ops \<Rightarrow> int \<Rightarrow> int \<Rightarrow> octets \<Rightarrow> 'd printf_arg list \<Rightarrow> LcdData list \<Rightarrow> LcdData list option" where
  "vexLcdPrintf ops display ln fmt args ds = do { text \<leftarrow> lcd_format ops fmt args; Some (vexLcdSet display ln text ds) }"

definition vexLcdPrintfAt ::
    "'d double_ops \<Rightarrow> int \<Rightarrow> int \<Rightarrow> int \<Rightarrow> octets \<Rightarrow> 'd printf_arg list \<Rightarrow> LcdData list \<Rightarrow> LcdData list option" where
  "vexLcdPrintfAt ops display ln col fmt args ds = do { text \<leftarrow> lcd_format ops fmt args; Some (vexLcdSetAt display ln col text ds) }"

definition vexLcdClearLine :: "int \<Rightarrow> int \<Rightarrow> LcdData list \<Rightarrow> LcdData list" where
  "vexLcdClearLine display ln ds = vexLcdSet display ln (replicate 16 0x20) ds"

definition vexLcdBacklight :: "int \<Rightarrow> int \<Rightarrow> LcdData list \<Rightarrow> LcdData list" where
  "vexLcdBacklight display v ds =
     (if no_display display then ds
      else display_update display (\<lambda>d. d\<lparr>lcd_flags := if v = 1 then lcd_flags d OR VEX_LCD_BACKLIGHT
                                                  else lcd_flags d AND NOT VEX_LCD_BACKLIGHT\<rparr>) ds)"

definition vexLcdButtonGet :: "int \<Rightarrow> LcdData list \<Rightarrow> u8" where
  "vexLcdButtonGet display ds = (if no_display display then kLcdButtonNone else lcd_buttons (ds ! nat display))"

text \<open>The lines are filled with blanks over their whole length and terminated at 16. The second component tells
  whether the thread runs.\<close>

definition vexLcdInit :: "int \<Rightarrow> SerialDriver option \<Rightarrow> LcdData list \<times> bool \<Rightarrow> LcdData list \<times> bool" where
  "vexLcdInit display port s =
     (if no_display display then s
      else case port of
        None \<Rightarrow> s
      | Some sd \<Rightarrow> (display_update display (\<lambda>d. d\<lparr>sdp := Some sd, line1 := (replicate 20 0x20)[16 := 0], line2 := (replicate 20 0x20)[16 := 0],
                      lcd_txbuf := replicate 32 0, lcd_rxbuf := replicate 16 0, lcd_enabled := True\<rparr>) (fst s), True))"

section \<open>Messages\<close>

text \<open>
  A write that waits for room in the output queue: the wait ends, with \<open>Q_OK\<close>, when the interrupt handler has taken an
  octet, which is within a millisecond.
\<close>

definition wait_env :: "serial_env \<Rightarrow> SerialDriver queue_env" where
  "wait_env env = (oq_env env)\<lparr>q_sleep := (\<lambda>_ sd. (Q_OK, at_sleep env 1 sd))\<rparr>"

definition sdWrite :: "serial_env \<Rightarrow> octets \<Rightarrow> u32 \<Rightarrow> SerialDriver \<Rightarrow> (nat \<times> SerialDriver) option" where
  "sdWrite env octs n sd = chOQWriteTimeout (wait_env env) octs n TIME_INFINITE sd"

definition sdGetTimeout :: "serial_env \<Rightarrow> u32 \<Rightarrow> SerialDriver \<Rightarrow> (int \<times> SerialDriver) option" where
  "sdGetTimeout env time sd = chIQGetTimeout (iq_env env) time sd"

text \<open>The sixteen octets of text: a zero in the line leaves the blank.\<close>

definition shown :: "octets \<Rightarrow> octets" where
  "shown l = map (\<lambda>b. if b \<noteq> 0 then b else 0x20) (take 16 l)"

definition checksum :: "octets \<Rightarrow> u8" where
  "checksum body = word_of_int (0x100 - i16 (sum_list (map uint body)))"

definition vexLcdSendMessage :: "serial_env \<Rightarrow> int \<Rightarrow> LcdData \<Rightarrow> LcdData option" where
  "vexLcdSendMessage env ln d =
     (if ln < 0 \<or> ln > 1 then Some d
      else do {
        let code = (if lcd_flags d AND VEX_LCD_BACKLIGHT \<noteq> 0 then 0x02 + ln else ln);
        let body = word_of_int code # shown (if ln = 0 then line1 d else line2 d);
        let msg = [0xAA, 0x55, 0x1e, 0x12] @ body @ [checksum body];
        tx \<leftarrow> memcpy (lcd_txbuf d) 0 msg;
        sd \<leftarrow> sdp d;
        (_, sd) \<leftarrow> sdWrite env tx 22 sd;
        Some (d\<lparr>lcd_txbuf := tx, sdp := Some sd\<rparr>)
      })"

text \<open>The loop that reads at most sixteen octets; \<open>i\<close> counts them.\<close>

fun lcd_read_loop :: "serial_env \<Rightarrow> nat \<Rightarrow> nat \<Rightarrow> octets \<Rightarrow> SerialDriver \<Rightarrow> (nat \<times> octets \<times> SerialDriver) option" where
  "lcd_read_loop env 0 i rx sd = Some (i, rx, sd)"
| "lcd_read_loop env (Suc n) i rx sd = do {
     (c, sd) \<leftarrow> sdGetTimeout env TIME_IMMEDIATE sd;
     if c \<noteq> Q_TIMEOUT then do {
       rx \<leftarrow> memcpy rx i [word_of_int c];
       lcd_read_loop env n (i + 1) rx sd
     }
     else Some (i, rx, sd)
   }"

definition lcd_reply :: "octets \<Rightarrow> bool" where
  "lcd_reply rx \<longleftrightarrow> rx ! 0 = 0xAA \<and> rx ! 1 = 0x55 \<and> rx ! 2 = 0x16 \<and> (uint (rx ! 4) + uint (rx ! 5)) AND 0xFF = 0"

definition vexLcdCheckReceiveMessage :: "serial_env \<Rightarrow> LcdData \<Rightarrow> LcdData option" where
  "vexLcdCheckReceiveMessage env d = do {
     sd \<leftarrow> sdp d;
     if chIQIsEmptyI (iqueue sd) then Some d
     else do {
       (i, rx, sd) \<leftarrow> lcd_read_loop env 16 0 (lcd_rxbuf d) sd;
       let buttons = (if i = 6 \<and> lcd_reply rx then rx ! 4 else lcd_buttons d);
       let sd = (if \<not> chIQIsEmptyI (iqueue sd) then sd\<lparr>iqueue := snd (chIQResetI (iqueue sd))\<rparr> else sd);
       Some (d\<lparr>lcd_rxbuf := rx, lcd_buttons := buttons, sdp := Some sd\<rparr>)
     }
   }"

section \<open>The update thread\<close>

text \<open>While the thread sleeps the port sends, and takes in what the display sends, \<open>rx\<close>.\<close>

definition lcd_sleep :: "serial_env \<Rightarrow> octets \<Rightarrow> LcdData \<Rightarrow> LcdData option" where
  "lcd_sleep env rx d =
     (case sdp d of None \<Rightarrow> Some d
      | Some sd \<Rightarrow> do { sd \<leftarrow> incoming rx (at_sleep env 25 sd); Some (d\<lparr>sdp := Some sd\<rparr>) })"

text \<open>What the thread does with one display and then the other.\<close>

definition both :: "(nat \<Rightarrow> LcdData \<Rightarrow> LcdData option) \<Rightarrow> LcdData list \<Rightarrow> LcdData list option" where
  "both f ds = do { d0 \<leftarrow> f 0 (ds ! 0); d1 \<leftarrow> f 1 (ds ! 1); Some [d0, d1] }"

definition lcd_send :: "serial_env \<Rightarrow> int \<Rightarrow> LcdData \<Rightarrow> LcdData option" where
  "lcd_send env ln d = (if lcd_enabled d then vexLcdSendMessage env ln d else Some d)"

definition lcd_check :: "serial_env \<Rightarrow> LcdData \<Rightarrow> LcdData option" where
  "lcd_check env d = (if lcd_enabled d then vexLcdCheckReceiveMessage env d else Some d)"

text \<open>One round of the thread; the displays send \<open>rx1\<close> in the first sleep and \<open>rx2\<close> in the second.\<close>

definition VexLcdUpdate_round ::
    "serial_env \<Rightarrow> (nat \<Rightarrow> octets) \<Rightarrow> (nat \<Rightarrow> octets) \<Rightarrow> LcdData list \<Rightarrow> LcdData list option" where
  "VexLcdUpdate_round env rx1 rx2 ds = do {
     ds \<leftarrow> both (\<lambda>_. lcd_send env 0) ds;
     ds \<leftarrow> both (\<lambda>i. lcd_sleep env (rx1 i)) ds;
     ds \<leftarrow> both (\<lambda>_. lcd_check env) ds;
     ds \<leftarrow> both (\<lambda>_. lcd_send env 1) ds;
     ds \<leftarrow> both (\<lambda>i. lcd_sleep env (rx2 i)) ds;
     both (\<lambda>_. lcd_check env) ds
   }"

section \<open>The line\<close>

context serial_line
begin

lemma wait_step:
  assumes "port_ok sd" "w < length octs"
  shows "\<exists>sd'. port_ok sd' \<and> sent sd' = sent sd @ [octs ! w] \<and> iqueue sd' = iqueue sd \<and>
    write_octets (wait_env env) octs n TIME_INFINITE w sd =
      (if n - 1 = 0 then Some (w + 1, sd') else write_octets (wait_env env) octs (n - 1) TIME_INFINITE (w + 1) sd')"
proof -
  have e: "queue_of (wait_env env) = oqueue" "q_unlock (wait_env env) = at_unlock env"
    "append_octet (wait_env env) = append_octet (oq_env env)" "qwait (wait_env env) TIME_INFINITE s = (Q_OK, at_sleep env 1 s)" for s
    by (simp_all add: wait_env_def oq_env_def append_octet_def fun_eq_iff qwait_def TIME_INFINITE_def TIME_IMMEDIATE_def)
  have go: "\<exists>sd'. port_ok sd' \<and> sent sd' = sent s @ [octs ! w] \<and> iqueue sd' = iqueue s \<and>
      write_octets (wait_env env) octs n TIME_INFINITE w s =
        (if n - 1 = 0 then Some (w + 1, sd') else write_octets (wait_env env) octs (n - 1) TIME_INFINITE (w + 1) sd')"
    if s: "port_ok s" "\<not> chOQIsFullI (oqueue s)" for s
  proof -
    obtain s1 where s1: "append_octet (oq_env env) (octs ! w) s = Some s1" "port_ok s1" "sent s1 = sent s @ [octs ! w]" "iqueue s1 = iqueue s"
      using append_sent [OF s] by blast
    show ?thesis using unlock [OF s1(2)] s1 s(2) assms(2)
      by (intro exI [of _ "at_unlock env s1"]) (simp add: write_octets.simps [of _ _ _ _ w] e Let_def)
  qed
  show ?thesis
  proof (cases "chOQIsFullI (oqueue sd)")
    case False
    then show ?thesis using go [OF assms(1)] by blast
  next
    case True
    let ?s = "at_sleep env 1 sd"
    have s: "port_ok ?s" "sent ?s = sent sd" "iqueue ?s = iqueue sd" using sleep [OF assms(1)] by auto
    then have "\<not> chOQIsFullI (oqueue ?s)" using progress [OF assms(1), of 1] oq_full by (auto simp: port_ok_def)
    moreover have "write_octets (wait_env env) octs n TIME_INFINITE w sd = write_octets (wait_env env) octs n TIME_INFINITE w ?s"
      using True by (subst write_octets.simps) (simp add: e)
    ultimately show ?thesis using go [OF s(1)] s by simp
  qed
qed

lemma wait_write:
  "port_ok sd \<Longrightarrow> n \<noteq> 0 \<Longrightarrow> w + unat n \<le> length octs \<Longrightarrow>
   \<exists>sd'. write_octets (wait_env env) octs n TIME_INFINITE w sd = Some (w + unat n, sd') \<and> port_ok sd' \<and>
     sent sd' = sent sd @ take (unat n) (drop w octs) \<and> iqueue sd' = iqueue sd"
proof (induction "unat n" arbitrary: n w sd)
  case 0
  then show ?case by (simp add: unat_eq_0)
next
  case (Suc m)
  have w: "w < length octs" using Suc.prems(2,3) Suc.hyps(2) by simp
  obtain sd1 where sd1: "port_ok sd1" "sent sd1 = sent sd @ [octs ! w]" "iqueue sd1 = iqueue sd"
    "write_octets (wait_env env) octs n TIME_INFINITE w sd =
      (if n - 1 = 0 then Some (w + 1, sd1) else write_octets (wait_env env) octs (n - 1) TIME_INFINITE (w + 1) sd1)"
    using wait_step [OF Suc.prems(1) w] by blast
  have m: "m = unat (n - 1)" using Suc.hyps(2) Suc.prems(2) by (simp add: unat_minus_one)
  have first: "take (Suc k) (drop w octs) = octs ! w # take k (drop (Suc w) octs)" for k
    using w by (simp add: Cons_nth_drop_Suc [symmetric])
  show ?case
  proof (cases "n - 1 = 0")
    case True
    then show ?thesis using sd1 first [of 0] Suc.hyps(2) m by (simp flip: Suc.hyps(2))
  next
    case False
    then obtain sd' where "write_octets (wait_env env) octs (n - 1) TIME_INFINITE (w + 1) sd1 = Some (w + 1 + unat (n - 1), sd')"
      "port_ok sd'" "sent sd' = sent sd1 @ take (unat (n - 1)) (drop (w + 1) octs)" "iqueue sd' = iqueue sd1"
      using Suc.hyps(1) [OF m sd1(1) False, of "w + 1"] Suc.prems(3) Suc.hyps(2) m by auto
    then show ?thesis using sd1 first [of m] False m by (simp flip: Suc.hyps(2))
  qed
qed

lemma sdWrite_sent:
  assumes "port_ok sd" "n \<noteq> 0" "unat n \<le> length octs"
  shows "\<exists>sd'. sdWrite env octs n sd = Some (unat n, sd') \<and> port_ok sd' \<and> sent sd' = sent sd @ take (unat n) octs \<and>
    iqueue sd' = iqueue sd"
  using wait_write [OF assms(1,2), of 0 octs] assms(3) by (simp add: sdWrite_def chOQWriteTimeout_def)

lemma sdGet_received:
  assumes "port_ok sd"
  shows "\<exists>sd'. sdGetTimeout env TIME_IMMEDIATE sd = Some (case received sd of [] \<Rightarrow> Q_TIMEOUT | b # _ \<Rightarrow> uint b, sd') \<and>
    port_ok sd' \<and> sent sd' = sent sd \<and> received sd' = tl (received sd)"
proof -
  have e: "queue_of (iq_env env) = iqueue" "q_unlock (iq_env env) = at_unlock env" "q_notify (iq_env env) = (\<lambda>sd. sd)"
    "set_queue (iq_env env) = (\<lambda>q sd. sd\<lparr>iqueue := q\<rparr>)" by (simp_all add: iq_env_def)
  show ?thesis
  proof (cases "received sd")
    case Nil
    have "qwait (iq_env env) TIME_IMMEDIATE sd = (Q_TIMEOUT, sd)" by (simp add: qwait_def)
    then show ?thesis using Nil unlock [OF assms]
      by (simp add: sdGetTimeout_def chIQGetTimeout_def e get_loop.simps iq_empty received_def queue_codes)
  next
    case (Cons b bs)
    have i: "iq_inv (iqueue sd)" "chQSizeI (iqueue sd) = SERIAL_BUFFERS_SIZE" using assms by (simp_all add: port_ok_def)
    obtain q where q: "take_octet (iq_env env) sd = Some (b, sd\<lparr>iqueue := q\<rparr>)" "iq_inv q" "iq_items q = bs"
      "chQSizeI q = SERIAL_BUFFERS_SIZE"
      using take_octet_spec [of "iq_env env" sd b bs] i Cons by (auto simp: e received_def)
    have ok: "port_ok (sd\<lparr>iqueue := q\<rparr>)" "sent (sd\<lparr>iqueue := q\<rparr>) = sent sd" using assms q by (simp_all add: port_ok_def sent_def)
    show ?thesis using q Cons unlock [OF ok(1)] ok(2)
      by (simp add: sdGetTimeout_def chIQGetTimeout_def e get_loop.simps iq_empty received_def)
  qed
qed

lemma lcd_read:
  "port_ok sd \<Longrightarrow> i + n \<le> length rx \<Longrightarrow>
   \<exists>sd'. lcd_read_loop env n i rx sd = Some (i + min n (length (received sd)),
       take i rx @ take n (received sd) @ drop (i + min n (length (received sd))) rx, sd') \<and>
     port_ok sd' \<and> sent sd' = sent sd \<and> received sd' = drop n (received sd)"
proof (induction n arbitrary: i rx sd)
  case (Suc n)
  obtain sd1 where sd1: "sdGetTimeout env TIME_IMMEDIATE sd = Some (case received sd of [] \<Rightarrow> Q_TIMEOUT | b # _ \<Rightarrow> uint b, sd1)"
    "port_ok sd1" "sent sd1 = sent sd" "received sd1 = tl (received sd)" using sdGet_received [OF Suc.prems(1)] by blast
  show ?case
  proof (cases "received sd")
    case Nil
    then show ?thesis using sd1 by simp
  next
    case (Cons b bs)
    have b: "uint b \<noteq> Q_TIMEOUT" using uint_nonnegative [of b] unfolding queue_codes by linarith
    let ?rx = "take i rx @ [b] @ drop (i + 1) rx"
    have "memcpy rx i [b] = Some ?rx" "i + 1 + n \<le> length ?rx" using Suc.prems(2) by (simp_all add: memcpy_def)
    then show ?thesis using Suc.IH [OF sd1(2), of "i + 1" ?rx] sd1 Cons b Suc.prems(2)
      by (auto simp: min_def add.commute)
  qed
qed auto

end

section \<open>A round of the thread\<close>

text \<open>
  The reference. A message to the display is a header, the line and the backlight, sixteen characters, and the octet
  that makes the sum of the others behind the header zero; a reply counts when it has six octets, the header and a sum
  of zero, and then its fifth octet is the state of the buttons.
\<close>

definition lcd_frame :: "u8 \<Rightarrow> LcdData \<Rightarrow> octets \<Rightarrow> octets" where
  "lcd_frame ln d text =
     (let body = (if lcd_flags d AND VEX_LCD_BACKLIGHT \<noteq> 0 then 2 + ln else ln) # shown text
      in [0xAA, 0x55, 0x1e, 0x12] @ body @ [- sum_list body])"

fun pressed :: "octets \<Rightarrow> u8 \<Rightarrow> u8" where
  "pressed [h1, h2, h3, _, x, y] b = (if h1 = 0xAA \<and> h2 = 0x55 \<and> h3 = 0x16 \<and> x + y = 0 then x else b)"
| "pressed _ b = b"

definition display_ok :: "LcdData \<Rightarrow> bool" where
  "display_ok d \<longleftrightarrow> lcd_enabled d \<and> length (line1 d) = 20 \<and> length (line2 d) = 20 \<and> length (lcd_txbuf d) = 32 \<and>
     length (lcd_rxbuf d) = 16 \<and> (\<exists>sd. sdp d = Some sd \<and> port_ok sd)"

definition to_display :: "LcdData \<Rightarrow> octets" where
  "to_display d = (case sdp d of None \<Rightarrow> [] | Some sd \<Rightarrow> sent sd)"

definition from_display :: "LcdData \<Rightarrow> octets" where
  "from_display d = (case sdp d of None \<Rightarrow> [] | Some sd \<Rightarrow> received sd)"

lemma shown_length [simp]: "length l = 20 \<Longrightarrow> length (shown l) = 16"
  by (simp add: shown_def)

lemma sum_octets: "word_of_int (sum_list (map uint xs)) = sum_list (xs :: octets)"
  by (induction xs) (simp_all flip: wi_hom_add)

lemma sum_octets_bound: "0 \<le> sum_list (map uint xs) \<and> sum_list (map uint (xs :: octets)) \<le> 255 * int (length xs)"
proof (induction xs)
  case (Cons x xs)
  have "uint x < 256" "0 \<le> uint x" using uint_bounded [of x] uint_nonnegative [of x] by simp_all
  then show ?case using Cons by simp
qed simp

lemma checksum_sum: "length xs \<le> 100 \<Longrightarrow> checksum xs = - sum_list xs"
proof -
  assume l: "length xs \<le> 100"
  have "i16 (sum_list (map uint xs)) = sum_list (map uint xs)"
    by (rule i16_id) (use sum_octets_bound [of xs] l in auto)
  then show ?thesis using sum_octets [of xs] by (simp add: checksum_def flip: wi_hom_sub)
qed

context serial_line
begin

lemma send_frame:
  assumes "display_ok d" "ln = 0 \<or> ln = 1"
  shows "\<exists>d'. lcd_send env ln d = Some d' \<and> display_ok d' \<and>
     to_display d' = to_display d @ lcd_frame (word_of_int ln) d (if ln = 0 then line1 d else line2 d) \<and>
     from_display d' = from_display d \<and> lcd_buttons d' = lcd_buttons d \<and> lcd_flags d' = lcd_flags d \<and>
     line1 d' = line1 d \<and> line2 d' = line2 d"
proof -
  obtain sd where sd: "sdp d = Some sd" "port_ok sd" using assms(1) by (auto simp: display_ok_def)
  let ?text = "if ln = 0 then line1 d else line2 d" let ?frame = "lcd_frame (word_of_int ln) d ?text"
  have lf: "length ?frame = 22" using assms(1) by (simp add: lcd_frame_def display_ok_def Let_def)
  let ?tx = "?frame @ drop 22 (lcd_txbuf d)"
  have tx: "memcpy (lcd_txbuf d) 0 ?frame = Some ?tx" using assms(1) lf by (simp add: memcpy_def display_ok_def)
  obtain sd' where sd': "sdWrite env ?tx 22 sd = Some (22, sd')" "port_ok sd'" "sent sd' = sent sd @ ?frame" "iqueue sd' = iqueue sd"
    using sdWrite_sent [OF sd(2), of 22 ?tx] assms(1) lf by (auto simp: display_ok_def)
  let ?code = "if lcd_flags d AND VEX_LCD_BACKLIGHT \<noteq> 0 then 0x02 + ln else ln"
  have "length (word_of_int ?code # shown ?text) \<le> 100" using assms(1) by (simp add: display_ok_def)
  moreover have "word_of_int ?code = (if lcd_flags d AND VEX_LCD_BACKLIGHT \<noteq> 0 then 2 + word_of_int ln else word_of_int ln :: u8)"
    using assms(2) by auto
  ultimately have msg: "[0xAA, 0x55, 0x1e, 0x12] @ (word_of_int ?code # shown ?text) @ [checksum (word_of_int ?code # shown ?text)] = ?frame"
    unfolding lcd_frame_def Let_def by (simp only: checksum_sum)
  have "\<not> (ln < 0 \<or> ln > 1)" "lcd_enabled d" using assms by (auto simp: display_ok_def)
  then have "lcd_send env ln d = Some (d\<lparr>lcd_txbuf := ?tx, sdp := Some sd'\<rparr>)"
    unfolding lcd_send_def vexLcdSendMessage_def Let_def msg tx sd(1) if_False bind.bind_lunit if_True simp_thms
    by (simp add: sd'(1))
  then show ?thesis using sd sd' assms(1) lf
    by (auto simp: display_ok_def to_display_def from_display_def received_def)
qed

lemma sleep_receives:
  assumes "display_ok d" "from_display d = []"
  shows "\<exists>d'. lcd_sleep env rx d = Some d' \<and> display_ok d' \<and> to_display d' = to_display d \<and> from_display d' = take 64 rx \<and>
     lcd_buttons d' = lcd_buttons d \<and> lcd_flags d' = lcd_flags d \<and> line1 d' = line1 d \<and> line2 d' = line2 d"
proof -
  obtain sd where sd: "sdp d = Some sd" "port_ok sd" using assms(1) by (auto simp: display_ok_def)
  have "port_ok (at_sleep env 25 sd)" "sent (at_sleep env 25 sd) = sent sd" "received (at_sleep env 25 sd) = []"
    using sleep [OF sd(2), of 25] assms(2) sd(1) by (auto simp: from_display_def received_def)
  then show ?thesis using incoming_received [of "at_sleep env 25 sd" rx] sd assms(1)
    by (auto simp: lcd_sleep_def display_ok_def to_display_def from_display_def)
qed

lemma check_takes:
  assumes "display_ok d"
  shows "\<exists>d'. lcd_check env d = Some d' \<and> display_ok d' \<and> to_display d' = to_display d \<and> from_display d' = [] \<and>
     lcd_buttons d' = pressed (from_display d) (lcd_buttons d) \<and> lcd_flags d' = lcd_flags d \<and> line1 d' = line1 d \<and> line2 d' = line2 d"
proof -
  obtain sd where sd: "sdp d = Some sd" "port_ok sd" using assms(1) by (auto simp: display_ok_def)
  show ?thesis
  proof (cases "received sd")
    case Nil
    then show ?thesis using sd assms
      by (simp add: lcd_check_def display_ok_def vexLcdCheckReceiveMessage_def iq_empty received_def to_display_def from_display_def)
  next
    case (Cons b bs)
    have l: "length (lcd_rxbuf d) = 16" "lcd_enabled d" using assms by (simp_all add: display_ok_def)
    let ?k = "min 16 (length (received sd))" let ?rx = "take 16 (received sd) @ drop ?k (lcd_rxbuf d)"
    obtain sd1 where sd1: "lcd_read_loop env 16 0 (lcd_rxbuf d) sd = Some (?k, ?rx, sd1)" "port_ok sd1" "sent sd1 = sent sd"
      using lcd_read [OF sd(2), of 0 16 "lcd_rxbuf d"] l by auto
    define sd2 where "sd2 = (if \<not> chIQIsEmptyI (iqueue sd1) then sd1\<lparr>iqueue := snd (chIQResetI (iqueue sd1))\<rparr> else sd1)"
    have sd2: "port_ok sd2" "sent sd2 = sent sd" "received sd2 = []"
      using sd1(2,3) by (auto simp: sd2_def port_ok_def sent_def received_def iq_empty chIQResetI_def release_all_def iq_items_def
          iq_inv_def q_ok_def chQSizeI_def SERIAL_BUFFERS_SIZE_def)
    have ne: "chIQIsEmptyI (iqueue sd) = False" using Cons by (simp add: iq_empty received_def)
    have six: "?k = 6 \<longleftrightarrow> length (received sd) = 6" by (auto simp: min_def)
    have reply: "(if ?k = 6 \<and> lcd_reply ?rx then ?rx ! 4 else lcd_buttons d) = pressed (received sd) (lcd_buttons d)"
    proof (cases "length (received sd) = 6")
      case True
      then obtain h1 h2 h3 h4 x y where r: "received sd = [h1, h2, h3, h4, x, y]"
        by (auto simp: numeral_eq_Suc length_Suc_conv)
      have "(uint x + uint y) AND 0xFF = uint (x + y)" using take_bit_eq_mask [of 8 "uint x + uint y"] by (simp add: uint_word_ariths mask_eq_exp_minus_1 take_bit_eq_mod)
      then have "(uint x + uint y) AND 0xFF = 0 \<longleftrightarrow> x + y = 0" by (simp add: uint_0_iff)
      then show ?thesis using r by (simp add: lcd_reply_def)
    next
      case False
      then have "pressed (received sd) (lcd_buttons d) = lcd_buttons d"
        by (cases "(received sd, lcd_buttons d)" rule: pressed.cases) auto
      then show ?thesis using False six by simp
    qed
    have "lcd_check env d = Some (d\<lparr>lcd_rxbuf := ?rx, lcd_buttons := pressed (received sd) (lcd_buttons d), sdp := Some sd2\<rparr>)"
      unfolding lcd_check_def vexLcdCheckReceiveMessage_def Let_def
      by (simp only: l(2) sd(1) ne sd1(1) if_True if_False bind.bind_lunit prod.case reply sd2_def [symmetric])
    then show ?thesis using sd sd2 assms l
      by (auto simp: display_ok_def to_display_def from_display_def)
  qed
qed

end

text \<open>What a half and a whole round do to one display.\<close>

definition after_half :: "u8 \<Rightarrow> octets \<Rightarrow> LcdData \<Rightarrow> LcdData \<Rightarrow> bool" where
  "after_half ln rx d d' \<longleftrightarrow> display_ok d' \<and> from_display d' = [] \<and>
     to_display d' = to_display d @ lcd_frame ln d (if ln = 0 then line1 d else line2 d) \<and>
     lcd_buttons d' = pressed (take 64 rx) (lcd_buttons d) \<and> lcd_flags d' = lcd_flags d \<and> line1 d' = line1 d \<and> line2 d' = line2 d"

lemma pressed_other: "length rx \<noteq> 6 \<Longrightarrow> pressed rx b = b"
  by (cases "(rx, b)" rule: pressed.cases) auto

lemma pressed_take: "pressed (take 64 rx) b = pressed rx b"
  by (cases "length rx = 6") (simp_all add: pressed_other)

context serial_line
begin

lemma half_round:
  assumes "length ds = 2" "\<forall>i<2. display_ok (ds ! i) \<and> from_display (ds ! i) = []" "ln = 0 \<or> ln = 1"
  shows "\<exists>ds1 ds2 ds3. both (\<lambda>_. lcd_send env ln) ds = Some ds1 \<and> both (\<lambda>i. lcd_sleep env (rx i)) ds1 = Some ds2 \<and>
     both (\<lambda>_. lcd_check env) ds2 = Some ds3 \<and> length ds3 = 2 \<and> (\<forall>i<2. after_half (word_of_int ln) (rx i) (ds ! i) (ds3 ! i))"
proof -
  have one: "\<exists>d1 d2 d3. lcd_send env ln (ds ! i) = Some d1 \<and> lcd_sleep env (rx i) d1 = Some d2 \<and> lcd_check env d2 = Some d3 \<and>
      after_half (word_of_int ln) (rx i) (ds ! i) d3" if i: "i < 2" for i
  proof -
    have d: "display_ok (ds ! i)" "from_display (ds ! i) = []" using assms(2) i by auto
    obtain d1 where d1: "lcd_send env ln (ds ! i) = Some d1" "display_ok d1" "from_display d1 = []"
      "to_display d1 = to_display (ds ! i) @ lcd_frame (word_of_int ln) (ds ! i) (if ln = 0 then line1 (ds ! i) else line2 (ds ! i))"
      "lcd_buttons d1 = lcd_buttons (ds ! i)" "lcd_flags d1 = lcd_flags (ds ! i)" "line1 d1 = line1 (ds ! i)" "line2 d1 = line2 (ds ! i)"
      using send_frame [OF d(1) assms(3)] d(2) by auto
    obtain d2 where d2: "lcd_sleep env (rx i) d1 = Some d2" "display_ok d2" "to_display d2 = to_display d1" "from_display d2 = take 64 (rx i)"
      "lcd_buttons d2 = lcd_buttons d1" "lcd_flags d2 = lcd_flags d1" "line1 d2 = line1 d1" "line2 d2 = line2 d1"
      using sleep_receives [OF d1(2,3)] by blast
    have "(word_of_int ln = (0 :: u8)) = (ln = 0)" using assms(3) by auto
    with d1 d2 check_takes [OF d2(2)] show ?thesis by (auto simp: after_half_def)
  qed
  obtain a1 a2 a3 where a: "lcd_send env ln (ds ! 0) = Some a1" "lcd_sleep env (rx 0) a1 = Some a2" "lcd_check env a2 = Some a3"
    "after_half (word_of_int ln) (rx 0) (ds ! 0) a3" using one [of 0] by auto
  obtain b1 b2 b3 where b: "lcd_send env ln (ds ! 1) = Some b1" "lcd_sleep env (rx 1) b1 = Some b2" "lcd_check env b2 = Some b3"
    "after_half (word_of_int ln) (rx 1) (ds ! 1) b3" using one [of 1] by auto
  show ?thesis using a b
    by (intro exI [of _ "[a1, b1]"] exI [of _ "[a2, b2]"] exI [of _ "[a3, b3]"]) (auto simp: both_def less_2_cases_iff)
qed

end


section \<open>Witness\<close>

definition lcd_sample :: "LcdData list" where
  "lcd_sample = vexLcdSet 0 VEX_LCD_LINE_1 [77, 51] (fst (vexLcdInit 1 (Some idle_port) (vexLcdInit 0 (Some idle_port) (vexLcdData, False))))"

lemma lcd_sample_ok: "length lcd_sample = 2" "\<forall>i<2. display_ok (lcd_sample ! i) \<and> from_display (lcd_sample ! i) = []"
  using idle_port_ok
  by (auto simp: lcd_sample_def vexLcdSet_def vexLcdInit_def vexLcdData_def no_display_def LCD_DISPLAYS_def display_update_def
      numeral_2_eq_2 less_Suc_eq display_ok_def from_display_def VEX_LCD_LINE_1_def strncpy_def)


end
