(* ===== verification/VexPrintf_Properties.thy ===== *)
theory VexPrintf_Properties
  imports VexPrintf
begin

text \<open>
  Formatted output: a limited buffer gets the first characters of what an unlimited one would get, and a printed integer
  reads back as the integer.
\<close>

section \<open>The limit\<close>

text \<open>The working variables of two runs of the same call, the second with the limit \<open>m\<close>.\<close>

definition limited :: "nat \<Rightarrow> 's pdefs \<Rightarrow> 's pdefs \<Rightarrow> bool" where
  "limited m p q \<longleftrightarrow> to_buffer p \<and> max_output_len p = - 1 \<and> curr_output_len p = int (length (out_text p)) \<and>
     q = p\<lparr>max_output_len := int m, curr_output_len := int (min m (length (out_text p))), out_text := take m (out_text p)\<rparr>"

lemma cut_printc: "limited m p q \<Longrightarrow> limited m (vex_printc env c p) (vex_printc env c q)"
  by (auto simp: limited_def vex_printc_def min_def)

lemma cut_fold: "limited m p q \<Longrightarrow> limited m (fold (vex_printc env) cs p) (fold (vex_printc env) cs q)"
  by (induction cs arbitrary: p q) (simp_all add: cut_printc)

lemma cut_plus: "limited m p q \<Longrightarrow> use_leading_plus q = use_leading_plus p"
  "limited m p q \<Longrightarrow> limited m (p\<lparr>use_leading_plus := b\<rparr>) (q\<lparr>use_leading_plus := b\<rparr>)"
  by (auto simp: limited_def)

text \<open>Two results of a printing step: the same count, and cut working variables.\<close>

definition cuts :: "nat \<Rightarrow> ('a \<times> 's pdefs) option \<Rightarrow> ('a \<times> 's pdefs) option \<Rightarrow> bool" where
  "cuts m = rel_option (rel_prod (=) (limited m))"

lemma cut_prints: "limited m p q \<Longrightarrow> rel_prod (=) (limited m) (vex_prints env s w pad p) (vex_prints env s w pad q)"
  by (simp add: vex_prints_def Let_def cut_fold)

lemma cut_printi: "limited m p q \<Longrightarrow> cuts m (vex_printi env i base sg w pad lb p) (vex_printi env i base sg w pad lb q)"
proof -
  assume c: "limited m p q"
  note prints = cut_prints [OF c]
  define s where "s = put_digits base lb (nat (- i))"
  obtain a p' q' where z: "vex_prints env s (w - 1) pad (vex_printc env 0x2D p) = (a, p')"
      "vex_prints env s (w - 1) pad (vex_printc env 0x2D q) = (a, q')" "limited m p' q'"
    using cut_prints [OF cut_printc [OF c], of env s "w - 1" pad env "0x2D"] by (auto simp: rel_prod_conv split: prod.splits)
  show ?thesis
    unfolding vex_printi_def Let_def s_def [symmetric] z(1,2) cut_plus(1) [OF c] cuts_def
    using prints z(3) by simp
qed

lemma cut_printdbl: "limited m p q \<Longrightarrow> cuts m (vex_printdbl env ops d w n pad p) (vex_printdbl env ops d w n pad q)"
  using cut_plus(1) [of m p q] cut_prints [of m p q]
  by (cases "dbl2stri ops (use_leading_plus p) d n") (simp_all add: cuts_def vex_printdbl_def)

lemma cuts_cases: "cuts m x y \<longleftrightarrow> (x = None \<and> y = None) \<or> (\<exists>n p q. x = Some (n, p) \<and> y = Some (n, q) \<and> limited m p q)"
  by (cases x; cases y) (auto simp: cuts_def)

lemma cut_convert:
  assumes "limited m p q"
  shows "(convert env ops v c args p = None \<and> convert env ops v c args q = None) \<or>
    (\<exists>n as p' q'. convert env ops v c args p = Some (n, as, p') \<and> convert env ops v c args q = Some (n, as, q') \<and> limited m p' q')"
proof (cases "\<exists>s as. args = AStr s # as \<or> (\<exists>i. args = AInt i # as) \<or> (\<exists>d. args = ADbl d # as)")
  case True
  then consider (str) s as where "args = AStr s # as" | (int) i as where "args = AInt i # as" | (dbl) d as where "args = ADbl d # as"
    by blast
  then show ?thesis
  proof cases
    case str
    then show ?thesis using assms
      by (auto simp: convert.simps vex_prints_def Let_def cut_fold cut_printc split: option.splits)
  next
    case int
    then show ?thesis
      using assms cut_printi [OF assms, of env i 10 True "cv_width v" "cv_pad v" "0x61"]
        cut_printi [OF assms, of env i 16 False "cv_width v" "cv_pad v" "0x61"]
        cut_printi [OF assms, of env i 16 False "cv_width v" "cv_pad v" "0x41"]
        cut_printi [OF assms, of env i 10 False "cv_width v" "cv_pad v" "0x61"]
      unfolding cuts_cases by (auto simp: convert.simps vex_prints_def Let_def cut_fold cut_printc)
  next
    case dbl
    then show ?thesis using assms cut_printdbl [OF assms, of env ops d "cv_width v" "cv_dec v" "cv_pad v"]
      unfolding cuts_cases by (auto simp: convert.simps cut_printc)
  qed
next
  case False
  then have "args = []" by (cases args) (auto elim: printf_arg.exhaust, metis printf_arg.exhaust)
  then show ?thesis using assms by (auto simp: convert.simps cut_printc)
qed

lemma cut_loop: "limited m p q \<Longrightarrow> cuts m (print_loop env ops fmt args p pc) (print_loop env ops fmt args q pc)"
proof (induction env ops fmt args p pc arbitrary: q rule: print_loop.induct)
  case (1 env ops args p pc)
  then show ?case by (simp add: cuts_def)
next
  case (2 env ops c f args p pc)
  show ?case
  proof (cases "c = 0x25")
    case False
    then show ?thesis using 2 by (simp add: cut_printc)
  next
    case c: True
    show ?thesis
    proof (cases "directive f")
      case None
      then show ?thesis using c by (simp add: cuts_def)
    next
      case (Some r)
      obtain d g where r: "r = (d, g)" by force
      show ?thesis
      proof (cases d)
        case Stop
        then show ?thesis using c Some r 2(4) by (simp add: cuts_def)
      next
        case Percent
        then show ?thesis using c Some r 2(2) [OF _ Some r [symmetric] Percent] 2(4) by (simp add: cut_printc)
      next
        case (Conversion v k)
        define p0 q0 where "p0 = (if cv_plus v then p\<lparr>use_leading_plus := True\<rparr> else p)"
          and "q0 = (if cv_plus v then q\<lparr>use_leading_plus := True\<rparr> else q)"
        have "limited m p0 q0" using 2(4) by (simp add: p0_def q0_def cut_plus)
        from cut_convert [OF this, of env ops v k args] show ?thesis
        proof
          assume "convert env ops v k args p0 = None \<and> convert env ops v k args q0 = None"
          then show ?thesis using c Some r Conversion by (simp add: cuts_def p0_def q0_def)
        next
          assume "\<exists>n as p' q'. convert env ops v k args p0 = Some (n, as, p') \<and> convert env ops v k args q0 = Some (n, as, q') \<and> limited m p' q'"
          then obtain n as p' q' where n: "convert env ops v k args p0 = Some (n, as, p')" "convert env ops v k args q0 = Some (n, as, q')"
            "limited m p' q'" by blast
          have "cuts m (print_loop env ops g as (p'\<lparr>use_leading_plus := False\<rparr>) (pc + n))
              (print_loop env ops g as (q'\<lparr>use_leading_plus := False\<rparr>) (pc + n))"
            using 2(3) [OF _ Some r [symmetric] Conversion n(1) [unfolded p0_def] refl refl] c cut_plus(2) [OF n(3)] by simp
          then show ?thesis using c Some r Conversion n(1,2) by (simp add: p0_def q0_def)
        qed
      qed
    qed
  qed
qed

section \<open>Digits\<close>

definition is_digit :: "u8 \<Rightarrow> bool" where
  "is_digit c \<longleftrightarrow> 0x30 \<le> c \<and> c \<le> 0x39"

definition dec_value :: "octets \<Rightarrow> int" where
  "dec_value s = foldl (\<lambda>a c. 10 * a + uint (c - 0x30)) 0 (takeWhile is_digit s)"

text \<open>How a reader takes a decimal number: it skips blanks, takes a sign, and reads digits up to the first other character.\<close>

definition read_int :: "octets \<Rightarrow> int" where
  "read_int t =
     (case dropWhile (\<lambda>c. c = 0x20) t of
        [] \<Rightarrow> 0
      | c # s \<Rightarrow> if c = 0x2D then - dec_value s else if c = 0x2B then dec_value s else dec_value (c # s))"

lemma digit_char_10:
  assumes "t < 10"
  shows "is_digit (digit_char lb t)" "uint (digit_char lb t - 0x30) = int t" "digit_char lb t \<noteq> 0x2E"
    "t \<noteq> 0 \<Longrightarrow> digit_char lb t \<noteq> 0x30" "digit_char lb t \<noteq> 0x20 \<and> digit_char lb t \<noteq> 0x2D \<and> digit_char lb t \<noteq> 0x2B"
proof -
  have e: "digit_char lb t = of_nat t + 0x30" using assms by (simp add: digit_char_def)
  have "\<forall>t\<in>set [0..<10]. is_digit (of_nat t + 0x30) \<and> uint (of_nat t + 0x30 - 0x30 :: u8) = int t \<and>
      (of_nat t + 0x30 :: u8) \<noteq> 0x2E \<and> (t \<noteq> 0 \<longrightarrow> (of_nat t + 0x30 :: u8) \<noteq> 0x30) \<and>
      (of_nat t + 0x30 :: u8) \<noteq> 0x20 \<and> (of_nat t + 0x30 :: u8) \<noteq> 0x2D \<and> (of_nat t + 0x30 :: u8) \<noteq> 0x2B"
    by code_simp
  then show "is_digit (digit_char lb t)" "uint (digit_char lb t - 0x30) = int t" "digit_char lb t \<noteq> 0x2E"
    "t \<noteq> 0 \<Longrightarrow> digit_char lb t \<noteq> 0x30" "digit_char lb t \<noteq> 0x20 \<and> digit_char lb t \<noteq> 0x2D \<and> digit_char lb t \<noteq> 0x2B"
    using assms unfolding e by auto
qed

lemma put_digits_Suc: "n \<noteq> 0 \<Longrightarrow> put_digits 10 lb n = put_digits 10 lb (n div 10) @ [digit_char lb (n mod 10)]"
  by (subst put_digits.simps) simp

lemma put_digits_0 [simp]: "put_digits b lb 0 = []"
  by (simp add: put_digits.simps)

lemma put_digits_digits: "\<forall>c\<in>set (put_digits 10 lb n). is_digit c \<and> c \<noteq> 0x2E \<and> c \<noteq> 0x20 \<and> c \<noteq> 0x2D \<and> c \<noteq> 0x2B"
proof (induction n rule: less_induct)
  case (less n)
  show ?case
  proof (cases "n = 0")
    case False
    have "\<forall>c\<in>set (put_digits 10 lb (n div 10)). is_digit c \<and> c \<noteq> 0x2E \<and> c \<noteq> 0x20 \<and> c \<noteq> 0x2D \<and> c \<noteq> 0x2B"
      using less [of "n div 10"] False by simp
    then show ?thesis using digit_char_10 [of "n mod 10" lb] put_digits_Suc [OF False] by auto
  qed simp
qed

lemma put_digits_head: "n \<noteq> 0 \<Longrightarrow> \<exists>c s. put_digits 10 lb n = c # s \<and> c \<noteq> 0x30"
proof (induction n rule: less_induct)
  case (less n)
  show ?case
  proof (cases "n div 10 = 0")
    case True
    then have "n mod 10 = n" by simp
    then show ?thesis using put_digits_Suc [OF less(2)] True digit_char_10(4) [of "n mod 10" lb] less(2) by auto
  next
    case False
    then show ?thesis using less(1) [of "n div 10"] put_digits_Suc [OF less(2)] by auto
  qed
qed

lemma put_digits_value: "foldl (\<lambda>a c. 10 * a + uint (c - 0x30)) 0 (put_digits 10 lb n) = int n"
proof (induction n rule: less_induct)
  case (less n)
  show ?case
  proof (cases "n = 0")
    case False
    then have "foldl (\<lambda>a c. 10 * a + uint (c - 0x30)) 0 (put_digits 10 lb n) = 10 * int (n div 10) + int (n mod 10)"
      using less [of "n div 10"] digit_char_10(2) [of "n mod 10" lb] put_digits_Suc [OF False] by simp
    also have "\<dots> = int n" by presburger
    finally show ?thesis .
  qed simp
qed

lemma dec_zeros: "dec_value (replicate k 0x30 @ s) = dec_value s"
  by (induction k) (simp_all add: dec_value_def is_digit_def)

lemma dec_digits: "\<not> is_digit (hd (r @ [0])) \<Longrightarrow> dec_value (put_digits 10 lb n @ r) = int n"
  using put_digits_digits [of lb n] put_digits_value [of lb n]
  by (cases r) (simp_all add: dec_value_def takeWhile_append2 takeWhile_tail takeWhile_eq_all_conv [THEN iffD2])

lemma parse_digits:
  "int n \<le> 2147483647 \<Longrightarrow> parse_width False 0 d (put_digits 10 lb n @ f) = parse_width False (int n) d f"
proof (induction n arbitrary: f rule: less_induct)
  case (less n)
  show ?case
  proof (cases "n = 0")
    case False
    have m: "n mod 10 < 10" by simp
    have "parse_width False 0 d (put_digits 10 lb n @ f)
        = parse_width False 0 d (put_digits 10 lb (n div 10) @ digit_char lb (n mod 10) # f)"
      using put_digits_Suc [OF False] by simp
    also have "\<dots> = parse_width False (int (n div 10)) d (digit_char lb (n mod 10) # f)"
      using less False by simp
    also have "int (n div 10) * 10 + int (n mod 10) = int n" by presburger
    then have "parse_width False (int (n div 10)) d (digit_char lb (n mod 10) # f) = parse_width False (int n) d f"
      using digit_char_10 [OF m, of lb] less(2) by (simp add: is_digit_def Let_def)
    finally show ?thesis .
  qed simp
qed

section \<open>Printing into an unlimited buffer\<close>

definition unlimited :: "'s pdefs \<Rightarrow> bool" where
  "unlimited p \<longleftrightarrow> to_buffer p \<and> max_output_len p = - 1"

lemma printc_unlimited: "unlimited p \<Longrightarrow> unlimited (vex_printc env c p) \<and> out_text (vex_printc env c p) = out_text p @ [c] \<and>
    use_leading_plus (vex_printc env c p) = use_leading_plus p"
  by (simp add: unlimited_def vex_printc_def)

lemma fold_unlimited: "unlimited p \<Longrightarrow> unlimited (fold (vex_printc env) cs p) \<and> out_text (fold (vex_printc env) cs p) = out_text p @ cs \<and>
    use_leading_plus (fold (vex_printc env) cs p) = use_leading_plus p"
  by (induction cs arbitrary: p) (simp_all add: printc_unlimited)

text \<open>The text of a decimal conversion.\<close>

definition padded :: "octets \<Rightarrow> int \<Rightarrow> u8 \<Rightarrow> octets" where
  "padded s w pad = (let fill = replicate (nat (w - int (length s))) (if pad AND PAD_ZERO \<noteq> 0 then 0x30 else 0x20)
     in if pad AND PAD_RIGHT = 0 then fill @ s else s @ fill)"

definition int_text :: "int \<Rightarrow> int \<Rightarrow> u8 \<Rightarrow> bool \<Rightarrow> octets" where
  "int_text i w pad lead =
     (if i = 0 then padded [0x30] w pad
      else let s = put_digits 10 0x61 (nat \<bar>i\<bar>)
           in if i < 0 then (if w \<noteq> 0 \<and> pad AND PAD_ZERO \<noteq> 0 then 0x2D # padded s (w - 1) pad else padded (0x2D # s) w pad)
              else padded (if lead then 0x2B # s else s) w pad)"

lemma prints_padded:
  assumes "unlimited p" "0 \<le> w"
  shows "\<exists>p'. vex_prints env s w pad p = (int (length (padded s w pad)), p') \<and> unlimited p' \<and> out_text p' = out_text p @ padded s w pad"
proof -
  have "vex_prints env s w pad p = (int (length (padded s w pad)), fold (vex_printc env) (padded s w pad) p)"
    using assms(2) by (auto simp: vex_prints_def padded_def Let_def)
  then show ?thesis using fold_unlimited [OF assms(1)] by blast
qed

lemma printi_text:
  assumes "unlimited p" "0 \<le> w" "- 2147483648 < i" "i \<le> 2147483647"
  shows "\<exists>p'. vex_printi env i 10 True w pad 0x61 p = Some (int (length (int_text i w pad (use_leading_plus p))), p') \<and>
    unlimited p' \<and> out_text p' = out_text p @ int_text i w pad (use_leading_plus p)"
proof -
  have u: "unat (word_of_int i :: u32) = nat \<bar>i\<bar>" if "0 \<le> i" using that assms(4) by (simp add: uint_word_of_int flip: nat_uint_eq)
  show ?thesis
  proof (cases "i < 0 \<and> w \<noteq> 0 \<and> pad AND PAD_ZERO \<noteq> 0")
    case True
    then obtain p' where "vex_prints env (put_digits 10 0x61 (nat (- i))) (w - 1) pad (vex_printc env 0x2D p)
        = (int (length (padded (put_digits 10 0x61 (nat (- i))) (w - 1) pad)), p')" "unlimited p'"
      "out_text p' = out_text p @ 0x2D # padded (put_digits 10 0x61 (nat (- i))) (w - 1) pad"
      using prints_padded [of "vex_printc env 0x2D p" "w - 1" env "put_digits 10 0x61 (nat (- i))" pad] assms(1,2)
        printc_unlimited [OF assms(1), of env "0x2D"] by auto
    then show ?thesis using True assms(3) by (simp add: vex_printi_def int_text_def Let_def)
  next
    case False
    have "\<exists>s. vex_printi env i 10 True w pad 0x61 p = Some (vex_prints env s w pad p) \<and> int_text i w pad (use_leading_plus p) = padded s w pad"
      using False assms(3) u by (auto simp: vex_printi_def int_text_def Let_def)
    then show ?thesis using prints_padded [OF assms(1,2)] by (metis)
  qed
qed

lemma int_text_reads:
  assumes "pad AND PAD_ZERO = 0 \<or> (pad AND PAD_RIGHT = 0 \<and> \<not> lead)"
  shows "read_int (int_text i w pad lead) = i"
proof -
  define s where "s = put_digits 10 0x61 (nat \<bar>i\<bar>)"
  have sp: "dropWhile (\<lambda>c. c = (0x20 :: u8)) (replicate k 0x20 @ t) = dropWhile (\<lambda>c. c = 0x20) t" for k t
    by (induction k) simp_all
  have tail: "\<not> is_digit (hd (replicate k 0x20 @ [0]))" for k by (cases k) (simp_all add: is_digit_def)
  have dec: "dec_value (replicate l 0x30 @ s @ replicate k 0x20) = \<bar>i\<bar>" for k l
    using dec_digits [OF tail, of "0x61" "nat \<bar>i\<bar>" k] dec_zeros by (simp add: s_def)
  have read: "read_int (replicate j 0x20 @ replicate l 0x30 @ s @ replicate k 0x20) = \<bar>i\<bar>" if "i \<noteq> 0" for j k l
  proof (cases "l = 0")
    case True
    obtain c r where c: "s = c # r" using put_digits_head [of "nat \<bar>i\<bar>" "0x61"] \<open>i \<noteq> 0\<close> by (auto simp: s_def)
    have "c \<noteq> 0x20 \<and> c \<noteq> 0x2D \<and> c \<noteq> 0x2B" using put_digits_digits [of "0x61" "nat \<bar>i\<bar>"] c by (simp flip: s_def)
    then show ?thesis using dec [of l k] c True by (simp add: read_int_def sp)
  next
    case False
    then show ?thesis using dec [of l k] by (cases l) (simp_all add: read_int_def sp)
  qed
  have neg: "read_int (replicate j 0x20 @ 0x2D # replicate l 0x30 @ s @ replicate k 0x20) = - \<bar>i\<bar>" for j k l
    using dec [of l k] by (simp add: read_int_def sp)
  have pos: "read_int (replicate j 0x20 @ 0x2B # s @ replicate k 0x20) = \<bar>i\<bar>" for j k
    using dec [of 0 k] by (simp add: read_int_def sp)
  have zero: "read_int (replicate j 0x20 @ replicate l 0x30 @ 0x30 # replicate k 0x20) = 0" for j k l
  proof -
    have "dec_value (replicate k 0x20) = 0" using dec_digits [OF tail, of 0 0 k] by simp
    then have z: "dec_value (replicate l 0x30 @ 0x30 # replicate k 0x20) = 0" for l
      using dec_zeros [of "Suc l" "replicate k 0x20"] dec_zeros [of l "0x30 # replicate k 0x20"] dec_zeros [of 1 "replicate k 0x20"] by simp
    show ?thesis using z [of l] by (cases l) (simp_all add: read_int_def sp)
  qed
  show ?thesis
  proof (cases "i = 0")
    case True
    then show ?thesis using assms zero [of _ 0 0] zero [of _ 0] zero [of 0 _ 0] zero [of 0 0] by (auto simp: int_text_def padded_def Let_def)
  next
    case False
    then show ?thesis
      using assms read [of 0 0 0] neg [of 0 0 0] pos [of 0 0] read [of _ 0 0] read [of 0 _ 0] read [of 0 0] neg [of _ 0 0] neg [of 0 _ 0] neg [of 0 0] pos [of _ 0] pos [of 0]
      by (auto simp: int_text_def padded_def Let_def simp flip: s_def)
  qed
qed

section \<open>Properties\<close>

text \<open>The format of a decimal conversion: flags, a width, and the letter.\<close>

definition int_format :: "bool \<Rightarrow> bool \<Rightarrow> bool \<Rightarrow> nat \<Rightarrow> octets" where
  "int_format right lead zero w =
     0x25 # (if right then [0x2D] else []) @ (if lead then [0x2B] else []) @ (if zero then [0x30] else []) @ put_digits 10 0x61 w @ [0x64]"

lemma int_directive:
  assumes "int w \<le> 2147483647"
  shows "directive (tl (int_format right lead zero w)) =
    Some (Conversion \<lparr>cv_width = int w, cv_dec = 6,
      cv_pad = (if right then PAD_RIGHT else 0) OR (if zero then PAD_ZERO else 0), cv_plus = lead\<rparr> 0x64, [])"
proof -
  define s where "s = put_digits 10 0x61 w @ [0x64]"
  have hd: "s \<noteq> [] \<and> hd s \<noteq> 0x25 \<and> hd s \<noteq> 0x2D \<and> hd s \<noteq> 0x2B \<and> hd s \<noteq> 0x30"
  proof (cases "w = 0")
    case False
    then obtain c r where c: "put_digits 10 0x61 w = c # r" "c \<noteq> 0x30" using put_digits_head by blast
    then have "is_digit c \<and> c \<noteq> 0x2D \<and> c \<noteq> 0x2B" using put_digits_digits [of "0x61" w] by simp
    then show ?thesis using c by (auto simp: s_def is_digit_def word_le_nat_alt)
  qed (simp add: s_def)
  then have dw: "dropWhile (\<lambda>c. c = 0x30) s = s" by (cases s) auto
  have "parse_width False 0 6 s = Some (int w, 6, [0x64])"
    using parse_digits [OF assms, of 6 "0x61" "[0x64]"] by (simp add: s_def)
  then show ?thesis using hd dw
    by (simp add: int_format_def directive_def flag_def Let_def del: parse_width.simps flip: s_def)
qed

text \<open>C35: A limited buffer gets exactly what an unlimited one would get, cut to the limit: \<open>vex_vsnprintf\<close> returns when
  \<open>vex_vsprintf\<close> does, with the smaller of the count and the limit, and stores that many first characters of the text. The
  terminator comes on top, so a text of the length of the limit or longer is stored in one octet more than the limit.\<close>

theorem vsnprintf_cuts_vsprintf:
  "map_option (\<lambda>(n, p). (n, out_text p)) (vex_vsnprintf env ops m fmt args pd) =
   map_option (\<lambda>(n, p). (min n (uint m), take (unat m) (butlast (out_text p)) @ [0])) (vex_vsprintf env ops fmt args pd)"
proof -
  let ?p = "pd\<lparr>to_buffer := True, out_text := [], max_output_len := - 1, use_leading_plus := False, curr_output_len := 0\<rparr>"
  let ?q = "pd\<lparr>to_buffer := True, out_text := [], max_output_len := uint m, use_leading_plus := False, curr_output_len := 0\<rparr>"
  have "limited (unat m) ?p ?q" by (simp add: limited_def)
  from cut_loop [OF this, of env ops fmt args 0] show ?thesis
    unfolding cuts_cases vex_vsnprintf_def vex_vsprintf_def vex_print_def
    by (auto simp: limited_def min_def)
qed

text \<open>C36: A printed integer reads back: with any width, flags and sign, the text that \<open>%d\<close> gives for an integer that can be
  negated is at least as wide as asked, its length is returned, and a reader gets the integer from it, unless zeros are
  combined with the flag for the left or with the sign. Combined so, 7 becomes 70000 or 000+7.\<close>

theorem printed_integer_reads_back:
  assumes "- 2147483648 < i" "i \<le> 2147483647" "int w \<le> 2147483647" "\<not> (zero \<and> (right \<or> lead))"
  shows "(\<exists>t p. vex_vsprintf env ops (int_format right lead zero w) [AInt i] pd = Some (int (length t), p) \<and>
      out_text p = t @ [0] \<and> w \<le> length t \<and> read_int t = i) \<and>
    int_text 7 5 (PAD_RIGHT OR PAD_ZERO) False = [0x37, 0x30, 0x30, 0x30, 0x30] \<and>
    int_text 7 5 PAD_ZERO True = [0x30, 0x30, 0x30, 0x2B, 0x37]"
proof -
  define pad where "pad = (if right then PAD_RIGHT else 0) OR (if zero then PAD_ZERO else 0)"
  define p0 where "p0 = (let p = pd\<lparr>to_buffer := True, out_text := [], max_output_len := - 1, use_leading_plus := False, curr_output_len := 0\<rparr>
    in if lead then p\<lparr>use_leading_plus := True\<rparr> else p)"
  have p0: "unlimited p0" "out_text p0 = []" "use_leading_plus p0 = lead" by (simp_all add: p0_def unlimited_def Let_def)
  obtain p' where p': "vex_printi env i 10 True (int w) pad 0x61 p0 = Some (int (length (int_text i (int w) pad lead)), p')"
    "unlimited p'" "out_text p' = int_text i (int w) pad lead"
    using printi_text [OF p0(1), of "int w" i env pad] assms(1,2) p0 by auto
  have "\<exists>f. int_format right lead zero w = 0x25 # f" by (simp add: int_format_def)
  then obtain f where f: "int_format right lead zero w = 0x25 # f" by blast
  have dir: "directive f = Some (Conversion \<lparr>cv_width = int w, cv_dec = 6, cv_pad = pad, cv_plus = lead\<rparr> 0x64, [])"
    using int_directive [OF assms(3), of right lead zero] f by (simp add: pad_def)
  have "vex_vsprintf env ops (int_format right lead zero w) [AInt i] pd
      = Some (int (length (int_text i (int w) pad lead)), p'\<lparr>use_leading_plus := False, out_text := int_text i (int w) pad lead @ [0]\<rparr>)"
    using p' dir by (simp add: vex_vsprintf_def vex_print_def f convert.simps unlimited_def p0_def Let_def)
  moreover have "w \<le> length (int_text i (int w) pad lead)" by (auto simp: int_text_def padded_def Let_def)
  moreover have "read_int (int_text i (int w) pad lead) = i"
    using assms(4) by (intro int_text_reads) (auto simp: pad_def PAD_RIGHT_def PAD_ZERO_def)
  ultimately have "\<exists>t p. vex_vsprintf env ops (int_format right lead zero w) [AInt i] pd = Some (int (length t), p) \<and>
      out_text p = t @ [0] \<and> w \<le> length t \<and> read_int t = i" by fastforce
  moreover have "int_text 7 5 (PAD_RIGHT OR PAD_ZERO) False = [0x37, 0x30, 0x30, 0x30, 0x30]"
    "int_text 7 5 PAD_ZERO True = [0x30, 0x30, 0x30, 0x2B, 0x37]" by code_simp+
  ultimately show ?thesis by blast
qed

definition no_doubles :: "unit double_ops" where
  "no_doubles = \<lparr>dbl_negative = (\<lambda>_. False), dbl_negate = (\<lambda>d. d), dbl_add = (\<lambda>d _. d), dbl_whole = (\<lambda>_. None), dbl_rest = (\<lambda>_ _ _. None)\<rparr>"

theorem printed_integer_reads_back_witness:
  "\<exists>t p. vex_vsprintf no_stream no_doubles (int_format False False True 6) [AInt (- 42)] pdefs2_reset = Some (int (length t), p) \<and>
     out_text p = t @ [0] \<and> 6 \<le> length t \<and> read_int t = - 42"
  using printed_integer_reads_back [of "- 42" 6 True False False no_stream no_doubles pdefs2_reset] by simp

end
