(* ===== verification/Lcd.thy ===== *)
theory Lcd
  imports VexLcd VexPrintf_Properties VexFlash
begin

text \<open>
  The mode selector of the robot, \<open>src/src/lcd.c\<close>: the left and right buttons of the LCD step through ten autonomous
  modes, and the choice is kept in the user parameters in flash. The buttons are what the update thread of the driver
  last stored; what it stores while this thread sleeps is an argument, as are the operations on doubles that
  the first line is formatted with.
\<close>

section \<open>Data\<close>

definition kLcdModeSetup :: int where "kLcdModeSetup = - 1"
definition kLcdMode0 :: int where "kLcdMode0 = 0"
definition kLcdModeNumber :: int where "kLcdModeNumber = 10"
definition MAGIC_NUMBER :: u8 where "MAGIC_NUMBER = 13"

lemmas lcd_mode_defs = kLcdModeSetup_def kLcdMode0_def kLcdModeNumber_def

record lcd_t =
  lcd_display :: int
  lcd_mode :: int
  lcd_pressed :: u8

text \<open>The module's variables, the displays and the flash memory.\<close>

record 'h lcd_sys =
  lcd :: lcd_t
  userp :: user_param_ptr
  lcdThreadPointer :: bool
  lcdThreadDeadTimer :: u32
  displays :: "LcdData list"
  storage :: "'h flash_state"

definition set_mode :: "int \<Rightarrow> 'h lcd_sys \<Rightarrow> 'h lcd_sys" where
  "set_mode m s = s\<lparr>lcd := (lcd s)\<lparr>lcd_mode := m\<rparr>\<rparr>"

definition on_display :: "(int \<Rightarrow> LcdData list \<Rightarrow> LcdData list) \<Rightarrow> 'h lcd_sys \<Rightarrow> 'h lcd_sys" where
  "on_display f s = s\<lparr>displays := f (lcd_display (lcd s)) (displays s)\<rparr>"

definition user_octet :: "nat \<Rightarrow> 'h lcd_sys \<Rightarrow> u8" where
  "user_octet i s = data (params (storage s)) ! i"

definition set_user_octets :: "u8 \<Rightarrow> u8 \<Rightarrow> 'h lcd_sys \<Rightarrow> 'h lcd_sys" where
  "set_user_octets a b s =
     s\<lparr>storage := (storage s)\<lparr>params := (params (storage s))\<lparr>data := (data (params (storage s)))[0 := a, 1 := b]\<rparr>\<rparr>\<rparr>"

section \<open>Operations\<close>

definition lcdSetup :: "'h flash_hw \<Rightarrow> int \<Rightarrow> 'h lcd_sys \<Rightarrow> 'h lcd_sys" where
  "lcdSetup hw display s =
     (let s = s\<lparr>lcd := (lcd s)\<lparr>lcd_display := display, lcd_mode := kLcdModeSetup\<rparr>\<rparr>;
          (p, st) = vexFlashUserParamRead hw (storage s)
      in s\<lparr>userp := p, storage := st\<rparr>)"

definition lcdInit :: "'h lcd_sys \<Rightarrow> 'h lcd_sys option" where
  "lcdInit s =
     (let s = set_mode kLcdMode0 s in
      if userp s = NO_PARAM then None
      else if user_octet 0 s = MAGIC_NUMBER \<and> uint (user_octet 1 s) < kLcdModeNumber then Some (set_mode (uint (user_octet 1 s)) s)
      else Some (set_user_octets 0 0 s))"

definition lcdStart :: "u32 \<Rightarrow> 'h lcd_sys \<Rightarrow> 'h lcd_sys" where
  "lcdStart now s =
     (let s = (if now - lcdThreadDeadTimer s > 300 then s\<lparr>lcdThreadPointer := False\<rparr> else s)
      in if lcdThreadPointer s then s else s\<lparr>lcdThreadPointer := True\<rparr>)"

definition lcdGetMode :: "'h lcd_sys \<Rightarrow> int" where
  "lcdGetMode s = lcd_mode (lcd s)"

text \<open>A step to the right or to the left.\<close>

definition next_mode :: "u8 \<Rightarrow> int \<Rightarrow> int" where
  "next_mode b m =
     (if b = kLcdButtonRight then (let m = m + 1 in if m \<ge> kLcdModeNumber then kLcdMode0 else m)
      else if b = kLcdButtonLeft then (let m = m - 1 in if m < kLcdMode0 then kLcdModeNumber - 1 else m)
      else m)"

definition mode_label :: "int \<Rightarrow> octets" where
  "mode_label m = (if 0 \<le> m \<and> m \<le> 9 then [77, 48 + word_of_int m]
                   else [69, 114, 114, 111, 114] @ replicate 11 32)"

text \<open>The loop that waits for the release: each turn reads the buttons and sleeps 10 ms, in which the driver stores the
  next state of the buttons. \<open>None\<close>: never released.\<close>

fun release_wait :: "u32 \<Rightarrow> u8 list \<Rightarrow> 'h lcd_sys \<Rightarrow> 'h lcd_sys option" where
  "release_wait now [] s = None"
| "release_wait now (b # bs) s =
     (let s = s\<lparr>lcdThreadDeadTimer := now\<rparr>;
          s = s\<lparr>lcd := (lcd s)\<lparr>lcd_pressed := vexLcdButtonGet (lcd_display (lcd s)) (displays s)\<rparr>\<rparr>;
          s = on_display (\<lambda>i. display_update i (\<lambda>d. d\<lparr>lcd_buttons := b\<rparr>)) s
      in if lcd_pressed (lcd s) \<noteq> kLcdButtonNone then release_wait (now + 10) bs s else Some s)"

definition lcdRead :: "'h flash_hw \<Rightarrow> u32 \<Rightarrow> u8 list \<Rightarrow> 'h lcd_sys \<Rightarrow> 'h lcd_sys option" where
  "lcdRead hw now bs s =
     (let b = vexLcdButtonGet (lcd_display (lcd s)) (displays s);
          s = s\<lparr>lcd := (lcd s)\<lparr>lcd_pressed := b\<rparr>\<rparr>
      in if b = kLcdButtonRight \<or> b = kLcdButtonLeft then do {
           let s = set_mode (next_mode b (lcd_mode (lcd s))) s;
           let s = on_display (\<lambda>i. vexLcdClearLine i VEX_LCD_LINE_1) s;
           let s = on_display (\<lambda>i. vexLcdClearLine i VEX_LCD_LINE_2) s;
           let s = on_display (\<lambda>i. vexLcdSet i VEX_LCD_LINE_1 (mode_label (lcd_mode (lcd s)))) s;
           s \<leftarrow> release_wait now bs s;
           if userp s = NO_PARAM then None
           else do {
             let s = set_user_octets MAGIC_NUMBER (word_of_int (lcd_mode (lcd s))) s;
             Some (s\<lparr>storage := snd (vexFlashUserParamWrite hw (userp s) (storage s))\<rparr>)
           }
         }
         else Some s)"

text \<open>The second line in each mode.\<close>

definition mode_names :: "string list" where
  "mode_names = [''left 3 Point'', ''Right 3 Point'', ''Right 6pt'', ''Not Me!'', ''Blue Rt Shot Prk'', ''Red lt Shot Prk'',
     ''Blue Right Flag'', ''Red Left Flag'', ''Skills Blue 6pt?'', ''Skills Red 6pt'']"

text \<open>The first line, \<open>%4.2fV   %8.1f\<close>, shows the battery voltage and the time, divided by 1000.0 as doubles; the
  operations on doubles and this division, \<open>kilo\<close>, are parameters.\<close>

definition status_format :: octets where
  "status_format = map of_char ''%4.2fV   %8.1f''"

definition print_line :: "'d double_ops \<Rightarrow> int \<Rightarrow> octets \<Rightarrow> 'd printf_arg list \<Rightarrow> 'h lcd_sys \<Rightarrow> 'h lcd_sys option" where
  "print_line ops ln fmt args s =
     map_option (\<lambda>ds. s\<lparr>displays := ds\<rparr>) (vexLcdPrintf ops (lcd_display (lcd s)) ln fmt args (displays s))"

definition lcdWrite :: "'d double_ops \<Rightarrow> (int \<Rightarrow> 'd) \<Rightarrow> u16 \<Rightarrow> u32 \<Rightarrow> 'h lcd_sys \<Rightarrow> 'h lcd_sys option" where
  "lcdWrite ops kilo battery now s =
     (let m = lcd_mode (lcd s);
          name = (if 0 \<le> m \<and> m \<le> 9 then mode_names ! nat m else ''E Top Secret ERR'')
      in do {
        s \<leftarrow> print_line ops VEX_LCD_LINE_1 status_format [ADbl (kilo (uint battery)), ADbl (kilo (uint now))] s;
        print_line ops VEX_LCD_LINE_2 (map of_char name) [] s
      })"

text \<open>The start of the thread and one round of its loop.\<close>

definition lcdThread_start :: "'h lcd_sys \<Rightarrow> 'h lcd_sys" where
  "lcdThread_start s =
     on_display (\<lambda>i. vexLcdClearLine i VEX_LCD_LINE_2)
       (on_display (\<lambda>i. vexLcdClearLine i VEX_LCD_LINE_1) (on_display (\<lambda>i. vexLcdBacklight i 1) s))"

definition lcdThread_round ::
    "'h flash_hw \<Rightarrow> 'd double_ops \<Rightarrow> (int \<Rightarrow> 'd) \<Rightarrow> u16 \<Rightarrow> u32 \<Rightarrow> u8 list \<Rightarrow> 'h lcd_sys \<Rightarrow> 'h lcd_sys option" where
  "lcdThread_round hw ops kilo battery now bs s = do {
     let s = s\<lparr>lcdThreadDeadTimer := now\<rparr>;
     s \<leftarrow> lcdRead hw now bs s;
     lcdWrite ops kilo battery now s
   }"

section \<open>Lemmas\<close>

text \<open>What the displays do to the rest: nothing.\<close>

lemma on_display_frame [simp]: "lcd (on_display f s) = lcd s" "userp (on_display f s) = userp s" "storage (on_display f s) = storage s"
  "displays (on_display f s) = f (lcd_display (lcd s)) (displays s)"
  by (simp_all add: on_display_def)

lemma set_mode_frame [simp]: "userp (set_mode m s) = userp s" "storage (set_mode m s) = storage s" "displays (set_mode m s) = displays s"
  "lcd_mode (lcd (set_mode m s)) = m" "lcd_display (lcd (set_mode m s)) = lcd_display (lcd s)"
  by (simp_all add: set_mode_def)

lemma set_user_frame [simp]: "lcd (set_user_octets a b s) = lcd s" "userp (set_user_octets a b s) = userp s"
  "data (params (storage (set_user_octets a b s))) = (data (params (storage s)))[0 := a, 1 := b]"
  "flash (storage (set_user_octets a b s)) = flash (storage s)"
  "user_param_write_limit (storage (set_user_octets a b s)) = user_param_write_limit (storage s)"
  by (simp_all add: set_user_octets_def)

lemma next_mode_mod: "0 \<le> m \<Longrightarrow> m < 10 \<Longrightarrow> b \<in> {kLcdButtonLeft, kLcdButtonRight} \<Longrightarrow>
    next_mode b m = (if b = kLcdButtonRight then m + 1 else m - 1) mod 10"
  by (cases "m = 0"; cases "m = 9") (auto simp: next_mode_def lcd_mode_defs Let_def kLcdButtonLeft_def kLcdButtonRight_def)

lemma release_wait_frame:
  "release_wait now bs s = Some s' \<Longrightarrow> lcd_mode (lcd s') = lcd_mode (lcd s) \<and> lcd_display (lcd s') = lcd_display (lcd s) \<and>
     userp s' = userp s \<and> storage s' = storage s"
  by (induction bs arbitrary: s now) (auto simp: Let_def split: if_splits dest!: meta_spec)

text \<open>A release among the states that follow ends the wait.\<close>

lemma release_wait_ends:
  "\<not> no_display (lcd_display (lcd s)) \<Longrightarrow> nat (lcd_display (lcd s)) < length (displays s) \<Longrightarrow>
   kLcdButtonNone \<in> set (butlast bs) \<Longrightarrow> \<exists>s'. release_wait now bs s = Some s'"
proof (induction bs arbitrary: s now)
  case (Cons b bs)
  show ?case
  proof (cases "b = kLcdButtonNone \<and> bs \<noteq> []")
    case True
    then obtain c cs where "bs = c # cs" by (cases bs) auto
    then show ?thesis using True Cons.prems by (auto simp: Let_def vexLcdButtonGet_def display_update_def)
  next
    case False
    then have "kLcdButtonNone \<in> set (butlast bs)" using Cons.prems(3) by (auto split: if_splits)
    then show ?thesis using Cons.IH Cons.prems(1,2) by (auto simp: Let_def display_update_def)
  qed
qed simp

section \<open>The mode survives a reset\<close>

text \<open>After a reset the variables are zero and only the flash memory itself is as it was.\<close>

definition power_cycle :: "stm32 lcd_sys \<Rightarrow> stm32 lcd_sys" where
  "power_cycle s =
     \<lparr>lcd = \<lparr>lcd_display = 0, lcd_mode = 0, lcd_pressed = 0\<rparr>, userp = NO_PARAM, lcdThreadPointer = False, lcdThreadDeadTimer = 0,
      displays = vexLcdData,
      storage = \<lparr>flash = flash (storage s), params = \<lparr>data = replicate 32 0, param_offset = 0, addr = 0\<rparr>,
                 user_param_write_limit = 0, erase_done = False\<rparr>\<rparr>"


section \<open>Witness\<close>

definition lcd_at_start :: "stm32 lcd_sys" where
  "lcd_at_start = lcdSetup stm32_hw 0
     \<lparr>lcd = \<lparr>lcd_display = 0, lcd_mode = 0, lcd_pressed = 0\<rparr>, userp = NO_PARAM, lcdThreadPointer = False, lcdThreadDeadTimer = 0,
      displays = display_update 0 (\<lambda>d. d\<lparr>lcd_buttons := kLcdButtonLeft\<rparr>) vexLcdData, storage = blank_flash\<rparr>"

definition lcd_ready :: "stm32 lcd_sys" where
  "lcd_ready = the (lcdInit lcd_at_start)"

lemma lcd_ready_ok:
  "flash_ready 0 (storage lcd_ready)" "user_param_write_limit (storage lcd_ready) < USER_PARAM_MAX_WRITE"
  "length (data (params (storage lcd_ready))) = 32" "userp lcd_ready = PARAMS" "lcd_mode (lcd lcd_ready) = 0"
  "lcd_display (lcd lcd_ready) = 0" "displays lcd_ready = display_update 0 (\<lambda>d. d\<lparr>lcd_buttons := kLcdButtonLeft\<rparr>) vexLcdData"
proof -
  have p: "page_ok 0 (page_words (page (flash blank_flash)))" "stm32.ready (flash blank_flash)"
    using blank_flash_ready by (simp_all add: flash_ready)
  let ?st = "blank_flash\<lparr>params := \<lparr>data = replicate 32 255, param_offset = - 1, addr = 0\<rparr>\<rparr>"
  have off: "vexFlashUserParamGetOffset stm32_hw (flash blank_flash) = - 1"
    using stm32.get_offset [OF stm32.ready_good [OF p(2)] p(1)] by simp
  have erased_octets: "concat (replicate USER_PARAM_WORDS (mem32 0xFFFFFFFF)) = replicate 32 (255 :: u8)" by code_simp
  have "vexFlashUserParamRead stm32_hw blank_flash = (PARAMS, ?st)"
    unfolding vexFlashUserParamRead_def off Let_def erased_octets by simp
  then have e: "lcd_at_start = \<lparr>lcd = \<lparr>lcd_display = 0, lcd_mode = - 1, lcd_pressed = 0\<rparr>, userp = PARAMS, lcdThreadPointer = False,
      lcdThreadDeadTimer = 0, displays = display_update 0 (\<lambda>d. d\<lparr>lcd_buttons := kLcdButtonLeft\<rparr>) vexLcdData, storage = ?st\<rparr>"
    by (simp add: lcd_at_start_def lcdSetup_def kLcdModeSetup_def)
  have "user_octet 0 (set_mode kLcdMode0 lcd_at_start) \<noteq> MAGIC_NUMBER" unfolding e by (simp add: user_octet_def MAGIC_NUMBER_def)
  then have i: "lcd_ready = set_user_octets 0 0 (set_mode kLcdMode0 lcd_at_start)"
    unfolding lcd_ready_def lcdInit_def Let_def by (simp add: e)
  have same: "flash (blank_flash\<lparr>params := q\<rparr>) = flash blank_flash" for q by simp
  have w: "user_param_write_limit blank_flash = 0" by (simp add: blank_flash_def)
  have fr: "flash_ready 0 (blank_flash\<lparr>params := q\<rparr>)" for q using blank_flash_ready unfolding flash_ready_def same .
  show "flash_ready 0 (storage lcd_ready)" using fr unfolding i e by (simp add: set_user_octets_def)
  show "user_param_write_limit (storage lcd_ready) < USER_PARAM_MAX_WRITE" using w unfolding i e by (simp add: USER_PARAM_MAX_WRITE_def)
  show "length (data (params (storage lcd_ready))) = 32" "userp lcd_ready = PARAMS" "lcd_mode (lcd lcd_ready) = 0"
    "lcd_display (lcd lcd_ready) = 0" "displays lcd_ready = display_update 0 (\<lambda>d. d\<lparr>lcd_buttons := kLcdButtonLeft\<rparr>) vexLcdData"
    unfolding i e by (simp_all add: kLcdMode0_def set_user_octets_def)
qed


section \<open>The text on the display\<close>

text \<open>What the formatting needs of the doubles: a quotient is not negative, and a number rounded up by at most a half has at
  most the whole part of the next number and a rest below the scale.\<close>

definition kilo_ok :: "'d double_ops \<Rightarrow> (int \<Rightarrow> 'd) \<Rightarrow> bool" where
  "kilo_ok ops kilo \<longleftrightarrow>
     (\<forall>n r. 0 \<le> n \<longrightarrow> n < 2 ^ 32 \<longrightarrow> r \<in> set round_nums \<longrightarrow> \<not> dbl_negative ops (kilo n) \<and>
        (\<exists>w. dbl_whole ops (dbl_add ops (kilo n) r) = Some w \<and> int (unat w) \<le> n div 1000 + 1 \<and>
           (\<forall>scale. 0 < scale \<longrightarrow> (\<exists>d. dbl_rest ops (dbl_add ops (kilo n) r) w scale = Some d \<and> d < scale))))"

lemma number_rev_length: "n < 10 ^ k \<Longrightarrow> length (number_rev n) \<le> k"
proof (induction k arbitrary: n)
  case 0
  then show ?case by (simp add: number_rev.simps)
next
  case (Suc k)
  then have "n div 10 < 10 ^ k" by (simp add: div_less_iff_less_mult mult.commute)
  then show ?case using Suc.IH [of "n div 10"] by (subst number_rev.simps) simp
qed

lemma kilo_text:
  assumes "kilo_ok ops kilo" "0 \<le> n" "n < 2 ^ 32" "n div 1000 + 1 < 10 ^ k" "0 < k" "k \<le> 10" "dec \<in> {1, 2}"
  shows "\<exists>t. dbl2stri ops False (kilo n) dec = Some t \<and> length t \<le> k + 1 + unat dec"
proof -
  define r where "r = round_nums ! unat dec"
  have r: "r \<in> set round_nums" "dec < 8" "0 < dec" "unat dec \<le> 2" "length round_nums = 8" "unat dec \<in> {1, 2}"
    using assms(7) by (auto simp: r_def round_nums_def)
  obtain w where w: "dbl_whole ops (dbl_add ops (kilo n) r) = Some w" "int (unat w) \<le> n div 1000 + 1"
    "\<forall>scale. 0 < scale \<longrightarrow> (\<exists>d. dbl_rest ops (dbl_add ops (kilo n) r) w scale = Some d \<and> d < scale)" "\<not> dbl_negative ops (kilo n)"
    using assms(1-3) r(1) unfolding kilo_ok_def by blast
  define scale where "scale = (word_of_int (10 ^ unat dec) :: u32)"
  have scale: "0 < scale" "unat scale = 10 ^ unat dec" using r(6) by (auto simp: scale_def)
  obtain d where d: "dbl_rest ops (dbl_add ops (kilo n) r) w scale = Some d" "d < scale" using w(3) scale(1) by blast
  have "unat d < 10 ^ unat dec" using d(2) scale(2) by (simp add: word_less_nat_alt)
  then have ld: "length (number_rev (unat d)) \<le> unat dec" by (rule number_rev_length)
  have "int (unat w) < int (10 ^ k)" using w(2) assms(4) by simp
  then have lw: "length (number_rev (unat w)) \<le> k" by (intro number_rev_length) linarith
  define whole where "whole = (if number_rev (unat w) = [] then [0x30] else rev (number_rev (unat w)))"
  have lwh: "length whole \<le> k" using lw assms(5) by (simp add: whole_def)
  define ds where "ds = number_rev (unat d) @ replicate (unat dec - length (number_rev (unat d))) 0x30"
  have lds: "length ds = unat dec" "ds \<noteq> []" using ld r(6) by (auto simp: ds_def)
  have "dbl2stri ops False (kilo n) dec = Some (whole @ 0x2E # rev ds)"
    using w(1,4) d(1) r(2-4) lds lwh assms(6) unfolding dbl2stri_def Let_def PRINT_BUF_LEN_def r_def scale_def whole_def ds_def
    by (simp, auto)
  then show ?thesis using lwh lds by auto
qed

lemma plain_text:
  assumes "0x25 \<notin> set f"
  shows "print_loop env ops f args p pc = Some (pc + int (length f), fold (vex_printc env) f p)"
  using assms by (induction f arbitrary: p pc) simp_all

lemma printdbl_text:
  assumes "unlimited p" "use_leading_plus p = False" "dbl2stri ops False x dec = Some t" "0 \<le> w"
  shows "\<exists>n p'. vex_printdbl env ops x w dec pad p = Some (n, p') \<and> unlimited p' \<and> out_text p' = out_text p @ padded t w pad"
  using prints_padded [OF assms(1,4), of env t pad] assms(2,3) by (auto simp: vex_printdbl_def)

lemma status_octets: "status_format = [0x25, 0x34, 0x2E, 0x32, 0x66, 0x56, 0x20, 0x20, 0x20, 0x25, 0x38, 0x2E, 0x31, 0x66]"
  unfolding status_format_def by code_simp

lemma status_directives:
  "directive [0x34, 0x2E, 0x32, 0x66, 0x56, 0x20, 0x20, 0x20, 0x25, 0x38, 0x2E, 0x31, 0x66] =
     Some (Conversion \<lparr>cv_width = 4, cv_dec = 2, cv_pad = 0, cv_plus = False\<rparr> 0x66, [0x56, 0x20, 0x20, 0x20, 0x25, 0x38, 0x2E, 0x31, 0x66])"
  "directive [0x38, 0x2E, 0x31, 0x66] = Some (Conversion \<lparr>cv_width = 8, cv_dec = 1, cv_pad = 0, cv_plus = False\<rparr> 0x66, [])"
  by code_simp+

lemma status_text:
  assumes "unlimited p" "use_leading_plus p = False" "dbl2stri ops False x 2 = Some t" "dbl2stri ops False y 1 = Some u"
  shows "\<exists>n p'. print_loop env ops status_format [ADbl x, ADbl y] p pc = Some (n, p') \<and>
    out_text p' = out_text p @ padded t 4 0 @ [0x56, 0x20, 0x20, 0x20] @ padded u 8 0"
proof -
  obtain n1 p1 where p1: "vex_printdbl env ops x 4 2 0 p = Some (n1, p1)" "unlimited p1" "out_text p1 = out_text p @ padded t 4 0"
    using printdbl_text [OF assms(1-3), of 4 env 0] by auto
  define p2 where "p2 = fold (vex_printc env) [0x56, 0x20, 0x20, 0x20] (p1\<lparr>use_leading_plus := False\<rparr>)"
  have u1: "unlimited (p1\<lparr>use_leading_plus := False\<rparr>)" using p1(2) by (simp add: unlimited_def)
  have p2: "unlimited p2" "out_text p2 = out_text p1 @ [0x56, 0x20, 0x20, 0x20]" "use_leading_plus p2 = False"
    using fold_unlimited [OF u1, of env "[0x56, 0x20, 0x20, 0x20]"] by (simp_all add: p2_def)
  obtain n3 p3 where p3: "vex_printdbl env ops y 8 1 0 p2 = Some (n3, p3)" "out_text p3 = out_text p2 @ padded u 8 0"
    using printdbl_text [OF p2(1,3) assms(4), of 8 env 0] by auto
  show ?thesis
    using p1(1,3) p2(2) p3 by (simp add: status_octets status_directives convert.simps p2_def)
qed

lemma format_unlimited:
  assumes "\<And>p. unlimited p \<Longrightarrow> use_leading_plus p = False \<Longrightarrow>
      \<exists>n p'. print_loop no_stream ops fmt args p 0 = Some (n, p') \<and> out_text p' = out_text p @ t"
    and "length t < LCD_BUF_MAX"
  shows "lcd_format ops fmt args = Some t"
proof -
  let ?p = "pdefs2_reset\<lparr>to_buffer := True, out_text := [], max_output_len := - 1, use_leading_plus := False, curr_output_len := 0\<rparr>"
  let ?q = "pdefs2_reset\<lparr>to_buffer := True, out_text := [], max_output_len := 32, use_leading_plus := False, curr_output_len := 0\<rparr>"
  obtain n p' where p': "print_loop no_stream ops fmt args ?p 0 = Some (n, p')" "out_text p' = t"
    using assms(1) [of ?p] by (auto simp: unlimited_def)
  have "limited 32 ?p ?q" by (simp add: limited_def)
  from cut_loop [OF this, of no_stream ops fmt args 0] p'
  obtain q' where q': "print_loop no_stream ops fmt args ?q 0 = Some (n, q')" "limited 32 p' q'" by (auto simp: cuts_cases)
  have "out_text q' = t" "to_buffer q'" using q'(2) p'(2) assms(2) by (auto simp: limited_def LCD_BUF_MAX_def)
  then show ?thesis using q'(1) assms(2)
    by (simp add: lcd_format_def vex_vsnprintf_def vex_print_def LCD_BUF_MAX_def)
qed

lemma padded_length: "length (padded s w pad) = max (length s) (nat w)"
  by (auto simp: padded_def Let_def)

lemma line_format: "0x25 \<notin> set f \<Longrightarrow> length f < LCD_BUF_MAX \<Longrightarrow> lcd_format ops f [] = Some f"
  by (rule format_unlimited) (simp_all add: plain_text fold_unlimited)

definition status_line :: "octets \<Rightarrow> octets \<Rightarrow> octets" where
  "status_line volts seconds = padded volts 4 0 @ [0x56, 0x20, 0x20, 0x20] @ padded seconds 8 0"

lemma status_fits:
  assumes "kilo_ok ops kilo"
  shows "\<exists>volts seconds. dbl2stri ops False (kilo (uint (battery :: u16))) 2 = Some volts \<and> length volts \<le> 5 \<and>
    dbl2stri ops False (kilo (uint (now :: u32))) 1 = Some seconds \<and> length seconds \<le> 9 \<and>
    lcd_format ops status_format [ADbl (kilo (uint battery)), ADbl (kilo (uint now))] = Some (status_line volts seconds)"
proof -
  have b: "0 \<le> uint battery" "uint battery < 65536" "0 \<le> uint now" "uint now < 4294967296"
    using uint_lt2p [of battery] uint_lt2p [of now] by simp_all
  have q: "uint battery div 1000 < 99" "uint now div 1000 < 9999999" using b by linarith+
  obtain t where t: "dbl2stri ops False (kilo (uint battery)) 2 = Some t" "length t \<le> 5"
    using kilo_text [OF assms b(1), of 2 2] b(2) q by auto
  obtain u where u: "dbl2stri ops False (kilo (uint now)) 1 = Some u" "length u \<le> 9"
    using kilo_text [OF assms b(3), of 7 1] b(4) q by auto
  have "length (status_line t u) < LCD_BUF_MAX" using t(2) u(2) by (simp add: status_line_def padded_length LCD_BUF_MAX_def)
  then have "lcd_format ops status_format [ADbl (kilo (uint battery)), ADbl (kilo (uint now))] = Some (status_line t u)"
    using status_text [OF _ _ t(1) u(1)] by (intro format_unlimited) (auto simp: status_line_def)
  then show ?thesis using t u by blast
qed

lemma mode_name_octets: "0 \<le> m \<Longrightarrow> m < 10 \<Longrightarrow> 0x25 \<notin> set (map of_char (mode_names ! nat m) :: octets) \<and> length (mode_names ! nat m) \<le> 16"
proof -
  have "\<forall>k\<in>set [0..<10]. 0x25 \<notin> set (map of_char (mode_names ! k) :: octets) \<and> length (mode_names ! k) \<le> 16" by code_simp
  then show "0 \<le> m \<Longrightarrow> m < 10 \<Longrightarrow> ?thesis" by (simp add: nat_less_iff)
qed

text \<open>C37: The mode selector never writes behind the text buffer of the display: for every battery level, time and mode
  both lines are printed, the first with at most five characters for the voltage and nine for the time, and the displays
  show this line, cut at 16 columns, and the name of the mode, filled with zeros.\<close>

theorem lcd_text_fits:
  assumes "kilo_ok ops kilo" "0 \<le> lcd_mode (lcd s)" "lcd_mode (lcd s) < 10"
    and "\<not> no_display (lcd_display (lcd s))" "length (displays s) = 2" "length (line2 (displays s ! nat (lcd_display (lcd s)))) = 20"
  shows "\<exists>s' volts seconds. lcdWrite ops kilo battery now s = Some s' \<and>
    dbl2stri ops False (kilo (uint battery)) 2 = Some volts \<and> length volts \<le> 5 \<and>
    dbl2stri ops False (kilo (uint now)) 1 = Some seconds \<and> length seconds \<le> 9 \<and>
    take 16 (line1 (displays s' ! nat (lcd_display (lcd s)))) = take 16 (status_line volts seconds @ replicate 16 0) \<and>
    take 16 (line2 (displays s' ! nat (lcd_display (lcd s)))) =
      take 16 (map of_char (mode_names ! nat (lcd_mode (lcd s))) @ replicate 16 0)"
proof -
  obtain volts seconds where t: "dbl2stri ops False (kilo (uint battery)) 2 = Some volts" "length volts \<le> 5"
      "dbl2stri ops False (kilo (uint now)) 1 = Some seconds" "length seconds \<le> 9"
      "lcd_format ops status_format [ADbl (kilo (uint battery)), ADbl (kilo (uint now))] = Some (status_line volts seconds)"
    using status_fits [OF assms(1)] by blast
  have m: "lcd_format ops (map of_char (mode_names ! nat (lcd_mode (lcd s)))) [] = Some (map of_char (mode_names ! nat (lcd_mode (lcd s))))"
    using mode_name_octets [OF assms(2,3)] by (intro line_format) (auto simp: LCD_BUF_MAX_def)
  have i: "nat (lcd_display (lcd s)) < 2" using assms(4) by (auto simp: no_display_def LCD_DISPLAYS_def)
  show ?thesis
    using t m assms(2-5) i
    by (auto simp: lcdWrite_def print_line_def vexLcdPrintf_def vexLcdSet_def display_update_def strncpy_def VEX_LCD_LINE_1_def
        VEX_LCD_LINE_2_def Let_def intro!: exI [of _ volts] exI [of _ seconds])
qed

text \<open>Numbers with eleven decimal places in the place of doubles.\<close>

definition fixed_ops :: "int double_ops" where
  "fixed_ops = \<lparr>dbl_negative = (\<lambda>x. x < 0), dbl_negate = uminus, dbl_add = (\<lambda>x (d, i). x + int d * 10 ^ (11 - i)),
     dbl_whole = (\<lambda>x. if 0 \<le> x \<and> x < 2 ^ 32 * 10 ^ 11 then Some (word_of_int (x div 10 ^ 11)) else None),
     dbl_rest = (\<lambda>x w scale. Some (word_of_int ((x - uint w * 10 ^ 11) * uint scale div 10 ^ 11)))\<rparr>"

lemma fixed_ops_kilo: "kilo_ok fixed_ops (\<lambda>n. n * 10 ^ 8)"
  unfolding kilo_ok_def
proof (intro allI impI)
  fix n :: int and r assume n: "0 \<le> n" "n < 2 ^ 32" and r: "r \<in> set round_nums"
  define x where "x = n * 10 ^ 8 + int (fst r) * 10 ^ (11 - snd r)"
  have x: "0 \<le> x" "x div 10 ^ 11 \<le> n div 1000 + 1" "x < 2 ^ 32 * 10 ^ 11" using n r by (auto simp: round_nums_def x_def)
  define w where "w = (word_of_int (x div 10 ^ 11) :: u32)"
  have q: "0 \<le> x div 10 ^ 11" "x div 10 ^ 11 < 2 ^ 32" using x by auto
  have w: "uint w = x div 10 ^ 11" unfolding w_def uint_word_of_int using q by (subst mod_pos_pos_trivial) simp_all
  have m: "x - x div 10 ^ 11 * 10 ^ 11 = x mod 10 ^ 11" by (simp add: minus_div_mult_eq_mod)
  have d: "0 \<le> x mod 10 ^ 11 * uint scale div 10 ^ 11" "x mod 10 ^ 11 * uint scale div 10 ^ 11 < uint scale" if "0 < scale" for scale :: u32
  proof -
    have s: "0 < uint scale" using that by (simp add: word_less_def)
    have "x mod 10 ^ 11 * uint scale < 10 ^ 11 * uint scale" using s by (intro mult_strict_right_mono) simp_all
    then show "x mod 10 ^ 11 * uint scale div 10 ^ 11 < uint scale" by (simp add: div_less_iff_less_mult mult.commute)
    show "0 \<le> x mod 10 ^ 11 * uint scale div 10 ^ 11" using s by (intro pos_imp_zdiv_nonneg_iff [THEN iffD2] mult_nonneg_nonneg) simp_all
  qed
  have add: "dbl_add fixed_ops (n * 10 ^ 8) r = x" by (simp add: fixed_ops_def x_def case_prod_beta)
  have whole: "dbl_whole fixed_ops x = Some w" using x by (simp add: fixed_ops_def w_def)
  have rest: "\<exists>d. dbl_rest fixed_ops x w scale = Some d \<and> d < scale" if "0 < scale" for scale
  proof -
    let ?d = "x mod 10 ^ 11 * uint scale div 10 ^ 11"
    have "?d < 2 ^ 32" using d(2) [OF that] uint_lt2p [of scale] by simp
    then have "uint (word_of_int ?d :: u32) = ?d" unfolding uint_word_of_int using d(1) [OF that] by (subst mod_pos_pos_trivial) simp_all
    moreover have "dbl_rest fixed_ops x w scale = Some (word_of_int ?d)" by (simp only: fixed_ops_def double_ops.simps w m)
    ultimately show ?thesis using d(2) [OF that] by (auto simp: word_less_def)
  qed
  show "\<not> dbl_negative fixed_ops (n * 10 ^ 8) \<and> (\<exists>w. dbl_whole fixed_ops (dbl_add fixed_ops (n * 10 ^ 8) r) = Some w \<and>
      int (unat w) \<le> n div 1000 + 1 \<and> (\<forall>scale>0. \<exists>d. dbl_rest fixed_ops (dbl_add fixed_ops (n * 10 ^ 8) r) w scale = Some d \<and> d < scale))"
    unfolding add using n whole rest x(2) w by (auto simp: fixed_ops_def)
qed

lemma fixed_ops_text: "dbl2stri fixed_ops False (7250 * 10 ^ 8) 2 = Some (map of_char ''7.25'')"
  "dbl2stri fixed_ops False (123456 * 10 ^ 8) 1 = Some (map of_char ''123.5'')"
  by code_simp+

lemma lcd_text_fits_witness:
  "\<exists>s'. lcdWrite fixed_ops (\<lambda>n. n * 10 ^ 8) 7250 123456 lcd_ready = Some s' \<and>
     take 16 (line1 (displays s' ! 0)) = map of_char ''7.25V      123.5'' \<and>
     take 16 (line2 (displays s' ! 0)) = map of_char ''left 3 Point'' @ replicate 4 0"
proof -
  have s: "0 \<le> lcd_mode (lcd lcd_ready)" "lcd_mode (lcd lcd_ready) < 10" "\<not> no_display (lcd_display (lcd lcd_ready))"
    "length (displays lcd_ready) = 2" "length (line2 (displays lcd_ready ! nat (lcd_display (lcd lcd_ready)))) = 20"
    by (simp_all add: lcd_ready_ok no_display_def LCD_DISPLAYS_def vexLcdData_def display_update_def)
  have l: "take 16 (status_line (map of_char ''7.25'') (map of_char ''123.5'') @ replicate 16 0) = map of_char ''7.25V      123.5''"
    "take 16 (map of_char (mode_names ! nat 0) @ replicate 16 (0 :: u8)) = map of_char ''left 3 Point'' @ replicate 4 0"
    by code_simp+
  have u: "uint (7250 :: u16) = 7250" "uint (123456 :: u32) = 123456" by simp_all
  show ?thesis
    using lcd_text_fits [OF fixed_ops_kilo s, of 7250 123456] l lcd_ready_ok(5,6) fixed_ops_text unfolding u by auto
qed

end
