(* ===== verification/RobotSystem.thy ===== *)
theory RobotSystem
  imports Subsystems Lcd
begin

text \<open>
  The table of the robot's systems, \<open>src/src/system.c\<close>, and the whole state of the robot program: the six subsystems with
  the motors, the mode selector, the clock in milliseconds and the names of the threads created so far.
\<close>

section \<open>State\<close>

record 'h robot =
  sys :: robot_sys
  screen :: "'h lcd_sys"
  now :: u32
  running :: "string list"
  timer_actual :: u32
  timer_target :: u32

definition on_sys :: "(robot_sys \<Rightarrow> robot_sys) list \<Rightarrow> 'h robot \<Rightarrow> 'h robot" where
  "on_sys fs r = r\<lparr>sys := fold (\<lambda>f. f) fs (sys r)\<rparr>"

type_synonym 'h callback = "'h robot \<Rightarrow> 'h robot option"

text \<open>A null pointer in the table is \<open>None\<close>.\<close>

record 'h system_t =
  enabled :: bool
  sys_init :: "'h callback option"
  sys_start :: "'h callback option"
  sys_lock :: "'h callback option"
  sys_unlock :: "'h callback option"

section \<open>Starting the threads\<close>

definition start_thread :: "string \<Rightarrow> 'h robot \<Rightarrow> 'h robot" where
  "start_thread name r = r\<lparr>running := running r @ [name]\<rparr>"

definition armStart :: "'h callback" where "armStart r = Some (start_thread ''arm'' r)"
definition driveStart :: "'h callback" where "driveStart r = Some (start_thread ''drive'' r)"
definition intakeStart :: "'h callback" where "intakeStart r = Some (start_thread ''intake'' r)"
definition flipperStart :: "'h callback" where "flipperStart r = Some (start_thread ''flipper'' r)"
definition liftStart :: "'h callback" where "liftStart r = Some (start_thread ''lift'' r)"
definition setterStart :: "'h callback" where "setterStart r = Some (start_thread ''setter'' r)"

text \<open>The screen's thread is created again only when its last round is more than 300 ms ago.\<close>

definition screen_start :: "'h callback" where
  "screen_start r =
     (let s = screen r;
          old = (lcdThreadPointer s \<and> \<not> now r - lcdThreadDeadTimer s > 300);
          r = r\<lparr>screen := lcdStart (now r) s\<rparr>
      in Some (if old then r else start_thread ''lcd'' r))"

definition screen_init :: "'h callback" where
  "screen_init r = do { s \<leftarrow> lcdInit (screen r); Some (r\<lparr>screen := s\<rparr>) }"

section \<open>The table\<close>

definition plain :: "(robot_sys \<Rightarrow> robot_sys) \<Rightarrow> 'h callback option" where
  "plain f = Some (\<lambda>r. Some (on_sys [f] r))"

definition systems :: "'h system_t list" where
  "systems =
    [\<lparr>enabled = True, sys_init = Some screen_init, sys_start = Some screen_start, sys_lock = None, sys_unlock = None\<rparr>,
     \<lparr>enabled = True, sys_init = plain armInit, sys_start = Some armStart, sys_lock = plain armLock, sys_unlock = plain armUnlock\<rparr>,
     \<lparr>enabled = True, sys_init = plain driveInit, sys_start = Some driveStart, sys_lock = plain driveLock, sys_unlock = plain driveUnlock\<rparr>,
     \<lparr>enabled = True, sys_init = plain intakeInit, sys_start = Some intakeStart, sys_lock = plain intakeLock, sys_unlock = plain intakeUnlock\<rparr>,
     \<lparr>enabled = True, sys_init = plain flipperInit, sys_start = Some flipperStart, sys_lock = plain flipperLock, sys_unlock = plain flipperUnlock\<rparr>,
     \<lparr>enabled = True, sys_init = plain liftInit, sys_start = Some liftStart, sys_lock = plain liftLock, sys_unlock = plain liftUnlock\<rparr>,
     \<lparr>enabled = True, sys_init = plain setterInit, sys_start = Some setterStart, sys_lock = plain setterLock, sys_unlock = plain setterUnlock\<rparr>,
     \<lparr>enabled = False, sys_init = None, sys_start = None, sys_lock = None, sys_unlock = None\<rparr>]"

definition systemIsEmpty :: "'h system_t \<Rightarrow> bool" where
  "systemIsEmpty s \<longleftrightarrow> sys_init s = None \<and> sys_start s = None \<and> sys_lock s = None \<and> sys_unlock s = None"

text \<open>The loop of the four functions: it ends at the empty entry, and past the table it is outside the language.\<close>

fun run_systems :: "('h system_t \<Rightarrow> 'h callback option) \<Rightarrow> 'h system_t list \<Rightarrow> 'h callback" where
  "run_systems cb [] r = None"
| "run_systems cb (s # ss) r =
     (if systemIsEmpty s then Some r
      else do {
        r \<leftarrow> (if enabled s then (case cb s of None \<Rightarrow> Some r | Some f \<Rightarrow> f r) else Some r);
        run_systems cb ss r
      })"

definition systemInitAll :: "'h callback" where "systemInitAll r = run_systems sys_init systems r"
definition systemStartAll :: "'h callback" where "systemStartAll r = run_systems sys_start systems r"
definition systemLockAll :: "'h callback" where "systemLockAll r = run_systems sys_lock systems r"
definition systemUnlockAll :: "'h callback" where "systemUnlockAll r = run_systems sys_unlock systems r"

section \<open>What the table does\<close>

lemmas table_simps = systems_def systemIsEmpty_def plain_def on_sys_def

lemma system_lock_all:
  "systemLockAll r = Some (r\<lparr>sys := setterLock (liftLock (flipperLock (intakeLock (driveLock (armLock (sys r))))))\<rparr>)"
  by (simp add: systemLockAll_def table_simps)

lemma system_unlock_all:
  "systemUnlockAll r = Some (r\<lparr>sys := setterUnlock (liftUnlock (flipperUnlock (intakeUnlock (driveUnlock (armUnlock (sys r))))))\<rparr>)"
  by (simp add: systemUnlockAll_def table_simps)

definition unlocked :: "robot_sys \<Rightarrow> bool" where
  "unlocked r \<longleftrightarrow> \<not> arm_locked (arm r) \<and> \<not> drive_locked (drive r) \<and> \<not> intake_locked (intake r) \<and>
     \<not> flipper_locked (flipper r) \<and> \<not> lift_locked (lift r) \<and> \<not> setter_locked (setter r)"

text \<open>The indices of the nine motors.\<close>

definition wiring :: "robot_sys \<Rightarrow> int list" where
  "wiring r = [arm_motor (arm r), northeast (drive r), northwest (drive r), southeast (drive r), southwest (drive r),
     flipper_motor (flipper r), intake_motor (intake r), lift_motor (lift r), setter_motor (setter r)]"

lemma unlock_all_effect:
  "\<exists>r'. systemUnlockAll r = Some r' \<and> unlocked (sys r') \<and> wiring (sys r') = wiring (sys r) \<and> outputs (sys r') = outputs (sys r) \<and>
     now r' = now r"
  unfolding system_unlock_all
  by (simp add: unlocked_def wiring_def armUnlock_def driveUnlock_def intakeUnlock_def flipperUnlock_def liftUnlock_def setterUnlock_def)

lemma lock_all_effect:
  "\<exists>r'. systemLockAll r = Some r' \<and> wiring (sys r') = wiring (sys r) \<and> outputs (sys r') = outputs (sys r) \<and> now r' = now r"
  unfolding system_lock_all
  by (simp add: wiring_def armLock_def driveLock_def intakeLock_def flipperLock_def liftLock_def setterLock_def)

text \<open>Starting everything only creates threads; the robot and the chosen mode stay.\<close>

lemma start_all_effect:
  "\<exists>r'. systemStartAll r = Some r' \<and> sys r' = sys r \<and> now r' = now r \<and> lcdGetMode (screen r') = lcdGetMode (screen r) \<and>
     running r' = running r @ (if lcdThreadPointer (screen r) \<and> \<not> now r - lcdThreadDeadTimer (screen r) > 300 then [] else [''lcd'']) @
       [''arm'', ''drive'', ''intake'', ''flipper'', ''lift'', ''setter'']"
  by (simp add: systemStartAll_def systems_def systemIsEmpty_def screen_start_def armStart_def driveStart_def intakeStart_def
      flipperStart_def liftStart_def setterStart_def start_thread_def lcdStart_def lcdGetMode_def Let_def)

section \<open>A turn of all threads\<close>

text \<open>One round of each of the six threads and of the slew rate task.\<close>

definition robot_round :: "(pad \<Rightarrow> bool) \<Rightarrow> spi_state \<Rightarrow> robot_sys \<Rightarrow> robot_sys option" where
  "robot_round level js r = do {
     let r = driveThread js (armThread js r);
     let r = flipperThread js (intakeThread js r);
     r \<leftarrow> liftThread level js r;
     let r = setterThread js r;
     Some (r\<lparr>outputs := SlewRateTask_round (outputs r)\<rparr>)
   }"

text \<open>Without a flag the threads leave the robot alone; only the motors follow their commands.\<close>

lemma unlocked_round: "unlocked r \<Longrightarrow> robot_round level js r = Some (r\<lparr>outputs := SlewRateTask_round (outputs r)\<rparr>)"
  using arm.unlocked_idle [of r js] drive.unlocked_idle [of r js] intake.unlocked_idle [of r js] flipper.unlocked_idle [of r js]
    lift.unlocked_idle [of r level js] setter.unlocked_idle [of r js]
  by (simp add: robot_round_def unlocked_def)

end
