(* ===== verification/Autonomous.thy ===== *)
theory Autonomous
  imports RobotSystem
begin

text \<open>
  The autonomous routines, \<open>src/src/autonomous/mode0.c\<close> to \<open>mode9.c\<close> with the helpers of
  \<open>src/include/autonomous/mode.h\<close> and \<open>timer.h\<close>, and the thread that runs one of them, \<open>vexAutonomous\<close> of
  \<open>src/src/vexuser.c\<close>. A routine is a sequence of timed steps, each repeating some commands every 25 ms until its time is
  over. What the rest of the robot does, and the time that passes, while the thread sleeps is an argument; that the
  thread is terminated in a sleep, as it is when the robot is disabled, is not modelled.
\<close>

section \<open>Timer\<close>

definition timerSetTimeout :: "u32 \<Rightarrow> 'h robot \<Rightarrow> 'h robot" where
  "timerSetTimeout target r = (let r = r\<lparr>timer_actual := now r\<rparr> in r\<lparr>timer_target := timer_actual r + target\<rparr>)"

definition timerIsActive :: "'h robot \<Rightarrow> bool" where
  "timerIsActive r \<longleftrightarrow> timer_actual r \<le> timer_target r"

definition timerTick :: "(nat \<Rightarrow> 'h robot \<Rightarrow> 'h robot) \<Rightarrow> 'h robot \<Rightarrow> 'h robot" where
  "timerTick sleep r = (let r = sleep 25 r in r\<lparr>timer_actual := now r\<rparr>)"

partial_function (option) timer_loop :: "(nat \<Rightarrow> 'h robot \<Rightarrow> 'h robot) \<Rightarrow> ('h robot \<Rightarrow> 'h robot) \<Rightarrow> 'h robot \<Rightarrow> 'h robot option" where
  "timer_loop sleep code r = (if timerIsActive r then timer_loop sleep code (timerTick sleep (code r)) else Some r)"

definition timerRun :: "(nat \<Rightarrow> 'h robot \<Rightarrow> 'h robot) \<Rightarrow> u32 \<Rightarrow> ('h robot \<Rightarrow> 'h robot) \<Rightarrow> 'h callback" where
  "timerRun sleep target code r = timer_loop sleep code (timerSetTimeout target r)"

section \<open>Commands\<close>

definition ROBOT_ARM :: u32 where "ROBOT_ARM = 0x01"
definition ROBOT_DRIVE :: u32 where "ROBOT_DRIVE = 0x02"
definition ROBOT_INTAKE :: u32 where "ROBOT_INTAKE = 0x04"
definition ROBOT_FLIPPER :: u32 where "ROBOT_FLIPPER = 0x06"
definition ROBOT_LIFT :: u32 where "ROBOT_LIFT = 0x08"
definition ROBOT_SETTER :: u32 where "ROBOT_SETTER = 0x10"
definition ROBOT_ALL :: u32 where
  "ROBOT_ALL = ROBOT_ARM OR ROBOT_DRIVE OR ROBOT_INTAKE OR ROBOT_FLIPPER OR ROBOT_LIFT OR ROBOT_SETTER"

lemmas robot_masks = ROBOT_ARM_def ROBOT_DRIVE_def ROBOT_INTAKE_def ROBOT_FLIPPER_def ROBOT_LIFT_def ROBOT_SETTER_def ROBOT_ALL_def

definition armRaise :: "int \<Rightarrow> robot_sys \<Rightarrow> robot_sys" where "armRaise speed = armMove speed True"
definition armLower :: "int \<Rightarrow> robot_sys \<Rightarrow> robot_sys" where "armLower speed = armMove (- speed) True"
definition driveForward :: "int \<Rightarrow> robot_sys \<Rightarrow> robot_sys" where "driveForward speed = driveMove 0 speed True"
definition driveBackward :: "int \<Rightarrow> robot_sys \<Rightarrow> robot_sys" where "driveBackward speed = driveMove 0 (- speed) True"
definition driveRight :: "int \<Rightarrow> robot_sys \<Rightarrow> robot_sys" where "driveRight speed = driveMove speed 0 True"
definition driveLeft :: "int \<Rightarrow> robot_sys \<Rightarrow> robot_sys" where "driveLeft speed = driveMove (- speed) 0 True"
definition intakeGrab :: "int \<Rightarrow> robot_sys \<Rightarrow> robot_sys" where "intakeGrab speed = intakeMove speed True"
definition intakeRelease :: "int \<Rightarrow> robot_sys \<Rightarrow> robot_sys" where "intakeRelease speed = intakeMove (- speed) True"
definition flipperFlip :: "int \<Rightarrow> robot_sys \<Rightarrow> robot_sys" where "flipperFlip speed = flipperMove speed True"
definition liftRaise :: "int \<Rightarrow> robot_sys \<Rightarrow> robot_sys" where "liftRaise speed = liftMove speed True"
definition liftLower :: "int \<Rightarrow> robot_sys \<Rightarrow> robot_sys" where "liftLower speed = liftMove (- speed) True"
definition setterGrab :: "int \<Rightarrow> robot_sys \<Rightarrow> robot_sys" where "setterGrab speed = setterMove speed True"
definition setterOpen :: "int \<Rightarrow> robot_sys \<Rightarrow> robot_sys" where "setterOpen speed = setterMove (- speed) True"

text \<open>The commands a mask selects, in the order of the code.\<close>

definition stops :: "u32 \<Rightarrow> (robot_sys \<Rightarrow> robot_sys) list" where
  "stops which =
     (if which AND ROBOT_ARM \<noteq> 0 then [armMove 0 True] else []) @
     (if which AND ROBOT_DRIVE \<noteq> 0 then [driveMove 0 0 True] else []) @
     (if which AND ROBOT_INTAKE \<noteq> 0 then [intakeMove 0 True] else []) @
     (if which AND ROBOT_FLIPPER \<noteq> 0 then [flipperMove 0 True] else []) @
     (if which AND ROBOT_LIFT \<noteq> 0 then [liftMove 0 True] else []) @
     (if which AND ROBOT_SETTER \<noteq> 0 then [setterMove 0 True] else [])"

definition stopMovementOf :: "(nat \<Rightarrow> 'h robot \<Rightarrow> 'h robot) \<Rightarrow> u32 \<Rightarrow> u32 \<Rightarrow> 'h callback" where
  "stopMovementOf sleep which timeout = timerRun sleep timeout (on_sys (stops which))"

definition stopMovementAll :: "(nat \<Rightarrow> 'h robot \<Rightarrow> 'h robot) \<Rightarrow> u32 \<Rightarrow> 'h callback" where
  "stopMovementAll sleep timeout = stopMovementOf sleep ROBOT_ALL timeout"

definition stopMovementDrive :: "(nat \<Rightarrow> 'h robot \<Rightarrow> 'h robot) \<Rightarrow> u32 \<Rightarrow> 'h callback" where
  "stopMovementDrive sleep timeout = stopMovementOf sleep ROBOT_DRIVE timeout"

text \<open>Statements one after the other.\<close>

fun in_turn :: "'h callback list \<Rightarrow> 'h callback" where
  "in_turn [] r = Some r"
| "in_turn (f # fs) r = do { r \<leftarrow> f r; in_turn fs r }"

section \<open>The modes\<close>

definition autonomousMode0 :: "(nat \<Rightarrow> 'h robot \<Rightarrow> 'h robot) \<Rightarrow> 'h callback" where
  "autonomousMode0 sleep = in_turn
     [systemUnlockAll,
      stopMovementOf sleep ROBOT_DRIVE 150,
      timerRun sleep 400 (on_sys [driveMove 0 127 True]),
      stopMovementOf sleep ROBOT_DRIVE 100,
      stopMovementOf sleep ROBOT_ALL 25,
      timerRun sleep 250 (on_sys [driveMove (- 127) 0 True]),
      stopMovementOf sleep ROBOT_DRIVE 25,
      timerRun sleep 250 (on_sys [driveMove 0 (- 127) True]),
      stopMovementOf sleep ROBOT_DRIVE 100,
      timerRun sleep 1600 (on_sys [driveMove 0 127 True]),
      stopMovementOf sleep ROBOT_ALL 1000]"

definition autonomousMode1 :: "(nat \<Rightarrow> 'h robot \<Rightarrow> 'h robot) \<Rightarrow> 'h callback" where
  "autonomousMode1 sleep = in_turn
     [systemUnlockAll,
      stopMovementOf sleep ROBOT_DRIVE 150,
      timerRun sleep 400 (on_sys [driveMove 0 127 True]),
      stopMovementOf sleep ROBOT_DRIVE 100,
      stopMovementOf sleep ROBOT_ALL 25,
      timerRun sleep 250 (on_sys [driveMove 127 0 True]),
      stopMovementOf sleep ROBOT_DRIVE 25,
      timerRun sleep 250 (on_sys [driveMove 0 (- 127) True]),
      stopMovementOf sleep ROBOT_DRIVE 100,
      timerRun sleep 1600 (on_sys [driveMove 0 127 True]),
      stopMovementOf sleep ROBOT_ALL 1000]"

definition autonomousMode2 :: "(nat \<Rightarrow> 'h robot \<Rightarrow> 'h robot) \<Rightarrow> 'h callback" where
  "autonomousMode2 sleep = in_turn
     [systemUnlockAll,
      stopMovementOf sleep ROBOT_DRIVE 150,
      timerRun sleep 375 (on_sys [driveMove 0 127 True]),
      stopMovementOf sleep ROBOT_DRIVE 100,
      stopMovementOf sleep ROBOT_ALL 25,
      timerRun sleep 250 (on_sys [driveMove 127 0 True]),
      stopMovementOf sleep ROBOT_DRIVE 25,
      timerRun sleep 250 (on_sys [driveMove 0 (- 127) True]),
      stopMovementOf sleep ROBOT_DRIVE 100,
      timerRun sleep 2800 (on_sys [driveMove 0 100 True]),
      stopMovementOf sleep ROBOT_ALL 1000]"

definition autonomousMode3 :: "(nat \<Rightarrow> 'h robot \<Rightarrow> 'h robot) \<Rightarrow> 'h callback" where
  "autonomousMode3 sleep = in_turn
     [systemUnlockAll,
      stopMovementOf sleep ROBOT_ALL 150,
      timerRun sleep 2500 (on_sys [liftMove 127 True]),
      stopMovementOf sleep ROBOT_ALL 100,
      timerRun sleep 1500 (on_sys [driveMove 18 127 True]),
      stopMovementOf sleep ROBOT_ALL 50,
      timerRun sleep 1125 (on_sys [driveMove (- 12) (- 127) True]),
      stopMovementOf sleep ROBOT_DRIVE 50,
      timerRun sleep 350 (on_sys [driveMove (- 100) 0 True]),
      stopMovementOf sleep ROBOT_DRIVE 50,
      timerRun sleep 500 (on_sys [driveMove 0 (- 100) True]),
      stopMovementOf sleep ROBOT_DRIVE 50,
      stopMovementOf sleep ROBOT_DRIVE 50,
      timerRun sleep 1350 (on_sys [driveMove 5 100 True, intakeMove 127 True]),
      stopMovementOf sleep ROBOT_DRIVE 75,
      timerRun sleep 1500 (on_sys [driveMove (- 10) (- 100) True, intakeMove 127 True]),
      stopMovementOf sleep ROBOT_DRIVE 80,
      timerRun sleep 95 (on_sys [driveMove 0 100 True]),
      stopMovementOf sleep ROBOT_DRIVE 50,
      timerRun sleep 185 (on_sys [driveMove 127 0 True, intakeMove (- 127) True]),
      stopMovementOf sleep ROBOT_DRIVE 60,
      timerRun sleep 100 (on_sys [intakeMove 127 True]),
      timerRun sleep 2500 (on_sys [setterMove 30 True, liftMove 127 True, intakeMove 127 True]),
      stopMovementOf sleep ROBOT_DRIVE 150,
      timerRun sleep 390 (on_sys [driveMove 25 (- 127) True]),
      stopMovementOf sleep ROBOT_DRIVE 100,
      stopMovementOf sleep ROBOT_ALL 25,
      timerRun sleep 250 (on_sys [driveMove (- 127) 0 True]),
      stopMovementOf sleep ROBOT_DRIVE 25,
      timerRun sleep 250 (on_sys [driveMove 0 (- 127) True]),
      stopMovementOf sleep ROBOT_DRIVE 100,
      timerRun sleep 1800 (on_sys [driveMove 0 100 True]),
      stopMovementOf sleep ROBOT_ALL 1000]"

definition autonomousMode4 :: "(nat \<Rightarrow> 'h robot \<Rightarrow> 'h robot) \<Rightarrow> 'h callback" where
  "autonomousMode4 sleep = in_turn
     [systemUnlockAll,
      stopMovementOf sleep ROBOT_ALL 150,
      timerRun sleep 2500 (on_sys [liftMove 127 True]),
      stopMovementOf sleep ROBOT_ALL 100,
      timerRun sleep 310 (on_sys [driveMove (- 100) 0 True, intakeMove 127 True]),
      stopMovementOf sleep ROBOT_ALL 75,
      timerRun sleep 200 (on_sys [driveMove 0 (- 127) True]),
      timerRun sleep 30 (on_sys [driveMove 0 (- 30) True]),
      stopMovementOf sleep ROBOT_DRIVE 50,
      timerRun sleep 1360 (on_sys [driveMove 5 100 True, intakeMove 127 True]),
      stopMovementOf sleep ROBOT_DRIVE 75,
      timerRun sleep 1500 (on_sys [driveMove (- 5) (- 95) True, intakeMove 127 True]),
      stopMovementOf sleep ROBOT_DRIVE 120,
      timerRun sleep 30 (on_sys [driveMove 7 (- 30) True]),
      stopMovementOf sleep ROBOT_DRIVE 20,
      timerRun sleep 95 (on_sys [driveMove 0 100 True]),
      stopMovementOf sleep ROBOT_DRIVE 50,
      timerRun sleep 635 (on_sys [driveMove 40 0 True, intakeMove 127 True]),
      stopMovementOf sleep ROBOT_DRIVE 60,
      timerRun sleep 300 (on_sys [intakeMove (- 127) True]),
      timerRun sleep 200 (on_sys [intakeMove 127 True]),
      timerRun sleep 2500 (on_sys [setterMove (- 30) True, liftMove 127 True, intakeMove 127 True])]"

definition autonomousMode5 :: "(nat \<Rightarrow> 'h robot \<Rightarrow> 'h robot) \<Rightarrow> 'h callback" where
  "autonomousMode5 sleep = in_turn
     [systemUnlockAll,
      stopMovementOf sleep ROBOT_ALL 150,
      timerRun sleep 2500 (on_sys [liftMove 127 True]),
      stopMovementOf sleep ROBOT_ALL 100,
      timerRun sleep 310 (on_sys [driveMove 100 0 True, intakeMove 127 True]),
      stopMovementOf sleep ROBOT_ALL 75,
      timerRun sleep 200 (on_sys [driveMove 0 (- 127) True]),
      timerRun sleep 30 (on_sys [driveMove 0 (- 30) True]),
      stopMovementOf sleep ROBOT_DRIVE 50,
      timerRun sleep 1360 (on_sys [driveMove 5 100 True, intakeMove 127 True]),
      stopMovementOf sleep ROBOT_DRIVE 75,
      timerRun sleep 1500 (on_sys [driveMove (- 5) (- 95) True, intakeMove 127 True]),
      stopMovementOf sleep ROBOT_DRIVE 120,
      timerRun sleep 30 (on_sys [driveMove (- 10) (- 30) True]),
      stopMovementOf sleep ROBOT_DRIVE 20,
      timerRun sleep 95 (on_sys [driveMove (- 5) 100 True]),
      stopMovementOf sleep ROBOT_DRIVE 50,
      timerRun sleep 635 (on_sys [driveMove (- 40) 0 True, intakeMove 127 True]),
      stopMovementOf sleep ROBOT_DRIVE 60,
      timerRun sleep 300 (on_sys [intakeMove (- 127) True]),
      timerRun sleep 200 (on_sys [intakeMove 127 True]),
      timerRun sleep 2500 (on_sys [setterMove (- 30) True, liftMove 127 True, intakeMove 127 True])]"

definition autonomousMode6 :: "(nat \<Rightarrow> 'h robot \<Rightarrow> 'h robot) \<Rightarrow> 'h callback" where
  "autonomousMode6 sleep = in_turn
     [systemUnlockAll,
      stopMovementOf sleep ROBOT_ALL 150,
      timerRun sleep 2500 (on_sys [liftMove 127 True]),
      stopMovementOf sleep ROBOT_ALL 100,
      timerRun sleep 310 (on_sys [driveMove (- 100) 0 True, intakeMove 127 True]),
      stopMovementOf sleep ROBOT_ALL 75,
      timerRun sleep 220 (on_sys [driveMove 0 (- 127) True]),
      stopMovementOf sleep ROBOT_DRIVE 50,
      timerRun sleep 1350 (on_sys [driveMove 0 100 True, intakeMove 127 True]),
      stopMovementOf sleep ROBOT_DRIVE 75,
      timerRun sleep 1500 (on_sys [driveMove (- 5) (- 95) True, intakeMove 127 True]),
      stopMovementOf sleep ROBOT_DRIVE 120,
      timerRun sleep 95 (on_sys [driveMove 0 100 True]),
      stopMovementOf sleep ROBOT_DRIVE 50,
      timerRun sleep 405 (on_sys [driveMove 75 0 True, intakeMove 127 True]),
      stopMovementOf sleep ROBOT_DRIVE 60,
      timerRun sleep 300 (on_sys [intakeMove (- 127) True]),
      timerRun sleep 200 (on_sys [intakeMove 127 True]),
      timerRun sleep 2500 (on_sys [setterMove 30 True, liftMove 127 True, intakeMove 127 True]),
      timerRun sleep 1500 (on_sys [driveMove (- 12) 127 True]),
      stopMovementOf sleep ROBOT_ALL 50]"

definition autonomousMode7 :: "(nat \<Rightarrow> 'h robot \<Rightarrow> 'h robot) \<Rightarrow> 'h callback" where
  "autonomousMode7 sleep = in_turn
     [systemUnlockAll,
      stopMovementOf sleep ROBOT_ALL 150,
      timerRun sleep 2500 (on_sys [liftMove 127 True]),
      stopMovementOf sleep ROBOT_ALL 100,
      timerRun sleep 310 (on_sys [driveMove 100 0 True, intakeMove 127 True]),
      stopMovementOf sleep ROBOT_ALL 75,
      timerRun sleep 220 (on_sys [driveMove 0 (- 127) True]),
      stopMovementOf sleep ROBOT_DRIVE 50,
      timerRun sleep 1350 (on_sys [driveMove 0 100 True, intakeMove 127 True]),
      stopMovementOf sleep ROBOT_DRIVE 75,
      timerRun sleep 1500 (on_sys [driveMove (- 5) (- 95) True, intakeMove 127 True]),
      stopMovementOf sleep ROBOT_DRIVE 120,
      timerRun sleep 95 (on_sys [driveMove 0 100 True]),
      stopMovementOf sleep ROBOT_DRIVE 50,
      timerRun sleep 405 (on_sys [driveMove (- 75) 0 True, intakeMove 127 True]),
      stopMovementOf sleep ROBOT_DRIVE 60,
      timerRun sleep 300 (on_sys [intakeMove (- 127) True]),
      timerRun sleep 200 (on_sys [intakeMove 127 True]),
      timerRun sleep 2500 (on_sys [setterMove 30 True, liftMove 127 True, intakeMove 127 True]),
      timerRun sleep 2800 (on_sys [driveMove (- 12) 127 True]),
      stopMovementOf sleep ROBOT_ALL 50]"

definition autonomousMode8 :: "(nat \<Rightarrow> 'h robot \<Rightarrow> 'h robot) \<Rightarrow> 'h callback" where
  "autonomousMode8 sleep = in_turn
     [systemUnlockAll,
      stopMovementOf sleep ROBOT_ALL 150,
      timerRun sleep 2500 (on_sys [liftMove 127 True]),
      stopMovementOf sleep ROBOT_ALL 100,
      timerRun sleep 310 (on_sys [driveMove (- 100) 0 True, intakeMove 127 True]),
      stopMovementOf sleep ROBOT_ALL 75,
      timerRun sleep 200 (on_sys [driveMove 0 (- 127) True]),
      timerRun sleep 30 (on_sys [driveMove 0 (- 30) True]),
      stopMovementOf sleep ROBOT_DRIVE 50,
      timerRun sleep 1360 (on_sys [driveMove 0 100 True, intakeMove 127 True]),
      stopMovementOf sleep ROBOT_DRIVE 75,
      timerRun sleep 1500 (on_sys [driveMove (- 5) (- 95) True, intakeMove 127 True]),
      stopMovementOf sleep ROBOT_DRIVE 120,
      timerRun sleep 30 (on_sys [driveMove 7 (- 30) True]),
      stopMovementOf sleep ROBOT_DRIVE 20,
      timerRun sleep 95 (on_sys [driveMove 0 100 True]),
      stopMovementOf sleep ROBOT_DRIVE 50,
      timerRun sleep 655 (on_sys [driveMove 40 0 True, intakeMove 127 True]),
      stopMovementOf sleep ROBOT_DRIVE 60,
      timerRun sleep 300 (on_sys [intakeMove (- 127) True]),
      timerRun sleep 200 (on_sys [intakeMove 127 True]),
      timerRun sleep 2500 (on_sys [setterMove (- 30) True, liftMove 127 True, intakeMove 127 True]),
      timerRun sleep 17 (on_sys [driveMove (- 127) 0 True]),
      stopMovementOf sleep ROBOT_DRIVE 150,
      timerRun sleep 470 (on_sys [driveMove 7 (- 127) True]),
      stopMovementOf sleep ROBOT_DRIVE 120,
      stopMovementOf sleep ROBOT_ALL 25,
      timerRun sleep 400 (on_sys [driveMove 100 0 True]),
      stopMovementOf sleep ROBOT_DRIVE 25,
      timerRun sleep 400 (on_sys [driveMove 0 (- 127) True]),
      stopMovementOf sleep ROBOT_DRIVE 150,
      timerRun sleep 2800 (on_sys [driveMove 0 100 True]),
      stopMovementOf sleep ROBOT_ALL 1000]"

definition autonomousMode9 :: "(nat \<Rightarrow> 'h robot \<Rightarrow> 'h robot) \<Rightarrow> 'h callback" where
  "autonomousMode9 sleep = in_turn
     [systemUnlockAll,
      stopMovementOf sleep ROBOT_ALL 150,
      timerRun sleep 2500 (on_sys [liftMove 127 True]),
      stopMovementOf sleep ROBOT_ALL 100,
      timerRun sleep 310 (on_sys [driveMove 100 0 True, intakeMove 127 True]),
      stopMovementOf sleep ROBOT_ALL 75,
      timerRun sleep 200 (on_sys [driveMove 0 (- 127) True]),
      timerRun sleep 30 (on_sys [driveMove 0 (- 30) True]),
      stopMovementOf sleep ROBOT_DRIVE 50,
      timerRun sleep 1360 (on_sys [driveMove 5 100 True, intakeMove 127 True]),
      stopMovementOf sleep ROBOT_DRIVE 75,
      timerRun sleep 1500 (on_sys [driveMove (- 5) (- 95) True, intakeMove 127 True]),
      stopMovementOf sleep ROBOT_DRIVE 120,
      timerRun sleep 30 (on_sys [driveMove (- 10) (- 30) True]),
      stopMovementOf sleep ROBOT_DRIVE 20,
      timerRun sleep 95 (on_sys [driveMove (- 5) 100 True]),
      stopMovementOf sleep ROBOT_DRIVE 50,
      timerRun sleep 620 (on_sys [driveMove (- 40) 0 True, intakeMove 127 True]),
      stopMovementOf sleep ROBOT_DRIVE 60,
      timerRun sleep 300 (on_sys [intakeMove (- 127) True]),
      timerRun sleep 200 (on_sys [intakeMove 127 True]),
      timerRun sleep 2500 (on_sys [setterMove (- 30) True, liftMove 127 True, intakeMove 127 True]),
      timerRun sleep 17 (on_sys [driveMove (- 127) 0 True]),
      stopMovementOf sleep ROBOT_DRIVE 150,
      timerRun sleep 585 (on_sys [driveMove 7 (- 127) True]),
      stopMovementOf sleep ROBOT_DRIVE 120,
      stopMovementOf sleep ROBOT_ALL 25,
      timerRun sleep 400 (on_sys [driveMove 100 0 True]),
      stopMovementOf sleep ROBOT_DRIVE 25,
      timerRun sleep 300 (on_sys [driveMove 0 (- 127) True]),
      stopMovementOf sleep ROBOT_DRIVE 150,
      timerRun sleep 2950 (on_sys [driveMove 0 100 True]),
      stopMovementOf sleep ROBOT_ALL 1000]"

definition autonomousMode :: "(nat \<Rightarrow> 'h robot \<Rightarrow> 'h robot) \<Rightarrow> int \<Rightarrow> 'h callback option" where
  "autonomousMode sleep m =
     (if m = 0 then Some (autonomousMode0 sleep) else if m = 1 then Some (autonomousMode1 sleep)
      else if m = 2 then Some (autonomousMode2 sleep) else if m = 3 then Some (autonomousMode3 sleep)
      else if m = 4 then Some (autonomousMode4 sleep) else if m = 5 then Some (autonomousMode5 sleep)
      else if m = 6 then Some (autonomousMode6 sleep) else if m = 7 then Some (autonomousMode7 sleep)
      else if m = 8 then Some (autonomousMode8 sleep) else if m = 9 then Some (autonomousMode9 sleep) else None)"

definition clear_screen :: "'h robot \<Rightarrow> 'h robot" where
  "clear_screen r = r\<lparr>screen := (screen r)\<lparr>displays :=
     vexLcdClearLine 0 VEX_LCD_LINE_2 (vexLcdClearLine 0 VEX_LCD_LINE_1 (displays (screen r)))\<rparr>\<rparr>"

text \<open>The thread of the autonomous period.\<close>

definition vexAutonomous :: "(nat \<Rightarrow> 'h robot \<Rightarrow> 'h robot) \<Rightarrow> 'h callback" where
  "vexAutonomous sleep r = do {
     let r = clear_screen r;
     let r = sleep 500 r;
     r \<leftarrow> systemStartAll r;
     r \<leftarrow> systemLockAll r;
     r \<leftarrow> (case autonomousMode sleep (lcdGetMode (screen r)) of
            Some routine \<Rightarrow> routine r
          | None \<Rightarrow> Some (sleep 25 r));
     systemLockAll r
   }"

text \<open>The thread of the driver period, up to the loop in which it only sleeps.\<close>

definition vexOperator_start :: "(nat \<Rightarrow> 'h robot \<Rightarrow> 'h robot) \<Rightarrow> 'h callback" where
  "vexOperator_start sleep r = do {
     let r = clear_screen r;
     let r = sleep 500 r;
     r \<leftarrow> systemStartAll r;
     systemLockAll r
   }"

end
