(* ===== verification/Autonomous_Properties.thy ===== *)
theory Autonomous_Properties
  imports Autonomous
begin

text \<open>
  The autonomous routines end, within bounds on their time, and leave behind the commands of their last steps. A step
  changes the standing commands of the motors like its list of commands executed once, so a routine does to them what
  its steps do one after the other.
\<close>

section \<open>Commands as maps\<close>

text \<open>What \<open>wires\<close> lists are motors of the robot and all flags are off, so the routine alone commands them.\<close>

definition good :: "int list \<Rightarrow> robot_sys \<Rightarrow> bool" where
  "good wires r \<longleftrightarrow> outputs_ok r \<and> unlocked r \<and> wiring r = wires"

definition over :: "(int \<Rightarrow> int option) \<Rightarrow> (int \<Rightarrow> int) \<Rightarrow> int \<Rightarrow> int" where
  "over m c i = (case m i of None \<Rightarrow> c i | Some v \<Rightarrow> v)"

lemma over_over [simp]: "over m (over m c) = over m c"
  by (auto simp: over_def fun_eq_iff split: option.splits)

lemma over_append: "over m2 (over m1 c) = over (m1 ++ m2) c"
  by (auto simp: over_def fun_eq_iff map_add_def split: option.splits)

lemma over_empty [simp]: "over Map.empty c = c"
  by (simp add: over_def fun_eq_iff)

text \<open>The commands of two states agree on the ten motors after \<open>m\<close> has been written over the first.\<close>

definition commands :: "(int \<Rightarrow> int option) \<Rightarrow> robot_sys \<Rightarrow> robot_sys \<Rightarrow> bool" where
  "commands m r r' \<longleftrightarrow> (\<forall>i. 0 \<le> i \<and> i < 10 \<longrightarrow> cmd_of r' i = over m (cmd_of r) i)"

lemma commands_refl: "commands Map.empty r r"
  by (simp add: commands_def)

lemma commands_trans: "commands m1 r r1 \<Longrightarrow> commands m2 r1 r2 \<Longrightarrow> commands (m1 ++ m2) r r2"
  unfolding commands_def over_append [symmetric] by (simp add: over_def split: option.splits)

lemma commands_again: "commands m r r1 \<Longrightarrow> commands m r1 r2 \<Longrightarrow> commands m r r2"
  by (auto simp: commands_def over_def split: option.splits)

definition acts :: "int list \<Rightarrow> (int \<Rightarrow> int option) \<Rightarrow> (robot_sys \<Rightarrow> robot_sys) \<Rightarrow> bool" where
  "acts wires m f \<longleftrightarrow> (\<forall>r. good wires r \<longrightarrow> good wires (f r) \<and> commands m r (f r))"

lemma acts_fold:
  "list_all2 (acts wires) ms fs \<Longrightarrow> acts wires (fold (\<lambda>m n. n ++ m) ms Map.empty) (\<lambda>r. fold (\<lambda>f. f) fs r)"
proof -
  have "list_all2 (acts wires) ms fs \<Longrightarrow> good wires r \<Longrightarrow> commands n r0 r \<Longrightarrow>
      good wires (fold (\<lambda>f. f) fs r) \<and> commands (fold (\<lambda>m n. n ++ m) ms n) r0 (fold (\<lambda>f. f) fs r)" for r0 r n
    by (induction ms fs arbitrary: r n rule: list_all2_induct) (auto simp: acts_def intro: commands_trans)
  then show "list_all2 (acts wires) ms fs \<Longrightarrow> ?thesis" using commands_refl by (auto simp: acts_def)
qed

section \<open>The commands of the subsystems\<close>

lemma command_good: "good wires (command i v b r) = good wires r"
  by (simp add: good_def unlocked_def wiring_def)

lemma command_commands:
  assumes "good wires r" "0 \<le> i" "i < 10" "motor_speed v"
  shows "commands [i \<mapsto> v] r (command i v b r)"
proof -
  have "outputs_ok r" using assms(1) by (simp add: good_def)
  from command_effect(1) [OF this assms(2-4)] show ?thesis by (auto simp: commands_def over_def)
qed

text \<open>The wiring of this robot.\<close>

definition robot_wires :: "int list" where
  "robot_wires = [2, 1, 8, 7, 0, 3, 6, 5, 4]"

lemma wires:
  assumes "good robot_wires r"
  shows "arm_motor (arm r) = 2" "northeast (drive r) = 1" "northwest (drive r) = 8" "southeast (drive r) = 7" "southwest (drive r) = 0"
    "flipper_motor (flipper r) = 3" "intake_motor (intake r) = 6" "lift_motor (lift r) = 5" "setter_motor (setter r) = 4"
  using assms by (simp_all add: good_def wiring_def robot_wires_def)

lemma motor_speed_i16: "motor_speed v \<Longrightarrow> i16 v = v"
  by (rule i16_id) (auto simp: motor_speed_def)

lemma single_moves:
  assumes "motor_speed v"
  shows "acts robot_wires [2 \<mapsto> v] (armMove v True)" "acts robot_wires [3 \<mapsto> v] (flipperMove v True)"
    "acts robot_wires [6 \<mapsto> v] (intakeMove v True)" "acts robot_wires [5 \<mapsto> v] (liftMove v True)"
    "acts robot_wires [4 \<mapsto> v] (setterMove v True)"
  using assms command_commands
  by (simp_all add: acts_def armMove_def flipperMove_def intakeMove_def liftMove_def setterMove_def motor_speed_i16 wires command_good)

definition drive_map :: "int \<Rightarrow> int \<Rightarrow> int \<Rightarrow> int option" where
  "drive_map x y = [1 \<mapsto> speed_curve (y - x), 8 \<mapsto> speed_curve (y + x), 7 \<mapsto> speed_curve (y - x), 0 \<mapsto> speed_curve (y + x)]"

lemma drive_moves:
  assumes "\<bar>x\<bar> \<le> 127" "\<bar>y\<bar> \<le> 127"
  shows "acts robot_wires (drive_map x y) (driveMove x y True)"
  unfolding acts_def
proof (intro allI impI conjI)
  fix r assume g: "good robot_wires r"
  let ?m = "driveMove x y True r"
  have ok: "outputs_ok r" "drive_ok r" using g wires [OF g] by (simp_all add: good_def drive_ok_def Let_def)
  show "commands (drive_map x y) r ?m"
    using driveMove_effect(1) [OF ok assms] wires [OF g] by (auto simp: commands_def over_def drive_map_def)
  show "good robot_wires ?m" using g by (simp add: driveMove_def Let_def command_good)
qed

lemma stop_values: "motor_speed 0" "motor_speed 127" "motor_speed (- 127)" "motor_speed 30" "motor_speed (- 30)"
  by (simp_all add: motor_speed_def)

lemma curve_0 [simp]: "speed_curve 0 = 0"
  by (simp add: speed_curve_def)

section \<open>How the modes end\<close>

definition all_zero :: "int \<Rightarrow> int option" where
  "all_zero = (((([2 \<mapsto> 0] ++ drive_map 0 0) ++ [6 \<mapsto> 0]) ++ [3 \<mapsto> 0]) ++ [5 \<mapsto> 0]) ++ [4 \<mapsto> 0]"

text \<open>What is commanded at the end: nothing, but modes 4 and 5 leave the lift, the intake and the setter running.\<close>

definition final_command :: "int \<Rightarrow> int \<Rightarrow> int" where
  "final_command m i =
     (if m = 4 \<or> m = 5 then (if i = 5 \<or> i = 6 then 127 else if i = 4 then - 30 else 0) else 0)"

definition mode_time :: "int \<Rightarrow> nat" where
  "mode_time m = [3900, 3900, 5075, 16560, 10360, 10360, 11610, 12910, 15937, 16067] ! nat m"

definition mode_steps :: "int \<Rightarrow> nat" where
  "mode_steps m = [10, 10, 10, 32, 21, 21, 20, 20, 32, 32] ! nat m"

section \<open>Timed steps\<close>

text \<open>
  What the routine relies on while it sleeps: at least the time asked for passes, and at most a slack more; and as long
  as no flag is on, nobody else changes the commands or the flags. The wiring is never changed.
\<close>

locale autonomous_period =
  fixes sleep :: "nat \<Rightarrow> 'h robot \<Rightarrow> 'h robot" and slack :: nat
  assumes clock: "\<exists>d. ms \<le> d \<and> d \<le> ms + slack \<and> now (sleep ms r) = now r + word_of_nat d"
    and others: "unlocked (sys r) \<Longrightarrow> outputs_ok (sys r) \<Longrightarrow>
      good (wiring (sys r)) (sys (sleep ms r)) \<and> commands Map.empty (sys r) (sys (sleep ms r))"
    and target: "timer_target (sleep ms r) = timer_target r"
    and keeps: "outputs_ok (sys r) \<Longrightarrow> outputs_ok (sys (sleep ms r)) \<and> wiring (sys (sleep ms r)) = wiring (sys r)"
begin

text \<open>\<open>timed T K m step\<close>: from a good state the step ends after more than \<open>T\<close> and at most \<open>T + K\<close> milliseconds with
  the commands \<open>m\<close>, unless the clock wraps.\<close>

definition timed :: "int list \<Rightarrow> nat \<Rightarrow> nat \<Rightarrow> (int \<Rightarrow> int option) \<Rightarrow> 'h callback \<Rightarrow> bool" where
  "timed wires T K m step \<longleftrightarrow> (\<forall>r. good wires (sys r) \<longrightarrow> unat (now r) + T + K < 2 ^ 32 \<longrightarrow>
     (\<exists>r'. step r = Some r' \<and> good wires (sys r') \<and> commands m (sys r) (sys r') \<and>
        unat (now r) + T \<le> unat (now r') \<and> unat (now r') \<le> unat (now r) + T + K))"

lemma clock_nat: "unat (now r) + ms + slack < 2 ^ 32 \<Longrightarrow>
    unat (now r) + ms \<le> unat (now (sleep ms r)) \<and> unat (now (sleep ms r)) \<le> unat (now r) + ms + slack"
proof -
  assume b: "unat (now r) + ms + slack < 2 ^ 32"
  obtain d where d: "ms \<le> d" "d \<le> ms + slack" "now (sleep ms r) = now r + word_of_nat d" using clock by blast
  have "unat (now r + word_of_nat d) = unat (now r) + d"
    using b d(1,2) by (simp add: unat_word_ariths unat_of_nat take_bit_nat_eq_self)
  then show ?thesis using d by simp
qed

lemma timer_loop_ends:
  assumes "acts wires m (\<lambda>r. fold (\<lambda>f. f) fs r)" "unat (timer_target r) + 25 + slack < 2 ^ 32" "good wires (sys r)"
    "timer_actual r = now r" "timerIsActive r"
  shows "\<exists>r'. timer_loop sleep (on_sys fs) r = Some r' \<and> good wires (sys r') \<and> commands m (sys r) (sys r') \<and>
    unat (timer_target r) < unat (now r') \<and> unat (now r') \<le> unat (timer_target r) + 25 + slack"
  using assms(2-5)
proof (induction "unat (timer_target r) - unat (now r)" arbitrary: r rule: less_induct)
  case less
  let ?r1 = "on_sys fs r" let ?r2 = "timerTick sleep ?r1"
  have g1: "good wires (sys ?r1)" "commands m (sys r) (sys ?r1)" "now ?r1 = now r" "timer_target ?r1 = timer_target r"
    using assms(1) less.prems(2) by (simp_all add: acts_def on_sys_def)
  have r2: "sys ?r2 = sys (sleep 25 ?r1)" "now ?r2 = now (sleep 25 ?r1)" "timer_actual ?r2 = now ?r2" "timer_target ?r2 = timer_target r"
    using target [of 25 ?r1] g1(4) by (simp_all add: timerTick_def Let_def)
  have g2: "good wires (sys ?r2)" "commands Map.empty (sys ?r1) (sys ?r2)"
    using others [of ?r1 25] g1(1) unfolding r2(1) by (auto simp: good_def)
  have c2: "commands m (sys r) (sys ?r2)" using commands_trans [OF g1(2) g2(2)] by simp
  have le: "unat (now r) \<le> unat (timer_target r)" using less.prems(3,4) by (simp add: timerIsActive_def word_le_nat_alt)
  then have t: "unat (now r) + 25 \<le> unat (now ?r2)" "unat (now ?r2) \<le> unat (now r) + 25 + slack"
    using clock_nat [of ?r1 25] less.prems(1) unfolding r2(2) g1(3) by simp_all
  have step: "timer_loop sleep (on_sys fs) r = timer_loop sleep (on_sys fs) ?r2"
    using less.prems(4) by (subst timer_loop.simps) simp
  show ?case
  proof (cases "timerIsActive ?r2")
    case True
    then have "unat (timer_target ?r2) - unat (now ?r2) < unat (timer_target r) - unat (now r)"
      using t(1) r2 by (simp add: timerIsActive_def word_le_nat_alt)
    from less.hyps [OF this _ g2(1) r2(3) True] less.prems(1) r2(4) show ?thesis
      using commands_again [OF c2] unfolding step by auto
  next
    case False
    then have "timer_loop sleep (on_sys fs) ?r2 = Some ?r2" by (subst timer_loop.simps) simp
    then show ?thesis unfolding step
      using False g2(1) c2 t(2) le r2(3,4) by (auto simp: timerIsActive_def word_le_nat_alt)
  qed
qed

lemma timerRun_timed:
  assumes "acts wires m (\<lambda>r. fold (\<lambda>f. f) fs r)"
  shows "timed wires (unat T) (25 + slack) m (timerRun sleep T (on_sys fs))"
  unfolding timed_def
proof (intro allI impI)
  fix r :: "'h robot" assume g: "good wires (sys r)" and b: "unat (now r) + unat T + (25 + slack) < 2 ^ 32"
  let ?r = "timerSetTimeout T r"
  have t: "unat (timer_target ?r) = unat (now r) + unat T" "timer_actual ?r = now ?r" "sys ?r = sys r" "now ?r = now r"
    using b by (simp_all add: timerSetTimeout_def Let_def unat_word_ariths)
  have "timerIsActive ?r" using t by (simp add: timerIsActive_def word_le_nat_alt)
  from timer_loop_ends [OF assms _ _ t(2) this] g b t show "\<exists>r'. timerRun sleep T (on_sys fs) r = Some r' \<and> good wires (sys r') \<and>
      commands m (sys r) (sys r') \<and> unat (now r) + unat T \<le> unat (now r') \<and> unat (now r') \<le> unat (now r) + unat T + (25 + slack)"
    by (auto simp: timerRun_def)
qed

lemma timed_Nil: "timed wires 0 0 Map.empty (in_turn [])"
  by (simp add: timed_def commands_refl)

lemma timed_Cons:
  assumes "timed wires T K m f" "timed wires T' K' m' (in_turn fs)"
  shows "timed wires (T + T') (K + K') (m ++ m') (in_turn (f # fs))"
  unfolding timed_def
proof (intro allI impI)
  fix r :: "'h robot" assume g: "good wires (sys r)" and b: "unat (now r) + (T + T') + (K + K') < 2 ^ 32"
  obtain r1 where r1: "f r = Some r1" "good wires (sys r1)" "commands m (sys r) (sys r1)"
    "unat (now r) + T \<le> unat (now r1)" "unat (now r1) \<le> unat (now r) + T + K"
    using assms(1) g b by (auto simp: timed_def)
  obtain r2 where r2: "in_turn fs r1 = Some r2" "good wires (sys r2)" "commands m' (sys r1) (sys r2)"
    "unat (now r1) + T' \<le> unat (now r2)" "unat (now r2) \<le> unat (now r1) + T' + K'"
    using assms(2) r1(2,5) b by (auto simp: timed_def)
  show "\<exists>r'. in_turn (f # fs) r = Some r' \<and> good wires (sys r') \<and> commands (m ++ m') (sys r) (sys r') \<and>
      unat (now r) + (T + T') \<le> unat (now r') \<and> unat (now r') \<le> unat (now r) + (T + T') + (K + K')"
    using r1 r2 commands_trans [OF r1(3) r2(3)] by auto
qed

section \<open>The steps of the modes\<close>

lemma stop_lists: "stops ROBOT_DRIVE = [driveMove 0 0 True, flipperMove 0 True]"
  "stops ROBOT_ALL = [armMove 0 True, driveMove 0 0 True, intakeMove 0 True, flipperMove 0 True, liftMove 0 True, setterMove 0 True]"
  "stops ROBOT_FLIPPER = [driveMove 0 0 True, intakeMove 0 True, flipperMove 0 True]"
  by (simp_all add: stops_def robot_masks)

lemma run_timed:
  assumes "list_all2 (acts robot_wires) ms fs"
  shows "timed robot_wires (unat T) (25 + slack) (fold (\<lambda>m n. n ++ m) ms Map.empty) (timerRun sleep T (on_sys fs))"
  by (rule timerRun_timed [OF acts_fold [OF assms]])

lemma stop_timed:
  assumes "list_all2 (acts robot_wires) ms (stops which)"
  shows "timed robot_wires (unat T) (25 + slack) (fold (\<lambda>m n. n ++ m) ms Map.empty) (stopMovementOf sleep which T)"
  unfolding stopMovementOf_def by (rule run_timed [OF assms])

lemma acts_lists: "list_all2 (acts robot_wires) [] []"
  "acts robot_wires m f \<Longrightarrow> list_all2 (acts robot_wires) ms fs \<Longrightarrow> list_all2 (acts robot_wires) (m # ms) (f # fs)"
  by simp_all

lemmas timed_intros = timed_Cons timed_Nil run_timed acts_lists single_moves drive_moves

lemma stop_drive: "timed robot_wires (unat T) (25 + slack) (drive_map 0 0 ++ [3 \<mapsto> 0]) (stopMovementOf sleep ROBOT_DRIVE T)"
  using stop_timed [of "[drive_map 0 0, [3 \<mapsto> 0]]" ROBOT_DRIVE T] single_moves [OF stop_values(1)] drive_moves [of 0 0]
  by (simp add: stop_lists)

lemma stop_all: "timed robot_wires (unat T) (25 + slack) all_zero (stopMovementOf sleep ROBOT_ALL T)"
  using stop_timed [of "[[2 \<mapsto> 0], drive_map 0 0, [6 \<mapsto> 0], [3 \<mapsto> 0], [5 \<mapsto> 0], [4 \<mapsto> 0]]" ROBOT_ALL T]
    single_moves [OF stop_values(1)] drive_moves [of 0 0]
  by (simp add: stop_lists all_zero_def)

text \<open>How a whole routine ends: its time in milliseconds, its number of steps and the commands it leaves.\<close>

definition ends :: "nat \<Rightarrow> nat \<Rightarrow> (int \<Rightarrow> int) \<Rightarrow> 'h callback \<Rightarrow> bool" where
  "ends T n fin routine \<longleftrightarrow> (\<forall>r. outputs_ok (sys r) \<longrightarrow> wiring (sys r) = robot_wires \<longrightarrow> unat (now r) + T + n * (25 + slack) < 2 ^ 32 \<longrightarrow>
     (\<exists>r'. routine r = Some r' \<and> good robot_wires (sys r') \<and> (\<forall>i\<in>{0..8}. cmd_of (sys r') i = fin i) \<and>
        unat (now r) + T \<le> unat (now r') \<and> unat (now r') \<le> unat (now r) + T + n * (25 + slack)))"

lemma ends_unlock:
  assumes "timed robot_wires T' K m (in_turn fs)" "T' = T" "K = n * (25 + slack)" "\<forall>i\<in>set [0,1,2,3,4,5,6,7,8]. m i = Some (fin i)"
  shows "ends T n fin (in_turn (systemUnlockAll # fs))"
  unfolding ends_def
proof (intro allI impI)
  fix r :: "'h robot" assume r: "outputs_ok (sys r)" "wiring (sys r) = robot_wires" "unat (now r) + T + n * (25 + slack) < 2 ^ 32"
  obtain r1 where r1: "systemUnlockAll r = Some r1" "unlocked (sys r1)" "wiring (sys r1) = robot_wires" "outputs (sys r1) = outputs (sys r)"
    "now r1 = now r" using unlock_all_effect [of r] r(2) by auto
  then have "good robot_wires (sys r1)" using r(1) by (simp add: good_def outputs_ok_def)
  then obtain r2 where r2: "in_turn fs r1 = Some r2" "good robot_wires (sys r2)" "commands m (sys r1) (sys r2)"
    "unat (now r) + T \<le> unat (now r2)" "unat (now r2) \<le> unat (now r) + T + n * (25 + slack)"
    using assms(1-3) r(3) r1(5) by (auto simp: timed_def)
  have "cmd_of (sys r2) i = fin i" if "i \<in> {0..8}" for i
  proof -
    have "i \<in> set [0,1,2,3,4,5,6,7,8]" using that by auto
    then have "m i = Some (fin i)" using assms(4) by blast
    then show ?thesis using r2(3) that by (simp add: commands_def over_def)
  qed
  then show "\<exists>r'. in_turn (systemUnlockAll # fs) r = Some r' \<and> good robot_wires (sys r') \<and> (\<forall>i\<in>{0..8}. cmd_of (sys r') i = fin i) \<and>
      unat (now r) + T \<le> unat (now r') \<and> unat (now r') \<le> unat (now r) + T + n * (25 + slack)"
    using r1(1) r2 by auto
qed

lemmas map_simps = all_zero_def drive_map_def map_add_def final_command_def

lemma mode0: "ends 3900 10 (final_command 0) (autonomousMode0 sleep)"
  unfolding autonomousMode0_def
  by (rule ends_unlock, (rule timed_intros stop_drive stop_all | (simp add: stop_values; fail))+) (simp_all add: map_simps)

lemma mode1: "ends 3900 10 (final_command 1) (autonomousMode1 sleep)"
  unfolding autonomousMode1_def
  by (rule ends_unlock, (rule timed_intros stop_drive stop_all | (simp add: stop_values; fail))+) (simp_all add: map_simps)

lemma mode2: "ends 5075 10 (final_command 2) (autonomousMode2 sleep)"
  unfolding autonomousMode2_def
  by (rule ends_unlock, (rule timed_intros stop_drive stop_all | (simp add: stop_values; fail))+) (simp_all add: map_simps)

lemma mode3: "ends 16560 32 (final_command 3) (autonomousMode3 sleep)"
  unfolding autonomousMode3_def
  by (rule ends_unlock, (rule timed_intros stop_drive stop_all | (simp add: stop_values; fail))+) (simp_all add: map_simps)

lemma mode4: "ends 10360 21 (final_command 4) (autonomousMode4 sleep)"
  unfolding autonomousMode4_def
  by (rule ends_unlock, (rule timed_intros stop_drive stop_all | (simp add: stop_values; fail))+) (simp_all add: map_simps)

lemma mode5: "ends 10360 21 (final_command 5) (autonomousMode5 sleep)"
  unfolding autonomousMode5_def
  by (rule ends_unlock, (rule timed_intros stop_drive stop_all | (simp add: stop_values; fail))+) (simp_all add: map_simps)

lemma mode6: "ends 11610 20 (final_command 6) (autonomousMode6 sleep)"
  unfolding autonomousMode6_def
  by (rule ends_unlock, (rule timed_intros stop_drive stop_all | (simp add: stop_values; fail))+) (simp_all add: map_simps)

lemma mode7: "ends 12910 20 (final_command 7) (autonomousMode7 sleep)"
  unfolding autonomousMode7_def
  by (rule ends_unlock, (rule timed_intros stop_drive stop_all | (simp add: stop_values; fail))+) (simp_all add: map_simps)

lemma mode8: "ends 15937 32 (final_command 8) (autonomousMode8 sleep)"
  unfolding autonomousMode8_def
  by (rule ends_unlock, (rule timed_intros stop_drive stop_all | (simp add: stop_values; fail))+) (simp_all add: map_simps)

lemma mode9: "ends 16067 32 (final_command 9) (autonomousMode9 sleep)"
  unfolding autonomousMode9_def
  by (rule ends_unlock, (rule timed_intros stop_drive stop_all | (simp add: stop_values; fail))+) (simp_all add: map_simps)

lemma mode_ends:
  assumes "0 \<le> m" "m < 10"
  shows "\<exists>routine. autonomousMode sleep m = Some routine \<and> ends (mode_time m) (mode_steps m) (final_command m) routine"
proof -
  have "m = 0 \<or> m = 1 \<or> m = 2 \<or> m = 3 \<or> m = 4 \<or> m = 5 \<or> m = 6 \<or> m = 7 \<or> m = 8 \<or> m = 9" using assms by presburger
  then show ?thesis
    using mode0 mode1 mode2 mode3 mode4 mode5 mode6 mode7 mode8 mode9
    by (auto simp: autonomousMode_def mode_time_def mode_steps_def)
qed

lemma stop_flipper: "timed robot_wires (unat T) (25 + slack) ((drive_map 0 0 ++ [6 \<mapsto> 0]) ++ [3 \<mapsto> 0]) (stopMovementOf sleep ROBOT_FLIPPER T)"
  using stop_timed [of "[drive_map 0 0, [6 \<mapsto> 0], [3 \<mapsto> 0]]" ROBOT_FLIPPER T] single_moves [OF stop_values(1)] drive_moves [of 0 0]
  by (simp add: stop_lists)

lemma period:
  assumes "outputs_ok (sys r)" "wiring (sys r) = robot_wires"
    "lcdGetMode (screen (sleep 500 (clear_screen r))) = m" "0 \<le> m" "m < 10"
    "unat (now r) + 500 + slack + mode_time m + mode_steps m * (25 + slack) < 2 ^ 32"
  shows "\<exists>r'. vexAutonomous sleep r = Some r' \<and> (\<forall>i\<in>{0..8}. cmd_of (sys r') i = final_command m i) \<and>
     unat (now r) + 500 + mode_time m \<le> unat (now r') \<and>
     unat (now r') \<le> unat (now r) + 500 + slack + mode_time m + mode_steps m * (25 + slack)"
proof -
  let ?r1 = "sleep 500 (clear_screen r)"
  have c: "sys (clear_screen r) = sys r" "now (clear_screen r) = now r" by (simp_all add: clear_screen_def)
  have s1: "outputs_ok (sys ?r1)" "wiring (sys ?r1) = robot_wires"
    using keeps [of "clear_screen r" 500] assms(1,2) c by simp_all
  have t1: "unat (now r) + 500 \<le> unat (now ?r1)" "unat (now ?r1) \<le> unat (now r) + 500 + slack"
    using clock_nat [of "clear_screen r" 500] assms(6) c by simp_all
  obtain r2 where r2: "systemStartAll ?r1 = Some r2" "sys r2 = sys ?r1" "now r2 = now ?r1" "lcdGetMode (screen r2) = m"
    using start_all_effect [of ?r1] assms(3) by auto
  obtain r3 where r3: "systemLockAll r2 = Some r3" "wiring (sys r3) = robot_wires" "outputs (sys r3) = outputs (sys r2)"
    "now r3 = now r2" "screen r3 = screen r2" using lock_all_effect [of r2] s1 r2(2) system_lock_all [of r2] by auto
  have ok3: "outputs_ok (sys r3)" using s1(1) r3(3) r2(2) by (simp add: outputs_ok_def)
  have b3: "unat (now r3) + mode_time m + mode_steps m * (25 + slack) < 2 ^ 32"
    using le_less_trans [OF add_le_mono1 [OF add_le_mono1 [OF t1(2)]] assms(6)] r3(4) r2(3) by simp
  obtain routine where a: "autonomousMode sleep m = Some routine" "ends (mode_time m) (mode_steps m) (final_command m) routine"
    using mode_ends [OF assms(4,5)] by blast
  obtain r4 where r4: "routine r3 = Some r4" "\<forall>i\<in>{0..8}. cmd_of (sys r4) i = final_command m i"
    "unat (now r3) + mode_time m \<le> unat (now r4)" "unat (now r4) \<le> unat (now r3) + mode_time m + mode_steps m * (25 + slack)"
    using a(2) ok3 r3(2) b3 unfolding ends_def by blast
  obtain r5 where r5: "systemLockAll r4 = Some r5" "outputs (sys r5) = outputs (sys r4)" "now r5 = now r4"
    using lock_all_effect [of r4] by blast
  have "vexAutonomous sleep r = Some r5"
    using r2 r3(1,5) a(1) r4(1) r5(1) by (simp add: vexAutonomous_def)
  moreover have "\<forall>i\<in>{0..8}. cmd_of (sys r5) i = final_command m i" using r4(2) r5(2) by (simp add: cmd_of_def)
  ultimately show ?thesis using r4(3,4) r5(3) r3(4) r2(3) t1 by auto
qed

end

section \<open>The robot's own sleep\<close>

text \<open>In a sleep of the routine every other thread runs a round and the time asked for passes.\<close>

definition robot_sleep :: "(pad \<Rightarrow> bool) \<Rightarrow> spi_state \<Rightarrow> nat \<Rightarrow> 'h robot \<Rightarrow> 'h robot" where
  "robot_sleep level js ms r =
     (let r = r\<lparr>now := now r + word_of_nat ms\<rparr>
      in case robot_round level js (sys r) of None \<Rightarrow> r | Some s \<Rightarrow> r\<lparr>sys := s\<rparr>)"

lemma slew_motor_frame:
  "map motor_cmd (sMotors (fst (slew_motor i st))) = map motor_cmd (sMotors (fst st)) \<and>
   length (vexMotors (snd (slew_motor i st))) = length (vexMotors (snd st))"
proof -
  have same: "map motor_cmd (xs[k := (xs ! k)\<lparr>motor_req := v\<rparr>]) = map motor_cmd xs" for xs :: "smartMotor list" and k v
    by (cases "k < length xs") (simp_all add: map_update list_update_same_conv list_update_beyond)
  show ?thesis by (cases st) (simp add: slew_motor_def Let_def sm_update_def same vexMotorSet_def motor_update_def)
qed

lemma slew_round_frame:
  "map motor_cmd (sMotors (fst (SlewRateTask_round st))) = map motor_cmd (sMotors (fst st)) \<and>
   length (vexMotors (snd (SlewRateTask_round st))) = length (vexMotors (snd st))"
proof -
  have "map motor_cmd (sMotors (fst (fold slew_motor is st))) = map motor_cmd (sMotors (fst st)) \<and>
     length (vexMotors (snd (fold slew_motor is st))) = length (vexMotors (snd st))" for "is" and st
    by (induction "is" arbitrary: st) (simp_all add: slew_motor_frame)
  then show ?thesis by (simp add: SlewRateTask_round_def)
qed

lemma slew_outputs:
  assumes "outputs_ok r"
  shows "outputs_ok (r\<lparr>outputs := SlewRateTask_round (outputs r)\<rparr>)" "commands Map.empty r (r\<lparr>outputs := SlewRateTask_round (outputs r)\<rparr>)"
proof -
  let ?o = "SlewRateTask_round (outputs r)"
  have m: "map motor_cmd (sMotors (fst ?o)) = map motor_cmd (sMotors (fst (outputs r)))" "length (vexMotors (snd ?o)) = length (vexMotors (snd (outputs r)))"
    using slew_round_frame by blast+
  then have l: "length (sMotors (fst ?o)) = length (sMotors (fst (outputs r)))" by (metis length_map)
  show "outputs_ok (r\<lparr>outputs := ?o\<rparr>)" using assms l m(2) by (simp add: outputs_ok_def)
  have "motor_cmd (sMotors (fst ?o) ! k) = motor_cmd (sMotors (fst (outputs r)) ! k)" if "k < 10" for k
    using m(1) l assms that by (metis nth_map outputs_ok_def)
  then show "commands Map.empty r (r\<lparr>outputs := ?o\<rparr>)" by (auto simp: commands_def cmd_of_def over_def nat_less_iff)
qed

lemma thread_frames: "outputs_ok (armThread js r) = outputs_ok r" "wiring (armThread js r) = wiring r"
  "outputs_ok (driveThread js r) = outputs_ok r" "wiring (driveThread js r) = wiring r"
  "outputs_ok (intakeThread js r) = outputs_ok r" "wiring (intakeThread js r) = wiring r"
  "outputs_ok (flipperThread js r) = outputs_ok r" "wiring (flipperThread js r) = wiring r"
  "outputs_ok (setterThread js r) = outputs_ok r" "wiring (setterThread js r) = wiring r"
  "liftThread level js r = Some r' \<Longrightarrow> outputs_ok r' = outputs_ok r \<and> wiring r' = wiring r"
  by (auto simp: armThread_def driveThread_def intakeThread_def flipperThread_def setterThread_def liftThread_def
      armMove_def driveMove_def intakeMove_def flipperMove_def setterMove_def liftMove_def wiring_def Let_def
      split: if_splits prod.splits Option.bind_splits)

lemma round_frame:
  assumes "robot_round level js r = Some r'" "outputs_ok r"
  shows "outputs_ok r' \<and> wiring r' = wiring r"
proof -
  let ?r = "flipperThread js (intakeThread js (driveThread js (armThread js r)))"
  obtain r1 where r1: "liftThread level js ?r = Some r1"
    "r' = (setterThread js r1)\<lparr>outputs := SlewRateTask_round (outputs (setterThread js r1))\<rparr>"
    using assms(1) by (auto simp: robot_round_def Let_def split: Option.bind_splits)
  have "outputs_ok (setterThread js r1)" "wiring (setterThread js r1) = wiring r"
    using thread_frames(11) [OF r1(1)] assms(2) by (simp_all add: thread_frames(1-10))
  then show ?thesis using slew_outputs(1) r1(2) by (simp add: wiring_def)
qed

interpretation turn: autonomous_period "robot_sleep level js" 0 for level js
proof
  fix ms :: nat and r :: "'a robot"
  show "\<exists>d\<ge>ms. d \<le> ms + 0 \<and> now (robot_sleep level js ms r) = now r + word_of_nat d"
    by (intro exI [of _ ms]) (simp add: robot_sleep_def Let_def split: option.split)
  show "timer_target (robot_sleep level js ms r) = timer_target r"
    by (simp add: robot_sleep_def Let_def split: option.split)
  show "outputs_ok (sys (robot_sleep level js ms r)) \<and> wiring (sys (robot_sleep level js ms r)) = wiring (sys r)" if "outputs_ok (sys r)"
    using that round_frame by (auto simp: robot_sleep_def Let_def split: option.split)
  show "good (wiring (sys r)) (sys (robot_sleep level js ms r)) \<and> commands Map.empty (sys r) (sys (robot_sleep level js ms r))"
    if "unlocked (sys r)" "outputs_ok (sys r)"
    using slew_outputs [OF that(2)] that(1)
    by (simp add: robot_sleep_def Let_def unlocked_round good_def unlocked_def wiring_def)
qed

section \<open>The autonomous period\<close>

text \<open>C29: The thread of the autonomous period returns for each of the ten modes: started on the robot as it is wired, with
  motors in order and a sleep that keeps time up to a slack, changes no wiring and, while no flag is on, lets nobody else command
  the motors, \<open>vexAutonomous\<close> returns between 500 ms plus the time of the chosen mode and that plus a timer tick and slack for
  each step (the clock not wrapping), and the nine motors are left with the commands of \<open>final_command\<close>: at rest in eight modes,
  but with the lift and the intake at 127 and the setter at -30 in modes 4 and 5.\<close>

theorem autonomous_period_ends:
  fixes sleep :: "nat \<Rightarrow> 'h robot \<Rightarrow> 'h robot"
  assumes "autonomous_period sleep slack" "outputs_ok (sys r)" "wiring (sys r) = robot_wires"
    "lcdGetMode (screen (sleep 500 (clear_screen r))) = m" "0 \<le> m" "m < 10"
    "unat (now r) + 500 + slack + mode_time m + mode_steps m * (25 + slack) < 2 ^ 32"
  shows "\<exists>r'. vexAutonomous sleep r = Some r' \<and> (\<forall>i\<in>{0..8}. cmd_of (sys r') i = final_command m i) \<and>
     unat (now r) + 500 + mode_time m \<le> unat (now r') \<and>
     unat (now r') \<le> unat (now r) + 500 + slack + mode_time m + mode_steps m * (25 + slack)"
  by (rule autonomous_period.period [OF assms])

definition robot_at_start :: "int \<Rightarrow> stm32 robot" where
  "robot_at_start m = \<lparr>sys = sample_subsystems, screen = set_mode m lcd_ready, now = 1000, running = [],
     timer_actual = 0, timer_target = 0\<rparr>"

lemma robot_at_start_ok: "outputs_ok (sys (robot_at_start m))" "wiring (sys (robot_at_start m)) = robot_wires"
  "unat (now (robot_at_start m)) = 1000" "lcdGetMode (screen (robot_sleep level js ms (clear_screen (robot_at_start m)))) = m"
  using sample_subsystems_ok(1)
  by (simp_all add: robot_at_start_def wiring_def robot_wires_def sample_subsystems_def driveSetup_def robot_sleep_def clear_screen_def
      lcdGetMode_def Let_def split: option.split)

lemma autonomous_period_ends_witness:
  "\<exists>r'. vexAutonomous (robot_sleep (\<lambda>_. False) stick_forward) (robot_at_start 4) = Some r' \<and>
     cmd_of (sys r') 5 = 127 \<and> cmd_of (sys r') 4 = - 30 \<and> cmd_of (sys r') 0 = 0 \<and> unat (now r') \<le> 12385"
proof -
  have t: "mode_time 4 = 10360" "mode_steps 4 = 21" by (simp_all add: mode_time_def mode_steps_def)
  have f: "final_command 4 5 = 127" "final_command 4 4 = - 30" "final_command 4 0 = 0" by (simp_all add: final_command_def)
  have m: "(5 :: int) \<in> {0..8}" "(4 :: int) \<in> {0..8}" "(0 :: int) \<in> {0..8}" by simp_all
  obtain r' where "vexAutonomous (robot_sleep (\<lambda>_. False) stick_forward) (robot_at_start 4) = Some r'"
    "\<forall>i\<in>{0..8}. cmd_of (sys r') i = final_command 4 i" "unat (now r') \<le> 12385"
    using autonomous_period_ends [OF turn.autonomous_period_axioms robot_at_start_ok(1,2,4), of 4 "\<lambda>_. False" stick_forward]
    by (auto simp: robot_at_start_ok(3) t)
  then show ?thesis using f m by metis
qed

text \<open>The mask of the flipper is not a bit of its own: stopping the flipper alone also stops the drive and the intake, and
  stopping the drive alone also stops the flipper. From a robot in order with no flag on, the two calls return with the commands of these motors zero and
  those of the arm, the lift and the setter unchanged.\<close>

theorem stop_masks_overlap:
  fixes sleep :: "nat \<Rightarrow> 'h robot \<Rightarrow> 'h robot"
  assumes "autonomous_period sleep slack" "good robot_wires (sys r)" "unat (now r) + unat T + 25 + slack < 2 ^ 32"
  shows "(\<exists>r'. stopMovementOf sleep ROBOT_FLIPPER T r = Some r' \<and> (\<forall>i\<in>set [0, 1, 3, 6, 7, 8]. cmd_of (sys r') i = 0) \<and>
            (\<forall>i\<in>set [2, 4, 5]. cmd_of (sys r') i = cmd_of (sys r) i)) \<and>
         (\<exists>r'. stopMovementDrive sleep T r = Some r' \<and> (\<forall>i\<in>set [0, 1, 3, 7, 8]. cmd_of (sys r') i = 0) \<and>
            (\<forall>i\<in>set [2, 4, 5, 6]. cmd_of (sys r') i = cmd_of (sys r) i))"
proof -
  have b: "unat (now r) + unat T + (25 + slack) < 2 ^ 32" using assms(3) by simp
  obtain r1 where r1: "stopMovementOf sleep ROBOT_FLIPPER T r = Some r1"
    "commands ((drive_map 0 0 ++ [6 \<mapsto> 0]) ++ [3 \<mapsto> 0]) (sys r) (sys r1)"
    using autonomous_period.stop_flipper [OF assms(1)] assms(2) b autonomous_period.timed_def [OF assms(1)] by blast
  obtain r2 where r2: "stopMovementOf sleep ROBOT_DRIVE T r = Some r2" "commands (drive_map 0 0 ++ [3 \<mapsto> 0]) (sys r) (sys r2)"
    using autonomous_period.stop_drive [OF assms(1)] assms(2) b autonomous_period.timed_def [OF assms(1)] by blast
  show ?thesis using r1 r2
    by (simp add: stopMovementDrive_def commands_def over_def drive_map_def map_add_def curve_0 del: One_nat_def)
qed

lemma stop_masks_overlap_witness:
  "\<exists>r'. stopMovementOf (robot_sleep (\<lambda>_. False) stick_forward) ROBOT_FLIPPER 50
      ((robot_at_start 0)\<lparr>sys := driveUnlock (command 6 127 True sample_subsystems)\<rparr>) = Some r' \<and> cmd_of (sys r') 6 = 0"
proof -
  let ?r = "(robot_at_start 0)\<lparr>sys := driveUnlock (command 6 127 True sample_subsystems)\<rparr>"
  have u: "unlocked (sys ?r)" "wiring (sys ?r) = robot_wires"
    by (simp_all add: unlocked_def wiring_def robot_wires_def sample_subsystems_def driveSetup_def driveUnlock_def)
  have "outputs_ok (command 6 127 True sample_subsystems)" using sample_subsystems_ok(1) by simp
  then have "outputs_ok (driveUnlock (command 6 127 True sample_subsystems))" by (simp add: driveUnlock_def outputs_ok_def)
  then have g: "good robot_wires (sys ?r)" using u by (simp add: good_def)
  have n: "unat (now ?r) + unat (50 :: u32) + 25 + 0 < 2 ^ 32" by (simp add: robot_at_start_def)
  have "(6 :: int) \<in> set [0, 1, 3, 6, 7, 8]" by simp
  then show ?thesis using stop_masks_overlap [OF turn.autonomous_period_axioms g n] by blast
qed

end
