(* ===== verification/VexUser.thy ===== *)
theory VexUser
  imports VexConfig_Properties Autonomous_Properties
begin

text \<open>
  The setup of this robot, \<open>src/src/vexuser.c\<close>: the configuration of its pins and motors, the wiring of its subsystems, and
  the start of the motor library. The motors and pins of the ports are those that the subsystems work with.
\<close>

section \<open>Configuration\<close>

definition kVexQuadEncoder_1 :: u16 where "kVexQuadEncoder_1 = 0"
definition kVexQuadEncoder_2 :: u16 where "kVexQuadEncoder_2 = 1"
definition VEX_LCD_DISPLAY_1 :: int where "VEX_LCD_DISPLAY_1 = 0"

definition digi :: "int \<Rightarrow> tVexSensorType \<Rightarrow> tVexDigitalConfig \<Rightarrow> u16 \<Rightarrow> vexDigiCfg" where
  "digi pin t c chan = \<lparr>cfg_pin = pin, cfg_type = t, cfg_cfg = c, cfg_chan = chan\<rparr>"

definition dConfig :: "vexDigiCfg list" where
  "dConfig = [
     digi 0 kVexSensorDigitalOutput kVexConfigOutput 0,
     digi 1 kVexSensorDigitalOutput kVexConfigOutput 0,
     digi 2 kVexSensorDigitalInput kVexConfigInput 0,
     digi 3 kVexSensorDigitalInput kVexConfigInput 0,
     digi 4 kVexSensorDigitalInput kVexConfigInput 0,
     digi 5 kVexSensorDigitalInput kVexConfigInput 0,
     digi 6 kVexSensorDigitalInput kVexConfigInput 0,
     digi 7 kVexSensorDigitalInput kVexConfigInput 0,
     digi 8 kVexSensorDigitalInput kVexConfigInput 0,
     digi 9 kVexSensorDigitalInput kVexConfigInput 0,
     digi 10 kVexSensorQuadEncoder kVexConfigQuadEnc1 kVexQuadEncoder_1,
     digi 11 kVexSensorQuadEncoder kVexConfigQuadEnc2 kVexQuadEncoder_2]"

definition motor_cfg :: "int \<Rightarrow> tVexMotorType \<Rightarrow> bool \<Rightarrow> vexMotorCfg" where
  "motor_cfg m t r = \<lparr>mcfg_port = m, mcfg_mtype = t, mcfg_reversed = r, mcfg_stype = kVexSensorNone, mcfg_channel = 0\<rparr>"

definition mConfig :: "vexMotorCfg list" where
  "mConfig = [
     motor_cfg 0 kVexMotor393T False,
     motor_cfg 1 kVexMotor393T True,
     motor_cfg 2 kVexMotor393T True,
     motor_cfg 3 kVexMotor393T True,
     motor_cfg 4 kVexMotor393S True,
     motor_cfg 5 kVexMotor393T False,
     motor_cfg 6 kVexMotor393R False,
     motor_cfg 7 kVexMotor393T True,
     motor_cfg 8 kVexMotor393T False,
     motor_cfg 9 kVexMotor393T False]"

section \<open>Setup\<close>

type_synonym ('w, 'h) user_state = "'w ports \<times> 'h robot"

definition on_ports :: "('w ports \<Rightarrow> 'w ports option) \<Rightarrow> ('w, 'h) user_state \<Rightarrow> ('w, 'h) user_state option" where
  "on_ports f s =
     (let (p, r) = s
      in map_option (\<lambda>p. (p, r\<lparr>sys := (sys r)\<lparr>outputs := (fst (outputs (sys r)), motors p), digital := dig p\<rparr>\<rparr>))
           (f (set_dig (digital (sys r)) (p\<lparr>motors := snd (outputs (sys r))\<rparr>))))"

definition vexUserSetup :: "'h flash_hw \<Rightarrow> ('w, 'h) user_state \<Rightarrow> ('w, 'h) user_state option" where
  "vexUserSetup fl s = do {
     s \<leftarrow> on_ports (vexDigitalConfigure (Some dConfig) (int (length dConfig))) s;
     s \<leftarrow> on_ports (vexMotorConfigure (Some mConfig) (int (length mConfig))) s;
     let (p, r) = s;
     let r = r\<lparr>screen := lcdSetup fl VEX_LCD_DISPLAY_1 (screen r)\<rparr>;
     Some (p, on_sys [armSetup 2, driveSetup 1 8 7 0, flipperSetup 3, intakeSetup 6, liftSetup 5 2, setterSetup 4] r)
   }"

definition SmartMotorRun :: "'h robot \<Rightarrow> 'h robot" where
  "SmartMotorRun r = start_thread ''SmartMotorSlewRateTask'' (start_thread ''SmartMotorTask'' r)"

definition on_smart :: "(smart_state \<Rightarrow> smart_state) \<Rightarrow> 'h robot \<Rightarrow> 'h robot" where
  "on_smart f r = r\<lparr>sys := (sys r)\<lparr>outputs := (f (fst (outputs (sys r))), snd (outputs (sys r)))\<rparr>\<rparr>"

definition vexUserInit :: "('w, 'h) user_state \<Rightarrow> ('w, 'h) user_state option" where
  "vexUserInit s = do {
     let (p, r) = s;
     sm \<leftarrow> SmartMotorsInit ports_env (snd (outputs (sys r))) p (fst (outputs (sys r)));
     let r = on_smart (\<lambda>_. sm) r;
     let r = on_smart SmartMotorCurrentMonitorEnable r;
     let r = on_smart (SmartMotorSetPowerExpanderStatusPort 0) r;
     let r = on_smart (SmartMotorsAddPowerExtender 5 6 7 8) r;
     r \<leftarrow> systemInitAll r;
     Some (p, SmartMotorRun r)
   }"

text \<open>The initialisation of the port drivers around the setup, from the encoders on.\<close>

definition init_ports :: "'w i2c_lld \<Rightarrow> 'h flash_hw \<Rightarrow> ('w, 'h) user_state \<Rightarrow> ('w, 'h) user_state option" where
  "init_ports lld fl s = do {
     s \<leftarrow> on_ports (\<lambda>p. Some (p\<lparr>vexQuadEncoders := vexEncoderInit (vexQuadEncoders p), vexImes := vexImeInit lld (vexImes p)\<rparr>)) s;
     s \<leftarrow> vexUserSetup fl s;
     on_ports (\<lambda>p. do {
       calls \<leftarrow> vexEncoderStartAll (vexQuadEncoders p);
       d \<leftarrow> run_calls calls (dig p);
       let p = set_dig d p;
       so \<leftarrow> vexSonarStartAll (sonars p);
       let p = p\<lparr>sonars := vexSonarRun so\<rparr>;
       Some (set_dig (vexDigitalIntrRun (dig p)) p)
     }) s
   }"

section \<open>The motors\<close>

definition mtypes :: "tVexMotorType list" where
  "mtypes = map mcfg_mtype mConfig"

lemma motors_configured:
  assumes "length (vexMotors (motors p)) = 10"
  shows "\<exists>q. vexMotorConfigure (Some mConfig) (int (length mConfig)) p = Some q \<and> length (vexMotors (motors q)) = 10 \<and>
    map motor_type (vexMotors (motors q)) = mtypes \<and> map reversed (vexMotors (motors q)) = map mcfg_reversed mConfig \<and>
    map getEncoderId (vexMotors (motors q)) = map getEncoderId (vexMotors (motors p)) \<and>
    q = p\<lparr>motors := motors q\<rparr>"
proof -
  have "length (vexMotors (motors p)) = Suc (Suc (Suc (Suc (Suc (Suc (Suc (Suc (Suc (Suc 0)))))))))" using assms by simp
  then obtain m0 m1 m2 m3 m4 m5 m6 m7 m8 m9 where m: "vexMotors (motors p) = [m0, m1, m2, m3, m4, m5, m6, m7, m8, m9]"
    unfolding length_Suc_conv by auto
  show ?thesis
    by (simp add: vexMotorConfigure_def mConfig_def motor_cfg_def configure_motor_def vexMotorDirectionSet_def vexMotorTypeSet_def
        motor_update_def motor_index_defs m mtypes_def)
qed

section \<open>The motor library at the start\<close>

text \<open>What initialisation leaves in the entry of a motor without an encoder.\<close>

definition started :: "motor_state \<Rightarrow> int \<Rightarrow> smartMotor \<Rightarrow> bool" where
  "started ms i m \<longleftrightarrow> sm_port m = i \<and> sm_type m = vexMotorTypeGet i ms \<and> bank m = Some (bank_of i)"

lemma motor_constants_keeps: "sm_encoder_id (motor_constants m) = sm_encoder_id m" "sm_port (motor_constants m) = sm_port m"
  "sm_type (motor_constants m) = sm_type m"
  by (cases "sm_type m"; simp add: motor_constants_def)+

lemma init_motor_ok:
  assumes "length (sMotors s) = 10" "0 \<le> i" "i < 10" "sm_encoder_id (sMotors s ! nat i) < 0"
  shows "\<exists>s'. init_motor env ms w i s = Some s' \<and> length (sMotors s') = 10 \<and> started ms i (sMotors s' ! nat i) \<and>
    (\<forall>j. j \<noteq> nat i \<longrightarrow> sMotors s' ! j = sMotors s ! j)"
  using assms
  by (auto simp: init_motor_def motor_encoder_def motor_constants_keeps sm_update_def controller_update_def started_def Let_def nat_less_iff)

lemma init_motors_ok:
  "length (sMotors s) = 10 \<Longrightarrow> \<forall>i\<in>set is. 0 \<le> i \<and> i < 10 \<and> sm_encoder_id (sMotors s ! nat i) < 0 \<Longrightarrow> distinct is \<Longrightarrow>
    \<exists>s'. init_motors env ms w is s = Some s' \<and> length (sMotors s') = 10 \<and> (\<forall>i\<in>set is. started ms i (sMotors s' ! nat i)) \<and>
      (\<forall>j. int j \<notin> set is \<longrightarrow> sMotors s' ! j = sMotors s ! j)"
proof (induction "is" arbitrary: s)
  case Nil
  then show ?case by simp
next
  case (Cons i "is")
  obtain t where t: "init_motor env ms w i s = Some t" "length (sMotors t) = 10" "started ms i (sMotors t ! nat i)"
    "\<And>j. j \<noteq> nat i \<Longrightarrow> sMotors t ! j = sMotors s ! j"
    using init_motor_ok [OF Cons.prems(1), of i env ms w] Cons.prems(2) by auto
  have i: "0 \<le> i" "i \<notin> set is" using Cons.prems(2,3) by auto
  have "sm_encoder_id (sMotors t ! nat k) < 0" if "k \<in> set is" for k
    using that Cons.prems(2) i t(4) [of "nat k"] by (cases "nat k = nat i") (auto simp: eq_nat_nat_iff)
  then obtain u where u: "init_motors env ms w is t = Some u" "length (sMotors u) = 10" "\<forall>i\<in>set is. started ms i (sMotors u ! nat i)"
    "\<And>j. int j \<notin> set is \<Longrightarrow> sMotors u ! j = sMotors t ! j"
    using Cons.IH [OF t(2)] Cons.prems(2,3) by auto
  have "sMotors u ! nat i = sMotors t ! nat i" using u(4) [of "nat i"] i by simp
  moreover have "sMotors u ! j = sMotors s ! j" if "int j \<noteq> i" "int j \<notin> set is" for j
    using u(4) [OF that(2)] t(4) [of j] that(1) i(1) by auto
  ultimately show ?case using t(1,3) u(1-3) by auto
qed

text \<open>With no callback set, no motor has an encoder.\<close>

lemma encoder_ids:
  fixes env :: "'w position_env" and w :: 'w
  assumes "length (sMotors s) = 10" "list_all (\<lambda>m. getEncoderId m = None) (vexMotors ms)" "length (vexMotors ms) = 10"
    and "\<forall>i\<in>set is. 0 \<le> i \<and> i < 10"
  defines "t \<equiv> fold (\<lambda>i. sm_update i (\<lambda>m. m\<lparr>sm_encoder_id := i16 (vexMotorEncoderIdGet env i ms w)\<rparr>)) is s"
  shows "length (sMotors t) = 10 \<and> (\<forall>i\<in>set is. sm_encoder_id (sMotors t ! nat i) < 0)"
proof -
  have id: "vexMotorEncoderIdGet env i ms w = - 1" if "0 \<le> i" "i < 10" for i
    using that assms(2,3) by (auto simp: vexMotorEncoderIdGet_def motor_index_defs list_all_length nat_less_iff)
  have neg: "i16 (- 1) = - 1" by (rule i16_id) simp_all
  have "length (sMotors t) = 10 \<and> (\<forall>i. 0 \<le> i \<longrightarrow> i < 10 \<longrightarrow> i \<in> set is \<or> sm_encoder_id (sMotors s ! nat i) < 0 \<longrightarrow> sm_encoder_id (sMotors t ! nat i) < 0)"
    using assms(1,4) unfolding t_def
  proof (induction "is" arbitrary: s)
    case Nil
    then show ?case by simp
  next
    case (Cons i "is")
    let ?s = "sm_update i (\<lambda>m. m\<lparr>sm_encoder_id := i16 (vexMotorEncoderIdGet env i ms w)\<rparr>) s"
    have i: "0 \<le> i" "i < 10" and rest: "\<forall>i\<in>set is. 0 \<le> i \<and> i < 10" using Cons.prems by auto
    have s: "length (sMotors ?s) = 10" "sm_encoder_id (sMotors ?s ! nat i) < 0" "\<And>j. j \<noteq> nat i \<Longrightarrow> sMotors ?s ! j = sMotors s ! j"
      using Cons.prems(1) i id neg by (simp_all add: sm_update_def nat_less_iff)
    have old: "sm_encoder_id (sMotors ?s ! nat j) < 0" if "sm_encoder_id (sMotors s ! nat j) < 0" for j
      using that s(2) s(3) [of "nat j"] by (cases "nat j = nat i") auto
    from Cons.IH [OF s(1) rest] show ?case using s(2) old by auto
  qed
  then show ?thesis using assms(4) by auto
qed

lemma smart_motors_init:
  assumes "length (sMotors s) = 10" "list_all (\<lambda>m. getEncoderId m = None) (vexMotors ms)" "length (vexMotors ms) = 10"
  shows "\<exists>s'. SmartMotorsInit env ms w s = Some s' \<and> length (sMotors s') = 10 \<and> (\<forall>i. 0 \<le> i \<and> i < 10 \<longrightarrow> started ms i (sMotors s' ! nat i))"
proof -
  let ?s = "s\<lparr>sPorts := map clear_bank (sPorts s)\<rparr>"
  let ?t = "fold (\<lambda>i. sm_update i (\<lambda>m. m\<lparr>sm_encoder_id := i16 (vexMotorEncoderIdGet env i ms w)\<rparr>)) [0..9] ?s"
  have t: "length (sMotors ?t) = 10" "\<forall>i\<in>set [0..9]. sm_encoder_id (sMotors ?t ! nat i) < 0"
    using encoder_ids [of ?s ms "[0..9]" env w] assms by simp_all
  have "\<exists>s'. init_motors env ms w [0..9] ?t = Some s' \<and> length (sMotors s') = 10 \<and> (\<forall>i\<in>set [0..9]. started ms i (sMotors s' ! nat i)) \<and>
      (\<forall>j. int j \<notin> set [0..9] \<longrightarrow> sMotors s' ! j = sMotors ?t ! j)"
    by (rule init_motors_ok) (use t in auto)
  then show ?thesis by (auto simp: SmartMotorsInit_def kVexMotorNum_def Let_def)
qed

text \<open>The power expander takes the motors of its ports.\<close>

lemma extender_step_motors:
  assumes "extender_step ps i (k, s) = (k', s')" "length (sMotors s) = 10" "0 \<le> i" "i < 10"
    and "sm_type (sMotors s ! nat i) \<noteq> kVexMotorUndefined" "sm_port (sMotors s ! nat i) = i" "set ps \<subseteq> {1..8}"
  shows "sMotors s' = (if i \<in> set ps then (sMotors s)[nat i := (sMotors s ! nat i)\<lparr>bank := Some SMLIB_PWREXP_PORT_0\<rparr>] else sMotors s)"
  using assms by (auto simp: extender_step_def sm_update_def controller_update_def motor_index_defs Let_def split: if_splits)

lemma extender_fold:
  "length (sMotors s) = 10 \<Longrightarrow> set ps \<subseteq> {1..8} \<Longrightarrow> distinct is \<Longrightarrow>
   \<forall>i\<in>set is. 0 \<le> i \<and> i < 10 \<and> sm_type (sMotors s ! nat i) \<noteq> kVexMotorUndefined \<and> sm_port (sMotors s ! nat i) = i \<Longrightarrow>
   fold (extender_step ps) is (k, s) = (k', s') \<Longrightarrow>
   length (sMotors s') = 10 \<and>
   (\<forall>i. 0 \<le> i \<longrightarrow> i < 10 \<longrightarrow> sMotors s' ! nat i = (if i \<in> set is \<inter> set ps then (sMotors s ! nat i)\<lparr>bank := Some SMLIB_PWREXP_PORT_0\<rparr> else sMotors s ! nat i))"
proof (induction "is" arbitrary: s k)
  case Nil
  then show ?case by simp
next
  case (Cons i "is")
  obtain k1 s1 where e: "extender_step ps i (k, s) = (k1, s1)" by force
  have i: "0 \<le> i" "i < 10" "sm_type (sMotors s ! nat i) \<noteq> kVexMotorUndefined" "sm_port (sMotors s ! nat i) = i" "i \<notin> set is"
    using Cons.prems(3,4) by auto
  have s1: "sMotors s1 = (if i \<in> set ps then (sMotors s)[nat i := (sMotors s ! nat i)\<lparr>bank := Some SMLIB_PWREXP_PORT_0\<rparr>] else sMotors s)"
    by (rule extender_step_motors [OF e Cons.prems(1) i(1-4) Cons.prems(2)])
  have other: "sMotors s1 ! nat j = sMotors s ! nat j" if "0 \<le> j" "j \<noteq> i" for j
    using that i(1) unfolding s1 by (simp add: eq_nat_nat_iff)
  have self: "sMotors s1 ! nat i = (if i \<in> set ps then (sMotors s ! nat i)\<lparr>bank := Some SMLIB_PWREXP_PORT_0\<rparr> else sMotors s ! nat i)"
    using i(1,2) Cons.prems(1) unfolding s1 by (simp add: nat_less_iff)
  have l: "length (sMotors s1) = 10" using Cons.prems(1) unfolding s1 by simp
  have p: "\<forall>i\<in>set is. 0 \<le> i \<and> i < 10 \<and> sm_type (sMotors s1 ! nat i) \<noteq> kVexMotorUndefined \<and> sm_port (sMotors s1 ! nat i) = i"
    using Cons.prems(4) i(5) other by (metis list.set_intros(2))
  have f: "fold (extender_step ps) is (k1, s1) = (k', s')" using Cons.prems(5) e by simp
  have "distinct is" using Cons.prems(3) by simp
  note ih = Cons.IH [OF l Cons.prems(2) this p f]
  have "sMotors s' ! nat j = (if j \<in> set (i # is) \<inter> set ps then (sMotors s ! nat j)\<lparr>bank := Some SMLIB_PWREXP_PORT_0\<rparr> else sMotors s ! nat j)"
    if "0 \<le> j" "j < 10" for j
    using ih that self other [OF that(1)] i(5) by (cases "j = i") simp_all
  then show ?case using ih by blast
qed

lemma power_expander:
  assumes "length (sMotors s) = 10" "\<forall>i. 0 \<le> i \<and> i < 10 \<longrightarrow> started ms i (sMotors s ! nat i) \<and> vexMotorTypeGet i ms \<noteq> kVexMotorUndefined"
  shows "length (sMotors (SmartMotorsAddPowerExtender 5 6 7 8 s)) = 10 \<and> (\<forall>i. 0 \<le> i \<and> i < 10 \<longrightarrow>
    bank (sMotors (SmartMotorsAddPowerExtender 5 6 7 8 s) ! nat i) = Some (if 5 \<le> i \<and> i \<le> 8 then SMLIB_PWREXP_PORT_0 else bank_of i) \<and>
    sm_type (sMotors (SmartMotorsAddPowerExtender 5 6 7 8 s) ! nat i) = vexMotorTypeGet i ms)"
proof -
  obtain k' s' where f: "fold (extender_step [5, 6, 7, 8]) [0..9] (0, s) = (k', s')" by force
  have d: "\<forall>i\<in>set [0..9]. 0 \<le> i \<and> i < 10 \<and> sm_type (sMotors s ! nat i) \<noteq> kVexMotorUndefined \<and> sm_port (sMotors s ! nat i) = i"
    using assms(2) by (auto simp: started_def)
  have p: "set [5, 6, 7, 8 :: int] \<subseteq> {1..8}" by simp
  have e: "length (sMotors s') = 10 \<and> (\<forall>i. 0 \<le> i \<longrightarrow> i < 10 \<longrightarrow> sMotors s' ! nat i =
      (if i \<in> set [0..9] \<inter> set [5, 6, 7, 8] then (sMotors s ! nat i)\<lparr>bank := Some SMLIB_PWREXP_PORT_0\<rparr> else sMotors s ! nat i))"
    by (rule extender_fold [OF assms(1) p _ d f]) simp
  have m: "i \<in> set [0..9] \<inter> set [5, 6, 7, 8] \<longleftrightarrow> 5 \<le> i \<and> i \<le> 8" for i :: int by auto
  have "SmartMotorsAddPowerExtender 5 6 7 8 s = s'" using f by (simp add: SmartMotorsAddPowerExtender_def kVexMotorNum_def)
  then show ?thesis using e assms(2) unfolding m by (auto simp: started_def)
qed

section \<open>The state after the setup\<close>

lemma dConfig_sound: "sound_config dConfig"
proof -
  have "list_all (\<lambda>e. 0 \<le> cfg_pin e \<and> cfg_pin e < 12) dConfig" "distinct (map cfg_pin dConfig)" by code_simp+
  then show ?thesis by (simp add: sound_config_def pins_ok_def list_all_iff)
qed

text \<open>The two encoder pins are on different channels.\<close>

lemma dConfig_unpaired: "paired kVexConfigQuadEnc1 kVexConfigQuadEnc2 dConfig = {}" "paired kVexConfigSonarOut kVexConfigSonarIn dConfig = {}"
proof -
  have "\<forall>e\<in>set dConfig. \<forall>e2\<in>set dConfig. \<not> (cfg_cfg e = kVexConfigQuadEnc1 \<and> cfg_cfg e2 = kVexConfigQuadEnc2 \<and> cfg_chan e2 = cfg_chan e)"
    "\<forall>e\<in>set dConfig. cfg_cfg e \<noteq> kVexConfigSonarOut" by code_simp+
  then show "paired kVexConfigQuadEnc1 kVexConfigQuadEnc2 dConfig = {}" "paired kVexConfigSonarOut kVexConfigSonarIn dConfig = {}"
    by (auto simp: paired_def has_partner_def)
qed

lemma dConfig_effects: "map (\<lambda>e. (cfg_pin e, pin_effect dConfig e)) dConfig =
  [(0, Some PAL_MODE_OUTPUT_PUSHPULL), (1, Some PAL_MODE_OUTPUT_PUSHPULL), (2, Some PAL_MODE_INPUT_PULLUP), (3, Some PAL_MODE_INPUT_PULLUP),
   (4, Some PAL_MODE_INPUT_PULLUP), (5, Some PAL_MODE_INPUT_PULLUP), (6, Some PAL_MODE_INPUT_PULLUP), (7, Some PAL_MODE_INPUT_PULLUP),
   (8, Some PAL_MODE_INPUT_PULLUP), (9, Some PAL_MODE_INPUT_PULLUP), (10, None), (11, None)]"
  by code_simp

text \<open>What is known before the setup.\<close>

definition before_setup :: "('w, 'h) user_state \<Rightarrow> bool" where
  "before_setup s \<longleftrightarrow> dig_ok (digital (sys (snd s))) \<and> length (vexDefConfig (fst s)) = 12 \<and> length (vexQuadEncoders (fst s)) = 5 \<and>
     length (vexSonars (sonars (fst s))) = 5 \<and> outputs_ok (sys (snd s)) \<and>
     list_all (\<lambda>m. getEncoderId m = None) (vexMotors (snd (outputs (sys (snd s)))))"

definition pin_mode :: "('w, 'h) user_state \<Rightarrow> int \<Rightarrow> iomode_t option" where
  "pin_mode s pin = pad_mode (digital (sys (snd s))) (pad_of pin)"

lemma user_setup_effect:
  assumes "before_setup s"
  shows "\<exists>t. vexUserSetup fl s = Some t \<and> outputs_ok (sys (snd t)) \<and> wiring (sys (snd t)) = robot_wires \<and> lift_limit (lift (sys (snd t))) = 2 \<and>
    map motor_type (vexMotors (snd (outputs (sys (snd t))))) = mtypes \<and>
    map reversed (vexMotors (snd (outputs (sys (snd t))))) = map mcfg_reversed mConfig \<and>
    list_all (\<lambda>m. getEncoderId m = None) (vexMotors (snd (outputs (sys (snd t))))) \<and>
    (\<forall>e\<in>set dConfig. pin_mode t (cfg_pin e) = (case pin_effect dConfig e of Some m \<Rightarrow> Some m | None \<Rightarrow> pin_mode s (cfg_pin e))) \<and>
    enc_installed (fst t) = enc_installed (fst s) \<and> sonar_installed (fst t) = sonar_installed (fst s) \<and>
    userp (screen (snd t)) = PARAMS \<and> running (snd t) = running (snd s)"
proof -
  obtain p r where s: "s = (p, r)" by (cases s)
  let ?p = "set_dig (digital (sys r)) (p\<lparr>motors := snd (outputs (sys r))\<rparr>)"
  have inst: "enc_installed ?p = enc_installed p" "sonar_installed ?p = sonar_installed p"
    by (simp_all add: set_dig_def enc_installed_def sonar_installed_def)
  have "ports_ok ?p" using assms by (auto simp: ports_ok_def before_setup_def s set_dig_def)
  then obtain q where q: "vexDigitalConfigure (Some dConfig) (int (length dConfig)) ?p = Some q" "ports_ok q"
    "\<forall>e\<in>set dConfig. saved e (vexDefConfig q) \<and> pad_mode (dig q) (pad_of (cfg_pin e)) =
       (case pin_effect dConfig e of Some m \<Rightarrow> Some m | None \<Rightarrow> pad_mode (dig ?p) (pad_of (cfg_pin e)))"
    "enc_installed q = enc_installed ?p" "sonar_installed q = sonar_installed ?p" "motors q = snd (outputs (sys r))"
    using configure_effect [OF _ dConfig_sound, of ?p] unfolding dConfig_unpaired by auto
  let ?q = "set_dig (dig q) (q\<lparr>motors := motors q\<rparr>)"
  have "length (vexMotors (motors ?q)) = 10" using assms q(6) by (simp add: before_setup_def s outputs_ok_def)
  then obtain u where u: "vexMotorConfigure (Some mConfig) (int (length mConfig)) ?q = Some u" "length (vexMotors (motors u)) = 10"
    "map motor_type (vexMotors (motors u)) = mtypes" "map reversed (vexMotors (motors u)) = map mcfg_reversed mConfig"
    "map getEncoderId (vexMotors (motors u)) = map getEncoderId (vexMotors (motors ?q))" "u = ?q\<lparr>motors := motors u\<rparr>"
    using motors_configured by blast
  have ids: "list_all (\<lambda>m. getEncoderId m = None) (vexMotors (motors u))"
  proof -
    have "list_all (\<lambda>x. x = None) (map getEncoderId (vexMotors (motors u)))"
      unfolding u(5) using assms q(6) by (simp add: before_setup_def s list.pred_map comp_def)
    then show ?thesis by (simp add: list.pred_map comp_def)
  qed
  have fr: "dig u = dig q" "enc_installed u = enc_installed q" "sonar_installed u = sonar_installed q"
    by (subst u(6), simp add: set_dig_def enc_installed_def sonar_installed_def)+
  have dq: "dig ?p = digital (sys r)" by simp
  let ?sys = "(sys r)\<lparr>outputs := (fst (outputs (sys r)), motors u), digital := dig q\<rparr>"
  have "vexUserSetup fl (p, r) = Some (u, on_sys [armSetup 2, driveSetup 1 8 7 0, flipperSetup 3, intakeSetup 6, liftSetup 5 2, setterSetup 4]
      (r\<lparr>sys := ?sys, screen := lcdSetup fl VEX_LCD_DISPLAY_1 (screen r)\<rparr>))"
    using q(1) u(1) fr(1) by (simp add: vexUserSetup_def on_ports_def Let_def)
  moreover have "userp (lcdSetup fl VEX_LCD_DISPLAY_1 (screen r)) = PARAMS"
    by (simp add: lcdSetup_def vexFlashUserParamRead_def Let_def)
  ultimately show ?thesis
    using assms u(2-4) ids q(3-5) fr inst
    unfolding s dq by (auto simp: on_sys_def armSetup_def driveSetup_def flipperSetup_def intakeSetup_def liftSetup_def setterSetup_def
      wiring_def robot_wires_def outputs_ok_def before_setup_def pin_mode_def split: option.split)
qed

text \<open>Initialising the systems reads the mode from flash; the subsystems themselves stay.\<close>

lemma systems_init:
  assumes "userp (screen r) = PARAMS"
  shows "\<exists>c. systemInitAll r = Some (r\<lparr>screen := c\<rparr>) \<and> 0 \<le> lcdGetMode c \<and> lcdGetMode c < 10"
proof -
  have "\<exists>c. lcdInit (screen r) = Some c \<and> 0 \<le> lcdGetMode c \<and> lcdGetMode c < 10"
    using assms by (simp add: lcdInit_def lcdGetMode_def Let_def kLcdMode0_def kLcdModeNumber_def del: One_nat_def)
  then obtain c where c: "lcdInit (screen r) = Some c" "0 \<le> lcdGetMode c" "lcdGetMode c < 10" by blast
  have "systemInitAll r = Some (r\<lparr>screen := c\<rparr>)"
    using c(1) by (simp add: systemInitAll_def table_simps screen_init_def armInit_def driveInit_def flipperInit_def intakeInit_def
        liftInit_def setterInit_def)
  then show ?thesis using c(2,3) by blast
qed

text \<open>C39: The setup prepares the robot: from the state at reset, the setup and the initialisation by the user code succeed;
  then the wiring is the one the autonomous routines rely on, the mode is one of the ten, every motor has its type and
  direction, the motors of ports 6 to 9 are on the power expander, the pin of the lift's switch is an input and two pins are
  outputs. The encoder of pins 11 and 12 is not installed and the two pins keep the mode they had at reset.\<close>

theorem setup_prepares_robot:
  assumes "before_setup s"
  shows "\<exists>t u. vexUserSetup fl s = Some t \<and> vexUserInit t = Some u \<and>
    outputs_ok (sys (snd u)) \<and> wiring (sys (snd u)) = robot_wires \<and> 0 \<le> lcdGetMode (screen (snd u)) \<and> lcdGetMode (screen (snd u)) < 10 \<and>
    map motor_type (vexMotors (snd (outputs (sys (snd u))))) = map mcfg_mtype mConfig \<and>
    map reversed (vexMotors (snd (outputs (sys (snd u))))) = map mcfg_reversed mConfig \<and>
    (\<forall>i. 0 \<le> i \<and> i < 10 \<longrightarrow> bank (sMotors (fst (outputs (sys (snd u)))) ! nat i) =
       Some (if 5 \<le> i \<and> i \<le> 8 then SMLIB_PWREXP_PORT_0 else bank_of i)) \<and>
    pin_mode u (lift_limit (lift (sys (snd u)))) = Some PAL_MODE_INPUT_PULLUP \<and>
    pin_mode u 0 = Some PAL_MODE_OUTPUT_PUSHPULL \<and> pin_mode u 1 = Some PAL_MODE_OUTPUT_PUSHPULL \<and>
    enc_installed (fst u) = enc_installed (fst s) \<and> pin_mode u 10 = pin_mode s 10 \<and> pin_mode u 11 = pin_mode s 11 \<and>
    running (snd u) = running (snd s) @ [''SmartMotorTask'', ''SmartMotorSlewRateTask'']"
proof -
  obtain t where t: "vexUserSetup fl s = Some t" "outputs_ok (sys (snd t))" "wiring (sys (snd t)) = robot_wires"
    "lift_limit (lift (sys (snd t))) = 2" "map motor_type (vexMotors (snd (outputs (sys (snd t))))) = mtypes"
    "map reversed (vexMotors (snd (outputs (sys (snd t))))) = map mcfg_reversed mConfig"
    "list_all (\<lambda>m. getEncoderId m = None) (vexMotors (snd (outputs (sys (snd t)))))"
    "\<forall>e\<in>set dConfig. pin_mode t (cfg_pin e) = (case pin_effect dConfig e of Some m \<Rightarrow> Some m | None \<Rightarrow> pin_mode s (cfg_pin e))"
    "enc_installed (fst t) = enc_installed (fst s)" "userp (screen (snd t)) = PARAMS" "running (snd t) = running (snd s)"
    using user_setup_effect [OF assms] by blast
  obtain p r where pr: "t = (p, r)" by (cases t)
  let ?ms = "snd (outputs (sys r))"
  obtain sm where sm: "SmartMotorsInit ports_env ?ms p (fst (outputs (sys r))) = Some sm" "length (sMotors sm) = 10"
    "\<forall>i. 0 \<le> i \<and> i < 10 \<longrightarrow> started ?ms i (sMotors sm ! nat i)"
    using smart_motors_init [of "fst (outputs (sys r))" ?ms ports_env p] t(2,7) by (auto simp: pr outputs_ok_def)
  define sm2 where "sm2 = SmartMotorSetPowerExpanderStatusPort 0 (SmartMotorCurrentMonitorEnable sm)"
  have sm2: "sMotors sm2 = sMotors sm"
    by (simp add: sm2_def SmartMotorSetPowerExpanderStatusPort_def SmartMotorCurrentMonitorEnable_def controller_update_def)
  have types: "vexMotorTypeGet i ?ms \<noteq> kVexMotorUndefined" if "0 \<le> i" "i < 10" for i
  proof -
    have "list_all (\<lambda>x. x \<noteq> kVexMotorUndefined) mtypes" by code_simp
    then have "list_all (\<lambda>m. motor_type m \<noteq> kVexMotorUndefined) (vexMotors ?ms)"
      using t(5) by (metis (no_types, lifting) list.pred_map comp_apply list.pred_mono_strong pr snd_conv)
    then show ?thesis using that t(2) by (auto simp: vexMotorTypeGet_def motor_index_defs list_all_length outputs_ok_def pr nat_less_iff)
  qed
  define sm3 where "sm3 = SmartMotorsAddPowerExtender 5 6 7 8 sm2"
  have sm3: "length (sMotors sm3) = 10" "\<forall>i. 0 \<le> i \<and> i < 10 \<longrightarrow>
      bank (sMotors sm3 ! nat i) = Some (if 5 \<le> i \<and> i \<le> 8 then SMLIB_PWREXP_PORT_0 else bank_of i)"
    using power_expander [of sm2 ?ms] sm(2,3) types unfolding sm2 sm3_def by auto
  let ?r = "r\<lparr>sys := (sys r)\<lparr>outputs := (sm3, ?ms)\<rparr>\<rparr>"
  obtain c where c: "systemInitAll ?r = Some (?r\<lparr>screen := c\<rparr>)" "0 \<le> lcdGetMode c" "lcdGetMode c < 10"
    using systems_init [of ?r] t(10) by (auto simp: pr)
  have u: "vexUserInit t = Some (p, SmartMotorRun (?r\<lparr>screen := c\<rparr>))"
    using sm(1) c(1) by (simp add: vexUserInit_def on_smart_def pr sm2_def sm3_def)
  have modes: "pin_mode t 0 = Some PAL_MODE_OUTPUT_PUSHPULL" "pin_mode t 1 = Some PAL_MODE_OUTPUT_PUSHPULL"
    "pin_mode t 2 = Some PAL_MODE_INPUT_PULLUP" "pin_mode t 10 = pin_mode s 10" "pin_mode t 11 = pin_mode s 11"
    using t(8) dConfig_effects by (simp_all add: dConfig_def digi_def)
  show ?thesis
    using t(1-6,9,11) u sm3 c(2,3) modes
    by (auto simp: pr SmartMotorRun_def start_thread_def outputs_ok_def wiring_def pin_mode_def mtypes_def)
qed

section \<open>Reset\<close>

definition robot_reset :: "stm32 robot" where
  "robot_reset = (robot_at_start 0)\<lparr>sys := sample_subsystems\<lparr>outputs := (commanded, vexMotorInit motor_memory),
     lift := \<lparr>lift_motor = 0, lift_limit = 0, lift_locked = False\<rparr>\<rparr>, screen := (screen (robot_at_start 0))\<lparr>userp := NO_PARAM\<rparr>\<rparr>"

lemma setup_prepares_robot_witness:
  "\<exists>t u. vexUserSetup stm32_hw (ports_reset, robot_reset) = Some t \<and> vexUserInit t = Some u \<and> wiring (sys (snd u)) = robot_wires \<and>
     enc_installed (fst u) = {} \<and> pin_mode u 10 = None"
proof -
  have l: "length (vexMotors (vexMotorInit motor_memory)) = 10" "list_all (\<lambda>m. getEncoderId m = None) (vexMotors (vexMotorInit motor_memory))"
    by code_simp+
  have c: "length (sMotors commanded) = 10" using commanded_values(1) [THEN list10] by simp
  have d: "digital (sys robot_reset) = digital_reset" by (simp add: robot_reset_def sample_subsystems_def driveSetup_def)
  have p: "length (vexDefConfig ports_reset) = 12" "length (vexQuadEncoders ports_reset) = 5" "length (vexSonars (sonars ports_reset)) = 5"
    using reset_ok(2) by (simp_all add: ports_ok_def)
  have "before_setup (ports_reset, robot_reset)"
    unfolding before_setup_def using reset_ok(1) l c p by (simp add: d, simp add: robot_reset_def outputs_ok_def)
  moreover have "pin_mode (ports_reset, robot_reset) 10 = None" by (simp add: pin_mode_def d digital_reset_def)
  ultimately show ?thesis
    using setup_prepares_robot [of "(ports_reset, robot_reset)" stm32_hw] reset_installed(1) by fastforce
qed

end
