(* ===== verification/VexPid.thy ===== *)
theory VexPid
  imports VexConfig_Properties SmartMotor
begin

text \<open>
  Two small libraries of ConVEX on top of the sensors: the controllers of \<open>src/convex/cortex/opt/pidlib.c\<close>, which turn a
  position and a target into a motor command, and the gyro of \<open>src/convex/cortex/opt/vexgyro.c\<close>, which sums up the deviations
  of an analog input. Floats are exact rationals, \<open>fastpow\<close> a parameter; a conversion outside the range of its type is
  undefined. A pointer to a controller is its place among those allocated.
\<close>

section \<open>Controllers\<close>

definition MAX_PID :: int where "MAX_PID = 4"
definition PIDLIB_LUT_SIZE :: nat where "PIDLIB_LUT_SIZE = 128"
definition PIDLIB_LUT_FACTOR :: rat where "PIDLIB_LUT_FACTOR = 20"
definition PIDLIB_LUT_OFFSET :: nat where "PIDLIB_LUT_OFFSET = 10"
definition PIDLIB_INTEGRAL_DRIVE_MAX :: rat where "PIDLIB_INTEGRAL_DRIVE_MAX = 1 / 4"

lemmas pid_consts = MAX_PID_def PIDLIB_LUT_SIZE_def PIDLIB_LUT_FACTOR_def PIDLIB_LUT_OFFSET_def PIDLIB_INTEGRAL_DRIVE_MAX_def

record pidController =
  pid_enabled :: bool
  Kp :: rat
  Ki :: rat
  Kd :: rat
  Kbias :: rat
  pid_error :: rat
  last_error :: rat
  integral :: rat
  integral_limit :: rat
  derivative :: rat
  error_threshold :: rat
  pid_drive :: rat
  drive_raw :: int
  drive_cmd :: int
  sensor_port :: int
  sensor_reverse :: bool
  sensor_value :: int
  target_value :: int

record pid_lib =
  pid_controllers :: "pidController list"
  nextPidControllerPtr :: int
  PidDriveLut :: "int list"

definition sgn_float :: "rat \<Rightarrow> rat" where
  "sgn_float x = (if x = 0 then 0 else if x > 0 then 1 else - 1)"

definition float_to_int16 :: "rat \<Rightarrow> int option" where
  "float_to_int16 x =
     (let n = (if x \<ge> 0 then floor x else ceiling x)
      in if - 32768 \<le> n \<and> n \<le> 32767 then Some n else None)"

text \<open>The table that bends the commands, one entry after the other.\<close>

definition lut_entry :: "(rat \<Rightarrow> rat \<Rightarrow> rat) \<Rightarrow> nat \<Rightarrow> int option" where
  "lut_entry fastpow i =
     (if PIDLIB_LUT_FACTOR > 1 then
        (let x = fastpow PIDLIB_LUT_FACTOR (of_nat i / of_nat (PIDLIB_LUT_SIZE - 1))
         in if i \<ge> PIDLIB_LUT_OFFSET div 2 then
              float_to_int16 ((x - 1) / (PIDLIB_LUT_FACTOR - 1) * of_nat (PIDLIB_LUT_SIZE - 1 - PIDLIB_LUT_OFFSET) + of_nat PIDLIB_LUT_OFFSET)
            else Some (int i * 2))
      else Some (int i))"

fun lut_loop :: "(rat \<Rightarrow> rat \<Rightarrow> rat) \<Rightarrow> nat list \<Rightarrow> int list \<Rightarrow> int list option" where
  "lut_loop fastpow [] lut = Some lut"
| "lut_loop fastpow (i # is) lut = do { v \<leftarrow> lut_entry fastpow i; lut_loop fastpow is (lut[i := v]) }"

definition PidControllerMakeLut :: "(rat \<Rightarrow> rat \<Rightarrow> rat) \<Rightarrow> pid_lib \<Rightarrow> pid_lib option" where
  "PidControllerMakeLut fastpow s = do {
     lut \<leftarrow> lut_loop fastpow [0..<PIDLIB_LUT_SIZE] (PidDriveLut s);
     Some (s\<lparr>PidDriveLut := lut\<rparr>)
   }"

text \<open>The memory of a controller comes from the heap, \<open>block\<close>; a null pointer from it is used unchecked. In this configuration
  the count of controllers stays as it is.\<close>

definition new_controller :: "rat \<Rightarrow> rat \<Rightarrow> rat \<Rightarrow> int \<Rightarrow> bool \<Rightarrow> pidController \<Rightarrow> pidController" where
  "new_controller kp ki kd p rvs c =
     c\<lparr>Kp := kp, Ki := ki, Kd := kd, Kbias := 0, pid_error := 0, last_error := 0, integral := 0, derivative := 0,
       pid_drive := 0, drive_cmd := 0,
       integral_limit := (if ki \<noteq> 0 then PIDLIB_INTEGRAL_DRIVE_MAX / ki else 0), error_threshold := 10,
       sensor_port := p, sensor_reverse := rvs, sensor_value := 0, target_value := 0, pid_enabled := True\<rparr>"

definition PidControllerInit ::
    "(rat \<Rightarrow> rat \<Rightarrow> rat) \<Rightarrow> pidController option \<Rightarrow> rat \<Rightarrow> rat \<Rightarrow> rat \<Rightarrow> int \<Rightarrow> bool \<Rightarrow> pid_lib \<Rightarrow> (nat option \<times> pid_lib) option" where
  "PidControllerInit fastpow block kp ki kd p rvs s =
     (if nextPidControllerPtr s = MAX_PID then Some (None, s)
      else case block of
        None \<Rightarrow> None
      | Some c \<Rightarrow>
          let c = new_controller kp ki kd p rvs c
          in map_option (\<lambda>t. (Some (length (pid_controllers s)), t))
               (PidControllerMakeLut fastpow (s\<lparr>pid_controllers := pid_controllers s @ [c]\<rparr>)))"

definition PidControllerInitWithBias ::
    "(rat \<Rightarrow> rat \<Rightarrow> rat) \<Rightarrow> pidController option \<Rightarrow> rat \<Rightarrow> rat \<Rightarrow> rat \<Rightarrow> rat \<Rightarrow> int \<Rightarrow> bool \<Rightarrow> pid_lib \<Rightarrow>
     (nat option \<times> pid_lib) option" where
  "PidControllerInitWithBias fastpow block kp ki kd kbias p rvs s = do {
     (c, s) \<leftarrow> PidControllerInit fastpow block kp ki kd p rvs s;
     Some (c, case c of None \<Rightarrow> s
              | Some i \<Rightarrow> s\<lparr>pid_controllers := (pid_controllers s)[i := (pid_controllers s ! i)\<lparr>Kbias := kbias\<rparr>]\<rparr>)
   }"

text \<open>The error, from the sensor when there is one.\<close>

definition read_error :: "(pad \<Rightarrow> bool) \<Rightarrow> 'w ports \<Rightarrow> pidController \<Rightarrow> pidController option" where
  "read_error level ps c =
     (if sensor_port c \<ge> 0 then do {
        v \<leftarrow> vexSensorValueGet level (sensor_port c) ps;
        v \<leftarrow> (if sensor_reverse c then (if vexSensorIsAnalog (sensor_port c) then sub32 4095 v else neg32 v) else Some v);
        e \<leftarrow> sub32 (target_value c) v;
        Some (c\<lparr>sensor_value := v, pid_error := of_int e\<rparr>)
      }
      else Some c)"

definition integrate :: "pidController \<Rightarrow> pidController" where
  "integrate c =
     (if Ki c \<noteq> 0 then
        (let c = c\<lparr>integral := integral c + pid_error c\<rparr>
         in if \<bar>integral c\<bar> > integral_limit c then c\<lparr>integral := sgn_float (integral c) * integral_limit c\<rparr> else c)
      else c\<lparr>integral := 0\<rparr>)"

definition compute_drive :: "pidController \<Rightarrow> pidController option" where
  "compute_drive c =
     (let c = (if \<bar>pid_error c\<bar> < error_threshold c then c\<lparr>pid_error := 0\<rparr> else c);
          c = integrate c;
          c = c\<lparr>derivative := pid_error c - last_error c, last_error := pid_error c\<rparr>;
          c = c\<lparr>pid_drive := Kp c * pid_error c + Ki c * integral c + Kd c * derivative c + Kbias c\<rparr>;
          c = (if \<bar>pid_drive c\<bar> > 1 then c\<lparr>pid_drive := sgn_float (pid_drive c)\<rparr> else c)
      in do { raw \<leftarrow> float_to_int16 (pid_drive c * 127); Some (c\<lparr>drive_raw := raw\<rparr>) })"

text \<open>The table is read at the amount of the command.\<close>

definition LinearizeDrive :: "int list \<Rightarrow> int \<Rightarrow> int option" where
  "LinearizeDrive lut x =
     (if nat \<bar>x\<bar> < length lut then float_to_int16 (of_int (lut ! nat \<bar>x\<bar>) * sgn_float (of_int x)) else None)"

definition update_controller :: "int list \<Rightarrow> (pad \<Rightarrow> bool) \<Rightarrow> 'w ports \<Rightarrow> pidController \<Rightarrow> pidController option" where
  "update_controller lut level ps c = do {
     c \<leftarrow> (if pid_enabled c then do { c \<leftarrow> read_error level ps c; compute_drive c }
          else Some (c\<lparr>pid_error := 0, last_error := 0, integral := 0, derivative := 0, pid_drive := 0, drive_raw := 0\<rparr>));
     cmd \<leftarrow> LinearizeDrive lut (drive_raw c);
     Some (c\<lparr>drive_cmd := cmd\<rparr>)
   }"

definition PidControllerUpdate :: "(pad \<Rightarrow> bool) \<Rightarrow> 'w ports \<Rightarrow> nat option \<Rightarrow> pid_lib \<Rightarrow> (int \<times> pid_lib) option" where
  "PidControllerUpdate level ps p s =
     (case p of
        None \<Rightarrow> Some (0, s)
      | Some i \<Rightarrow>
          if i < length (pid_controllers s) then do {
            c \<leftarrow> update_controller (PidDriveLut s) level ps (pid_controllers s ! i);
            Some (drive_cmd c, s\<lparr>pid_controllers := (pid_controllers s)[i := c]\<rparr>)
          }
          else None)"

section \<open>The gyro\<close>

definition kVexAnalog_1 :: int where "kVexAnalog_1 = 0"
definition kVexAnalog_8 :: int where "kVexAnalog_8 = 7"
definition GyroJitterRange :: int where "GyroJitterRange = 4"

record gyro_state =
  GyroValue :: int
  gyroThread :: bool
  gyroAnalogPin :: int

text \<open>The local variables of the task.\<close>

record gyro_task =
  GyroBias :: int
  GyroSmallBias :: int
  GyroRawFiltered :: int
  GyroJitterCycles :: int

definition add32 :: "int \<Rightarrow> int \<Rightarrow> int option" where
  "add32 a b = (if - 2147483648 \<le> a + b \<and> a + b \<le> 2147483647 then Some (a + b) else None)"

fun sum32 :: "int \<Rightarrow> int list \<Rightarrow> int option" where
  "sum32 acc [] = Some acc"
| "sum32 acc (x # xs) = do { acc \<leftarrow> add32 acc x; sum32 acc xs }"

text \<open>The start of the task reads the input 1024 times, each round of its loop once.\<close>

definition vexGyroTask_start :: "int list \<Rightarrow> gyro_task option" where
  "vexGyroTask_start samples = do {
     acc \<leftarrow> sum32 0 samples;
     let b = cdiv acc 1024;
     Some \<lparr>GyroBias = b, GyroSmallBias = acc - b * 1024, GyroRawFiltered = 0, GyroJitterCycles = 0\<rparr>
   }"

definition vexGyroTask_round :: "int \<Rightarrow> gyro_task \<times> gyro_state \<Rightarrow> (gyro_task \<times> gyro_state) option" where
  "vexGyroTask_round raw ts = do {
     let (t, s) = ts;
     let delta = i16 (raw - GyroBias t);
     t \<leftarrow> (if delta < - GyroJitterRange \<or> delta > GyroJitterRange then do {
             f \<leftarrow> add32 (GyroRawFiltered t) delta;
             n \<leftarrow> add32 (GyroJitterCycles t) 1;
             f \<leftarrow> (if n mod 1024 = 0 then sub32 f (GyroSmallBias t) else Some f);
             Some (t\<lparr>GyroRawFiltered := f, GyroJitterCycles := n\<rparr>)
           }
           else Some t);
     Some (t, s\<lparr>GyroValue := cdiv (GyroRawFiltered t) 130\<rparr>)
   }"

fun vexGyroTask_rounds :: "int list \<Rightarrow> gyro_task \<times> gyro_state \<Rightarrow> (gyro_task \<times> gyro_state) option" where
  "vexGyroTask_rounds [] ts = Some ts"
| "vexGyroTask_rounds (x # xs) ts = do { ts \<leftarrow> vexGyroTask_round x ts; vexGyroTask_rounds xs ts }"

definition vexGyroGet :: "gyro_state \<Rightarrow> int" where
  "vexGyroGet s = GyroValue s"

definition vexGyroInit :: "int \<Rightarrow> gyro_state \<Rightarrow> gyro_state" where
  "vexGyroInit pin s =
     (if pin < kVexAnalog_1 \<or> pin > kVexAnalog_8 then s else s\<lparr>gyroAnalogPin := pin, gyroThread := True\<rparr>)"

text \<open>The old thread has ended before the new one starts.\<close>

definition vexGyroReset :: "gyro_state \<Rightarrow> gyro_state" where
  "vexGyroReset s = (if gyroThread s then vexGyroInit (gyroAnalogPin s) (s\<lparr>gyroThread := False\<rparr>) else s)"

section \<open>Lemmas on the controllers\<close>

lemma sgn_float_abs: "\<bar>sgn_float x\<bar> \<le> 1" "\<bar>sgn_float x * y\<bar> \<le> \<bar>y\<bar>"
  by (auto simp: sgn_float_def)

lemma float_to_int16_bound:
  assumes "\<bar>x\<bar> \<le> of_int n" "n \<le> 32767"
  shows "\<exists>k. float_to_int16 x = Some k \<and> \<bar>k\<bar> \<le> n"
proof -
  define k where "k = (if x \<ge> 0 then floor x else ceiling x)"
  have "- n \<le> k" "k \<le> n"
    using assms(1) by (auto simp: k_def abs_le_iff le_floor_iff floor_le_iff ceiling_le_iff le_ceiling_iff)
  then show ?thesis using assms(2) by (auto simp: float_to_int16_def Let_def k_def)
qed

lemma float_to_int16_floor: "0 \<le> y \<Longrightarrow> y < 128 \<Longrightarrow> \<exists>k. float_to_int16 y = Some k \<and> 0 \<le> k \<and> k \<le> 127"
proof -
  assume y: "0 \<le> y" "y < 128"
  then have "0 \<le> floor y" "floor y \<le> 127" by (simp_all add: le_floor_iff floor_le_iff)
  then show ?thesis using y by (simp add: float_to_int16_def Let_def)
qed

text \<open>The integral stays within its limit, whatever the sign of the limit.\<close>

definition pid_ok :: "pidController \<Rightarrow> bool" where
  "pid_ok c \<longleftrightarrow> (if Ki c = 0 then integral c = 0 else integral_limit c = 1 / 4 / Ki c) \<and> \<bar>Ki c * integral c\<bar> \<le> 1 / 4"

lemma integrate_ok:
  assumes "pid_ok c" "Ki c \<noteq> 0"
  shows "\<bar>Ki c * integral (integrate c)\<bar> \<le> 1 / 4"
proof -
  have l: "integral_limit c = 1 / 4 / Ki c" using assms by (simp add: pid_ok_def)
  let ?i = "integral c + pid_error c"
  show ?thesis
  proof (cases "\<bar>?i\<bar> > integral_limit c")
    case True
    have "\<bar>Ki c * (sgn_float ?i * integral_limit c)\<bar> = \<bar>sgn_float ?i\<bar> / 4" using l assms(2) by (simp add: abs_mult)
    then show ?thesis using True assms(2) sgn_float_abs(1) [of ?i] by (simp add: integrate_def Let_def)
  next
    case False
    then have "\<bar>Ki c\<bar> * \<bar>?i\<bar> \<le> \<bar>Ki c\<bar> * \<bar>integral_limit c\<bar>" by (intro mult_left_mono) auto
    also have "\<dots> = 1 / 4" using l assms(2) by (simp add: abs_mult [symmetric])
    finally show ?thesis using False assms(2) by (simp add: integrate_def Let_def abs_mult)
  qed
qed

lemma integrate_keeps [simp]: "Ki (integrate c) = Ki c" "integral_limit (integrate c) = integral_limit c" "pid_error (integrate c) = pid_error c"
  "sensor_port (integrate c) = sensor_port c" "target_value (integrate c) = target_value c" "pid_enabled (integrate c) = pid_enabled c"
  by (simp_all add: integrate_def Let_def)

lemma compute_drive_ok:
  assumes "pid_ok c"
  shows "\<exists>c'. compute_drive c = Some c' \<and> pid_ok c' \<and> \<bar>drive_raw c'\<bar> \<le> 127 \<and>
    sensor_port c' = sensor_port c \<and> target_value c' = target_value c"
proof -
  define c1 where "c1 = (if \<bar>pid_error c\<bar> < error_threshold c then c\<lparr>pid_error := 0\<rparr> else c)"
  have c1: "pid_ok c1" using assms by (simp add: c1_def pid_ok_def)
  have "pid_ok (integrate c1)"
    using integrate_ok [OF c1] c1 by (cases "Ki c1 = 0") (auto simp: pid_ok_def integrate_def Let_def)
  define c2 where "c2 = (integrate c1)\<lparr>derivative := pid_error (integrate c1) - last_error (integrate c1), last_error := pid_error (integrate c1)\<rparr>"
  define c3 where "c3 = c2\<lparr>pid_drive := Kp c2 * pid_error c2 + Ki c2 * integral c2 + Kd c2 * derivative c2 + Kbias c2\<rparr>"
  define c4 where "c4 = (if \<bar>pid_drive c3\<bar> > 1 then c3\<lparr>pid_drive := sgn_float (pid_drive c3)\<rparr> else c3)"
  have ok: "pid_ok c4" using \<open>pid_ok (integrate c1)\<close> by (auto simp: c4_def c3_def c2_def pid_ok_def split: if_splits)
  have d: "\<bar>pid_drive c4\<bar> \<le> 1" using sgn_float_abs(1) by (simp add: c4_def)
  then have "\<bar>pid_drive c4 * 127\<bar> \<le> of_int 127" by (simp add: abs_mult)
  from float_to_int16_bound [OF this] obtain k where k: "float_to_int16 (pid_drive c4 * 127) = Some k" "\<bar>k\<bar> \<le> 127" by auto
  have "compute_drive c = Some (c4\<lparr>drive_raw := k\<rparr>)"
    using k(1) unfolding compute_drive_def Let_def c4_def c3_def c2_def c1_def by simp
  moreover have "pid_ok (c4\<lparr>drive_raw := k\<rparr>)" using ok by (simp add: pid_ok_def)
  moreover have "sensor_port c4 = sensor_port c" "target_value c4 = target_value c" by (simp_all add: c4_def c3_def c2_def c1_def)
  ultimately show ?thesis using k(2) by auto
qed

text \<open>The table holds commands.\<close>

definition lut_ok :: "int list \<Rightarrow> bool" where
  "lut_ok lut \<longleftrightarrow> length lut = 128 \<and> (\<forall>v\<in>set lut. 0 \<le> v \<and> v \<le> 127)"

lemma linearize_ok:
  assumes "lut_ok lut" "\<bar>x\<bar> \<le> 127"
  shows "\<exists>k. LinearizeDrive lut x = Some k \<and> \<bar>k\<bar> \<le> 127 \<and> (0 \<le> x \<longrightarrow> 0 \<le> k) \<and> (x \<le> 0 \<longrightarrow> k \<le> 0)"
proof -
  have i: "nat \<bar>x\<bar> < length lut" using assms by (auto simp: lut_ok_def)
  define v where "v = lut ! nat \<bar>x\<bar>"
  have v: "0 \<le> v" "v \<le> 127" using assms(1) i by (auto simp: lut_ok_def v_def)
  have "\<lceil>- (of_int v :: rat)\<rceil> = - v" by (metis ceiling_of_int of_int_minus)
  then have "float_to_int16 (of_int v * sgn_float (of_int x)) = Some (v * (if x = 0 then 0 else if x > 0 then 1 else - 1))"
    using v by (auto simp: float_to_int16_def sgn_float_def Let_def)
  then show ?thesis using i v by (auto simp: LinearizeDrive_def v_def [symmetric])
qed

text \<open>What a power function must give for the table: close enough to the true powers between 1 and 20.\<close>

definition pow_ok :: "(rat \<Rightarrow> rat \<Rightarrow> rat) \<Rightarrow> bool" where
  "pow_ok fastpow \<longleftrightarrow> (\<forall>i<128. 9 / 10 \<le> fastpow 20 (of_nat i / 127) \<and> fastpow 20 (of_nat i / 127) \<le> 201 / 10)"

lemma lut_entry_ok:
  assumes "pow_ok fastpow" "i < 128"
  shows "\<exists>v. lut_entry fastpow i = Some v \<and> 0 \<le> v \<and> v \<le> 127"
proof (cases "i \<ge> 5")
  case True
  let ?x = "fastpow 20 (of_nat i / 127)"
  let ?y = "(?x - 1) / 19 * 117 + 10"
  have x: "9 / 10 \<le> ?x" "?x \<le> 201 / 10" using assms by (auto simp: pow_ok_def)
  then have "0 \<le> ?y" "?y < 128" by (simp_all add: field_simps)
  then obtain k where k: "float_to_int16 ?y = Some k" "0 \<le> k \<and> k \<le> 127" using float_to_int16_floor by blast
  have "lut_entry fastpow i = float_to_int16 ?y" using True by (simp add: lut_entry_def pid_consts Let_def)
  then show ?thesis using k by simp
next
  case False
  then show ?thesis by (simp add: lut_entry_def pid_consts)
qed

lemma lut_loop_ok:
  "pow_ok fastpow \<Longrightarrow> \<forall>i\<in>set is. i < 128 \<Longrightarrow> length lut = 128 \<Longrightarrow>
    \<exists>l. lut_loop fastpow is lut = Some l \<and> length l = 128 \<and> (\<forall>i<128. (i \<in> set is \<or> 0 \<le> lut ! i \<and> lut ! i \<le> 127) \<longrightarrow> 0 \<le> l ! i \<and> l ! i \<le> 127)"
proof (induction "is" arbitrary: lut)
  case Nil
  then show ?case by simp
next
  case (Cons i "is")
  obtain v where v: "lut_entry fastpow i = Some v" "0 \<le> v" "v \<le> 127" using lut_entry_ok [OF Cons.prems(1)] Cons.prems(2) by auto
  have l: "length (lut[i := v]) = 128" using Cons.prems(3) by simp
  obtain l where l': "lut_loop fastpow is (lut[i := v]) = Some l" "length l = 128"
    "\<forall>k<128. (k \<in> set is \<or> 0 \<le> lut[i := v] ! k \<and> lut[i := v] ! k \<le> 127) \<longrightarrow> 0 \<le> l ! k \<and> l ! k \<le> 127"
    using Cons.IH [OF Cons.prems(1) _ l] Cons.prems(2) by auto
  have "k \<in> set is \<or> 0 \<le> lut[i := v] ! k \<and> lut[i := v] ! k \<le> 127"
    if "k < 128" "k \<in> set (i # is) \<or> 0 \<le> lut ! k \<and> lut ! k \<le> 127" for k
    using that v Cons.prems(3) by (cases "k = i") auto
  then show ?case using v(1) l' by auto
qed

lemma make_lut_ok:
  assumes "pow_ok fastpow" "length (PidDriveLut s) = 128"
  shows "\<exists>l. PidControllerMakeLut fastpow s = Some (s\<lparr>PidDriveLut := l\<rparr>) \<and> lut_ok l"
proof -
  obtain l where "lut_loop fastpow [0..<128] (PidDriveLut s) = Some l" "length l = 128" "\<forall>i<128. 0 \<le> l ! i \<and> l ! i \<le> 127"
    using lut_loop_ok [OF assms(1) _ assms(2), of "[0..<128]"] by auto
  then show ?thesis by (auto simp: PidControllerMakeLut_def PIDLIB_LUT_SIZE_def lut_ok_def set_conv_nth)
qed

section \<open>A controller in use\<close>

text \<open>What the program does with a controller between two updates: it sets the target, the switch, and the error itself
  when there is no sensor.\<close>

datatype 'w pid_event = SetTarget int | SetEnabled bool | SetError rat | Update "pad \<Rightarrow> bool" "'w ports"

definition on_controller :: "nat \<Rightarrow> (pidController \<Rightarrow> pidController) \<Rightarrow> pid_lib \<Rightarrow> pid_lib" where
  "on_controller i f s = s\<lparr>pid_controllers := (pid_controllers s)[i := f (pid_controllers s ! i)]\<rparr>"

text \<open>The commands of the updates, in order.\<close>

fun pid_run :: "nat \<Rightarrow> 'w pid_event list \<Rightarrow> pid_lib \<Rightarrow> (int list \<times> pid_lib) option" where
  "pid_run i [] s = Some ([], s)"
| "pid_run i (SetTarget v # es) s = pid_run i es (on_controller i (\<lambda>c. c\<lparr>target_value := v\<rparr>) s)"
| "pid_run i (SetEnabled b # es) s = pid_run i es (on_controller i (\<lambda>c. c\<lparr>pid_enabled := b\<rparr>) s)"
| "pid_run i (SetError e # es) s = pid_run i es (on_controller i (\<lambda>c. c\<lparr>pid_error := e\<rparr>) s)"
| "pid_run i (Update level ps # es) s = do {
     (cmd, s) \<leftarrow> PidControllerUpdate level ps (Some i) s;
     (cmds, s) \<leftarrow> pid_run i es s;
     Some (cmd # cmds, s)
   }"

text \<open>Sensors and targets small enough not to overflow.\<close>

fun event_ok :: "int \<Rightarrow> 'w pid_event \<Rightarrow> bool" where
  "event_ok sensor (SetTarget v) \<longleftrightarrow> \<bar>v\<bar> \<le> 2 ^ 30"
| "event_ok sensor (Update level ps) \<longleftrightarrow> (case vexSensorValueGet level sensor ps of Some v \<Rightarrow> \<bar>v\<bar> \<le> 2 ^ 29 | None \<Rightarrow> sensor < 0)"
| "event_ok sensor _ \<longleftrightarrow> True"

definition controller_ok :: "int \<Rightarrow> pidController \<Rightarrow> bool" where
  "controller_ok sensor c \<longleftrightarrow> pid_ok c \<and> sensor_port c = sensor \<and> \<bar>target_value c\<bar> \<le> 2 ^ 30"

lemma read_error_ok:
  assumes "controller_ok sensor c" "event_ok sensor (Update level ps)"
  shows "\<exists>c'. read_error level ps c = Some c' \<and> controller_ok sensor c'"
proof (cases "sensor < 0")
  case True
  then show ?thesis using assms(1) by (auto simp: read_error_def controller_ok_def)
next
  case False
  then obtain v where v: "vexSensorValueGet level sensor ps = Some v" "\<bar>v\<bar> \<le> 536870912" using assms(2) by (auto split: option.splits)
  then show ?thesis using assms(1) False
    by (auto simp: read_error_def controller_ok_def pid_ok_def sub32_def neg32_def)
qed

lemma update_ok:
  assumes "lut_ok lut" "controller_ok sensor c" "event_ok sensor (Update level ps)"
  shows "\<exists>c'. update_controller lut level ps c = Some c' \<and> controller_ok sensor c' \<and> \<bar>drive_cmd c'\<bar> \<le> 127"
proof (cases "pid_enabled c")
  case True
  obtain c1 where c1: "read_error level ps c = Some c1" "controller_ok sensor c1" using read_error_ok [OF assms(2,3)] by blast
  obtain c2 where c2: "compute_drive c1 = Some c2" "pid_ok c2" "\<bar>drive_raw c2\<bar> \<le> 127"
    "sensor_port c2 = sensor_port c1" "target_value c2 = target_value c1"
    using compute_drive_ok [of c1] c1(2) by (auto simp: controller_ok_def)
  obtain k where k: "LinearizeDrive lut (drive_raw c2) = Some k" "\<bar>k\<bar> \<le> 127" using linearize_ok [OF assms(1) c2(3)] by blast
  have "controller_ok sensor (c2\<lparr>drive_cmd := k\<rparr>)" using c1(2) c2(2,4,5) by (simp add: controller_ok_def pid_ok_def)
  then show ?thesis using True c1(1) c2(1) k by (simp add: update_controller_def)
next
  case False
  obtain k where k: "LinearizeDrive lut 0 = Some k" "\<bar>k\<bar> \<le> 127" using linearize_ok [OF assms(1), of 0] by auto
  then show ?thesis using False assms(2) by (auto simp: update_controller_def controller_ok_def pid_ok_def split: if_splits)
qed

lemma run_ok:
  "lut_ok (PidDriveLut s) \<Longrightarrow> i < length (pid_controllers s) \<Longrightarrow> controller_ok sensor (pid_controllers s ! i) \<Longrightarrow>
   \<forall>e\<in>set es. event_ok sensor e \<Longrightarrow>
   \<exists>cmds t. pid_run i es s = Some (cmds, t) \<and> (\<forall>k\<in>set cmds. \<bar>k\<bar> \<le> 127) \<and> controller_ok sensor (pid_controllers t ! i)"
proof (induction es arbitrary: s)
  case Nil
  then show ?case by simp
next
  case (Cons e es)
  have es: "\<forall>e\<in>set es. event_ok sensor e" and e: "event_ok sensor e" using Cons.prems(4) by simp_all
  have frame: "PidDriveLut (on_controller i f s) = PidDriveLut s" "length (pid_controllers (on_controller i f s)) = length (pid_controllers s)"
    "pid_controllers (on_controller i f s) ! i = f (pid_controllers s ! i)" for f
    using Cons.prems(2) by (simp_all add: on_controller_def)
  show ?case
  proof (cases e)
    case (SetTarget v)
    have "controller_ok sensor ((pid_controllers s ! i)\<lparr>target_value := v\<rparr>)"
      using e SetTarget Cons.prems(3) by (simp add: controller_ok_def pid_ok_def)
    then show ?thesis using Cons.IH [of "on_controller i (\<lambda>c. c\<lparr>target_value := v\<rparr>) s"] Cons.prems(1,2) es SetTarget by (simp add: frame)
  next
    case (SetEnabled b)
    have "controller_ok sensor ((pid_controllers s ! i)\<lparr>pid_enabled := b\<rparr>)" using Cons.prems(3) by (simp add: controller_ok_def pid_ok_def)
    then show ?thesis using Cons.IH [of "on_controller i (\<lambda>c. c\<lparr>pid_enabled := b\<rparr>) s"] Cons.prems(1,2) es SetEnabled by (simp add: frame)
  next
    case (SetError x)
    have "controller_ok sensor ((pid_controllers s ! i)\<lparr>pid_error := x\<rparr>)" using Cons.prems(3) by (simp add: controller_ok_def pid_ok_def)
    then show ?thesis using Cons.IH [of "on_controller i (\<lambda>c. c\<lparr>pid_error := x\<rparr>) s"] Cons.prems(1,2) es SetError by (simp add: frame)
  next
    case (Update level ps)
    obtain c where c: "update_controller (PidDriveLut s) level ps (pid_controllers s ! i) = Some c" "controller_ok sensor c" "\<bar>drive_cmd c\<bar> \<le> 127"
      using update_ok [OF Cons.prems(1,3)] e Update by blast
    let ?s = "s\<lparr>pid_controllers := (pid_controllers s)[i := c]\<rparr>"
    obtain cmds t where "pid_run i es ?s = Some (cmds, t)" "\<forall>k\<in>set cmds. \<bar>k\<bar> \<le> 127" "controller_ok sensor (pid_controllers t ! i)"
      using Cons.IH [of ?s] Cons.prems(1,2) c(2) es by auto
    then show ?thesis using Update c Cons.prems(2) by (simp add: PidControllerUpdate_def)
  qed
qed


definition pid_memory :: pid_lib where
  "pid_memory = \<lparr>pid_controllers = [], nextPidControllerPtr = 0, PidDriveLut = replicate 128 0\<rparr>"

definition heap_block :: pidController where
  "heap_block = \<lparr>pid_enabled = False, Kp = 1, Ki = 2, Kd = 3, Kbias = 4, pid_error = 5, last_error = 6, integral = 7, integral_limit = 8,
     derivative = 9, error_threshold = 10, pid_drive = 11, drive_raw = 12, drive_cmd = 13, sensor_port = 14, sensor_reverse = True,
     sensor_value = 15, target_value = 16\<rparr>"


section \<open>What the gyro shows\<close>

definition significant :: "int \<Rightarrow> int list \<Rightarrow> int list" where
  "significant b xs = filter (\<lambda>d. d < - 4 \<or> d > 4) (map (\<lambda>x. x - b) xs)"

lemma sum32_ok: "set xs \<subseteq> {0..4095} \<Longrightarrow> 0 \<le> acc \<Longrightarrow> acc + int (length xs) * 4095 \<le> 2147483647 \<Longrightarrow> sum32 acc xs = Some (acc + sum_list xs)"
proof (induction xs arbitrary: acc)
  case (Cons x xs)
  have "acc + x + int (length xs) * 4095 \<le> 2147483647" "0 \<le> acc + x" "acc + x \<le> 2147483647"
    using Cons.prems by (auto simp: algebra_simps)
  then show ?case using Cons.IH [of "acc + x"] Cons.prems(1,2) by (simp add: add32_def)
qed simp

lemma sum_range: "set xs \<subseteq> {0..4095} \<Longrightarrow> 0 \<le> sum_list xs \<and> sum_list xs \<le> int (length xs) * 4095"
  by (induction xs) (auto simp: algebra_simps)

lemma cycle_step:
  assumes "0 \<le> (n :: int)"
  shows "(n + 1) div 1024 - n div 1024 = (if (n + 1) mod 1024 = 0 then 1 else 0)"
proof -
  obtain k where k: "n = int k" using assms by (rule nonneg_int_cases)
  define a r d where "a = Suc k div 1024" and "r = Suc k mod 1024" and "d = k div 1024"
  have "a = (if r = 0 then Suc d else d)" unfolding a_def r_def d_def by (rule div_Suc)
  moreover have "n + 1 = int (Suc k)" by (simp add: k)
  then have "(n + 1) div 1024 = int a" "(n + 1) mod 1024 = int r" "n div 1024 = int d"
    using zdiv_int [of "Suc k" 1024] zmod_int [of "Suc k" 1024] zdiv_int [of k 1024] unfolding a_def r_def d_def
    by (simp_all only: k of_nat_numeral)
  ultimately show ?thesis by simp
qed

text \<open>The sum after some deviations, from any point on: they complete a cycle of 1024 as often as the quotient grows.\<close>

definition gyro_raw :: "int \<Rightarrow> int \<Rightarrow> int \<Rightarrow> int list \<Rightarrow> int" where
  "gyro_raw c f n ds = f + sum_list ds - c * ((n + int (length ds)) div 1024 - n div 1024)"

lemma gyro_raw_simps: "gyro_raw c f n [] = f"
  "gyro_raw c (f + d - c * ((n + 1) div 1024 - n div 1024)) (n + 1) ds = gyro_raw c f n (d # ds)"
proof -
  define A B C where "A = n div 1024" and "B = (n + 1) div 1024" and "C = (n + 1 + int (length ds)) div 1024"
  have l: "n + int (length (d # ds)) = n + 1 + int (length ds)" by simp
  show "gyro_raw c f n [] = f" by (simp add: gyro_raw_def)
  show "gyro_raw c (f + d - c * ((n + 1) div 1024 - n div 1024)) (n + 1) ds = gyro_raw c f n (d # ds)"
    unfolding gyro_raw_def l A_def [symmetric] B_def [symmetric] C_def [symmetric] by (simp add: right_diff_distrib)
qed

lemma gyro_rounds:
  assumes b: "0 \<le> b" "b \<le> 4095" and c: "0 \<le> c" "c < 1024"
  shows "set xs \<subseteq> {0..4095} \<Longrightarrow> 0 \<le> n \<Longrightarrow> n + int (length xs) \<le> 2147483647 \<Longrightarrow> \<bar>f\<bar> + int (length xs) * 5119 \<le> 2147483647 \<Longrightarrow>
    \<exists>t s'. vexGyroTask_rounds xs (\<lparr>GyroBias = b, GyroSmallBias = c, GyroRawFiltered = f, GyroJitterCycles = n\<rparr>, s) = Some (t, s') \<and>
      (xs \<noteq> [] \<longrightarrow> GyroValue s' = cdiv (gyro_raw c f n (significant b xs)) 130)"
proof (induction xs arbitrary: f n s)
  case Nil
  then show ?case by simp
next
  case (Cons x xs)
  let ?d = "x - b" let ?t = "\<lambda>f n. \<lparr>GyroBias = b, GyroSmallBias = c, GyroRawFiltered = f, GyroJitterCycles = n\<rparr>"
  have d: "i16 ?d = ?d" using Cons.prems(1) b by (intro i16_id) auto
  have dr: "\<bar>?d\<bar> \<le> 4095" using Cons.prems(1) b by auto
  have len: "\<bar>f\<bar> + int (length xs) * 5119 + 5119 \<le> 2147483647" using Cons.prems(4) by simp
  have nil: "significant b [] = []" by (simp add: significant_def)
  show ?case
  proof (cases "?d < - 4 \<or> ?d > 4")
    case True
    let ?f = "f + ?d - c * ((n + 1) div 1024 - n div 1024)"
    have q: "(n + 1) div 1024 - n div 1024 = (if (n + 1) mod 1024 = 0 then 1 else 0)" by (rule cycle_step) (rule Cons.prems(2))
    have g: "0 \<le> c * ((n + 1) div 1024 - n div 1024)" "c * ((n + 1) div 1024 - n div 1024) < 1024" using c unfolding q by auto
    have r: "\<bar>f + ?d\<bar> \<le> 2147483647" "\<bar>?f\<bar> \<le> 2147483647" "\<bar>?f\<bar> + int (length xs) * 5119 \<le> 2147483647"
      using len dr g by linarith+
    have step: "vexGyroTask_round x (?t f n, s) = Some (?t ?f (n + 1), s\<lparr>GyroValue := cdiv ?f 130\<rparr>)"
      using True r Cons.prems(2,3) unfolding q
      by (cases "(n + 1) mod 1024 = 0")
        (simp_all add: vexGyroTask_round_def d add32_def sub32_def GyroJitterRange_def abs_le_iff Let_def)
    have s: "significant b (x # xs) = ?d # significant b xs" using True by (simp add: significant_def)
    obtain t s' where ih: "vexGyroTask_rounds xs (?t ?f (n + 1), s\<lparr>GyroValue := cdiv ?f 130\<rparr>) = Some (t, s')"
      "xs \<noteq> [] \<longrightarrow> GyroValue s' = cdiv (gyro_raw c ?f (n + 1) (significant b xs)) 130"
      using Cons.IH [of "n + 1" ?f "s\<lparr>GyroValue := cdiv ?f 130\<rparr>"] Cons.prems(1,2,3) r(3) by auto
    have "GyroValue s' = cdiv (gyro_raw c ?f (n + 1) (significant b xs)) 130"
    proof (cases "xs = []")
      case True
      then show ?thesis using ih(1) unfolding True nil gyro_raw_simps(1) by auto
    qed (use ih(2) in blast)
    then have "GyroValue s' = cdiv (gyro_raw c f n (significant b (x # xs))) 130" unfolding s gyro_raw_simps(2) .
    moreover have "vexGyroTask_rounds (x # xs) (?t f n, s) = Some (t, s')" using step ih(1) by simp
    ultimately show ?thesis by blast
  next
    case False
    have step: "vexGyroTask_round x (?t f n, s) = Some (?t f n, s\<lparr>GyroValue := cdiv f 130\<rparr>)"
      using False by (simp add: vexGyroTask_round_def d GyroJitterRange_def Let_def)
    have s: "significant b (x # xs) = significant b xs" using False by (auto simp: significant_def)
    obtain t s' where ih: "vexGyroTask_rounds xs (?t f n, s\<lparr>GyroValue := cdiv f 130\<rparr>) = Some (t, s')"
      "xs \<noteq> [] \<longrightarrow> GyroValue s' = cdiv (gyro_raw c f n (significant b xs)) 130"
      using Cons.IH [of n f "s\<lparr>GyroValue := cdiv f 130\<rparr>"] Cons.prems(1,2,3) len by auto
    have "GyroValue s' = cdiv (gyro_raw c f n (significant b xs)) 130"
    proof (cases "xs = []")
      case True
      then show ?thesis using ih(1) unfolding True nil gyro_raw_simps(1) by auto
    qed (use ih(2) in blast)
    then have "GyroValue s' = cdiv (gyro_raw c f n (significant b (x # xs))) 130" unfolding s .
    moreover have "vexGyroTask_rounds (x # xs) (?t f n, s) = Some (t, s')" using step ih(1) by simp
    ultimately show ?thesis by blast
  qed
qed

text \<open>After the calibration the gyro shows the sum of the deviations above the jitter, in the scale of the sensor, less the
  rest of the bias once in 1024 of them; at rest it stays at zero.\<close>

lemma gyro_integrates:
  assumes "length calibration = 1024" "set calibration \<subseteq> {0..4095}" "set xs \<subseteq> {0..4095}" "xs \<noteq> []" "length xs \<le> 400000"
  defines "b \<equiv> sum_list calibration div 1024" and "c \<equiv> sum_list calibration mod 1024"
  shows "\<exists>t t' s'. vexGyroTask_start calibration = Some t \<and> vexGyroTask_rounds xs (t, s) = Some (t', s') \<and>
    vexGyroGet s' = cdiv (sum_list (significant b xs) - c * (int (length (significant b xs)) div 1024)) 130"
proof -
  have r: "0 \<le> sum_list calibration" "sum_list calibration \<le> 1024 * 4095" using sum_range [OF assms(2)] assms(1) by simp_all
  have bc: "0 \<le> b" "b \<le> 4095" "0 \<le> c" "c < 1024" using r by (auto simp: b_def c_def)
  have "sum32 0 calibration = Some (sum_list calibration)" using sum32_ok [OF assms(2), of 0] assms(1) by simp
  moreover have "cdiv (sum_list calibration) 1024 = b" using r(1) by (auto simp: cdiv_def b_def sgn_if)
  moreover have "sum_list calibration - b * 1024 = c" by (simp add: b_def c_def minus_div_mult_eq_mod)
  ultimately have "vexGyroTask_start calibration = Some \<lparr>GyroBias = b, GyroSmallBias = c, GyroRawFiltered = 0, GyroJitterCycles = 0\<rparr>"
    by (simp add: vexGyroTask_start_def Let_def)
  moreover have "int (length xs) * 5119 \<le> 2147483647" using assms(5) by simp
  ultimately show ?thesis
    using gyro_rounds [OF bc, of xs 0 0 s] assms(3,4,5) by (auto simp: vexGyroGet_def gyro_raw_def)
qed

end
